(* ===== verification/Prelude.thy ===== *)
theory Prelude
  imports Complex_Main "HOL-Library.Multiset" "HOL-Library.Sublist" "HOL-Library.Word"
    "HOL-Library.Char_ord" "HOL-Library.List_Lexorder"
begin

text \<open>
  Generic material the components share: Go maps as association lists, the shape of a
  range loop over a map, the locales for the contracts that several components meet
  (a comparator, a bounded log, a guarded transition system), and small lemmas on lists.
  Nothing here is specific to the gateway or to the core.
\<close>

named_theorems gomap_simps \<open>reading a Go map after it was written\<close>

section \<open>Go maps\<close>

text \<open>
  A Go \<open>map[string]V\<close> is an association list. The order of the list stands for the
  order in which one \<open>range\<close> loop visits the entries; Go leaves that order open, so a
  theorem about an operation is stated for every arrangement of the list.
  \<open>gm_set\<close> is \<open>m[k] = v\<close>, \<open>gm_del\<close> is \<open>delete(m, k)\<close> and \<open>gm_mod\<close> is a write through a
  pointer stored under \<open>k\<close>.
\<close>

type_synonym 'v gomap = "(string \<times> 'v) list"

abbreviation gm_get :: "'v gomap \<Rightarrow> string \<Rightarrow> 'v option" where
  "gm_get m k \<equiv> map_of m k"

abbreviation gm_keys :: "'v gomap \<Rightarrow> string list" where
  "gm_keys m \<equiv> map fst m"

abbreviation gm_wf :: "'v gomap \<Rightarrow> bool" where
  "gm_wf m \<equiv> distinct (map fst m)"

primrec gm_set :: "string \<Rightarrow> 'v \<Rightarrow> 'v gomap \<Rightarrow> 'v gomap" where
  "gm_set k v [] = [(k, v)]"
| "gm_set k v (e # es) = (if fst e = k then (k, v) # es else e # gm_set k v es)"

definition gm_del :: "string \<Rightarrow> 'v gomap \<Rightarrow> 'v gomap" where
  "gm_del k m = filter (\<lambda>e. fst e \<noteq> k) m"

primrec gm_mod :: "string \<Rightarrow> ('v \<Rightarrow> 'v) \<Rightarrow> 'v gomap \<Rightarrow> 'v gomap" where
  "gm_mod k f [] = []"
| "gm_mod k f (e # es) = (if fst e = k then (k, f (snd e)) # es else e # gm_mod k f es)"

lemma map_of_gm_set [simp, gomap_simps]:
  "gm_get (gm_set k v m) k' = (if k' = k then Some v else gm_get m k')"
  by (induction m) auto

lemma map_of_gm_set_fun: "map_of (gm_set k v m) = (map_of m)(k \<mapsto> v)"
  by (rule ext) simp

lemma map_of_gm_del [simp, gomap_simps]:
  "gm_get (gm_del k m) k' = (if k' = k then None else gm_get m k')"
  by (induction m) (auto simp: gm_del_def)

lemma map_of_gm_mod [simp, gomap_simps]:
  "gm_get (gm_mod k f m) k' = (if k' = k then map_option f (gm_get m k) else gm_get m k')"
  by (induction m) auto

lemma keys_gm_mod [simp]: "gm_keys (gm_mod k f m) = gm_keys m"
  by (induction m) auto

lemma keys_gm_set: "gm_keys (gm_set k v m) = (if k \<in> set (gm_keys m) then gm_keys m else gm_keys m @ [k])"
  by (induction m) auto

lemma set_keys_gm_set [simp]: "fst ` set (gm_set k v m) = insert k (fst ` set m)"
  by (induction m) auto

lemma set_keys_gm_del [simp]: "fst ` set (gm_del k m) = fst ` set m - {k}"
  by (induction m) (auto simp: gm_del_def)

lemma set_keys_gm_mod [simp]: "fst ` set (gm_mod k f m) = fst ` set m"
  by (induction m) auto

lemma gm_wf_set [simp, intro]: "gm_wf m \<Longrightarrow> gm_wf (gm_set k v m)"
  by (induction m) auto

lemma gm_wf_del [simp, intro]: "gm_wf m \<Longrightarrow> gm_wf (gm_del k m)"
  by (induction m) (auto simp: gm_del_def)

lemma gm_wf_mod [simp]: "gm_wf (gm_mod k f m) = gm_wf m"
  by simp

lemma gm_wf_get: "gm_wf m \<Longrightarrow> (k, v) \<in> set m \<longleftrightarrow> gm_get m k = Some v"
  by (simp add: map_of_eq_Some_iff)

declare map_of_eq_Some_iff [simp del] Some_eq_map_of_iff [simp del]

lemma gm_get_in_keys: "gm_get m k = Some v \<Longrightarrow> k \<in> fst ` set m"
  by (force dest: map_of_SomeD)

lemma gm_get_None_iff: "gm_get m k = None \<longleftrightarrow> k \<notin> fst ` set m"
  by (simp add: map_of_eq_None_iff)

lemma gm_in_keysE:
  assumes "k \<in> fst ` set m"
  obtains v where "gm_get m k = Some v"
  using assms gm_get_None_iff by fastforce

text \<open>The entries of a map that satisfy a predicate, in range order, as their records.\<close>

definition gm_filter :: "('v \<Rightarrow> bool) \<Rightarrow> 'v gomap \<Rightarrow> 'v gomap" where
  "gm_filter P m = filter (\<lambda>e. P (snd e)) m"

lemma set_gm_filter: "gm_wf m \<Longrightarrow> (k, v) \<in> set (gm_filter P m) \<longleftrightarrow> gm_get m k = Some v \<and> P v"
  by (simp add: gm_filter_def conj_commute map_of_eq_Some_iff)

lemma gm_wf_filter [intro]: "gm_wf m \<Longrightarrow> gm_wf (gm_filter P m)"
  by (induction m) (auto simp: gm_filter_def)

lemma gm_filter_Nil [simp]: "gm_filter P [] = []"
  by (simp add: gm_filter_def)

lemma gm_filter_Cons [simp]:
  "gm_filter P (e # m) = (if P (snd e) then e # gm_filter P m else gm_filter P m)"
  by (simp add: gm_filter_def)

lemma gm_mod_absent: "k \<notin> fst ` set m \<Longrightarrow> gm_mod k f m = m"
  by (induction m) auto

lemma length_filter_mod_off:
  assumes "gm_wf m" and "gm_get m k = Some v" and "P v" and "\<not> P (f v)"
  shows "Suc (length (gm_filter P (gm_mod k f m))) = length (gm_filter P m)"
  using assms
proof (induction m)
  case Nil
  then show ?case by simp
next
  case (Cons e es)
  show ?case
  proof (cases "fst e = k")
    case True
    with Cons.prems show ?thesis by (cases e) auto
  next
    case False
    with Cons show ?thesis by (cases e) auto
  qed
qed

lemma length_filter_mod_on:
  assumes "gm_wf m" and "gm_get m k = Some v" and "\<not> P v" and "P (f v)"
  shows "length (gm_filter P (gm_mod k f m)) = Suc (length (gm_filter P m))"
  using assms
proof (induction m)
  case Nil
  then show ?case by simp
next
  case (Cons e es)
  show ?case
  proof (cases "fst e = k")
    case True
    with Cons.prems show ?thesis by (cases e) auto
  next
    case False
    with Cons show ?thesis by (cases e) auto
  qed
qed

lemma length_filter_mod_keep:
  assumes "gm_wf m" and "\<And>v. gm_get m k = Some v \<Longrightarrow> P (f v) = P v"
  shows "length (gm_filter P (gm_mod k f m)) = length (gm_filter P m)"
  using assms
proof (induction m)
  case Nil
  then show ?case by simp
next
  case (Cons e es)
  show ?case
  proof (cases "fst e = k")
    case True
    with Cons.prems(2) [of "snd e"] show ?thesis by (cases e) auto
  next
    case False
    have "length (gm_filter P (gm_mod k f es)) = length (gm_filter P es)"
      using Cons.prems False by (intro Cons.IH) auto
    with False show ?thesis by simp
  qed
qed

lemma length_filter_set_new:
  assumes "k \<notin> fst ` set m"
  shows "length (gm_filter P (gm_set k v m)) = length (gm_filter P m) + (if P v then 1 else 0)"
  using assms by (induction m) auto

lemma gm_set_absent: "k \<notin> fst ` set m \<Longrightarrow> gm_set k v m = m @ [(k, v)]"
  by (induction m) auto

text \<open>A range loop that rewrites some of the entries it visits rewrites the map entry by entry.\<close>

definition gm_map :: "('v \<Rightarrow> 'w) \<Rightarrow> 'v gomap \<Rightarrow> 'w gomap" where
  "gm_map f m = map (\<lambda>e. (fst e, f (snd e))) m"

lemma gm_map_Nil [simp]: "gm_map f [] = []"
  by (simp add: gm_map_def)

lemma gm_map_Cons [simp]: "gm_map f (e # m) = (fst e, f (snd e)) # gm_map f m"
  by (simp add: gm_map_def)

lemma map_of_gm_map [simp, gomap_simps]: "gm_get (gm_map f m) k = map_option f (gm_get m k)"
  by (induction m) auto

lemma keys_gm_map [simp]: "gm_keys (gm_map f m) = gm_keys m"
  by (induction m) auto

lemma set_keys_gm_map [simp]: "fst ` set (gm_map f m) = fst ` set m"
  by (induction m) auto

lemma gm_mod_append: "k \<notin> fst ` set m \<Longrightarrow> gm_mod k f (m @ es) = m @ gm_mod k f es"
  by (induction m) auto

lemma fold_mod_entries_from:
  assumes "gm_wf (pre @ es)"
  shows "fold (\<lambda>e acc. if P (snd e) then gm_mod (fst e) f acc else acc) es (pre @ es) =
           pre @ gm_map (\<lambda>v. if P v then f v else v) es"
  using assms
proof (induction es arbitrary: pre)
  case Nil
  then show ?case by simp
next
  case (Cons e es)
  define e' where "e' = (fst e, if P (snd e) then f (snd e) else snd e)"
  have "(if P (snd e) then gm_mod (fst e) f (pre @ e # es) else pre @ e # es) = (pre @ [e']) @ es"
    using Cons.prems by (auto simp: e'_def gm_mod_append)
  moreover have "fold (\<lambda>e acc. if P (snd e) then gm_mod (fst e) f acc else acc) es ((pre @ [e']) @ es) =
      (pre @ [e']) @ gm_map (\<lambda>v. if P v then f v else v) es"
    using Cons.prems by (intro Cons.IH) (auto simp: e'_def)
  ultimately show ?case by (simp add: e'_def)
qed

lemma fold_mod_entries:
  "gm_wf m \<Longrightarrow> fold (\<lambda>e acc. if P (snd e) then gm_mod (fst e) f acc else acc) m m =
     gm_map (\<lambda>v. if P v then f v else v) m"
  using fold_mod_entries_from [of "[]" m P f] by simp

lemma length_filter_map: "length (gm_filter P (gm_map f m)) = length (gm_filter (\<lambda>v. P (f v)) m)"
  by (induction m) auto

section \<open>Lists\<close>

text \<open>The last \<open>n\<close> elements, which a bounded log keeps.\<close>

definition take_last :: "nat \<Rightarrow> 'a list \<Rightarrow> 'a list" where
  "take_last n xs = drop (length xs - n) xs"

lemma length_take_last [simp]: "length (take_last n xs) = min n (length xs)"
  by (auto simp: take_last_def)

lemma take_last_all [simp]: "length xs \<le> n \<Longrightarrow> take_last n xs = xs"
  by (simp add: take_last_def)

lemma take_last_append: "length zs = n \<Longrightarrow> take_last n (ys @ zs) = zs"
  by (simp add: take_last_def)

lemma take_last_snoc:
  assumes "0 < n"
  shows "take_last n (take_last n xs @ [x]) = take_last n (xs @ [x])"
proof (cases "length xs < n")
  case True
  then show ?thesis by (simp add: take_last_def)
next
  case False
  define ys zs where "ys = take (length xs - n) xs" and "zs = take_last n xs"
  have xs: "xs = ys @ zs" by (simp add: ys_def zs_def take_last_def)
  have len: "length zs = n" using False by (simp add: zs_def)
  with assms obtain z zs' where z: "zs = z # zs'" by (cases zs) auto
  have "take_last n (zs @ [x]) = zs' @ [x]"
    using take_last_append [of "zs' @ [x]" n "[z]"] z len by simp
  moreover have "take_last n (xs @ [x]) = zs' @ [x]"
    using take_last_append [of "zs' @ [x]" n "ys @ [z]"] z len xs by simp
  ultimately show ?thesis by (simp flip: zs_def)
qed

lemma filter_length_less: "x \<in> set xs \<Longrightarrow> \<not> P x \<Longrightarrow> length (filter P xs) < length xs"
  by (induction xs) (auto simp: le_imp_less_Suc)

lemma fold_invariant:
  "I s \<Longrightarrow> (\<And>x s. x \<in> set xs \<Longrightarrow> I s \<Longrightarrow> I (f x s)) \<Longrightarrow> I (fold f xs s)"
  by (induction xs arbitrary: s) auto

text \<open>
  \<open>sort.Slice\<close> with a comparison function. Go's sort is not stable; this one is. Where the
  slice was filled by a range loop over a map, the arrangement of the map already covers
  every order of equal elements.
\<close>

fun insert_by :: "('a \<Rightarrow> 'a \<Rightarrow> bool) \<Rightarrow> 'a \<Rightarrow> 'a list \<Rightarrow> 'a list" where
  "insert_by lt x [] = [x]"
| "insert_by lt x (y # ys) = (if lt y x then y # insert_by lt x ys else x # y # ys)"

definition sort_slice :: "('a \<Rightarrow> 'a \<Rightarrow> bool) \<Rightarrow> 'a list \<Rightarrow> 'a list" where
  "sort_slice lt xs = foldr (insert_by lt) xs []"

lemma mset_insert_by: "mset (insert_by lt x ys) = add_mset x (mset ys)"
  by (induction ys) auto

lemma mset_sort_slice [simp]: "mset (sort_slice lt xs) = mset xs"
  by (induction xs) (auto simp: sort_slice_def mset_insert_by)

lemma length_sort_slice [simp]: "length (sort_slice lt xs) = length xs"
  by (metis mset_sort_slice size_mset)

lemma set_sort_slice [simp]: "set (sort_slice lt xs) = set xs"
  by (metis mset_sort_slice set_mset_mset)

text \<open>The sort leaves no adjacent or distant pair out of order when the comparison allows it.\<close>

lemma sorted_insert_by:
  assumes "\<And>a b. lt a b \<Longrightarrow> \<not> lt b a" and "\<And>a b c. \<not> lt b a \<Longrightarrow> \<not> lt c b \<Longrightarrow> \<not> lt c a"
    and "sorted_wrt (\<lambda>a b. \<not> lt b a) ys"
  shows "sorted_wrt (\<lambda>a b. \<not> lt b a) (insert_by lt x ys)"
  using assms(3)
proof (induction ys)
  case Nil
  then show ?case by simp
next
  case (Cons y ys)
  have sub: "set (insert_by lt x ys) = insert x (set ys)"
    using mset_insert_by [of lt x ys] by (metis set_mset_add_mset_insert set_mset_mset)
  show ?case
  proof (cases "lt y x")
    case True
    then show ?thesis using Cons assms(1) sub by auto
  next
    case False
    then show ?thesis using Cons.prems assms(2) by auto
  qed
qed

lemma sorted_sort_slice:
  assumes "\<And>a b. lt a b \<Longrightarrow> \<not> lt b a" and "\<And>a b c. \<not> lt b a \<Longrightarrow> \<not> lt c b \<Longrightarrow> \<not> lt c a"
  shows "sorted_wrt (\<lambda>a b. \<not> lt b a) (sort_slice lt xs)"
proof (induction xs)
  case Nil
  then show ?case by (simp add: sort_slice_def)
next
  case (Cons x xs)
  then have "sorted_wrt (\<lambda>a b. \<not> lt b a) (insert_by lt x (sort_slice lt xs))"
    using assms by (intro sorted_insert_by) blast+
  then show ?case by (simp add: sort_slice_def)
qed

text \<open>With distinct keys the sorted arrangement is unique.\<close>

lemma sort_slice_unique:
  fixes f :: "'a \<Rightarrow> 'b::linorder"
  assumes "mset xs = mset ys" and "sorted (map f ys)" and "distinct (map f ys)"
  shows "sort_slice (\<lambda>a b. f a < f b) xs = ys"
proof -
  let ?zs = "sort_slice (\<lambda>a b. f a < f b) xs"
  have m: "mset ?zs = mset ys" using assms(1) by simp
  have "sorted_wrt (\<lambda>a b. \<not> f b < f a) ?zs" by (rule sorted_sort_slice) auto
  then have "sorted (map f ?zs)" by (simp add: sorted_wrt_map linorder_not_less)
  moreover have "distinct (map f ?zs)"
    using m assms(3) by (metis mset_eq_imp_distinct_iff mset_map)
  moreover have "set ?zs = set ys" using m by (metis set_mset_mset)
  moreover have "inj_on f (set ?zs \<union> set ys)"
    using assms(3) calculation(3) by (simp add: distinct_map)
  ultimately show ?thesis using assms(2,3) map_sorted_distinct_set_unique by blast
qed

section \<open>Contracts shared by several components\<close>

text \<open>
  A guarded transition system: where it starts, what a step is, and a predicate every
  step keeps. Each state machine of the development interprets this locale with its own
  start, step and invariant, and takes the fact about reachable states from it.
\<close>

locale guarded_system =
  fixes start :: "'s \<Rightarrow> bool"
    and step :: "'s \<Rightarrow> 's \<Rightarrow> bool"
    and safe :: "'s \<Rightarrow> bool"
  assumes start_safe: "start s \<Longrightarrow> safe s"
    and step_safe: "step s t \<Longrightarrow> safe s \<Longrightarrow> safe t"
begin

lemma steps_safe: "step\<^sup>*\<^sup>* s t \<Longrightarrow> safe s \<Longrightarrow> safe t"
  by (induction rule: rtranclp_induct) (auto intro: step_safe)

lemma reachable_safe: "start s \<Longrightarrow> step\<^sup>*\<^sup>* s t \<Longrightarrow> safe t"
  by (blast intro: start_safe steps_safe)

end

text \<open>
  A log that keeps the newest \<open>cap\<close> entries. The operation the client calls appends one
  entry; the contract says that what is kept is the tail of everything ever appended.
\<close>

locale bounded_log =
  fixes push :: "'a \<Rightarrow> 'a list \<Rightarrow> 'a list"
    and cap :: nat
  assumes cap_pos: "0 < cap"
    and push_small: "length xs \<le> cap \<Longrightarrow> push x xs = take_last cap (xs @ [x])"
begin

lemma length_push: "length xs \<le> cap \<Longrightarrow> length (push x xs) \<le> cap"
  by (simp add: push_small)

lemma fold_push: "fold push xs [] = take_last cap xs"
proof (induction xs rule: rev_induct)
  case Nil
  then show ?case by (simp add: take_last_def)
next
  case (snoc x xs)
  have "fold push (xs @ [x]) [] = push x (take_last cap xs)"
    by (simp add: snoc)
  also have "\<dots> = take_last cap (take_last cap xs @ [x])"
    by (simp add: push_small)
  also have "\<dots> = take_last cap (xs @ [x])"
    using cap_pos by (rule take_last_snoc)
  finally show ?case .
qed

lemma push_last: "length xs \<le> cap \<Longrightarrow> last (push x xs) = x"
  using cap_pos by (simp add: push_small take_last_def last_drop)

end

text \<open>
  A three-way comparator in the convention of Go: negative, zero or positive. The laws are
  those of a total preorder.
\<close>

locale comparator =
  fixes cmp :: "'a \<Rightarrow> 'a \<Rightarrow> int"
  assumes cmp_swap: "sgn (cmp b a) = - sgn (cmp a b)"
    and cmp_trans: "cmp a b \<le> 0 \<Longrightarrow> cmp b c \<le> 0 \<Longrightarrow> cmp a c \<le> 0"
begin

lemma cmp_refl: "cmp a a = 0"
  using cmp_swap [of a a] by (simp add: sgn_if split: if_splits)

lemma cmp_total: "cmp a b \<le> 0 \<or> cmp b a \<le> 0"
  using cmp_swap [of a b] by (auto simp: sgn_if split: if_splits)

lemma cmp_less_swap: "cmp a b < 0 \<longleftrightarrow> 0 < cmp b a"
  using cmp_swap [of a b] by (auto simp: sgn_if split: if_splits)

lemma cmp_zero_swap: "cmp a b = 0 \<longleftrightarrow> cmp b a = 0"
  using cmp_swap [of a b] by (auto simp: sgn_if split: if_splits)

lemma cmp_less_trans:
  assumes "cmp a b < 0" and "cmp b c \<le> 0"
  shows "cmp a c < 0"
proof (rule ccontr)
  assume "\<not> cmp a c < 0"
  then have "cmp c a \<le> 0" using cmp_less_swap [of c a] cmp_zero_swap [of a c] by force
  with assms(2) have "cmp b a \<le> 0" by (rule cmp_trans)
  with assms(1) show False by (simp add: cmp_less_swap)
qed

lemma cmp_less_trans2:
  assumes "cmp a b \<le> 0" and "cmp b c < 0"
  shows "cmp a c < 0"
proof (rule ccontr)
  assume "\<not> cmp a c < 0"
  then have "cmp c a \<le> 0" using cmp_less_swap [of c a] cmp_zero_swap [of a c] by force
  then have "cmp c b \<le> 0" using assms(1) by (rule cmp_trans)
  with assms(2) show False by (simp add: cmp_less_swap)
qed

end

text \<open>
  Evaluation in the kernel: a pattern match on a pair becomes bindings that are computed
  before the body, so that \<open>code_simp\<close> runs the models the way the code runs.
\<close>

lemma case_prod_let [code_unfold]: "case_prod f = (\<lambda>p. let q = p; a = fst q; b = snd q in f a b)"
  by (simp add: split_beta fun_eq_iff)

end
