(* ===== verification/GoStd.thy ===== *)
theory GoStd
  imports Prelude
begin

text \<open>
  The parts of the Go language and standard library the gateway and the core compute with:
  64-bit integers, \<open>strings\<close>, \<open>strconv\<close>, \<open>time\<close>, \<open>encoding/hex\<close> and
  \<open>encoding/base64\<close>. A Go string is its list of bytes, so \<open>length\<close> is Go's \<open>len\<close>.
  Text outside ASCII is its UTF-8 bytes.
\<close>

unbundle bit_operations_syntax

named_theorems go_string_simps \<open>evaluation of the string operations\<close>

section \<open>Integers\<close>

definition max_int64 :: int where
  "max_int64 = 9223372036854775807"

definition min_int64 :: int where
  "min_int64 = - 9223372036854775808"

text \<open>The value of an \<open>int\<close> (64 bits on every platform the gateway is built for) after wrap-around.\<close>

definition wrap64 :: "int \<Rightarrow> int" where
  "wrap64 i = (i + 9223372036854775808) mod 18446744073709551616 - 9223372036854775808"

lemma wrap64_id: "min_int64 \<le> i \<Longrightarrow> i \<le> max_int64 \<Longrightarrow> wrap64 i = i"
  by (simp add: wrap64_def min_int64_def max_int64_def)

definition clamp64 :: "int \<Rightarrow> int" where
  "clamp64 i = (if i < min_int64 then min_int64 else if max_int64 < i then max_int64 else i)"

text \<open>Integer division of Go truncates towards zero.\<close>

definition go_div :: "int \<Rightarrow> int \<Rightarrow> int" where
  "go_div a b = sgn a * sgn b * (\<bar>a\<bar> div \<bar>b\<bar>)"

lemma go_div_nonneg: "0 \<le> a \<Longrightarrow> 0 < b \<Longrightarrow> go_div a b = a div b"
  by (cases "a = 0") (auto simp: go_div_def sgn_if)

section \<open>Bytes and strings\<close>

abbreviation byte_of :: "char \<Rightarrow> nat" where
  "byte_of c \<equiv> of_char c"

abbreviation bytes :: "nat list \<Rightarrow> string" where
  "bytes ns \<equiv> map char_of ns"

definition is_ascii :: "string \<Rightarrow> bool" where
  "is_ascii s = list_all (\<lambda>c. byte_of c < 128) s"

definition ascii_lower_char :: "char \<Rightarrow> char" where
  "ascii_lower_char c =
     (if 65 \<le> byte_of c \<and> byte_of c \<le> 90 then char_of (byte_of c + 32) else c)"

definition ascii_upper_char :: "char \<Rightarrow> char" where
  "ascii_upper_char c =
     (if 97 \<le> byte_of c \<and> byte_of c \<le> 122 then char_of (byte_of c - 32) else c)"

text \<open>
  \<open>strings.ToLower\<close>. On text outside ASCII Go maps each rune by the Unicode tables of its
  runtime; that table is the parameter \<open>uni\<close>.
\<close>

definition to_lower :: "(string \<Rightarrow> string) \<Rightarrow> string \<Rightarrow> string" where
  "to_lower uni s = (if is_ascii s then map ascii_lower_char s else uni s)"

text \<open>The UTF-8 encodings of the runes for which \<open>unicode.IsSpace\<close> holds.\<close>

definition utf8_spaces :: "string list" where
  "utf8_spaces =
     [[CHR 0x20], [CHR 0x09], [CHR 0x0A], [CHR 0x0B], [CHR 0x0C], [CHR 0x0D],
      [CHR 0xC2, CHR 0x85], [CHR 0xC2, CHR 0xA0], [CHR 0xE1, CHR 0x9A, CHR 0x80],
      [CHR 0xE2, CHR 0x80, CHR 0x80], [CHR 0xE2, CHR 0x80, CHR 0x81],
      [CHR 0xE2, CHR 0x80, CHR 0x82], [CHR 0xE2, CHR 0x80, CHR 0x83],
      [CHR 0xE2, CHR 0x80, CHR 0x84], [CHR 0xE2, CHR 0x80, CHR 0x85],
      [CHR 0xE2, CHR 0x80, CHR 0x86], [CHR 0xE2, CHR 0x80, CHR 0x87],
      [CHR 0xE2, CHR 0x80, CHR 0x88], [CHR 0xE2, CHR 0x80, CHR 0x89],
      [CHR 0xE2, CHR 0x80, CHR 0x8A], [CHR 0xE2, CHR 0x80, CHR 0xA8],
      [CHR 0xE2, CHR 0x80, CHR 0xA9], [CHR 0xE2, CHR 0x80, CHR 0xAF],
      [CHR 0xE2, CHR 0x81, CHR 0x9F], [CHR 0xE3, CHR 0x80, CHR 0x80]]"

fun strip_one :: "string list \<Rightarrow> string \<Rightarrow> string option" where
  "strip_one [] s = None"
| "strip_one (p # ps) s =
     (if p \<noteq> [] \<and> take (length p) s = p then Some (drop (length p) s) else strip_one ps s)"

lemma strip_one_shorter: "strip_one ps s = Some s' \<Longrightarrow> length s' < length s"
proof (induction ps)
  case Nil
  then show ?case by simp
next
  case (Cons p ps)
  show ?case
  proof (cases "p \<noteq> [] \<and> take (length p) s = p")
    case True
    then have "length p \<le> length s" by (metis length_take min.absorb_iff2 min.commute)
    with True Cons.prems show ?thesis by (cases p) auto
  next
    case False
    with Cons show ?thesis by auto
  qed
qed

function trim_left_any :: "string list \<Rightarrow> string \<Rightarrow> string" where
  "trim_left_any ps s = (case strip_one ps s of None \<Rightarrow> s | Some s' \<Rightarrow> trim_left_any ps s')"
  by pat_completeness auto
termination
  by (relation "measure (\<lambda>(ps, s). length s)") (auto dest: strip_one_shorter)

declare trim_left_any.simps [simp del]

text \<open>\<open>strings.TrimSpace\<close>, \<open>strings.TrimLeft\<close>, \<open>strings.TrimRight\<close> and \<open>strings.Trim\<close>.\<close>

definition trim_space :: "string \<Rightarrow> string" where
  "trim_space s =
     rev (trim_left_any (map rev utf8_spaces) (rev (trim_left_any utf8_spaces s)))"

text \<open>Visible ASCII text, which \<open>TrimSpace\<close> leaves alone.\<close>

definition visible_char :: "char \<Rightarrow> bool" where
  "visible_char c = (33 \<le> byte_of c \<and> byte_of c \<le> 126)"

lemma strip_one_None: "\<forall>p \<in> set ps. p \<noteq> [] \<longrightarrow> s \<noteq> [] \<longrightarrow> hd p \<noteq> hd s \<Longrightarrow> s \<noteq> [] \<Longrightarrow> strip_one ps s = None"
proof (induction ps)
  case Nil
  then show ?case by simp
next
  case (Cons p ps)
  then have "\<not> (p \<noteq> [] \<and> take (length p) s = p)" by (cases p; cases s) auto
  with Cons show ?case by simp
qed

lemma spaces_invisible: "\<forall>p \<in> set utf8_spaces. \<forall>c \<in> set p. \<not> visible_char c"
  by code_simp

lemma trim_space_visible:
  assumes "s \<noteq> []" and "visible_char (hd s)" and "visible_char (last s)"
  shows "trim_space s = s"
proof -
  have "strip_one utf8_spaces s = None"
  proof (intro strip_one_None ballI impI)
    fix p assume "p \<in> set utf8_spaces" "p \<noteq> []"
    then have "\<not> visible_char (hd p)" using spaces_invisible by simp
    with assms(2) show "hd p \<noteq> hd s" by auto
  qed (rule assms(1))
  then have left: "trim_left_any utf8_spaces s = s" by (subst trim_left_any.simps) simp
  have "strip_one (map rev utf8_spaces) (rev s) = None"
    using assms spaces_invisible
    by (intro strip_one_None) (auto simp: hd_rev dest!: last_in_set)
  then have "trim_left_any (map rev utf8_spaces) (rev s) = rev s" by (subst trim_left_any.simps) simp
  with left show ?thesis by (simp add: trim_space_def)
qed

lemma visible_ascii: "list_all visible_char s \<Longrightarrow> is_ascii s"
  by (auto simp: is_ascii_def list_all_iff visible_char_def)

definition trim_left :: "string \<Rightarrow> string \<Rightarrow> string" where
  "trim_left s cutset = dropWhile (\<lambda>c. c \<in> set cutset) s"

definition trim_right :: "string \<Rightarrow> string \<Rightarrow> string" where
  "trim_right s cutset = rev (dropWhile (\<lambda>c. c \<in> set cutset) (rev s))"

definition trim_both :: "string \<Rightarrow> string \<Rightarrow> string" where
  "trim_both s cutset = trim_right (trim_left s cutset) cutset"

lemma trim_right_no_suffix: "trim_right s cs \<noteq> [] \<Longrightarrow> last (trim_right s cs) \<notin> set cs"
  using hd_dropWhile [of "\<lambda>c. c \<in> set cs" "rev s"] by (auto simp: trim_right_def last_rev)

lemma trim_right_idem [simp]: "trim_right (trim_right s cs) cs = trim_right s cs"
  by (simp add: trim_right_def dropWhile_idem)

lemma trim_right_id: "s = [] \<or> last s \<notin> set cs \<Longrightarrow> trim_right s cs = s"
  by (cases s rule: rev_cases) (auto simp: trim_right_def)

lemma trim_right_Nil [simp]: "trim_right [] cs = []"
  by (simp add: trim_right_def)

text \<open>\<open>strings.Split\<close> with a separator of one byte, \<open>strings.Join\<close>, prefixes and suffixes.\<close>

fun split_on :: "char \<Rightarrow> string \<Rightarrow> string list" where
  "split_on c [] = [[]]"
| "split_on c (x # xs) =
     (if x = c then [] # split_on c xs
      else (case split_on c xs of [] \<Rightarrow> [[x]] | y # ys \<Rightarrow> (x # y) # ys))"

fun join_with :: "string \<Rightarrow> string list \<Rightarrow> string" where
  "join_with sep [] = []"
| "join_with sep [x] = x"
| "join_with sep (x # y # ys) = x @ sep @ join_with sep (y # ys)"

lemma split_on_nonempty [simp]: "split_on c s \<noteq> []"
  by (induction s) (auto split: list.splits)

lemma join_split_on: "join_with [c] (split_on c s) = s"
proof (induction s)
  case Nil
  then show ?case by simp
next
  case (Cons x xs)
  then show ?case by (cases "split_on c xs" rule: list.exhaust; cases "tl (split_on c xs)") auto
qed

lemma split_on_parts: "p \<in> set (split_on c s) \<Longrightarrow> c \<notin> set p"
  by (induction s arbitrary: p) (auto split: list.splits if_splits)

lemma split_on_no_sep: "c \<notin> set s \<Longrightarrow> split_on c s = [s]"
  by (induction s) auto

lemma split_on_append: "c \<notin> set x \<Longrightarrow> split_on c (x @ c # s) = x # split_on c s"
  by (induction x) auto

lemma split_join_with:
  "xs \<noteq> [] \<Longrightarrow> (\<And>x. x \<in> set xs \<Longrightarrow> c \<notin> set x) \<Longrightarrow> split_on c (join_with [c] xs) = xs"
  by (induction "[c]" xs rule: join_with.induct) (auto simp: split_on_no_sep split_on_append)

definition has_prefix :: "string \<Rightarrow> string \<Rightarrow> bool" where
  "has_prefix s p = prefix p s"

definition has_suffix :: "string \<Rightarrow> string \<Rightarrow> bool" where
  "has_suffix s p = suffix p s"

definition contains_str :: "string \<Rightarrow> string \<Rightarrow> bool" where
  "contains_str s p = sublist p s"

definition trim_prefix :: "string \<Rightarrow> string \<Rightarrow> string" where
  "trim_prefix s p = (if has_prefix s p then drop (length p) s else s)"

text \<open>\<open>strings.Fields\<close>: the maximal runs of text that hold no space rune.\<close>

function str_fields_acc :: "string \<Rightarrow> string \<Rightarrow> string list" where
  "str_fields_acc acc s =
     (case s of
        [] \<Rightarrow> (if acc = [] then [] else [rev acc])
      | x # xs \<Rightarrow>
         (case strip_one utf8_spaces s of
            Some s' \<Rightarrow> (if acc = [] then str_fields_acc [] s' else rev acc # str_fields_acc [] s')
          | None \<Rightarrow> str_fields_acc (x # acc) xs))"
  by pat_completeness auto
termination
  by (relation "measure (\<lambda>(acc, s). length s)") (auto dest: strip_one_shorter)

declare str_fields_acc.simps [simp del]

definition str_fields :: "string \<Rightarrow> string list" where
  "str_fields s = str_fields_acc [] s"

text \<open>
  \<open>strings.EqualFold\<close> against an ASCII pattern. Two runes outside ASCII fold to ASCII
  letters: U+017F to \<open>s\<close> and U+212A to \<open>k\<close>.
\<close>

fun equal_fold :: "string \<Rightarrow> string \<Rightarrow> bool" where
  "equal_fold [] s = (s = [])"
| "equal_fold (p # ps) [] = False"
| "equal_fold (p # ps) (x # xs) =
     (if ascii_lower_char x = ascii_lower_char p then equal_fold ps xs
      else if ascii_lower_char p = CHR ''s'' \<and> x = char_of (197 :: nat)
        then (case xs of y # ys \<Rightarrow> y = char_of (191 :: nat) \<and> equal_fold ps ys | [] \<Rightarrow> False)
      else if ascii_lower_char p = CHR ''k'' \<and> x = char_of (226 :: nat)
        then (case xs of y # z # zs \<Rightarrow>
                y = char_of (132 :: nat) \<and> z = char_of (170 :: nat) \<and> equal_fold ps zs
              | _ \<Rightarrow> False)
      else False)"

text \<open>\<open>strings.Compare\<close> orders strings byte by byte, which is the order of \<open>List_Lexorder\<close>.\<close>

definition compare_str :: "string \<Rightarrow> string \<Rightarrow> int" where
  "compare_str a b = (if a < b then - 1 else if b < a then 1 else 0)"

section \<open>Decimal numbers\<close>

definition is_digit :: "char \<Rightarrow> bool" where
  "is_digit c = (48 \<le> byte_of c \<and> byte_of c \<le> 57)"

definition digit_val :: "char \<Rightarrow> int" where
  "digit_val c = int (byte_of c) - 48"

fun digits_val :: "int \<Rightarrow> string \<Rightarrow> int" where
  "digits_val acc [] = acc"
| "digits_val acc (c # cs) = digits_val (10 * acc + digit_val c) cs"

text \<open>
  \<open>strconv.Atoi\<close>: the value and whether the error is nil. A syntax error gives 0, a value
  out of range gives the nearest bound, both with an error.
\<close>

definition atoi :: "string \<Rightarrow> int \<times> bool" where
  "atoi s =
     (let neg = (s \<noteq> [] \<and> hd s = CHR ''-'');
          body = (if s \<noteq> [] \<and> (hd s = CHR ''-'' \<or> hd s = CHR ''+'') then tl s else s)
      in if body = [] \<or> \<not> list_all is_digit body then (0, False)
         else let v = (if neg then - digits_val 0 body else digits_val 0 body)
              in (clamp64 v, clamp64 v = v))"

fun nat_digits :: "nat \<Rightarrow> string" where
  "nat_digits n =
     (if n < 10 then [char_of (48 + n)] else nat_digits (n div 10) @ [char_of (48 + n mod 10)])"

declare nat_digits.simps [simp del]

text \<open>\<open>strconv.Itoa\<close>, \<open>strconv.FormatInt\<close> to base 10 and the \<open>%d\<close> verb.\<close>

definition itoa :: "int \<Rightarrow> string" where
  "itoa i = (if i < 0 then CHR ''-'' # nat_digits (nat (- i)) else nat_digits (nat i))"

section \<open>Time\<close>

text \<open>
  A \<open>time.Time\<close> is the number of nanoseconds since its zero value, midnight UTC of
  January 1 of the year 1; \<open>IsZero\<close> is equality with 0. A \<open>time.Duration\<close> is a number of
  nanoseconds. \<open>Sub\<close> saturates at the bounds of \<open>int64\<close>.
\<close>

type_synonym time = int

type_synonym duration = int

definition time_sub :: "time \<Rightarrow> time \<Rightarrow> duration" where
  "time_sub a b = clamp64 (a - b)"

abbreviation seconds :: "int \<Rightarrow> duration" where
  "seconds n \<equiv> n * 1000000000"

abbreviation minutes :: "int \<Rightarrow> duration" where
  "minutes n \<equiv> seconds (60 * n)"

abbreviation hours :: "int \<Rightarrow> duration" where
  "hours n \<equiv> minutes (60 * n)"

lemma time_sub_gt: "min_int64 \<le> d \<Longrightarrow> d < max_int64 \<Longrightarrow> d < time_sub a b \<longleftrightarrow> d < a - b"
  by (auto simp: time_sub_def clamp64_def min_int64_def max_int64_def)

lemma time_sub_lt: "min_int64 < d \<Longrightarrow> d \<le> max_int64 \<Longrightarrow> time_sub a b < d \<longleftrightarrow> a - b < d"
  by (auto simp: time_sub_def clamp64_def min_int64_def max_int64_def)

definition digit_char :: "int \<Rightarrow> char" where
  "digit_char n = ''0123456789'' ! nat (n mod 10)"

definition pad2 :: "int \<Rightarrow> string" where
  "pad2 n = [digit_char (n div 10), digit_char n]"

definition pad4 :: "int \<Rightarrow> string" where
  "pad4 n = pad2 (n div 100) @ pad2 n"

text \<open>The civil date of a day number of the proleptic Gregorian calendar (day 0 is 0001-01-01).\<close>

definition leap_year :: "int \<Rightarrow> bool" where
  "leap_year y = (y mod 4 = 0 \<and> (y mod 100 \<noteq> 0 \<or> y mod 400 = 0))"

definition month_days :: "bool \<Rightarrow> int list" where
  "month_days leap = [31, if leap then 29 else 28, 31, 30, 31, 30, 31, 31, 30, 31, 30, 31]"

fun month_of :: "int \<Rightarrow> int list \<Rightarrow> int \<Rightarrow> int \<times> int" where
  "month_of m [] d = (m, d + 1)"
| "month_of m (n # ns) d = (if d < n then (m, d + 1) else month_of (m + 1) ns (d - n))"

definition civil_date :: "int \<Rightarrow> int \<times> int \<times> int" where
  "civil_date days =
     (let era = days div 146097; doe = days mod 146097;
          c = min 3 (doe div 36524); r = doe - c * 36524;
          q = r div 1461; r2 = r - q * 1461;
          y = min 3 (r2 div 365); doy = r2 - y * 365;
          year = 1 + 400 * era + 100 * c + 4 * q + y
      in (year, month_of 1 (month_days (leap_year year)) doy))"

text \<open>\<open>t.Format(time.RFC3339)\<close> of a time in UTC, which is how the gateway keeps its times.\<close>

definition rfc3339 :: "time \<Rightarrow> string" where
  "rfc3339 t =
     (let secs = t div 1000000000; sod = secs mod 86400
      in case civil_date (secs div 86400) of
           (y, mo, d) \<Rightarrow>
             pad4 y @ ''-'' @ pad2 mo @ ''-'' @ pad2 d @ ''T'' @
             pad2 (sod div 3600) @ '':'' @ pad2 (sod div 60 mod 60) @ '':'' @ pad2 (sod mod 60) @ ''Z'')"

text \<open>The form \<open>encoding/json\<close> gives a time, with its fraction of a second down to nanoseconds.\<close>

definition pad9 :: "int \<Rightarrow> string" where
  "pad9 n = digit_char (n div 100000000) # pad4 (n div 10000 mod 10000) @ pad4 (n mod 10000)"

definition rfc3339_nano :: "time \<Rightarrow> string" where
  "rfc3339_nano t =
     (let base = rfc3339 t; frac = t mod 1000000000
      in if frac = 0 then base
         else butlast base @ ''.'' @ trim_right (pad9 frac) ''0'' @ ''Z'')"

section \<open>Hexadecimal and base64\<close>

definition hex_digit :: "nat \<Rightarrow> char" where
  "hex_digit n = (if n < 10 then char_of (48 + n) else char_of (87 + n))"

definition hex_encode :: "string \<Rightarrow> string" where
  "hex_encode s = concat (map (\<lambda>c. [hex_digit (byte_of c div 16), hex_digit (byte_of c mod 16)]) s)"

definition b64_char :: "nat \<Rightarrow> char" where
  "b64_char n =
     (if n < 26 then char_of (65 + n) else if n < 52 then char_of (71 + n)
      else if n < 62 then char_of (n - 4) else if n = 62 then CHR ''+'' else CHR ''/'')"

definition b64_val :: "char \<Rightarrow> nat option" where
  "b64_val ch =
     (let b = byte_of ch in
      if 65 \<le> b \<and> b \<le> 90 then Some (b - 65)
      else if 97 \<le> b \<and> b \<le> 122 then Some (b - 71)
      else if 48 \<le> b \<and> b \<le> 57 then Some (b + 4)
      else if ch = CHR ''+'' then Some 62 else if ch = CHR ''/'' then Some 63 else None)"

text \<open>\<open>base64.StdEncoding.EncodeToString\<close>.\<close>

fun b64_encode :: "string \<Rightarrow> string" where
  "b64_encode [] = []"
| "b64_encode [a] =
     (let n = byte_of a
      in [b64_char (n div 4), b64_char (n mod 4 * 16), CHR ''='', CHR ''=''])"
| "b64_encode [a, b] =
     (let n = byte_of a; m = byte_of b
      in [b64_char (n div 4), b64_char (n mod 4 * 16 + m div 16), b64_char (m mod 16 * 4), CHR ''=''])"
| "b64_encode (a # b # c # s) =
     (let n = byte_of a; m = byte_of b; k = byte_of c
      in b64_char (n div 4) # b64_char (n mod 4 * 16 + m div 16)
         # b64_char (m mod 16 * 4 + k div 64) # b64_char (k mod 64) # b64_encode s)"

text \<open>
  \<open>base64.StdEncoding.DecodeString\<close>: carriage returns and newlines are skipped, the
  padding is required, and nothing may follow it. Bits beyond the last byte are ignored.
\<close>

fun b64_quads :: "string \<Rightarrow> string option" where
  "b64_quads [] = Some []"
| "b64_quads (p # q # r # t # s) =
     (case (b64_val p, b64_val q) of
        (Some a, Some b) \<Rightarrow>
          let x = char_of (a * 4 + b div 16) in
          (case b64_val r of
             None \<Rightarrow> (if r = CHR ''='' \<and> t = CHR ''='' \<and> s = [] then Some [x] else None)
           | Some c \<Rightarrow>
               let y = char_of (b mod 16 * 16 + c div 4) in
               (case b64_val t of
                  None \<Rightarrow> (if t = CHR ''='' \<and> s = [] then Some [x, y] else None)
                | Some d \<Rightarrow> map_option (\<lambda>z. x # y # char_of (c mod 4 * 64 + d) # z) (b64_quads s)))
      | _ \<Rightarrow> None)"
| "b64_quads _ = None"

definition b64_decode :: "string \<Rightarrow> string option" where
  "b64_decode s = b64_quads (filter (\<lambda>c. byte_of c \<noteq> 10 \<and> byte_of c \<noteq> 13) s)"

lemma b64_val_char: "n < 64 \<Longrightarrow> b64_val (b64_char n) = Some n"
  by (auto simp: b64_char_def b64_val_def Let_def)

lemma b64_char_not_eol: "n < 64 \<Longrightarrow> byte_of (b64_char n) \<noteq> 10 \<and> byte_of (b64_char n) \<noteq> 13"
  by (auto simp: b64_char_def)

lemma byte_of_less: "byte_of c < 256"
  by simp

lemma b64_val_eq_sign: "b64_val CHR ''='' = None"
  by (simp add: b64_val_def)

lemma byte_div4 [simp]: "byte_of c div 4 < 64"
  using byte_of_less [of c] by linarith

lemma byte_div16 [simp]: "byte_of c div 16 < 16"
  using byte_of_less [of c] by linarith

lemma byte_div64 [simp]: "byte_of c div 64 < 4"
  using byte_of_less [of c] by linarith

lemma b64_mid_less [simp]: "n mod 4 * 16 + byte_of c div 16 < (64 :: nat)"
proof -
  have "n mod 4 \<le> 3" by (simp add: less_Suc_eq_le [symmetric])
  then have "n mod 4 * 16 \<le> 48" by simp
  with byte_div16 [of c] show ?thesis by linarith
qed

lemma b64_mid_less2 [simp]: "n mod 16 * 4 + byte_of c div 64 < (64 :: nat)"
proof -
  have "n mod 16 \<le> 15" by (simp add: less_Suc_eq_le [symmetric])
  then have "n mod 16 * 4 \<le> 60" by simp
  with byte_div64 [of c] show ?thesis by linarith
qed

lemma b64_end_less [simp]: "n mod 4 * 16 < (64 :: nat)" "n mod 16 * 4 < (64 :: nat)"
  using mod_less_divisor [of 4 n] mod_less_divisor [of 16 n] by linarith+

lemma b64_first: "char_of (byte_of a div 4 * 4 + (byte_of a mod 4 * 16 + byte_of b div 16) div 16) = a"
proof -
  have "(byte_of a mod 4 * 16 + byte_of b div 16) div 16 = byte_of a mod 4" by simp
  then show ?thesis by simp
qed

lemma b64_first_pad: "char_of (byte_of a div 4 * 4 + (byte_of a mod 4 * 16) div 16) = a"
  by simp

lemma b64_second:
  "char_of ((byte_of a mod 4 * 16 + byte_of b div 16) mod 16 * 16
     + (byte_of b mod 16 * 4 + byte_of c div 64) div 4) = b"
proof -
  have "(byte_of a mod 4 * 16 + byte_of b div 16) mod 16 = byte_of b div 16" by simp
  moreover have "(byte_of b mod 16 * 4 + byte_of c div 64) div 4 = byte_of b mod 16" by simp
  ultimately show ?thesis by simp
qed

lemma b64_second_pad:
  "char_of ((byte_of a mod 4 * 16 + byte_of b div 16) mod 16 * 16 + (byte_of b mod 16 * 4) div 4) = b"
proof -
  have "(byte_of a mod 4 * 16 + byte_of b div 16) mod 16 = byte_of b div 16" by simp
  then show ?thesis by simp
qed

lemma b64_third: "char_of ((byte_of b mod 16 * 4 + byte_of c div 64) mod 4 * 64 + byte_of c mod 64) = c"
proof -
  have "(byte_of b mod 16 * 4 + byte_of c div 64) mod 4 = byte_of c div 64" by simp
  then show ?thesis by simp
qed

lemma b64_quads_encode: "b64_quads (b64_encode s) = Some s"
proof (induction s rule: b64_encode.induct)
  case 1
  then show ?case by simp
next
  case (2 a)
  then show ?case by (simp add: Let_def b64_val_char b64_val_eq_sign b64_first_pad)
next
  case (3 a b)
  then show ?case by (simp add: Let_def b64_val_char b64_val_eq_sign b64_first b64_second_pad)
next
  case (4 a b c s)
  then show ?case
    by (simp add: Let_def b64_val_char b64_first b64_second b64_third)
qed

lemma b64_encode_no_eol: "filter (\<lambda>c. byte_of c \<noteq> 10 \<and> byte_of c \<noteq> 13) (b64_encode s) = b64_encode s"
  by (induction s rule: b64_encode.induct) (auto simp: Let_def b64_char_not_eol)

lemma b64_decode_encode: "b64_decode (b64_encode s) = Some s"
  by (simp add: b64_decode_def b64_encode_no_eol b64_quads_encode)

lemma b64_encode_inj: "b64_encode a = b64_encode b \<Longrightarrow> a = b"
  using b64_decode_encode by (metis option.inject)

lemma hex_digit_visible: "n < 16 \<Longrightarrow> visible_char (hex_digit n)"
  by (auto simp: hex_digit_def visible_char_def)

lemma hex_encode_visible: "c \<in> set (hex_encode s) \<Longrightarrow> visible_char c"
  by (auto simp: hex_encode_def intro!: hex_digit_visible)

text \<open>Evaluation of \<open>hex_encode\<close> on the bits of a byte.\<close>

definition hex_nibble :: "bool \<Rightarrow> bool \<Rightarrow> bool \<Rightarrow> bool \<Rightarrow> char" where
  "hex_nibble a b c d = hex_digit (of_bool a + 2 * of_bool b + 4 * of_bool c + 8 * of_bool d)"

lemma hex_digit_chars:
  "hex_digit 0 = CHR ''0''"
  "hex_digit (Suc 0) = CHR ''1''"
  "hex_digit 2 = CHR ''2''"
  "hex_digit 3 = CHR ''3''"
  "hex_digit 4 = CHR ''4''"
  "hex_digit 5 = CHR ''5''"
  "hex_digit 6 = CHR ''6''"
  "hex_digit 7 = CHR ''7''"
  "hex_digit 8 = CHR ''8''"
  "hex_digit 9 = CHR ''9''"
  "hex_digit 10 = CHR ''a''"
  "hex_digit 11 = CHR ''b''"
  "hex_digit 12 = CHR ''c''"
  "hex_digit 13 = CHR ''d''"
  "hex_digit 14 = CHR ''e''"
  "hex_digit 15 = CHR ''f''"
  by code_simp+

lemma hex_nibble_code [code]:
  "hex_nibble a b c d =
     (if d then
        (if c then (if b then (if a then CHR ''f'' else CHR ''e'') else (if a then CHR ''d'' else CHR ''c''))
         else (if b then (if a then CHR ''b'' else CHR ''a'') else (if a then CHR ''9'' else CHR ''8'')))
      else
        (if c then (if b then (if a then CHR ''7'' else CHR ''6'') else (if a then CHR ''5'' else CHR ''4''))
         else (if b then (if a then CHR ''3'' else CHR ''2'') else (if a then CHR ''1'' else CHR ''0''))))"
  by (cases a; cases b; cases c; cases d) (simp_all add: hex_nibble_def hex_digit_chars numeral_2_eq_2 [symmetric] numeral_3_eq_3 [symmetric])

lemma hex_encode_code [code]:
  "hex_encode [] = []"
  "hex_encode (Char b0 b1 b2 b3 b4 b5 b6 b7 # s) =
     hex_nibble b4 b5 b6 b7 # hex_nibble b0 b1 b2 b3 # hex_encode s"
proof -
  have "byte_of (Char b0 b1 b2 b3 b4 b5 b6 b7) div 16 =
      (of_bool b4 + 2 * of_bool b5 + 4 * of_bool b6 + 8 * of_bool b7 :: nat)"
    "byte_of (Char b0 b1 b2 b3 b4 b5 b6 b7) mod 16 =
      (of_bool b0 + 2 * of_bool b1 + 4 * of_bool b2 + 8 * of_bool b3 :: nat)"
    by (simp_all add: of_char_def split del: split_of_bool)
       (cases b0; cases b1; cases b2; cases b3; cases b4; cases b5; cases b6; cases b7; simp)+
  then show "hex_encode (Char b0 b1 b2 b3 b4 b5 b6 b7 # s) =
     hex_nibble b4 b5 b6 b7 # hex_nibble b0 b1 b2 b3 # hex_encode s"
    by (simp add: hex_encode_def hex_nibble_def)
qed (simp add: hex_encode_def)

end
