(* ===== verification/GoJson.thy ===== *)
theory GoJson
  imports GoStd
begin

text \<open>
  Go's dynamic values (\<open>any\<close>) as the gateway builds and inspects them, and the helper
  functions of \<open>device_gateway/main.go\<close> that read them. \<open>encoding/json\<close> decodes every
  number into a \<open>float64\<close>, here the rational number it denotes; a payload the gateway
  builds itself may also hold an \<open>int\<close>.
\<close>

datatype any =
    VNil
  | VBool bool
  | VInt int
  | VFloat rat
  | VStr string
  | VList "any list"
  | VMap "(string \<times> any) list"

type_synonym anymap = "any gomap"

text \<open>\<open>m[k]\<close> of a \<open>map[string]any\<close>: the zero value \<open>nil\<close> for an absent key or a nil map.\<close>

definition any_index :: "anymap \<Rightarrow> string \<Rightarrow> any" where
  "any_index m k = (case gm_get m k of None \<Rightarrow> VNil | Some v \<Rightarrow> v)"

definition mapFromAny :: "any \<Rightarrow> anymap option" where
  "mapFromAny v = (case v of VMap m \<Rightarrow> Some m | _ \<Rightarrow> None)"

definition stringFromAny :: "any \<Rightarrow> string" where
  "stringFromAny v = (case v of VStr s \<Rightarrow> s | _ \<Rightarrow> [])"

text \<open>
  The conversion \<open>int(f)\<close> of a \<open>float64\<close> truncates towards zero. Outside the range of
  \<open>int64\<close> the language leaves the result to the implementation: the parameter \<open>f2i\<close>.
\<close>

definition float_to_int :: "(rat \<Rightarrow> int) \<Rightarrow> rat \<Rightarrow> int" where
  "float_to_int f2i q =
     (let t = (if q < 0 then - \<lfloor>- q\<rfloor> else \<lfloor>q\<rfloor>)
      in if min_int64 \<le> t \<and> t \<le> max_int64 then t else f2i q)"

definition intFromAny :: "(rat \<Rightarrow> int) \<Rightarrow> any \<Rightarrow> int" where
  "intFromAny f2i v =
     (case v of
        VInt i \<Rightarrow> i
      | VFloat q \<Rightarrow> float_to_int f2i q
      | VStr s \<Rightarrow> fst (atoi s)
      | _ \<Rightarrow> 0)"

definition intPtrFromAny :: "(rat \<Rightarrow> int) \<Rightarrow> any \<Rightarrow> int option" where
  "intPtrFromAny f2i v = (case v of VNil \<Rightarrow> None | _ \<Rightarrow> Some (intFromAny f2i v))"

definition valueOrZero :: "int option \<Rightarrow> int" where
  "valueOrZero p = (case p of None \<Rightarrow> 0 | Some v \<Rightarrow> v)"

definition nullableLimit :: "int \<Rightarrow> any" where
  "nullableLimit v = (if v \<le> 0 then VNil else VInt v)"

definition timePtrString :: "time option \<Rightarrow> any" where
  "timePtrString p = (case p of None \<Rightarrow> VNil | Some t \<Rightarrow> VStr (rfc3339 t))"

definition boolToInt :: "bool \<Rightarrow> int" where
  "boolToInt b = (if b then 1 else 0)"

definition maxInt :: "int \<Rightarrow> int \<Rightarrow> int" where
  "maxInt a b = (if a > b then a else b)"

lemma any_index_set [simp]: "any_index (gm_set k v m) k' = (if k' = k then v else any_index m k')"
  by (simp add: any_index_def)

lemma nullableLimit_VNil_iff: "nullableLimit v = VNil \<longleftrightarrow> v \<le> 0"
  by (simp add: nullableLimit_def)

lemma intFromAny_VFloat_of_int:
  "min_int64 \<le> i \<Longrightarrow> i \<le> max_int64 \<Longrightarrow> intFromAny f2i (VFloat (of_int i)) = i"
  by (simp add: intFromAny_def float_to_int_def Let_def)

end
