(* ===== verification/GatewayTypes.thy ===== *)
theory GatewayTypes
  imports GoJson
begin

text \<open>
  The data of the device gateway (\<open>device_gateway/main.go\<close>): its configuration, the records
  it stores, the requests and responses it exchanges, and the code outside the repository
  it calls. Record fields carry the Go field names after a short prefix per struct.
\<close>

section \<open>Constants\<close>

definition statusActive :: string where "statusActive = ''active''"

definition statusRevoked :: string where "statusRevoked = ''revoked''"

definition statusExpired :: string where "statusExpired = ''expired''"

definition policyStrict :: string where "policyStrict = ''strict''"

definition policyKickOldest :: string where "policyKickOldest = ''kick_oldest''"

definition adminDefaultPageSize :: int where "adminDefaultPageSize = 30"

definition adminMaxPageSize :: int where "adminMaxPageSize = 100"

lemma status_distinct [simp]:
  "statusActive \<noteq> statusRevoked" "statusRevoked \<noteq> statusActive"
  "statusActive \<noteq> statusExpired" "statusExpired \<noteq> statusActive"
  "statusRevoked \<noteq> statusExpired" "statusExpired \<noteq> statusRevoked"
  by (simp_all add: statusActive_def statusRevoked_def statusExpired_def)

lemma policy_distinct [simp]:
  "policyStrict \<noteq> policyKickOldest" "policyKickOldest \<noteq> policyStrict"
  by (simp_all add: policyStrict_def policyKickOldest_def)

section \<open>Configuration\<close>

record Config =
  cfg_ListenAddr :: string
  cfg_BusinessBaseURLs :: "string list"
  cfg_PublicBaseURL :: string
  cfg_GatewayURLs :: "string list"
  cfg_APIPrefix :: string
  cfg_DataFile :: string
  cfg_AdminToken :: string
  cfg_TokenSecret :: string
  cfg_SessionTTL :: duration
  cfg_DevicePolicy :: string
  cfg_DefaultDeviceLimit :: int
  cfg_HTTPTimeout :: duration
  cfg_BusinessFailureThreshold :: int
  cfg_BusinessCircuitBreak :: duration
  cfg_BusinessHealthInterval :: duration
  cfg_BusinessRecoverySuccess :: int
  cfg_BusinessBackupMinHold :: duration
  cfg_TrustForwardedFor :: bool
  cfg_IPRegionDB :: string
  cfg_PostgresDSN :: string

section \<open>Stored records\<close>

record UserCache =
  u_ID :: string
  u_BusinessUserID :: string
  u_Email :: string
  u_PlanID :: int
  u_PlanName :: string
  u_DeviceLimit :: "int option"
  u_DeviceLimitOverride :: "int option"
  u_LastSyncedAt :: time
  u_CreatedAt :: time
  u_UpdatedAt :: time

record DeviceRecord =
  d_ID :: string
  d_UserID :: string
  d_DeviceIDHash :: string
  d_DeviceName :: string
  d_Platform :: string
  d_AppVersion :: string
  d_OSVersion :: string
  d_Status :: string
  d_LastSeenAt :: time
  d_CreatedAt :: time
  d_RevokedAt :: "time option"
  d_RevokedBy :: string
  d_LastIP :: string
  d_LastIPRegion :: string
  d_LastIPISP :: string
  d_UserAgent :: string

record SessionRecord =
  s_ID :: string
  s_UserID :: string
  s_DeviceID :: string
  s_TokenHash :: string
  s_BusinessTokenCipher :: string
  s_BusinessSubURLCipher :: string
  s_SubscribeTokenHash :: string
  s_SubscribeTokenCipher :: string
  s_Status :: string
  s_ExpiresAt :: time
  s_CreatedAt :: time
  s_LastSeenAt :: time
  s_LastIP :: string
  s_UserAgent :: string

record AuditLog =
  a_ID :: string
  a_UserID :: string
  a_DeviceID :: string
  a_Action :: string
  a_Actor :: string
  a_IP :: string
  a_UserAgent :: string
  a_Details :: "anymap option"
  a_CreatedAt :: time

section \<open>Requests from clients and data from the business backend\<close>

record LoginRequest =
  lr_Email :: string
  lr_Password :: string
  lr_DeviceID :: string
  lr_DeviceName :: string
  lr_Platform :: string
  lr_AppVersion :: string
  lr_OSVersion :: string
  lr_DeviceInfo :: "anymap option"

record SubscriptionSnapshot =
  sn_Email :: string
  sn_UUID :: string
  sn_PlanID :: int
  sn_PlanName :: string
  sn_DeviceLimit :: "int option"
  sn_DeviceLimitSet :: bool
  sn_SubscribeURL :: string
  sn_SubscribeToken :: string

text \<open>\<open>SessionContext\<close>: the copies of the records a request was authorized against.\<close>

record SessionContext =
  ctx_User :: UserCache
  ctx_Device :: DeviceRecord
  ctx_Session :: SessionRecord
  ctx_BusinessToken :: string
  ctx_SubscribeToken :: string

record IPRegionInfo =
  ri_Location :: string
  ri_ISP :: string

section \<open>Code outside the repository\<close>

text \<open>
  One record holds what the gateway calls and this development does not define: the
  cryptographic primitives (HMAC-SHA256, SHA-256, AES-GCM, Ed25519, the random source), the
  Unicode and floating-point tables of the Go runtime, the parsers of \<open>net\<close>, \<open>net/url\<close> and
  \<open>encoding/json\<close>, the ip2region database, and the rounding PostgreSQL applies to a
  timestamp. \<open>x_parse_ip\<close> gives the 16 bytes of \<open>net.ParseIP\<close>. Every theorem holds for all values of these parameters that meet its stated
  hypotheses. \<open>x_rand i n\<close> is the \<open>n\<close> bytes that the \<open>i\<close>-th read of the random source
  returns.
\<close>

record ip_info =
  ii_Country :: string
  ii_Province :: string
  ii_City :: string
  ii_Region :: string
  ii_ISP :: string

record parsed_url =
  pu_Scheme :: string
  pu_Host :: string
  pu_Path :: string
  pu_RawQuery :: string

record ext =
  x_hmac :: "string \<Rightarrow> string \<Rightarrow> string"
  x_sha256 :: "string \<Rightarrow> string"
  x_seal :: "string \<Rightarrow> string \<Rightarrow> string \<Rightarrow> string"
  x_open :: "string \<Rightarrow> string \<Rightarrow> string \<Rightarrow> string option"
  x_ed25519_verify :: "string \<Rightarrow> string \<Rightarrow> string \<Rightarrow> bool"
  x_rand :: "nat \<Rightarrow> nat \<Rightarrow> string"
  x_unicode_lower :: "string \<Rightarrow> string"
  x_float_to_int :: "rat \<Rightarrow> int"
  x_json_parse :: "string \<Rightarrow> any option"
  x_json_text :: "any \<Rightarrow> string option"
  x_json_int :: "string \<Rightarrow> int option"
  x_url_parse :: "string \<Rightarrow> parsed_url option"
  x_url_string :: "parsed_url \<Rightarrow> string"
  x_parse_ip :: "string \<Rightarrow> nat list option"
  x_split_host_port :: "string \<Rightarrow> (string \<times> string) option"
  x_ip_region :: "string \<Rightarrow> ip_info option"
  x_pg_time :: "time \<Rightarrow> time"

text \<open>
  \<open>encryptString\<close> and \<open>decryptString\<close>: AES-GCM with a fresh nonce of 12 bytes in front of
  the ciphertext, in base64. \<open>aes.NewCipher\<close> refuses a key that is not 16, 24 or 32 bytes.
\<close>

definition aes_key_ok :: "string \<Rightarrow> bool" where
  "aes_key_ok key = (length key = 16 \<or> length key = 24 \<or> length key = 32)"

definition encryptString :: "ext \<Rightarrow> string \<Rightarrow> string \<Rightarrow> string \<Rightarrow> string option" where
  "encryptString x key nonce plaintext =
     (if aes_key_ok key then Some (b64_encode (nonce @ x_seal x key nonce plaintext)) else None)"

definition decryptString :: "ext \<Rightarrow> string \<Rightarrow> string \<Rightarrow> string option" where
  "decryptString x key encoded =
     (case b64_decode encoded of
        None \<Rightarrow> None
      | Some raw \<Rightarrow>
          if \<not> aes_key_ok key then None
          else if length raw < 12 then None
          else x_open x key (take 12 raw) (drop 12 raw))"

definition deriveKey :: "ext \<Rightarrow> string \<Rightarrow> string" where
  "deriveKey x secret = x_sha256 x secret"

text \<open>\<open>randomHex\<close> at position \<open>i\<close> of the random source.\<close>

definition randomHex :: "ext \<Rightarrow> nat \<Rightarrow> nat \<Rightarrow> string" where
  "randomHex x i nbytes = hex_encode (x_rand x i nbytes)"

text \<open>\<open>hashValue\<close>: HMAC-SHA256 under the token secret of the scope, a zero byte and the value.\<close>

definition hashValue :: "ext \<Rightarrow> Config \<Rightarrow> string \<Rightarrow> string \<Rightarrow> string" where
  "hashValue x cfg scope v = hex_encode (x_hmac x (cfg_TokenSecret cfg) (scope @ [CHR 0x00] @ v))"

definition stableShortID :: "string \<Rightarrow> string" where
  "stableShortID hash = (if length hash \<le> 20 then hash else take 20 hash)"

definition to_lower_x :: "ext \<Rightarrow> string \<Rightarrow> string" where
  "to_lower_x x s = to_lower (x_unicode_lower x) s"

end
