(* ===== verification/Store.thy ===== *)
theory Store
  imports GatewayTypes
begin

text \<open>
  The gateway's store: \<open>Store\<close> of \<open>device_gateway/main.go\<close> with its session indexes and
  dirty sets, and the PostgreSQL persistence of \<open>device_gateway/store_postgres.go\<close>. Every
  operation here runs under the store's mutex, so it is one function on the state.
\<close>

section \<open>State\<close>

text \<open>The four tables of the database, by primary key.\<close>

record PgDb =
  pg_users :: "UserCache gomap"
  pg_devices :: "DeviceRecord gomap"
  pg_sessions :: "SessionRecord gomap"
  pg_audits :: "AuditLog gomap"

text \<open>What the JSON data file holds: the exported fields of \<open>Store\<close>.\<close>

record Snapshot =
  sp_Users :: "UserCache gomap"
  sp_Devices :: "DeviceRecord gomap"
  sp_Sessions :: "SessionRecord gomap"
  sp_Audits :: "AuditLog list"

text \<open>
  \<open>st_pg\<close> is the database behind \<open>s.pg\<close> (\<open>None\<close> for a nil pointer), \<open>st_file\<close> the data
  file at \<open>s.path\<close>, and \<open>st_rng\<close> the number of reads of the random source so far. A nil map
  of the Go struct is the empty map, which reads the same.
\<close>

record Store =
  st_pg :: "PgDb option"
  st_file :: "Snapshot option"
  st_rng :: nat
  st_sessionByTokenHash :: "string gomap"
  st_sessionBySubscribeHash :: "string gomap"
  st_dirtyUsers :: "unit gomap"
  st_dirtyDevices :: "unit gomap"
  st_dirtySessions :: "unit gomap"
  st_dirtyAudits :: "AuditLog gomap"
  st_deletedDevices :: "unit gomap"
  st_deletedSessions :: "unit gomap"
  st_deletedAudits :: "unit gomap"
  st_revision :: "64 word"
  st_Users :: "UserCache gomap"
  st_Devices :: "DeviceRecord gomap"
  st_Sessions :: "SessionRecord gomap"
  st_Audits :: "AuditLog list"

definition emptyStore :: "PgDb option \<Rightarrow> Snapshot option \<Rightarrow> Store" where
  "emptyStore pg file =
     \<lparr>st_pg = pg, st_file = file, st_rng = 0,
      st_sessionByTokenHash = [], st_sessionBySubscribeHash = [],
      st_dirtyUsers = [], st_dirtyDevices = [], st_dirtySessions = [], st_dirtyAudits = [],
      st_deletedDevices = [], st_deletedSessions = [], st_deletedAudits = [],
      st_revision = 0, st_Users = [], st_Devices = [], st_Sessions = [], st_Audits = []\<rparr>"

section \<open>Marking changes\<close>

definition markUserLocked :: "string \<Rightarrow> Store \<Rightarrow> Store" where
  "markUserLocked uid s =
     s\<lparr>st_dirtyUsers := gm_set uid () (st_dirtyUsers s),
       st_revision := st_revision s + 1\<rparr>"

definition markDeviceLocked :: "string \<Rightarrow> Store \<Rightarrow> Store" where
  "markDeviceLocked did s =
     s\<lparr>st_deletedDevices := gm_del did (st_deletedDevices s),
       st_dirtyDevices := gm_set did () (st_dirtyDevices s),
       st_revision := st_revision s + 1\<rparr>"

definition markSessionLocked :: "string \<Rightarrow> Store \<Rightarrow> Store" where
  "markSessionLocked sid s =
     s\<lparr>st_deletedSessions := gm_del sid (st_deletedSessions s),
       st_dirtySessions := gm_set sid () (st_dirtySessions s),
       st_revision := st_revision s + 1\<rparr>"

definition markAuditLocked :: "AuditLog \<Rightarrow> Store \<Rightarrow> Store" where
  "markAuditLocked audit s =
     s\<lparr>st_deletedAudits := gm_del (a_ID audit) (st_deletedAudits s),
       st_dirtyAudits := gm_set (a_ID audit) audit (st_dirtyAudits s),
       st_revision := st_revision s + 1\<rparr>"

definition deleteDeviceLocked :: "string \<Rightarrow> Store \<Rightarrow> Store" where
  "deleteDeviceLocked did s =
     s\<lparr>st_dirtyDevices := gm_del did (st_dirtyDevices s),
       st_deletedDevices := gm_set did () (st_deletedDevices s),
       st_Devices := gm_del did (st_Devices s),
       st_revision := st_revision s + 1\<rparr>"

definition unindexSession :: "string \<Rightarrow> Store \<Rightarrow> Store" where
  "unindexSession sid s =
     (case gm_get (st_Sessions s) sid of
        None \<Rightarrow> s
      | Some session \<Rightarrow>
          s\<lparr>st_sessionByTokenHash := gm_del (s_TokenHash session) (st_sessionByTokenHash s),
            st_sessionBySubscribeHash :=
              gm_del (s_SubscribeTokenHash session) (st_sessionBySubscribeHash s)\<rparr>)"

definition deleteSessionLocked :: "string \<Rightarrow> Store \<Rightarrow> Store" where
  "deleteSessionLocked sid s =
     (let s1 = unindexSession sid s in
      s1\<lparr>st_dirtySessions := gm_del sid (st_dirtySessions s1),
         st_deletedSessions := gm_set sid () (st_deletedSessions s1),
         st_Sessions := gm_del sid (st_Sessions s1),
         st_revision := st_revision s1 + 1\<rparr>)"

section \<open>Session indexes\<close>

definition index_entry :: "string \<Rightarrow> string \<Rightarrow> string gomap \<Rightarrow> string gomap" where
  "index_entry hash sid idx = (if hash \<noteq> [] then gm_set hash sid idx else idx)"

definition indexSessionLocked :: "SessionRecord \<Rightarrow> Store \<Rightarrow> Store" where
  "indexSessionLocked session s =
     s\<lparr>st_sessionByTokenHash :=
         index_entry (s_TokenHash session) (s_ID session) (st_sessionByTokenHash s),
       st_sessionBySubscribeHash :=
         index_entry (s_SubscribeTokenHash session) (s_ID session) (st_sessionBySubscribeHash s)\<rparr>"

definition rebuildSessionIndexesLocked :: "Store \<Rightarrow> Store" where
  "rebuildSessionIndexesLocked s =
     s\<lparr>st_sessionByTokenHash :=
         fold (\<lambda>e. index_entry (s_TokenHash (snd e)) (fst e)) (st_Sessions s) [],
       st_sessionBySubscribeHash :=
         fold (\<lambda>e. index_entry (s_SubscribeTokenHash (snd e)) (fst e)) (st_Sessions s) []\<rparr>"

section \<open>Changes to persist\<close>

record PostgresChanges =
  pc_Users :: "UserCache gomap"
  pc_Devices :: "DeviceRecord gomap"
  pc_Sessions :: "SessionRecord gomap"
  pc_Audits :: "AuditLog gomap"
  pc_DeletedDevices :: "string list"
  pc_DeletedSessions :: "string list"
  pc_DeletedAudits :: "string list"

definition changesEmpty :: "PostgresChanges \<Rightarrow> bool" where
  "changesEmpty c =
     (pc_Users c = [] \<and> pc_Devices c = [] \<and> pc_Sessions c = [] \<and> pc_Audits c = [] \<and>
      pc_DeletedDevices c = [] \<and> pc_DeletedSessions c = [] \<and> pc_DeletedAudits c = [])"

definition keysOf :: "unit gomap \<Rightarrow> string list" where
  "keysOf m = map fst m"

text \<open>The loop \<open>for id := range dirty { if record := m[id]; record != nil { out[id] = record } }\<close>.\<close>

fun collect_dirty :: "'v gomap \<Rightarrow> string list \<Rightarrow> 'v gomap \<Rightarrow> 'v gomap" where
  "collect_dirty m [] out = out"
| "collect_dirty m (k # ks) out =
     collect_dirty m ks (case gm_get m k of None \<Rightarrow> out | Some r \<Rightarrow> gm_set k r out)"

fun copy_all :: "'v gomap \<Rightarrow> 'v gomap \<Rightarrow> 'v gomap" where
  "copy_all [] out = out"
| "copy_all (e # es) out = copy_all es (gm_set (fst e) (snd e) out)"

definition postgresChangesLocked :: "Store \<Rightarrow> PostgresChanges" where
  "postgresChangesLocked s =
     \<lparr>pc_Users = collect_dirty (st_Users s) (keysOf (st_dirtyUsers s)) [],
      pc_Devices = collect_dirty (st_Devices s) (keysOf (st_dirtyDevices s)) [],
      pc_Sessions = collect_dirty (st_Sessions s) (keysOf (st_dirtySessions s)) [],
      pc_Audits = copy_all (st_dirtyAudits s) [],
      pc_DeletedDevices = keysOf (st_deletedDevices s),
      pc_DeletedSessions = keysOf (st_deletedSessions s),
      pc_DeletedAudits = keysOf (st_deletedAudits s)\<rparr>"

definition clearDirtyLocked :: "Store \<Rightarrow> Store" where
  "clearDirtyLocked s =
     s\<lparr>st_dirtyUsers := [], st_dirtyDevices := [], st_dirtySessions := [], st_dirtyAudits := [],
       st_deletedDevices := [], st_deletedSessions := [], st_deletedAudits := []\<rparr>"

definition hasPendingChangesLocked :: "Store \<Rightarrow> bool" where
  "hasPendingChangesLocked s =
     (st_dirtyUsers s \<noteq> [] \<or> st_dirtyDevices s \<noteq> [] \<or> st_dirtySessions s \<noteq> [] \<or>
      st_dirtyAudits s \<noteq> [] \<or> st_deletedDevices s \<noteq> [] \<or> st_deletedSessions s \<noteq> [] \<or>
      st_deletedAudits s \<noteq> [])"

section \<open>PostgreSQL\<close>

text \<open>
  What a row holds after \<open>INSERT\<close>: the record with its timestamps as the database keeps
  them. \<open>ON CONFLICT(id) DO UPDATE\<close> sets every column but \<open>created_at\<close>.
\<close>

definition user_row :: "ext \<Rightarrow> UserCache \<Rightarrow> UserCache" where
  "user_row x u =
     u\<lparr>u_LastSyncedAt := x_pg_time x (u_LastSyncedAt u),
       u_CreatedAt := x_pg_time x (u_CreatedAt u),
       u_UpdatedAt := x_pg_time x (u_UpdatedAt u)\<rparr>"

definition device_row :: "ext \<Rightarrow> DeviceRecord \<Rightarrow> DeviceRecord" where
  "device_row x d =
     d\<lparr>d_LastSeenAt := x_pg_time x (d_LastSeenAt d),
       d_CreatedAt := x_pg_time x (d_CreatedAt d),
       d_RevokedAt := map_option (x_pg_time x) (d_RevokedAt d)\<rparr>"

definition session_row :: "ext \<Rightarrow> SessionRecord \<Rightarrow> SessionRecord" where
  "session_row x ses =
     ses\<lparr>s_ExpiresAt := x_pg_time x (s_ExpiresAt ses),
         s_CreatedAt := x_pg_time x (s_CreatedAt ses),
         s_LastSeenAt := x_pg_time x (s_LastSeenAt ses)\<rparr>"

definition audit_row :: "ext \<Rightarrow> AuditLog \<Rightarrow> AuditLog" where
  "audit_row x a = a\<lparr>a_CreatedAt := x_pg_time x (a_CreatedAt a)\<rparr>"

definition upsert_user :: "ext \<Rightarrow> UserCache \<Rightarrow> UserCache gomap \<Rightarrow> UserCache gomap" where
  "upsert_user x u t =
     gm_set (u_ID u)
       (case gm_get t (u_ID u) of
          None \<Rightarrow> user_row x u
        | Some old \<Rightarrow> (user_row x u)\<lparr>u_CreatedAt := u_CreatedAt old\<rparr>) t"

definition upsert_device :: "ext \<Rightarrow> DeviceRecord \<Rightarrow> DeviceRecord gomap \<Rightarrow> DeviceRecord gomap" where
  "upsert_device x d t =
     gm_set (d_ID d)
       (case gm_get t (d_ID d) of
          None \<Rightarrow> device_row x d
        | Some old \<Rightarrow> (device_row x d)\<lparr>d_CreatedAt := d_CreatedAt old\<rparr>) t"

definition upsert_session :: "ext \<Rightarrow> SessionRecord \<Rightarrow> SessionRecord gomap \<Rightarrow> SessionRecord gomap" where
  "upsert_session x ses t =
     gm_set (s_ID ses)
       (case gm_get t (s_ID ses) of
          None \<Rightarrow> session_row x ses
        | Some old \<Rightarrow> (session_row x ses)\<lparr>s_CreatedAt := s_CreatedAt old\<rparr>) t"

definition upsert_audit :: "ext \<Rightarrow> AuditLog \<Rightarrow> AuditLog gomap \<Rightarrow> AuditLog gomap" where
  "upsert_audit x a t =
     gm_set (a_ID a)
       (case gm_get t (a_ID a) of
          None \<Rightarrow> audit_row x a
        | Some old \<Rightarrow> (audit_row x a)\<lparr>a_CreatedAt := a_CreatedAt old\<rparr>) t"

definition upsertUsers :: "ext \<Rightarrow> UserCache gomap \<Rightarrow> PgDb \<Rightarrow> PgDb" where
  "upsertUsers x us db =
     db\<lparr>pg_users := fold (\<lambda>e. upsert_user x (snd e)) us (pg_users db)\<rparr>"

definition upsertDevices :: "ext \<Rightarrow> DeviceRecord gomap \<Rightarrow> PgDb \<Rightarrow> PgDb" where
  "upsertDevices x ds db =
     db\<lparr>pg_devices := fold (\<lambda>e. upsert_device x (snd e)) ds (pg_devices db)\<rparr>"

definition upsertSessions :: "ext \<Rightarrow> SessionRecord gomap \<Rightarrow> PgDb \<Rightarrow> PgDb" where
  "upsertSessions x ss db =
     db\<lparr>pg_sessions := fold (\<lambda>e. upsert_session x (snd e)) ss (pg_sessions db)\<rparr>"

definition upsertAuditRecords :: "ext \<Rightarrow> AuditLog gomap \<Rightarrow> PgDb \<Rightarrow> PgDb" where
  "upsertAuditRecords x as db =
     db\<lparr>pg_audits := fold (\<lambda>e. upsert_audit x (snd e)) as (pg_audits db)\<rparr>"

definition upsertAuditLogs :: "ext \<Rightarrow> AuditLog list \<Rightarrow> PgDb \<Rightarrow> PgDb" where
  "upsertAuditLogs x as db =
     upsertAuditRecords x (fold (\<lambda>a. gm_set (a_ID a) a) as []) db"

definition delete_ids :: "string list \<Rightarrow> 'v gomap \<Rightarrow> 'v gomap" where
  "delete_ids ids t = filter (\<lambda>e. fst e \<notin> set ids) t"

definition keep_ids :: "string list \<Rightarrow> 'v gomap \<Rightarrow> 'v gomap" where
  "keep_ids ids t = filter (\<lambda>e. fst e \<in> set ids) t"

definition deleteOrphanUsers :: "UserCache gomap \<Rightarrow> PgDb \<Rightarrow> PgDb" where
  "deleteOrphanUsers us db = db\<lparr>pg_users := keep_ids (gm_keys us) (pg_users db)\<rparr>"

definition deleteOrphanDevices :: "DeviceRecord gomap \<Rightarrow> PgDb \<Rightarrow> PgDb" where
  "deleteOrphanDevices ds db = db\<lparr>pg_devices := keep_ids (gm_keys ds) (pg_devices db)\<rparr>"

definition deleteOrphanSessions :: "SessionRecord gomap \<Rightarrow> PgDb \<Rightarrow> PgDb" where
  "deleteOrphanSessions ss db = db\<lparr>pg_sessions := keep_ids (gm_keys ss) (pg_sessions db)\<rparr>"

text \<open>
  The effect of the two transactions when they commit: \<open>SaveAll\<close> rewrites every table,
  \<open>SaveChanges\<close> writes the collected changes only.
\<close>

definition SaveAll :: "ext \<Rightarrow> Store \<Rightarrow> PgDb \<Rightarrow> PgDb" where
  "SaveAll x s db =
     upsertAuditLogs x (st_Audits s)
       (deleteOrphanSessions (st_Sessions s) (upsertSessions x (st_Sessions s)
         (deleteOrphanDevices (st_Devices s) (upsertDevices x (st_Devices s)
           (deleteOrphanUsers (st_Users s) (upsertUsers x (st_Users s) db))))))"

definition SaveChanges :: "ext \<Rightarrow> PostgresChanges \<Rightarrow> PgDb \<Rightarrow> PgDb" where
  "SaveChanges x c db =
     (if changesEmpty c then db
      else
        let db1 = db\<lparr>pg_sessions := delete_ids (pc_DeletedSessions c) (pg_sessions db)\<rparr>;
            db2 = db1\<lparr>pg_devices := delete_ids (pc_DeletedDevices c) (pg_devices db1)\<rparr>;
            db3 = db2\<lparr>pg_audits := delete_ids (pc_DeletedAudits c) (pg_audits db2)\<rparr>
        in upsertAuditRecords x (pc_Audits c)
             (upsertSessions x (pc_Sessions c)
               (upsertDevices x (pc_Devices c) (upsertUsers x (pc_Users c) db3))))"

text \<open>\<open>LoadAll\<close> into a fresh store; the audit log comes back in order of its timestamps.\<close>

definition LoadAll :: "PgDb \<Rightarrow> Snapshot" where
  "LoadAll db =
     \<lparr>sp_Users = copy_all (pg_users db) [], sp_Devices = copy_all (pg_devices db) [],
      sp_Sessions = copy_all (pg_sessions db) [],
      sp_Audits = sort_key a_CreatedAt (map snd (pg_audits db))\<rparr>"

section \<open>Saving and loading\<close>

text \<open>
  How a save turns out. With PostgreSQL the transaction commits, is rolled back with an
  error, or commits although the gateway sees an error (the reply to \<open>COMMIT\<close> was lost).
  With the data file, \<open>SaveFails\<close> and \<open>SaveLost\<close> stand for an error of \<open>MkdirAll\<close>,
  \<open>MarshalIndent\<close>, \<open>WriteFile\<close> or \<open>Rename\<close>: only the rename touches the data file.
\<close>

datatype save_outcome = SaveOk | SaveFails | SaveLost

definition snapshot_of :: "Store \<Rightarrow> Snapshot" where
  "snapshot_of s =
     \<lparr>sp_Users = st_Users s, sp_Devices = st_Devices s, sp_Sessions = st_Sessions s,
      sp_Audits = st_Audits s\<rparr>"

text \<open>The result is whether \<open>saveLocked\<close> returned nil.\<close>

definition saveLocked :: "ext \<Rightarrow> save_outcome \<Rightarrow> Store \<Rightarrow> bool \<times> Store" where
  "saveLocked x io s =
     (case st_pg s of
        Some db \<Rightarrow>
          let changes = postgresChangesLocked s in
          if changesEmpty changes then (True, s)
          else (case io of
                  SaveOk \<Rightarrow> (True, clearDirtyLocked (s\<lparr>st_pg := Some (SaveChanges x changes db)\<rparr>))
                | SaveFails \<Rightarrow> (False, s)
                | SaveLost \<Rightarrow> (False, s\<lparr>st_pg := Some (SaveChanges x changes db)\<rparr>))
      | None \<Rightarrow>
          (case io of
             SaveOk \<Rightarrow> (True, s\<lparr>st_file := Some (snapshot_of s)\<rparr>)
           | _ \<Rightarrow> (False, s)))"

definition install_snapshot :: "Snapshot \<Rightarrow> Store \<Rightarrow> Store" where
  "install_snapshot sp s =
     s\<lparr>st_Users := sp_Users sp, st_Devices := sp_Devices sp, st_Sessions := sp_Sessions sp,
       st_Audits := sp_Audits sp\<rparr>"

text \<open>
  \<open>reloadFromPostgresOnMiss\<close> holds the lock twice with the query in between. \<open>s\<close> is the store
  at the first critical section, \<open>loaded\<close> what \<open>LoadAll\<close> returned (\<open>None\<close> for an error) and
  \<open>s'\<close> the store at the second one. The result is the pair (reloaded, error) with the store.
\<close>

definition reload_wanted :: "Store \<Rightarrow> bool" where
  "reload_wanted s = (st_pg s \<noteq> None \<and> \<not> hasPendingChangesLocked s)"

definition reloadFromPostgresOnMiss ::
    "Store \<Rightarrow> Snapshot option \<Rightarrow> Store \<Rightarrow> (bool \<times> bool) \<times> Store" where
  "reloadFromPostgresOnMiss s loaded s' =
     (if \<not> reload_wanted s then ((False, False), s')
      else (case loaded of
              None \<Rightarrow> ((False, True), s')
            | Some fresh \<Rightarrow>
                if st_revision s' \<noteq> st_revision s \<or> hasPendingChangesLocked s'
                then ((False, False), s')
                else ((True, False), rebuildSessionIndexesLocked (install_snapshot fresh s'))))"

text \<open>One tick of \<open>syncPostgresLoop\<close>; its second check looks at the revision only.\<close>

definition syncPostgresTick :: "Store \<Rightarrow> Snapshot option \<Rightarrow> Store \<Rightarrow> Store" where
  "syncPostgresTick s loaded s' =
     (if \<not> reload_wanted s then s'
      else (case loaded of
              None \<Rightarrow> s'
            | Some fresh \<Rightarrow>
                if st_revision s' = st_revision s
                then rebuildSessionIndexesLocked (install_snapshot fresh s')
                else s'))"

text \<open>
  \<open>loadFromFile\<close>: the data file is absent or blank (nothing is loaded), cannot be read or
  decoded (an error), or holds a snapshot. Decoding adds the entries of an object to the
  map the field holds already and replaces the audit list.
\<close>

datatype file_read = FileAbsent | FileUnreadable | FileHolds Snapshot

definition loadFromFile :: "file_read \<Rightarrow> Store \<Rightarrow> Store option" where
  "loadFromFile rd s =
     (case rd of
        FileAbsent \<Rightarrow> Some s
      | FileUnreadable \<Rightarrow> None
      | FileHolds sp \<Rightarrow>
          Some (s\<lparr>st_Users := copy_all (sp_Users sp) (st_Users s),
                  st_Devices := copy_all (sp_Devices sp) (st_Devices s),
                  st_Sessions := copy_all (sp_Sessions sp) (st_Sessions s),
                  st_Audits := sp_Audits sp\<rparr>))"

text \<open>
  \<open>LoadStore\<close>: \<open>db\<close> is the database reached by the DSN (\<open>None\<close> when \<open>pgDSN\<close> is empty),
  \<open>pg_ok\<close> whether connecting and loading succeed, \<open>migrate_ok\<close> whether the first save of a
  migrated data file does. \<open>None\<close> is the error return.
\<close>

definition LoadStore :: "ext \<Rightarrow> PgDb option \<Rightarrow> bool \<Rightarrow> file_read \<Rightarrow> bool \<Rightarrow> Store option" where
  "LoadStore x db pg_ok rd migrate_ok =
     (let file = (case rd of FileHolds sp \<Rightarrow> Some sp | _ \<Rightarrow> None) in
      case db of
        None \<Rightarrow> map_option rebuildSessionIndexesLocked (loadFromFile rd (emptyStore None file))
      | Some d \<Rightarrow>
          if \<not> pg_ok then None
          else
            let s1 = install_snapshot (LoadAll d) (emptyStore (Some d) file) in
            if st_Users s1 \<noteq> [] then Some (rebuildSessionIndexesLocked s1)
            else (case loadFromFile rd s1 of
                    None \<Rightarrow> Some (rebuildSessionIndexesLocked s1)
                  | Some s2 \<Rightarrow>
                      if st_Users s2 = [] then Some (rebuildSessionIndexesLocked s2)
                      else if \<not> migrate_ok then None
                      else Some (rebuildSessionIndexesLocked
                                   (s2\<lparr>st_pg := Some (SaveAll x s2 d)\<rparr>))))"

section \<open>Reading a table after it was written\<close>

lemma collect_dirty_get:
  "gm_get (collect_dirty m ks out) k =
     (if k \<in> set ks \<and> gm_get m k \<noteq> None then gm_get m k else gm_get out k)"
  by (induction m ks out rule: collect_dirty.induct) (auto split: option.splits)

lemma collect_dirty_wf: "gm_wf out \<Longrightarrow> gm_wf (collect_dirty m ks out)"
  by (induction m ks out rule: collect_dirty.induct) (auto split: option.splits)

lemma copy_all_get:
  "gm_wf es \<Longrightarrow>
   gm_get (copy_all es out) k = (case gm_get es k of None \<Rightarrow> gm_get out k | Some v \<Rightarrow> Some v)"
proof (induction es out rule: copy_all.induct)
  case (1 out)
  then show ?case by simp
next
  case (2 e es out)
  then have "gm_get es (fst e) = None" by (simp add: gm_get_None_iff)
  with 2 show ?case by (cases e) (auto split: option.splits)
qed

lemma copy_all_wf: "gm_wf out \<Longrightarrow> gm_wf (copy_all es out)"
  by (induction es out rule: copy_all.induct) auto

lemma copy_all_append:
  "gm_wf es \<Longrightarrow> fst ` set es \<inter> fst ` set out = {} \<Longrightarrow> copy_all es out = out @ es"
proof (induction es arbitrary: out)
  case Nil
  then show ?case by simp
next
  case (Cons e es)
  have "gm_set (fst e) (snd e) out = out @ [e]"
    using Cons.prems(2) by (subst gm_set_absent) auto
  moreover have "copy_all es (out @ [e]) = (out @ [e]) @ es"
    using Cons.prems by (intro Cons.IH) auto
  ultimately show ?case by simp
qed

lemma copy_all_id: "gm_wf es \<Longrightarrow> copy_all es [] = es"
  by (simp add: copy_all_append)

lemma delete_ids_get: "gm_get (delete_ids ids t) k = (if k \<in> set ids then None else gm_get t k)"
  by (induction t) (auto simp: delete_ids_def)

lemma keep_ids_get: "gm_get (keep_ids ids t) k = (if k \<in> set ids then gm_get t k else None)"
  by (induction t) (auto simp: keep_ids_def)

lemma delete_ids_wf: "gm_wf t \<Longrightarrow> gm_wf (delete_ids ids t)"
  by (induction t) (auto simp: delete_ids_def)

lemma keep_ids_wf: "gm_wf t \<Longrightarrow> gm_wf (keep_ids ids t)"
  by (induction t) (auto simp: keep_ids_def)

text \<open>
  The four upserts have one shape: the key is the record's ID and the row depends on the
  record and on what the table holds under the key.
\<close>

definition upsert_row :: "('v \<Rightarrow> string) \<Rightarrow> ('v \<Rightarrow> 'v option \<Rightarrow> 'v) \<Rightarrow> 'v \<Rightarrow> 'v gomap \<Rightarrow> 'v gomap" where
  "upsert_row idf mrg r t = gm_set (idf r) (mrg r (gm_get t (idf r))) t"

definition ids_match :: "('v \<Rightarrow> string) \<Rightarrow> 'v gomap \<Rightarrow> bool" where
  "ids_match idf m = (\<forall>e \<in> set m. idf (snd e) = fst e)"

lemma ids_match_get: "ids_match idf m \<Longrightarrow> gm_get m k = Some v \<Longrightarrow> idf v = k"
  by (auto simp: ids_match_def dest!: map_of_SomeD)

lemma ids_match_Nil [simp]: "ids_match idf []"
  by (simp add: ids_match_def)

lemma ids_match_set: "ids_match idf m \<Longrightarrow> idf v = k \<Longrightarrow> ids_match idf (gm_set k v m)"
  by (induction m) (auto simp: ids_match_def)

lemma ids_match_del: "ids_match idf m \<Longrightarrow> ids_match idf (gm_del k m)"
  by (auto simp: ids_match_def gm_del_def)

lemma ids_match_mod:
  assumes "ids_match idf m" and "\<And>v. gm_get m k = Some v \<Longrightarrow> idf (f v) = idf v"
  shows "ids_match idf (gm_mod k f m)"
  using assms
proof (induction m)
  case Nil
  then show ?case by simp
next
  case (Cons e es)
  show ?case
  proof (cases "fst e = k")
    case True
    with Cons.prems(2) [of "snd e"] have "idf (f (snd e)) = idf (snd e)" by (cases e) auto
    with True Cons.prems(1) show ?thesis by (auto simp: ids_match_def)
  next
    case False
    have "ids_match idf (gm_mod k f es)"
      using Cons.prems False by (intro Cons.IH) (auto simp: ids_match_def)
    with False Cons.prems(1) show ?thesis by (auto simp: ids_match_def)
  qed
qed

lemma ids_match_collect: "ids_match idf m \<Longrightarrow> ids_match idf out \<Longrightarrow> ids_match idf (collect_dirty m ks out)"
  by (induction m ks out rule: collect_dirty.induct)
     (auto split: option.splits simp: ids_match_set ids_match_get)

lemma ids_match_copy: "ids_match idf es \<Longrightarrow> ids_match idf out \<Longrightarrow> ids_match idf (copy_all es out)"
proof (induction es out rule: copy_all.induct)
  case (1 out)
  then show ?case by simp
next
  case (2 e es out)
  from "2.prems"(1) have "idf (snd e) = fst e" and "ids_match idf es"
    by (auto simp: ids_match_def)
  with "2.prems"(2) have "ids_match idf (gm_set (fst e) (snd e) out)" and "ids_match idf es"
    by (simp_all add: ids_match_set)
  then show ?case by (simp add: "2.IH")
qed

lemma fold_upsert_get:
  assumes "gm_wf us" and "ids_match idf us"
  shows "gm_get (fold (\<lambda>e. upsert_row idf mrg (snd e)) us t) k =
         (case gm_get us k of None \<Rightarrow> gm_get t k | Some r \<Rightarrow> Some (mrg r (gm_get t k)))"
  using assms
proof (induction us arbitrary: t)
  case Nil
  then show ?case by simp
next
  case (Cons e es)
  have e: "idf (snd e) = fst e" using Cons.prems(2) by (simp add: ids_match_def)
  have absent: "gm_get es (fst e) = None" using Cons.prems(1) by (simp add: gm_get_None_iff)
  have "ids_match idf es" using Cons.prems(2) by (simp add: ids_match_def)
  then have IH: "gm_get (fold (\<lambda>e. upsert_row idf mrg (snd e)) es t') k =
      (case gm_get es k of None \<Rightarrow> gm_get t' k | Some r \<Rightarrow> Some (mrg r (gm_get t' k)))" for t'
    using Cons.prems(1) by (intro Cons.IH) auto
  have head: "gm_get (upsert_row idf mrg (snd e) t) k =
      (if k = fst e then Some (mrg (snd e) (gm_get t k)) else gm_get t k)"
    by (simp add: upsert_row_def e)
  show ?case
    using absent head by (cases e) (auto simp: IH split: option.splits)
qed

lemma fold_upsert_wf: "gm_wf t \<Longrightarrow> gm_wf (fold (\<lambda>e. upsert_row idf mrg (snd e)) us t)"
  by (induction us arbitrary: t) (auto simp: upsert_row_def)

lemma upsert_user_row: "upsert_user x = upsert_row u_ID
    (\<lambda>u old. case old of None \<Rightarrow> user_row x u | Some o' \<Rightarrow> (user_row x u)\<lparr>u_CreatedAt := u_CreatedAt o'\<rparr>)"
  by (intro ext) (simp add: upsert_user_def upsert_row_def)

lemma upsert_device_row: "upsert_device x = upsert_row d_ID
    (\<lambda>d old. case old of None \<Rightarrow> device_row x d | Some o' \<Rightarrow> (device_row x d)\<lparr>d_CreatedAt := d_CreatedAt o'\<rparr>)"
  by (intro ext) (simp add: upsert_device_def upsert_row_def)

lemma upsert_session_row: "upsert_session x = upsert_row s_ID
    (\<lambda>d old. case old of None \<Rightarrow> session_row x d | Some o' \<Rightarrow> (session_row x d)\<lparr>s_CreatedAt := s_CreatedAt o'\<rparr>)"
  by (intro ext) (simp add: upsert_session_def upsert_row_def)

lemma upsert_audit_row: "upsert_audit x = upsert_row a_ID
    (\<lambda>d old. case old of None \<Rightarrow> audit_row x d | Some o' \<Rightarrow> (audit_row x d)\<lparr>a_CreatedAt := a_CreatedAt o'\<rparr>)"
  by (intro ext) (simp add: upsert_audit_def upsert_row_def)

lemmas upsert_rows = upsert_user_row upsert_device_row upsert_session_row upsert_audit_row

end
