(* ===== verification/AuditTrail.thy ===== *)
theory AuditTrail
  imports Store
begin

text \<open>
  The audit trail: \<open>addAuditLocked\<close> of \<open>device_gateway/main.go\<close>. The in-memory log keeps the
  newest 5000 entries; an entry that falls out is forgotten if it was never saved and
  deleted from the database otherwise.
\<close>

definition auditLimit :: int where
  "auditLimit = 5000"

text \<open>The effect of \<open>addAuditLocked\<close> on the list \<open>s.store.Audits\<close>.\<close>

definition audit_append :: "AuditLog \<Rightarrow> AuditLog list \<Rightarrow> AuditLog list" where
  "audit_append a xs =
     (let xs' = xs @ [a] in
      if int (length xs') > auditLimit
      then drop (nat (int (length xs') - auditLimit)) xs' else xs')"

text \<open>One iteration over \<open>removed\<close>.\<close>

definition forgetAudit :: "AuditLog \<Rightarrow> Store \<Rightarrow> Store" where
  "forgetAudit a s =
     s\<lparr>st_dirtyAudits := gm_del (a_ID a) (st_dirtyAudits s),
       st_deletedAudits := gm_set (a_ID a) () (st_deletedAudits s)\<rparr>"

definition trimAudits :: "Store \<Rightarrow> Store" where
  "trimAudits s =
     (let n = int (length (st_Audits s)) in
      if n > auditLimit
      then (fold forgetAudit (take (nat (n - auditLimit)) (st_Audits s)) s)
             \<lparr>st_Audits := drop (nat (n - auditLimit)) (st_Audits s)\<rparr>
      else s)"

definition addAuditLocked ::
    "ext \<Rightarrow> string \<Rightarrow> string \<Rightarrow> string \<Rightarrow> string \<Rightarrow> string \<Rightarrow> string \<Rightarrow> anymap option \<Rightarrow> time
     \<Rightarrow> Store \<Rightarrow> Store" where
  "addAuditLocked x action userID deviceID actor ip userAgent details now s =
     (let audit = \<lparr>a_ID = ''aud_'' @ randomHex x (st_rng s) 12, a_UserID = userID,
                   a_DeviceID = deviceID, a_Action = action, a_Actor = actor, a_IP = ip,
                   a_UserAgent = userAgent, a_Details = details, a_CreatedAt = now\<rparr>;
          s1 = s\<lparr>st_rng := Suc (st_rng s), st_Audits := st_Audits s @ [audit]\<rparr>
      in trimAudits (markAuditLocked audit s1))"

interpretation audit_log: bounded_log audit_append "nat auditLimit"
  by unfold_locales
    (auto simp: audit_append_def auditLimit_def take_last_def Let_def nat_diff_distrib)

lemma fold_forgetAudit_frame:
  "st_Users (fold forgetAudit as s) = st_Users s \<and> st_Devices (fold forgetAudit as s) = st_Devices s \<and>
   st_Sessions (fold forgetAudit as s) = st_Sessions s \<and> st_Audits (fold forgetAudit as s) = st_Audits s \<and>
   st_pg (fold forgetAudit as s) = st_pg s \<and> st_file (fold forgetAudit as s) = st_file s \<and>
   st_rng (fold forgetAudit as s) = st_rng s \<and>
   st_sessionByTokenHash (fold forgetAudit as s) = st_sessionByTokenHash s \<and>
   st_sessionBySubscribeHash (fold forgetAudit as s) = st_sessionBySubscribeHash s \<and>
   st_dirtyUsers (fold forgetAudit as s) = st_dirtyUsers s \<and>
   st_dirtyDevices (fold forgetAudit as s) = st_dirtyDevices s \<and>
   st_dirtySessions (fold forgetAudit as s) = st_dirtySessions s \<and>
   st_deletedDevices (fold forgetAudit as s) = st_deletedDevices s \<and>
   st_deletedSessions (fold forgetAudit as s) = st_deletedSessions s \<and>
   st_revision (fold forgetAudit as s) = st_revision s"
  by (induction as arbitrary: s) (auto simp: forgetAudit_def)

lemmas forgetAudit_frame [simp] =
  fold_forgetAudit_frame [THEN conjunct1]
  fold_forgetAudit_frame [THEN conjunct2, THEN conjunct1]
  fold_forgetAudit_frame [THEN conjunct2, THEN conjunct2, THEN conjunct1]
  fold_forgetAudit_frame [THEN conjunct2, THEN conjunct2, THEN conjunct2, THEN conjunct1]
  fold_forgetAudit_frame [THEN conjunct2, THEN conjunct2, THEN conjunct2, THEN conjunct2, THEN conjunct1]

lemma forgetAudit_rest [simp]:
  "st_file (fold forgetAudit as s) = st_file s"
  "st_rng (fold forgetAudit as s) = st_rng s"
  "st_sessionByTokenHash (fold forgetAudit as s) = st_sessionByTokenHash s"
  "st_sessionBySubscribeHash (fold forgetAudit as s) = st_sessionBySubscribeHash s"
  "st_dirtyUsers (fold forgetAudit as s) = st_dirtyUsers s"
  "st_dirtyDevices (fold forgetAudit as s) = st_dirtyDevices s"
  "st_dirtySessions (fold forgetAudit as s) = st_dirtySessions s"
  "st_deletedDevices (fold forgetAudit as s) = st_deletedDevices s"
  "st_deletedSessions (fold forgetAudit as s) = st_deletedSessions s"
  "st_revision (fold forgetAudit as s) = st_revision s"
  using fold_forgetAudit_frame [of as s] by simp_all

text \<open>What an audit entry leaves alone.\<close>

lemma addAudit_frame [simp]:
  fixes x s a uid did act ip ua det now
  defines "s' \<equiv> addAuditLocked x a uid did act ip ua det now s"
  shows "st_Users s' = st_Users s" "st_Devices s' = st_Devices s"
    "st_Sessions s' = st_Sessions s" "st_pg s' = st_pg s" "st_file s' = st_file s"
    "st_sessionByTokenHash s' = st_sessionByTokenHash s"
    "st_sessionBySubscribeHash s' = st_sessionBySubscribeHash s"
    "st_dirtyUsers s' = st_dirtyUsers s" "st_dirtyDevices s' = st_dirtyDevices s"
    "st_dirtySessions s' = st_dirtySessions s" "st_deletedDevices s' = st_deletedDevices s"
    "st_deletedSessions s' = st_deletedSessions s" "st_rng s' = Suc (st_rng s)"
    "st_revision s' = st_revision s + 1"
  by (simp_all add: s'_def addAuditLocked_def trimAudits_def markAuditLocked_def Let_def)

lemma addAudit_list:
  "st_Audits (addAuditLocked x a uid did act ip ua det now s) =
     audit_append \<lparr>a_ID = ''aud_'' @ randomHex x (st_rng s) 12, a_UserID = uid,
       a_DeviceID = did, a_Action = a, a_Actor = act, a_IP = ip, a_UserAgent = ua,
       a_Details = det, a_CreatedAt = now\<rparr> (st_Audits s)"
  by (simp add: addAuditLocked_def trimAudits_def markAuditLocked_def audit_append_def Let_def)

end
