(* ===== verification/Http.thy ===== *)
theory Http
  imports AuditTrail
begin

text \<open>
  Requests, responses and addresses as \<open>device_gateway/main.go\<close> handles them: header access,
  \<open>writeJSON\<close> and \<open>writeError\<close>, the CORS wrapper, the header copies of the proxy, query
  strings, and how the client's address and its region are derived from a request.
\<close>

section \<open>Requests and responses\<close>

text \<open>
  A \<open>http.Header\<close> maps a canonical name to its values. The body of a request is an argument
  of the handler that decodes it, so it is not a field here.
\<close>

type_synonym header = "string list gomap"

record Request =
  rq_Method :: string
  rq_Path :: string
  rq_RawQuery :: string
  rq_Header :: header
  rq_RemoteAddr :: string
  rq_Host :: string
  rq_TLS :: bool

datatype body = JsonBody any | RawBody string | NoBody

record Response =
  rs_Status :: int
  rs_Header :: header
  rs_Body :: body

text \<open>\<open>http.CanonicalHeaderKey\<close>: a name with a byte outside the token characters is left alone.\<close>

definition is_token_byte :: "char \<Rightarrow> bool" where
  "is_token_byte c =
     (let b = byte_of c in
      (48 \<le> b \<and> b \<le> 57) \<or> (65 \<le> b \<and> b \<le> 90) \<or> (97 \<le> b \<and> b \<le> 122) \<or>
      c \<in> set ''!#$%&*+-.^_|~`'' \<or> b = 39)"

fun canonical_from :: "bool \<Rightarrow> string \<Rightarrow> string" where
  "canonical_from upper [] = []"
| "canonical_from upper (c # cs) =
     (if upper then ascii_upper_char c else ascii_lower_char c) # canonical_from (c = CHR ''-'') cs"

definition canonicalHeaderKey :: "string \<Rightarrow> string" where
  "canonicalHeaderKey s = (if list_all is_token_byte s then canonical_from True s else s)"

definition header_values :: "header \<Rightarrow> string \<Rightarrow> string list" where
  "header_values h name =
     (case gm_get h (canonicalHeaderKey name) of None \<Rightarrow> [] | Some vs \<Rightarrow> vs)"

definition header_get :: "header \<Rightarrow> string \<Rightarrow> string" where
  "header_get h name = (case header_values h name of [] \<Rightarrow> [] | v # vs \<Rightarrow> v)"

definition header_set :: "string \<Rightarrow> string \<Rightarrow> header \<Rightarrow> header" where
  "header_set name v h = gm_set (canonicalHeaderKey name) [v] h"

definition header_add :: "string \<Rightarrow> string \<Rightarrow> header \<Rightarrow> header" where
  "header_add name v h = gm_set (canonicalHeaderKey name) (header_values h name @ [v]) h"

definition header_del :: "string \<Rightarrow> header \<Rightarrow> header" where
  "header_del name h = gm_del (canonicalHeaderKey name) h"

definition userAgent :: "Request \<Rightarrow> string" where
  "userAgent r = header_get (rq_Header r) ''User-Agent''"

lemma header_get_set [simp]:
  "header_get (header_set name v h) name' =
     (if canonicalHeaderKey name' = canonicalHeaderKey name then v else header_get h name')"
  by (simp add: header_get_def header_values_def header_set_def)

definition jsonContentType :: string where
  "jsonContentType = ''application/json; charset=utf-8''"

definition writeJSON :: "int \<Rightarrow> any \<Rightarrow> Response" where
  "writeJSON status payload =
     \<lparr>rs_Status = status, rs_Header = header_set ''Content-Type'' jsonContentType [],
      rs_Body = JsonBody payload\<rparr>"

definition writeRaw :: "int \<Rightarrow> string \<Rightarrow> string \<Rightarrow> Response" where
  "writeRaw status contentType b =
     \<lparr>rs_Status = status,
      rs_Header = header_set ''Content-Type''
        (if contentType = [] then jsonContentType else contentType) [],
      rs_Body = RawBody b\<rparr>"

definition writeError :: "int \<Rightarrow> string \<Rightarrow> string \<Rightarrow> anymap option \<Rightarrow> Response" where
  "writeError status code message data =
     (let payload = [(''success'', VBool False), (''code'', VStr code), (''message'', VStr message)]
      in writeJSON status
           (VMap (case data of None \<Rightarrow> payload | Some d \<Rightarrow> gm_set ''data'' (VMap d) payload)))"

definition response_code :: "Response \<Rightarrow> any" where
  "response_code rs = (case rs_Body rs of JsonBody (VMap m) \<Rightarrow> any_index m ''code'' | _ \<Rightarrow> VNil)"

lemma writeJSON_status [simp]: "rs_Status (writeJSON st v) = st"
  by (simp add: writeJSON_def)

lemma writeError_status [simp]: "rs_Status (writeError st code msg data) = st"
  by (simp add: writeError_def Let_def)

lemma writeError_code [simp]: "response_code (writeError st code msg data) = VStr code"
  by (simp add: writeError_def writeJSON_def response_code_def any_index_def Let_def
        split: option.splits)

text \<open>
  \<open>withCORS\<close>: the wrapper sets its three headers before the handler runs; the handler's
  own headers are added to them. A preflight request never reaches the handler.
\<close>

definition cors_headers :: header where
  "cors_headers =
     [(''Access-Control-Allow-Origin'', [''*'']),
      (''Access-Control-Allow-Headers'', [''Authorization, Content-Type, X-Admin-Token'']),
      (''Access-Control-Allow-Methods'', [''GET, POST, PATCH, DELETE, OPTIONS''])]"

definition header_merge :: "header \<Rightarrow> header \<Rightarrow> header" where
  "header_merge base h = fold (\<lambda>e acc. fold (header_add (fst e)) (snd e) acc) h base"

definition withCORS :: "Request \<Rightarrow> Response \<Rightarrow> Response" where
  "withCORS r next =
     (if rq_Method r = ''OPTIONS''
      then \<lparr>rs_Status = 204, rs_Header = cors_headers, rs_Body = NoBody\<rparr>
      else next\<lparr>rs_Header := header_merge cors_headers (rs_Header next)\<rparr>)"

text \<open>The header copies of the proxy, in each direction.\<close>

definition copy_headers :: "string list \<Rightarrow> header \<Rightarrow> header \<Rightarrow> header" where
  "copy_headers skip src dst =
     fold (\<lambda>e acc. if canonicalHeaderKey (fst e) \<in> set skip then acc
                   else fold (header_add (fst e)) (snd e) acc) src dst"

definition copyProxyHeaders :: "header \<Rightarrow> header \<Rightarrow> header" where
  "copyProxyHeaders dst src =
     (let h = copy_headers [''Host'', ''Connection'', ''Content-Length'', ''Authorization''] src dst
      in if header_get h ''Accept'' = [] then header_set ''Accept'' ''application/json'' h else h)"

definition copyResponseHeaders :: "header \<Rightarrow> header \<Rightarrow> header" where
  "copyResponseHeaders dst src =
     copy_headers [''Connection'', ''Content-Length'', ''Transfer-Encoding''] src dst"

section \<open>Tokens and paths\<close>

definition bearerToken :: "ext \<Rightarrow> string \<Rightarrow> string" where
  "bearerToken x header =
     (let h = trim_space header in
      if h = [] then []
      else if has_prefix (to_lower_x x h) ''bearer '' then trim_space (drop 7 h)
      else h)"

lemma bearerToken_visible:
  assumes "t \<noteq> []" and "list_all visible_char t"
  shows "bearerToken x (''Bearer '' @ t) = t"
proof -
  have vis: "visible_char (hd t)" "visible_char (last t)"
    using assms by (auto simp: list_all_iff)
  have "trim_space (''Bearer '' @ t) = ''Bearer '' @ t"
    using assms(1) vis by (intro trim_space_visible) (simp_all add: visible_char_def)
  moreover have "is_ascii (''Bearer '' @ t)"
    using visible_ascii [OF assms(2)] by (simp add: is_ascii_def)
  moreover have "map ascii_lower_char ''Bearer '' = ''bearer ''" by code_simp
  ultimately show ?thesis
    using trim_space_visible [OF assms(1) vis]
    by (simp add: bearerToken_def Let_def to_lower_x_def to_lower_def has_prefix_def)
qed
definition constantTimeEqual :: "string \<Rightarrow> string \<Rightarrow> bool" where
  "constantTimeEqual a b = (a = b)"

definition joinURLPath :: "string \<Rightarrow> string \<Rightarrow> string" where
  "joinURLPath basePath requestPath =
     (let b = trim_right basePath ''/''; p = ''/'' @ trim_left requestPath ''/''
      in if b = [] then p else b @ p)"

definition isPublicEndpoint :: "string \<Rightarrow> string \<Rightarrow> bool" where
  "isPublicEndpoint apiPrefix path =
     (trim_prefix path apiPrefix \<in>
        set [''/passport/auth/register'', ''/passport/comm/sendEmailVerify'',
             ''/passport/auth/forget'', ''/guest/comm/config''])"

section \<open>Query strings\<close>

text \<open>
  \<open>url.QueryEscape\<close>, \<open>url.QueryUnescape\<close> (\<open>form\<close> set) and \<open>url.PathUnescape\<close>, and
  \<open>url.Values\<close>.
\<close>

definition unreserved :: "char \<Rightarrow> bool" where
  "unreserved c =
     (let b = byte_of c in
      (48 \<le> b \<and> b \<le> 57) \<or> (65 \<le> b \<and> b \<le> 90) \<or> (97 \<le> b \<and> b \<le> 122) \<or> c \<in> set ''-_.~'')"

definition upper_hex :: "nat \<Rightarrow> char" where
  "upper_hex n = (if n < 10 then char_of (48 + n) else char_of (55 + n))"

definition hex_val :: "char \<Rightarrow> nat option" where
  "hex_val c =
     (let b = byte_of c in
      if 48 \<le> b \<and> b \<le> 57 then Some (b - 48)
      else if 97 \<le> b \<and> b \<le> 102 then Some (b - 87)
      else if 65 \<le> b \<and> b \<le> 70 then Some (b - 55) else None)"

fun query_escape :: "string \<Rightarrow> string" where
  "query_escape [] = []"
| "query_escape (c # cs) =
     (if c = CHR '' '' then CHR ''+'' # query_escape cs
      else if unreserved c then c # query_escape cs
      else CHR ''%'' # upper_hex (byte_of c div 16) # upper_hex (byte_of c mod 16) # query_escape cs)"

fun url_unescape :: "bool \<Rightarrow> string \<Rightarrow> string option" where
  "url_unescape form [] = Some []"
| "url_unescape form (c # cs) =
     (if c = CHR ''%'' then
        (case cs of
           a # b # rest \<Rightarrow>
             (case (hex_val a, hex_val b) of
                (Some m, Some n) \<Rightarrow>
                  map_option (\<lambda>t. char_of (16 * m + n) # t) (url_unescape form rest)
              | _ \<Rightarrow> None)
         | _ \<Rightarrow> None)
      else map_option (\<lambda>t. (if form \<and> c = CHR ''+'' then CHR '' '' else c) # t) (url_unescape form cs))"

lemma hex_val_upper: "n < 16 \<Longrightarrow> hex_val (upper_hex n) = Some n"
  by (auto simp: hex_val_def upper_hex_def Let_def)

lemma unreserved_no_marker: "unreserved c \<Longrightarrow> c \<noteq> CHR ''%'' \<and> c \<noteq> CHR ''+''"
  by (auto simp: unreserved_def Let_def)

lemma query_unescape_escape: "url_unescape True (query_escape s) = Some s"
proof (induction s)
  case Nil
  then show ?case by simp
next
  case (Cons c cs)
  have "byte_of c div 16 < 16" "byte_of c mod 16 < 16" by simp_all
  moreover have "char_of (16 * (byte_of c div 16) + byte_of c mod 16) = c" by simp
  ultimately show ?case
    using Cons unreserved_no_marker [of c] by (auto simp: hex_val_upper)
qed

type_synonym url_values = "string list gomap"

definition values_get :: "url_values \<Rightarrow> string \<Rightarrow> string" where
  "values_get vs k = (case gm_get vs k of Some (v # rest) \<Rightarrow> v | _ \<Rightarrow> [])"

definition values_add :: "string \<Rightarrow> string \<Rightarrow> url_values \<Rightarrow> url_values" where
  "values_add k v vs = gm_set k ((case gm_get vs k of None \<Rightarrow> [] | Some xs \<Rightarrow> xs) @ [v]) vs"

text \<open>\<open>url.ParseQuery\<close> as \<open>URL.Query\<close> uses it: a setting that cannot be read is dropped.\<close>

definition parse_setting :: "string \<Rightarrow> url_values \<Rightarrow> url_values" where
  "parse_setting s vs =
     (if s = [] \<or> CHR '';'' \<in> set s then vs
      else
        let k = takeWhile (\<lambda>c. c \<noteq> CHR ''='') s; v = drop (Suc (length k)) s in
        (case (url_unescape True k, url_unescape True v) of
           (Some k', Some v') \<Rightarrow> values_add k' v' vs
         | _ \<Rightarrow> vs))"

definition parse_query :: "string \<Rightarrow> url_values" where
  "parse_query q = fold parse_setting (split_on CHR ''&'' q) []"

definition encode_query :: "url_values \<Rightarrow> string" where
  "encode_query vs =
     join_with ''&''
       (concat (map (\<lambda>e. map (\<lambda>v. query_escape (fst e) @ ''='' @ query_escape v) (snd e))
          (sort_key fst vs)))"

definition query_get :: "Request \<Rightarrow> string \<Rightarrow> string" where
  "query_get r k = values_get (parse_query (rq_RawQuery r)) k"

definition mergeSubscribeQuery :: "ext \<Rightarrow> string \<Rightarrow> url_values \<Rightarrow> string option" where
  "mergeSubscribeQuery x rawURL incoming =
     (case x_url_parse x rawURL of
        None \<Rightarrow> None
      | Some parsed \<Rightarrow>
          let q = fold (\<lambda>e acc. if fst e \<in> set [''token'', ''device_session'', ''session''] then acc
                                else fold (values_add (fst e)) (snd e) acc)
                    incoming (parse_query (pu_RawQuery parsed))
          in Some (x_url_string x (parsed\<lparr>pu_RawQuery := encode_query q\<rparr>)))"

section \<open>Client addresses\<close>

text \<open>
  The predicates of \<open>net.IP\<close> on its 16 bytes; an IPv4 address has ten zero bytes and two
  bytes 255 in front.
\<close>

definition ip_to4 :: "nat list \<Rightarrow> nat list option" where
  "ip_to4 ip = (if take 12 ip = replicate 10 0 @ [255, 255] then Some (drop 12 ip) else None)"

definition ip_is_loopback :: "nat list \<Rightarrow> bool" where
  "ip_is_loopback ip =
     (case ip_to4 ip of Some q \<Rightarrow> q ! 0 = 127 | None \<Rightarrow> ip = replicate 15 0 @ [1])"

definition ip_is_private :: "nat list \<Rightarrow> bool" where
  "ip_is_private ip =
     (case ip_to4 ip of
        Some q \<Rightarrow> q ! 0 = 10 \<or> (q ! 0 = 172 \<and> q ! 1 div 16 = 1) \<or> (q ! 0 = 192 \<and> q ! 1 = 168)
      | None \<Rightarrow> ip ! 0 div 2 = 126)"

definition ip_is_unspecified :: "nat list \<Rightarrow> bool" where
  "ip_is_unspecified ip = (ip_to4 ip = Some [0, 0, 0, 0] \<or> ip = replicate 16 0)"

definition ip_is_multicast :: "nat list \<Rightarrow> bool" where
  "ip_is_multicast ip = (case ip_to4 ip of Some q \<Rightarrow> q ! 0 div 16 = 14 | None \<Rightarrow> ip ! 0 = 255)"

definition ip_is_link_local_unicast :: "nat list \<Rightarrow> bool" where
  "ip_is_link_local_unicast ip =
     (case ip_to4 ip of
        Some q \<Rightarrow> q ! 0 = 169 \<and> q ! 1 = 254
      | None \<Rightarrow> ip ! 0 = 254 \<and> ip ! 1 div 64 = 2)"

definition ip_is_link_local_multicast :: "nat list \<Rightarrow> bool" where
  "ip_is_link_local_multicast ip =
     (case ip_to4 ip of
        Some q \<Rightarrow> q ! 0 = 224 \<and> q ! 1 = 0 \<and> q ! 2 = 0
      | None \<Rightarrow> ip ! 0 = 255 \<and> ip ! 1 mod 16 = 2)"

definition isPublicIP :: "nat list \<Rightarrow> bool" where
  "isPublicIP ip =
     (\<not> ip_is_loopback ip \<and> \<not> ip_is_private ip \<and> \<not> ip_is_unspecified ip \<and>
      \<not> ip_is_multicast ip \<and> \<not> ip_is_link_local_unicast ip \<and> \<not> ip_is_link_local_multicast ip)"

definition remoteHost :: "ext \<Rightarrow> string \<Rightarrow> string" where
  "remoteHost x raw =
     (if raw = [] then []
      else case x_split_host_port x raw of
             Some (host, port) \<Rightarrow> trim_both host ''[]''
           | None \<Rightarrow> trim_both raw ''[]'')"

definition cleanPublicIP :: "ext \<Rightarrow> string \<Rightarrow> string" where
  "cleanPublicIP x raw =
     (let host = remoteHost x (trim_space raw) in
      case x_parse_ip x host of
        None \<Rightarrow> []
      | Some ip \<Rightarrow> if isPublicIP ip then host else [])"

fun first_public :: "ext \<Rightarrow> string list \<Rightarrow> string" where
  "first_public x [] = []"
| "first_public x (p # ps) =
     (let ip = cleanPublicIP x p in if ip \<noteq> [] then ip else first_public x ps)"

definition firstPublicIP :: "ext \<Rightarrow> string \<Rightarrow> string" where
  "firstPublicIP x headerValue = first_public x (split_on CHR '','' headerValue)"

definition clientIP :: "ext \<Rightarrow> Config \<Rightarrow> Request \<Rightarrow> string" where
  "clientIP x cfg r =
     (let cf = cleanPublicIP x (header_get (rq_Header r) ''CF-Connecting-IP'');
          fwd = firstPublicIP x (header_get (rq_Header r) ''X-Forwarded-For'');
          real = cleanPublicIP x (header_get (rq_Header r) ''X-Real-IP'')
      in if cfg_TrustForwardedFor cfg \<and> cf \<noteq> [] then cf
         else if cfg_TrustForwardedFor cfg \<and> fwd \<noteq> [] then fwd
         else if cfg_TrustForwardedFor cfg \<and> real \<noteq> [] then real
         else remoteHost x (rq_RemoteAddr r))"

text \<open>What a client can make the gateway believe about its address.\<close>

lemma cleanPublicIP_public:
  "cleanPublicIP x raw \<noteq> [] \<Longrightarrow> \<exists>ip. x_parse_ip x (cleanPublicIP x raw) = Some ip \<and> isPublicIP ip"
  by (auto simp: cleanPublicIP_def Let_def split: option.splits if_splits)

lemma firstPublicIP_public:
  "firstPublicIP x h \<noteq> [] \<Longrightarrow> \<exists>ip. x_parse_ip x (firstPublicIP x h) = Some ip \<and> isPublicIP ip"
proof -
  have "first_public x ps \<noteq> [] \<Longrightarrow>
      \<exists>ip. x_parse_ip x (first_public x ps) = Some ip \<and> isPublicIP ip" for ps
    by (induction ps) (auto simp: Let_def cleanPublicIP_public split: if_splits)
  then show "firstPublicIP x h \<noteq> [] \<Longrightarrow> \<exists>ip. x_parse_ip x (firstPublicIP x h) = Some ip \<and> isPublicIP ip" by (simp add: firstPublicIP_def)
qed

lemma clientIP_cases:
  "clientIP x cfg r = remoteHost x (rq_RemoteAddr r) \<or>
   (cfg_TrustForwardedFor cfg \<and>
    (\<exists>ip. x_parse_ip x (clientIP x cfg r) = Some ip \<and> isPublicIP ip))"
  using cleanPublicIP_public firstPublicIP_public by (auto simp: clientIP_def Let_def)

section \<open>Regions\<close>

definition cleanRegionPart :: "string \<Rightarrow> string" where
  "cleanRegionPart v = (let t = trim_space v in if t = [] \<or> t = ''0'' then [] else t)"

definition cleanRegionParts :: "string list \<Rightarrow> string list" where
  "cleanRegionParts parts = filter (\<lambda>p. p \<noteq> []) (map cleanRegionPart parts)"

definition regionInfoFromIP2Region :: "ip_info \<Rightarrow> IPRegionInfo" where
  "regionInfoFromIP2Region info =
     (let parts = cleanRegionParts [ii_Country info, ii_Province info, ii_City info];
          parts' = (if parts = [] then cleanRegionParts [ii_Country info, ii_Region info] else parts)
      in \<lparr>ri_Location = join_with '' '' parts', ri_ISP = cleanRegionPart (ii_ISP info)\<rparr>)"

text \<open>\<open>Lookup\<close>: the database parameter answers \<open>None\<close> when no database is configured.\<close>

definition Lookup_region :: "ext \<Rightarrow> string \<Rightarrow> IPRegionInfo option" where
  "Lookup_region x ip =
     (case x_parse_ip x ip of
        None \<Rightarrow> None
      | Some b \<Rightarrow>
          if ip_to4 b = None then None
          else (case x_ip_region x ip of
                  None \<Rightarrow> None
                | Some info \<Rightarrow>
                    let region = regionInfoFromIP2Region info in
                    if ri_Location region \<noteq> [] \<or> ri_ISP region \<noteq> [] then Some region else None))"

definition updateDeviceIPInfoLocked :: "ext \<Rightarrow> string \<Rightarrow> DeviceRecord \<Rightarrow> DeviceRecord" where
  "updateDeviceIPInfoLocked x ip0 d =
     (let ip = trim_space ip0 in
      if ip = [] then d\<lparr>d_LastIP := [], d_LastIPRegion := [], d_LastIPISP := []\<rparr>
      else if d_LastIP d = ip \<and> (d_LastIPRegion d \<noteq> [] \<or> d_LastIPISP d \<noteq> []) then d
      else (case Lookup_region x ip of
              Some region \<Rightarrow>
                d\<lparr>d_LastIP := ip, d_LastIPRegion := ri_Location region, d_LastIPISP := ri_ISP region\<rparr>
            | None \<Rightarrow> d\<lparr>d_LastIP := ip, d_LastIPRegion := [], d_LastIPISP := []\<rparr>))"

lemma updateDeviceIP_frame [simp]:
  "d_ID (updateDeviceIPInfoLocked x ip d) = d_ID d"
  "d_UserID (updateDeviceIPInfoLocked x ip d) = d_UserID d"
  "d_DeviceIDHash (updateDeviceIPInfoLocked x ip d) = d_DeviceIDHash d"
  "d_Status (updateDeviceIPInfoLocked x ip d) = d_Status d"
  "d_LastSeenAt (updateDeviceIPInfoLocked x ip d) = d_LastSeenAt d"
  "d_CreatedAt (updateDeviceIPInfoLocked x ip d) = d_CreatedAt d"
  "d_RevokedAt (updateDeviceIPInfoLocked x ip d) = d_RevokedAt d"
  "d_RevokedBy (updateDeviceIPInfoLocked x ip d) = d_RevokedBy d"
  by (simp_all add: updateDeviceIPInfoLocked_def Let_def split: option.splits)

text \<open>\<open>publicBaseURL\<close>: the configured address, or what the request and its proxy claim.\<close>

definition publicBaseURL :: "Config \<Rightarrow> Request \<Rightarrow> string" where
  "publicBaseURL cfg r =
     (if cfg_PublicBaseURL cfg \<noteq> [] then cfg_PublicBaseURL cfg
      else
        let proto = header_get (rq_Header r) ''X-Forwarded-Proto'';
            fhost = header_get (rq_Header r) ''X-Forwarded-Host'';
            scheme = (if proto \<noteq> [] then trim_space (hd (split_on CHR '','' proto))
                      else if rq_TLS r then ''https'' else ''http'');
            host = (if fhost \<noteq> [] then trim_space (hd (split_on CHR '','' fhost)) else rq_Host r)
        in scheme @ ''://'' @ host)"

end
