(* ===== verification/Backends.thy ===== *)
theory Backends
  imports Http
begin

text \<open>
  The pool of business backends of \<open>device_gateway/main.go\<close>: the circuit breaker of each
  backend, the order in which a request tries them, the retry loop \<open>tryBusinessURLs\<close> and
  the background check that fails back to a preferred backend. The exchange with a backend
  is a parameter (\<open>send\<close>), and so is what other requests do to the pool between two critical
  sections (\<open>others\<close>).
\<close>

section \<open>State\<close>

record BusinessBackendState =
  bs_FailureCount :: int
  bs_DisabledUntil :: time
  bs_LastSuccessAt :: time
  bs_LastFailureAt :: time
  bs_RecoverySuccessCount :: int

definition no_backend_state :: BusinessBackendState where
  "no_backend_state =
     \<lparr>bs_FailureCount = 0, bs_DisabledUntil = 0, bs_LastSuccessAt = 0, bs_LastFailureAt = 0,
      bs_RecoverySuccessCount = 0\<rparr>"

text \<open>The fields of \<open>Server\<close> under \<open>backendMu\<close>.\<close>

record BackendPool =
  pl_states :: "BusinessBackendState gomap"
  pl_active :: string
  pl_since :: time

definition no_pool :: BackendPool where
  "no_pool = \<lparr>pl_states = [], pl_active = [], pl_since = 0\<rparr>"

text \<open>The record under a URL, or a new one: \<open>state := s.backendStates[baseURL]; if state == nil\<close>.\<close>

definition backend_state :: "BackendPool \<Rightarrow> string \<Rightarrow> BusinessBackendState" where
  "backend_state p u = (case gm_get (pl_states p) u of Some st \<Rightarrow> st | None \<Rightarrow> no_backend_state)"

definition is_disabled :: "time \<Rightarrow> BackendPool \<Rightarrow> string \<Rightarrow> bool" where
  "is_disabled now p u =
     (case gm_get (pl_states p) u of None \<Rightarrow> False | Some st \<Rightarrow> now < bs_DisabledUntil st)"

definition containsString :: "string list \<Rightarrow> string \<Rightarrow> bool" where
  "containsString values target = list_ex (\<lambda>v. v = target) values"

lemma containsString_iff [simp]: "containsString vs t \<longleftrightarrow> t \<in> set vs"
  by (auto simp: containsString_def list_ex_iff)

section \<open>The order of the backends\<close>

fun order_rest :: "time \<Rightarrow> BackendPool \<Rightarrow> string list \<Rightarrow> string list \<Rightarrow> string list" where
  "order_rest now p [] ordered = ordered"
| "order_rest now p (u # us) ordered =
     (if containsString ordered u then order_rest now p us ordered
      else if is_disabled now p u then order_rest now p us ordered
      else order_rest now p us (ordered @ [u]))"

definition businessURLs :: "Config \<Rightarrow> time \<Rightarrow> BackendPool \<Rightarrow> string list" where
  "businessURLs cfg now p =
     (let configured = cfg_BusinessBaseURLs cfg;
          start = (if pl_active p \<noteq> [] \<and> containsString configured (pl_active p) \<and>
                      \<not> is_disabled now p (pl_active p)
                   then [pl_active p] else []);
          ordered = order_rest now p configured start
      in if ordered = [] \<and> configured \<noteq> [] then [hd configured] else ordered)"

definition businessBaseURL :: "Config \<Rightarrow> time \<Rightarrow> BackendPool \<Rightarrow> string" where
  "businessBaseURL cfg now p = (case businessURLs cfg now p of [] \<Rightarrow> [] | u # us \<Rightarrow> u)"

section \<open>Bookkeeping\<close>

text \<open>The deletions of the loop over the map: every key that is not in \<open>valid\<close>.\<close>

fun add_missing :: "string list \<Rightarrow> BusinessBackendState gomap \<Rightarrow> BusinessBackendState gomap" where
  "add_missing [] m = m"
| "add_missing (u # us) m =
     add_missing us (case gm_get m u of None \<Rightarrow> gm_set u no_backend_state m | Some _ \<Rightarrow> m)"

definition syncBusinessBackends :: "string list \<Rightarrow> BackendPool \<Rightarrow> BackendPool" where
  "syncBusinessBackends urls p =
     p\<lparr>pl_states := filter (\<lambda>e. fst e \<in> set urls) (add_missing urls (pl_states p)),
       pl_active := (if containsString urls (pl_active p) then pl_active p else [])\<rparr>"

text \<open>\<open>t1\<close> and \<open>t2\<close> are the two readings of the clock.\<close>

definition markBusinessSuccess :: "time \<Rightarrow> time \<Rightarrow> string \<Rightarrow> BackendPool \<Rightarrow> BackendPool" where
  "markBusinessSuccess t1 t2 u p =
     (let st = (backend_state p u)\<lparr>bs_FailureCount := 0, bs_DisabledUntil := 0,
                 bs_LastSuccessAt := t1, bs_RecoverySuccessCount := 0\<rparr>;
          p1 = p\<lparr>pl_states := gm_set u st (pl_states p)\<rparr>
      in if pl_active p \<noteq> u then p1\<lparr>pl_active := u, pl_since := t2\<rparr> else p1)"

definition failure_threshold :: "Config \<Rightarrow> int" where
  "failure_threshold cfg =
     (if cfg_BusinessFailureThreshold cfg < 1 then 2 else cfg_BusinessFailureThreshold cfg)"

definition circuit_cooldown :: "Config \<Rightarrow> duration" where
  "circuit_cooldown cfg =
     (if cfg_BusinessCircuitBreak cfg \<le> 0 then seconds 90 else cfg_BusinessCircuitBreak cfg)"

definition markBusinessFailure :: "Config \<Rightarrow> time \<Rightarrow> time \<Rightarrow> string \<Rightarrow> BackendPool \<Rightarrow> BackendPool" where
  "markBusinessFailure cfg t1 t2 u p =
     (let st = backend_state p u;
          st1 = st\<lparr>bs_FailureCount := bs_FailureCount st + 1, bs_RecoverySuccessCount := 0,
                   bs_LastFailureAt := t1\<rparr>
      in if bs_FailureCount st1 \<ge> failure_threshold cfg
         then p\<lparr>pl_states := gm_set u (st1\<lparr>bs_DisabledUntil := t2 + circuit_cooldown cfg\<rparr>) (pl_states p),
                pl_active := (if pl_active p = u then [] else pl_active p)\<rparr>
         else p\<lparr>pl_states := gm_set u st1 (pl_states p)\<rparr>)"

section \<open>Requests to a backend\<close>

record breq =
  bq_Method :: string
  bq_URL :: parsed_url
  bq_Header :: header
  bq_Body :: string

text \<open>
  The reply: no response in time, no response, or a response with its status, its header and
  what reading its body gives (\<open>None\<close> for an error).
\<close>

datatype net_reply = NetTimeout | NetError | NetReply int header "string option"

text \<open>\<open>http.NewRequestWithContext\<close>: the method is checked and the URL parsed again.\<close>

definition new_request :: "ext \<Rightarrow> string \<Rightarrow> string \<Rightarrow> header \<Rightarrow> string \<Rightarrow> breq option" where
  "new_request x meth target h body =
     (if meth \<noteq> [] \<and> \<not> list_all is_token_byte meth then None
      else (case x_url_parse x target of
              None \<Rightarrow> None
            | Some u \<Rightarrow> Some \<lparr>bq_Method = (if meth = [] then ''GET'' else meth), bq_URL = u,
                             bq_Header = h, bq_Body = body\<rparr>))"

definition businessURLFor :: "ext \<Rightarrow> string \<Rightarrow> string \<Rightarrow> string \<Rightarrow> string option" where
  "businessURLFor x base path rawQuery =
     (case x_url_parse x base of
        None \<Rightarrow> None
      | Some u \<Rightarrow>
          Some (x_url_string x (u\<lparr>pu_Path := joinURLPath (pu_Path u) path, pu_RawQuery := rawQuery\<rparr>)))"

definition safeBusinessRetry :: "breq \<Rightarrow> bool" where
  "safeBusinessRetry req =
     (if bq_Method req \<in> {''GET'', ''HEAD'', ''OPTIONS''} then True
      else if bq_Method req = ''POST'' then has_suffix (pu_Path (bq_URL req)) ''/passport/auth/login''
      else False)"

datatype try_error = TryRequest | TryTransport | TryStatus string int | TryNoURLs

record try_result =
  tr_Answer :: "try_error + int \<times> header \<times> string option"
  tr_Pool :: BackendPool
  tr_Sent :: "(string \<times> breq \<times> net_reply) list"

text \<open>
  The loop of \<open>tryBusinessURLs\<close> from the \<open>i\<close>-th URL on. \<open>clock i\<close> is the pair of clock
  readings of the bookkeeping after the exchange; the requests sent are collected with their
  replies.
\<close>

fun try_from ::
    "Config \<Rightarrow> (string \<Rightarrow> breq option) \<Rightarrow> (nat \<Rightarrow> breq \<Rightarrow> net_reply) \<Rightarrow> (nat \<Rightarrow> time \<times> time)
     \<Rightarrow> (nat \<Rightarrow> BackendPool \<Rightarrow> BackendPool) \<Rightarrow> nat \<Rightarrow> string list \<Rightarrow> try_error option \<Rightarrow> BackendPool \<Rightarrow> try_result" where
  "try_from cfg mk send clock others i [] lastErr p =
     \<lparr>tr_Answer = Inl (case lastErr of Some e \<Rightarrow> e | None \<Rightarrow> TryNoURLs), tr_Pool = p, tr_Sent = []\<rparr>"
| "try_from cfg mk send clock others i (u # us) lastErr p =
     (case mk u of
        None \<Rightarrow> try_from cfg mk send clock others (Suc i) us (Some TryRequest) p
      | Some req \<Rightarrow>
          let p1 = others i p;
              failed = markBusinessFailure cfg (fst (clock i)) (snd (clock i)) u p1;
              next = (\<lambda>err. let r = try_from cfg mk send clock others (Suc i) us (Some err) failed
                            in r\<lparr>tr_Sent := (u, req, send i req) # tr_Sent r\<rparr>)
          in (case send i req of
                NetReply code h body \<Rightarrow>
                  if code \<ge> 500 \<and> us \<noteq> [] \<and> safeBusinessRetry req then next (TryStatus u code)
                  else \<lparr>tr_Answer = Inr (code, h, body),
                        tr_Pool = (if code < 500
                                   then markBusinessSuccess (fst (clock i)) (snd (clock i)) u p1
                                   else failed),
                        tr_Sent = [(u, req, send i req)]\<rparr>
              | _ \<Rightarrow>
                  if us \<noteq> [] \<and> safeBusinessRetry req then next TryTransport
                  else \<lparr>tr_Answer = Inl TryTransport, tr_Pool = failed, tr_Sent = [(u, req, send i req)]\<rparr>))"

definition tryBusinessURLs ::
    "Config \<Rightarrow> time \<Rightarrow> (string \<Rightarrow> breq option) \<Rightarrow> (nat \<Rightarrow> breq \<Rightarrow> net_reply) \<Rightarrow> (nat \<Rightarrow> time \<times> time)
     \<Rightarrow> (nat \<Rightarrow> BackendPool \<Rightarrow> BackendPool) \<Rightarrow> BackendPool \<Rightarrow> try_result" where
  "tryBusinessURLs cfg now mk send clock others p =
     try_from cfg mk send clock others 0 (businessURLs cfg now p) None p"

section \<open>Recovery\<close>

text \<open>\<open>probeBusinessBackend\<close>: a \<open>GET\<close> of the public configuration answered with a 2xx status.\<close>

definition probe_request :: "ext \<Rightarrow> Config \<Rightarrow> string \<Rightarrow> breq option" where
  "probe_request x cfg u =
     (case businessURLFor x u (cfg_APIPrefix cfg @ ''/guest/comm/config'') [] of
        None \<Rightarrow> None
      | Some target \<Rightarrow> new_request x ''GET'' target [] [])"

definition probeBusinessBackend :: "ext \<Rightarrow> Config \<Rightarrow> (breq \<Rightarrow> net_reply) \<Rightarrow> string \<Rightarrow> bool" where
  "probeBusinessBackend x cfg send u =
     (case probe_request x cfg u of
        None \<Rightarrow> False
      | Some req \<Rightarrow> (case send req of NetReply code h b \<Rightarrow> 200 \<le> code \<and> code < 300 | _ \<Rightarrow> False))"

definition required_successes :: "Config \<Rightarrow> int" where
  "required_successes cfg =
     (if cfg_BusinessRecoverySuccess cfg < 1 then 3 else cfg_BusinessRecoverySuccess cfg)"

text \<open>
  One candidate: whether it is skipped, its probe, the vote. \<open>clock i\<close> are the readings for
  the circuit, for the hold time and for the success mark; \<open>others i\<close> and \<open>others' i\<close> act
  before the vote is recorded and before the success is.
\<close>

fun recovery_loop ::
    "Config \<Rightarrow> (nat \<Rightarrow> string \<Rightarrow> bool) \<Rightarrow> (nat \<Rightarrow> time \<times> time \<times> time \<times> time) \<Rightarrow> (nat \<Rightarrow> BackendPool \<Rightarrow> BackendPool)
     \<Rightarrow> (nat \<Rightarrow> BackendPool \<Rightarrow> BackendPool) \<Rightarrow> time \<Rightarrow> nat \<Rightarrow> string list \<Rightarrow> BackendPool \<Rightarrow> BackendPool" where
  "recovery_loop cfg probe clock others others' since i [] p = p"
| "recovery_loop cfg probe clock others others' since i (c # cs) p =
     (let (now, held, t1, t2) = clock i in
      if is_disabled now p c
      then recovery_loop cfg probe clock others others' since (Suc i) cs p
      else
        let p1 = others i p in
        if \<not> probe i c
        then recovery_loop cfg probe clock others others' since (Suc i) cs
               (p1\<lparr>pl_states := gm_mod c (\<lambda>st. st\<lparr>bs_RecoverySuccessCount := 0\<rparr>) (pl_states p1)\<rparr>)
        else
          let st = backend_state p1 c;
              st1 = st\<lparr>bs_RecoverySuccessCount := bs_RecoverySuccessCount st + 1\<rparr>;
              p2 = p1\<lparr>pl_states := gm_set c st1 (pl_states p1)\<rparr>;
              ready = (bs_RecoverySuccessCount st1 \<ge> required_successes cfg \<and>
                       (since = 0 \<or> time_sub held since \<ge> cfg_BusinessBackupMinHold cfg))
          in if ready then markBusinessSuccess t1 t2 c (others' i p2) else p2)"

definition candidates :: "string list \<Rightarrow> string \<Rightarrow> string list" where
  "candidates configured active =
     (if active \<in> set configured then takeWhile (\<lambda>u. u \<noteq> active) configured else [])"

definition checkBusinessRecovery ::
    "Config \<Rightarrow> (nat \<Rightarrow> string \<Rightarrow> bool) \<Rightarrow> (nat \<Rightarrow> time \<times> time \<times> time \<times> time) \<Rightarrow> (nat \<Rightarrow> BackendPool \<Rightarrow> BackendPool)
     \<Rightarrow> (nat \<Rightarrow> BackendPool \<Rightarrow> BackendPool) \<Rightarrow> BackendPool \<Rightarrow> BackendPool" where
  "checkBusinessRecovery cfg probe clock others others' p =
     (if length (cfg_BusinessBaseURLs cfg) < 2 then p
      else recovery_loop cfg probe clock others others' (pl_since p) 0
             (candidates (cfg_BusinessBaseURLs cfg) (pl_active p)) p)"

text \<open>\<open>anyBusinessBackendHealthy\<close>: some domain answers its probe; each probe runs on its own.\<close>

definition anyBusinessBackendHealthy :: "ext \<Rightarrow> Config \<Rightarrow> (breq \<Rightarrow> net_reply) \<Rightarrow> string list \<Rightarrow> bool" where
  "anyBusinessBackendHealthy x cfg send domains = list_ex (probeBusinessBackend x cfg send) domains"

text \<open>
  \<open>refreshOSSConfig\<close> after the fetch: \<open>domains\<close> and \<open>gateways\<close> are what it returned. The
  configuration changes only when a candidate backend is reachable.
\<close>

definition refreshOSSConfig ::
    "ext \<Rightarrow> bool \<Rightarrow> string list \<times> string list \<Rightarrow> (breq \<Rightarrow> net_reply) \<Rightarrow> Config \<times> BackendPool \<Rightarrow> Config \<times> BackendPool" where
  "refreshOSSConfig x has_key fetched send cp =
     (let (cfg, p) = cp; (domains, gatewayURLs) = fetched in
      if \<not> has_key then cp
      else if domains = [] then cp
      else if \<not> anyBusinessBackendHealthy x cfg send domains then cp
      else (let cfg1 = cfg\<lparr>cfg_BusinessBaseURLs := domains\<rparr>;
                cfg2 = (if gatewayURLs \<noteq> [] then cfg1\<lparr>cfg_GatewayURLs := gatewayURLs\<rparr> else cfg1)
            in (cfg2, syncBusinessBackends domains p)))"

end
