(* ===== verification/Accounts.thy ===== *)
theory Accounts
  imports Http
begin

text \<open>
  Accounts, their devices and their sessions: how \<open>device_gateway/main.go\<close> finds or creates
  the user of a login, applies the device limit, admits a device and revokes devices and
  sessions. A pointer into one of the store's maps is the key it is stored under; a list of
  pointers is a list of keys with the records they point to.
\<close>

section \<open>Users\<close>

definition hasDeviceLimit :: "SubscriptionSnapshot \<Rightarrow> bool" where
  "hasDeviceLimit sn = (sn_DeviceLimitSet sn \<or> sn_DeviceLimit sn \<noteq> None)"

definition normalizedDeviceLimit :: "int option \<Rightarrow> int option" where
  "normalizedDeviceLimit limit =
     (case limit of None \<Rightarrow> Some 0 | Some l \<Rightarrow> if l \<le> 0 then Some 0 else Some l)"

definition findUserLocked :: "ext \<Rightarrow> string \<Rightarrow> Store \<Rightarrow> (string \<times> UserCache) option" where
  "findUserLocked x key0 s =
     (let key = trim_space key0 in
      if key = [] then None
      else (case gm_get (st_Users s) key of
              Some u \<Rightarrow> Some (key, u)
            | None \<Rightarrow>
                List.find (\<lambda>e. to_lower_x x (u_Email (snd e)) = to_lower_x x key
                              \<or> u_BusinessUserID (snd e) = key) (st_Users s)))"

definition new_user :: "string \<Rightarrow> string \<Rightarrow> time \<Rightarrow> UserCache" where
  "new_user uid email now =
     \<lparr>u_ID = uid, u_BusinessUserID = [], u_Email = email, u_PlanID = 0, u_PlanName = [],
      u_DeviceLimit = None, u_DeviceLimitOverride = None, u_LastSyncedAt = 0,
      u_CreatedAt = now, u_UpdatedAt = 0\<rparr>"

text \<open>The fields that \<open>upsertUserLocked\<close> writes into the record, new or found.\<close>

definition sync_user ::
    "Config \<Rightarrow> SubscriptionSnapshot \<Rightarrow> string \<Rightarrow> string \<Rightarrow> time \<Rightarrow> UserCache \<Rightarrow> UserCache" where
  "sync_user cfg sn email businessID now u =
     (let lim = (if hasDeviceLimit sn then normalizedDeviceLimit (sn_DeviceLimit sn)
                 else u_DeviceLimit u)
      in u\<lparr>u_Email := email, u_BusinessUserID := businessID, u_PlanID := sn_PlanID sn,
           u_PlanName := sn_PlanName sn,
           u_DeviceLimit := (if lim = None then Some (cfg_DefaultDeviceLimit cfg) else lim),
           u_LastSyncedAt := now, u_UpdatedAt := now\<rparr>)"

text \<open>The result is the key of the user's record and the store.\<close>

definition upsertUserLocked ::
    "ext \<Rightarrow> Config \<Rightarrow> SubscriptionSnapshot \<Rightarrow> string \<Rightarrow> time \<Rightarrow> Store \<Rightarrow> string \<times> Store" where
  "upsertUserLocked x cfg sn fallbackEmail now s =
     (let email = (if sn_Email sn = [] then fallbackEmail else sn_Email sn);
          businessID = (if sn_UUID sn = [] then email else sn_UUID sn);
          found = (case findUserLocked x businessID s of
                     Some e \<Rightarrow> Some e
                   | None \<Rightarrow> if email \<noteq> [] then findUserLocked x email s else None);
          hid = ''usr_'' @ stableShortID (hashValue x cfg ''user'' (to_lower_x x email));
          redraw = (hid = ''usr_'');
          nid = (if redraw then ''usr_'' @ randomHex x (st_rng s) 10 else hid)
      in case found of
           Some (k, u) \<Rightarrow>
             (k, markUserLocked (u_ID u)
                   (s\<lparr>st_Users := gm_mod k (sync_user cfg sn email businessID now) (st_Users s)\<rparr>))
         | None \<Rightarrow>
             (nid, markUserLocked nid
                   (s\<lparr>st_rng := (if redraw then Suc (st_rng s) else st_rng s),
                      st_Users := gm_set nid
                        (sync_user cfg sn email businessID now (new_user nid email now))
                        (st_Users s)\<rparr>)))"

definition effectiveLimitLocked :: "Config \<Rightarrow> UserCache \<Rightarrow> int" where
  "effectiveLimitLocked cfg u =
     (case u_DeviceLimitOverride u of
        Some l \<Rightarrow> l
      | None \<Rightarrow> (case u_DeviceLimit u of Some l \<Rightarrow> l | None \<Rightarrow> cfg_DefaultDeviceLimit cfg))"

section \<open>Devices\<close>

definition is_active_of :: "string \<Rightarrow> DeviceRecord \<Rightarrow> bool" where
  "is_active_of uid d = (d_UserID d = uid \<and> d_Status d = statusActive)"

definition activeDevicesLocked :: "string \<Rightarrow> Store \<Rightarrow> (string \<times> DeviceRecord) list" where
  "activeDevicesLocked uid s = gm_filter (is_active_of uid) (st_Devices s)"

definition devicesForUserLocked :: "string \<Rightarrow> Store \<Rightarrow> (string \<times> DeviceRecord) list" where
  "devicesForUserLocked uid s = gm_filter (\<lambda>d. d_UserID d = uid) (st_Devices s)"

definition findDeviceByHashLocked ::
    "string \<Rightarrow> string \<Rightarrow> Store \<Rightarrow> (string \<times> DeviceRecord) option" where
  "findDeviceByHashLocked uid hash s =
     List.find (\<lambda>e. d_UserID (snd e) = uid \<and> d_DeviceIDHash (snd e) = hash) (st_Devices s)"

definition revoked_record :: "string \<Rightarrow> time \<Rightarrow> DeviceRecord \<Rightarrow> DeviceRecord" where
  "revoked_record actor now d =
     d\<lparr>d_Status := statusRevoked, d_RevokedAt := Some now, d_RevokedBy := actor\<rparr>"

definition revokeDeviceLocked :: "string \<Rightarrow> string \<Rightarrow> time \<Rightarrow> Store \<Rightarrow> Store" where
  "revokeDeviceLocked k actor now s =
     (case gm_get (st_Devices s) k of
        None \<Rightarrow> s
      | Some d \<Rightarrow>
          markDeviceLocked (d_ID d)
            (s\<lparr>st_Devices := gm_mod k (revoked_record actor now) (st_Devices s)\<rparr>))"

definition revoke_session_entry :: "string \<Rightarrow> time \<Rightarrow> string \<times> SessionRecord \<Rightarrow> Store \<Rightarrow> Store" where
  "revoke_session_entry did now e s =
     (if s_DeviceID (snd e) = did \<and> s_Status (snd e) = statusActive
      then markSessionLocked (s_ID (snd e))
             (s\<lparr>st_Sessions := gm_mod (fst e)
                 (\<lambda>ses. ses\<lparr>s_Status := statusRevoked, s_ExpiresAt := now\<rparr>) (st_Sessions s)\<rparr>)
      else s)"

definition revokeDeviceSessionsLocked :: "string \<Rightarrow> time \<Rightarrow> Store \<Rightarrow> Store" where
  "revokeDeviceSessionsLocked did now s = fold (revoke_session_entry did now) (st_Sessions s) s"

text \<open>\<open>oldestDevice\<close>: the first record with the least \<open>LastSeenAt\<close>.\<close>

fun older :: "(string \<times> DeviceRecord) \<Rightarrow> (string \<times> DeviceRecord) list \<Rightarrow> string \<times> DeviceRecord" where
  "older o0 [] = o0"
| "older o0 (d # ds) =
     older (if d_LastSeenAt (snd d) < d_LastSeenAt (snd o0) then d else o0) ds"

definition oldestDevice :: "(string \<times> DeviceRecord) list \<Rightarrow> (string \<times> DeviceRecord) option" where
  "oldestDevice ds = (case ds of [] \<Rightarrow> None | d # rest \<Rightarrow> Some (older d rest))"

definition removeDeviceByID ::
    "(string \<times> DeviceRecord) list \<Rightarrow> string \<Rightarrow> (string \<times> DeviceRecord) list" where
  "removeDeviceByID ds did = filter (\<lambda>e. d_ID (snd e) \<noteq> did) ds"

lemma older_in: "older o0 ds = o0 \<or> older o0 ds \<in> set ds"
proof (induction ds arbitrary: o0)
  case Nil
  then show ?case by simp
next
  case (Cons d ds)
  from Cons [of d] Cons [of o0] show ?case by auto
qed

lemma older_le_start: "d_LastSeenAt (snd (older o0 ds)) \<le> d_LastSeenAt (snd o0)"
proof (induction ds arbitrary: o0)
  case Nil
  then show ?case by simp
next
  case (Cons d ds)
  from Cons [of d] Cons [of o0] show ?case by auto
qed

lemma older_le: "d \<in> set ds \<Longrightarrow> d_LastSeenAt (snd (older o0 ds)) \<le> d_LastSeenAt (snd d)"
proof (induction ds arbitrary: o0)
  case Nil
  then show ?case by simp
next
  case (Cons e es)
  from older_le_start [of e es] older_le_start [of o0 es]
  have "d_LastSeenAt (snd (older o0 (e # es))) \<le> d_LastSeenAt (snd e)" by auto
  with Cons.IH [of e] Cons.IH [of o0] Cons.prems show ?case by auto
qed

lemma oldestDevice_in: "oldestDevice ds = Some e \<Longrightarrow> e \<in> set ds"
  by (cases ds) (use older_in in \<open>auto simp: oldestDevice_def\<close>)

lemma oldestDevice_le:
  assumes "oldestDevice ds = Some e" and "d \<in> set ds"
  shows "d_LastSeenAt (snd e) \<le> d_LastSeenAt (snd d)"
proof -
  obtain c cs where ds: "ds = c # cs" using assms(2) by (cases ds) auto
  then have "e = older c cs" using assms(1) by (simp add: oldestDevice_def)
  with assms(2) ds older_le_start [of c cs] older_le [of d cs c] show ?thesis by auto
qed

lemma oldestDevice_None [simp]: "oldestDevice ds = None \<longleftrightarrow> ds = []"
  by (auto simp: oldestDevice_def split: list.splits)

section \<open>Admission\<close>

text \<open>
  The loop of the \<open>kick_oldest\<close> policy: the count and the list of the candidates shrink
  together; \<open>Inl\<close> is the return with \<open>errDeviceLimitExceeded\<close>.
\<close>

definition kick_details :: "anymap option" where
  "kick_details = Some [(''reason'', VStr ''device policy kick_oldest'')]"

definition kick_one ::
    "ext \<Rightarrow> string \<Rightarrow> string \<Rightarrow> string \<Rightarrow> time \<Rightarrow> string \<times> DeviceRecord \<Rightarrow> Store \<Rightarrow> Store" where
  "kick_one x uid ip ua now e s =
     addAuditLocked x ''device.revoked'' uid (d_ID (snd e)) ''system:kick_oldest'' ip ua
       kick_details now
       (revokeDeviceSessionsLocked (d_ID (snd e)) now
         (revokeDeviceLocked (fst e) ''system:kick_oldest'' now s))"

function kick_loop ::
    "ext \<Rightarrow> string \<Rightarrow> string \<Rightarrow> string \<Rightarrow> time \<Rightarrow> int \<Rightarrow> int \<Rightarrow> (string \<times> DeviceRecord) list \<Rightarrow> Store
     \<Rightarrow> (int \<times> Store) + (int \<times> Store)" where
  "kick_loop x uid ip ua now limit cnt ds s =
     (if cnt < limit then Inr (cnt, s)
      else (case oldestDevice ds of
              None \<Rightarrow> Inl (cnt, s)
            | Some e \<Rightarrow>
                kick_loop x uid ip ua now limit (cnt - 1) (removeDeviceByID ds (d_ID (snd e)))
                  (kick_one x uid ip ua now e s)))"
  by pat_completeness auto
termination
  by (relation "measure (\<lambda>(x, uid, ip, ua, now, limit, cnt, ds, s). length ds)")
     (auto simp: removeDeviceByID_def dest!: oldestDevice_in intro: filter_length_less)

declare kick_loop.simps [simp del]

datatype admit_result =
    Admitted string DeviceRecord int int
  | LimitExceeded int int
  | AdmitFailed int int

text \<open>What is computed before the lock is taken: the tokens, their hashes and ciphertexts.\<close>

record AdmitSecrets =
  as_SessionToken :: string
  as_SessionHash :: string
  as_SubscribeHash :: string
  as_BusinessCipher :: string
  as_SubscribeCipher :: string
  as_SubURLCipher :: string
  as_Rng :: nat

definition admit_secrets ::
    "ext \<Rightarrow> Config \<Rightarrow> string \<Rightarrow> SubscriptionSnapshot \<Rightarrow> string \<Rightarrow> nat \<Rightarrow> AdmitSecrets option" where
  "admit_secrets x cfg key sn businessToken i =
     (case encryptString x key (x_rand x i 12) businessToken of
        None \<Rightarrow> None
      | Some bt \<Rightarrow>
          let tok = ''dg_'' @ randomHex x (i + 1) 32;
              sub = ''sub_'' @ randomHex x (i + 2) 32 in
          (case encryptString x key (x_rand x (i + 3) 12) sub of
             None \<Rightarrow> None
           | Some st \<Rightarrow>
               (let sec = \<lparr>as_SessionToken = tok, as_SessionHash = hashValue x cfg ''session'' tok,
                           as_SubscribeHash = hashValue x cfg ''subscribe'' sub,
                           as_BusinessCipher = bt, as_SubscribeCipher = st,
                           as_SubURLCipher = [], as_Rng = i + 4\<rparr>
                in if sn_SubscribeURL sn = [] then Some sec
                   else (case encryptString x key (x_rand x (i + 4) 12) (sn_SubscribeURL sn) of
                           None \<Rightarrow> None
                         | Some su \<Rightarrow> Some (sec\<lparr>as_SubURLCipher := su, as_Rng := i + 5\<rparr>)))))"

definition fresh_device :: "string \<Rightarrow> string \<Rightarrow> string \<Rightarrow> time \<Rightarrow> DeviceRecord" where
  "fresh_device did uid hash now =
     \<lparr>d_ID = did, d_UserID = uid, d_DeviceIDHash = hash, d_DeviceName = [], d_Platform = [],
      d_AppVersion = [], d_OSVersion = [], d_Status = [], d_LastSeenAt = 0, d_CreatedAt = now,
      d_RevokedAt = None, d_RevokedBy = [], d_LastIP = [], d_LastIPRegion = [], d_LastIPISP = [],
      d_UserAgent = []\<rparr>"

definition activate_device ::
    "ext \<Rightarrow> LoginRequest \<Rightarrow> string \<Rightarrow> string \<Rightarrow> time \<Rightarrow> DeviceRecord \<Rightarrow> DeviceRecord" where
  "activate_device x req ip ua now d =
     (updateDeviceIPInfoLocked x ip
       (d\<lparr>d_DeviceName := lr_DeviceName req, d_Platform := lr_Platform req,
          d_AppVersion := lr_AppVersion req, d_OSVersion := lr_OSVersion req,
          d_Status := statusActive, d_LastSeenAt := now\<rparr>))
       \<lparr>d_UserAgent := ua, d_RevokedAt := None, d_RevokedBy := []\<rparr>"

text \<open>Finding or creating the device and activating it; the result is its key.\<close>

definition place_device ::
    "ext \<Rightarrow> LoginRequest \<Rightarrow> string \<Rightarrow> string \<Rightarrow> string \<Rightarrow> string \<Rightarrow> time
     \<Rightarrow> (string \<times> DeviceRecord) option \<Rightarrow> Store \<Rightarrow> string \<times> Store" where
  "place_device x req uid hash ip ua now dev s =
     (case dev of
        Some (k, d) \<Rightarrow>
          (k, markDeviceLocked (d_ID d)
                (s\<lparr>st_Devices := gm_mod k (activate_device x req ip ua now) (st_Devices s)\<rparr>))
      | None \<Rightarrow>
          let did = ''dev_'' @ randomHex x (st_rng s) 12 in
          (did, markDeviceLocked did
                  (s\<lparr>st_rng := Suc (st_rng s),
                     st_Devices := gm_set did
                       (activate_device x req ip ua now (fresh_device did uid hash now))
                       (st_Devices s)\<rparr>)))"

definition new_session ::
    "Config \<Rightarrow> AdmitSecrets \<Rightarrow> string \<Rightarrow> string \<Rightarrow> string \<Rightarrow> string \<Rightarrow> string \<Rightarrow> time \<Rightarrow> SessionRecord" where
  "new_session cfg sec sid uid did ip ua now =
     \<lparr>s_ID = sid, s_UserID = uid, s_DeviceID = did, s_TokenHash = as_SessionHash sec,
      s_BusinessTokenCipher = as_BusinessCipher sec, s_BusinessSubURLCipher = as_SubURLCipher sec,
      s_SubscribeTokenHash = as_SubscribeHash sec, s_SubscribeTokenCipher = as_SubscribeCipher sec,
      s_Status = statusActive, s_ExpiresAt = now + cfg_SessionTTL cfg, s_CreatedAt = now,
      s_LastSeenAt = now, s_LastIP = ip, s_UserAgent = ua\<rparr>"

definition add_session ::
    "ext \<Rightarrow> Config \<Rightarrow> AdmitSecrets \<Rightarrow> string \<Rightarrow> string \<Rightarrow> string \<Rightarrow> string \<Rightarrow> time \<Rightarrow> Store \<Rightarrow> Store" where
  "add_session x cfg sec uid did ip ua now s =
     (let sid = ''ses_'' @ randomHex x (st_rng s) 12;
          session = new_session cfg sec sid uid did ip ua now
      in markSessionLocked sid
           (indexSessionLocked session
             (s\<lparr>st_rng := Suc (st_rng s), st_Sessions := gm_set sid session (st_Sessions s)\<rparr>)))"

text \<open>
  The part of \<open>admitDevice\<close> after the limit was applied: the device, its old sessions, the
  new session, the audit entry.
\<close>

definition grant_device ::
    "ext \<Rightarrow> Config \<Rightarrow> AdmitSecrets \<Rightarrow> LoginRequest \<Rightarrow> string \<Rightarrow> string \<Rightarrow> string \<Rightarrow> string \<Rightarrow> time
     \<Rightarrow> (string \<times> DeviceRecord) option \<Rightarrow> Store \<Rightarrow> string \<times> Store" where
  "grant_device x cfg sec req uid hash ip ua now dev s =
     (let (k, s1) = place_device x req uid hash ip ua now dev s;
          did = (case gm_get (st_Devices s1) k of Some d \<Rightarrow> d_ID d | None \<Rightarrow> k);
          s2 = revokeDeviceSessionsLocked did now s1;
          s3 = add_session x cfg sec uid did ip ua now s2
      in (k, addAuditLocked x ''session.created'' uid did ''user'' ip ua
               (Some [(''platform'', VStr (lr_Platform req))]) now s3))"

definition limit_gate ::
    "ext \<Rightarrow> Config \<Rightarrow> string \<Rightarrow> string \<Rightarrow> string \<Rightarrow> time \<Rightarrow> int \<Rightarrow> bool
     \<Rightarrow> (string \<times> DeviceRecord) list \<Rightarrow> Store \<Rightarrow> (int \<times> Store) + (int \<times> Store)" where
  "limit_gate x cfg uid ip ua now limit isNew active s =
     (let cnt = int (length active) in
      if isNew \<and> limit > 0 \<and> cnt \<ge> limit
      then (if cfg_DevicePolicy cfg \<noteq> policyKickOldest then Inl (cnt, s)
            else kick_loop x uid ip ua now limit cnt active s)
      else Inr (cnt, s))"

definition admitDevice ::
    "ext \<Rightarrow> Config \<Rightarrow> string \<Rightarrow> save_outcome \<Rightarrow> time \<Rightarrow> Request \<Rightarrow> LoginRequest
     \<Rightarrow> SubscriptionSnapshot \<Rightarrow> string \<Rightarrow> Store \<Rightarrow> admit_result \<times> Store" where
  "admitDevice x cfg key io now r req sn businessToken s =
     (let ip = clientIP x cfg r; ua = userAgent r;
          hash = hashValue x cfg ''device'' (lr_DeviceID req) in
      case admit_secrets x cfg key sn businessToken (st_rng s) of
        None \<Rightarrow> (AdmitFailed 0 0, s)
      | Some sec \<Rightarrow>
          let (uk, s1) = upsertUserLocked x cfg sn (lr_Email req) now (s\<lparr>st_rng := as_Rng sec\<rparr>) in
          (case gm_get (st_Users s1) uk of
             None \<Rightarrow> (AdmitFailed 0 0, s1)
           | Some user \<Rightarrow>
               let limit = effectiveLimitLocked cfg user;
                   active = activeDevicesLocked (u_ID user) s1;
                   dev = findDeviceByHashLocked (u_ID user) hash s1;
                   isNew = (case dev of None \<Rightarrow> True | Some (k, d) \<Rightarrow> d_Status d \<noteq> statusActive) in
               (case limit_gate x cfg (u_ID user) ip ua now limit isNew active s1 of
                  Inl (cnt, s2) \<Rightarrow> (LimitExceeded limit cnt, s2)
                | Inr (cnt, s2) \<Rightarrow>
                    let (k, s3) = grant_device x cfg sec req (u_ID user) hash ip ua now dev s2;
                        (ok, s4) = saveLocked x io s3 in
                    (case gm_get (st_Devices s4) k of
                       None \<Rightarrow> (AdmitFailed limit cnt, s4)
                     | Some d \<Rightarrow>
                         if ok then (Admitted (as_SessionToken sec) d limit
                                       (cnt + boolToInt isNew), s4)
                         else (AdmitFailed limit cnt, s4)))))"

end
