(* ===== verification/Admission.thy ===== *)
theory Admission
  imports Accounts
begin

text \<open>
  What the account operations do to the tables, and what admission guarantees: the limit,
  the refusal, the choice of the devices that are kicked, and the invariant that ties
  active sessions to active devices and the indexes to the sessions.
\<close>

named_theorems acct_frame \<open>the tables an operation leaves alone\<close>

section \<open>Frames\<close>

lemma mark_frame [simp]:
  "st_Users (markUserLocked i s) = st_Users s" "st_Devices (markUserLocked i s) = st_Devices s"
  "st_Sessions (markUserLocked i s) = st_Sessions s" "st_rng (markUserLocked i s) = st_rng s"
  "st_Audits (markUserLocked i s) = st_Audits s"
  "st_sessionByTokenHash (markUserLocked i s) = st_sessionByTokenHash s"
  "st_sessionBySubscribeHash (markUserLocked i s) = st_sessionBySubscribeHash s"
  "st_Users (markDeviceLocked i s) = st_Users s" "st_Devices (markDeviceLocked i s) = st_Devices s"
  "st_Sessions (markDeviceLocked i s) = st_Sessions s" "st_rng (markDeviceLocked i s) = st_rng s"
  "st_Audits (markDeviceLocked i s) = st_Audits s"
  "st_sessionByTokenHash (markDeviceLocked i s) = st_sessionByTokenHash s"
  "st_sessionBySubscribeHash (markDeviceLocked i s) = st_sessionBySubscribeHash s"
  "st_Users (markSessionLocked i s) = st_Users s" "st_Devices (markSessionLocked i s) = st_Devices s"
  "st_Sessions (markSessionLocked i s) = st_Sessions s" "st_rng (markSessionLocked i s) = st_rng s"
  "st_Audits (markSessionLocked i s) = st_Audits s"
  "st_sessionByTokenHash (markSessionLocked i s) = st_sessionByTokenHash s"
  "st_sessionBySubscribeHash (markSessionLocked i s) = st_sessionBySubscribeHash s"
  by (simp_all add: markUserLocked_def markDeviceLocked_def markSessionLocked_def)

lemma saveLocked_frame [simp]:
  fixes x io s
  defines "s' \<equiv> snd (saveLocked x io s)"
  shows "st_Users s' = st_Users s" "st_Devices s' = st_Devices s" "st_Sessions s' = st_Sessions s"
    "st_Audits s' = st_Audits s" "st_rng s' = st_rng s"
    "st_sessionByTokenHash s' = st_sessionByTokenHash s"
    "st_sessionBySubscribeHash s' = st_sessionBySubscribeHash s"
  unfolding s'_def saveLocked_def Let_def clearDirtyLocked_def
  by (cases "st_pg s"; cases io; simp)+

lemma revokeDevice_frame [simp]:
  "st_Users (revokeDeviceLocked k a now s) = st_Users s"
  "st_Sessions (revokeDeviceLocked k a now s) = st_Sessions s"
  "st_Audits (revokeDeviceLocked k a now s) = st_Audits s"
  "st_rng (revokeDeviceLocked k a now s) = st_rng s"
  "st_sessionByTokenHash (revokeDeviceLocked k a now s) = st_sessionByTokenHash s"
  "st_sessionBySubscribeHash (revokeDeviceLocked k a now s) = st_sessionBySubscribeHash s"
  by (simp_all add: revokeDeviceLocked_def split: option.splits)

lemma revokeDevice_devices [simp]:
  "st_Devices (revokeDeviceLocked k a now s) = gm_mod k (revoked_record a now) (st_Devices s)"
  by (auto simp: revokeDeviceLocked_def gm_get_None_iff gm_mod_absent split: option.splits)

lemma fold_revoke_session:
  fixes did now es s
  defines "s' \<equiv> fold (revoke_session_entry did now) es s"
  shows "st_Users s' = st_Users s" "st_Devices s' = st_Devices s" "st_Audits s' = st_Audits s"
    "st_rng s' = st_rng s" "st_sessionByTokenHash s' = st_sessionByTokenHash s"
    "st_sessionBySubscribeHash s' = st_sessionBySubscribeHash s"
    "st_Sessions s' = fold (\<lambda>e acc.
       if s_DeviceID (snd e) = did \<and> s_Status (snd e) = statusActive
       then gm_mod (fst e) (\<lambda>ses. ses\<lparr>s_Status := statusRevoked, s_ExpiresAt := now\<rparr>) acc
       else acc) es (st_Sessions s)"
  unfolding s'_def
  by (induction es arbitrary: s) (simp_all add: revoke_session_entry_def)

definition revoke_session_of :: "string set \<Rightarrow> time \<Rightarrow> SessionRecord \<Rightarrow> SessionRecord" where
  "revoke_session_of K now ses =
     (if s_DeviceID ses \<in> K \<and> s_Status ses = statusActive
      then ses\<lparr>s_Status := statusRevoked, s_ExpiresAt := now\<rparr> else ses)"

lemma revokeSessions_frame [simp]:
  "st_Users (revokeDeviceSessionsLocked did now s) = st_Users s"
  "st_Devices (revokeDeviceSessionsLocked did now s) = st_Devices s"
  "st_Audits (revokeDeviceSessionsLocked did now s) = st_Audits s"
  "st_rng (revokeDeviceSessionsLocked did now s) = st_rng s"
  "st_sessionByTokenHash (revokeDeviceSessionsLocked did now s) = st_sessionByTokenHash s"
  "st_sessionBySubscribeHash (revokeDeviceSessionsLocked did now s) = st_sessionBySubscribeHash s"
  by (simp_all add: revokeDeviceSessionsLocked_def fold_revoke_session)

lemma revokeSessions_sessions:
  "gm_wf (st_Sessions s) \<Longrightarrow>
   st_Sessions (revokeDeviceSessionsLocked did now s) =
     gm_map (revoke_session_of {did} now) (st_Sessions s)"
  using fold_mod_entries [of "st_Sessions s"
      "\<lambda>ses. s_DeviceID ses = did \<and> s_Status ses = statusActive"
      "\<lambda>ses. ses\<lparr>s_Status := statusRevoked, s_ExpiresAt := now\<rparr>"]
  by (simp add: revokeDeviceSessionsLocked_def fold_revoke_session revoke_session_of_def [abs_def])

lemma revoke_session_of_fields [simp]:
  "s_ID (revoke_session_of K now ses) = s_ID ses"
  "s_UserID (revoke_session_of K now ses) = s_UserID ses"
  "s_DeviceID (revoke_session_of K now ses) = s_DeviceID ses"
  "s_TokenHash (revoke_session_of K now ses) = s_TokenHash ses"
  "s_SubscribeTokenHash (revoke_session_of K now ses) = s_SubscribeTokenHash ses"
  by (simp_all add: revoke_session_of_def)

lemma revoke_session_of_active [simp]:
  "s_Status (revoke_session_of K now ses) = statusActive \<longleftrightarrow>
     s_Status ses = statusActive \<and> s_DeviceID ses \<notin> K"
  by (auto simp: revoke_session_of_def)

lemma revoke_session_of_union:
  "revoke_session_of K now (revoke_session_of L now ses) = revoke_session_of (K \<union> L) now ses"
  by (auto simp: revoke_session_of_def)

lemma revoke_session_of_empty [simp]: "revoke_session_of {} now = (\<lambda>ses. ses)"
  by (rule ext) (simp add: revoke_session_of_def)

lemma gm_map_id [simp]: "gm_map (\<lambda>v. v) m = m"
  by (induction m) auto

lemma gm_map_map: "gm_map f (gm_map g m) = gm_map (\<lambda>v. f (g v)) m"
  by (induction m) auto

section \<open>Counting active devices\<close>

definition active_keys :: "string \<Rightarrow> DeviceRecord gomap \<Rightarrow> string set" where
  "active_keys uid m = {k. \<exists>d. gm_get m k = Some d \<and> is_active_of uid d}"

lemma filter_keys:
  "gm_wf m \<Longrightarrow> fst ` set (gm_filter P m) = {k. \<exists>v. gm_get m k = Some v \<and> P v}"
  by (force simp: gm_filter_def map_of_eq_Some_iff image_def)

lemma length_filter_card:
  assumes "gm_wf m"
  shows "length (gm_filter P m) = card {k. \<exists>v. gm_get m k = Some v \<and> P v}"
proof -
  have "distinct (map fst (gm_filter P m))" using assms by (rule gm_wf_filter)
  then have "length (gm_filter P m) = card (set (map fst (gm_filter P m)))"
    by (metis distinct_card length_map)
  then show ?thesis by (simp add: filter_keys [OF assms])
qed

lemma length_active: "gm_wf (st_Devices s) \<Longrightarrow>
    length (activeDevicesLocked uid s) = card (active_keys uid (st_Devices s))"
  by (simp add: activeDevicesLocked_def active_keys_def length_filter_card)

lemma finite_active_keys: "finite (active_keys uid m)"
proof -
  have "active_keys uid m \<subseteq> fst ` set m"
    by (auto simp: active_keys_def dest: gm_get_in_keys)
  then show ?thesis by (rule finite_subset) simp
qed

lemma revoked_not_active [simp]: "\<not> is_active_of uid (revoked_record a now d)"
  by (simp add: is_active_of_def revoked_record_def)

lemma revoked_fields [simp]:
  "d_ID (revoked_record a now d) = d_ID d" "d_UserID (revoked_record a now d) = d_UserID d"
  "d_DeviceIDHash (revoked_record a now d) = d_DeviceIDHash d"
  "d_LastSeenAt (revoked_record a now d) = d_LastSeenAt d"
  "d_CreatedAt (revoked_record a now d) = d_CreatedAt d"
  "d_Status (revoked_record a now d) = statusRevoked"
  by (simp_all add: revoked_record_def)

section \<open>The kick loop\<close>

text \<open>
  \<open>revoked_store actor K now s s'\<close>: from \<open>s\<close> to \<open>s'\<close> the devices of \<open>K\<close> were revoked by \<open>actor\<close>
  and their active sessions with them, and no other device, session, user or index changed.
\<close>

definition revoked_store :: "string \<Rightarrow> string set \<Rightarrow> time \<Rightarrow> Store \<Rightarrow> Store \<Rightarrow> bool" where
  "revoked_store actor K now s s' =
     ((\<forall>k. gm_get (st_Devices s') k =
          (if k \<in> K then map_option (revoked_record actor now) (gm_get (st_Devices s) k)
           else gm_get (st_Devices s) k)) \<and>
      gm_keys (st_Devices s') = gm_keys (st_Devices s) \<and>
      st_Sessions s' = gm_map (revoke_session_of K now) (st_Sessions s) \<and>
      st_Users s' = st_Users s \<and>
      st_sessionByTokenHash s' = st_sessionByTokenHash s \<and>
      st_sessionBySubscribeHash s' = st_sessionBySubscribeHash s)"

lemma revoked_store_refl: "revoked_store actor {} now s s"
  by (simp add: revoked_store_def)

lemma kick_one_store:
  assumes "gm_wf (st_Sessions s)" and "d_ID (snd e) = fst e"
  shows "revoked_store ''system:kick_oldest'' {fst e} now s (kick_one x uid ip ua now e s)"
  using assms by (simp add: revoked_store_def kick_one_def revokeSessions_sessions)

lemma revoked_store_trans:
  assumes "revoked_store a K now s s1" and "revoked_store a L now s1 s2" and "K \<inter> L = {}"
  shows "revoked_store a (K \<union> L) now s s2"
  using assms by (auto simp: revoked_store_def gm_map_map revoke_session_of_union Un_commute)

text \<open>
  The loop ends with one free place, revokes exactly the oldest candidates, and revokes
  their sessions with them.
\<close>

lemma kick_loop_spec:
  assumes "0 < limit" and "cnt = int (length ds)" and "distinct (map fst ds)"
    and "\<forall>e \<in> set ds. d_ID (snd e) = fst e" and "gm_wf (st_Sessions s)"
  shows "\<exists>K s'. kick_loop x uid ip ua now limit cnt ds s = Inr (int (length ds) - int (card K), s') \<and>
           K \<subseteq> fst ` set ds \<and> int (length ds) - int (card K) = min (int (length ds)) (limit - 1) \<and>
           revoked_store ''system:kick_oldest'' K now s s' \<and> st_rng s' = st_rng s + card K \<and>
           (\<forall>e \<in> set ds. \<forall>e' \<in> set ds. fst e \<in> K \<longrightarrow> fst e' \<notin> K \<longrightarrow>
              d_LastSeenAt (snd e) \<le> d_LastSeenAt (snd e'))"
  using assms
proof (induction x uid ip ua now limit cnt ds s rule: kick_loop.induct)
  case (1 x uid ip ua now limit cnt ds s)
  show ?case
  proof (cases "cnt < limit")
    case True
    then show ?thesis using "1.prems"(2)
      by (intro exI [of _ "{}"] exI [of _ s]) (auto simp: kick_loop.simps revoked_store_refl)
  next
    case False
    then obtain e where e: "oldestDevice ds = Some e" using "1.prems"(1,2) by (cases "oldestDevice ds") auto
    have mem: "e \<in> set ds" using e by (rule oldestDevice_in)
    define ds' where "ds' = removeDeviceByID ds (d_ID (snd e))"
    have id: "d_ID (snd e) = fst e" using "1.prems"(4) mem by blast
    have ds'_eq: "ds' = filter (\<lambda>c. fst c \<noteq> fst e) ds"
      unfolding ds'_def removeDeviceByID_def using "1.prems"(4) id by (intro filter_cong) auto
    have "length ds' = length (filter (\<lambda>k. fst e \<noteq> k) (map fst ds))"
      by (simp add: ds'_eq filter_map o_def eq_commute)
    also have "\<dots> = length (remove1 (fst e) (map fst ds))"
      using "1.prems"(3) by (simp add: distinct_remove1_removeAll removeAll_filter_not_eq eq_commute)
    also have "\<dots> = length ds - 1" using mem by (simp add: length_remove1)
    finally have len: "length ds' = length ds - 1" .
    have pos: "0 < length ds" using mem by (cases ds) auto
    have dist: "distinct (map fst ds')" using "1.prems"(3)
      by (simp add: ds'_eq distinct_map_filter)
    define s1 where "s1 = kick_one x uid ip ua now e s"
    have k1: "revoked_store ''system:kick_oldest'' {fst e} now s s1"
      unfolding s1_def using "1.prems"(5) id by (rule kick_one_store)
    have rng1: "st_rng s1 = Suc (st_rng s)" by (simp add: s1_def kick_one_def)
    have wf1: "gm_wf (st_Sessions s1)" using k1 "1.prems"(5) by (simp add: revoked_store_def)
    have cnt': "cnt - 1 = int (length ds')" using "1.prems"(2) len pos by (cases ds) auto
    have ids': "\<forall>c \<in> set ds'. d_ID (snd c) = fst c" using "1.prems"(4) by (simp add: ds'_eq)
    obtain K s' where IH:
      "kick_loop x uid ip ua now limit (cnt - 1) ds' s1 = Inr (int (length ds') - int (card K), s')"
      "K \<subseteq> fst ` set ds'" "int (length ds') - int (card K) = min (int (length ds')) (limit - 1)"
      "revoked_store ''system:kick_oldest'' K now s1 s'" "st_rng s' = st_rng s1 + card K"
      "\<forall>a \<in> set ds'. \<forall>b \<in> set ds'. fst a \<in> K \<longrightarrow> fst b \<notin> K \<longrightarrow>
         d_LastSeenAt (snd a) \<le> d_LastSeenAt (snd b)"
      using "1.IH" [OF False e, folded ds'_def s1_def, OF "1.prems"(1) cnt' dist ids' wf1]
      by (elim exE conjE) (rule that)
    have notin: "fst e \<notin> K" using IH(2) ds'_eq by auto
    have "finite K" using IH(2) by (rule finite_subset) simp
    then have card: "card (insert (fst e) K) = Suc (card K)" using notin by simp
    have ks: "revoked_store ''system:kick_oldest'' (insert (fst e) K) now s s'"
      using revoked_store_trans [OF k1 IH(4)] notin by simp
    have order: "\<forall>a \<in> set ds. \<forall>b \<in> set ds. fst a \<in> insert (fst e) K \<longrightarrow> fst b \<notin> insert (fst e) K \<longrightarrow>
        d_LastSeenAt (snd a) \<le> d_LastSeenAt (snd b)"
    proof (intro ballI impI)
      fix a b assume ab: "a \<in> set ds" "b \<in> set ds" "fst a \<in> insert (fst e) K" "fst b \<notin> insert (fst e) K"
      show "d_LastSeenAt (snd a) \<le> d_LastSeenAt (snd b)"
      proof (cases "fst a = fst e")
        case True
        then have "a = e" using ab(1) mem "1.prems"(3) by (auto simp: distinct_map inj_on_def)
        then show ?thesis using oldestDevice_le [OF e ab(2)] by simp
      next
        case False
        then have "a \<in> set ds'" "b \<in> set ds'" "fst a \<in> K" "fst b \<notin> K" using ab ds'_eq by auto
        then show ?thesis using IH(6) by blast
      qed
    qed
    show ?thesis
    proof (intro exI conjI)
      show "kick_loop x uid ip ua now limit cnt ds s =
          Inr (int (length ds) - int (card (insert (fst e) K)), s')"
        using False e IH(1) len pos card
        by (subst kick_loop.simps) (simp add: of_nat_diff flip: ds'_def s1_def)
    next
      show "insert (fst e) K \<subseteq> fst ` set ds" using IH(2) mem ds'_eq by auto
    next
      show "int (length ds) - int (card (insert (fst e) K)) = min (int (length ds)) (limit - 1)"
        using IH(3) len pos card False "1.prems"(2) by (simp add: of_nat_diff)
    qed (use ks rng1 IH(5) card order in auto)
  qed
qed

end
