(* ===== verification/AccountInv.thy ===== *)
theory AccountInv
  imports Admission
begin

text \<open>
  The invariant of the account tables and what keeps it: keys are record IDs, a user has one
  record per device hash, an active session belongs to an active device of an existing
  user, a device has at most one active session, and both token indexes point at exactly
  the sessions that carry the hash.
\<close>

section \<open>The invariant\<close>

definition tables_ok :: "Store \<Rightarrow> bool" where
  "tables_ok s =
     (gm_wf (st_Users s) \<and> gm_wf (st_Devices s) \<and> gm_wf (st_Sessions s) \<and>
      ids_match u_ID (st_Users s) \<and> ids_match d_ID (st_Devices s) \<and>
      ids_match s_ID (st_Sessions s) \<and> gm_get (st_Sessions s) [] = None)"

definition one_record_per_hash :: "DeviceRecord gomap \<Rightarrow> bool" where
  "one_record_per_hash m =
     (\<forall>k k' d d'. gm_get m k = Some d \<longrightarrow> gm_get m k' = Some d' \<longrightarrow>
        d_UserID d = d_UserID d' \<longrightarrow> d_DeviceIDHash d = d_DeviceIDHash d' \<longrightarrow> k = k')"

definition session_backed :: "UserCache gomap \<Rightarrow> DeviceRecord gomap \<Rightarrow> SessionRecord \<Rightarrow> bool" where
  "session_backed us ds ses =
     (gm_get us (s_UserID ses) \<noteq> None \<and>
      (\<exists>d. gm_get ds (s_DeviceID ses) = Some d \<and> is_active_of (s_UserID ses) d))"

definition sessions_backed :: "Store \<Rightarrow> bool" where
  "sessions_backed s =
     (\<forall>k ses. gm_get (st_Sessions s) k = Some ses \<longrightarrow> s_Status ses = statusActive \<longrightarrow>
        session_backed (st_Users s) (st_Devices s) ses)"

definition one_active_session :: "SessionRecord gomap \<Rightarrow> bool" where
  "one_active_session m =
     (\<forall>k k' a b. gm_get m k = Some a \<longrightarrow> gm_get m k' = Some b \<longrightarrow>
        s_Status a = statusActive \<longrightarrow> s_Status b = statusActive \<longrightarrow>
        s_DeviceID a = s_DeviceID b \<longrightarrow> k = k')"

definition index_ok :: "(SessionRecord \<Rightarrow> string) \<Rightarrow> string gomap \<Rightarrow> SessionRecord gomap \<Rightarrow> bool" where
  "index_ok hashf idx m =
     ((\<forall>h k. gm_get idx h = Some k \<longrightarrow>
          (\<exists>ses. gm_get m k = Some ses \<and> hashf ses = h \<and> h \<noteq> [])) \<and>
      (\<forall>k ses. gm_get m k = Some ses \<longrightarrow> hashf ses \<noteq> [] \<longrightarrow> gm_get idx (hashf ses) = Some k))"

definition account_inv :: "Store \<Rightarrow> bool" where
  "account_inv s =
     (tables_ok s \<and> one_record_per_hash (st_Devices s) \<and> sessions_backed s \<and>
      one_active_session (st_Sessions s) \<and>
      index_ok s_TokenHash (st_sessionByTokenHash s) (st_Sessions s) \<and>
      index_ok s_SubscribeTokenHash (st_sessionBySubscribeHash s) (st_Sessions s))"

lemma account_inv_cong:
  assumes "st_Users s' = st_Users s" "st_Devices s' = st_Devices s" "st_Sessions s' = st_Sessions s"
    "st_sessionByTokenHash s' = st_sessionByTokenHash s"
    "st_sessionBySubscribeHash s' = st_sessionBySubscribeHash s"
  shows "account_inv s' \<longleftrightarrow> account_inv s"
  using assms by (simp add: account_inv_def tables_ok_def sessions_backed_def)

lemma account_invD:
  assumes "account_inv s"
  shows "tables_ok s" "one_record_per_hash (st_Devices s)" "sessions_backed s"
    "one_active_session (st_Sessions s)"
    "index_ok s_TokenHash (st_sessionByTokenHash s) (st_Sessions s)"
    "index_ok s_SubscribeTokenHash (st_sessionBySubscribeHash s) (st_Sessions s)"
  using assms by (simp_all add: account_inv_def)

lemma tables_okD:
  assumes "tables_ok s"
  shows "gm_wf (st_Users s)" "gm_wf (st_Devices s)" "gm_wf (st_Sessions s)"
    "ids_match u_ID (st_Users s)" "ids_match d_ID (st_Devices s)" "ids_match s_ID (st_Sessions s)"
    "gm_get (st_Sessions s) [] = None"
  using assms by (simp_all add: tables_ok_def)

lemma empty_account_inv: "account_inv (emptyStore pg file)"
  by (simp add: account_inv_def tables_ok_def one_record_per_hash_def sessions_backed_def
      one_active_session_def index_ok_def emptyStore_def)

section \<open>Changes that keep it\<close>

text \<open>
  A change of the sessions that keeps every key, owner, device and hash, and activates
  nothing, keeps the facts about sessions.
\<close>

definition same_session :: "SessionRecord \<Rightarrow> SessionRecord \<Rightarrow> bool" where
  "same_session a b =
     (s_ID b = s_ID a \<and> s_UserID b = s_UserID a \<and> s_DeviceID b = s_DeviceID a \<and>
      s_TokenHash b = s_TokenHash a \<and> s_SubscribeTokenHash b = s_SubscribeTokenHash a \<and>
      (s_Status b = statusActive \<longrightarrow> s_Status a = statusActive))"

definition sessions_weaker :: "SessionRecord gomap \<Rightarrow> SessionRecord gomap \<Rightarrow> bool" where
  "sessions_weaker m m' =
     (gm_keys m' = gm_keys m \<and>
      (\<forall>k b. gm_get m' k = Some b \<longrightarrow> (\<exists>a. gm_get m k = Some a \<and> same_session a b)))"

lemma sessions_weakerE:
  assumes "sessions_weaker m m'" and "gm_get m' k = Some b"
  obtains a where "gm_get m k = Some a" and "same_session a b"
  using assms by (auto simp: sessions_weaker_def)

lemma sessions_weaker_get:
  assumes "sessions_weaker m m'" and "gm_get m k = Some a"
  obtains b where "gm_get m' k = Some b" and "same_session a b"
proof -
  have "k \<in> fst ` set m'" using assms gm_get_in_keys by (metis list.set_map sessions_weaker_def)
  then obtain b where b: "gm_get m' k = Some b" by (rule gm_in_keysE)
  with assms obtain a' where "gm_get m k = Some a'" "same_session a' b" by (rule_tac sessions_weakerE)
  with assms(2) b that show thesis by auto
qed

lemma sessions_weaker_map:
  "(\<And>a. same_session a (f a)) \<Longrightarrow> sessions_weaker m (gm_map f m)"
  by (auto simp: sessions_weaker_def)

lemma sessions_weaker_mod:
  assumes "\<And>a. gm_get m k = Some a \<Longrightarrow> same_session a (f a)"
  shows "sessions_weaker m (gm_mod k f m)"
  using assms by (auto simp: sessions_weaker_def same_session_def split: if_splits)

lemma sessions_weaker_refl: "sessions_weaker m m"
  by (auto simp: sessions_weaker_def same_session_def)

lemma sessions_weaker_index:
  assumes w: "sessions_weaker m m'" and ok: "index_ok hashf idx m"
    and "\<And>a b. same_session a b \<Longrightarrow> hashf b = hashf a"
  shows "index_ok hashf idx m'"
  unfolding index_ok_def
proof (intro conjI allI impI)
  fix h k assume "gm_get idx h = Some k"
  with ok obtain a where a: "gm_get m k = Some a" "hashf a = h" "h \<noteq> []"
    unfolding index_ok_def by blast
  from w a(1) obtain b where "gm_get m' k = Some b" "same_session a b" by (rule sessions_weaker_get)
  with a(2,3) assms(3) show "\<exists>ses. gm_get m' k = Some ses \<and> hashf ses = h \<and> h \<noteq> []" by blast
next
  fix k b assume b: "gm_get m' k = Some b" "hashf b \<noteq> []"
  from w b(1) obtain a where "gm_get m k = Some a" "same_session a b" by (rule sessions_weakerE)
  with b(2) ok assms(3) [of a b] show "gm_get idx (hashf b) = Some k"
    unfolding index_ok_def by simp
qed

lemma sessions_weaker_one:
  assumes w: "sessions_weaker m m'" and ok: "one_active_session m"
  shows "one_active_session m'"
  unfolding one_active_session_def
proof (intro allI impI)
  fix k k' a b
  assume a: "gm_get m' k = Some a" "gm_get m' k' = Some b" "s_Status a = statusActive"
    "s_Status b = statusActive" "s_DeviceID a = s_DeviceID b"
  from w a(1) obtain a0 where "gm_get m k = Some a0" "same_session a0 a" by (rule sessions_weakerE)
  moreover from w a(2) obtain b0 where "gm_get m k' = Some b0" "same_session b0 b"
    by (rule sessions_weakerE)
  ultimately show "k = k'"
    using ok a unfolding one_active_session_def same_session_def by metis
qed

lemma sessions_weaker_ids:
  assumes w: "sessions_weaker m m'" and "gm_wf m" and "ids_match s_ID m"
  shows "ids_match s_ID m'"
  unfolding ids_match_def
proof
  fix e assume e: "e \<in> set m'"
  have "gm_wf m'" using assms by (simp add: sessions_weaker_def)
  with e have "gm_get m' (fst e) = Some (snd e)" by (simp flip: gm_wf_get)
  with w obtain a where "gm_get m (fst e) = Some a" "same_session a (snd e)" by (rule sessions_weakerE)
  with assms(3) show "s_ID (snd e) = fst e" by (simp add: same_session_def ids_match_get)
qed

text \<open>
  The general rule: users may be added and edited, devices may change as long as the
  devices of the sessions that stay active do, sessions may get weaker.
\<close>

lemma account_inv_weaken:
  assumes inv: "account_inv s"
    and users: "gm_wf (st_Users s')" "ids_match u_ID (st_Users s')"
      "\<And>k. gm_get (st_Users s) k \<noteq> None \<Longrightarrow> gm_get (st_Users s') k \<noteq> None"
    and devs: "gm_wf (st_Devices s')" "ids_match d_ID (st_Devices s')"
      "one_record_per_hash (st_Devices s')"
    and keep: "\<And>k ses d. gm_get (st_Sessions s') k = Some ses \<Longrightarrow> s_Status ses = statusActive \<Longrightarrow>
      gm_get (st_Devices s) (s_DeviceID ses) = Some d \<Longrightarrow> is_active_of (s_UserID ses) d \<Longrightarrow>
      \<exists>d'. gm_get (st_Devices s') (s_DeviceID ses) = Some d' \<and> is_active_of (s_UserID ses) d'"
    and sess: "sessions_weaker (st_Sessions s) (st_Sessions s')"
    and idx: "st_sessionByTokenHash s' = st_sessionByTokenHash s"
      "st_sessionBySubscribeHash s' = st_sessionBySubscribeHash s"
  shows "account_inv s'"
proof -
  note tok = tables_okD [OF account_invD(1) [OF inv]]
  have "sessions_backed s'"
    unfolding sessions_backed_def
  proof (intro allI impI)
    fix k b assume b: "gm_get (st_Sessions s') k = Some b" "s_Status b = statusActive"
    from sess b(1) obtain a where a: "gm_get (st_Sessions s) k = Some a" "same_session a b"
      by (rule sessions_weakerE)
    then have "session_backed (st_Users s) (st_Devices s) b"
      using account_invD(3) [OF inv] b(2)
      unfolding sessions_backed_def session_backed_def same_session_def by metis
    then show "session_backed (st_Users s') (st_Devices s') b"
      using users(3) keep [OF b] unfolding session_backed_def by blast
  qed
  moreover have "tables_ok s'"
  proof -
    have "gm_keys (st_Sessions s') = gm_keys (st_Sessions s)"
      using sess by (simp add: sessions_weaker_def)
    then have "gm_get (st_Sessions s') [] = None"
      using tok(7) by (metis gm_get_None_iff list.set_map)
    then show ?thesis
      using users devs tok(3) sessions_weaker_ids [OF sess tok(3) tok(6)] sess
      by (simp add: tables_ok_def sessions_weaker_def)
  qed
  ultimately show ?thesis
    using devs(3) sessions_weaker_one [OF sess account_invD(4) [OF inv]] idx
      sessions_weaker_index [OF sess account_invD(5) [OF inv]]
      sessions_weaker_index [OF sess account_invD(6) [OF inv]]
    by (simp add: account_inv_def same_session_def)
qed

section \<open>Each operation keeps it\<close>

lemma revoked_store_inv:
  assumes inv: "account_inv s" and r: "revoked_store actor K now s s'"
  shows "account_inv s'"
proof (rule account_inv_weaken [OF inv])
  note tok = tables_okD [OF account_invD(1) [OF inv]]
  have keys: "gm_keys (st_Devices s') = gm_keys (st_Devices s)"
    and dev: "\<And>k. gm_get (st_Devices s') k =
          (if k \<in> K then map_option (revoked_record actor now) (gm_get (st_Devices s) k)
           else gm_get (st_Devices s) k)"
    and ses: "st_Sessions s' = gm_map (revoke_session_of K now) (st_Sessions s)"
    and us: "st_Users s' = st_Users s"
    using r by (simp_all add: revoked_store_def)
  show "gm_wf (st_Users s')" "ids_match u_ID (st_Users s')"
    "gm_get (st_Users s) k \<noteq> None \<Longrightarrow> gm_get (st_Users s') k \<noteq> None" for k
    using tok us by simp_all
  show wf: "gm_wf (st_Devices s')" using tok(2) keys by simp
  show "ids_match d_ID (st_Devices s')"
    unfolding ids_match_def
  proof
    fix e assume "e \<in> set (st_Devices s')"
    then have "gm_get (st_Devices s') (fst e) = Some (snd e)" using wf by (simp flip: gm_wf_get)
    then show "d_ID (snd e) = fst e"
      using ids_match_get [OF tok(5), of "fst e"] revoked_fields(1) [of actor now]
      by (auto simp: dev simp del: revoked_fields split: if_splits) (metis)
  qed
  show "one_record_per_hash (st_Devices s')"
    unfolding one_record_per_hash_def
  proof (intro allI impI)
    fix k k' d d'
    assume a: "gm_get (st_Devices s') k = Some d" "gm_get (st_Devices s') k' = Some d'"
      "d_UserID d = d_UserID d'" "d_DeviceIDHash d = d_DeviceIDHash d'"
    obtain c where "gm_get (st_Devices s) k = Some c" "d_UserID d = d_UserID c"
        "d_DeviceIDHash d = d_DeviceIDHash c"
      using a(1) by (auto simp: dev split: if_splits)
    moreover obtain c' where "gm_get (st_Devices s) k' = Some c'" "d_UserID d' = d_UserID c'"
        "d_DeviceIDHash d' = d_DeviceIDHash c'"
      using a(2) by (auto simp: dev split: if_splits)
    ultimately show "k = k'"
      using account_invD(2) [OF inv] a(3,4) unfolding one_record_per_hash_def by metis
  qed
  show "sessions_weaker (st_Sessions s) (st_Sessions s')"
    unfolding ses by (rule sessions_weaker_map) (simp add: same_session_def)
  show "\<exists>d'. gm_get (st_Devices s') (s_DeviceID b) = Some d' \<and> is_active_of (s_UserID b) d'"
    if "gm_get (st_Sessions s') k = Some b" "s_Status b = statusActive"
      "gm_get (st_Devices s) (s_DeviceID b) = Some d" "is_active_of (s_UserID b) d" for k b d
    using that by (auto simp: ses dev)
  show "st_sessionByTokenHash s' = st_sessionByTokenHash s"
    "st_sessionBySubscribeHash s' = st_sessionBySubscribeHash s"
    using r by (simp_all add: revoked_store_def)
qed

text \<open>Revoking one device together with its sessions, as every handler that revokes does.\<close>

lemma revoke_both_store:
  assumes "tables_ok s"
  shows "revoked_store actor {k} now s (revokeDeviceSessionsLocked k now (revokeDeviceLocked k actor now s))"
  using tables_okD(3) [OF assms] by (simp add: revoked_store_def revokeSessions_sessions)

lemma find_Some_get:
  assumes "List.find P m = Some e" and "gm_wf m"
  shows "gm_get m (fst e) = Some (snd e)" and "P e"
  using assms by (auto simp: find_Some_iff gm_wf_get [symmetric])

lemma findUserLocked_get:
  "findUserLocked x key s = Some (k, u) \<Longrightarrow> gm_wf (st_Users s) \<Longrightarrow> gm_get (st_Users s) k = Some u"
  using find_Some_get(1) [of _ "st_Users s" "(k, u)"]
  by (auto simp: findUserLocked_def Let_def split: if_splits option.splits)

lemma findDevice_get:
  assumes "findDeviceByHashLocked uid h s = Some (k, d)" and "gm_wf (st_Devices s)"
  shows "gm_get (st_Devices s) k = Some d" "d_UserID d = uid" "d_DeviceIDHash d = h"
  using find_Some_get [OF assms(1) [unfolded findDeviceByHashLocked_def] assms(2)] by auto

lemma findDevice_None:
  assumes "findDeviceByHashLocked uid h s = None" and "gm_get (st_Devices s) k = Some d"
    and "d_UserID d = uid"
  shows "d_DeviceIDHash d \<noteq> h"
  using assms by (auto simp: findDeviceByHashLocked_def find_None_iff dest!: map_of_SomeD)

lemma sync_user_fields [simp]:
  "u_ID (sync_user cfg sn email b now u) = u_ID u"
  "u_CreatedAt (sync_user cfg sn email b now u) = u_CreatedAt u"
  "u_DeviceLimitOverride (sync_user cfg sn email b now u) = u_DeviceLimitOverride u"
  by (simp_all add: sync_user_def Let_def)

lemma upsertUser_frame:
  assumes "upsertUserLocked x cfg sn fe now s = (uk, s')"
  shows "st_Devices s' = st_Devices s" "st_Sessions s' = st_Sessions s"
    "st_Audits s' = st_Audits s" "st_sessionByTokenHash s' = st_sessionByTokenHash s"
    "st_sessionBySubscribeHash s' = st_sessionBySubscribeHash s"
  using assms by (auto simp: upsertUserLocked_def Let_def split: option.splits prod.splits)

lemma upsertUser_users:
  assumes "upsertUserLocked x cfg sn fe now s = (uk, s')" and "tables_ok s"
  shows "gm_wf (st_Users s')" "ids_match u_ID (st_Users s')"
    "\<And>k. gm_get (st_Users s) k \<noteq> None \<Longrightarrow> gm_get (st_Users s') k \<noteq> None"
    "\<exists>u. gm_get (st_Users s') uk = Some u \<and> u_ID u = uk"
proof -
  note tok = tables_okD [OF assms(2)]
  consider
    (found) k u email b where "uk = k" "gm_get (st_Users s) k = Some u"
      "st_Users s' = gm_mod k (sync_user cfg sn email b now) (st_Users s)"
  | (created) nid email b where "uk = nid"
      "st_Users s' = gm_set nid (sync_user cfg sn email b now (new_user nid email now)) (st_Users s)"
    using assms(1) findUserLocked_get [OF _ tok(1)]
    by (auto simp: upsertUserLocked_def Let_def split: option.splits prod.splits if_splits)
  then have "gm_wf (st_Users s') \<and> ids_match u_ID (st_Users s') \<and>
      (\<forall>k. gm_get (st_Users s) k \<noteq> None \<longrightarrow> gm_get (st_Users s') k \<noteq> None) \<and>
      (\<exists>u. gm_get (st_Users s') uk = Some u \<and> u_ID u = uk)"
  proof cases
    case found
    then show ?thesis using tok(1,4) ids_match_get [OF tok(4)] by (auto simp: ids_match_mod)
  next
    case created
    then show ?thesis using tok(1,4) by (auto simp: ids_match_set new_user_def)
  qed
  then show "gm_wf (st_Users s')" "ids_match u_ID (st_Users s')"
    "\<And>k. gm_get (st_Users s) k \<noteq> None \<Longrightarrow> gm_get (st_Users s') k \<noteq> None"
    "\<exists>u. gm_get (st_Users s') uk = Some u \<and> u_ID u = uk"
    by blast+
qed

lemma upsertUser_inv:
  assumes "account_inv s" and "upsertUserLocked x cfg sn fe now s = (uk, s')"
  shows "account_inv s'"
proof (rule account_inv_weaken [OF assms(1)])
  note tok = account_invD(1) [OF assms(1)]
  show "gm_wf (st_Users s')" "ids_match u_ID (st_Users s')"
    "gm_get (st_Users s) k \<noteq> None \<Longrightarrow> gm_get (st_Users s') k \<noteq> None" for k
    using upsertUser_users [OF assms(2) tok] by auto
qed (use upsertUser_frame [OF assms(2)] tables_okD [OF account_invD(1) [OF assms(1)]]
       account_invD(2) [OF assms(1)] in \<open>simp_all add: sessions_weaker_refl\<close>)

end
