(* ===== verification/Grant.thy ===== *)
theory Grant
  imports AccountInv
begin

text \<open>
  What \<open>admitDevice\<close> leaves behind when it succeeds: the device record, the session, the
  count of active devices, and the account invariant.
\<close>

section \<open>The device record\<close>

text \<open>The device the login names, as the tables know it before the grant.\<close>

definition device_known ::
    "string \<Rightarrow> string \<Rightarrow> (string \<times> DeviceRecord) option \<Rightarrow> Store \<Rightarrow> bool" where
  "device_known uid hash dev s =
     (case dev of
        Some (k, d) \<Rightarrow>
          gm_get (st_Devices s) k = Some d \<and> d_UserID d = uid \<and> d_DeviceIDHash d = hash
      | None \<Rightarrow>
          \<forall>k d. gm_get (st_Devices s) k = Some d \<longrightarrow> d_UserID d = uid \<longrightarrow> d_DeviceIDHash d \<noteq> hash)"

lemma findDevice_known:
  "gm_wf (st_Devices s) \<Longrightarrow> device_known uid hash (findDeviceByHashLocked uid hash s) s"
  using findDevice_get [of uid hash s] findDevice_None [of uid hash s]
  by (auto simp: device_known_def split: option.splits)

lemma activate_fields [simp]:
  "d_ID (activate_device x req ip ua now d) = d_ID d"
  "d_UserID (activate_device x req ip ua now d) = d_UserID d"
  "d_DeviceIDHash (activate_device x req ip ua now d) = d_DeviceIDHash d"
  "d_CreatedAt (activate_device x req ip ua now d) = d_CreatedAt d"
  "d_Status (activate_device x req ip ua now d) = statusActive"
  "d_LastSeenAt (activate_device x req ip ua now d) = now"
  "d_RevokedAt (activate_device x req ip ua now d) = None"
  "d_RevokedBy (activate_device x req ip ua now d) = []"
  by (simp_all add: activate_device_def)

lemma place_device_frame:
  assumes "place_device x req uid hash ip ua now dev s = (k, s1)"
  shows "st_Users s1 = st_Users s" "st_Sessions s1 = st_Sessions s" "st_Audits s1 = st_Audits s"
    "st_sessionByTokenHash s1 = st_sessionByTokenHash s"
    "st_sessionBySubscribeHash s1 = st_sessionBySubscribeHash s"
    "st_rng s1 = (if dev = None then Suc (st_rng s) else st_rng s)"
  using assms by (auto simp: place_device_def Let_def split: option.splits prod.splits)

definition fresh_device_id :: "ext \<Rightarrow> (string \<times> DeviceRecord) option \<Rightarrow> Store \<Rightarrow> bool" where
  "fresh_device_id x dev s =
     (dev = None \<longrightarrow> gm_get (st_Devices s) (''dev_'' @ randomHex x (st_rng s) 12) = None)"

lemma place_device_spec:
  assumes "place_device x req uid hash ip ua now dev s = (k, s1)" and tok: "tables_ok s"
    and known: "device_known uid hash dev s" and fresh: "fresh_device_id x dev s"
  shows "\<exists>d. gm_get (st_Devices s1) k = Some d \<and> d_ID d = k \<and> d_UserID d = uid \<and>
           d_DeviceIDHash d = hash \<and> d_Status d = statusActive \<and> d_LastSeenAt d = now"
    and "\<And>k'. k' \<noteq> k \<Longrightarrow> gm_get (st_Devices s1) k' = gm_get (st_Devices s) k'"
    and "gm_wf (st_Devices s1)" and "ids_match d_ID (st_Devices s1)"
    and "(case dev of Some e \<Rightarrow> k = fst e | None \<Rightarrow> gm_get (st_Devices s) k = None)"
proof -
  note t = tables_okD [OF tok]
  have "(\<exists>d. gm_get (st_Devices s1) k = Some d \<and> d_ID d = k \<and> d_UserID d = uid \<and>
           d_DeviceIDHash d = hash \<and> d_Status d = statusActive \<and> d_LastSeenAt d = now) \<and>
      (\<forall>k'. k' \<noteq> k \<longrightarrow> gm_get (st_Devices s1) k' = gm_get (st_Devices s) k') \<and>
      gm_wf (st_Devices s1) \<and> ids_match d_ID (st_Devices s1) \<and>
      (case dev of Some e \<Rightarrow> k = fst e | None \<Rightarrow> gm_get (st_Devices s) k = None)"
  proof (cases dev)
    case None
    then show ?thesis
      using assms(1) fresh t
      by (auto simp: place_device_def Let_def fresh_device_id_def fresh_device_def ids_match_set)
  next
    case (Some e)
    then show ?thesis
      using assms(1) known t ids_match_get [OF t(5)]
      by (auto simp: place_device_def Let_def device_known_def ids_match_mod)
  qed
  then show
    "\<exists>d. gm_get (st_Devices s1) k = Some d \<and> d_ID d = k \<and> d_UserID d = uid \<and>
       d_DeviceIDHash d = hash \<and> d_Status d = statusActive \<and> d_LastSeenAt d = now"
    "\<And>k'. k' \<noteq> k \<Longrightarrow> gm_get (st_Devices s1) k' = gm_get (st_Devices s) k'"
    "gm_wf (st_Devices s1)" "ids_match d_ID (st_Devices s1)"
    "(case dev of Some e \<Rightarrow> k = fst e | None \<Rightarrow> gm_get (st_Devices s) k = None)"
    by blast+
qed

lemma place_device_inv:
  assumes inv: "account_inv s" and p: "place_device x req uid hash ip ua now dev s = (k, s1)"
    and known: "device_known uid hash dev s" and fresh: "fresh_device_id x dev s"
  shows "account_inv s1"
proof (rule account_inv_weaken [OF inv])
  note tok = account_invD(1) [OF inv] and fr = place_device_frame [OF p]
  note spec = place_device_spec [OF p tok known fresh]
  show "gm_wf (st_Users s1)" "ids_match u_ID (st_Users s1)"
    "gm_get (st_Users s) j \<noteq> None \<Longrightarrow> gm_get (st_Users s1) j \<noteq> None" for j
    using tables_okD [OF tok] fr by simp_all
  show "gm_wf (st_Devices s1)" "ids_match d_ID (st_Devices s1)" using spec by blast+
  obtain d where d: "gm_get (st_Devices s1) k = Some d" "d_UserID d = uid" "d_DeviceIDHash d = hash"
    "d_Status d = statusActive" using spec(1) by blast
  have other: "j = k" if jc: "gm_get (st_Devices s1) j = Some c" "d_UserID c = uid" "d_DeviceIDHash c = hash" for j c
  proof (rule ccontr)
    assume "j \<noteq> k"
    then have c: "gm_get (st_Devices s) j = Some c" using jc(1) spec(2) by simp
    obtain k0 d0 where dev: "dev = Some (k0, d0)"
      using c jc known by (cases dev) (auto simp: device_known_def)
    then have "k0 = k" using spec(5) by simp
    with dev known have "gm_get (st_Devices s) k = Some d0" "d_UserID d0 = uid" "d_DeviceIDHash d0 = hash"
      by (simp_all add: device_known_def)
    with c jc account_invD(2) [OF inv] have "j = k" unfolding one_record_per_hash_def by metis
    with \<open>j \<noteq> k\<close> show False by contradiction
  qed
  show "one_record_per_hash (st_Devices s1)"
    unfolding one_record_per_hash_def
  proof (intro allI impI)
    fix i j a b
    assume a: "gm_get (st_Devices s1) i = Some a" "gm_get (st_Devices s1) j = Some b"
      "d_UserID a = d_UserID b" "d_DeviceIDHash a = d_DeviceIDHash b"
    show "i = j"
    proof (cases "i = k \<or> j = k")
      case True
      then show ?thesis using a d other by (metis option.inject)
    next
      case False
      then have "gm_get (st_Devices s) i = Some a" "gm_get (st_Devices s) j = Some b"
        using a spec(2) by simp_all
      then show ?thesis
        using account_invD(2) [OF inv] a unfolding one_record_per_hash_def by metis
    qed
  qed
  show "\<exists>d'. gm_get (st_Devices s1) (s_DeviceID b) = Some d' \<and> is_active_of (s_UserID b) d'"
    if b: "gm_get (st_Devices s) (s_DeviceID b) = Some c" "is_active_of (s_UserID b) c" for b c
  proof (cases "s_DeviceID b = k")
    case True
    have "d_UserID c = uid"
      using True b(1) spec(5) known by (cases dev) (auto simp: device_known_def)
    with True b(2) d show ?thesis by (auto simp: is_active_of_def)
  next
    case False
    then show ?thesis using b spec(2) by simp
  qed
qed (use place_device_frame [OF p] in \<open>simp_all add: sessions_weaker_refl\<close>)

section \<open>The session\<close>

lemma add_session_tables [simp]:
  fixes x cfg sec uid did ip ua now s
  defines "s' \<equiv> add_session x cfg sec uid did ip ua now s"
    and "sid \<equiv> ''ses_'' @ randomHex x (st_rng s) 12"
  shows "st_Users s' = st_Users s" "st_Devices s' = st_Devices s" "st_rng s' = Suc (st_rng s)"
    "st_Sessions s' = gm_set sid (new_session cfg sec sid uid did ip ua now) (st_Sessions s)"
    "st_sessionByTokenHash s' = index_entry (as_SessionHash sec) sid (st_sessionByTokenHash s)"
    "st_sessionBySubscribeHash s' = index_entry (as_SubscribeHash sec) sid (st_sessionBySubscribeHash s)"
  by (simp_all add: s'_def sid_def add_session_def indexSessionLocked_def new_session_def Let_def)

lemma new_session_fields [simp]:
  "s_ID (new_session cfg sec sid uid did ip ua now) = sid"
  "s_UserID (new_session cfg sec sid uid did ip ua now) = uid"
  "s_DeviceID (new_session cfg sec sid uid did ip ua now) = did"
  "s_Status (new_session cfg sec sid uid did ip ua now) = statusActive"
  "s_TokenHash (new_session cfg sec sid uid did ip ua now) = as_SessionHash sec"
  "s_SubscribeTokenHash (new_session cfg sec sid uid did ip ua now) = as_SubscribeHash sec"
  "s_LastSeenAt (new_session cfg sec sid uid did ip ua now) = now"
  "s_ExpiresAt (new_session cfg sec sid uid did ip ua now) = now + cfg_SessionTTL cfg"
  "s_BusinessTokenCipher (new_session cfg sec sid uid did ip ua now) = as_BusinessCipher sec"
  "s_SubscribeTokenCipher (new_session cfg sec sid uid did ip ua now) = as_SubscribeCipher sec"
  by (simp_all add: new_session_def)

lemma index_entry_ok:
  assumes ok: "index_ok hashf idx m" and new: "gm_get m sid = None"
    and hash: "gm_get idx (hashf ses) = None"
  shows "index_ok hashf (index_entry (hashf ses) sid idx) (gm_set sid ses m)"
  unfolding index_ok_def
proof (intro conjI allI impI)
  fix h k assume a: "gm_get (index_entry (hashf ses) sid idx) h = Some k"
  show "\<exists>c. gm_get (gm_set sid ses m) k = Some c \<and> hashf c = h \<and> h \<noteq> []"
  proof (cases "hashf ses \<noteq> [] \<and> h = hashf ses")
    case True
    then show ?thesis using a by (simp add: index_entry_def)
  next
    case False
    then have "gm_get idx h = Some k" using a by (auto simp: index_entry_def split: if_splits)
    then obtain c where "gm_get m k = Some c" "hashf c = h" "h \<noteq> []"
      using ok unfolding index_ok_def by blast
    moreover from this(1) new have "k \<noteq> sid" by auto
    ultimately show ?thesis by simp
  qed
next
  fix k c assume a: "gm_get (gm_set sid ses m) k = Some c" "hashf c \<noteq> []"
  show "gm_get (index_entry (hashf ses) sid idx) (hashf c) = Some k"
  proof (cases "k = sid")
    case True
    then show ?thesis using a by (simp add: index_entry_def)
  next
    case False
    then have "gm_get idx (hashf c) = Some k" using a ok unfolding index_ok_def by simp
    then show ?thesis using hash by (auto simp: index_entry_def)
  qed
qed

lemma add_session_inv:
  assumes inv: "account_inv s" and user: "gm_get (st_Users s) uid \<noteq> None"
    and dev: "gm_get (st_Devices s) did = Some d" "is_active_of uid d"
    and none: "\<And>k ses. gm_get (st_Sessions s) k = Some ses \<Longrightarrow> s_DeviceID ses = did \<Longrightarrow>
      s_Status ses \<noteq> statusActive"
    and fresh: "gm_get (st_Sessions s) (''ses_'' @ randomHex x (st_rng s) 12) = None"
      "gm_get (st_sessionByTokenHash s) (as_SessionHash sec) = None"
      "gm_get (st_sessionBySubscribeHash s) (as_SubscribeHash sec) = None"
  shows "account_inv (add_session x cfg sec uid did ip ua now s)"
proof -
  note tok = tables_okD [OF account_invD(1) [OF inv]]
  define sid where "sid = ''ses_'' @ randomHex x (st_rng s) 12"
  define ses where "ses = new_session cfg sec sid uid did ip ua now"
  have fresh_sid: "gm_get (st_Sessions s) sid = None" using fresh(1) by (simp add: sid_def)
  have "index_ok s_TokenHash (index_entry (s_TokenHash ses) sid (st_sessionByTokenHash s))
      (gm_set sid ses (st_Sessions s))"
    by (rule index_entry_ok [OF account_invD(5) [OF inv] fresh_sid]) (simp add: ses_def fresh(2))
  moreover have "index_ok s_SubscribeTokenHash
      (index_entry (s_SubscribeTokenHash ses) sid (st_sessionBySubscribeHash s))
      (gm_set sid ses (st_Sessions s))"
    by (rule index_entry_ok [OF account_invD(6) [OF inv] fresh_sid]) (simp add: ses_def fresh(3))
  moreover have "one_active_session (gm_set sid ses (st_Sessions s))"
    using account_invD(4) [OF inv] none unfolding one_active_session_def
    by (auto simp: ses_def split: if_splits)
  moreover have "sessions_backed (add_session x cfg sec uid did ip ua now s)"
    using account_invD(3) [OF inv] user dev
    unfolding sessions_backed_def
    by (auto simp: session_backed_def split: if_splits)
  moreover have "tables_ok (add_session x cfg sec uid did ip ua now s)"
    using tok by (simp add: tables_ok_def ids_match_set)
  ultimately show ?thesis
    using account_invD(2) [OF inv]
    by (simp add: account_inv_def ses_def sid_def)
qed

section \<open>The limit\<close>

lemma active_entry:
  assumes "tables_ok s" and "e \<in> set (activeDevicesLocked uid s)"
  shows "gm_get (st_Devices s) (fst e) = Some (snd e)" "is_active_of uid (snd e)" "d_ID (snd e) = fst e"
proof -
  have "gm_get (st_Devices s) (fst e) = Some (snd e) \<and> is_active_of uid (snd e)"
    using assms set_gm_filter [OF tables_okD(2) [OF assms(1)], of "fst e" "snd e" "is_active_of uid"]
    by (simp add: activeDevicesLocked_def)
  then show "gm_get (st_Devices s) (fst e) = Some (snd e)" "is_active_of uid (snd e)"
    "d_ID (snd e) = fst e"
    using ids_match_get [OF tables_okD(5) [OF assms(1)]] by blast+
qed

lemma active_entries_keys:
  "tables_ok s \<Longrightarrow> fst ` set (activeDevicesLocked uid s) = active_keys uid (st_Devices s)"
  by (simp add: activeDevicesLocked_def active_keys_def filter_keys tables_okD)

text \<open>What the gate did to the store when it let the login through.\<close>

definition gate_passed ::
    "Config \<Rightarrow> string \<Rightarrow> time \<Rightarrow> int \<Rightarrow> bool \<Rightarrow> string set \<Rightarrow> Store \<Rightarrow> Store \<Rightarrow> bool" where
  "gate_passed cfg uid now limit isNew K s s' =
     (revoked_store ''system:kick_oldest'' K now s s' \<and> K \<subseteq> active_keys uid (st_Devices s) \<and>
      (isNew \<and> limit > 0 \<longrightarrow> int (card (active_keys uid (st_Devices s))) - int (card K) < limit) \<and>
      (K \<noteq> {} \<longrightarrow> isNew \<and> limit > 0 \<and> cfg_DevicePolicy cfg = policyKickOldest \<and>
         int (card (active_keys uid (st_Devices s))) - int (card K) = limit - 1) \<and>
      (\<forall>k \<in> K. \<forall>k' \<in> active_keys uid (st_Devices s) - K. \<forall>d d'.
         gm_get (st_Devices s) k = Some d \<longrightarrow> gm_get (st_Devices s) k' = Some d' \<longrightarrow>
         d_LastSeenAt d \<le> d_LastSeenAt d'))"

lemma limit_gate_spec:
  assumes tok: "tables_ok s"
    and g: "limit_gate x cfg uid ip ua now limit isNew (activeDevicesLocked uid s) s = res"
  shows "case res of
      Inl (c, s') \<Rightarrow> s' = s \<and> c = int (card (active_keys uid (st_Devices s))) \<and>
        cfg_DevicePolicy cfg \<noteq> policyKickOldest \<and> isNew \<and> 0 < limit \<and> limit \<le> c
    | Inr (c, s') \<Rightarrow> \<exists>K. gate_passed cfg uid now limit isNew K s s' \<and>
        c = int (card (active_keys uid (st_Devices s))) - int (card K) \<and> st_rng s \<le> st_rng s'"
proof (cases "isNew \<and> limit > 0 \<and> int (length (activeDevicesLocked uid s)) \<ge> limit")
  case False
  then have "res = Inr (int (length (activeDevicesLocked uid s)), s)"
    using g by (auto simp: limit_gate_def Let_def)
  moreover have "gate_passed cfg uid now limit isNew {} s s"
    using False by (auto simp: gate_passed_def revoked_store_refl length_active tables_okD [OF tok])
  ultimately show ?thesis by (auto simp: length_active tables_okD [OF tok] intro!: exI [of _ "{}"])
next
  case over: True
  have len: "length (activeDevicesLocked uid s) = card (active_keys uid (st_Devices s))"
    using tok by (simp add: length_active tables_okD)
  show ?thesis
  proof (cases "cfg_DevicePolicy cfg = policyKickOldest")
    case False
    then have "res = Inl (int (length (activeDevicesLocked uid s)), s)"
      using g over by (auto simp: limit_gate_def Let_def)
    then show ?thesis using False over len by simp
  next
    case True
    define ds where "ds = activeDevicesLocked uid s"
    have res: "res = kick_loop x uid ip ua now limit (int (length ds)) ds s"
      using g over True by (simp add: limit_gate_def Let_def ds_def)
    have "distinct (map fst ds)"
      using gm_wf_filter [OF tables_okD(2) [OF tok]] by (simp add: ds_def activeDevicesLocked_def)
    moreover have "\<forall>e \<in> set ds. d_ID (snd e) = fst e"
      using active_entry(3) [OF tok] by (simp add: ds_def)
    ultimately obtain K s' where K:
      "kick_loop x uid ip ua now limit (int (length ds)) ds s = Inr (int (length ds) - int (card K), s')"
      "K \<subseteq> fst ` set ds" "int (length ds) - int (card K) = min (int (length ds)) (limit - 1)"
      "revoked_store ''system:kick_oldest'' K now s s'" "st_rng s' = st_rng s + card K"
      "\<forall>e \<in> set ds. \<forall>e' \<in> set ds. fst e \<in> K \<longrightarrow> fst e' \<notin> K \<longrightarrow>
         d_LastSeenAt (snd e) \<le> d_LastSeenAt (snd e')"
      using kick_loop_spec [of limit "int (length ds)" ds s x uid ip ua now] over
        tables_okD(3) [OF tok] by blast
    have keys: "fst ` set ds = active_keys uid (st_Devices s)"
      using active_entries_keys [OF tok] by (simp add: ds_def)
    have order: "d_LastSeenAt d \<le> d_LastSeenAt d'"
      if "k \<in> K" "k' \<in> active_keys uid (st_Devices s) - K" "gm_get (st_Devices s) k = Some d"
        "gm_get (st_Devices s) k' = Some d'" for k k' d d'
    proof -
      have entry: "(j, c) \<in> set ds" if "j \<in> active_keys uid (st_Devices s)" "gm_get (st_Devices s) j = Some c" for j c
        using that set_gm_filter [OF tables_okD(2) [OF tok], of j c "is_active_of uid"]
        by (auto simp: ds_def activeDevicesLocked_def active_keys_def)
      have "(k, d) \<in> set ds" "(k', d') \<in> set ds"
        using that K(2) keys by (auto intro: entry)
      with K(6) that(1,2) show ?thesis by fastforce
    qed
    have cnt: "int (card (active_keys uid (st_Devices s))) - int (card K) = limit - 1"
      using K(3) over len by (simp add: ds_def)
    then have "gate_passed cfg uid now limit isNew K s s'"
      using K(2,4) order over True keys unfolding gate_passed_def by auto
    moreover have "st_rng s \<le> st_rng s'" using K(5) by simp
    ultimately show ?thesis using res K(1) len by (auto simp: ds_def)
  qed
qed

lemma gate_passed_known:
  assumes "gate_passed cfg uid now limit isNew K s s'" and "device_known uid hash dev s"
    and "isNew = (case dev of None \<Rightarrow> True | Some (k, d) \<Rightarrow> d_Status d \<noteq> statusActive)"
  shows "device_known uid hash dev s'"
proof (cases dev)
  case None
  have "\<exists>c. gm_get (st_Devices s) k = Some c \<and> d_UserID c = d_UserID d \<and> d_DeviceIDHash c = d_DeviceIDHash d"
    if "gm_get (st_Devices s') k = Some d" for k d
    using that assms(1) by (auto simp: gate_passed_def revoked_store_def split: if_splits)
  with None assms(2) show ?thesis by (fastforce simp: device_known_def)
next
  case (Some e)
  obtain k d where e: "e = (k, d)" by (cases e)
  have "k \<notin> K"
    using assms e Some by (auto simp: gate_passed_def device_known_def active_keys_def is_active_of_def)
  then show ?thesis
    using assms(1,2) e Some by (simp add: device_known_def gate_passed_def revoked_store_def)
qed

text \<open>The granted device is in the table, whatever the store was.\<close>

lemma place_device_some:
  assumes "place_device x req uid hash ip ua now dev s = (k, s1)"
    and "\<And>j d. dev = Some (j, d) \<Longrightarrow> gm_get (st_Devices s) j \<noteq> None"
  shows "gm_get (st_Devices s1) k \<noteq> None"
  using assms by (auto simp: place_device_def Let_def split: option.splits prod.splits)

lemma grant_device_some:
  assumes "grant_device x cfg sec req uid hash ip ua now dev s = (k, s')"
    and "\<And>j d. dev = Some (j, d) \<Longrightarrow> gm_get (st_Devices s) j \<noteq> None"
  obtains d where "gm_get (st_Devices s') k = Some d"
proof -
  obtain k1 s1 where p: "place_device x req uid hash ip ua now dev s = (k1, s1)"
    by (cases "place_device x req uid hash ip ua now dev s")
  have "k = k1" "st_Devices s' = st_Devices s1"
    using assms(1) p by (auto simp: grant_device_def Let_def)
  moreover have "gm_get (st_Devices s1) k1 \<noteq> None"
    using p assms(2) by (rule place_device_some)
  ultimately show thesis using that by auto
qed

end
