(* ===== verification/AdmitDevice.thy ===== *)
theory AdmitDevice
  imports Grant
begin

text \<open>
  The contract of \<open>admitDevice\<close>: which outcomes there are, what each leaves in the store,
  and that the account invariant survives all of them.
\<close>

section \<open>The grant\<close>

text \<open>No identifier or token hash that is drawn between \<open>s\<close> and \<open>s'\<close> is in use in \<open>s\<close>.\<close>

definition fresh_draw :: "ext \<Rightarrow> Config \<Rightarrow> Store \<Rightarrow> nat \<Rightarrow> bool" where
  "fresh_draw x cfg s i =
     (gm_get (st_Devices s) (''dev_'' @ randomHex x i 12) = None \<and>
      gm_get (st_Sessions s) (''ses_'' @ randomHex x i 12) = None \<and>
      gm_get (st_sessionByTokenHash s)
        (hashValue x cfg ''session'' (''dg_'' @ randomHex x i 32)) = None \<and>
      gm_get (st_sessionBySubscribeHash s)
        (hashValue x cfg ''subscribe'' (''sub_'' @ randomHex x i 32)) = None)"

definition fresh_draws :: "ext \<Rightarrow> Config \<Rightarrow> Store \<Rightarrow> Store \<Rightarrow> bool" where
  "fresh_draws x cfg s s' = (\<forall>i \<in> {st_rng s ..< st_rng s'}. fresh_draw x cfg s i)"

lemma fresh_draws_at: "fresh_draws x cfg s s' \<Longrightarrow> st_rng s \<le> i \<Longrightarrow> i < st_rng s' \<Longrightarrow> fresh_draw x cfg s i"
  by (simp add: fresh_draws_def)

lemma fresh_draws_code [code]:
  "fresh_draws x cfg s s' = list_all (fresh_draw x cfg s) [st_rng s ..< st_rng s']"
  by (simp add: fresh_draws_def list_all_iff)

text \<open>What the grant leaves behind for device \<open>k\<close> and session \<open>sid\<close>.\<close>

definition granted ::
    "Config \<Rightarrow> AdmitSecrets \<Rightarrow> string \<Rightarrow> string \<Rightarrow> time \<Rightarrow> string \<Rightarrow> string \<Rightarrow> Store \<Rightarrow> bool" where
  "granted cfg sec uid hash now k sid s =
     ((\<exists>d. gm_get (st_Devices s) k = Some d \<and> d_ID d = k \<and> d_UserID d = uid \<and>
           d_DeviceIDHash d = hash \<and> d_Status d = statusActive \<and> d_LastSeenAt d = now) \<and>
      (\<exists>ses. gm_get (st_Sessions s) sid = Some ses \<and> s_ID ses = sid \<and> s_UserID ses = uid \<and>
           s_DeviceID ses = k \<and> s_Status ses = statusActive \<and> s_LastSeenAt ses = now \<and>
           s_ExpiresAt ses = now + cfg_SessionTTL cfg \<and>
           s_BusinessTokenCipher ses = as_BusinessCipher sec \<and>
           s_SubscribeTokenCipher ses = as_SubscribeCipher sec) \<and> sid \<noteq> [] \<and>
      (as_SessionHash sec \<noteq> [] \<longrightarrow>
         gm_get (st_sessionByTokenHash s) (as_SessionHash sec) = Some sid) \<and>
      (as_SubscribeHash sec \<noteq> [] \<longrightarrow>
         gm_get (st_sessionBySubscribeHash s) (as_SubscribeHash sec) = Some sid))"

lemma grant_device_spec:
  assumes inv: "account_inv s" and user: "gm_get (st_Users s) uid \<noteq> None"
    and known: "device_known uid hash dev s"
    and g: "grant_device x cfg sec req uid hash ip ua now dev s = (k, s')"
    and fresh: "\<forall>i. st_rng s \<le> i \<longrightarrow> i < st_rng s' \<longrightarrow>
        gm_get (st_Devices s) (''dev_'' @ randomHex x i 12) = None \<and>
        gm_get (st_Sessions s) (''ses_'' @ randomHex x i 12) = None"
    and hashes: "gm_get (st_sessionByTokenHash s) (as_SessionHash sec) = None"
      "gm_get (st_sessionBySubscribeHash s) (as_SubscribeHash sec) = None"
  shows "account_inv s'" "\<exists>sid. granted cfg sec uid hash now k sid s'"
    "\<And>k'. k' \<noteq> k \<Longrightarrow> gm_get (st_Devices s') k' = gm_get (st_Devices s) k'"
    "(case dev of Some e \<Rightarrow> k = fst e | None \<Rightarrow> gm_get (st_Devices s) k = None)"
    "st_Users s' = st_Users s" "st_rng s < st_rng s'"
proof -
  note tok = account_invD(1) [OF inv]
  obtain k1 s1 where p: "place_device x req uid hash ip ua now dev s = (k1, s1)"
    by (cases "place_device x req uid hash ip ua now dev s")
  note fr = place_device_frame [OF p]
  define s2 where "s2 = revokeDeviceSessionsLocked k1 now s1"
  define s3 where "s3 = add_session x cfg sec uid k1 ip ua now s2"
  define sid where "sid = ''ses_'' @ randomHex x (st_rng s1) 12"
  have rng2: "st_rng s2 = st_rng s1" by (simp add: s2_def)
  have did: "(case gm_get (st_Devices s1) k1 of Some d \<Rightarrow> d_ID d | None \<Rightarrow> k1) = k1"
    if "fresh_device_id x dev s"
    using place_device_spec(1) [OF p tok known that] by auto
  have "st_rng s \<le> st_rng s1" using fr by simp
  have rng': "st_rng s' = st_rng s1 + 2"
    using g p by (auto simp: grant_device_def Let_def numeral_2_eq_2)
  then have lt: "st_rng s1 < st_rng s'" by simp
  have fd: "fresh_device_id x dev s"
    using fresh [rule_format, of "st_rng s"] rng' fr(6) by (simp add: fresh_device_id_def)
  have s': "k = k1" "s' = addAuditLocked x ''session.created'' uid k1 ''user'' ip ua
      (Some [(''platform'', VStr (lr_Platform req))]) now s3"
    using g p did [OF fd] by (auto simp: grant_device_def Let_def s2_def s3_def)
  note spec = place_device_spec [OF p tok known fd]
  have inv1: "account_inv s1" using inv p known fd by (rule place_device_inv)
  have rs: "st_Sessions s2 = gm_map (revoke_session_of {k1} now) (st_Sessions s1)"
    using tables_okD(3) [OF account_invD(1) [OF inv1]] by (simp add: s2_def revokeSessions_sessions)
  have inv2: "account_inv s2"
    by (rule account_inv_weaken [OF inv1])
       (use tables_okD [OF account_invD(1) [OF inv1]] account_invD(2) [OF inv1] rs in
         \<open>auto simp: s2_def revokeSessions_sessions same_session_def intro!: sessions_weaker_map\<close>)
  obtain d where d: "gm_get (st_Devices s1) k1 = Some d" "d_ID d = k1" "d_UserID d = uid"
    "d_DeviceIDHash d = hash" "d_Status d = statusActive" "d_LastSeenAt d = now" using spec(1) by blast
  have fresh_sid: "gm_get (st_Sessions s) sid = None"
    using fresh [rule_format, of "st_rng s1"] lt \<open>st_rng s \<le> st_rng s1\<close> by (simp add: sid_def)
  have inv3: "account_inv s3"
    unfolding s3_def
  proof (rule add_session_inv [OF inv2])
    show "gm_get (st_Users s2) uid \<noteq> None" using user fr by (simp add: s2_def)
    show "gm_get (st_Devices s2) k1 = Some d" using d by (simp add: s2_def)
    show "is_active_of uid d" using d by (simp add: is_active_of_def)
    show "s_Status b \<noteq> statusActive" if "gm_get (st_Sessions s2) j = Some b" "s_DeviceID b = k1" for j b
    proof -
      from that(1) obtain z where "revoke_session_of {k1} now z = b" by (auto simp: rs)
      then have "b = revoke_session_of {k1} now z" ..
      then show ?thesis using that(2) by simp
    qed
    show "gm_get (st_Sessions s2) (''ses_'' @ randomHex x (st_rng s2) 12) = None"
      using fresh_sid fr by (simp add: rs rng2 sid_def)
    show "gm_get (st_sessionByTokenHash s2) (as_SessionHash sec) = None"
      "gm_get (st_sessionBySubscribeHash s2) (as_SubscribeHash sec) = None"
      using hashes fr by (simp_all add: s2_def)
  qed
  show "account_inv s'"
    using inv3 by (subst account_inv_cong [of s' s3]) (simp_all add: s')
  have "granted cfg sec uid hash now k sid s'"
    using d unfolding granted_def
    by (simp add: s' s3_def rng2 sid_def) (simp add: s2_def index_entry_def)
  then show "\<exists>sid. granted cfg sec uid hash now k sid s'" ..
  show "gm_get (st_Devices s') k' = gm_get (st_Devices s) k'" if "k' \<noteq> k" for k'
    using spec(2) that by (simp add: s' s3_def s2_def)
  show "(case dev of Some e \<Rightarrow> k = fst e | None \<Rightarrow> gm_get (st_Devices s) k = None)"
    using spec(5) unfolding s'(1) .
  show "st_Users s' = st_Users s" using fr by (simp add: s' s3_def s2_def)
  show "st_rng s < st_rng s'" using rng' \<open>st_rng s \<le> st_rng s1\<close> by simp
qed

section \<open>The whole of admitDevice\<close>

text \<open>
  Every run is one of three: nothing happens because a token could not be encrypted, the
  account is synchronized and the login refused, or the limit gate lets the login through
  and the device is granted.
\<close>

lemma admitDevice_cases:
  assumes "admitDevice x cfg key io now r req sn bt s = (res, s')" and inv: "account_inv s"
  obtains
    (crypto) "admit_secrets x cfg key sn bt (st_rng s) = None" "res = AdmitFailed 0 0" "s' = s"
  | (refused) sec uk s1 user where
      "admit_secrets x cfg key sn bt (st_rng s) = Some sec"
      "upsertUserLocked x cfg sn (lr_Email req) now (s\<lparr>st_rng := as_Rng sec\<rparr>) = (uk, s1)"
      "gm_get (st_Users s1) uk = Some user" "u_ID user = uk" "account_inv s1" "s' = s1"
      "res = LimitExceeded (effectiveLimitLocked cfg user)
         (int (card (active_keys uk (st_Devices s))))"
      "cfg_DevicePolicy cfg \<noteq> policyKickOldest" "0 < effectiveLimitLocked cfg user"
      "effectiveLimitLocked cfg user \<le> int (card (active_keys uk (st_Devices s)))"
      "\<And>k d. findDeviceByHashLocked uk (hashValue x cfg ''device'' (lr_DeviceID req)) s = Some (k, d) \<Longrightarrow>
         d_Status d \<noteq> statusActive"
  | (granted) sec uk s1 user dev isNew K s2 k s3 ok where
      "admit_secrets x cfg key sn bt (st_rng s) = Some sec"
      "upsertUserLocked x cfg sn (lr_Email req) now (s\<lparr>st_rng := as_Rng sec\<rparr>) = (uk, s1)"
      "gm_get (st_Users s1) uk = Some user" "u_ID user = uk" "account_inv s1"
      "dev = findDeviceByHashLocked uk (hashValue x cfg ''device'' (lr_DeviceID req)) s"
      "isNew = (case dev of None \<Rightarrow> True | Some (k, d) \<Rightarrow> d_Status d \<noteq> statusActive)"
      "gate_passed cfg uk now (effectiveLimitLocked cfg user) isNew K s1 s2" "st_rng s1 \<le> st_rng s2"
      "grant_device x cfg sec req uk (hashValue x cfg ''device'' (lr_DeviceID req))
         (clientIP x cfg r) (userAgent r) now dev s2 = (k, s3)"
      "saveLocked x io s3 = (ok, s')"
      "\<And>d. gm_get (st_Devices s') k = Some d \<Longrightarrow>
         (let c = int (card (active_keys uk (st_Devices s))) - int (card K) in
          res = (if ok then Admitted (as_SessionToken sec) d (effectiveLimitLocked cfg user)
                              (c + boolToInt isNew)
                 else AdmitFailed (effectiveLimitLocked cfg user) c))"
proof (cases "admit_secrets x cfg key sn bt (st_rng s)")
  case None
  then show thesis using assms(1) by (intro crypto) (simp_all add: admitDevice_def Let_def)
next
  case (Some sec)
  define s0 where "s0 = s\<lparr>st_rng := as_Rng sec\<rparr>"
  obtain uk s1 where up: "upsertUserLocked x cfg sn (lr_Email req) now s0 = (uk, s1)"
    by (cases "upsertUserLocked x cfg sn (lr_Email req) now s0")
  have inv0: "account_inv s0" using inv by (subst account_inv_cong [of s0 s]) (simp_all add: s0_def)
  have inv1: "account_inv s1" using inv0 up by (rule upsertUser_inv)
  obtain user where user: "gm_get (st_Users s1) uk = Some user" "u_ID user = uk"
    using upsertUser_users(4) [OF up account_invD(1) [OF inv0]] by blast
  have devs: "st_Devices s1 = st_Devices s" using upsertUser_frame(1) [OF up] by (simp add: s0_def)
  define hash where "hash = hashValue x cfg ''device'' (lr_DeviceID req)"
  define dev where "dev = findDeviceByHashLocked uk hash s"
  have dev1: "findDeviceByHashLocked uk hash s1 = dev"
    by (simp add: dev_def findDeviceByHashLocked_def devs)
  define isNew where "isNew = (case dev of None \<Rightarrow> True | Some (k, d) \<Rightarrow> d_Status d \<noteq> statusActive)"
  define limit where "limit = effectiveLimitLocked cfg user"
  define gate where "gate = limit_gate x cfg uk (clientIP x cfg r) (userAgent r) now limit isNew
      (activeDevicesLocked uk s1) s1"
  note gs = limit_gate_spec [OF account_invD(1) [OF inv1] gate_def [symmetric], unfolded devs]
  show thesis
  proof (cases gate)
    case (Inl a)
    obtain c s2 where a: "a = (c, s2)" by (cases a)
    have run: "res = LimitExceeded limit c" "s' = s2"
      using assms(1) Some Inl up user dev1 unfolding a
      by (simp_all add: admitDevice_def Let_def hash_def [symmetric] s0_def [symmetric]
            limit_def [symmetric] isNew_def [symmetric] gate_def [symmetric])
    have g: "s2 = s1" "c = int (card (active_keys uk (st_Devices s)))"
      "cfg_DevicePolicy cfg \<noteq> policyKickOldest" isNew "0 < limit" "limit \<le> c"
      using gs Inl a by simp_all
    show thesis
    proof (rule refused [OF Some up [unfolded s0_def] user inv1])
      show "res = LimitExceeded (effectiveLimitLocked cfg user) (int (card (active_keys uk (st_Devices s))))"
        "s' = s1" using run g by (simp_all add: limit_def)
      show "d_Status d \<noteq> statusActive"
        if "findDeviceByHashLocked uk (hashValue x cfg ''device'' (lr_DeviceID req)) s = Some (k, d)" for k d
        using g(4) that by (simp add: isNew_def dev_def hash_def)
    qed (use g in \<open>simp_all add: limit_def\<close>)
  next
    case (Inr b)
    obtain c s2 where b: "b = (c, s2)" by (cases b)
    obtain K where K: "gate_passed cfg uk now limit isNew K s1 s2"
      "c = int (card (active_keys uk (st_Devices s))) - int (card K)" "st_rng s1 \<le> st_rng s2"
      using gs Inr b by auto
    obtain k s3 where g: "grant_device x cfg sec req uk hash (clientIP x cfg r) (userAgent r) now dev s2 = (k, s3)"
      by (cases "grant_device x cfg sec req uk hash (clientIP x cfg r) (userAgent r) now dev s2")
    obtain ok s4 where sv: "saveLocked x io s3 = (ok, s4)" by (cases "saveLocked x io s3")
    have run: "(res, s') = (case gm_get (st_Devices s4) k of
           None \<Rightarrow> (AdmitFailed limit c, s4)
         | Some d \<Rightarrow> if ok then (Admitted (as_SessionToken sec) d limit (c + boolToInt isNew), s4)
                     else (AdmitFailed limit c, s4))"
      using assms(1) Some Inr up user g sv unfolding b
      by (simp add: admitDevice_def Let_def dev1 hash_def [symmetric] s0_def [symmetric]
            limit_def [symmetric] isNew_def [symmetric] gate_def [symmetric])
        (simp add: dev1 isNew_def cong: option.case_cong if_cong)
    then have s4: "s' = s4" by (auto split: option.splits if_splits)
    show thesis
      by (rule granted [OF Some, of uk s1 user dev isNew K s2 k s3 ok])
         (use up user inv1 K g sv s4 isNew_def dev_def run in
           \<open>simp_all add: s0_def limit_def hash_def Let_def split: if_splits\<close>)
  qed
qed

section \<open>Consequences\<close>

lemma admit_secrets_shape:
  assumes "admit_secrets x cfg key sn bt i = Some sec"
  shows "as_SessionToken sec = ''dg_'' @ randomHex x (i + 1) 32"
    "as_SessionHash sec = hashValue x cfg ''session'' (''dg_'' @ randomHex x (i + 1) 32)"
    "as_SubscribeHash sec = hashValue x cfg ''subscribe'' (''sub_'' @ randomHex x (i + 2) 32)"
    "i + 4 \<le> as_Rng sec"
    "encryptString x key (x_rand x i 12) bt = Some (as_BusinessCipher sec)"
    "encryptString x key (x_rand x (i + 3) 12) (''sub_'' @ randomHex x (i + 2) 32) =
       Some (as_SubscribeCipher sec)"
  using assms by (auto simp: admit_secrets_def Let_def split: option.splits if_splits)

lemma upsertUser_rng:
  "upsertUserLocked x cfg sn fe now s = (uk, s') \<Longrightarrow> st_rng s \<le> st_rng s'"
  by (auto simp: upsertUserLocked_def markUserLocked_def Let_def split: option.splits prod.splits)

text \<open>The facts about a login that passed the gate, saved or not.\<close>

definition admit_effect ::
    "ext \<Rightarrow> Config \<Rightarrow> AdmitSecrets \<Rightarrow> string \<Rightarrow> string \<Rightarrow> int \<Rightarrow> bool \<Rightarrow> string set \<Rightarrow> time \<Rightarrow> string
     \<Rightarrow> Store \<Rightarrow> Store \<Rightarrow> bool" where
  "admit_effect x cfg sec uk hash limit isNew K now k s s' =
     (account_inv s' \<and> (\<exists>sid. granted cfg sec uk hash now k sid s') \<and>
      gm_get (st_Users s') uk \<noteq> None \<and>
      K \<subseteq> active_keys uk (st_Devices s) \<and> k \<notin> K \<and>
      (isNew \<longleftrightarrow> k \<notin> active_keys uk (st_Devices s)) \<and>
      (\<forall>k'. k' \<noteq> k \<longrightarrow> gm_get (st_Devices s') k' =
         (if k' \<in> K then map_option (revoked_record ''system:kick_oldest'' now) (gm_get (st_Devices s) k')
          else gm_get (st_Devices s) k')) \<and>
      (isNew \<and> limit > 0 \<longrightarrow> int (card (active_keys uk (st_Devices s))) - int (card K) < limit) \<and>
      (K \<noteq> {} \<longrightarrow> isNew \<and> cfg_DevicePolicy cfg = policyKickOldest) \<and>
      (\<forall>a \<in> K. \<forall>b \<in> active_keys uk (st_Devices s) - K. \<forall>d d'.
         gm_get (st_Devices s) a = Some d \<longrightarrow> gm_get (st_Devices s) b = Some d' \<longrightarrow>
         d_LastSeenAt d \<le> d_LastSeenAt d'))"

lemma admit_granted_effect:
  assumes inv: "account_inv s"
    and sec: "admit_secrets x cfg key sn bt (st_rng s) = Some sec"
    and up: "upsertUserLocked x cfg sn fe now (s\<lparr>st_rng := as_Rng sec\<rparr>) = (uk, s1)"
    and inv1: "account_inv s1" and user: "gm_get (st_Users s1) uk = Some user"
    and dev: "dev = findDeviceByHashLocked uk hash s"
    and new: "isNew = (case dev of None \<Rightarrow> True | Some (k, d) \<Rightarrow> d_Status d \<noteq> statusActive)"
    and gate: "gate_passed cfg uk now limit isNew K s1 s2" "st_rng s1 \<le> st_rng s2"
    and g: "grant_device x cfg sec req uk hash ip ua now dev s2 = (k, s3)"
    and sv: "saveLocked x io s3 = (ok, s')" and fresh: "fresh_draws x cfg s s'"
  shows "admit_effect x cfg sec uk hash limit isNew K now k s s'"
proof -
  note sh = admit_secrets_shape [OF sec]
  have devs: "st_Devices s1 = st_Devices s" "st_Sessions s1 = st_Sessions s"
    "st_sessionByTokenHash s1 = st_sessionByTokenHash s"
    "st_sessionBySubscribeHash s1 = st_sessionBySubscribeHash s"
    using upsertUser_frame [OF up] by simp_all
  have rv: "revoked_store ''system:kick_oldest'' K now s1 s2" using gate(1) by (simp add: gate_passed_def)
  have inv2: "account_inv s2" using inv1 rv by (rule revoked_store_inv)
  have s': "s' = snd (saveLocked x io s3)" using sv by simp
  have rngs: "st_rng s + 4 \<le> st_rng s2" using sh(4) upsertUser_rng [OF up] gate(2) by simp
  have rng': "st_rng s' = st_rng s3" by (simp add: s')
  have "device_known uk hash dev s"
    using findDevice_known tables_okD(2) [OF account_invD(1) [OF inv]] dev by simp
  then have "device_known uk hash dev s1" unfolding device_known_def devs .
  then have known: "device_known uk hash dev s2" by (rule gate_passed_known [OF gate(1) _ new])
  have keys2: "gm_get (st_Devices s2) j = None" if "gm_get (st_Devices s) j = None" for j
    using rv devs that by (simp add: revoked_store_def)
  have u2: "gm_get (st_Users s2) uk \<noteq> None" using rv user by (simp add: revoked_store_def)
  have rng3: "st_rng s2 < st_rng s3"
    using g place_device_frame(6) [of x req uk hash ip ua now dev s2]
    by (auto simp: grant_device_def Let_def split: prod.splits)
  have hs: "gm_get (st_sessionByTokenHash s2) (as_SessionHash sec) = None"
    "gm_get (st_sessionBySubscribeHash s2) (as_SubscribeHash sec) = None"
    using fresh_draws_at [OF fresh, of "st_rng s + 1"] fresh_draws_at [OF fresh, of "st_rng s + 2"]
      rngs rng' rng3 sh rv devs by (simp_all add: fresh_draw_def revoked_store_def)
  have ids: "\<forall>i. st_rng s2 \<le> i \<longrightarrow> i < st_rng s3 \<longrightarrow>
      gm_get (st_Devices s2) (''dev_'' @ randomHex x i 12) = None \<and>
      gm_get (st_Sessions s2) (''ses_'' @ randomHex x i 12) = None"
    using fresh_draws_at [OF fresh] rngs rng' rv devs
    by (simp add: fresh_draw_def revoked_store_def)
  note gr = grant_device_spec [OF inv2 u2 known g ids hs]
  have kk: "k \<notin> K \<and> (isNew \<longleftrightarrow> k \<notin> active_keys uk (st_Devices s))"
  proof (cases dev)
    case None
    then have "gm_get (st_Devices s2) k = None" using gr(4) by simp
    then have "gm_get (st_Devices s) k = None" using rv devs by (auto simp: revoked_store_def split: if_splits)
    then show ?thesis using None new gate(1) devs by (auto simp: active_keys_def gate_passed_def)
  next
    case (Some e)
    obtain j d where e: "e = (j, d)" by (cases e)
    have d: "gm_get (st_Devices s) k = Some d" "d_UserID d = uk"
      using Some e gr(4) findDevice_get [of uk hash s j d] dev
        tables_okD(2) [OF account_invD(1) [OF inv]] by auto
    then have "isNew \<longleftrightarrow> k \<notin> active_keys uk (st_Devices s)"
      using Some e new by (auto simp: active_keys_def is_active_of_def)
    moreover have "k \<notin> K" using calculation gate(1) devs by (auto simp: gate_passed_def)
    ultimately show ?thesis by simp
  qed
  have "account_inv s'" using gr(1) by (subst account_inv_cong [of s' s3]) (simp_all add: s')
  moreover have "\<exists>sid. granted cfg sec uk hash now k sid s'"
    using gr(2) by (simp add: s' granted_def)
  moreover have "gm_get (st_Users s') uk \<noteq> None" using u2 gr(5) by (simp add: s')
  moreover have "gm_get (st_Devices s') k' =
      (if k' \<in> K then map_option (revoked_record ''system:kick_oldest'' now) (gm_get (st_Devices s) k')
       else gm_get (st_Devices s) k')" if "k' \<noteq> k" for k'
    using gr(3) [OF that] rv devs by (simp add: s' revoked_store_def)
  ultimately show ?thesis
    using kk gate(1) devs unfolding admit_effect_def gate_passed_def by auto
qed

lemma admit_effect_count:
  assumes "admit_effect x cfg sec uk hash limit isNew K now k s s'"
  shows "int (card (active_keys uk (st_Devices s'))) =
    int (card (active_keys uk (st_Devices s))) - int (card K) + boolToInt isNew"
proof -
  obtain d where d: "gm_get (st_Devices s') k = Some d" "is_active_of uk d"
    using assms by (auto simp: admit_effect_def granted_def is_active_of_def)
  define A where "A = active_keys uk (st_Devices s)"
  have K: "K \<subseteq> A" "k \<notin> K" "isNew \<longleftrightarrow> k \<notin> A" using assms by (simp_all add: admit_effect_def A_def)
  have "active_keys uk (st_Devices s') = insert k (A - K)"
  proof (rule set_eqI)
    fix j
    show "j \<in> active_keys uk (st_Devices s') \<longleftrightarrow> j \<in> insert k (A - K)"
    proof (cases "j = k")
      case True
      then show ?thesis using d by (simp add: active_keys_def)
    next
      case False
      then have "gm_get (st_Devices s') j =
        (if j \<in> K then map_option (revoked_record ''system:kick_oldest'' now) (gm_get (st_Devices s) j)
         else gm_get (st_Devices s) j)"
        using assms by (simp add: admit_effect_def)
      then show ?thesis using False by (auto simp: active_keys_def A_def)
    qed
  qed
  moreover have "finite A" by (simp add: A_def finite_active_keys)
  moreover have "card (A - K) = card A - card K" "card K \<le> card A"
    using K(1) \<open>finite A\<close> by (simp_all add: card_Diff_subset finite_subset card_mono)
  ultimately show ?thesis
    using K by (cases isNew) (auto simp: A_def boolToInt_def insert_absorb card_insert_if)
qed

end
