(* ===== verification/Sessions.thy ===== *)
theory Sessions
  imports AdmitDevice
begin

text \<open>
  How a request is authorized against a session: \<open>authorizeWithReload\<close>,
  \<open>authorizeSubscribeTokenWithReload\<close>, \<open>sessionAuthorizationErrorLocked\<close> and
  \<open>requireSession\<close> of \<open>device_gateway/main.go\<close>, and the admin token check. The two
  authorize functions share their critical section, which is one definition here.
\<close>

section \<open>The critical section\<close>

datatype auth_error = AuthCoded string string | AuthPlain string

definition sessionAuthorizationErrorLocked :: "SessionRecord \<Rightarrow> time \<Rightarrow> Store \<Rightarrow> auth_error" where
  "sessionAuthorizationErrorLocked session now s =
     (let by_device =
            (if s_Status session = statusRevoked
             then (case gm_get (st_Devices s) (s_DeviceID session) of
                     None \<Rightarrow> None
                   | Some d \<Rightarrow>
                       if d_RevokedBy d = ''system:kick_oldest''
                       then Some (AuthCoded ''DEVICE_KICKED_BY_NEW_LOGIN''
                              ''This device was signed out because the account logged in on another device'')
                       else if d_RevokedBy d = ''user'' \<or> d_RevokedBy d = ''admin''
                       then Some (AuthCoded ''DEVICE_REVOKED'' ''This device has been removed'')
                       else None)
             else None)
      in case by_device of
           Some e \<Rightarrow> e
         | None \<Rightarrow>
             if s_Status session = statusExpired \<or> now > s_ExpiresAt session
             then AuthCoded ''DEVICE_SESSION_EXPIRED'' ''Device session has expired''
             else AuthCoded ''DEVICE_SESSION_INVALID'' ''Device session is invalid'')"

definition touch_session :: "time \<Rightarrow> string \<Rightarrow> string \<Rightarrow> SessionRecord \<Rightarrow> SessionRecord" where
  "touch_session now ip ua ses = ses\<lparr>s_LastSeenAt := now, s_LastIP := ip, s_UserAgent := ua\<rparr>"

definition touch_device :: "ext \<Rightarrow> time \<Rightarrow> string \<Rightarrow> string \<Rightarrow> DeviceRecord \<Rightarrow> DeviceRecord" where
  "touch_device x now ip ua d =
     (updateDeviceIPInfoLocked x ip (d\<lparr>d_LastSeenAt := now\<rparr>))\<lparr>d_UserAgent := ua\<rparr>"

text \<open>
  The outcome of the section on the session of an index entry: no such session, a session
  that is not usable (with the error it gives and whether it was marked expired), a session
  whose device or user is gone, or the copies of the three records (with whether the visit
  was recorded).
\<close>

datatype section_result =
    SecMiss
  | SecInactive auth_error bool
  | SecNoDevice auth_error
  | SecFound UserCache DeviceRecord SessionRecord bool

definition session_section ::
    "ext \<Rightarrow> time \<Rightarrow> string \<Rightarrow> string \<Rightarrow> string option \<Rightarrow> Store \<Rightarrow> section_result \<times> Store" where
  "session_section x now ip ua sessionID s =
     (case sessionID of
        None \<Rightarrow> (SecMiss, s)
      | Some sid \<Rightarrow>
          if sid = [] then (SecMiss, s)
          else (case gm_get (st_Sessions s) sid of
            None \<Rightarrow> (SecMiss, s)
          | Some session \<Rightarrow>
              if s_Status session \<noteq> statusActive \<or> now > s_ExpiresAt session then
                (let err = sessionAuthorizationErrorLocked session now s;
                     wasActive = (s_Status session = statusActive)
                 in (SecInactive err wasActive,
                     if wasActive
                     then markSessionLocked (s_ID session)
                            (s\<lparr>st_Sessions := gm_mod sid (\<lambda>ses. ses\<lparr>s_Status := statusExpired\<rparr>)
                                (st_Sessions s)\<rparr>)
                     else s))
              else
                (case (gm_get (st_Devices s) (s_DeviceID session), gm_get (st_Users s) (s_UserID session)) of
                   (Some device, Some user) \<Rightarrow>
                     if d_Status device \<noteq> statusActive
                     then (SecNoDevice (sessionAuthorizationErrorLocked session now s), s)
                     else if time_sub now (s_LastSeenAt session) > minutes 1
                     then (SecFound user (touch_device x now ip ua device)
                             (touch_session now ip ua session) True,
                           markDeviceLocked (d_ID device)
                             (markSessionLocked (s_ID session)
                               (s\<lparr>st_Sessions := gm_mod sid (touch_session now ip ua) (st_Sessions s),
                                  st_Devices := gm_mod (s_DeviceID session) (touch_device x now ip ua)
                                    (st_Devices s)\<rparr>)))
                     else (SecFound user device session False, s)
                 | _ \<Rightarrow> (SecNoDevice (sessionAuthorizationErrorLocked session now s), s))))"

section \<open>Authorization\<close>

text \<open>
  One pass: \<open>None\<close> is the miss after which PostgreSQL may be asked. The save of an expired
  session is \<open>Save\<close>, whose error is ignored; the save of a visit is \<open>saveLocked\<close>, whose
  error is returned.
\<close>

definition authorize_pass ::
    "ext \<Rightarrow> Config \<Rightarrow> string \<Rightarrow> save_outcome \<Rightarrow> time \<Rightarrow> Request \<Rightarrow> string \<Rightarrow> Store
     \<Rightarrow> (auth_error + SessionContext) option \<times> Store" where
  "authorize_pass x cfg key io now r token s =
     (case session_section x now (clientIP x cfg r) (userAgent r)
             (gm_get (st_sessionByTokenHash s) (hashValue x cfg ''session'' token)) s of
        (SecMiss, s1) \<Rightarrow> (None, s1)
      | (SecInactive err expired, s1) \<Rightarrow>
          (Some (Inl err), if expired then snd (saveLocked x io s1) else s1)
      | (SecNoDevice err, s1) \<Rightarrow> (Some (Inl err), s1)
      | (SecFound user device session visited, s1) \<Rightarrow>
          if s_ID session = [] then (None, s1)
          else
            let (ok, s2) = (if visited then saveLocked x io s1 else (True, s1)) in
            if \<not> ok then (Some (Inl (AuthPlain ''save failed'')), s2)
            else (case (decryptString x key (s_BusinessTokenCipher session),
                        decryptString x key (s_SubscribeTokenCipher session)) of
                    (Some bt, Some st) \<Rightarrow>
                      (Some (Inr \<lparr>ctx_User = user, ctx_Device = device, ctx_Session = session,
                                  ctx_BusinessToken = bt, ctx_SubscribeToken = st\<rparr>), s2)
                  | _ \<Rightarrow> (Some (Inl (AuthPlain ''decryption failed'')), s2)))"

definition subscribe_pass ::
    "ext \<Rightarrow> Config \<Rightarrow> string \<Rightarrow> save_outcome \<Rightarrow> time \<Rightarrow> Request \<Rightarrow> string \<Rightarrow> Store
     \<Rightarrow> (auth_error + SessionContext) option \<times> Store" where
  "subscribe_pass x cfg key io now r token s =
     (case session_section x now (clientIP x cfg r) (userAgent r)
             (gm_get (st_sessionBySubscribeHash s) (hashValue x cfg ''subscribe'' token)) s of
        (SecMiss, s1) \<Rightarrow> (None, s1)
      | (SecInactive err expired, s1) \<Rightarrow>
          (Some (Inl (AuthPlain ''session inactive'')),
           if expired then snd (saveLocked x io s1) else s1)
      | (SecNoDevice err, s1) \<Rightarrow> (Some (Inl (AuthPlain ''device inactive'')), s1)
      | (SecFound user device session visited, s1) \<Rightarrow>
          if s_ID session = [] then (None, s1)
          else
            let (ok, s2) = (if visited then saveLocked x io s1 else (True, s1)) in
            if \<not> ok then (Some (Inl (AuthPlain ''save failed'')), s2)
            else (case decryptString x key (s_BusinessTokenCipher session) of
                    Some bt \<Rightarrow>
                      (Some (Inr \<lparr>ctx_User = user, ctx_Device = device, ctx_Session = session,
                                  ctx_BusinessToken = bt, ctx_SubscribeToken = token\<rparr>), s2)
                  | None \<Rightarrow> (Some (Inl (AuthPlain ''decryption failed'')), s2)))"

text \<open>
  The retry after a reload, the same for both: \<open>loaded\<close> is what the database answered and
  \<open>others\<close> what other requests did to the store while the query ran.
\<close>

definition with_reload ::
    "(Store \<Rightarrow> (auth_error + SessionContext) option \<times> Store) \<Rightarrow>
     (Store \<Rightarrow> (auth_error + SessionContext) option \<times> Store) \<Rightarrow>
     Snapshot option \<Rightarrow> (Store \<Rightarrow> Store) \<Rightarrow> Store \<Rightarrow> (auth_error + SessionContext) \<times> Store" where
  "with_reload pass1 pass2 loaded others s =
     (case pass1 s of
        (Some res, s1) \<Rightarrow> (res, s1)
      | (None, s1) \<Rightarrow>
          (case reloadFromPostgresOnMiss s1 loaded (others s1) of
             ((True, False), s2) \<Rightarrow>
               (case pass2 s2 of
                  (Some res, s3) \<Rightarrow> (res, s3)
                | (None, s3) \<Rightarrow> (Inl (AuthPlain ''session not found''), s3))
           | (_, s2) \<Rightarrow> (Inl (AuthPlain ''session not found''), s2)))"

definition authorizeWithReload ::
    "ext \<Rightarrow> Config \<Rightarrow> string \<Rightarrow> save_outcome \<Rightarrow> time \<Rightarrow> time \<Rightarrow> Request \<Rightarrow> Snapshot option
     \<Rightarrow> (Store \<Rightarrow> Store) \<Rightarrow> Store \<Rightarrow> (auth_error + SessionContext) \<times> Store" where
  "authorizeWithReload x cfg key io now now' r loaded others s =
     (let token = bearerToken x (header_get (rq_Header r) ''Authorization'') in
      if token = [] then (Inl (AuthPlain ''missing authorization''), s)
      else with_reload (authorize_pass x cfg key io now r token)
             (authorize_pass x cfg key io now' r token) loaded others s)"

definition authorizeSubscribeTokenWithReload ::
    "ext \<Rightarrow> Config \<Rightarrow> string \<Rightarrow> save_outcome \<Rightarrow> time \<Rightarrow> time \<Rightarrow> Request \<Rightarrow> string \<Rightarrow> Snapshot option
     \<Rightarrow> (Store \<Rightarrow> Store) \<Rightarrow> Store \<Rightarrow> (auth_error + SessionContext) \<times> Store" where
  "authorizeSubscribeTokenWithReload x cfg key io now now' r token loaded others s =
     with_reload (subscribe_pass x cfg key io now r token)
       (subscribe_pass x cfg key io now' r token) loaded others s"

definition requireSession ::
    "ext \<Rightarrow> Config \<Rightarrow> string \<Rightarrow> save_outcome \<Rightarrow> time \<Rightarrow> time \<Rightarrow> Request \<Rightarrow> Snapshot option
     \<Rightarrow> (Store \<Rightarrow> Store) \<Rightarrow> Store \<Rightarrow> (Response + SessionContext) \<times> Store" where
  "requireSession x cfg key io now now' r loaded others s =
     (case authorizeWithReload x cfg key io now now' r loaded others s of
        (Inr ctx, s') \<Rightarrow> (Inr ctx, s')
      | (Inl (AuthCoded code msg), s') \<Rightarrow> (Inl (writeError 401 code msg None), s')
      | (Inl (AuthPlain _), s') \<Rightarrow>
          (Inl (writeError 401 ''DEVICE_SESSION_INVALID''
                  ''Device session is invalid or expired'' None), s'))"

definition requireAdmin :: "ext \<Rightarrow> Config \<Rightarrow> Request \<Rightarrow> Response option" where
  "requireAdmin x cfg r =
     (if cfg_AdminToken cfg = []
      then Some (writeError 503 ''ADMIN_DISABLED'' ''Admin API is disabled'' None)
      else
        let t0 = header_get (rq_Header r) ''X-Admin-Token'';
            token = (if t0 = [] then bearerToken x (header_get (rq_Header r) ''Authorization'') else t0)
        in if constantTimeEqual token (cfg_AdminToken cfg) then None
           else Some (writeError 403 ''ADMIN_FORBIDDEN'' ''Invalid admin token'' None))"

end
