(* ===== verification/SessionLaws.thy ===== *)
theory SessionLaws
  imports Sessions
begin

text \<open>
  What a session is worth: the contract \<open>session_gate\<close> of one pass over the store, its two
  instances (the session token and the subscription token), and what follows for the
  authorization with a reload from PostgreSQL.
\<close>

section \<open>The contract of a pass\<close>

text \<open>
  \<open>grants now hashf h s ctx\<close>: the store \<open>s\<close> holds an active, unexpired session under the token
  hash \<open>h\<close>, on an active device of an existing user, and \<open>ctx\<close> is about these three.
\<close>

definition grants ::
    "time \<Rightarrow> (SessionRecord \<Rightarrow> string) \<Rightarrow> string \<Rightarrow> Store \<Rightarrow> SessionContext \<Rightarrow> bool" where
  "grants now hashf h s ctx =
     (\<exists>k ses d u. gm_get (st_Sessions s) k = Some ses \<and> hashf ses = h \<and> h \<noteq> [] \<and>
        s_Status ses = statusActive \<and> now \<le> s_ExpiresAt ses \<and>
        gm_get (st_Devices s) (s_DeviceID ses) = Some d \<and> d_Status d = statusActive \<and>
        gm_get (st_Users s) (s_UserID ses) = Some u \<and> d_UserID d = s_UserID ses \<and>
        s_ID (ctx_Session ctx) = k \<and> d_ID (ctx_Device ctx) = s_DeviceID ses \<and>
        ctx_User ctx = u)"

locale session_gate =
  fixes pass :: "time \<Rightarrow> Store \<Rightarrow> (auth_error + SessionContext) option \<times> Store"
    and hashf :: "SessionRecord \<Rightarrow> string"
    and h :: string
  assumes pass_sound: "account_inv s \<Longrightarrow> pass now s = (Some (Inr ctx), s') \<Longrightarrow> grants now hashf h s ctx"
    and pass_inv: "account_inv s \<Longrightarrow> account_inv (snd (pass now s))"
    and pass_miss: "account_inv s \<Longrightarrow> fst (pass now s) = None \<longleftrightarrow>
        h = [] \<or> (\<forall>k ses. gm_get (st_Sessions s) k = Some ses \<longrightarrow> hashf ses \<noteq> h)"
begin

lemma reload_inv:
  assumes "account_inv s" and "\<And>t. account_inv t \<Longrightarrow> account_inv (others t)"
    and "\<And>sp t. loaded = Some sp \<Longrightarrow> account_inv t \<Longrightarrow>
           account_inv (rebuildSessionIndexesLocked (install_snapshot sp t))"
  shows "account_inv (snd (with_reload (pass now) (pass now') loaded others s))"
proof -
  obtain o1 s1 where p: "pass now s = (o1, s1)" by (cases "pass now s")
  have s1: "account_inv s1" using pass_inv [OF assms(1), of now] p by simp
  obtain b s2 where r: "reloadFromPostgresOnMiss s1 loaded (others s1) = (b, s2)"
    by (cases "reloadFromPostgresOnMiss s1 loaded (others s1)")
  have s2: "account_inv s2"
    using r assms(2,3) s1
    by (auto simp: reloadFromPostgresOnMiss_def split: if_splits option.splits)
  obtain o2 s3 where p2: "pass now' s2 = (o2, s3)" by (cases "pass now' s2")
  have s3: "account_inv s3" using pass_inv [OF s2, of now'] p2 by simp
  show ?thesis
    using s1 s2 s3 p p2 r by (auto simp: with_reload_def split: option.splits prod.splits bool.splits)
qed

lemma reload_sound:
  assumes "account_inv s" and "with_reload (pass now) (pass now') loaded others s = (Inr ctx, s')"
    and "\<And>t. account_inv t \<Longrightarrow> account_inv (others t)"
    and "\<And>sp t. loaded = Some sp \<Longrightarrow> account_inv t \<Longrightarrow>
           account_inv (rebuildSessionIndexesLocked (install_snapshot sp t))"
  shows "grants now hashf h s ctx \<or>
    (\<exists>sp t. loaded = Some sp \<and> account_inv t \<and>
       grants now' hashf h (rebuildSessionIndexesLocked (install_snapshot sp t)) ctx)"
proof -
  obtain o1 s1 where p: "pass now s = (o1, s1)" by (cases "pass now s")
  show ?thesis
  proof (cases o1)
    case (Some res)
    then show ?thesis using assms(1,2) p pass_sound by (auto simp: with_reload_def)
  next
    case None
    have s1: "account_inv s1" using pass_inv [OF assms(1), of now] p by simp
    obtain sp where sp: "loaded = Some sp"
        "reloadFromPostgresOnMiss s1 loaded (others s1) =
           ((True, False), rebuildSessionIndexesLocked (install_snapshot sp (others s1)))"
      using assms(2) None p
      by (auto simp: with_reload_def reloadFromPostgresOnMiss_def split: if_splits option.splits)
    define s2 where "s2 = rebuildSessionIndexesLocked (install_snapshot sp (others s1))"
    have "account_inv s2" unfolding s2_def using sp(1) s1 assms(3,4) by blast
    moreover obtain s3 where "pass now' s2 = (Some (Inr ctx), s3)"
      using assms(2) None p sp
      by (auto simp: with_reload_def s2_def split: option.splits prod.splits)
    ultimately have "grants now' hashf h s2 ctx" using pass_sound by blast
    then show ?thesis using sp(1) s1 assms(3) by (auto simp: s2_def)
  qed
qed

text \<open>A token of a known session never causes a reload.\<close>

lemma known_no_reload:
  assumes "account_inv s" and "gm_get (st_Sessions s) k = Some ses" and "hashf ses = h" and "h \<noteq> []"
  shows "\<exists>res. pass now s = (Some res, snd (with_reload (pass now) pass2 loaded others s)) \<and>
           fst (with_reload (pass now) pass2 loaded others s) = res"
proof -
  have "fst (pass now s) \<noteq> None" using assms pass_miss by blast
  then obtain res s1 where "pass now s = (Some res, s1)" by (cases "pass now s") auto
  then show ?thesis by (simp add: with_reload_def)
qed

end

section \<open>The critical section\<close>

lemma touch_device_fields [simp]:
  "d_ID (touch_device x now ip ua d) = d_ID d" "d_UserID (touch_device x now ip ua d) = d_UserID d"
  "d_DeviceIDHash (touch_device x now ip ua d) = d_DeviceIDHash d"
  "d_Status (touch_device x now ip ua d) = d_Status d"
  "d_CreatedAt (touch_device x now ip ua d) = d_CreatedAt d"
  by (simp_all add: touch_device_def)

lemma touch_session_fields [simp]:
  "s_ID (touch_session now ip ua b) = s_ID b" "s_UserID (touch_session now ip ua b) = s_UserID b"
  "s_DeviceID (touch_session now ip ua b) = s_DeviceID b"
  "s_Status (touch_session now ip ua b) = s_Status b"
  "s_TokenHash (touch_session now ip ua b) = s_TokenHash b"
  "s_SubscribeTokenHash (touch_session now ip ua b) = s_SubscribeTokenHash b"
  "s_BusinessTokenCipher (touch_session now ip ua b) = s_BusinessTokenCipher b"
  "s_SubscribeTokenCipher (touch_session now ip ua b) = s_SubscribeTokenCipher b"
  by (simp_all add: touch_session_def)

lemma one_record_mod:
  assumes "one_record_per_hash m" and "\<And>d. d_UserID (f d) = d_UserID d"
    and "\<And>d. d_DeviceIDHash (f d) = d_DeviceIDHash d"
  shows "one_record_per_hash (gm_mod k f m)"
  using assms unfolding one_record_per_hash_def by (auto split: if_splits)

lemma account_inv_expire:
  assumes inv: "account_inv s"
  shows "account_inv (markSessionLocked i
    (s\<lparr>st_Sessions := gm_mod sid (\<lambda>ses. ses\<lparr>s_Status := statusExpired\<rparr>) (st_Sessions s)\<rparr>))"
  by (rule account_inv_weaken [OF inv])
     (use tables_okD [OF account_invD(1) [OF inv]] account_invD(2) [OF inv] in
       \<open>auto simp: same_session_def intro!: sessions_weaker_mod\<close>)

lemma account_inv_touch:
  assumes inv: "account_inv s"
  shows "account_inv (markDeviceLocked i (markSessionLocked j
    (s\<lparr>st_Sessions := gm_mod sid (touch_session now ip ua) (st_Sessions s),
       st_Devices := gm_mod did (touch_device x now ip ua) (st_Devices s)\<rparr>)))"
  by (rule account_inv_weaken [OF inv])
     (use tables_okD [OF account_invD(1) [OF inv]] account_invD(2) [OF inv] in
       \<open>auto simp: same_session_def ids_match_mod one_record_mod is_active_of_def
          intro!: sessions_weaker_mod\<close>)

lemma section_inv:
  assumes "account_inv s"
  shows "account_inv (snd (session_section x now ip ua sid s))"
  using assms account_inv_expire [OF assms] account_inv_touch [OF assms]
  by (simp add: session_section_def Let_def split: option.splits)

lemma section_found:
  assumes inv: "account_inv s" and ok: "index_ok hashf idx (st_Sessions s)"
    and run: "session_section x now ip ua (gm_get idx h) s = (SecFound u d ses visited, s')"
  shows "\<exists>b d0. gm_get (st_Sessions s) (s_ID ses) = Some b \<and> hashf b = h \<and> h \<noteq> [] \<and>
      s_Status b = statusActive \<and> now \<le> s_ExpiresAt b \<and>
      gm_get (st_Devices s) (s_DeviceID b) = Some d0 \<and> d_Status d0 = statusActive \<and>
      d_UserID d0 = s_UserID b \<and> gm_get (st_Users s) (s_UserID b) = Some u \<and>
      d_ID d = s_DeviceID b \<and> (ses = b \<or> ses = touch_session now ip ua b) \<and> s_ID ses \<noteq> []"
proof -
  note tok = tables_okD [OF account_invD(1) [OF inv]]
  obtain k where k: "gm_get idx h = Some k" "k \<noteq> []"
    using run by (auto simp: session_section_def split: option.splits if_splits)
  obtain b where b: "gm_get (st_Sessions s) k = Some b" "hashf b = h" "h \<noteq> []"
    using ok k(1) unfolding index_ok_def by blast
  have act: "s_Status b = statusActive" "now \<le> s_ExpiresAt b"
    using run k b by (auto simp: session_section_def Let_def split: if_splits)
  obtain d0 where d0: "gm_get (st_Devices s) (s_DeviceID b) = Some d0" "is_active_of (s_UserID b) d0"
    using account_invD(3) [OF inv] b(1) act(1)
    unfolding sessions_backed_def session_backed_def by blast
  have id: "s_ID b = k" using ids_match_get [OF tok(6) b(1)] .
  have did: "d_ID d0 = s_DeviceID b" using ids_match_get [OF tok(5) d0(1)] .
  have st: "d_Status d0 = statusActive" "d_UserID d0 = s_UserID b"
    using d0(2) by (simp_all add: is_active_of_def)
  have "gm_get (st_Users s) (s_UserID b) = Some u \<and> (d = d0 \<or> d = touch_device x now ip ua d0) \<and>
      (ses = b \<or> ses = touch_session now ip ua b)"
    using run k b act d0(1) st(1)
    by (auto simp: session_section_def Let_def split: if_splits option.splits)
  then show ?thesis
    using b act d0(1) st id did k(2) by auto
qed

lemma section_miss:
  assumes inv: "account_inv s" and ok: "index_ok hashf idx (st_Sessions s)"
  shows "fst (session_section x now ip ua (gm_get idx h) s) = SecMiss \<longleftrightarrow>
    h = [] \<or> (\<forall>k ses. gm_get (st_Sessions s) k = Some ses \<longrightarrow> hashf ses \<noteq> h)"
proof (cases "gm_get idx h")
  case None
  then have "h = [] \<or> (\<forall>k ses. gm_get (st_Sessions s) k = Some ses \<longrightarrow> hashf ses \<noteq> h)"
    using ok unfolding index_ok_def by fastforce
  then show ?thesis using None by (simp add: session_section_def)
next
  case (Some k)
  then obtain b where b: "gm_get (st_Sessions s) k = Some b" "hashf b = h" "h \<noteq> []"
    using ok unfolding index_ok_def by blast
  have "k \<noteq> []" using b(1) tables_okD(7) [OF account_invD(1) [OF inv]] by auto
  then have "fst (session_section x now ip ua (gm_get idx h) s) \<noteq> SecMiss"
    using Some b(1) by (auto simp: session_section_def Let_def split: option.splits if_splits)
  then show ?thesis using b by blast
qed

section \<open>The two instances\<close>

lemma save_inv [simp]: "account_inv (snd (saveLocked x io s)) = account_inv s"
  by (rule account_inv_cong) simp_all

lemma pass_found_grants:
  assumes inv: "account_inv s" and ok: "index_ok hashf idx (st_Sessions s)"
    and run: "session_section x now ip ua (gm_get idx h) s = (SecFound u d ses visited, s')"
    and ctx: "ctx_User ctx = u" "ctx_Device ctx = d" "ctx_Session ctx = ses"
  shows "grants now hashf h s ctx"
  using section_found [OF inv ok run] unfolding grants_def ctx by blast

lemma authorize_pass_sound:
  assumes "account_inv s" and "authorize_pass x cfg key io now r token s = (Some (Inr ctx), s')"
  shows "grants now s_TokenHash (hashValue x cfg ''session'' token) s ctx"
proof -
  obtain u d ses v s1 where
    sec: "session_section x now (clientIP x cfg r) (userAgent r)
        (gm_get (st_sessionByTokenHash s) (hashValue x cfg ''session'' token)) s = (SecFound u d ses v, s1)"
    and "ctx_User ctx = u" "ctx_Device ctx = d" "ctx_Session ctx = ses"
    using assms(2)
    by (auto simp: authorize_pass_def Let_def split: prod.splits section_result.splits if_splits option.splits)
  then show ?thesis
    using pass_found_grants [OF assms(1) account_invD(5) [OF assms(1)] sec] by simp
qed

lemma subscribe_pass_sound:
  assumes "account_inv s" and "subscribe_pass x cfg key io now r token s = (Some (Inr ctx), s')"
  shows "grants now s_SubscribeTokenHash (hashValue x cfg ''subscribe'' token) s ctx"
proof -
  obtain u d ses v s1 where
    sec: "session_section x now (clientIP x cfg r) (userAgent r)
        (gm_get (st_sessionBySubscribeHash s) (hashValue x cfg ''subscribe'' token)) s = (SecFound u d ses v, s1)"
    and "ctx_User ctx = u" "ctx_Device ctx = d" "ctx_Session ctx = ses"
    using assms(2)
    by (auto simp: subscribe_pass_def Let_def split: prod.splits section_result.splits if_splits option.splits)
  then show ?thesis
    using pass_found_grants [OF assms(1) account_invD(6) [OF assms(1)] sec] by simp
qed

text \<open>Where a pass leaves the store: at the end of the section, saved or not.\<close>

lemma authorize_pass_store:
  "\<exists>s1. s1 = snd (session_section x now (clientIP x cfg r) (userAgent r)
        (gm_get (st_sessionByTokenHash s) (hashValue x cfg ''session'' token)) s) \<and>
     (snd (authorize_pass x cfg key io now r token s) = s1 \<or>
      snd (authorize_pass x cfg key io now r token s) = snd (saveLocked x io s1))"
  by (auto simp: authorize_pass_def Let_def split: prod.splits section_result.splits if_splits option.splits)

lemma subscribe_pass_store:
  "\<exists>s1. s1 = snd (session_section x now (clientIP x cfg r) (userAgent r)
        (gm_get (st_sessionBySubscribeHash s) (hashValue x cfg ''subscribe'' token)) s) \<and>
     (snd (subscribe_pass x cfg key io now r token s) = s1 \<or>
      snd (subscribe_pass x cfg key io now r token s) = snd (saveLocked x io s1))"
  by (auto simp: subscribe_pass_def Let_def split: prod.splits section_result.splits if_splits option.splits)

lemma section_found_id:
  assumes "account_inv s" and "index_ok hashf idx (st_Sessions s)"
    and "session_section x now ip ua (gm_get idx h) s = (SecFound u d ses visited, s')"
  shows "s_ID ses \<noteq> []"
  using section_found [OF assms] by blast

lemma authorize_pass_None:
  assumes "account_inv s"
  shows "fst (authorize_pass x cfg key io now r token s) = None \<longleftrightarrow>
      fst (session_section x now (clientIP x cfg r) (userAgent r)
        (gm_get (st_sessionByTokenHash s) (hashValue x cfg ''session'' token)) s) = SecMiss"
proof -
  obtain sec s1 where sec: "session_section x now (clientIP x cfg r) (userAgent r)
      (gm_get (st_sessionByTokenHash s) (hashValue x cfg ''session'' token)) s = (sec, s1)"
    by (cases "session_section x now (clientIP x cfg r) (userAgent r)
      (gm_get (st_sessionByTokenHash s) (hashValue x cfg ''session'' token)) s")
  show ?thesis
    using sec section_found_id [OF assms account_invD(5) [OF assms]]
    by (cases sec) (auto simp: authorize_pass_def Let_def split: prod.splits option.splits)
qed

lemma subscribe_pass_None:
  assumes "account_inv s"
  shows "fst (subscribe_pass x cfg key io now r token s) = None \<longleftrightarrow>
      fst (session_section x now (clientIP x cfg r) (userAgent r)
        (gm_get (st_sessionBySubscribeHash s) (hashValue x cfg ''subscribe'' token)) s) = SecMiss"
proof -
  obtain sec s1 where sec: "session_section x now (clientIP x cfg r) (userAgent r)
      (gm_get (st_sessionBySubscribeHash s) (hashValue x cfg ''subscribe'' token)) s = (sec, s1)"
    by (cases "session_section x now (clientIP x cfg r) (userAgent r)
      (gm_get (st_sessionBySubscribeHash s) (hashValue x cfg ''subscribe'' token)) s")
  show ?thesis
    using sec section_found_id [OF assms account_invD(6) [OF assms]]
    by (cases sec) (auto simp: subscribe_pass_def Let_def split: prod.splits option.splits)
qed

interpretation token_gate: session_gate "\<lambda>now. authorize_pass x cfg key io now r token"
    s_TokenHash "hashValue x cfg ''session'' token" for x cfg key io r token
proof unfold_locales
  fix s now ctx s'
  show "account_inv s \<Longrightarrow> authorize_pass x cfg key io now r token s = (Some (Inr ctx), s') \<Longrightarrow>
      grants now s_TokenHash (hashValue x cfg ''session'' token) s ctx"
    by (rule authorize_pass_sound)
  show "account_inv s \<Longrightarrow> account_inv (snd (authorize_pass x cfg key io now r token s))"
    using authorize_pass_store [of x now cfg r s token key io] section_inv by fastforce
  show "account_inv s \<Longrightarrow> (fst (authorize_pass x cfg key io now r token s) = None) =
      (hashValue x cfg ''session'' token = [] \<or>
       (\<forall>k ses. gm_get (st_Sessions s) k = Some ses \<longrightarrow> s_TokenHash ses \<noteq> hashValue x cfg ''session'' token))"
    by (simp add: authorize_pass_None section_miss account_invD)
qed

interpretation subscribe_gate: session_gate "\<lambda>now. subscribe_pass x cfg key io now r token"
    s_SubscribeTokenHash "hashValue x cfg ''subscribe'' token" for x cfg key io r token
proof unfold_locales
  fix s now ctx s'
  show "account_inv s \<Longrightarrow> subscribe_pass x cfg key io now r token s = (Some (Inr ctx), s') \<Longrightarrow>
      grants now s_SubscribeTokenHash (hashValue x cfg ''subscribe'' token) s ctx"
    by (rule subscribe_pass_sound)
  show "account_inv s \<Longrightarrow> account_inv (snd (subscribe_pass x cfg key io now r token s))"
    using subscribe_pass_store [of x now cfg r s token key io] section_inv by fastforce
  show "account_inv s \<Longrightarrow> (fst (subscribe_pass x cfg key io now r token s) = None) =
      (hashValue x cfg ''subscribe'' token = [] \<or>
       (\<forall>k ses. gm_get (st_Sessions s) k = Some ses \<longrightarrow>
          s_SubscribeTokenHash ses \<noteq> hashValue x cfg ''subscribe'' token))"
    by (simp add: subscribe_pass_None section_miss account_invD)
qed

section \<open>Rebuilding the indexes\<close>

definition hashes_unique :: "(SessionRecord \<Rightarrow> string) \<Rightarrow> SessionRecord gomap \<Rightarrow> bool" where
  "hashes_unique hashf m =
     (\<forall>k k' a b. gm_get m k = Some a \<longrightarrow> gm_get m k' = Some b \<longrightarrow> hashf a = hashf b \<longrightarrow>
        hashf a \<noteq> [] \<longrightarrow> k = k')"

lemma index_ok_unique: "index_ok hashf idx m \<Longrightarrow> hashes_unique hashf m"
  unfolding index_ok_def hashes_unique_def by (metis option.inject)

lemma hashes_unique_butlast:
  assumes "gm_wf (m @ [e])" and "hashes_unique hashf (m @ [e])"
  shows "hashes_unique hashf m" and "gm_get m (fst e) = None"
proof -
  show absent: "gm_get m (fst e) = None" using assms(1) by (auto simp: gm_get_None_iff)
  have grow: "gm_get (m @ [e]) k = Some v" if "gm_get m k = Some v" for k v
    using that by (simp add: map_add_def map_of_append split: option.splits)
  then show "hashes_unique hashf m"
    using assms(2) unfolding hashes_unique_def by meson
qed

lemma rebuilt_index_ok:
  "gm_wf m \<Longrightarrow> hashes_unique hashf m \<Longrightarrow>
   index_ok hashf (fold (\<lambda>e. index_entry (hashf (snd e)) (fst e)) m []) m"
proof (induction m rule: rev_induct)
  case Nil
  then show ?case by (simp add: index_ok_def)
next
  case (snoc e m)
  obtain k ses where e: "e = (k, ses)" by (cases e)
  define idx where "idx = fold (\<lambda>e. index_entry (hashf (snd e)) (fst e)) m []"
  have absent: "gm_get m k = None" using hashes_unique_butlast(2) [OF snoc.prems] e by simp
  have ok: "index_ok hashf idx m"
    using snoc.IH snoc.prems hashes_unique_butlast(1) [OF snoc.prems] by (simp add: idx_def)
  have app: "m @ [e] = gm_set k ses m"
    using absent e by (simp add: gm_set_absent gm_get_None_iff)
  have none: "gm_get idx (hashf ses) = None"
  proof (rule ccontr)
    assume "gm_get idx (hashf ses) \<noteq> None"
    then obtain j b where "gm_get idx (hashf ses) = Some j" "gm_get m j = Some b" "hashf b = hashf ses"
      "hashf ses \<noteq> []"
      using ok unfolding index_ok_def by blast
    moreover from this(2) absent have "j \<noteq> k" by auto
    moreover have "gm_get (m @ [e]) j = Some b" "gm_get (m @ [e]) k = Some ses"
      using calculation absent by (simp_all add: app)
    ultimately show False using snoc.prems(2) unfolding hashes_unique_def by metis
  qed
  show ?case
    using index_entry_ok [OF ok absent none] unfolding app by (simp add: idx_def e flip: app)
qed

text \<open>A snapshot whose tables satisfy the invariant; the indexes are rebuilt from it.\<close>

definition snapshot_inv :: "Snapshot \<Rightarrow> bool" where
  "snapshot_inv sp =
     (gm_wf (sp_Users sp) \<and> gm_wf (sp_Devices sp) \<and> gm_wf (sp_Sessions sp) \<and>
      ids_match u_ID (sp_Users sp) \<and> ids_match d_ID (sp_Devices sp) \<and>
      ids_match s_ID (sp_Sessions sp) \<and> gm_get (sp_Sessions sp) [] = None \<and>
      one_record_per_hash (sp_Devices sp) \<and> one_active_session (sp_Sessions sp) \<and>
      hashes_unique s_TokenHash (sp_Sessions sp) \<and>
      hashes_unique s_SubscribeTokenHash (sp_Sessions sp) \<and>
      (\<forall>k ses. gm_get (sp_Sessions sp) k = Some ses \<longrightarrow> s_Status ses = statusActive \<longrightarrow>
         session_backed (sp_Users sp) (sp_Devices sp) ses))"

lemma reload_account_inv:
  "snapshot_inv sp \<Longrightarrow> account_inv (rebuildSessionIndexesLocked (install_snapshot sp s))"
  by (simp add: snapshot_inv_def account_inv_def tables_ok_def sessions_backed_def rebuilt_index_ok
      rebuildSessionIndexesLocked_def install_snapshot_def)

lemma snapshot_of_inv: "account_inv s \<Longrightarrow> snapshot_inv (snapshot_of s)"
  using account_invD(5,6) [of s, THEN index_ok_unique]
  by (simp add: snapshot_inv_def snapshot_of_def account_inv_def tables_ok_def sessions_backed_def)

end
