(* ===== verification/Samples.thy ===== *)
theory Samples
  imports SessionLaws
begin

text \<open>
  Concrete instances of the parameters and small stores, on which the theorems with
  hypotheses are applied once: external code in the form of simple total functions, a
  configuration, requests, and the stores after one and two logins.
\<close>

definition demo_ext :: ext where
  "demo_ext =
     \<lparr>x_hmac = (\<lambda>k v. [hd v, last v]), x_sha256 = (\<lambda>s. replicate 16 CHR ''k''),
      x_seal = (\<lambda>k n p. p), x_open = (\<lambda>k n c. Some c), x_ed25519_verify = (\<lambda>k m s. True),
      x_rand = (\<lambda>i n. [''abcdefghijklmno'' ! i]), x_unicode_lower = (\<lambda>s. s),
      x_float_to_int = (\<lambda>q. 0), x_json_parse = (\<lambda>s. None), x_json_text = (\<lambda>v. None),
      x_json_int = (\<lambda>s. if snd (atoi s) then Some (fst (atoi s)) else None),
      x_url_parse = (\<lambda>s. Some \<lparr>pu_Scheme = ''http'', pu_Host = s, pu_Path = [], pu_RawQuery = []\<rparr>),
      x_url_string = (\<lambda>u. pu_Host u @ pu_Path u), x_parse_ip = (\<lambda>s. None),
      x_split_host_port = (\<lambda>s. None), x_ip_region = (\<lambda>s. None), x_pg_time = (\<lambda>t. t)\<rparr>"

definition demo_cfg :: Config where
  "demo_cfg =
     \<lparr>cfg_ListenAddr = '':1'', cfg_BusinessBaseURLs = [''a'', ''b''], cfg_PublicBaseURL = [],
      cfg_GatewayURLs = [], cfg_APIPrefix = ''/v1'', cfg_DataFile = ''f'', cfg_AdminToken = ''t'',
      cfg_TokenSecret = ''s'', cfg_SessionTTL = 100, cfg_DevicePolicy = policyStrict,
      cfg_DefaultDeviceLimit = 3, cfg_HTTPTimeout = 1, cfg_BusinessFailureThreshold = 2,
      cfg_BusinessCircuitBreak = 60, cfg_BusinessHealthInterval = 30,
      cfg_BusinessRecoverySuccess = 2, cfg_BusinessBackupMinHold = 50,
      cfg_TrustForwardedFor = False, cfg_IPRegionDB = [], cfg_PostgresDSN = []\<rparr>"

definition demo_kick :: Config where
  "demo_kick = demo_cfg\<lparr>cfg_DevicePolicy := policyKickOldest\<rparr>"

definition demo_key :: string where
  "demo_key = deriveKey demo_ext ''s''"

definition demo_request :: "header \<Rightarrow> Request" where
  "demo_request h = \<lparr>rq_Method = ''POST'', rq_Path = ''/'', rq_RawQuery = [], rq_Header = h,
     rq_RemoteAddr = ''r'', rq_Host = ''h'', rq_TLS = False\<rparr>"

definition demo_login :: "string \<Rightarrow> LoginRequest" where
  "demo_login dev = \<lparr>lr_Email = ''e'', lr_Password = ''p'', lr_DeviceID = dev, lr_DeviceName = ''n'',
     lr_Platform = ''p'', lr_AppVersion = [], lr_OSVersion = [], lr_DeviceInfo = None\<rparr>"

definition demo_snapshot :: SubscriptionSnapshot where
  "demo_snapshot = \<lparr>sn_Email = ''e'', sn_UUID = ''u'', sn_PlanID = 1, sn_PlanName = ''p'',
     sn_DeviceLimit = Some 1, sn_DeviceLimitSet = True, sn_SubscribeURL = [], sn_SubscribeToken = []\<rparr>"

lemma demo_bearer:
  "header_get (rq_Header (demo_request [(''Authorization'', [''Bearer '' @ tok])])) ''Authorization'' =
     ''Bearer '' @ tok"
proof -
  have "canonicalHeaderKey ''Authorization'' = ''Authorization''" by code_simp
  then show ?thesis by (simp add: demo_request_def header_get_def header_values_def)
qed

text \<open>A store with one user, who has one active device and one session on it.\<close>

definition demo_user :: UserCache where
  "demo_user = \<lparr>u_ID = ''U'', u_BusinessUserID = ''u'', u_Email = ''e'', u_PlanID = 1, u_PlanName = ''p'',
     u_DeviceLimit = Some 1, u_DeviceLimitOverride = None, u_LastSyncedAt = 1, u_CreatedAt = 1,
     u_UpdatedAt = 1\<rparr>"

definition demo_device :: DeviceRecord where
  "demo_device = \<lparr>d_ID = ''D'', d_UserID = ''U'', d_DeviceIDHash = ''6441'', d_DeviceName = ''n'',
     d_Platform = ''p'', d_AppVersion = [], d_OSVersion = [], d_Status = statusActive,
     d_LastSeenAt = 1, d_CreatedAt = 1, d_RevokedAt = None, d_RevokedBy = [], d_LastIP = ''r'',
     d_LastIPRegion = [], d_LastIPISP = [], d_UserAgent = []\<rparr>"

definition demo_session :: SessionRecord where
  "demo_session = \<lparr>s_ID = ''S'', s_UserID = ''U'', s_DeviceID = ''D'', s_TokenHash = ''7374'',
     s_BusinessTokenCipher = ''YWFhYWFhYWFhYWFhYg=='', s_BusinessSubURLCipher = [],
     s_SubscribeTokenHash = ''7375'', s_SubscribeTokenCipher = ''YWFhYWFhYWFhYWFhYg=='',
     s_Status = statusActive, s_ExpiresAt = 100, s_CreatedAt = 1, s_LastSeenAt = 1, s_LastIP = ''r'',
     s_UserAgent = []\<rparr>"

definition demo_store :: Store where
  "demo_store = (emptyStore None None)
     \<lparr>st_Users := [(''U'', demo_user)], st_Devices := [(''D'', demo_device)],
      st_Sessions := [(''S'', demo_session)], st_sessionByTokenHash := [(''7374'', ''S'')],
      st_sessionBySubscribeHash := [(''7375'', ''S'')]\<rparr>"

lemma demo_store_inv: "account_inv demo_store"
  by (simp add: account_inv_def tables_ok_def one_record_per_hash_def sessions_backed_def
      one_active_session_def index_ok_def emptyStore_def demo_store_def session_backed_def
      is_active_of_def demo_user_def demo_device_def demo_session_def ids_match_def)

section \<open>Logins on it\<close>

definition demo_admit :: "ext \<Rightarrow> Config \<Rightarrow> time \<Rightarrow> string \<Rightarrow> Store \<Rightarrow> admit_result \<times> Store" where
  "demo_admit x cfg now dev s =
     admitDevice x cfg demo_key SaveOk now (demo_request []) (demo_login dev) demo_snapshot ''b'' s"

lemma demo_kick_eval:
  "case demo_admit demo_ext demo_kick 5 ''B'' demo_store of
     (Admitted tok d limit n, s') \<Rightarrow>
        fresh_draws demo_ext demo_kick demo_store s' \<and> d_UserID d = ''U'' \<and> limit = 1 \<and> n = 1 \<and>
        list_all (\<lambda>e. ''D'' \<noteq> fst e) (activeDevicesLocked ''U'' s')
   | _ \<Rightarrow> False"
  by code_simp

lemma demo_refuse_eval:
  "case demo_admit demo_ext demo_cfg 5 ''B'' demo_store of
     (LimitExceeded limit n, s') \<Rightarrow> limit = 1 \<and> n = 1 | _ \<Rightarrow> False"
  by code_simp

lemma demo_kick_run:
  obtains tok d s' where
    "admitDevice demo_ext demo_kick demo_key SaveOk 5 (demo_request []) (demo_login ''B'') demo_snapshot
       ''b'' demo_store = (Admitted tok d 1 1, s')"
    "fresh_draws demo_ext demo_kick demo_store s'" "d_UserID d = ''U''"
    "''D'' \<notin> fst ` set (activeDevicesLocked ''U'' s')"
  using demo_kick_eval
  by (auto simp: demo_admit_def list_all_iff image_iff split: prod.splits admit_result.splits)

lemma demo_refuse_run:
  obtains s' where
    "admitDevice demo_ext demo_cfg demo_key SaveOk 5 (demo_request []) (demo_login ''B'') demo_snapshot
       ''b'' demo_store = (LimitExceeded 1 1, s')"
  using demo_refuse_eval by (auto simp: demo_admit_def split: prod.splits admit_result.splits)

text \<open>The same with nonces of 12 bytes, so that what was sealed can be opened.\<close>

definition demo_ext12 :: ext where
  "demo_ext12 = demo_ext\<lparr>x_rand := \<lambda>i n. if n = 12 then replicate 12 (''abcdefghijklmno'' ! i)
                                        else [''abcdefghijklmno'' ! i]\<rparr>"

lemma demo_kick12_eval:
  "case demo_admit demo_ext12 demo_kick 5 ''B'' demo_store of
     (Admitted tok d limit n, s') \<Rightarrow> fresh_draws demo_ext12 demo_kick demo_store s' | _ \<Rightarrow> False"
  by code_simp

lemma demo_kick12_run:
  obtains tok d l n s' where
    "admitDevice demo_ext12 demo_kick demo_key SaveOk 5 (demo_request []) (demo_login ''B'') demo_snapshot
       ''b'' demo_store = (Admitted tok d l n, s')"
    "fresh_draws demo_ext12 demo_kick demo_store s'"
  using demo_kick12_eval by (auto simp: demo_admit_def split: prod.splits admit_result.splits)

end
