(* ===== verification/BackendProps.thy ===== *)
theory BackendProps
  imports Backends Samples
begin

text \<open>
  The properties of the backend pool: which backends a request tries and in which order, the
  circuit breaker against its abstract machine, what the retry loop may repeat and what it
  answers, the failback rule and the refresh of the configuration.
\<close>

section \<open>The order of the backends\<close>

text \<open>The first occurrences of the elements of a list.\<close>

definition firsts :: "'a list \<Rightarrow> 'a list" where
  "firsts xs = rev (remdups (rev xs))"

lemma firsts_simps [simp]: "set (firsts xs) = set xs" "distinct (firsts xs)" "firsts [] = []"
  by (simp_all add: firsts_def)

lemma filter_remdups: "filter P (remdups xs) = remdups (filter P xs)"
  by (induction xs) auto

lemma remdups_snoc: "remdups (xs @ [x]) = (filter (\<lambda>y. y \<noteq> x) (remdups xs)) @ [x]"
  by (induction xs) auto

lemma firsts_Cons: "firsts (x # xs) = x # filter (\<lambda>y. y \<noteq> x) (firsts xs)"
  by (simp add: firsts_def remdups_snoc rev_filter)

lemma order_rest_filter:
  "order_rest now p us ord =
     ord @ filter (\<lambda>u. u \<notin> set ord \<and> \<not> is_disabled now p u) (firsts us)"
proof (induction us arbitrary: ord)
  case Nil
  then show ?case by simp
next
  case (Cons u us)
  have "filter (\<lambda>v. v \<notin> set (ord @ [u]) \<and> \<not> is_disabled now p v) (firsts us) =
      filter (\<lambda>v. v \<notin> set ord \<and> \<not> is_disabled now p v) (filter (\<lambda>y. y \<noteq> u) (firsts us))"
    by (auto intro: filter_cong)
  moreover have "filter (\<lambda>v. v \<notin> set ord \<and> \<not> is_disabled now p v) (firsts us) =
      filter (\<lambda>v. v \<notin> set ord \<and> \<not> is_disabled now p v) (filter (\<lambda>y. y \<noteq> u) (firsts us))"
    if "u \<in> set ord \<or> is_disabled now p u"
    using that by (auto intro: filter_cong)
  ultimately show ?case by (auto simp: Cons.IH firsts_Cons)
qed

text \<open>
  The backends of a request, against a reference: those whose circuit is closed, in
  configured order, with the active one moved to the front; the first configured one alone
  when every circuit is open. The list has no duplicates and is empty only without any
  configured backend.
\<close>

theorem businessURLs_order:
  "(let conf = cfg_BusinessBaseURLs cfg; av = filter (\<lambda>u. \<not> is_disabled now p u) (firsts conf);
        urls = businessURLs cfg now p
    in urls = (if av = [] then take 1 conf
               else if pl_active p \<noteq> [] \<and> pl_active p \<in> set av
               then pl_active p # filter (\<lambda>u. u \<noteq> pl_active p) av else av) \<and>
       distinct urls \<and> set urls \<subseteq> set conf \<and> (urls = []) = (conf = []))"
proof -
  define conf where "conf = cfg_BusinessBaseURLs cfg"
  define av where "av = filter (\<lambda>u. \<not> is_disabled now p u) (firsts conf)"
  have av: "set av \<subseteq> set conf" "distinct av" by (auto simp: av_def)
  have in_av: "u \<in> set av \<longleftrightarrow> u \<in> set conf \<and> \<not> is_disabled now p u" for u by (auto simp: av_def)
  have ex: "businessURLs cfg now p = (if av = [] then take 1 conf
       else if pl_active p \<noteq> [] \<and> pl_active p \<in> set av
       then pl_active p # filter (\<lambda>u. u \<noteq> pl_active p) av else av)"
  proof (cases "pl_active p \<noteq> [] \<and> pl_active p \<in> set av")
    case True
    then have "filter (\<lambda>u. u \<noteq> pl_active p \<and> \<not> is_disabled now p u) (firsts conf) =
        filter (\<lambda>u. u \<noteq> pl_active p) av"
      by (simp add: av_def conj_commute)
    with True in_av show ?thesis
      by (auto simp: businessURLs_def Let_def order_rest_filter conf_def [symmetric])
  next
    case False
    then have "businessURLs cfg now p = (if av = [] \<and> conf \<noteq> [] then [hd conf] else av)"
      using in_av by (auto simp: businessURLs_def Let_def order_rest_filter conf_def av_def)
    with False show ?thesis by (cases conf) (auto simp: av_def)
  qed
  have "distinct (businessURLs cfg now p)" "set (businessURLs cfg now p) \<subseteq> set conf"
    using ex av by (cases conf; auto)+
  moreover have "(businessURLs cfg now p = []) = (conf = [])"
    using ex av by (cases conf) (auto split: if_splits)
  ultimately show ?thesis using ex by (simp add: Let_def conf_def av_def)
qed

lemma businessURLs_distinct: "distinct (businessURLs cfg now p)"
proof -
  have "distinct ord \<Longrightarrow> distinct (order_rest now p us ord)" for us ord
    by (auto simp: order_rest_filter)
  then show ?thesis by (auto simp: businessURLs_def Let_def)
qed

section \<open>The circuit breaker\<close>

text \<open>The breaker of one backend as an abstract machine over its failures and successes.\<close>

datatype breaker = Closed nat | HalfOpen | Open time

fun breaker_fail :: "Config \<Rightarrow> time \<Rightarrow> breaker \<Rightarrow> breaker" where
  "breaker_fail cfg t (Closed n) =
     (if int (Suc n) \<ge> failure_threshold cfg then Open (t + circuit_cooldown cfg) else Closed (Suc n))"
| "breaker_fail cfg t HalfOpen = Open (t + circuit_cooldown cfg)"
| "breaker_fail cfg t (Open _) = Open (t + circuit_cooldown cfg)"

definition breaker_of :: "Config \<Rightarrow> time \<Rightarrow> BusinessBackendState \<Rightarrow> breaker" where
  "breaker_of cfg now st =
     (if bs_FailureCount st < failure_threshold cfg then Closed (nat (bs_FailureCount st))
      else if now < bs_DisabledUntil st then Open (bs_DisabledUntil st) else HalfOpen)"

text \<open>What the bookkeeping keeps: counts are not negative and only a reached threshold disables.\<close>

definition breaker_ok :: "Config \<Rightarrow> BusinessBackendState \<Rightarrow> bool" where
  "breaker_ok cfg st =
     (0 \<le> bs_FailureCount st \<and>
      (bs_FailureCount st < failure_threshold cfg \<longrightarrow> bs_DisabledUntil st = 0))"

definition pool_ok :: "Config \<Rightarrow> BackendPool \<Rightarrow> bool" where
  "pool_ok cfg p = (\<forall>u st. gm_get (pl_states p) u = Some st \<longrightarrow> breaker_ok cfg st)"

lemma threshold_pos: "0 < failure_threshold cfg" and cooldown_pos: "0 < circuit_cooldown cfg"
  by (simp_all add: failure_threshold_def circuit_cooldown_def)

lemma pool_ok_state: "pool_ok cfg p \<Longrightarrow> breaker_ok cfg (backend_state p u)"
  using threshold_pos [of cfg]
  by (auto simp: pool_ok_def backend_state_def breaker_ok_def no_backend_state_def split: option.splits)

lemma failure_state:
  "backend_state (markBusinessFailure cfg t1 t2 u p) v =
     (if v = u
      then let st = backend_state p u; n = bs_FailureCount st + 1 in
        st\<lparr>bs_FailureCount := n, bs_RecoverySuccessCount := 0, bs_LastFailureAt := t1,
           bs_DisabledUntil := (if n \<ge> failure_threshold cfg then t2 + circuit_cooldown cfg
                                else bs_DisabledUntil st)\<rparr>
      else backend_state p v)"
  by (simp add: markBusinessFailure_def backend_state_def Let_def)

lemma success_state:
  "backend_state (markBusinessSuccess t1 t2 u p) v =
     (if v = u
      then (backend_state p u)\<lparr>bs_FailureCount := 0, bs_DisabledUntil := 0, bs_LastSuccessAt := t1,
             bs_RecoverySuccessCount := 0\<rparr>
      else backend_state p v)"
  by (simp add: markBusinessSuccess_def backend_state_def Let_def)

lemma success_active [simp]: "pl_active (markBusinessSuccess t1 t2 u p) = u"
  by (simp add: markBusinessSuccess_def Let_def)

lemma failure_active: "pl_active (markBusinessFailure cfg t1 t2 u p) \<in> {[], pl_active p}"
  by (simp add: markBusinessFailure_def Let_def)

lemma is_disabled_state: "is_disabled now p u \<longleftrightarrow>
    gm_get (pl_states p) u \<noteq> None \<and> now < bs_DisabledUntil (backend_state p u)"
  by (auto simp: is_disabled_def backend_state_def split: option.splits)

lemma failure_known: "gm_get (pl_states (markBusinessFailure cfg t1 t2 u p)) u \<noteq> None"
  by (simp add: markBusinessFailure_def Let_def)

lemma failure_pool_ok: "pool_ok cfg p \<Longrightarrow> pool_ok cfg (markBusinessFailure cfg t1 t2 u p)"
  using pool_ok_state [of cfg p u]
  by (auto simp: pool_ok_def markBusinessFailure_def breaker_ok_def Let_def split: if_splits)

lemma success_pool_ok: "pool_ok cfg p \<Longrightarrow> pool_ok cfg (markBusinessSuccess t1 t2 u p)"
  by (auto simp: pool_ok_def markBusinessSuccess_def breaker_ok_def Let_def split: if_splits)



lemma failures_count:
  "bs_FailureCount (backend_state (fold (\<lambda>(t1, t2). markBusinessFailure cfg t1 t2 u) ts p) u) =
     bs_FailureCount (backend_state p u) + int (length ts)"
  by (induction ts arbitrary: p) (auto simp: failure_state Let_def)

lemma failures_pool_ok: "pool_ok cfg p \<Longrightarrow> pool_ok cfg (fold (\<lambda>(t1, t2). markBusinessFailure cfg t1 t2 u) ts p)"
  by (induction ts arbitrary: p) (auto simp: failure_pool_ok)

text \<open>
  Consecutive failures open the circuit: after as many failures in a row as the
  threshold asks for, the backend is not active and no request tries it until the cooldown
  after the last failure has passed, unless the circuit of every configured backend is open.
\<close>

theorem failures_open_circuit:
  assumes "pool_ok cfg p" and "failure_threshold cfg \<le> int (length (ts @ [(t1, t2)]))"
    and "now < t2 + circuit_cooldown cfg" and "u \<noteq> []"
  shows "let p' = fold (\<lambda>(t1, t2). markBusinessFailure cfg t1 t2 u) (ts @ [(t1, t2)]) p in
    is_disabled now p' u \<and> pl_active p' \<noteq> u \<and>
    (u \<notin> set (businessURLs cfg now p') \<or>
     (\<forall>v \<in> set (cfg_BusinessBaseURLs cfg). is_disabled now p' v))"
proof -
  define q where "q = fold (\<lambda>(t1, t2). markBusinessFailure cfg t1 t2 u) ts p"
  define p' where "p' = markBusinessFailure cfg t1 t2 u q"
  have "0 \<le> bs_FailureCount (backend_state p u)"
    using pool_ok_state [OF assms(1)] by (simp add: breaker_ok_def)
  then have n: "failure_threshold cfg \<le> bs_FailureCount (backend_state q u) + 1"
    using assms(2) by (simp add: q_def failures_count)
  have dis: "is_disabled now p' u"
    unfolding p'_def is_disabled_state using n assms(3) failure_known
    by (simp add: failure_state Let_def failure_known)
  have act: "pl_active p' \<noteq> u"
    using n assms(4) by (auto simp: p'_def markBusinessFailure_def Let_def)
  have "u \<notin> set (businessURLs cfg now p') \<or> (\<forall>v \<in> set (cfg_BusinessBaseURLs cfg). is_disabled now p' v)"
    using dis act by (auto simp: businessURLs_def Let_def order_rest_filter filter_empty_conv)
  with dis act show ?thesis by (simp add: Let_def p'_def q_def)
qed

theorem failures_open_circuit_witness:
  "let p' = fold (\<lambda>(t1, t2). markBusinessFailure demo_cfg t1 t2 ''a'') ([(4, 4)] @ [(5, 5)]) no_pool
    in is_disabled 60 p' ''a'' \<and> pl_active p' \<noteq> ''a''"
proof -
  have ok: "pool_ok demo_cfg no_pool" by (simp add: pool_ok_def no_pool_def)
  have n: "failure_threshold demo_cfg \<le> int (length ([(4::time, 4::time)] @ [(5, 5)]))"
    and c: "60 < 5 + circuit_cooldown demo_cfg"
    by (simp_all add: failure_threshold_def circuit_cooldown_def demo_cfg_def)
  from failures_open_circuit [OF ok n c, of "''a''"] show ?thesis by (simp only: Let_def list.simps simp_thms)
qed

section \<open>The retry loop\<close>

definition backend_down :: "net_reply \<Rightarrow> bool" where
  "backend_down rep = (case rep of NetReply code h b \<Rightarrow> 500 \<le> code | _ \<Rightarrow> True)"

text \<open>What the loop leaves: the requests sent, in order, and their replies.\<close>

lemma try_from_sent:
  "subseq (map fst (tr_Sent (try_from cfg mk send clock others i us e p))) us \<and>
   list_all (\<lambda>(u, req, rep). mk u = Some req) (tr_Sent (try_from cfg mk send clock others i us e p)) \<and>
   list_all (\<lambda>(u, req, rep). safeBusinessRetry req \<and> backend_down rep)
     (butlast (tr_Sent (try_from cfg mk send clock others i us e p)))"
proof (induction us arbitrary: i e p)
  case Nil
  then show ?case by simp
next
  case (Cons u us)
  then show ?case
    by (auto simp: Let_def backend_down_def split: option.splits net_reply.splits)
qed

text \<open>
  The retry loop never repeats an unsafe request: each request goes to another
  backend, in the order of \<open>businessURLs\<close>, and every request but the last one is safe to
  repeat and was answered by a failure. An order or a payment is thus sent at most once.
\<close>

theorem unsafe_sent_once:
  "let sent = tr_Sent (tryBusinessURLs cfg now mk send clock others p)
   in subseq (map fst sent) (businessURLs cfg now p) \<and> distinct (map fst sent) \<and>
      list_all (\<lambda>(u, req, rep). mk u = Some req) sent \<and>
      list_all (\<lambda>(u, req, rep). safeBusinessRetry req \<and> backend_down rep) (butlast sent) \<and>
      length (filter (\<lambda>(u, req, rep). \<not> safeBusinessRetry req) sent) \<le> 1"
proof -
  define sent where "sent = tr_Sent (tryBusinessURLs cfg now mk send clock others p)"
  have s: "subseq (map fst sent) (businessURLs cfg now p)"
      "list_all (\<lambda>(u, req, rep). mk u = Some req) sent"
      "list_all (\<lambda>(u, req, rep). safeBusinessRetry req \<and> backend_down rep) (butlast sent)"
    using try_from_sent [of cfg mk send clock others 0 "businessURLs cfg now p" None p]
    by (simp_all add: sent_def tryBusinessURLs_def)
  have "distinct (businessURLs cfg now p)" using businessURLs_distinct .
  then have d: "distinct (map fst sent)" using s(1) subseq_conv_nths distinct_nthsI by metis
  have "filter (\<lambda>(u, req, rep). \<not> safeBusinessRetry req) (butlast sent) = []"
    using s(3) by (auto simp: filter_empty_conv list_all_iff)
  then have "length (filter (\<lambda>(u, req, rep). \<not> safeBusinessRetry req) sent) \<le> 1"
    by (cases sent rule: rev_cases) auto
  with s d show ?thesis by (simp add: Let_def sent_def)
qed

definition answer_ok :: "string list \<Rightarrow> try_result \<Rightarrow> bool" where
  "answer_ok us r =
     (case tr_Answer r of
        Inr (code, h, b) \<Rightarrow>
          tr_Sent r \<noteq> [] \<and>
          (let (u, req, rep) = last (tr_Sent r); st = backend_state (tr_Pool r) u
           in rep = NetReply code h b \<and>
              (if code < 500
               then pl_active (tr_Pool r) = u \<and> bs_FailureCount st = 0 \<and> bs_DisabledUntil st = 0
               else \<not> safeBusinessRetry req \<or> u = last us))
      | Inl err \<Rightarrow> list_all (\<lambda>(u, req, rep). backend_down rep) (tr_Sent r))"

lemma answer_ok_Cons:
  "answer_ok us r \<Longrightarrow> us \<noteq> [] \<Longrightarrow> backend_down rep \<Longrightarrow>
   answer_ok (u # us) (r\<lparr>tr_Sent := (u, req, rep) # tr_Sent r\<rparr>)"
  by (auto simp: answer_ok_def Let_def split: sum.splits prod.splits)

lemma answer_ok_skip: "answer_ok us r \<Longrightarrow> us \<noteq> [] \<Longrightarrow> answer_ok (u # us) r"
  by (auto simp: answer_ok_def Let_def split: sum.splits prod.splits)

lemma try_from_answer: "answer_ok us (try_from cfg mk send clock others i us e p)"
proof (induction us arbitrary: i e p)
  case Nil
  then show ?case by (simp add: answer_ok_def)
next
  case (Cons u us)
  show ?case
  proof (cases "mk u")
    case None
    then show ?thesis
      using answer_ok_skip [OF Cons.IH] by (cases "us = []") (auto simp: answer_ok_def)
  next
    case (Some req)
    define f where "f = markBusinessFailure cfg (fst (clock i)) (snd (clock i)) u (others i p)"
    have again: "us \<noteq> [] \<Longrightarrow> backend_down (send i req) \<Longrightarrow>
        answer_ok (u # us) ((try_from cfg mk send clock others (Suc i) us (Some err) f)
          \<lparr>tr_Sent := (u, req, send i req) #
             tr_Sent (try_from cfg mk send clock others (Suc i) us (Some err) f)\<rparr>)" for err
      by (rule answer_ok_Cons [OF Cons.IH])
    show ?thesis
    proof (cases "us \<noteq> [] \<and> safeBusinessRetry req \<and> backend_down (send i req)")
      case True
      then show ?thesis
        using again Some
        by (auto simp: Let_def f_def [symmetric] backend_down_def split: net_reply.splits)
    next
      case False
      then show ?thesis
        using Some
        by (auto simp: Let_def backend_down_def answer_ok_def success_state split: net_reply.splits)
    qed
  qed
qed

text \<open>
  The answer of the retry loop is the last reply it got. A reply below 500 makes
  its backend the active one at once with its circuit closed, however long the previous one
  was active; a server error is passed on only when the request must not be repeated or no
  backend is left; an error means that every backend tried failed.
\<close>

theorem try_answer_is_last:
  "let r = tryBusinessURLs cfg now mk send clock others p in
   case tr_Answer r of
     Inr (code, h, b) \<Rightarrow>
       tr_Sent r \<noteq> [] \<and>
       (let (u, req, rep) = last (tr_Sent r); st = backend_state (tr_Pool r) u
        in rep = NetReply code h b \<and>
           (if code < 500
            then pl_active (tr_Pool r) = u \<and> bs_FailureCount st = 0 \<and> bs_DisabledUntil st = 0
            else \<not> safeBusinessRetry req \<or> u = last (businessURLs cfg now p)))
   | Inl err \<Rightarrow> list_all (\<lambda>(u, req, rep). backend_down rep) (tr_Sent r)"
  using try_from_answer [of "businessURLs cfg now p" cfg mk send clock others 0 None p]
  by (simp only: tryBusinessURLs_def answer_ok_def Let_def)

theorem try_answer_is_last_witness:
  "let r = tryBusinessURLs demo_cfg 5 (probe_request demo_ext demo_cfg) (\<lambda>i req. NetReply 200 [] None)
       (\<lambda>i. (5, 5)) (\<lambda>i p. p) no_pool
   in tr_Sent r \<noteq> [] \<and> pl_active (tr_Pool r) = fst (last (tr_Sent r))"
proof -
  define r where "r = tryBusinessURLs demo_cfg 5 (probe_request demo_ext demo_cfg) (\<lambda>i req. NetReply 200 [] None)
       (\<lambda>i. (5, 5)) (\<lambda>i p. p) no_pool"
  have "case tr_Answer r of Inr (code, h, b) \<Rightarrow> code = 200 | Inl e \<Rightarrow> False" unfolding r_def by code_simp
  then obtain h b where "tr_Answer r = Inr (200, h, b)" by (auto split: sum.splits)
  with try_answer_is_last [of demo_cfg 5 "probe_request demo_ext demo_cfg" "\<lambda>i req. NetReply 200 [] None"
      "\<lambda>i. (5, 5)" "\<lambda>i p. p" no_pool, folded r_def]
  show ?thesis by (auto simp: r_def [symmetric] Let_def split: prod.splits)
qed

section \<open>Failback\<close>

definition votes :: "BackendPool \<Rightarrow> string \<Rightarrow> int" where
  "votes p u = bs_RecoverySuccessCount (backend_state p u)"

lemma reset_votes:
  "votes (p\<lparr>pl_states := gm_mod c (\<lambda>st. st\<lparr>bs_RecoverySuccessCount := 0\<rparr>) (pl_states p)\<rparr>) u =
     (if u = c then 0 else votes p u)"
  by (auto simp: votes_def backend_state_def no_backend_state_def split: option.splits)

declare recovery_loop.simps(2) [simp del]

lemma recovery_loop_active:
  assumes "\<And>j q. pl_active (others j q) = pl_active q" and "\<And>j q u. votes (others j q) u \<le> votes q u"
    and "\<And>j q. pl_active (others' j q) = pl_active q" and "distinct cs"
    and "pl_active (recovery_loop cfg probe clock others others' since i cs p) \<noteq> pl_active p"
  shows "let c = pl_active (recovery_loop cfg probe clock others others' since i cs p)
    in c \<in> set cs \<and> required_successes cfg \<le> votes p c + 1 \<and>
       (\<exists>j. probe j c \<and>
          (since = 0 \<or> cfg_BusinessBackupMinHold cfg \<le> time_sub (fst (snd (clock j))) since))"
  using assms(4,5)
proof (induction cs arbitrary: i p)
  case Nil
  then show ?case by simp
next
  case (Cons c cs)
  obtain now held t1 t2 where ck: "clock i = (now, held, t1, t2)" by (cases "clock i") auto
  define p1 where "p1 = others i p"
  define q where "q = p1\<lparr>pl_states := gm_mod c (\<lambda>st. st\<lparr>bs_RecoverySuccessCount := 0\<rparr>) (pl_states p1)\<rparr>"
  show ?case
  proof (cases "is_disabled now p c")
    case True
    then have "recovery_loop cfg probe clock others others' since i (c # cs) p =
        recovery_loop cfg probe clock others others' since (Suc i) cs p"
      using ck by (simp add: recovery_loop.simps)
    then show ?thesis using Cons.IH [of "Suc i" p] Cons.prems by (simp add: Let_def)
  next
    case False
    show ?thesis
    proof (cases "probe i c")
      case True
      define st where "st = backend_state p1 c"
      define p2 where "p2 = p1\<lparr>pl_states := gm_set c (st\<lparr>bs_RecoverySuccessCount :=
        bs_RecoverySuccessCount st + 1\<rparr>) (pl_states p1)\<rparr>"
      have "pl_active p2 = pl_active p" by (simp add: p2_def p1_def assms(1))
      moreover have "votes p1 c \<le> votes p c" by (simp add: p1_def assms(2))
      ultimately show ?thesis
        using Cons.prems(2) True False ck assms(3)
        by (auto simp: recovery_loop.simps Let_def p1_def [symmetric] st_def [symmetric] p2_def [symmetric] votes_def
            intro!: exI [of _ i] split: if_splits)
    next
      case nb: False
      have run: "recovery_loop cfg probe clock others others' since i (c # cs) p =
          recovery_loop cfg probe clock others others' since (Suc i) cs q"
        using False nb ck by (simp add: recovery_loop.simps Let_def q_def p1_def)
      define b where "b = pl_active (recovery_loop cfg probe clock others others' since (Suc i) cs q)"
      have q: "pl_active q = pl_active p" by (simp add: q_def p1_def assms(1))
      have IH: "b \<in> set cs" "required_successes cfg \<le> votes q b + 1" "\<exists>j. probe j b \<and>
          (since = 0 \<or> cfg_BusinessBackupMinHold cfg \<le> time_sub (fst (snd (clock j))) since)"
        using Cons.IH [of "Suc i" q] Cons.prems run q by (simp_all add: b_def Let_def)
      have "b \<noteq> c" using IH(1) Cons.prems(1) by auto
      then have "votes q b \<le> votes p b" by (simp add: q_def reset_votes p1_def assms(2))
      with IH show ?thesis unfolding run b_def [symmetric] by (simp add: Let_def)
    qed
  qed
qed

text \<open>
  The background check changes the active backend only to one configured before
  it that answered its probe in this run, has with this answer collected the votes the
  configuration asks for, and only after the hold time of the current one. This holds
  whatever other requests do meanwhile, as long as they leave the active backend and add no
  votes.
\<close>

theorem failback_guard:
  assumes "\<forall>j q. pl_active (others j q) = pl_active q \<and> (\<forall>u. votes (others j q) u \<le> votes q u)"
    and "\<forall>j q. pl_active (others' j q) = pl_active q" and "distinct (cfg_BusinessBaseURLs cfg)"
    and "pl_active (checkBusinessRecovery cfg probe clock others others' p) \<noteq> pl_active p"
  shows "\<exists>pre c mid post j. cfg_BusinessBaseURLs cfg = pre @ c # mid @ pl_active p # post \<and>
    pl_active (checkBusinessRecovery cfg probe clock others others' p) = c \<and> probe j c \<and>
    required_successes cfg \<le> votes p c + 1 \<and>
    (pl_since p = 0 \<or> cfg_BusinessBackupMinHold cfg \<le> time_sub (fst (snd (clock j))) (pl_since p))"
proof -
  define cs where "cs = candidates (cfg_BusinessBaseURLs cfg) (pl_active p)"
  have run: "checkBusinessRecovery cfg probe clock others others' p =
      recovery_loop cfg probe clock others others' (pl_since p) 0 cs p"
    using assms(4) by (simp add: checkBusinessRecovery_def cs_def split: if_splits)
  have "distinct cs" using assms(3) by (simp add: cs_def candidates_def)
  then obtain c j where c: "c \<in> set cs" "probe j c"
      "pl_active (checkBusinessRecovery cfg probe clock others others' p) = c"
      "required_successes cfg \<le> votes p c + 1"
      "pl_since p = 0 \<or> cfg_BusinessBackupMinHold cfg \<le> time_sub (fst (snd (clock j))) (pl_since p)"
    using recovery_loop_active [of others others' cs cfg probe clock "pl_since p" 0 p] assms(1,2,4) run
    by (auto simp: Let_def)
  have act: "pl_active p \<in> set (cfg_BusinessBaseURLs cfg)"
    and cs: "cs = takeWhile (\<lambda>u. u \<noteq> pl_active p) (cfg_BusinessBaseURLs cfg)"
    using c(1) by (auto simp: cs_def candidates_def split: if_splits)
  obtain post where "cfg_BusinessBaseURLs cfg = cs @ pl_active p # post"
    using act cs by (metis (mono_tags, lifting) hd_dropWhile list.collapse takeWhile_dropWhile_id
        dropWhile_eq_Nil_conv)
  moreover obtain pre mid where "cs = pre @ c # mid" using c(1) by (meson split_list)
  ultimately have "cfg_BusinessBaseURLs cfg = pre @ c # mid @ pl_active p # post" by simp
  with c show ?thesis by blast
qed

theorem failback_guard_witness:
  "pl_active (checkBusinessRecovery demo_cfg (\<lambda>j u. True) (\<lambda>j. (90, 90, 91, 92)) (\<lambda>j q. q) (\<lambda>j q. q)
     \<lparr>pl_states = [(''a'', no_backend_state\<lparr>bs_RecoverySuccessCount := 1\<rparr>)], pl_active = ''b'',
      pl_since = 30\<rparr>) = ''a'' \<and> required_successes demo_cfg \<le> 2"
proof -
  define p where "p = \<lparr>pl_states = [(''a'', no_backend_state\<lparr>bs_RecoverySuccessCount := 1\<rparr>)],
      pl_active = ''b'', pl_since = 30\<rparr>"
  have run: "pl_active (checkBusinessRecovery demo_cfg (\<lambda>j u. True) (\<lambda>j. (90, 90, 91, 92))
      (\<lambda>j q. q) (\<lambda>j q. q) p) = ''a''" unfolding p_def by code_simp
  have o: "\<forall>j q. pl_active ((\<lambda>j q. q) j q) = pl_active q \<and> (\<forall>u. votes ((\<lambda>j q. q) j q) u \<le> votes q u)"
    "\<forall>j q. pl_active ((\<lambda>j q. q) j q) = pl_active q" by simp_all
  have d: "distinct (cfg_BusinessBaseURLs demo_cfg)" by (simp add: demo_cfg_def)
  have "pl_active p = ''b''" by (simp add: p_def)
  with run have n: "pl_active (checkBusinessRecovery demo_cfg (\<lambda>j u. True) (\<lambda>j. (90, 90, 91, 92))
      (\<lambda>j q. q) (\<lambda>j q. q) p) \<noteq> pl_active p" by simp
  have "votes p ''a'' = 1" by (simp add: p_def votes_def backend_state_def)
  with failback_guard [OF o d n] run have "required_successes demo_cfg \<le> 2" by auto
  with run show ?thesis by (simp add: p_def)
qed

section \<open>Configuration changes\<close>

lemma add_missing_get:
  "gm_get (add_missing us m) u =
     (case gm_get m u of Some st \<Rightarrow> Some st | None \<Rightarrow> if u \<in> set us then Some no_backend_state else None)"
  by (induction us m rule: add_missing.induct) (auto split: option.splits)

lemma map_of_filter_key: "gm_get (filter (\<lambda>e. fst e \<in> A) m) k = (if k \<in> A then gm_get m k else None)"
  by (induction m) auto

text \<open>
  After the list of backends was replaced, the breaker states are those of the new
  list exactly: a backend that stays keeps its state, a new one starts closed, a removed one
  is forgotten, and the active backend is one of the new list or none.
\<close>

theorem sync_domain:
  "(\<forall>u. gm_get (pl_states (syncBusinessBackends urls p)) u =
      (if u \<in> set urls then Some (backend_state p u) else None)) \<and>
   pl_active (syncBusinessBackends urls p) = (if pl_active p \<in> set urls then pl_active p else []) \<and>
   pl_since (syncBusinessBackends urls p) = pl_since p"
  by (auto simp: syncBusinessBackends_def map_of_filter_key add_missing_get backend_state_def
      split: option.splits)

text \<open>
  A refresh of the remote configuration never takes the backends away: it installs
  the fetched list only when one of its backends answers a probe, keeps the gateway addresses
  unless new ones came with it, and otherwise changes nothing.
\<close>

theorem refresh_keeps_service:
  "(let (cfg', p') = refreshOSSConfig x has_key (domains, gateways) send (cfg, p) in
    if has_key \<and> (\<exists>u \<in> set domains. probeBusinessBackend x cfg send u)
    then cfg_BusinessBaseURLs cfg' = domains \<and> p' = syncBusinessBackends domains p \<and>
         businessURLs cfg' now p' \<noteq> [] \<and>
         cfg_GatewayURLs cfg' = (if gateways = [] then cfg_GatewayURLs cfg else gateways)
    else cfg' = cfg \<and> p' = p)"
proof (cases "has_key \<and> (\<exists>u \<in> set domains. probeBusinessBackend x cfg send u)")
  case True
  then have "domains \<noteq> []" by auto
  moreover have "businessURLs cfg' now p' \<noteq> []" if "cfg_BusinessBaseURLs cfg' = domains" for cfg' p'
    using that \<open>domains \<noteq> []\<close> by (simp add: businessURLs_def Let_def)
  ultimately show ?thesis
    using True by (auto simp: refreshOSSConfig_def anyBusinessBackendHealthy_def list_ex_iff Let_def)
next
  case False
  then show ?thesis by (auto simp: refreshOSSConfig_def anyBusinessBackendHealthy_def list_ex_iff)
qed

end
