(* ===== verification/AccountProps.thy ===== *)
theory AccountProps
  imports Samples
begin

text \<open>
  The properties of admission and authorization, over the model's definitions.
\<close>

section \<open>What an admitted device means\<close>

lemma admitted_effect:
  assumes inv: "account_inv s" and run: "admitDevice x cfg key io now r req sn bt s = (Admitted tok d limit n, s')"
    and fresh: "fresh_draws x cfg s s'"
  obtains sec K isNew where
    "admit_secrets x cfg key sn bt (st_rng s) = Some sec" "tok = as_SessionToken sec"
    "admit_effect x cfg sec (d_UserID d) (hashValue x cfg ''device'' (lr_DeviceID req)) limit isNew K
       now (d_ID d) s s'"
    "gm_get (st_Devices s') (d_ID d) = Some d"
    "n = int (card (active_keys (d_UserID d) (st_Devices s'))) "
    "n = int (card (active_keys (d_UserID d) (st_Devices s))) - int (card K) + boolToInt isNew"
  using run inv
proof (cases rule: admitDevice_cases)
  case (granted sec uk s1 user dev isNew K s2 k s3 ok)
  have eff: "admit_effect x cfg sec uk (hashValue x cfg ''device'' (lr_DeviceID req))
      (effectiveLimitLocked cfg user) isNew K now k s s'"
    by (rule admit_granted_effect [OF inv granted(1,2,5,3,6,7,8,9,10,11) fresh])
  then obtain d' where d': "gm_get (st_Devices s') k = Some d'" "d_ID d' = k" "d_UserID d' = uk"
    unfolding admit_effect_def granted_def by blast
  have res: "tok = as_SessionToken sec" "d = d'" "limit = effectiveLimitLocked cfg user"
    "n = int (card (active_keys uk (st_Devices s))) - int (card K) + boolToInt isNew"
    using granted(12) [OF d'(1)] by (auto simp: Let_def split: if_splits)
  show thesis
    by (rule that [of sec isNew K]) (use granted(1) res d' eff admit_effect_count [OF eff] in simp_all)
qed simp_all

text \<open>
  Property C1. The number of active devices that an admission reports is the number of active
  devices the user then has; with a limit, it exceeds neither the limit nor what the user
  had before, and a device that was not active before is admitted within the limit only.
\<close>

theorem admit_within_limit:
  assumes "account_inv s"
    and "admitDevice x cfg key io now r req sn bt s = (Admitted tok d limit n, s')"
    and "fresh_draws x cfg s s'"
  shows "n = int (length (activeDevicesLocked (d_UserID d) s')) \<and>
    (0 < limit \<longrightarrow> n \<le> max limit (int (length (activeDevicesLocked (d_UserID d) s)))) \<and>
    (0 < limit \<and> d_ID d \<notin> fst ` set (activeDevicesLocked (d_UserID d) s) \<longrightarrow> n \<le> limit)"
  using assms
proof (cases rule: admitted_effect)
  case (1 sec K isNew)
  have inv': "account_inv s'" using 1(3) by (simp add: admit_effect_def)
  note tok = account_invD(1) [OF assms(1)] and tok' = account_invD(1) [OF inv']
  have len: "length (activeDevicesLocked (d_UserID d) s) = card (active_keys (d_UserID d) (st_Devices s))"
    "length (activeDevicesLocked (d_UserID d) s') = card (active_keys (d_UserID d) (st_Devices s'))"
    using tok tok' by (simp_all add: length_active tables_okD)
  have new: "isNew \<longleftrightarrow> d_ID d \<notin> active_keys (d_UserID d) (st_Devices s)"
    and room: "isNew \<and> limit > 0 \<longrightarrow>
      int (card (active_keys (d_UserID d) (st_Devices s))) - int (card K) < limit"
    using 1(3) by (simp_all add: admit_effect_def)
  show ?thesis
    using 1(5,6) new room len active_entries_keys [OF tok, of "d_UserID d"]
    by (auto simp: boolToInt_def)
qed

theorem admit_within_limit_witness:
  "\<exists>tok d s'. admitDevice demo_ext demo_kick demo_key SaveOk 5 (demo_request []) (demo_login ''B'') demo_snapshot
        ''b'' demo_store = (Admitted tok d 1 1, s') \<and>
     int (length (activeDevicesLocked ''U'' s')) = 1"
proof -
  obtain tok d s' where r: "admitDevice demo_ext demo_kick demo_key SaveOk 5 (demo_request []) (demo_login ''B'') demo_snapshot
        ''b'' demo_store = (Admitted tok d 1 1, s')"
    "fresh_draws demo_ext demo_kick demo_store s'" "d_UserID d = ''U''" by (rule demo_kick_run)
  from admit_within_limit [OF demo_store_inv r(1,2)] r show ?thesis by auto
qed

text \<open>
  A refused login changes no device, session, index or audit entry; it happens
  only without the \<open>kick_oldest\<close> policy, to a user whose active devices have reached a
  positive limit, and the count it reports is theirs.
\<close>

theorem admit_refusal_frame:
  assumes "account_inv s"
    and "admitDevice x cfg key io now r req sn bt s = (LimitExceeded limit n, s')"
  shows "st_Devices s' = st_Devices s \<and> st_Sessions s' = st_Sessions s \<and>
    st_Audits s' = st_Audits s \<and> st_sessionByTokenHash s' = st_sessionByTokenHash s \<and>
    st_sessionBySubscribeHash s' = st_sessionBySubscribeHash s \<and>
    cfg_DevicePolicy cfg \<noteq> policyKickOldest \<and> 0 < limit \<and> limit \<le> n \<and>
    (\<exists>u. gm_get (st_Users s') (u_ID u) = Some u \<and> limit = effectiveLimitLocked cfg u \<and>
       n = int (length (activeDevicesLocked (u_ID u) s)))"
  using assms(2,1)
proof (cases rule: admitDevice_cases)
  case (refused sec uk s1 user)
  have "length (activeDevicesLocked uk s) = card (active_keys uk (st_Devices s))"
    using account_invD(1) [OF assms(1)] by (simp add: length_active tables_okD)
  then show ?thesis
    using refused upsertUser_frame [OF refused(2)] by auto
next
  case (granted sec uk s1 user dev isNew K s2 k s3 ok)
  obtain e where e: "gm_get (st_Devices s3) k = Some e"
  proof (rule grant_device_some [OF granted(10)])
    fix j b assume "dev = Some (j, b)"
    then have "gm_get (st_Devices s) j = Some b"
      using findDevice_get(1) granted(6) tables_okD(2) [OF account_invD(1) [OF assms(1)]] by metis
    then have "gm_get (st_Devices s1) j \<noteq> None" using upsertUser_frame(1) [OF granted(2)] by simp
    then show "gm_get (st_Devices s2) j \<noteq> None"
      using granted(8) by (auto simp: gate_passed_def revoked_store_def)
  qed (rule that)
  have "st_Devices s' = st_Devices s3" using granted(11) saveLocked_frame(2) [of x io s3] by simp
  with e granted(12) [of e] show ?thesis by (auto simp: Let_def split: if_splits)
qed simp

theorem admit_refusal_frame_witness:
  "\<exists>s'. admitDevice demo_ext demo_cfg demo_key SaveOk 5 (demo_request []) (demo_login ''B'')
        demo_snapshot ''b'' demo_store = (LimitExceeded 1 1, s') \<and>
     st_Devices s' = st_Devices demo_store \<and> st_Sessions s' = st_Sessions demo_store"
proof -
  obtain s' where r: "admitDevice demo_ext demo_cfg demo_key SaveOk 5 (demo_request []) (demo_login ''B'')
        demo_snapshot ''b'' demo_store = (LimitExceeded 1 1, s')" by (rule demo_refuse_run)
  from admit_refusal_frame [OF demo_store_inv r] r show ?thesis by auto
qed

text \<open>
  Property C2. Under \<open>kick_oldest\<close> the devices an admission revokes were seen no later than
  any device of the user it leaves active, carry the mark of the policy, and keep no active
  session.
\<close>

theorem kick_evicts_oldest:
  assumes "account_inv s"
    and "admitDevice x cfg key io now r req sn bt s = (Admitted tok d limit n, s')"
    and "fresh_draws x cfg s s'"
    and "(k, a) \<in> set (activeDevicesLocked (d_UserID d) s)"
    and "k \<notin> fst ` set (activeDevicesLocked (d_UserID d) s')"
  shows "cfg_DevicePolicy cfg = policyKickOldest \<and>
    gm_get (st_Devices s') k = Some (revoked_record ''system:kick_oldest'' now a) \<and>
    (\<forall>(j, b) \<in> set (activeDevicesLocked (d_UserID d) s).
       j \<in> fst ` set (activeDevicesLocked (d_UserID d) s') \<longrightarrow> d_LastSeenAt a \<le> d_LastSeenAt b) \<and>
    (\<forall>(i, ses) \<in> set (st_Sessions s'). s_DeviceID ses = k \<longrightarrow> s_Status ses \<noteq> statusActive)"
  using assms(1-3)
proof (cases rule: admitted_effect)
  case (1 sec K isNew)
  define uid where "uid = d_UserID d"
  have inv': "account_inv s'" using 1(3) by (simp add: admit_effect_def)
  note tok = account_invD(1) [OF assms(1)] and tok' = account_invD(1) [OF inv']
  have eff: "K \<subseteq> active_keys uid (st_Devices s)" "d_ID d \<notin> K"
    "\<And>k'. k' \<noteq> d_ID d \<Longrightarrow> gm_get (st_Devices s') k' =
         (if k' \<in> K then map_option (revoked_record ''system:kick_oldest'' now) (gm_get (st_Devices s) k')
          else gm_get (st_Devices s) k')"
    "K \<noteq> {} \<longrightarrow> isNew \<and> cfg_DevicePolicy cfg = policyKickOldest"
    "isNew \<longleftrightarrow> d_ID d \<notin> active_keys uid (st_Devices s)"
    using 1(3) unfolding admit_effect_def uid_def by (blast | simp)+
  have order: "\<And>i j b c. i \<in> K \<Longrightarrow> j \<in> active_keys uid (st_Devices s) - K \<Longrightarrow>
      gm_get (st_Devices s) i = Some b \<Longrightarrow> gm_get (st_Devices s) j = Some c \<Longrightarrow>
      d_LastSeenAt b \<le> d_LastSeenAt c"
    using 1(3) unfolding admit_effect_def uid_def by blast
  have a: "gm_get (st_Devices s) k = Some a" "is_active_of uid a"
    using active_entry [OF tok assms(4)] by (simp_all add: uid_def)
  have gone: "k \<notin> active_keys uid (st_Devices s')"
    using assms(5) active_entries_keys [OF tok'] by (simp add: uid_def)
  have active_d: "d_ID d \<in> active_keys uid (st_Devices s')"
    using 1(3,4) by (auto simp: admit_effect_def granted_def active_keys_def is_active_of_def uid_def)
  have ne: "k \<noteq> d_ID d" using gone active_d by auto
  have inK: "k \<in> K" using gone a eff(3) [OF ne] by (auto simp: active_keys_def split: if_splits)
  have dev': "gm_get (st_Devices s') k = Some (revoked_record ''system:kick_oldest'' now a)"
    using eff(3) [OF ne] inK a by simp
  have older: "d_LastSeenAt a \<le> d_LastSeenAt b"
    if "(j, b) \<in> set (activeDevicesLocked uid s)" "j \<in> fst ` set (activeDevicesLocked uid s')" for j b
  proof -
    have j: "gm_get (st_Devices s) j = Some b" "is_active_of uid b"
      using active_entry [OF tok that(1)] by simp_all
    have "j \<in> active_keys uid (st_Devices s')" using that(2) active_entries_keys [OF tok'] by simp
    moreover have "j \<noteq> d_ID d" using eff(4,5) inK j by (auto simp: active_keys_def)
    ultimately have "j \<notin> K" using eff(3) [of j] j by (auto simp: active_keys_def)
    with j have "j \<in> active_keys uid (st_Devices s) - K" by (auto simp: active_keys_def)
    from order [OF inK this a(1) j(1)] show ?thesis .
  qed
  have idle: "s_Status ses \<noteq> statusActive" if "(i, ses) \<in> set (st_Sessions s')" "s_DeviceID ses = k" for i ses
  proof
    assume act: "s_Status ses = statusActive"
    have "gm_get (st_Sessions s') i = Some ses" 
      using gm_wf_get [OF tables_okD(3) [OF tok'], of i ses] that(1) by blast
    with account_invD(3) [OF inv'] act have "session_backed (st_Users s') (st_Devices s') ses"
      unfolding sessions_backed_def by simp
    then show False using dev' that(2) by (auto simp: session_backed_def)
  qed
  have "cfg_DevicePolicy cfg = policyKickOldest" using eff(4) inK by blast
  moreover have "\<forall>(j, b) \<in> set (activeDevicesLocked uid s).
      j \<in> fst ` set (activeDevicesLocked uid s') \<longrightarrow> d_LastSeenAt a \<le> d_LastSeenAt b"
    using older by blast
  moreover have "\<forall>(i, ses) \<in> set (st_Sessions s'). s_DeviceID ses = k \<longrightarrow> s_Status ses \<noteq> statusActive"
    using idle by blast
  ultimately show ?thesis using dev' by (simp add: uid_def)
qed

theorem kick_evicts_oldest_witness:
  "\<exists>tok d s'. admitDevice demo_ext demo_kick demo_key SaveOk 5 (demo_request []) (demo_login ''B'') demo_snapshot
        ''b'' demo_store = (Admitted tok d 1 1, s') \<and>
     gm_get (st_Devices s') ''D'' = Some (revoked_record ''system:kick_oldest'' 5 demo_device)"
proof -
  obtain tok d s' where r: "admitDevice demo_ext demo_kick demo_key SaveOk 5 (demo_request []) (demo_login ''B'') demo_snapshot
        ''b'' demo_store = (Admitted tok d 1 1, s')"
    "fresh_draws demo_ext demo_kick demo_store s'" "d_UserID d = ''U''"
    "''D'' \<notin> fst ` set (activeDevicesLocked ''U'' s')" by (rule demo_kick_run)
  have "(''D'', demo_device) \<in> set (activeDevicesLocked (d_UserID d) demo_store)"
    using r(3) by (simp add: activeDevicesLocked_def gm_filter_def demo_store_def is_active_of_def demo_device_def)
  from kick_evicts_oldest [OF demo_store_inv r(1,2) this] r show ?thesis by auto
qed

section \<open>The invariant\<close>

lemma admit_account_inv:
  assumes inv: "account_inv s" and run: "admitDevice x cfg key io now r req sn bt s = (res, s')"
    and fresh: "fresh_draws x cfg s s'"
  shows "account_inv s'"
  using run inv
proof (cases rule: admitDevice_cases)
  case crypto
  then show ?thesis using inv by simp
next
  case (refused sec uk s1 user)
  then show ?thesis by simp
next
  case (granted sec uk s1 user dev isNew K s2 k s3 ok)
  show ?thesis
    using admit_granted_effect [OF inv granted(1,2,5,3,6,7,8,9,10,11) fresh]
    by (simp add: admit_effect_def)
qed

text \<open>
  Whatever its outcome, \<open>admitDevice\<close> keeps the invariant of the account tables: keys
  are IDs, one record per user and device hash, active sessions only on active devices of
  existing users and at most one per device, and both token indexes exact.
\<close>

theorem admit_keeps_invariant:
  assumes "account_inv s" and "fresh_draws x cfg s (snd (admitDevice x cfg key io now r req sn bt s))"
  shows "account_inv (snd (admitDevice x cfg key io now r req sn bt s))"
  using admit_account_inv [OF assms(1) surjective_pairing assms(2)] .

theorem admit_keeps_invariant_witness:
  "account_inv (snd (admitDevice demo_ext demo_kick demo_key SaveOk 5 (demo_request []) (demo_login ''B'') demo_snapshot
        ''b'' demo_store))"
proof (rule admit_keeps_invariant [OF demo_store_inv])
  show "fresh_draws demo_ext demo_kick demo_store (snd (admitDevice demo_ext demo_kick demo_key SaveOk 5 (demo_request []) (demo_login ''B'') demo_snapshot
        ''b'' demo_store))"
    by (rule demo_kick_run) simp
qed

section \<open>From admission to authorization\<close>

text \<open>The section on a session that is in order.\<close>

lemma section_hit:
  assumes inv: "account_inv s" and "sid \<noteq> []" and ses: "gm_get (st_Sessions s) sid = Some ses"
    and "s_Status ses = statusActive" and "now \<le> s_ExpiresAt ses"
    and user: "gm_get (st_Users s) (s_UserID ses) = Some u"
    and dev: "gm_get (st_Devices s) (s_DeviceID ses) = Some d"
  shows "\<exists>d' ses' v s'. session_section x now ip ua (Some sid) s = (SecFound u d' ses' v, s') \<and>
    d_ID d' = d_ID d \<and> s_ID ses' = sid \<and>
    s_BusinessTokenCipher ses' = s_BusinessTokenCipher ses \<and>
    s_SubscribeTokenCipher ses' = s_SubscribeTokenCipher ses"
proof -
  have "session_backed (st_Users s) (st_Devices s) ses"
    using account_invD(3) [OF inv] ses assms(4) unfolding sessions_backed_def by blast
  then have "d_Status d = statusActive" using dev by (auto simp: session_backed_def is_active_of_def)
  moreover have "s_ID ses = sid" using ids_match_get [OF tables_okD(6) [OF account_invD(1) [OF inv]] ses] .
  ultimately show ?thesis using assms by (simp add: session_section_def ex_bool_eq)
qed

lemma saveLocked_ok: "fst (saveLocked x SaveOk s)"
  by (simp add: saveLocked_def Let_def split: option.splits)

lemma decrypt_encrypt:
  assumes aes: "\<forall>n p. length n = 12 \<longrightarrow> x_open x key n (x_seal x key n p) = Some p"
    and "length nonce = 12" and "encryptString x key nonce p = Some c"
  shows "decryptString x key c = Some p"
proof -
  have key: "aes_key_ok key" and c: "c = b64_encode (nonce @ x_seal x key nonce p)"
    using assms(3) by (auto simp: encryptString_def split: if_splits)
  then show ?thesis using aes assms(2) by (simp add: decryptString_def b64_decode_encode)
qed

lemma admitted_authorizes:
  assumes "account_inv s"
    and "admitDevice x cfg key io now r req sn bt s = (Admitted tok d limit n, s')"
    and "fresh_draws x cfg s s'"
    and "\<forall>n p. length n = 12 \<longrightarrow> x_open x key n (x_seal x key n p) = Some p"
    and "\<forall>i. length (x_rand x i 12) = 12" and "hashValue x cfg ''session'' tok \<noteq> []"
    and "now' \<le> now + cfg_SessionTTL cfg"
    and "header_get (rq_Header r') ''Authorization'' = ''Bearer '' @ tok"
  shows "\<exists>ctx s2. authorizeWithReload x cfg key SaveOk now' now'' r' loaded others s' = (Inr ctx, s2) \<and>
    d_ID (ctx_Device ctx) = d_ID d \<and> u_ID (ctx_User ctx) = d_UserID d \<and> ctx_BusinessToken ctx = bt"
  using assms(1-3)
proof (cases rule: admitted_effect)
  case (1 sec K isNew)
  note sh = admit_secrets_shape [OF 1(1)]
  have inv': "account_inv s'" using 1(3) by (simp add: admit_effect_def)
  obtain sid ses where sid: "gm_get (st_Sessions s') sid = Some ses" "s_UserID ses = d_UserID d"
    "s_DeviceID ses = d_ID d" "s_Status ses = statusActive" "s_ExpiresAt ses = now + cfg_SessionTTL cfg"
    "s_BusinessTokenCipher ses = as_BusinessCipher sec"
    "s_SubscribeTokenCipher ses = as_SubscribeCipher sec" "sid \<noteq> []"
    and idx: "as_SessionHash sec \<noteq> [] \<longrightarrow>
      gm_get (st_sessionByTokenHash s') (as_SessionHash sec) = Some sid"
    using 1(3) unfolding admit_effect_def granted_def by blast
  obtain u where u: "gm_get (st_Users s') (d_UserID d) = Some u"
    using 1(3) unfolding admit_effect_def by blast
  have uid: "u_ID u = d_UserID d"
    using ids_match_get [OF tables_okD(4) [OF account_invD(1) [OF inv']] u] .
  have vis: "tok \<noteq> []" "list_all visible_char tok"
    using 1(2) sh(1) hex_encode_visible
    by (auto simp: randomHex_def list_all_iff visible_char_def)
  have tok: "bearerToken x (header_get (rq_Header r') ''Authorization'') = tok"
    using assms(8) bearerToken_visible [OF vis] by simp
  have hash: "hashValue x cfg ''session'' tok = as_SessionHash sec" using 1(2) sh(1,2) by simp
  have bt: "decryptString x key (as_BusinessCipher sec) = Some bt"
    using decrypt_encrypt [OF assms(4) _ sh(5)] assms(5) by auto
  obtain p where st: "decryptString x key (as_SubscribeCipher sec) = Some p"
    using decrypt_encrypt [OF assms(4) _ sh(6)] assms(5) by auto
  obtain d' ses' v s1 where sec:
    "session_section x now' (clientIP x cfg r') (userAgent r') (Some sid) s' = (SecFound u d' ses' v, s1)"
    "d_ID d' = d_ID d" "s_ID ses' = sid" "s_BusinessTokenCipher ses' = as_BusinessCipher sec"
    "s_SubscribeTokenCipher ses' = as_SubscribeCipher sec"
    using section_hit [OF inv' sid(8) sid(1,4), of now' u d x "clientIP x cfg r'" "userAgent r'"]
      sid u assms(7) 1(4) by auto
  obtain s2 where sv: "(if v then saveLocked x SaveOk s1 else (True, s1)) = (True, s2)"
    using saveLocked_ok [of x s1] by (cases v; cases "saveLocked x SaveOk s1") auto
  have "authorize_pass x cfg key SaveOk now' r' tok s' =
      (Some (Inr \<lparr>ctx_User = u, ctx_Device = d', ctx_Session = ses', ctx_BusinessToken = bt,
                  ctx_SubscribeToken = p\<rparr>), s2)"
    using sec idx hash assms(6) bt st sid(8) sv by (simp add: authorize_pass_def)
  then show ?thesis
    using tok vis(1) uid sec(2) by (simp add: authorizeWithReload_def with_reload_def Let_def)
qed

text \<open>
  The round trip of a login: a request that carries the token of an admission as
  \<open>Bearer\<close> within the session's lifetime is authorized as the admitted device and its user,
  and gets back the business token the login stored. AES-GCM is assumed to open what it
  sealed under a nonce of 12 bytes, the random source to fill the nonce, and the hash of
  the token to be non-empty.
\<close>

theorem admit_then_authorize:
  assumes "account_inv s"
    and "admitDevice x cfg key io now r req sn bt s = (Admitted tok d limit n, s')"
    and "fresh_draws x cfg s s'"
    and "\<forall>n p. length n = 12 \<longrightarrow> x_open x key n (x_seal x key n p) = Some p"
    and "\<forall>i. length (x_rand x i 12) = 12" and "hashValue x cfg ''session'' tok \<noteq> []"
    and "now' \<le> now + cfg_SessionTTL cfg"
    and "header_get (rq_Header r') ''Authorization'' = ''Bearer '' @ tok"
  shows "\<exists>ctx s2. authorizeWithReload x cfg key SaveOk now' now'' r' loaded others s' = (Inr ctx, s2) \<and>
    d_ID (ctx_Device ctx) = d_ID d \<and> u_ID (ctx_User ctx) = d_UserID d \<and> ctx_BusinessToken ctx = bt"
  using assms by (rule admitted_authorizes)

theorem admit_then_authorize_witness:
  "\<exists>tok d l n s'. admitDevice demo_ext12 demo_kick demo_key SaveOk 5 (demo_request []) (demo_login ''B'') demo_snapshot
        ''b'' demo_store = (Admitted tok d l n, s') \<and>
     (\<exists>ctx s2. authorizeWithReload demo_ext12 demo_kick demo_key SaveOk 9 9
        (demo_request [(''Authorization'', [''Bearer '' @ tok])]) None (\<lambda>s. s) s' = (Inr ctx, s2) \<and>
        d_ID (ctx_Device ctx) = d_ID d \<and> ctx_BusinessToken ctx = ''b'')"
proof -
  obtain tok d l n s' where r: "admitDevice demo_ext12 demo_kick demo_key SaveOk 5 (demo_request []) (demo_login ''B'') demo_snapshot
        ''b'' demo_store = (Admitted tok d l n, s')"
    "fresh_draws demo_ext12 demo_kick demo_store s'" by (rule demo_kick12_run)
  have x: "\<forall>n p. length n = 12 \<longrightarrow> x_open demo_ext12 demo_key n (x_seal demo_ext12 demo_key n p) = Some p"
    "\<forall>i. length (x_rand demo_ext12 i 12) = 12" "hashValue demo_ext12 demo_kick ''session'' tok \<noteq> []"
    by (simp_all add: demo_ext12_def demo_ext_def hashValue_def hex_encode_def)
  have t: "9 \<le> 5 + cfg_SessionTTL demo_kick" by (simp add: demo_kick_def demo_cfg_def)
  from admit_then_authorize [OF demo_store_inv r x t demo_bearer, of 9 None "\<lambda>s. s"] r show ?thesis by blast
qed

text \<open>
  The loop that makes room under \<open>kick_oldest\<close> ends, and with a free place: for a
  positive limit it revokes a device exactly as often as there are active devices too many,
  however many the user has, and never runs out of devices before the limit is met. Each round
  draws one identifier, for its audit entry.
\<close>

theorem kick_loop_ends:
  fixes uid :: string
  assumes "account_inv s" and "0 < limit"
  defines "n \<equiv> int (length (activeDevicesLocked uid s))"
  shows "\<exists>s'. kick_loop x uid ip ua now limit n (activeDevicesLocked uid s) s = Inr (min n (limit - 1), s') \<and>
    int (st_rng s') = int (st_rng s) + max 0 (n - limit + 1)"
proof -
  note tok = account_invD(1) [OF assms(1)]
  have keys: "distinct (map fst (activeDevicesLocked uid s))"
    using gm_wf_filter [OF tables_okD(2) [OF tok]] by (simp add: activeDevicesLocked_def)
  have ids: "\<forall>e \<in> set (activeDevicesLocked uid s). d_ID (snd e) = fst e"
    using active_entry(3) [OF tok] by simp
  from kick_loop_spec [OF assms(2) refl keys ids tables_okD(3) [OF tok], of x uid ip ua now]
  show ?thesis unfolding n_def by (elim exE conjE) (simp add: max_def min_def split: if_splits)
qed

theorem kick_loop_ends_witness:
  "\<exists>s'. kick_loop demo_ext ''U'' [] [] 5 1 1 (activeDevicesLocked ''U'' demo_store) demo_store = Inr (0, s') \<and>
    int (st_rng s') = int (st_rng demo_store) + 1"
proof -
  have "length (activeDevicesLocked ''U'' demo_store) = 1" by code_simp
  with kick_loop_ends [OF demo_store_inv, where limit = 1 and uid = "''U''"] show ?thesis by simp
qed

end
