(* ===== verification/UserApi.thy ===== *)
theory UserApi
  imports AccountProps
begin

text \<open>
  What the gateway shows of users and devices, and the handlers of a user's own devices
  (\<open>handleUserDevices\<close>, \<open>handleUserDeviceByID\<close>, \<open>handleHeartbeat\<close> of
  \<open>device_gateway/main.go\<close>). A handler that takes the store's lock twice is the composition
  of its two sections; each section alone is a step of the account system.
\<close>

section \<open>Views\<close>

definition publicUser :: "UserCache \<Rightarrow> int \<Rightarrow> int \<Rightarrow> anymap" where
  "publicUser u effectiveLimit activeCount =
     [(''id'', VStr (u_ID u)),
      (''business_user_id'', VStr (u_BusinessUserID u)),
      (''email'', VStr (u_Email u)),
      (''plan_id'', VInt (u_PlanID u)),
      (''plan_name'', VStr (u_PlanName u)),
      (''device_limit'', nullableLimit (valueOrZero (u_DeviceLimit u))),
      (''device_limit_override'', nullableLimit (valueOrZero (u_DeviceLimitOverride u))),
      (''effective_device_limit'', nullableLimit effectiveLimit),
      (''active_device_count'', VInt activeCount),
      (''last_synced_at'', VStr (rfc3339 (u_LastSyncedAt u))),
      (''created_at'', VStr (rfc3339 (u_CreatedAt u))),
      (''updated_at'', VStr (rfc3339 (u_UpdatedAt u)))]"

definition is_online :: "time \<Rightarrow> DeviceRecord \<Rightarrow> bool" where
  "is_online now d = (d_Status d = statusActive \<and> time_sub now (d_LastSeenAt d) < minutes 5)"

definition publicDevice :: "time \<Rightarrow> DeviceRecord \<Rightarrow> string \<Rightarrow> anymap" where
  "publicDevice now d currentDeviceID =
     [(''id'', VStr (d_ID d)),
      (''device_name'', VStr (d_DeviceName d)),
      (''platform'', VStr (d_Platform d)),
      (''app_version'', VStr (d_AppVersion d)),
      (''os_version'', VStr (d_OSVersion d)),
      (''status'', VStr (d_Status d)),
      (''last_seen_at'', VStr (rfc3339 (d_LastSeenAt d))),
      (''created_at'', VStr (rfc3339 (d_CreatedAt d))),
      (''revoked_at'', timePtrString (d_RevokedAt d)),
      (''revoked_by'', VStr (d_RevokedBy d)),
      (''last_ip'', VStr (d_LastIP d)),
      (''last_ip_region'', VStr (d_LastIPRegion d)),
      (''last_ip_isp'', VStr (d_LastIPISP d)),
      (''is_online'', VBool (is_online now d)),
      (''is_current'', VBool (currentDeviceID \<noteq> [] \<and> d_ID d = currentDeviceID))]"

text \<open>The order of device lists: by the printed time of the last visit, newest first.\<close>

definition later_seen :: "anymap \<Rightarrow> anymap \<Rightarrow> bool" where
  "later_seen a b =
     (stringFromAny (any_index b ''last_seen_at'') < stringFromAny (any_index a ''last_seen_at''))"

definition device_items :: "time \<Rightarrow> string \<Rightarrow> (string \<times> DeviceRecord) list \<Rightarrow> any list" where
  "device_items now current ds =
     map VMap (sort_slice later_seen (map (\<lambda>e. publicDevice now (snd e) current) ds))"

definition success :: "anymap \<Rightarrow> any" where
  "success kvs = VMap ((''success'', VBool True) # kvs)"

section \<open>A user's devices\<close>

definition writeUserDevices :: "Config \<Rightarrow> time \<Rightarrow> SessionContext \<Rightarrow> Store \<Rightarrow> Response" where
  "writeUserDevices cfg now ctx s =
     (let devices = devicesForUserLocked (u_ID (ctx_User ctx)) s;
          activeCount = int (length (filter (\<lambda>e. d_Status (snd e) = statusActive) devices))
      in writeJSON 200 (success
           [(''data'', VMap
               [(''devices'', VList (device_items now (d_ID (ctx_Device ctx)) devices)),
                (''active_count'', VInt activeCount),
                (''device_limit'', nullableLimit (effectiveLimitLocked cfg (ctx_User ctx)))])]))"

definition method_not_allowed :: Response where
  "method_not_allowed = writeError 405 ''METHOD_NOT_ALLOWED'' ''Method not allowed'' None"

text \<open>
  The section both revocations share after the device was found: revoke the device and its
  sessions, note it, save.
\<close>

definition revoke_section ::
    "ext \<Rightarrow> Config \<Rightarrow> save_outcome \<Rightarrow> time \<Rightarrow> Request \<Rightarrow> string \<Rightarrow> string \<Rightarrow> string \<Rightarrow> Store
     \<Rightarrow> Response \<times> Store" where
  "revoke_section x cfg io now r actor uid deviceID s =
     (case gm_get (st_Devices s) deviceID of
        None \<Rightarrow> (writeError 404 ''DEVICE_NOT_FOUND'' ''Device not found'' None, s)
      | Some device \<Rightarrow>
          if d_UserID device \<noteq> uid
          then (writeError 404 ''DEVICE_NOT_FOUND'' ''Device not found'' None, s)
          else
            let s1 = revokeDeviceLocked deviceID actor now s;
                s2 = revokeDeviceSessionsLocked (d_ID device) now s1;
                s3 = addAuditLocked x ''device.revoked'' uid (d_ID device) actor (clientIP x cfg r)
                       (userAgent r) None now s2;
                (ok, s4) = saveLocked x io s3
            in (if ok then writeJSON 200 (success [(''message'', VStr ''Device revoked'')])
                else writeError 500 ''STORE_SAVE_FAILED'' ''Failed to save store'' None, s4))"

definition device_id_of_path :: "Config \<Rightarrow> Request \<Rightarrow> string" where
  "device_id_of_path cfg r =
     (case url_unescape False
             (trim_both (trim_prefix (rq_Path r) (cfg_APIPrefix cfg @ ''/user/devices/'')) ''/'') of
        None \<Rightarrow> []
      | Some i \<Rightarrow> i)"

text \<open>\<open>between\<close> is what other requests do to the store between the two sections.\<close>

definition handleUserDeviceByID ::
    "ext \<Rightarrow> Config \<Rightarrow> string \<Rightarrow> save_outcome \<Rightarrow> save_outcome \<Rightarrow> time \<Rightarrow> time \<Rightarrow> time \<Rightarrow> Request
     \<Rightarrow> Snapshot option \<Rightarrow> (Store \<Rightarrow> Store) \<Rightarrow> (Store \<Rightarrow> Store) \<Rightarrow> Store \<Rightarrow> Response \<times> Store" where
  "handleUserDeviceByID x cfg key io io' now now' now'' r loaded others between s =
     (if rq_Method r \<noteq> ''DELETE'' then (method_not_allowed, s)
      else (case requireSession x cfg key io now now' r loaded others s of
              (Inl resp, s1) \<Rightarrow> (resp, s1)
            | (Inr ctx, s1) \<Rightarrow>
                let deviceID = device_id_of_path cfg r in
                if deviceID = []
                then (writeError 400 ''DEVICE_ID_REQUIRED'' ''Device id is required'' None, s1)
                else revoke_section x cfg io' now'' r ''user'' (u_ID (ctx_User ctx)) deviceID
                       (between s1)))"

definition handleHeartbeat ::
    "ext \<Rightarrow> Config \<Rightarrow> string \<Rightarrow> save_outcome \<Rightarrow> time \<Rightarrow> time \<Rightarrow> time \<Rightarrow> Request
     \<Rightarrow> Snapshot option \<Rightarrow> (Store \<Rightarrow> Store) \<Rightarrow> Store \<Rightarrow> Response \<times> Store" where
  "handleHeartbeat x cfg key io now now' now'' r loaded others s =
     (if rq_Method r \<noteq> ''POST'' then (method_not_allowed, s)
      else (case requireSession x cfg key io now now' r loaded others s of
              (Inl resp, s1) \<Rightarrow> (resp, s1)
            | (Inr ctx, s1) \<Rightarrow>
                (writeJSON 200 (success
                   [(''data'', VMap
                       [(''device'', VMap (publicDevice now'' (ctx_Device ctx) (d_ID (ctx_Device ctx)))),
                        (''device_policy'', VStr (cfg_DevicePolicy cfg))])]), s1)))"

section \<open>Revocation\<close>

lemma revoke_section_store:
  assumes "tables_ok s" and "revoke_section x cfg io now r actor uid k s = (resp, s')"
  shows "(rs_Status resp = 404 \<and> s' = s) \<or>
    (\<exists>d. gm_get (st_Devices s) k = Some d \<and> d_UserID d = uid \<and> revoked_store actor {k} now s s' \<and>
         rs_Status resp \<in> {200, 500})"
proof (cases "gm_get (st_Devices s) k")
  case None
  then show ?thesis using assms(2) by (auto simp: revoke_section_def)
next
  case (Some d)
  have id: "d_ID d = k" using ids_match_get [OF tables_okD(5) [OF assms(1)] Some] .
  show ?thesis
  proof (cases "d_UserID d = uid")
    case False
    then show ?thesis using assms(2) Some by (auto simp: revoke_section_def)
  next
    case True
    define s3 where "s3 = addAuditLocked x ''device.revoked'' uid k actor (clientIP x cfg r)
        (userAgent r) None now (revokeDeviceSessionsLocked k now (revokeDeviceLocked k actor now s))"
    obtain ok s4 where sv: "saveLocked x io s3 = (ok, s4)" by (cases "saveLocked x io s3")
    have "resp = (if ok then writeJSON 200 (success [(''message'', VStr ''Device revoked'')])
        else writeError 500 ''STORE_SAVE_FAILED'' ''Failed to save store'' None)" "s' = s4"
      using assms(2) Some True sv id by (simp_all add: revoke_section_def Let_def s3_def)
    moreover have "revoked_store actor {k} now s s3"
      using revoke_both_store [OF assms(1), of actor k now] by (simp add: revoked_store_def s3_def)
    then have "revoked_store actor {k} now s s4"
      using saveLocked_frame [of x io s3] sv by (simp add: revoked_store_def)
    ultimately show ?thesis using Some True by (auto split: if_splits)
  qed
qed

lemma revoke_section_inv:
  assumes "account_inv s"
  shows "account_inv (snd (revoke_section x cfg io now r actor uid k s))"
proof -
  obtain resp s' where r: "revoke_section x cfg io now r actor uid k s = (resp, s')"
    by (cases "revoke_section x cfg io now r actor uid k s")
  show ?thesis
    using revoke_section_store [OF account_invD(1) [OF assms] r] revoked_store_inv [OF assms] assms r
    by auto
qed

end
