(* ===== verification/ServiceStatus.thy ===== *)
theory ServiceStatus
  imports BackendProps UserApi
begin

text \<open>
  The status report on the business backends: one probe per backend, its classification, the
  masking of addresses for ordinary users, and the handler \<open>handleServiceStatus\<close>.
\<close>

section \<open>Masking\<close>

text \<open>\<open>maskEndpointPort\<close>; the labels of a host name are masked the same way.\<close>

definition maskEndpointPort :: "string \<Rightarrow> string" where
  "maskEndpointPort port =
     (if length port = 0 then ''*''
      else if length port = 1 then ''*''
      else if length port = 2 then take 1 port @ ''*''
      else take 1 port @ replicate (length port - 2) CHR ''*'' @ drop (length port - 1) port)"

definition maskEndpointHost :: "ext \<Rightarrow> string \<Rightarrow> string" where
  "maskEndpointHost x host =
     (case x_parse_ip x host of
        Some ip \<Rightarrow>
          (case ip_to4 ip of
             Some q \<Rightarrow> nat_digits (q ! 0) @ ''.***.***.'' @ nat_digits (q ! 3)
           | None \<Rightarrow> ''[redacted-ipv6]'')
      | None \<Rightarrow> join_with ''.'' (map maskEndpointPort (split_on CHR ''.'' host)))"

text \<open>
  \<open>URL.Hostname\<close> and \<open>URL.Port\<close> of \<open>net/url\<close>: the part after the last colon is a port when
  it has digits only; the brackets of an IPv6 address are dropped.
\<close>

fun last_colon :: "string \<Rightarrow> (string \<times> string) option" where
  "last_colon [] = None"
| "last_colon (c # cs) =
     (case last_colon cs of
        Some (a, b) \<Rightarrow> Some (c # a, b)
      | None \<Rightarrow> if c = CHR '':'' then Some ([], cs) else None)"

definition host_and_port :: "string \<Rightarrow> string \<times> string" where
  "host_and_port hp =
     (let (h, p) = (case last_colon hp of
                      Some (a, b) \<Rightarrow> if list_all is_digit b then (a, b) else (hp, [])
                    | None \<Rightarrow> (hp, []))
      in (if has_prefix h ''['' \<and> has_suffix h '']'' then butlast (drop 1 h) else h, p))"

definition maskEndpointAddress :: "ext \<Rightarrow> string \<Rightarrow> string" where
  "maskEndpointAddress x raw0 =
     (let raw = trim_space raw0 in
      if raw = [] then []
      else
        let hasScheme = contains_str raw ''://'' in
        (case x_url_parse x (if hasScheme then raw else ''https://'' @ raw) of
           None \<Rightarrow> ''[redacted-endpoint]''
         | Some u \<Rightarrow>
             let (host, port) = host_and_port (pu_Host u) in
             if host = [] then ''[redacted-endpoint]''
             else (if hasScheme then pu_Scheme u @ ''://'' else []) @ maskEndpointHost x host @
                  (if port \<noteq> [] then '':'' @ maskEndpointPort port else [])))"

section \<open>Probes\<close>

definition probeBusinessBackendStatus ::
    "ext \<Rightarrow> Config \<Rightarrow> (breq \<Rightarrow> net_reply \<times> int) \<Rightarrow> string \<Rightarrow> string \<times> int \<times> int \<times> string" where
  "probeBusinessBackendStatus x cfg send u =
     (case probe_request x cfg u of
        None \<Rightarrow> (''unreachable'', 0, 0, ''configuration'')
      | Some req \<Rightarrow>
          let (rep, latency) = send req in
          (case rep of
             NetTimeout \<Rightarrow> (''timeout'', latency, 0, ''timeout'')
           | NetError \<Rightarrow> (''unreachable'', latency, 0, ''connection'')
           | NetReply code h b \<Rightarrow>
               if 200 \<le> code \<and> code < 300 then (''healthy'', latency, code, [])
               else if code \<ge> 500 then (''service_error'', latency, code, ''server'')
               else (''unavailable'', latency, code, ''http'')))"

record BusinessServiceStatus =
  ss_Index :: int
  ss_Role :: string
  ss_Address :: string
  ss_Active :: bool
  ss_Status :: string
  ss_LatencyMS :: int
  ss_StatusCode :: int
  ss_FailureReason :: string
  ss_FailureCount :: int
  ss_RecoverySuccessCount :: int
  ss_RecoveryRequired :: int
  ss_CircuitRemainingSeconds :: int
  ss_LastSuccessAt :: string
  ss_LastFailureAt :: string
  ss_CheckedAt :: string

text \<open>
  The item of one backend. \<open>t_left\<close> is the clock reading of \<open>time.Until\<close>, \<open>t_check\<close> the one
  of \<open>CheckedAt\<close>. The seconds left are the whole seconds of the duration.
\<close>

definition refine_status ::
    "time \<Rightarrow> string \<Rightarrow> string \<Rightarrow> BusinessBackendState \<Rightarrow> string \<Rightarrow> string" where
  "refine_status now active u st status =
     (let opened = (bs_DisabledUntil st \<noteq> 0 \<and> now < bs_DisabledUntil st) in
      if status = ''healthy'' \<and> opened then ''recovering''
      else if status = ''healthy'' \<and> bs_RecoverySuccessCount st > 0 \<and> u \<noteq> active then ''recovering''
      else if status \<noteq> ''healthy'' \<and> opened then ''circuit_open''
      else status)"

definition circuit_remaining :: "time \<Rightarrow> time \<Rightarrow> BusinessBackendState \<Rightarrow> int" where
  "circuit_remaining now t_left st =
     (if now < bs_DisabledUntil st
      then (let r = go_div (time_sub (bs_DisabledUntil st) t_left) 1000000000
            in if r < 1 then 1 else r)
      else 0)"

definition time_or_empty :: "time \<Rightarrow> string" where
  "time_or_empty t = (if t = 0 then [] else rfc3339 t)"

definition status_item ::
    "ext \<Rightarrow> Config \<Rightarrow> bool \<Rightarrow> time \<Rightarrow> string \<Rightarrow> BackendPool \<Rightarrow> (nat \<Rightarrow> breq \<Rightarrow> net_reply \<times> int)
     \<Rightarrow> (nat \<Rightarrow> time \<times> time) \<Rightarrow> nat \<Rightarrow> string \<Rightarrow> BusinessServiceStatus" where
  "status_item x cfg maskAddress now active p send clock i u =
     (let st = backend_state p u;
          (status, latency, code, reason) = probeBusinessBackendStatus x cfg (send i) u
      in \<lparr>ss_Index = int i + 1, ss_Role = (if i = 0 then ''primary'' else ''backup''),
          ss_Address = (if maskAddress then maskEndpointAddress x u else u),
          ss_Active = (u = active), ss_Status = refine_status now active u st status,
          ss_LatencyMS = latency, ss_StatusCode = code, ss_FailureReason = reason,
          ss_FailureCount = bs_FailureCount st,
          ss_RecoverySuccessCount = bs_RecoverySuccessCount st,
          ss_RecoveryRequired = required_successes cfg,
          ss_CircuitRemainingSeconds = circuit_remaining now (fst (clock i)) st,
          ss_LastSuccessAt = time_or_empty (bs_LastSuccessAt st),
          ss_LastFailureAt = time_or_empty (bs_LastFailureAt st),
          ss_CheckedAt = rfc3339 (snd (clock i))\<rparr>)"

text \<open>
  The goroutines deliver their items in any order: \<open>arrivals\<close> is the order of the indices.
\<close>

definition businessServiceStatusesWithAddress ::
    "ext \<Rightarrow> Config \<Rightarrow> bool \<Rightarrow> time \<Rightarrow> BackendPool \<Rightarrow> (nat \<Rightarrow> breq \<Rightarrow> net_reply \<times> int)
     \<Rightarrow> (nat \<Rightarrow> time \<times> time) \<Rightarrow> nat list \<Rightarrow> BusinessServiceStatus list" where
  "businessServiceStatusesWithAddress x cfg maskAddress now p send clock arrivals =
     (let configured = cfg_BusinessBaseURLs cfg;
          active = (if pl_active p = [] \<and> configured \<noteq> [] then hd configured else pl_active p)
      in sort_slice (\<lambda>a b. ss_Index a < ss_Index b)
           (map (\<lambda>i. status_item x cfg maskAddress now active p send clock i (configured ! i)) arrivals))"

definition businessServiceStatuses ::
    "ext \<Rightarrow> Config \<Rightarrow> time \<Rightarrow> BackendPool \<Rightarrow> (nat \<Rightarrow> breq \<Rightarrow> net_reply \<times> int) \<Rightarrow> (nat \<Rightarrow> time \<times> time)
     \<Rightarrow> nat list \<Rightarrow> BusinessServiceStatus list" where
  "businessServiceStatuses x cfg = businessServiceStatusesWithAddress x cfg True"

definition adminBusinessServiceStatuses ::
    "ext \<Rightarrow> Config \<Rightarrow> time \<Rightarrow> BackendPool \<Rightarrow> (nat \<Rightarrow> breq \<Rightarrow> net_reply \<times> int) \<Rightarrow> (nat \<Rightarrow> time \<times> time)
     \<Rightarrow> nat list \<Rightarrow> BusinessServiceStatus list" where
  "adminBusinessServiceStatuses x cfg = businessServiceStatusesWithAddress x cfg False"

text \<open>The JSON of an item, with the fields that are omitted when empty.\<close>

definition status_json :: "BusinessServiceStatus \<Rightarrow> any" where
  "status_json s = VMap
     ([(''index'', VInt (ss_Index s)), (''role'', VStr (ss_Role s)), (''address'', VStr (ss_Address s)),
       (''active'', VBool (ss_Active s)), (''status'', VStr (ss_Status s)),
       (''latency_ms'', VInt (ss_LatencyMS s))] @
      (if ss_StatusCode s = 0 then [] else [(''status_code'', VInt (ss_StatusCode s))]) @
      (if ss_FailureReason s = [] then [] else [(''failure_reason'', VStr (ss_FailureReason s))]) @
      [(''failure_count'', VInt (ss_FailureCount s)),
       (''recovery_success_count'', VInt (ss_RecoverySuccessCount s)),
       (''recovery_required'', VInt (ss_RecoveryRequired s))] @
      (if ss_CircuitRemainingSeconds s = 0 then []
       else [(''circuit_remaining_seconds'', VInt (ss_CircuitRemainingSeconds s))]) @
      (if ss_LastSuccessAt s = [] then [] else [(''last_success_at'', VStr (ss_LastSuccessAt s))]) @
      (if ss_LastFailureAt s = [] then [] else [(''last_failure_at'', VStr (ss_LastFailureAt s))]) @
      [(''checked_at'', VStr (ss_CheckedAt s))])"

text \<open>
  \<open>handleServiceStatus\<close> after its session check: \<open>pool\<close> is the pool when the statuses are
  collected, \<open>t_now\<close> the reading for the reply.
\<close>

definition service_status_reply ::
    "ext \<Rightarrow> Config \<Rightarrow> Request \<Rightarrow> time \<Rightarrow> BusinessServiceStatus list \<Rightarrow> Response" where
  "service_status_reply x cfg r t_now statuses =
     writeJSON 200 (success
       [(''data'', VMap
          [(''checked_at'', VStr (rfc3339 t_now)),
           (''source_gateway'', VStr (maskEndpointAddress x (publicBaseURL cfg r))),
           (''healthy_count'',
              VInt (int (length (filter (\<lambda>s. ss_Status s \<in> {''healthy'', ''recovering''}) statuses)))),
           (''total_count'', VInt (int (length statuses))),
           (''backends'', VList (map status_json statuses))])])"

definition handleServiceStatus ::
    "ext \<Rightarrow> Config \<Rightarrow> string \<Rightarrow> save_outcome \<Rightarrow> time \<Rightarrow> time \<Rightarrow> time \<Rightarrow> time \<Rightarrow> Request \<Rightarrow> Snapshot option
     \<Rightarrow> (Store \<Rightarrow> Store) \<Rightarrow> BackendPool \<Rightarrow> (nat \<Rightarrow> breq \<Rightarrow> net_reply \<times> int) \<Rightarrow> (nat \<Rightarrow> time \<times> time) \<Rightarrow> nat list
     \<Rightarrow> Store \<Rightarrow> Response \<times> Store" where
  "handleServiceStatus x cfg key io now now' t_pool t_now r loaded others p send clock arrivals s =
     (if rq_Method r \<noteq> ''GET'' then (method_not_allowed, s)
      else
        let (auth, s1) = requireSession x cfg key io now now' r loaded others s in
        (case auth of
           Inl resp \<Rightarrow> (resp, s1)
         | Inr ctx \<Rightarrow>
             (service_status_reply x cfg r t_now
                (businessServiceStatuses x cfg t_pool p send clock arrivals), s1)))"

section \<open>What a masked address reveals\<close>

text \<open>The shape of a label: its length, its first byte, and its last one when it has three or more.\<close>

definition same_shape :: "string \<Rightarrow> string \<Rightarrow> bool" where
  "same_shape a b =
     (length a = length b \<and> (2 \<le> length a \<longrightarrow> hd a = hd b) \<and> (3 \<le> length a \<longrightarrow> last a = last b))"

lemma drop_to_last: "xs \<noteq> [] \<Longrightarrow> drop (length xs - 1) xs = [last xs]"
  by (cases xs rule: rev_cases) auto

lemma take_1_hd: "xs \<noteq> [] \<Longrightarrow> take 1 xs = [hd xs]"
  by (cases xs) auto

lemma mask_same_shape:
  assumes "same_shape a b"
  shows "maskEndpointPort a = maskEndpointPort b"
proof (cases "length a \<le> 1")
  case True
  then have "length a = 0 \<or> length a = 1" by linarith
  with assms show ?thesis by (auto simp: maskEndpointPort_def same_shape_def)
next
  case False
  then have ne: "a \<noteq> []" "b \<noteq> []" using assms by (auto simp: same_shape_def)
  then have "take 1 a = take 1 b"
    unfolding take_1_hd [OF ne(1)] take_1_hd [OF ne(2)] using assms False by (simp add: same_shape_def)
  moreover have "3 \<le> length a \<Longrightarrow> drop (length a - 1) a = drop (length b - 1) b"
    unfolding drop_to_last [OF ne(1)] drop_to_last [OF ne(2)] using assms by (simp add: same_shape_def)
  ultimately show ?thesis
    using assms False by (auto simp: maskEndpointPort_def same_shape_def)
qed

text \<open>
  Masking hides what it should: two host names with the same number of labels whose
  labels agree in length and in their outer bytes have the same masked form, two IPv4
  addresses with the same outer octets have, and so have any two other IP addresses.
\<close>

theorem mask_hides:
  assumes "(case (x_parse_ip x h, x_parse_ip x h') of
      (None, None) \<Rightarrow> list_all2 same_shape (split_on CHR ''.'' h) (split_on CHR ''.'' h')
    | (Some a, Some b) \<Rightarrow>
        (case (ip_to4 a, ip_to4 b) of
           (Some q, Some q') \<Rightarrow> q ! 0 = q' ! 0 \<and> q ! 3 = q' ! 3
         | (None, None) \<Rightarrow> True | _ \<Rightarrow> False)
    | _ \<Rightarrow> False)"
  shows "maskEndpointHost x h = maskEndpointHost x h'"
proof -
  have "map maskEndpointPort xs = map maskEndpointPort ys" if "list_all2 same_shape xs ys" for xs ys
    using that by (induction rule: list_all2_induct) (auto simp: mask_same_shape)
  with assms show ?thesis by (auto simp: maskEndpointHost_def split: option.splits)
qed

theorem mask_hides_witness:
  "maskEndpointHost demo_ext ''api.secret.com'' = maskEndpointHost demo_ext ''axi.sxxxxt.cxm''"
  by (rule mask_hides) (simp add: demo_ext_def same_shape_def)

section \<open>The report is in configured order\<close>

text \<open>
  The report lists every configured backend once, in configured order with its own
  probe, whatever the order in which the probes finish; exactly one is the primary, and at
  most those equal to the active URL are marked active.
\<close>

theorem statuses_in_order:
  assumes "mset arrivals = mset [0..<length (cfg_BusinessBaseURLs cfg)]"
  shows "let conf = cfg_BusinessBaseURLs cfg;
             active = (if pl_active p = [] \<and> conf \<noteq> [] then hd conf else pl_active p);
             sts = businessServiceStatusesWithAddress x cfg masked now p send clock arrivals
    in sts = map (\<lambda>i. status_item x cfg masked now active p send clock i (conf ! i)) [0..<length conf] \<and>
       map ss_Index sts = map (\<lambda>i. int i + 1) [0..<length conf] \<and>
       map ss_Active sts = map (\<lambda>u. u = active) conf"
proof -
  define conf where "conf = cfg_BusinessBaseURLs cfg"
  define active where "active = (if pl_active p = [] \<and> conf \<noteq> [] then hd conf else pl_active p)"
  define item where "item = (\<lambda>i. status_item x cfg masked now active p send clock i (conf ! i))"
  have idx: "ss_Index (item i) = int i + 1" "ss_Active (item i) = (conf ! i = active)" for i
    by (simp_all add: item_def status_item_def Let_def split_beta)
  have "sort_slice (\<lambda>a b. ss_Index a < ss_Index b) (map item arrivals) = map item [0..<length conf]"
  proof (rule sort_slice_unique)
    show "mset (map item arrivals) = mset (map item [0..<length conf])"
      using assms by (simp add: conf_def)
    show "sorted (map ss_Index (map item [0..<length conf]))"
      by (simp add: idx sorted_iff_nth_mono)
    show "distinct (map ss_Index (map item [0..<length conf]))"
      by (simp add: idx distinct_map inj_on_def)
  qed
  then have s: "businessServiceStatusesWithAddress x cfg masked now p send clock arrivals =
      map item [0..<length conf]"
    unfolding businessServiceStatusesWithAddress_def Let_def conf_def [symmetric] active_def [symmetric]
      item_def [symmetric] .
  have "map ss_Active (map item [0..<length conf]) = map (\<lambda>u. u = active) (map ((!) conf) [0..<length conf])"
    by (simp add: idx)
  then show ?thesis
    using s by (simp add: Let_def conf_def [symmetric] active_def [symmetric] item_def [symmetric] idx map_nth)
qed

theorem statuses_in_order_witness:
  "map ss_Active (businessServiceStatusesWithAddress demo_ext demo_cfg True 7 no_pool
     (\<lambda>i req. (NetError, 3)) (\<lambda>i. (8, 9)) [1, 0]) = [True, False]"
proof -
  have "mset [1, 0] = mset [0..<length (cfg_BusinessBaseURLs demo_cfg)]" by (simp add: demo_cfg_def)
  from statuses_in_order [OF this, of no_pool demo_ext True 7 "\<lambda>i req. (NetError, 3)" "\<lambda>i. (8, 9)"]
  have "map ss_Active (businessServiceStatusesWithAddress demo_ext demo_cfg True 7 no_pool
      (\<lambda>i req. (NetError, 3)) (\<lambda>i. (8, 9)) [1, 0]) =
    map (\<lambda>u. u = (if pl_active no_pool = [] \<and> cfg_BusinessBaseURLs demo_cfg \<noteq> []
               then hd (cfg_BusinessBaseURLs demo_cfg) else pl_active no_pool)) (cfg_BusinessBaseURLs demo_cfg)"
    unfolding Let_def by blast
  then show ?thesis by (rule trans) (simp add: demo_cfg_def no_pool_def)
qed

end
