(* ===== verification/Business.thy ===== *)
theory Business
  imports ServiceStatus
begin

text \<open>
  The gateway as a client of the business backend: logging a user in, fetching and parsing the
  subscription, rewriting a subscription response so that it points back to the gateway, and
  finding the URL of a subscription.
\<close>

section \<open>Calls\<close>

text \<open>
  What a call of \<open>tryBusinessURLs\<close> meets: the clock when the order of the backends is
  computed, the replies, the clock readings of the bookkeeping, and what other requests do to
  the pool meanwhile.
\<close>

record Call =
  ca_now :: time
  ca_send :: "nat \<Rightarrow> breq \<Rightarrow> net_reply"
  ca_clock :: "nat \<Rightarrow> time \<times> time"
  ca_others :: "nat \<Rightarrow> BackendPool \<Rightarrow> BackendPool"

definition try_call :: "Config \<Rightarrow> Call \<Rightarrow> (string \<Rightarrow> breq option) \<Rightarrow> BackendPool \<Rightarrow> try_result" where
  "try_call cfg c mk p = tryBusinessURLs cfg (ca_now c) mk (ca_send c) (ca_clock c) (ca_others c) p"

text \<open>\<open>json.Unmarshal\<close> into a \<open>map[string]any\<close>: an object, or \<open>null\<close> for a nil map.\<close>

definition json_map :: "ext \<Rightarrow> string \<Rightarrow> anymap option" where
  "json_map x b =
     (case x_json_parse x b of Some (VMap m) \<Rightarrow> Some m | Some VNil \<Rightarrow> Some [] | _ \<Rightarrow> None)"

section \<open>Login at the backend\<close>

definition extractBusinessToken :: "anymap \<Rightarrow> string" where
  "extractBusinessToken payload =
     (let outer = (let t = stringFromAny (any_index payload ''auth_data'')
                   in if t \<noteq> [] then t else stringFromAny (any_index payload ''token''))
      in case mapFromAny (any_index payload ''data'') of
           None \<Rightarrow> outer
         | Some data \<Rightarrow>
             if stringFromAny (any_index data ''auth_data'') \<noteq> []
             then stringFromAny (any_index data ''auth_data'')
             else if stringFromAny (any_index data ''token'') \<noteq> []
             then stringFromAny (any_index data ''token'')
             else outer)"

definition login_request :: "ext \<Rightarrow> Config \<Rightarrow> string \<Rightarrow> string \<Rightarrow> string \<Rightarrow> breq option" where
  "login_request x cfg email password u =
     (case businessURLFor x u (cfg_APIPrefix cfg @ ''/passport/auth/login'') [] of
        None \<Rightarrow> None
      | Some target \<Rightarrow>
          new_request x ''POST'' target
            [(''Content-Type'', [''application/json'']), (''Accept'', [''application/json''])]
            (case x_json_text x (VMap [(''email'', VStr email), (''password'', VStr password)]) of
               None \<Rightarrow> [] | Some raw \<Rightarrow> raw))"

text \<open>\<open>LoginHTTP\<close> is a \<open>businessHTTPError\<close>: the status, body and content type to pass on.\<close>

datatype login_error = LoginHTTP int string string | LoginPlain

definition login_answer ::
    "ext \<Rightarrow> try_error + int \<times> header \<times> string option \<Rightarrow> login_error + string \<times> anymap" where
  "login_answer x answer =
     (case answer of
        Inl _ \<Rightarrow> Inl LoginPlain
      | Inr (code, h, None) \<Rightarrow> Inl LoginPlain
      | Inr (code, h, Some b) \<Rightarrow>
          let ct = header_get h ''Content-Type'' in
          if code \<ge> 500 \<and> \<not> contains_str ct ''json'' then Inl LoginPlain
          else if code < 200 \<or> code \<ge> 300 then Inl (LoginHTTP code b ct)
          else (case json_map x b of
                  None \<Rightarrow> Inl LoginPlain
                | Some payload \<Rightarrow>
                    if any_index payload ''success'' = VBool False then Inl (LoginHTTP code b ct)
                    else let token = extractBusinessToken payload in
                         if token = [] then Inl LoginPlain else Inr (token, payload)))"

definition businessLogin ::
    "ext \<Rightarrow> Config \<Rightarrow> Call \<Rightarrow> string \<Rightarrow> string \<Rightarrow> BackendPool \<Rightarrow> (login_error + string \<times> anymap) \<times> BackendPool" where
  "businessLogin x cfg c email password p =
     (let r = try_call cfg c (login_request x cfg email password) p
      in (login_answer x (tr_Answer r), tr_Pool r))"

section \<open>The subscription\<close>

definition subscriptionDeviceLimit :: "ext \<Rightarrow> anymap \<Rightarrow> anymap option \<Rightarrow> int option \<times> bool" where
  "subscriptionDeviceLimit x data plan =
     (case gm_get data ''device_limit'' of
        Some v \<Rightarrow> (intPtrFromAny (x_float_to_int x) v, True)
      | None \<Rightarrow>
          (case plan of
             None \<Rightarrow> (None, False)
           | Some pl \<Rightarrow>
               (case gm_get pl ''device_limit'' of
                  Some v \<Rightarrow> (intPtrFromAny (x_float_to_int x) v, True)
                | None \<Rightarrow> (None, False))))"

definition parseSubscriptionSnapshot :: "ext \<Rightarrow> string \<Rightarrow> SubscriptionSnapshot option" where
  "parseSubscriptionSnapshot x b =
     (case json_map x b of
        None \<Rightarrow> None
      | Some payload \<Rightarrow>
          (case mapFromAny (any_index payload ''data'') of
             None \<Rightarrow> None
           | Some data \<Rightarrow>
               let plan = mapFromAny (any_index data ''plan'');
                   (limit, limitSet) = subscriptionDeviceLimit x data plan;
                   pid = intFromAny (x_float_to_int x) (any_index data ''plan_id'')
               in Some \<lparr>sn_Email = stringFromAny (any_index data ''email''),
                        sn_UUID = stringFromAny (any_index data ''uuid''),
                        sn_PlanID = (case plan of
                           None \<Rightarrow> pid
                         | Some pl \<Rightarrow> if pid = 0 then intFromAny (x_float_to_int x) (any_index pl ''id'') else pid),
                        sn_PlanName = (case plan of None \<Rightarrow> [] | Some pl \<Rightarrow> stringFromAny (any_index pl ''name'')),
                        sn_DeviceLimit = limit, sn_DeviceLimitSet = limitSet,
                        sn_SubscribeURL = stringFromAny (any_index data ''subscribe_url''),
                        sn_SubscribeToken = stringFromAny (any_index data ''token'')\<rparr>))"

definition subscription_request :: "ext \<Rightarrow> Config \<Rightarrow> string \<Rightarrow> string \<Rightarrow> breq option" where
  "subscription_request x cfg businessToken u =
     (case businessURLFor x u (cfg_APIPrefix cfg @ ''/user/getSubscribe'') [] of
        None \<Rightarrow> None
      | Some target \<Rightarrow>
          new_request x ''GET'' target
            [(''Accept'', [''application/json'']), (''Authorization'', [businessToken])] [])"

text \<open>Every error of \<open>fetchSubscriptionSnapshot\<close> is \<open>None\<close>: its callers do not tell them apart.\<close>

definition fetchSubscriptionSnapshot ::
    "ext \<Rightarrow> Config \<Rightarrow> Call \<Rightarrow> string \<Rightarrow> BackendPool \<Rightarrow> SubscriptionSnapshot option \<times> BackendPool" where
  "fetchSubscriptionSnapshot x cfg c businessToken p =
     (let r = try_call cfg c (subscription_request x cfg businessToken) p
      in (case tr_Answer r of
            Inr (code, h, Some b) \<Rightarrow>
              if 200 \<le> code \<and> code < 300 then parseSubscriptionSnapshot x b else None
          | _ \<Rightarrow> None, tr_Pool r))"

section \<open>URLs of a subscription\<close>

definition absoluteBusinessURL :: "ext \<Rightarrow> Config \<Rightarrow> time \<Rightarrow> BackendPool \<Rightarrow> string \<Rightarrow> string option" where
  "absoluteBusinessURL x cfg now p rawURL =
     (case x_url_parse x rawURL of
        None \<Rightarrow> None
      | Some parsed \<Rightarrow>
          if pu_Scheme parsed \<noteq> [] then Some (x_url_string x parsed)
          else (case x_url_parse x (businessBaseURL cfg now p) of
                  None \<Rightarrow> None
                | Some base \<Rightarrow>
                    Some (x_url_string x (base\<lparr>pu_Path := joinURLPath (pu_Path base) (pu_Path parsed),
                                               pu_RawQuery := pu_RawQuery parsed\<rparr>))))"

definition gatewaySubscribeURL :: "ext \<Rightarrow> Config \<Rightarrow> Request \<Rightarrow> string \<Rightarrow> string" where
  "gatewaySubscribeURL x cfg r token =
     (case x_url_parse x (publicBaseURL cfg r) of
        None \<Rightarrow> []
      | Some u \<Rightarrow>
          x_url_string x
            (u\<lparr>pu_Path := joinURLPath (pu_Path u) (cfg_APIPrefix cfg @ ''/client/subscribe''),
               pu_RawQuery := encode_query (gm_set ''token'' [token] (parse_query (pu_RawQuery u)))\<rparr>))"

text \<open>The section that stores the encrypted URL with the session; its save error is ignored.\<close>

definition remember_sub_url :: "ext \<Rightarrow> save_outcome \<Rightarrow> string \<Rightarrow> string \<Rightarrow> Store \<Rightarrow> Store" where
  "remember_sub_url x io sid cipher s =
     (case gm_get (st_Sessions s) sid of
        None \<Rightarrow> s
      | Some ses \<Rightarrow>
          snd (saveLocked x io (markSessionLocked (s_ID ses)
            (s\<lparr>st_Sessions := gm_mod sid (\<lambda>b. b\<lparr>s_BusinessSubURLCipher := cipher\<rparr>) (st_Sessions s)\<rparr>))))"

text \<open>
  \<open>businessSubscribeURL\<close>: the stored URL, or one fetched from the backend. \<open>t_url\<close> is the
  clock for the base of a relative URL; \<open>s\<close> is the store when the section is entered.
\<close>

definition businessSubscribeURL ::
    "ext \<Rightarrow> Config \<Rightarrow> string \<Rightarrow> save_outcome \<Rightarrow> Call \<Rightarrow> time \<Rightarrow> SessionContext \<Rightarrow> BackendPool \<Rightarrow> Store
     \<Rightarrow> string option \<times> BackendPool \<times> Store" where
  "businessSubscribeURL x cfg key io c t_url ctx p s =
     (let cipher = s_BusinessSubURLCipher (ctx_Session ctx);
          known = (if cipher = [] then None
                   else (case decryptString x key cipher of
                           Some u \<Rightarrow> if u \<noteq> [] then Some u else None
                         | None \<Rightarrow> None))
      in case known of
           Some u \<Rightarrow> (absoluteBusinessURL x cfg t_url p u, p, s)
         | None \<Rightarrow>
             (case fetchSubscriptionSnapshot x cfg c (ctx_BusinessToken ctx) p of
                (None, p1) \<Rightarrow> (None, p1, s)
              | (Some sn, p1) \<Rightarrow>
                  if sn_SubscribeURL sn = [] then (None, p1, s)
                  else
                    let s0 = s\<lparr>st_rng := Suc (st_rng s)\<rparr>;
                        s1 = (case encryptString x key (x_rand x (st_rng s) 12) (sn_SubscribeURL sn) of
                                None \<Rightarrow> s0
                              | Some c \<Rightarrow> remember_sub_url x io (s_ID (ctx_Session ctx)) c s0)
                    in (absoluteBusinessURL x cfg t_url p1 (sn_SubscribeURL sn), p1, s1)))"

section \<open>Rewriting a subscription response\<close>

definition refresh_user :: "SubscriptionSnapshot \<Rightarrow> time \<Rightarrow> UserCache \<Rightarrow> UserCache" where
  "refresh_user sn now u =
     u\<lparr>u_Email := (if sn_Email sn \<noteq> [] then sn_Email sn else u_Email u),
       u_BusinessUserID := (if sn_UUID sn \<noteq> [] then sn_UUID sn else u_BusinessUserID u),
       u_PlanID := (if sn_PlanID sn > 0 then sn_PlanID sn else u_PlanID u),
       u_PlanName := (if sn_PlanName sn \<noteq> [] then sn_PlanName sn else u_PlanName u),
       u_DeviceLimit := (if hasDeviceLimit sn then normalizedDeviceLimit (sn_DeviceLimit sn)
                         else u_DeviceLimit u),
       u_LastSyncedAt := now, u_UpdatedAt := now\<rparr>"

text \<open>The section under the lock; \<open>k\<close> is the user's key, \<open>cipher\<close> the encrypted URL or empty.\<close>

definition store_subscription ::
    "ext \<Rightarrow> save_outcome \<Rightarrow> time \<Rightarrow> SubscriptionSnapshot \<Rightarrow> string \<Rightarrow> string \<Rightarrow> string \<Rightarrow> Store \<Rightarrow> Store" where
  "store_subscription x io now sn k sid cipher s =
     (case gm_get (st_Users s) k of
        None \<Rightarrow> s
      | Some u \<Rightarrow>
          let s1 = markUserLocked (u_ID u)
                     (s\<lparr>st_Users := gm_mod k (refresh_user sn now) (st_Users s)\<rparr>);
              s2 = (if cipher = [] then s1
                    else (case gm_get (st_Sessions s1) sid of
                            None \<Rightarrow> s1
                          | Some ses \<Rightarrow>
                              markSessionLocked (s_ID ses)
                                (s1\<lparr>st_Sessions := gm_mod sid (\<lambda>b. b\<lparr>s_BusinessSubURLCipher := cipher\<rparr>)
                                    (st_Sessions s1)\<rparr>)))
          in snd (saveLocked x io s2))"

definition rewritten_data :: "ext \<Rightarrow> Config \<Rightarrow> Request \<Rightarrow> string \<Rightarrow> anymap \<Rightarrow> anymap" where
  "rewritten_data x cfg r token data =
     (let d1 = (if token \<noteq> []
                then gm_set ''token'' (VStr token)
                       (gm_set ''subscribe_url'' (VStr (gatewaySubscribeURL x cfg r token)) data)
                else data)
      in if cfg_GatewayURLs cfg \<noteq> []
         then gm_set ''gateway_urls'' (VList (map VStr (cfg_GatewayURLs cfg))) d1 else d1)"

definition rewriteSubscriptionResponse ::
    "ext \<Rightarrow> Config \<Rightarrow> string \<Rightarrow> save_outcome \<Rightarrow> time \<Rightarrow> Request \<Rightarrow> SessionContext \<Rightarrow> string \<Rightarrow> Store
     \<Rightarrow> string \<times> Store" where
  "rewriteSubscriptionResponse x cfg key io now r ctx b s =
     (case (parseSubscriptionSnapshot x b, json_map x b) of
        (Some sn, Some payload) \<Rightarrow>
          (case mapFromAny (any_index payload ''data'') of
             None \<Rightarrow> (b, s)
           | Some data \<Rightarrow>
               let s0 = (if sn_SubscribeURL sn = [] then s else s\<lparr>st_rng := Suc (st_rng s)\<rparr>);
                   enc = (if sn_SubscribeURL sn = [] then Some []
                          else encryptString x key (x_rand x (st_rng s) 12) (sn_SubscribeURL sn))
               in (case enc of
                     None \<Rightarrow> (b, s0)
                   | Some cipher \<Rightarrow>
                       if gm_get (st_Users s0) (u_ID (ctx_User ctx)) = None then (b, s0)
                       else
                         let s1 = store_subscription x io now sn (u_ID (ctx_User ctx))
                                    (s_ID (ctx_Session ctx)) cipher s0;
                             data' = rewritten_data x cfg r (ctx_SubscribeToken ctx) data
                         in (case x_json_text x (VMap (gm_set ''data'' (VMap data') payload)) of
                               None \<Rightarrow> b | Some t \<Rightarrow> t, s1)))
      | _ \<Rightarrow> (b, s))"

end
