(* ===== verification/AdminApi.thy ===== *)
theory AdminApi
  imports UserApi
begin

text \<open>
  The administration API over the account tables (\<open>handleAdminListUsers\<close>,
  \<open>handleAdminStatistics\<close>, \<open>handleAdminUserDevices\<close>, \<open>handleAdminRevokeDevice\<close>,
  \<open>handleAdminPatchDeviceLimit\<close>, \<open>handleAdminAuditLogs\<close> of \<open>device_gateway/main.go\<close>) with its
  pagination, filters and orders.
\<close>

section \<open>Pagination\<close>

definition queryInt :: "Request \<Rightarrow> string \<Rightarrow> int \<Rightarrow> int" where
  "queryInt r key fallback =
     (let raw = query_get r key in
      if raw = [] then fallback
      else if snd (atoi raw) then fst (atoi raw) else fallback)"

definition adminPaginationParams :: "Request \<Rightarrow> int \<times> int" where
  "adminPaginationParams r =
     (let page = queryInt r ''page'' 1;
          page1 = (if page < 1 then 1 else page);
          size = queryInt r ''page_size'' adminDefaultPageSize;
          size1 = (if size < 1 then adminDefaultPageSize else size);
          size2 = (if size1 > adminMaxPageSize then adminMaxPageSize else size1)
      in (page1, size2))"

definition total_pages :: "int \<Rightarrow> int \<Rightarrow> int" where
  "total_pages pageSize tot = go_div (wrap64 (tot + pageSize - 1)) pageSize"

definition clampPage :: "int \<Rightarrow> int \<Rightarrow> int \<Rightarrow> int" where
  "clampPage page pageSize tot =
     (if tot \<le> 0 then 1
      else if page > total_pages pageSize tot then total_pages pageSize tot else page)"

definition pageBounds :: "int \<Rightarrow> int \<Rightarrow> int \<Rightarrow> int \<times> int" where
  "pageBounds page pageSize tot =
     (if tot \<le> 0 then (0, 0)
      else
        let start = wrap64 ((page - 1) * pageSize) in
        if start \<ge> tot then (tot, tot)
        else
          let e = wrap64 (start + pageSize) in
          (start, if e > tot then tot else e))"

definition paginationMeta :: "int \<Rightarrow> int \<Rightarrow> int \<Rightarrow> anymap" where
  "paginationMeta page pageSize tot =
     (let pages = (if tot > 0 then total_pages pageSize tot else 0)
      in [(''page'', VInt page), (''page_size'', VInt pageSize), (''total'', VInt tot),
          (''total_pages'', VInt pages), (''has_prev'', VBool (page > 1 \<and> pages > 0)),
          (''has_next'', VBool (pages > 0 \<and> page < pages))])"

text \<open>The slice \<open>xs[start:end]\<close>.\<close>

definition go_slice :: "int \<Rightarrow> int \<Rightarrow> 'a list \<Rightarrow> 'a list" where
  "go_slice start e xs = take (nat (e - start)) (drop (nat start) xs)"

definition page_of :: "int \<Rightarrow> int \<Rightarrow> 'a list \<Rightarrow> 'a list" where
  "page_of page pageSize xs =
     (case pageBounds page pageSize (int (length xs)) of (a, b) \<Rightarrow> go_slice a b xs)"

section \<open>Filters and order of the user list\<close>

definition normalizeAdminUserSort :: "string \<Rightarrow> string" where
  "normalizeAdminUserSort v =
     (if trim_space v \<in> set [''email'', ''plan_name'', ''active_device_count'',
           ''effective_device_limit'', ''created_at'', ''updated_at'', ''last_synced_at'']
      then trim_space v else ''updated_at'')"

definition normalizeSortOrder :: "string \<Rightarrow> string" where
  "normalizeSortOrder v = (if equal_fold ''asc'' (trim_space v) then ''asc'' else ''desc'')"

definition adminUserMatchesFilters :: "ext \<Rightarrow> UserCache \<Rightarrow> int \<Rightarrow> string \<Rightarrow> string \<Rightarrow> string \<Rightarrow> bool" where
  "adminUserMatchesFilters x u activeCount query deviceStatus limitMode =
     ((query \<noteq> [] \<longrightarrow>
         contains_str
           (to_lower_x x (join_with '' ''
              [u_ID u, u_BusinessUserID u, u_Email u, itoa (u_PlanID u), u_PlanName u])) query) \<and>
      (if deviceStatus \<in> set [[], ''all''] then True
       else if deviceStatus = ''active'' then activeCount > 0
       else if deviceStatus = ''inactive'' then activeCount \<le> 0 else False) \<and>
      (if limitMode \<in> set [[], ''all''] then True
       else if limitMode = ''overridden'' then u_DeviceLimitOverride u \<noteq> None
       else if limitMode = ''default'' then u_DeviceLimitOverride u = None else False))"

record adminUserRow =
  ar_user :: UserCache
  ar_activeCount :: int
  ar_effectiveLimit :: int
  ar_public :: anymap

definition compareInt :: "int \<Rightarrow> int \<Rightarrow> int" where
  "compareInt a b = (if a < b then - 1 else if a > b then 1 else 0)"

definition compareTime :: "time \<Rightarrow> time \<Rightarrow> int" where
  "compareTime a b = (if a < b then - 1 else if a > b then 1 else 0)"

definition admin_cmp :: "ext \<Rightarrow> string \<Rightarrow> adminUserRow \<Rightarrow> adminUserRow \<Rightarrow> int" where
  "admin_cmp x sortBy a b =
     (let u = ar_user a; v = ar_user b;
          cmp = (if sortBy = ''email''
                 then compare_str (to_lower_x x (u_Email u)) (to_lower_x x (u_Email v))
                 else if sortBy = ''plan_name''
                 then compare_str (to_lower_x x (u_PlanName u)) (to_lower_x x (u_PlanName v))
                 else if sortBy = ''active_device_count''
                 then compareInt (ar_activeCount a) (ar_activeCount b)
                 else if sortBy = ''effective_device_limit''
                 then compareInt (ar_effectiveLimit a) (ar_effectiveLimit b)
                 else if sortBy = ''created_at'' then compareTime (u_CreatedAt u) (u_CreatedAt v)
                 else if sortBy = ''last_synced_at''
                 then compareTime (u_LastSyncedAt u) (u_LastSyncedAt v)
                 else compareTime (u_UpdatedAt u) (u_UpdatedAt v))
      in if cmp = 0 then compare_str (u_ID u) (u_ID v) else cmp)"

definition compareAdminUsers :: "ext \<Rightarrow> string \<Rightarrow> string \<Rightarrow> adminUserRow \<Rightarrow> adminUserRow \<Rightarrow> bool" where
  "compareAdminUsers x sortBy order a b =
     (if order = ''asc'' then admin_cmp x sortBy a b < 0 else admin_cmp x sortBy a b > 0)"

definition admin_row :: "Config \<Rightarrow> Store \<Rightarrow> UserCache \<Rightarrow> adminUserRow" where
  "admin_row cfg s u =
     (let n = int (length (activeDevicesLocked (u_ID u) s)); l = effectiveLimitLocked cfg u
      in \<lparr>ar_user = u, ar_activeCount = n, ar_effectiveLimit = l, ar_public = publicUser u l n\<rparr>)"

definition admin_rows ::
    "ext \<Rightarrow> Config \<Rightarrow> string \<Rightarrow> string \<Rightarrow> string \<Rightarrow> Store \<Rightarrow> adminUserRow list" where
  "admin_rows x cfg query deviceStatus limitMode s =
     filter (\<lambda>row. adminUserMatchesFilters x (ar_user row) (ar_activeCount row) query deviceStatus limitMode)
       (map (\<lambda>e. admin_row cfg s (snd e)) (st_Users s))"

definition handleAdminListUsers :: "ext \<Rightarrow> Config \<Rightarrow> Request \<Rightarrow> Store \<Rightarrow> Response" where
  "handleAdminListUsers x cfg r s =
     (let (page0, pageSize) = adminPaginationParams r;
          query = to_lower_x x (trim_space (query_get r ''q''));
          deviceStatus = trim_space (query_get r ''device_status'');
          limitMode = trim_space (query_get r ''limit_mode'');
          sortBy = normalizeAdminUserSort (query_get r ''sort'');
          order = normalizeSortOrder (query_get r ''order'');
          rows = sort_slice (compareAdminUsers x sortBy order)
                   (admin_rows x cfg query deviceStatus limitMode s);
          tot = int (length rows);
          page = clampPage page0 pageSize tot
      in writeJSON 200 (success
           [(''data'', VMap
               [(''users'', VList (map (\<lambda>row. VMap (ar_public row)) (page_of page pageSize rows))),
                (''pagination'', VMap (paginationMeta page pageSize tot)),
                (''filters'', VMap
                   [(''q'', VStr query), (''device_status'', VStr deviceStatus),
                    (''limit_mode'', VStr limitMode), (''sort'', VStr sortBy),
                    (''order'', VStr order)])])]))"

section \<open>Statistics\<close>

definition utf8_china :: string where
  "utf8_china = [CHR 0xE4, CHR 0xB8, CHR 0xAD, CHR 0xE5, CHR 0x9B, CHR 0xBD]"

definition utf8_unknown :: string where
  "utf8_unknown = [CHR 0xE6, CHR 0x9C, CHR 0xAA, CHR 0xE7, CHR 0x9F, CHR 0xA5]"

definition utf8_unknown_isp :: string where
  "utf8_unknown_isp = utf8_unknown @
     [CHR 0xE8, CHR 0xBF, CHR 0x90, CHR 0xE8, CHR 0x90, CHR 0xA5, CHR 0xE5, CHR 0x95, CHR 0x86]"

definition utf8_unknown_version :: string where
  "utf8_unknown_version = utf8_unknown @
     [CHR 0xE7, CHR 0x89, CHR 0x88, CHR 0xE6, CHR 0x9C, CHR 0xAC]"

definition provinceFromRegion :: "string \<Rightarrow> string" where
  "provinceFromRegion region0 =
     (let region = trim_space region0 in
      if region = [] then []
      else (case str_fields region of
              p # q # rest \<Rightarrow> if p = utf8_china then q else p
            | [p] \<Rightarrow> p
            | [] \<Rightarrow> []))"

definition normalizeBucket :: "string \<Rightarrow> string \<Rightarrow> string" where
  "normalizeBucket v fallback =
     (let t = trim_space v in if t = [] \<or> t = ''0'' then fallback else t)"

definition bump :: "string \<Rightarrow> int gomap \<Rightarrow> int gomap" where
  "bump k m = (if k = [] then m else gm_set k ((case gm_get m k of None \<Rightarrow> 0 | Some n \<Rightarrow> n) + 1) m)"

text \<open>The percentage is the exact quotient; the code rounds it to a \<open>float64\<close>.\<close>

definition bucket_before :: "string \<times> int \<Rightarrow> string \<times> int \<Rightarrow> bool" where
  "bucket_before a b = (if snd a = snd b then fst a < fst b else snd a > snd b)"

definition distributionBuckets :: "int gomap \<Rightarrow> anymap list" where
  "distributionBuckets counts =
     (let tot = sum_list (map snd counts) in
      map (\<lambda>e. [(''name'', VStr (fst e)), (''count'', VInt (snd e)),
                (''percent'', VFloat (if tot > 0 then of_int (snd e) * 100 / of_int tot else 0))])
        (sort_slice bucket_before counts))"

record device_stats =
  ds_active :: int
  ds_revoked :: int
  ds_online :: int
  ds_recent :: int
  ds_provinces :: "int gomap"
  ds_isps :: "int gomap"
  ds_versions :: "int gomap"

definition no_stats :: device_stats where
  "no_stats = \<lparr>ds_active = 0, ds_revoked = 0, ds_online = 0, ds_recent = 0, ds_provinces = [],
               ds_isps = [], ds_versions = []\<rparr>"

definition count_device :: "time \<Rightarrow> DeviceRecord \<Rightarrow> device_stats \<Rightarrow> device_stats" where
  "count_device now d st =
     (let active = (d_Status d = statusActive); age = time_sub now (d_LastSeenAt d) in
      \<lparr>ds_active = ds_active st + boolToInt active,
       ds_revoked = ds_revoked st + boolToInt (d_Status d = statusRevoked),
       ds_online = ds_online st + boolToInt (active \<and> age < minutes 5),
       ds_recent = ds_recent st + boolToInt (active \<and> age < hours 24),
       ds_provinces = bump (provinceFromRegion (d_LastIPRegion d)) (ds_provinces st),
       ds_isps = bump (normalizeBucket (d_LastIPISP d) utf8_unknown_isp) (ds_isps st),
       ds_versions = bump (normalizeBucket (d_AppVersion d) utf8_unknown_version) (ds_versions st)\<rparr>)"

definition collect_stats :: "time \<Rightarrow> DeviceRecord gomap \<Rightarrow> device_stats" where
  "collect_stats now ds = fold (\<lambda>e. count_device now (snd e)) ds no_stats"

definition handleAdminStatistics :: "Config \<Rightarrow> time \<Rightarrow> Store \<Rightarrow> Response" where
  "handleAdminStatistics cfg now s =
     (let st = collect_stats now (st_Devices s); tot = int (length (st_Devices s))
      in writeJSON 200 (success
           [(''data'', VMap
               [(''summary'', VMap
                   [(''total_users'', VInt (int (length (st_Users s)))),
                    (''total_devices'', VInt tot),
                    (''active_devices'', VInt (ds_active st)),
                    (''revoked_devices'', VInt (ds_revoked st)),
                    (''online_devices'', VInt (ds_online st)),
                    (''recent_devices'', VInt (ds_recent st)),
                    (''device_policy'', VStr (cfg_DevicePolicy cfg))]),
                (''activity'', VMap
                   [(''online_devices'', VInt (ds_online st)),
                    (''recent_devices'', VInt (ds_recent st)),
                    (''inactive_devices'', VInt (maxInt (tot - ds_recent st) 0))]),
                (''regions'', VList (map VMap (distributionBuckets (ds_provinces st)))),
                (''isps'', VList (map VMap (distributionBuckets (ds_isps st)))),
                (''versions'', VList (map VMap (distributionBuckets (ds_versions st))))])]))"

section \<open>One user\<close>

definition user_not_found :: Response where
  "user_not_found = writeError 404 ''USER_NOT_FOUND'' ''User not found'' None"

definition handleAdminUserDevices :: "ext \<Rightarrow> Config \<Rightarrow> time \<Rightarrow> string \<Rightarrow> Store \<Rightarrow> Response" where
  "handleAdminUserDevices x cfg now userKey s =
     (case findUserLocked x userKey s of
        None \<Rightarrow> user_not_found
      | Some (k, u) \<Rightarrow>
          writeJSON 200 (success
            [(''data'', VMap
                [(''user'', VMap (publicUser u (effectiveLimitLocked cfg u)
                              (int (length (activeDevicesLocked (u_ID u) s))))),
                 (''devices'', VList (device_items now [] (devicesForUserLocked (u_ID u) s)))])]))"

definition handleAdminRevokeDevice ::
    "ext \<Rightarrow> Config \<Rightarrow> save_outcome \<Rightarrow> time \<Rightarrow> Request \<Rightarrow> string \<Rightarrow> string \<Rightarrow> Store
     \<Rightarrow> Response \<times> Store" where
  "handleAdminRevokeDevice x cfg io now r userKey deviceID s =
     (case findUserLocked x userKey s of
        None \<Rightarrow> (user_not_found, s)
      | Some (k, u) \<Rightarrow> revoke_section x cfg io now r ''admin'' (u_ID u) deviceID s)"

text \<open>
  \<open>parseDeviceLimitPatch\<close> on the raw values of the payload: an error message, or the limit and
  whether the override is to be cleared.
\<close>

definition parseDeviceLimitPatch :: "ext \<Rightarrow> string gomap \<Rightarrow> string + (int \<times> bool)" where
  "parseDeviceLimitPatch x payload =
     (let raw = (case gm_get payload ''device_limit_override'' of
                   Some v \<Rightarrow> Some v
                 | None \<Rightarrow> gm_get payload ''device_limit'')
      in case raw of
           None \<Rightarrow> Inl ''device_limit_override is required''
         | Some v \<Rightarrow>
             if trim_space v = ''null'' then Inr (0, True)
             else (case x_json_int x v of
                     None \<Rightarrow> Inl ''device limit must be an integer or null''
                   | Some l \<Rightarrow>
                       if l < 0 then Inl ''device limit cannot be negative'' else Inr (l, False)))"

definition handleAdminPatchDeviceLimit ::
    "ext \<Rightarrow> Config \<Rightarrow> save_outcome \<Rightarrow> time \<Rightarrow> Request \<Rightarrow> string gomap option \<Rightarrow> string \<Rightarrow> Store
     \<Rightarrow> Response \<times> Store" where
  "handleAdminPatchDeviceLimit x cfg io now r body userKey s =
     (case body of
        None \<Rightarrow> (writeError 400 ''BAD_JSON'' ''Invalid JSON body'' None, s)
      | Some payload \<Rightarrow>
          (case parseDeviceLimitPatch x payload of
             Inl msg \<Rightarrow> (writeError 400 ''BAD_DEVICE_LIMIT'' msg None, s)
           | Inr (limit, clear) \<Rightarrow>
               (case findUserLocked x userKey s of
                  None \<Rightarrow> (user_not_found, s)
                | Some (k, u) \<Rightarrow>
                    let u' = u\<lparr>u_DeviceLimitOverride := (if clear then None else Some limit),
                               u_UpdatedAt := now\<rparr>;
                        s1 = markUserLocked (u_ID u') (s\<lparr>st_Users := gm_mod k (\<lambda>_. u') (st_Users s)\<rparr>);
                        s2 = addAuditLocked x ''user.device_limit_override.updated'' (u_ID u') []
                               ''admin'' (clientIP x cfg r) (userAgent r)
                               (Some [(''device_limit_override'',
                                       case u_DeviceLimitOverride u' of None \<Rightarrow> VNil | Some l \<Rightarrow> VInt l)])
                               now s1;
                        (ok, s3) = saveLocked x io s2
                    in (if ok
                        then writeJSON 200 (success
                               [(''data'', VMap
                                   [(''user'', VMap (publicUser u' (effectiveLimitLocked cfg u')
                                       (int (length (activeDevicesLocked (u_ID u') s3)))))])])
                        else writeError 500 ''STORE_SAVE_FAILED'' ''Failed to save store'' None, s3))))"

section \<open>Audit logs\<close>

text \<open>The JSON of an audit entry: empty optional fields are omitted.\<close>

definition omit_empty :: "string \<Rightarrow> string \<Rightarrow> anymap" where
  "omit_empty k v = (if v = [] then [] else [(k, VStr v)])"

definition audit_json :: "AuditLog \<Rightarrow> anymap" where
  "audit_json a =
     [(''id'', VStr (a_ID a))] @ omit_empty ''user_id'' (a_UserID a) @
     omit_empty ''device_id'' (a_DeviceID a) @
     [(''action'', VStr (a_Action a)), (''actor'', VStr (a_Actor a))] @
     omit_empty ''ip'' (a_IP a) @ omit_empty ''user_agent'' (a_UserAgent a) @
     (case a_Details a of
        None \<Rightarrow> []
      | Some m \<Rightarrow> if m = [] then [] else [(''details'', VMap m)]) @
     [(''created_at'', VStr (rfc3339_nano (a_CreatedAt a)))]"

definition handleAdminAuditLogs :: "Request \<Rightarrow> Store \<Rightarrow> Response" where
  "handleAdminAuditLogs r s =
     (let (page0, pageSize) = adminPaginationParams r;
          items = sort_slice (\<lambda>a b. a_CreatedAt a > a_CreatedAt b) (st_Audits s);
          tot = int (length items);
          page = clampPage page0 pageSize tot
      in writeJSON 200 (success
           [(''data'', VMap
               [(''audit_logs'', VList (map (\<lambda>a. VMap (audit_json a)) (page_of page pageSize items))),
                (''pagination'', VMap (paginationMeta page pageSize tot))])]))"

end
