(* ===== verification/AdminLaws.thy ===== *)
theory AdminLaws
  imports AdminApi
begin

text \<open>
  Laws of the administration API: the pages of a list are the list, the order of the user
  list is total so that the response does not depend on the order of a Go map, the
  statistics add up, and what a limit patch does.
\<close>

section \<open>Orders\<close>

definition cmp3 :: "'k::linorder \<Rightarrow> 'k \<Rightarrow> int" where
  "cmp3 a b = (if a < b then - 1 else if b < a then 1 else 0)"

lemma compare_str_cmp3: "compare_str = cmp3"
  by (intro ext) (simp add: compare_str_def cmp3_def)

lemma compareInt_cmp3: "compareInt = cmp3"
  by (intro ext) (simp add: compareInt_def cmp3_def)

lemma compareTime_cmp3: "compareTime = cmp3"
  by (intro ext) (simp add: compareTime_def cmp3_def)

text \<open>A comparison by a key and then by another is a comparator.\<close>

definition lex_cmp :: "('a \<Rightarrow> 'k::linorder) \<Rightarrow> ('a \<Rightarrow> 'l::linorder) \<Rightarrow> 'a \<Rightarrow> 'a \<Rightarrow> int" where
  "lex_cmp f g a b = (if cmp3 (f a) (f b) = 0 then cmp3 (g a) (g b) else cmp3 (f a) (f b))"

lemma lex_cmp_swap: "sgn (lex_cmp f g b a) = - sgn (lex_cmp f g a b)"
  by (auto simp: lex_cmp_def cmp3_def)

lemma lex_cmp_le: "lex_cmp f g a b \<le> 0 \<longleftrightarrow> f a < f b \<or> (f a = f b \<and> g a \<le> g b)"
  by (auto simp: lex_cmp_def cmp3_def)

lemma lex_cmp_trans: "lex_cmp f g a b \<le> 0 \<Longrightarrow> lex_cmp f g b c \<le> 0 \<Longrightarrow> lex_cmp f g a c \<le> 0"
  by (auto simp: lex_cmp_le)

lemma lex_cmp_zero: "lex_cmp f g a b = 0 \<Longrightarrow> g a = g b"
  by (auto simp: lex_cmp_def cmp3_def split: if_splits)

definition row_id :: "adminUserRow \<Rightarrow> string" where
  "row_id a = u_ID (ar_user a)"

lemma admin_cmp_lex:
  "(\<exists>f :: adminUserRow \<Rightarrow> string. admin_cmp x sortBy = lex_cmp f row_id) \<or>
   (\<exists>f :: adminUserRow \<Rightarrow> int. admin_cmp x sortBy = lex_cmp f row_id)"
proof -
  have "admin_cmp x ''email'' = lex_cmp (\<lambda>a. to_lower_x x (u_Email (ar_user a))) row_id"
    "admin_cmp x ''plan_name'' = lex_cmp (\<lambda>a. to_lower_x x (u_PlanName (ar_user a))) row_id"
    "admin_cmp x ''active_device_count'' = lex_cmp ar_activeCount row_id"
    "admin_cmp x ''effective_device_limit'' = lex_cmp ar_effectiveLimit row_id"
    "admin_cmp x ''created_at'' = lex_cmp (\<lambda>a. u_CreatedAt (ar_user a)) row_id"
    "admin_cmp x ''last_synced_at'' = lex_cmp (\<lambda>a. u_LastSyncedAt (ar_user a)) row_id"
    by (intro ext, simp add: admin_cmp_def lex_cmp_def row_id_def compare_str_cmp3 compareInt_cmp3
        compareTime_cmp3 Let_def)+
  moreover have "admin_cmp x sortBy = lex_cmp (\<lambda>a. u_UpdatedAt (ar_user a)) row_id"
    if "sortBy \<notin> {''email'', ''plan_name'', ''active_device_count'', ''effective_device_limit'',
                  ''created_at'', ''last_synced_at''}"
    using that by (intro ext) (simp add: admin_cmp_def lex_cmp_def row_id_def compare_str_cmp3
        compareTime_cmp3 Let_def)
  ultimately show ?thesis by (cases "sortBy \<in> {''email'', ''plan_name'', ''active_device_count'',
      ''effective_device_limit'', ''created_at'', ''last_synced_at''}") blast+
qed

interpretation admin_order: comparator "admin_cmp x sortBy" for x sortBy
proof unfold_locales
  show "sgn (admin_cmp x sortBy b a) = - sgn (admin_cmp x sortBy a b)" for a b
    using admin_cmp_lex [of x sortBy] lex_cmp_swap by metis
  show "admin_cmp x sortBy a b \<le> 0 \<Longrightarrow> admin_cmp x sortBy b c \<le> 0 \<Longrightarrow> admin_cmp x sortBy a c \<le> 0" for a b c
    using admin_cmp_lex [of x sortBy] lex_cmp_trans by metis
qed

lemma admin_cmp_zero: "admin_cmp x sortBy a b = 0 \<Longrightarrow> row_id a = row_id b"
  using admin_cmp_lex [of x sortBy] lex_cmp_zero by metis

lemma compareAdminUsers_asym: "compareAdminUsers x sb ord a b \<Longrightarrow> \<not> compareAdminUsers x sb ord b a"
  using admin_order.cmp_less_swap [of x sb a b] admin_order.cmp_less_swap [of x sb b a]
  by (auto simp: compareAdminUsers_def)

lemma admin_cmp_not_less: "\<not> admin_cmp x sb b a < 0 \<longleftrightarrow> admin_cmp x sb a b \<le> 0"
  using admin_order.cmp_less_swap [of x sb b a] by auto

lemma compareAdminUsers_negtrans:
  assumes "\<not> compareAdminUsers x sb ord b a" and "\<not> compareAdminUsers x sb ord c b"
  shows "\<not> compareAdminUsers x sb ord c a"
proof (cases "ord = ''asc''")
  case True
  with assms have "admin_cmp x sb a b \<le> 0" "admin_cmp x sb b c \<le> 0"
    by (simp_all add: compareAdminUsers_def admin_cmp_not_less)
  then have "admin_cmp x sb a c \<le> 0" by (rule admin_order.cmp_trans)
  with True show ?thesis by (simp add: compareAdminUsers_def admin_cmp_not_less)
next
  case False
  with assms have "admin_cmp x sb c b \<le> 0" "admin_cmp x sb b a \<le> 0"
    by (auto simp: compareAdminUsers_def)
  then have "admin_cmp x sb c a \<le> 0" by (rule admin_order.cmp_trans)
  with False show ?thesis by (auto simp: compareAdminUsers_def)
qed

lemma compareAdminUsers_total:
  assumes "\<not> compareAdminUsers x sb ord a b" and "\<not> compareAdminUsers x sb ord b a"
  shows "row_id a = row_id b"
proof -
  have "admin_cmp x sb a b \<le> 0" "\<not> admin_cmp x sb a b < 0"
    using assms admin_cmp_not_less [of x sb a b] admin_cmp_not_less [of x sb b a]
    by (auto simp: compareAdminUsers_def split: if_splits)
  then have "admin_cmp x sb a b = 0" by simp
  then show ?thesis by (rule admin_cmp_zero)
qed

text \<open>Two sorted arrangements of the same elements are equal when the order separates them.\<close>

lemma sorted_unique:
  assumes "sorted_wrt R xs" and "sorted_wrt R ys" and "mset xs = mset ys"
    and "\<And>a b. a \<in> set xs \<Longrightarrow> b \<in> set xs \<Longrightarrow> R a b \<Longrightarrow> R b a \<Longrightarrow> a = b"
  shows "xs = ys"
  using assms
proof (induction xs arbitrary: ys)
  case Nil
  then show ?case by simp
next
  case (Cons a xs)
  then obtain b ys' where ys: "ys = b # ys'" by (cases ys) auto
  have sets: "set ys = set (a # xs)" using Cons.prems(3) by (metis set_mset_mset)
  have "a = b"
  proof (rule ccontr)
    assume "a \<noteq> b"
    then have "b \<in> set xs" "a \<in> set ys'" using sets ys by auto
    then have "R a b" "R b a" using Cons.prems(1,2) ys by auto
    then show False using Cons.prems(4) [of a b] \<open>b \<in> set xs\<close> \<open>a \<noteq> b\<close> by simp
  qed
  moreover have "xs = ys'"
    using Cons.prems ys calculation by (intro Cons.IH) auto
  ultimately show ?case using ys by simp
qed

section \<open>Pages\<close>

lemma total_pages_div:
  assumes "0 < ps" and "ps \<le> 100" and "0 \<le> tot" and "tot \<le> max_int64 - 100"
  shows "total_pages ps tot = (tot + ps - 1) div ps"
  using assms by (simp add: total_pages_def wrap64_id go_div_nonneg min_int64_def max_int64_def)

lemma pageBounds_slice:
  assumes "0 < ps" and "ps \<le> 100" and "int (length xs) \<le> max_int64 - 100"
    and "1 \<le> p" and "p \<le> total_pages ps (int (length xs))"
  shows "page_of p ps xs = take (nat ps) (drop (nat ((p - 1) * ps)) xs)"
proof -
  define tot where "tot = int (length xs)"
  have tot: "0 \<le> tot" "tot \<le> max_int64 - 100" using assms(3) by (simp_all add: tot_def)
  have "p * ps \<le> (tot + ps - 1) div ps * ps"
    using assms total_pages_div [OF assms(1,2) tot] by (intro mult_right_mono) (simp_all add: tot_def)
  also have "\<dots> \<le> tot + ps - 1" 
    using pos_mod_sign [OF assms(1), of "tot + ps - 1"] by (simp add: minus_mod_eq_div_mult [symmetric])
  finally have le: "(p - 1) * ps \<le> tot - 1" by (simp add: algebra_simps)
  have nn: "0 \<le> (p - 1) * ps" using assms(1,4) by simp
  have w: "wrap64 ((p - 1) * ps) = (p - 1) * ps" "wrap64 ((p - 1) * ps + ps) = (p - 1) * ps + ps"
    using nn le tot assms(1,2) by (auto simp: wrap64_id min_int64_def max_int64_def)
  have pos: "0 < tot" using nn le by simp
  show ?thesis
  proof (cases "(p - 1) * ps + ps > tot")
    case True
    then have "page_of p ps xs = take (nat (tot - (p - 1) * ps)) (drop (nat ((p - 1) * ps)) xs)"
      using pos le w by (simp add: page_of_def pageBounds_def go_slice_def Let_def flip: tot_def)
    moreover have "length (drop (nat ((p - 1) * ps)) xs) \<le> nat (tot - (p - 1) * ps)"
      using nn by (simp add: tot_def nat_diff_distrib)
    moreover have "nat (tot - (p - 1) * ps) \<le> nat ps" using True by simp
    ultimately show ?thesis by simp
  next
    case False
    then show ?thesis
      using pos le w by (simp add: page_of_def pageBounds_def go_slice_def Let_def flip: tot_def)
  qed
qed

lemma concat_pages:
  "0 < n \<Longrightarrow> length xs \<le> k * n \<Longrightarrow> concat (map (\<lambda>i. take n (drop (i * n) xs)) [0..<k]) = xs"
proof (induction k arbitrary: xs)
  case 0
  then show ?case by simp
next
  case (Suc k)
  have "concat (map (\<lambda>i. take n (drop (i * n) xs)) [0..<Suc k]) =
      take n xs @ concat (map (\<lambda>i. take n (drop (Suc i * n) xs)) [0..<k])"
    by (simp add: upt_conv_Cons map_Suc_upt [symmetric] o_def del: upt_Suc)
  also have "\<dots> = take n xs @ concat (map (\<lambda>i. take n (drop (i * n) (drop n xs))) [0..<k])"
    by (simp add: add.commute)
  also have "concat (map (\<lambda>i. take n (drop (i * n) (drop n xs))) [0..<k]) = drop n xs"
    using Suc.prems by (intro Suc.IH) auto
  finally show ?case by simp
qed

text \<open>
  The pages of any list are the list: read in order, the pages that \<open>paginationMeta\<close>
  announces hold every item exactly once and in order, for every page size the API admits.
\<close>

theorem pages_partition:
  fixes xs :: "'a list"
  assumes "0 < ps" and "ps \<le> adminMaxPageSize" and "int (length xs) \<le> max_int64 - 100"
  shows "concat (map (\<lambda>p. page_of p ps xs) [1 .. total_pages ps (int (length xs))]) = xs"
proof -
  define tot where "tot = int (length xs)"
  define k where "k = nat (total_pages ps tot)"
  have ps: "ps \<le> 100" using assms(2) by (simp add: adminMaxPageSize_def)
  have tp: "total_pages ps tot = (tot + ps - 1) div ps"
    using assms(1,3) ps by (intro total_pages_div) (simp_all add: tot_def)
  have nn: "0 \<le> total_pages ps tot" using assms(1) tp by (simp add: tot_def pos_imp_zdiv_nonneg_iff)
  have "tot \<le> total_pages ps tot * ps"
    using pos_mod_bound [OF assms(1), of "tot + ps - 1"] tp
    by (simp add: minus_mod_eq_div_mult [symmetric])
  then have len: "length xs \<le> k * nat ps"
    using nn assms(1) by (simp add: k_def tot_def nat_le_iff nat_mult_distrib [symmetric] le_nat_iff)
  have "[1 .. total_pages ps tot] = map (\<lambda>i. int (Suc i)) [0..<k]"
    using nn by (intro nth_equalityI) (auto simp: k_def)
  then have "map (\<lambda>p. page_of p ps xs) [1 .. total_pages ps tot] =
      map (\<lambda>i. page_of (int (Suc i)) ps xs) [0..<k]"
    by simp
  also have "\<dots> = map (\<lambda>i. take (nat ps) (drop (i * nat ps) xs)) [0..<k]"
  proof (rule map_cong [OF refl])
    fix i assume "i \<in> set [0..<k]"
    then have "int (Suc i) \<le> total_pages ps (int (length xs))" using nn by (simp add: k_def tot_def)
    then have "page_of (int (Suc i)) ps xs = take (nat ps) (drop (nat ((int (Suc i) - 1) * ps)) xs)"
      using assms(1,3) ps by (intro pageBounds_slice) simp_all
    then show "page_of (int (Suc i)) ps xs = take (nat ps) (drop (i * nat ps) xs)"
      using assms(1) by (simp add: nat_mult_distrib)
  qed
  finally show ?thesis
    using concat_pages [of "nat ps" xs k] assms(1) len by (simp flip: tot_def)
qed

theorem pages_partition_witness:
  "concat (map (\<lambda>p. page_of p 2 ''abc'') [1 .. total_pages 2 (int (length ''abc''))]) = ''abc''"
  by (rule pages_partition) (simp_all add: adminMaxPageSize_def max_int64_def)

section \<open>The user list and the range order\<close>

lemma active_count_perm:
  "mset (st_Devices s) = mset (st_Devices s') \<Longrightarrow>
   length (activeDevicesLocked uid s) = length (activeDevicesLocked uid s')"
  by (metis activeDevicesLocked_def gm_filter_def mset_filter size_mset)

lemma admin_row_perm:
  assumes "mset (st_Devices s) = mset (st_Devices s')"
  shows "admin_row cfg s u = admin_row cfg s' u"
  unfolding admin_row_def active_count_perm [OF assms] ..

lemma admin_rows_perm:
  assumes "mset (st_Users s) = mset (st_Users s')" and "mset (st_Devices s) = mset (st_Devices s')"
  shows "mset (admin_rows x cfg q ds lm s) = mset (admin_rows x cfg q ds lm s')"
  using assms(1) unfolding admin_rows_def admin_row_perm [OF assms(2)] by simp

lemma admin_row_user [simp]: "ar_user (admin_row cfg s u) = u"
  by (simp add: admin_row_def Let_def)

lemma admin_rows_ids:
  assumes "tables_ok s" and "a \<in> set (admin_rows x cfg q ds lm s)" and "b \<in> set (admin_rows x cfg q ds lm s)"
    and "row_id a = row_id b"
  shows "a = b"
proof -
  obtain e f where e: "e \<in> set (st_Users s)" "a = admin_row cfg s (snd e)"
      and f: "f \<in> set (st_Users s)" "b = admin_row cfg s (snd f)"
    using assms(2,3) unfolding admin_rows_def by auto
  note tok = tables_okD [OF assms(1)]
  have "u_ID (snd e) = fst e" "u_ID (snd f) = fst f" using tok(4) e(1) f(1) by (auto simp: ids_match_def)
  then have "fst e = fst f" using assms(4) e(2) f(2) by (simp add: row_id_def)
  moreover have "inj_on fst (set (st_Users s))" using tok(1) by (simp add: distinct_map)
  ultimately have "e = f" using e(1) f(1) by (simp add: inj_on_eq_iff)
  then show "a = b" using e(2) f(2) by simp
qed

lemma sorted_rows_perm:
  assumes "tables_ok s" and "mset (st_Users s) = mset (st_Users s')"
    and "mset (st_Devices s) = mset (st_Devices s')"
  shows "sort_slice (compareAdminUsers x sb ord) (admin_rows x cfg q ds lm s) =
         sort_slice (compareAdminUsers x sb ord) (admin_rows x cfg q ds lm s')"
proof (rule sorted_unique)
  let ?R = "\<lambda>a b. \<not> compareAdminUsers x sb ord b a"
  show "sorted_wrt ?R (sort_slice (compareAdminUsers x sb ord) (admin_rows x cfg q ds lm s))"
    "sorted_wrt ?R (sort_slice (compareAdminUsers x sb ord) (admin_rows x cfg q ds lm s'))"
    using compareAdminUsers_asym compareAdminUsers_negtrans by (intro sorted_sort_slice; blast)+
  show "mset (sort_slice (compareAdminUsers x sb ord) (admin_rows x cfg q ds lm s)) =
      mset (sort_slice (compareAdminUsers x sb ord) (admin_rows x cfg q ds lm s'))"
    using admin_rows_perm [OF assms(2,3)] by simp
  show "a = b" if "a \<in> set (sort_slice (compareAdminUsers x sb ord) (admin_rows x cfg q ds lm s))"
    "b \<in> set (sort_slice (compareAdminUsers x sb ord) (admin_rows x cfg q ds lm s))" "?R a b" "?R b a" for a b
    using that admin_rows_ids [OF assms(1)] compareAdminUsers_total by (metis set_sort_slice)
qed

text \<open>
  The user list of the administration API does not depend on the order in which Go
  ranges over its maps: two stores with the same users and devices, arranged differently,
  give the same response to every request.
\<close>

theorem user_list_deterministic:
  assumes "tables_ok s" and "mset (st_Users s) = mset (st_Users s')"
    and "mset (st_Devices s) = mset (st_Devices s')"
  shows "handleAdminListUsers x cfg r s = handleAdminListUsers x cfg r s'"
  unfolding handleAdminListUsers_def sorted_rows_perm [OF assms] ..

theorem user_list_deterministic_witness:
  "handleAdminListUsers demo_ext demo_cfg (demo_request [])
     (demo_store\<lparr>st_Users := [(''U'', demo_user), (''V'', demo_user\<lparr>u_ID := ''V''\<rparr>)]\<rparr>) =
   handleAdminListUsers demo_ext demo_cfg (demo_request [])
     (demo_store\<lparr>st_Users := [(''V'', demo_user\<lparr>u_ID := ''V''\<rparr>), (''U'', demo_user)]\<rparr>)"
  by (rule user_list_deterministic)
    (simp_all add: tables_ok_def demo_store_def emptyStore_def ids_match_def demo_user_def demo_device_def
      demo_session_def)

section \<open>Statistics\<close>

abbreviation bucket_sum :: "int gomap \<Rightarrow> int" where
  "bucket_sum m \<equiv> sum_list (map snd m)"

lemma sum_gm_set: "bucket_sum (gm_set k v m) =
    bucket_sum m + v - (case gm_get m k of None \<Rightarrow> 0 | Some n \<Rightarrow> n)"
  by (induction m) auto

lemma sum_bump: "bucket_sum (bump k m) = bucket_sum m + boolToInt (k \<noteq> [])"
  by (simp add: bump_def sum_gm_set boolToInt_def split: option.splits)

lemma normalizeBucket_nonempty: "fallback \<noteq> [] \<Longrightarrow> normalizeBucket v fallback \<noteq> []"
  by (simp add: normalizeBucket_def Let_def)

definition stats_match :: "time \<Rightarrow> DeviceRecord gomap \<Rightarrow> device_stats \<Rightarrow> bool" where
  "stats_match now ds st =
     (ds_active st = int (length (filter (\<lambda>e. d_Status (snd e) = statusActive) ds)) \<and>
      ds_revoked st = int (length (filter (\<lambda>e. d_Status (snd e) = statusRevoked) ds)) \<and>
      ds_online st = int (length (filter (\<lambda>e. is_online now (snd e)) ds)) \<and>
      ds_online st \<le> ds_recent st \<and> ds_recent st \<le> ds_active st \<and>
      bucket_sum (ds_isps st) = int (length ds) \<and> bucket_sum (ds_versions st) = int (length ds) \<and>
      bucket_sum (ds_provinces st) \<le> int (length ds))"

lemma stats_match_step:
  assumes "stats_match now ds st"
  shows "stats_match now (ds @ [e]) (count_device now (snd e) st)"
proof -
  have "utf8_unknown_isp \<noteq> []" "utf8_unknown_version \<noteq> []"
    by (simp_all add: utf8_unknown_isp_def utf8_unknown_version_def)
  then show ?thesis
    using assms
    by (auto simp: stats_match_def count_device_def Let_def sum_bump normalizeBucket_nonempty
        boolToInt_def is_online_def)
qed

lemma collect_stats_match: "stats_match now ds (collect_stats now ds)"
proof (induction ds rule: rev_induct)
  case Nil
  then show ?case by (simp add: collect_stats_def no_stats_def stats_match_def)
next
  case (snoc e ds)
  then show ?case using stats_match_step [of now ds _ e] by (simp add: collect_stats_def)
qed

text \<open>
  The statistics agree with the device table: active, revoked and online devices are
  counted exactly, online devices are recent and recent ones active, every device is in
  exactly one provider bucket and one version bucket and in at most one region bucket.
\<close>

theorem statistics_consistent:
  "(let st = collect_stats now ds in
    ds_active st = int (length (filter (\<lambda>e. d_Status (snd e) = statusActive) ds)) \<and>
    ds_revoked st = int (length (filter (\<lambda>e. d_Status (snd e) = statusRevoked) ds)) \<and>
    ds_online st = int (length (filter (\<lambda>e. is_online now (snd e)) ds)) \<and>
    ds_online st \<le> ds_recent st \<and> ds_recent st \<le> ds_active st \<and>
    sum_list (map snd (ds_isps st)) = int (length ds) \<and>
    sum_list (map snd (ds_versions st)) = int (length ds) \<and>
    sum_list (map snd (ds_provinces st)) \<le> int (length ds))"
  using collect_stats_match [of now ds] by (simp add: stats_match_def Let_def)

section \<open>Limit patches\<close>

lemma parse_patch_limit:
  "parseDeviceLimitPatch x payload = Inr (l, c) \<Longrightarrow> 0 \<le> l \<and> (c \<longrightarrow> l = 0)"
  by (auto simp: parseDeviceLimitPatch_def Let_def split: option.splits if_splits)

definition patched_user :: "Config \<Rightarrow> int \<Rightarrow> bool \<Rightarrow> UserCache \<Rightarrow> UserCache \<Rightarrow> bool" where
  "patched_user cfg l c u u' =
     (u_ID u' = u_ID u \<and> u_DeviceLimit u' = u_DeviceLimit u \<and>
      effectiveLimitLocked cfg u' =
        (if c then (case u_DeviceLimit u of Some n \<Rightarrow> n | None \<Rightarrow> cfg_DefaultDeviceLimit cfg) else l))"

lemma patch_limit_store:
  assumes "tables_ok s" and "handleAdminPatchDeviceLimit x cfg io now r body userKey s = (resp, s')"
  shows "(rs_Status resp \<in> {400, 404} \<and> s' = s) \<or>
    (\<exists>payload l c k u u'. body = Some payload \<and> parseDeviceLimitPatch x payload = Inr (l, c) \<and> 0 \<le> l \<and>
       findUserLocked x userKey s = Some (k, u) \<and> rs_Status resp \<in> {200, 500} \<and>
       patched_user cfg l c u u' \<and> st_Users s' = gm_mod k (\<lambda>_. u') (st_Users s) \<and>
       st_Devices s' = st_Devices s \<and> st_Sessions s' = st_Sessions s \<and>
       st_sessionByTokenHash s' = st_sessionByTokenHash s \<and>
       st_sessionBySubscribeHash s' = st_sessionBySubscribeHash s)"
proof (cases body)
  case None
  then show ?thesis using assms(2) by (auto simp: handleAdminPatchDeviceLimit_def)
next
  case (Some payload)
  show ?thesis
  proof (cases "parseDeviceLimitPatch x payload")
    case (Inl msg)
    then show ?thesis using assms(2) Some by (auto simp: handleAdminPatchDeviceLimit_def)
  next
    case (Inr lc)
    obtain l c where lc: "lc = (l, c)" by (cases lc)
    show ?thesis
    proof (cases "findUserLocked x userKey s")
      case None
      then show ?thesis
        using assms(2) Some Inr lc by (auto simp: handleAdminPatchDeviceLimit_def user_not_found_def)
    next
      case (Some ku)
      obtain k u where ku: "ku = (k, u)" by (cases ku)
      define u' where "u' = u\<lparr>u_DeviceLimitOverride := (if c then None else Some l), u_UpdatedAt := now\<rparr>"
      have "patched_user cfg l c u u'"
        by (simp add: patched_user_def u'_def effectiveLimitLocked_def)
      moreover have "st_Users s' = gm_mod k (\<lambda>_. u') (st_Users s) \<and> st_Devices s' = st_Devices s \<and>
          st_Sessions s' = st_Sessions s \<and> st_sessionByTokenHash s' = st_sessionByTokenHash s \<and>
          st_sessionBySubscribeHash s' = st_sessionBySubscribeHash s \<and> rs_Status resp \<in> {200, 500}"
        using assms(2) \<open>body = Some payload\<close> Inr lc Some ku saveLocked_frame [of x io]
        by (auto simp: handleAdminPatchDeviceLimit_def Let_def u'_def dest!: arg_cong [where f = snd]
            split: prod.splits if_splits)
      ultimately show ?thesis
        using \<open>body = Some payload\<close> Inr lc Some ku parse_patch_limit [of x payload l c] by auto
    qed
  qed
qed

text \<open>
  A limit patch either is refused and changes nothing, or sets exactly one user's
  override: from then on the user's effective limit is the patched value, or after a null
  patch the limit of the subscription, and no device or session is touched.
\<close>

theorem patch_sets_effective_limit:
  assumes "tables_ok s" and "handleAdminPatchDeviceLimit x cfg io now r body userKey s = (resp, s')"
  shows "if rs_Status resp \<in> {400, 404} then s' = s
    else \<exists>l c k u u'. parseDeviceLimitPatch x (the body) = Inr (l, c) \<and> 0 \<le> l \<and>
      findUserLocked x userKey s = Some (k, u) \<and> gm_get (st_Users s') k = Some u' \<and>
      effectiveLimitLocked cfg u' =
        (if c then (case u_DeviceLimit u of Some n \<Rightarrow> n | None \<Rightarrow> cfg_DefaultDeviceLimit cfg) else l) \<and>
      (\<forall>k'. k' \<noteq> k \<longrightarrow> gm_get (st_Users s') k' = gm_get (st_Users s) k') \<and>
      st_Devices s' = st_Devices s \<and> st_Sessions s' = st_Sessions s"
  using patch_limit_store [OF assms]
proof (elim disjE exE conjE)
  assume "rs_Status resp \<in> {400, 404}" "s' = s"
  then show ?thesis by simp
next
  fix payload l c k u u'
  assume *: "body = Some payload" "parseDeviceLimitPatch x payload = Inr (l, c)" "0 \<le> l"
    "findUserLocked x userKey s = Some (k, u)" "rs_Status resp \<in> {200, 500}" "patched_user cfg l c u u'"
    "st_Users s' = gm_mod k (\<lambda>_. u') (st_Users s)" "st_Devices s' = st_Devices s"
    "st_Sessions s' = st_Sessions s"
  have "gm_get (st_Users s) k = Some u" using findUserLocked_get [OF *(4)] tables_okD(1) [OF assms(1)] .
  then show ?thesis using * by (auto simp: patched_user_def)
qed

theorem patch_sets_effective_limit_witness:
  "\<exists>resp s' k u'. handleAdminPatchDeviceLimit demo_ext demo_cfg SaveOk 9 (demo_request [])
      (Some [(''device_limit'', ''7'')]) ''U'' demo_store = (resp, s') \<and> gm_get (st_Users s') k = Some u' \<and>
     effectiveLimitLocked demo_cfg u' = 7"
proof -
  obtain resp s' where r: "handleAdminPatchDeviceLimit demo_ext demo_cfg SaveOk 9 (demo_request [])
      (Some [(''device_limit'', ''7'')]) ''U'' demo_store = (resp, s')" by fastforce
  have "rs_Status (fst (handleAdminPatchDeviceLimit demo_ext demo_cfg SaveOk 9 (demo_request [])
      (Some [(''device_limit'', ''7'')]) ''U'' demo_store)) = 200" by code_simp
  then have st: "rs_Status resp \<notin> {400, 404}" using r by simp
  have "parseDeviceLimitPatch demo_ext [(''device_limit'', ''7'')] = Inr (7, False)" by code_simp
  with patch_sets_effective_limit [OF account_invD(1) [OF demo_store_inv] r] st
  obtain k u' where "gm_get (st_Users s') k = Some u'" "effectiveLimitLocked demo_cfg u' = 7" by auto
  with r show ?thesis by metis
qed

end
