(* ===== verification/Cleanup.thy ===== *)
theory Cleanup
  imports AdminLaws
begin

text \<open>
  The hourly cleanup (\<open>cleanupRevokedDevices\<close> of \<open>device_gateway/main.go\<close>), and the account
  system as a whole: the steps the handlers and the background loops take on the store, and
  the invariant of every reachable store.
\<close>

section \<open>Definitions\<close>

definition offline_details :: "anymap option" where
  "offline_details = Some [(''reason'', VStr ''offline more than 30 days'')]"

definition auto_revoke_one :: "ext \<Rightarrow> time \<Rightarrow> time \<Rightarrow> string \<times> DeviceRecord \<Rightarrow> Store \<Rightarrow> Store" where
  "auto_revoke_one x cutoff30 now e s =
     (if d_Status (snd e) = statusActive \<and> d_LastSeenAt (snd e) < cutoff30
      then addAuditLocked x ''device.revoked'' (d_UserID (snd e)) (d_ID (snd e))
             ''system:auto_offline'' [] [] offline_details now
             (revokeDeviceSessionsLocked (d_ID (snd e)) now
               (revokeDeviceLocked (fst e) ''system:auto_offline'' now s))
      else s)"

definition stale_revoked :: "time \<Rightarrow> DeviceRecord \<Rightarrow> bool" where
  "stale_revoked cutoff90 d =
     (d_Status d = statusRevoked \<and>
      (case d_RevokedAt d of None \<Rightarrow> False | Some t \<Rightarrow> t < cutoff90))"

definition drop_session_of :: "string \<Rightarrow> string \<times> SessionRecord \<Rightarrow> Store \<Rightarrow> Store" where
  "drop_session_of did e s = (if s_DeviceID (snd e) = did then deleteSessionLocked (fst e) s else s)"

definition remove_one :: "time \<Rightarrow> string \<times> DeviceRecord \<Rightarrow> Store \<Rightarrow> Store" where
  "remove_one cutoff90 e s =
     (if stale_revoked cutoff90 (snd e)
      then deleteDeviceLocked (fst e) (fold (drop_session_of (fst e)) (st_Sessions s) s)
      else s)"

text \<open>\<open>t90\<close>, \<open>t30\<close> and \<open>now\<close> are the three readings of the clock.\<close>

definition cleanupRevokedDevices ::
    "ext \<Rightarrow> save_outcome \<Rightarrow> time \<Rightarrow> time \<Rightarrow> time \<Rightarrow> Store \<Rightarrow> Store" where
  "cleanupRevokedDevices x io t90 t30 now s =
     (let cutoff90 = t90 + - hours (90 * 24); cutoff30 = t30 + - hours (30 * 24);
          offline = filter (\<lambda>e. d_Status (snd e) = statusActive \<and> d_LastSeenAt (snd e) < cutoff30)
                      (st_Devices s);
          s1 = fold (auto_revoke_one x cutoff30 now) (st_Devices s) s;
          stale = filter (\<lambda>e. stale_revoked cutoff90 (snd e)) (st_Devices s1);
          s2 = fold (remove_one cutoff90) (st_Devices s1) s1
      in if length offline > 0 \<or> length stale > 0 then snd (saveLocked x io s2) else s2)"

section \<open>The first loop\<close>

definition offline_entry :: "time \<Rightarrow> DeviceRecord \<Rightarrow> bool" where
  "offline_entry cutoff30 d = (d_Status d = statusActive \<and> d_LastSeenAt d < cutoff30)"

lemma auto_revoke_one_store:
  assumes "gm_wf (st_Sessions s)" and "d_ID (snd e) = fst e"
  shows "revoked_store ''system:auto_offline'' (if offline_entry c (snd e) then {fst e} else {}) now s
           (auto_revoke_one x c now e s)"
  using assms
  by (auto simp: auto_revoke_one_def offline_entry_def revoked_store_def revokeSessions_sessions)

lemma auto_revoke_loop:
  "distinct (map fst es) \<Longrightarrow> (\<forall>e \<in> set es. d_ID (snd e) = fst e) \<Longrightarrow> gm_wf (st_Sessions s) \<Longrightarrow>
   revoked_store ''system:auto_offline'' (fst ` set (filter (\<lambda>e. offline_entry c (snd e)) es)) now s
     (fold (auto_revoke_one x c now) es s)"
proof (induction es arbitrary: s)
  case Nil
  then show ?case by (simp add: revoked_store_refl)
next
  case (Cons e es)
  define s1 where "s1 = auto_revoke_one x c now e s"
  define K where "K = (if offline_entry c (snd e) then {fst e} else {})"
  define L where "L = fst ` set (filter (\<lambda>e. offline_entry c (snd e)) es)"
  have 1: "revoked_store ''system:auto_offline'' K now s s1"
    unfolding K_def s1_def using Cons.prems by (intro auto_revoke_one_store) auto
  have "gm_wf (st_Sessions s1)" using 1 Cons.prems(3) by (simp add: revoked_store_def)
  then have 2: "revoked_store ''system:auto_offline'' L now s1 (fold (auto_revoke_one x c now) es s1)"
    unfolding L_def using Cons.prems by (intro Cons.IH) auto
  have "K \<inter> L = {}" using Cons.prems(1) by (auto simp: K_def L_def)
  with 1 2 have "revoked_store ''system:auto_offline'' (K \<union> L) now s (fold (auto_revoke_one x c now) es s1)"
    by (rule revoked_store_trans)
  moreover have "fst ` set (filter (\<lambda>e. offline_entry c (snd e)) (e # es)) = K \<union> L"
    by (auto simp: K_def L_def)
  ultimately show ?case by (simp add: s1_def)
qed

section \<open>Deletions\<close>

lemma index_ok_delete:
  assumes ok: "index_ok hashf idx m" and ses: "gm_get m sid = Some ses"
  shows "index_ok hashf (gm_del (hashf ses) idx) (gm_del sid m)"
  unfolding index_ok_def
proof (intro conjI allI impI)
  fix h k assume "gm_get (gm_del (hashf ses) idx) h = Some k"
  then have h: "h \<noteq> hashf ses" "gm_get idx h = Some k" by (auto split: if_splits)
  then obtain c where "gm_get m k = Some c" "hashf c = h" "h \<noteq> []"
    using ok unfolding index_ok_def by blast
  then show "\<exists>c. gm_get (gm_del sid m) k = Some c \<and> hashf c = h \<and> h \<noteq> []"
    using h(1) ses by auto
next
  fix k c assume c: "gm_get (gm_del sid m) k = Some c" "hashf c \<noteq> []"
  then have k: "k \<noteq> sid" "gm_get m k = Some c" by (auto split: if_splits)
  then have "gm_get idx (hashf c) = Some k" using ok c(2) unfolding index_ok_def by blast
  moreover have "hashf c \<noteq> hashf ses"
  proof
    assume eq: "hashf c = hashf ses"
    then have "gm_get idx (hashf ses) = Some sid" using ok c(2) ses unfolding index_ok_def by simp
    with calculation eq k(1) show False by simp
  qed
  ultimately show "gm_get (gm_del (hashf ses) idx) (hashf c) = Some k" by simp
qed

lemma deleteSession_frame [simp]:
  "st_Users (deleteSessionLocked sid s) = st_Users s"
  "st_Devices (deleteSessionLocked sid s) = st_Devices s"
  "st_Audits (deleteSessionLocked sid s) = st_Audits s"
  "st_Sessions (deleteSessionLocked sid s) = gm_del sid (st_Sessions s)"
  by (simp_all add: deleteSessionLocked_def unindexSession_def Let_def split: option.splits)

lemma gm_del_absent: "gm_get m k = None \<Longrightarrow> gm_del k m = m"
  by (simp add: gm_del_def gm_get_None_iff) (metis (mono_tags, lifting) filter_True image_eqI)

lemma deleteSession_inv:
  assumes inv: "account_inv s"
  shows "account_inv (deleteSessionLocked sid s)"
proof (cases "gm_get (st_Sessions s) sid")
  case None
  then show ?thesis
    using inv by (subst account_inv_cong [of _ s])
      (simp_all add: deleteSessionLocked_def unindexSession_def Let_def gm_del_absent)
next
  case (Some ses)
  note tok = tables_okD [OF account_invD(1) [OF inv]]
  have idx: "st_sessionByTokenHash (deleteSessionLocked sid s) = gm_del (s_TokenHash ses) (st_sessionByTokenHash s)"
    "st_sessionBySubscribeHash (deleteSessionLocked sid s) =
       gm_del (s_SubscribeTokenHash ses) (st_sessionBySubscribeHash s)"
    using Some by (simp_all add: deleteSessionLocked_def unindexSession_def Let_def)
  have "tables_ok (deleteSessionLocked sid s)" using tok by (simp add: tables_ok_def ids_match_del)
  moreover have "sessions_backed (deleteSessionLocked sid s)"
    using account_invD(3) [OF inv] by (simp add: sessions_backed_def)
  moreover have "one_active_session (gm_del sid (st_Sessions s))"
    using account_invD(4) [OF inv] unfolding one_active_session_def by (auto split: if_splits)
  ultimately show ?thesis
    using account_invD(2) [OF inv] index_ok_delete [OF account_invD(5) [OF inv] Some]
      index_ok_delete [OF account_invD(6) [OF inv] Some] idx
    by (simp add: account_inv_def)
qed

lemma drop_loop_inv:
  "account_inv s \<Longrightarrow> account_inv (fold (drop_session_of did) es s)"
  by (rule fold_invariant) (simp_all add: drop_session_of_def deleteSession_inv)

lemma drop_loop_frame [simp]:
  "st_Users (fold (drop_session_of did) es s) = st_Users s"
  "st_Devices (fold (drop_session_of did) es s) = st_Devices s"
  by (induction es arbitrary: s) (simp_all add: drop_session_of_def)

lemma drop_loop_get:
  "gm_get (st_Sessions (fold (drop_session_of did) es s)) k =
     (if \<exists>e \<in> set es. fst e = k \<and> s_DeviceID (snd e) = did then None else gm_get (st_Sessions s) k)"
  by (induction es arbitrary: s) (auto simp: drop_session_of_def)

lemma drop_all_get:
  assumes "gm_wf (st_Sessions s)"
  shows "gm_get (st_Sessions (fold (drop_session_of did) (st_Sessions s) s)) k =
    (case gm_get (st_Sessions s) k of
       None \<Rightarrow> None | Some ses \<Rightarrow> if s_DeviceID ses = did then None else Some ses)"
proof (cases "gm_get (st_Sessions s) k")
  case None
  then show ?thesis by (simp add: drop_loop_get)
next
  case (Some ses)
  have "(\<exists>e \<in> set (st_Sessions s). fst e = k \<and> s_DeviceID (snd e) = did) \<longleftrightarrow> s_DeviceID ses = did"
    using gm_wf_get [OF assms, of k] Some by force
  then show ?thesis using Some by (simp add: drop_loop_get)
qed

lemma deleteDevice_inv:
  assumes inv: "account_inv s"
    and none: "\<And>k ses. gm_get (st_Sessions s) k = Some ses \<Longrightarrow> s_DeviceID ses \<noteq> did"
  shows "account_inv (deleteDeviceLocked did s)"
proof -
  note tok = tables_okD [OF account_invD(1) [OF inv]]
  have "tables_ok (deleteDeviceLocked did s)"
    using tok by (simp add: tables_ok_def deleteDeviceLocked_def ids_match_del)
  moreover have "sessions_backed (deleteDeviceLocked did s)"
    using account_invD(3) [OF inv] none
    by (auto simp: sessions_backed_def session_backed_def deleteDeviceLocked_def)
  moreover have "one_record_per_hash (gm_del did (st_Devices s))"
    using account_invD(2) [OF inv] unfolding one_record_per_hash_def by (auto split: if_splits)
  ultimately show ?thesis
    using account_invD(4-6) [OF inv] by (simp add: account_inv_def deleteDeviceLocked_def)
qed

lemma remove_one_inv:
  assumes inv: "account_inv s"
  shows "account_inv (remove_one c e s)"
proof (cases "stale_revoked c (snd e)")
  case True
  have "account_inv (fold (drop_session_of (fst e)) (st_Sessions s) s)" using inv by (rule drop_loop_inv)
  moreover have "s_DeviceID ses \<noteq> fst e"
    if "gm_get (st_Sessions (fold (drop_session_of (fst e)) (st_Sessions s) s)) k = Some ses" for k ses
    using that tables_okD(3) [OF account_invD(1) [OF inv]]
    by (simp add: drop_all_get split: option.splits if_splits)
  ultimately show ?thesis using True by (simp add: remove_one_def deleteDevice_inv)
qed (simp add: remove_one_def inv)

lemma remove_one_frame:
  "st_Users (remove_one c e s) = st_Users s"
  "st_Devices (remove_one c e s) =
     (if stale_revoked c (snd e) then gm_del (fst e) (st_Devices s) else st_Devices s)"
  by (simp_all add: remove_one_def deleteDeviceLocked_def)

lemma remove_one_sessions:
  "gm_wf (st_Sessions s) \<Longrightarrow> gm_get (st_Sessions (remove_one c e s)) k =
     (case gm_get (st_Sessions s) k of
        None \<Rightarrow> None
      | Some ses \<Rightarrow> if stale_revoked c (snd e) \<and> s_DeviceID ses = fst e then None else Some ses)"
  by (auto simp: remove_one_def deleteDeviceLocked_def drop_all_get split: option.splits)

lemma remove_loop:
  assumes "account_inv s"
  shows "account_inv (fold (remove_one c) es s) \<and> st_Users (fold (remove_one c) es s) = st_Users s \<and>
    (\<forall>k. gm_get (st_Devices (fold (remove_one c) es s)) k =
       (if k \<in> fst ` set (filter (\<lambda>e. stale_revoked c (snd e)) es) then None else gm_get (st_Devices s) k)) \<and>
    (\<forall>k. gm_get (st_Sessions (fold (remove_one c) es s)) k =
       (case gm_get (st_Sessions s) k of
          None \<Rightarrow> None
        | Some ses \<Rightarrow>
            if s_DeviceID ses \<in> fst ` set (filter (\<lambda>e. stale_revoked c (snd e)) es) then None else Some ses))"
  using assms
proof (induction es arbitrary: s)
  case Nil
  then show ?case by (auto split: option.splits)
next
  case (Cons e es)
  have inv1: "account_inv (remove_one c e s)" using Cons.prems by (rule remove_one_inv)
  note IH = Cons.IH [OF inv1]
  have wf: "gm_wf (st_Sessions s)" using tables_okD(3) [OF account_invD(1) [OF Cons.prems]] .
  show ?case
    using IH by (auto simp: remove_one_frame remove_one_sessions [OF wf] split: option.splits)
qed

section \<open>The whole cleanup\<close>

text \<open>What the cleanup makes of a device and of a session.\<close>

definition cleaned_device :: "time \<Rightarrow> time \<Rightarrow> time \<Rightarrow> DeviceRecord \<Rightarrow> DeviceRecord option" where
  "cleaned_device c90 c30 now d =
     (if offline_entry c30 d then Some (revoked_record ''system:auto_offline'' now d)
      else if stale_revoked c90 d then None else Some d)"

definition cleaned_session ::
    "time \<Rightarrow> time \<Rightarrow> time \<Rightarrow> DeviceRecord gomap \<Rightarrow> SessionRecord \<Rightarrow> SessionRecord option" where
  "cleaned_session c90 c30 now ds ses =
     (case gm_get ds (s_DeviceID ses) of
        None \<Rightarrow> Some ses
      | Some d \<Rightarrow>
          if offline_entry c30 d then Some (revoke_session_of {s_DeviceID ses} now ses)
          else if stale_revoked c90 d then None else Some ses)"

lemma offline_not_stale: "offline_entry c30 d \<Longrightarrow> \<not> stale_revoked c90 d"
  by (auto simp: offline_entry_def stale_revoked_def)

lemma cleanup_effect:
  fixes x io t90 t30 now s
  assumes inv: "account_inv s" and clock: "t90 \<le> now"
  defines "s' \<equiv> cleanupRevokedDevices x io t90 t30 now s"
    and "c90 \<equiv> t90 + - hours (90 * 24)" and "c30 \<equiv> t30 + - hours (30 * 24)"
  shows "account_inv s'" and "st_Users s' = st_Users s"
    and "gm_get (st_Devices s') k = Option.bind (gm_get (st_Devices s) k) (cleaned_device c90 c30 now)"
    and "gm_get (st_Sessions s') k =
      Option.bind (gm_get (st_Sessions s) k) (cleaned_session c90 c30 now (st_Devices s))"
proof -
  note tok = tables_okD [OF account_invD(1) [OF inv]]
  define s1 where "s1 = fold (auto_revoke_one x c30 now) (st_Devices s) s"
  define s2 where "s2 = fold (remove_one c90) (st_Devices s1) s1"
  define K where "K = fst ` set (filter (\<lambda>e. offline_entry c30 (snd e)) (st_Devices s))"
  define R where "R = fst ` set (filter (\<lambda>e. stale_revoked c90 (snd e)) (st_Devices s1))"
  have r1: "revoked_store ''system:auto_offline'' K now s s1"
    unfolding K_def s1_def using tok(2,3,5) by (intro auto_revoke_loop) (auto simp: ids_match_def)
  have inv1: "account_inv s1" using inv r1 by (rule revoked_store_inv)
  note rl = remove_loop [OF inv1, of c90 "st_Devices s1", folded s2_def R_def]
  have s': "s' = s2 \<or> s' = snd (saveLocked x io s2)"
    unfolding s'_def cleanupRevokedDevices_def Let_def s2_def s1_def c90_def c30_def by simp
  have K: "k \<in> K \<longleftrightarrow> (\<exists>d. gm_get (st_Devices s) k = Some d \<and> offline_entry c30 d)" for k
    using filter_keys [OF tok(2), of "offline_entry c30"] by (simp add: K_def gm_filter_def)
  have wf1: "gm_wf (st_Devices s1)" using r1 tok(2) by (simp add: revoked_store_def)
  have R: "k \<in> R \<longleftrightarrow> (\<exists>d. gm_get (st_Devices s1) k = Some d \<and> stale_revoked c90 d)" for k
    using filter_keys [OF wf1, of "stale_revoked c90"] by (simp add: R_def gm_filter_def)
  have fresh_revoked: "\<not> stale_revoked c90 (revoked_record a now d)" for a d
    using clock by (simp add: stale_revoked_def revoked_record_def c90_def)
  have R': "k \<in> R \<longleftrightarrow> (\<exists>d. gm_get (st_Devices s) k = Some d \<and> \<not> offline_entry c30 d \<and> stale_revoked c90 d)" for k
  proof (cases "k \<in> K")
    case True
    then obtain d where d: "gm_get (st_Devices s) k = Some d" "offline_entry c30 d" using K by blast
    then have "gm_get (st_Devices s1) k = Some (revoked_record ''system:auto_offline'' now d)"
      using r1 True by (simp add: revoked_store_def)
    then show ?thesis using d R fresh_revoked by auto
  next
    case False
    then have "gm_get (st_Devices s1) k = gm_get (st_Devices s) k" using r1 by (simp add: revoked_store_def)
    then show ?thesis using False K R by auto
  qed
  show "account_inv s'" using s' rl by auto
  show "st_Users s' = st_Users s" using s' rl r1 by (auto simp: revoked_store_def)
  have "gm_get (st_Devices s2) k = Option.bind (gm_get (st_Devices s) k) (cleaned_device c90 c30 now)"
  proof (cases "gm_get (st_Devices s) k")
    case None
    then show ?thesis using rl r1 by (simp add: revoked_store_def)
  next
    case (Some d)
    then show ?thesis
      using rl r1 K [of k] R' [of k] by (auto simp: revoked_store_def cleaned_device_def)
  qed
  then show "gm_get (st_Devices s') k = Option.bind (gm_get (st_Devices s) k) (cleaned_device c90 c30 now)"
    using s' by auto
  have "gm_get (st_Sessions s2) k =
      Option.bind (gm_get (st_Sessions s) k) (cleaned_session c90 c30 now (st_Devices s))"
  proof (cases "gm_get (st_Sessions s) k")
    case None
    then show ?thesis using rl r1 by (simp add: revoked_store_def)
  next
    case (Some ses)
    have "gm_get (st_Sessions s1) k = Some (revoke_session_of K now ses)"
      using Some r1 by (simp add: revoked_store_def)
    then have "gm_get (st_Sessions s2) k =
        (if s_DeviceID ses \<in> R then None else Some (revoke_session_of K now ses))"
      using rl by simp
    moreover have "revoke_session_of K now ses =
        (if s_DeviceID ses \<in> K then revoke_session_of {s_DeviceID ses} now ses else ses)"
      by (simp add: revoke_session_of_def)
    ultimately show ?thesis
      using Some K [of "s_DeviceID ses"] R' [of "s_DeviceID ses"] offline_not_stale
      by (auto simp: cleaned_session_def split: option.splits)
  qed
  then show "gm_get (st_Sessions s') k =
      Option.bind (gm_get (st_Sessions s) k) (cleaned_session c90 c30 now (st_Devices s))"
    using s' by auto
qed

text \<open>
  The cleanup revokes exactly the active devices unseen for 30 days, with their
  active sessions, removes exactly the devices revoked more than 90 days ago, with all their
  sessions, and leaves every other device, every other session and every user as they are.
\<close>

theorem cleanup_exact:
  assumes "account_inv s" and "t90 \<le> now"
  shows "(let s' = cleanupRevokedDevices x io t90 t30 now s;
              c90 = t90 + - hours (90 * 24); c30 = t30 + - hours (30 * 24)
          in st_Users s' = st_Users s \<and>
             (\<forall>k. gm_get (st_Devices s') k =
                (case gm_get (st_Devices s) k of
                   None \<Rightarrow> None
                 | Some d \<Rightarrow>
                     if d_Status d = statusActive \<and> d_LastSeenAt d < c30
                     then Some (revoked_record ''system:auto_offline'' now d)
                     else if d_Status d = statusRevoked \<and>
                             (case d_RevokedAt d of None \<Rightarrow> False | Some t \<Rightarrow> t < c90)
                     then None else Some d)) \<and>
             (\<forall>k. gm_get (st_Sessions s') k =
                Option.bind (gm_get (st_Sessions s) k) (cleaned_session c90 c30 now (st_Devices s))))"
proof -
  note eff = cleanup_effect [OF assms, of x io t30]
  have "Option.bind m (cleaned_device c90 c30 now) =
      (case m of None \<Rightarrow> None
       | Some d \<Rightarrow> if d_Status d = statusActive \<and> d_LastSeenAt d < c30
           then Some (revoked_record ''system:auto_offline'' now d)
           else if d_Status d = statusRevoked \<and>
                   (case d_RevokedAt d of None \<Rightarrow> False | Some t \<Rightarrow> t < c90)
           then None else Some d)" for m c90 c30
    by (cases m) (simp_all add: cleaned_device_def offline_entry_def stale_revoked_def)
  then show ?thesis using eff(2-4) unfolding Let_def by metis
qed

theorem cleanup_exact_witness:
  "gm_get (st_Devices (cleanupRevokedDevices demo_ext SaveOk 9000000000000000 9000000000000000
      9000000000000000 demo_store)) ''D'' =
    Some (revoked_record ''system:auto_offline'' 9000000000000000 demo_device)"
proof -
  have d: "gm_get (st_Devices demo_store) ''D'' = Some demo_device" by (simp add: demo_store_def)
  have c: "d_Status demo_device = statusActive" "d_LastSeenAt demo_device = 1"
    by (simp_all add: demo_device_def)
  from cleanup_exact [OF demo_store_inv, of 9000000000000000 9000000000000000 demo_ext SaveOk 9000000000000000]
  show ?thesis by (auto simp: Let_def d c)
qed

end
