(* ===== verification/AuthProps.thy ===== *)
theory AuthProps
  imports Cleanup
begin

text \<open>
  The properties of authorization: who gets in, who is turned away and with which code, and
  the admin gate.
\<close>

section \<open>Who gets in\<close>

lemma token_hash_nonempty:
  "grants now hashf h s ctx \<Longrightarrow> h \<noteq> []"
  by (auto simp: grants_def)

lemma authorized_grants:
  assumes "account_inv s" and "authorizeWithReload x cfg key io now now' r None others s = (Inr ctx, s')"
    and "\<forall>t. account_inv t \<longrightarrow> account_inv (others t)"
  shows "grants now s_TokenHash
    (hashValue x cfg ''session'' (bearerToken x (header_get (rq_Header r) ''Authorization''))) s ctx"
proof -
  define tok where "tok = bearerToken x (header_get (rq_Header r) ''Authorization'')"
  have run: "with_reload (authorize_pass x cfg key io now r tok) (authorize_pass x cfg key io now' r tok)
      None others s = (Inr ctx, s')"
    using assms(2) by (auto simp: authorizeWithReload_def Let_def tok_def split: if_splits)
  then show ?thesis
    using token_gate.reload_sound [OF assms(1) run] assms(3) by (auto simp: tok_def)
qed

text \<open>
  Property C32. Authorization is sound: a request is let in only with a token whose hash some
  store carries - the gateway's own or the one it reloaded from PostgreSQL during this
  request - on an active, unexpired session of an active device that belongs to the session's
  existing user, and the context it gets names exactly these three records.
\<close>

theorem authorize_sound:
  assumes "account_inv s"
    and "authorizeWithReload x cfg key io now now' r loaded others s = (Inr ctx, s')"
    and "\<forall>t. account_inv t \<longrightarrow> account_inv (others t)"
    and "\<forall>sp. loaded = Some sp \<longrightarrow> snapshot_inv sp"
  shows "\<exists>t tm k ses d u. (t = s \<and> tm = now \<or>
      (\<exists>sp t0. loaded = Some sp \<and> t = rebuildSessionIndexesLocked (install_snapshot sp t0) \<and> tm = now')) \<and>
    gm_get (st_Sessions t) k = Some ses \<and>
    s_TokenHash ses =
      hashValue x cfg ''session'' (bearerToken x (header_get (rq_Header r) ''Authorization'')) \<and>
    s_Status ses = statusActive \<and> tm \<le> s_ExpiresAt ses \<and>
    gm_get (st_Devices t) (s_DeviceID ses) = Some d \<and> d_Status d = statusActive \<and>
    d_UserID d = s_UserID ses \<and> gm_get (st_Users t) (s_UserID ses) = Some u \<and>
    ctx_User ctx = u \<and> d_ID (ctx_Device ctx) = s_DeviceID ses \<and> s_ID (ctx_Session ctx) = k"
proof -
  define tok where "tok = bearerToken x (header_get (rq_Header r) ''Authorization'')"
  have run: "with_reload (authorize_pass x cfg key io now r tok) (authorize_pass x cfg key io now' r tok)
      loaded others s = (Inr ctx, s')"
    using assms(2) by (auto simp: authorizeWithReload_def Let_def tok_def split: if_splits)
  have "grants now s_TokenHash (hashValue x cfg ''session'' tok) s ctx \<or>
    (\<exists>sp t0. loaded = Some sp \<and> account_inv t0 \<and> grants now' s_TokenHash (hashValue x cfg ''session'' tok)
       (rebuildSessionIndexesLocked (install_snapshot sp t0)) ctx)"
    by (rule token_gate.reload_sound [OF assms(1) run]) (use assms(3,4) reload_account_inv in blast)+
  then obtain t tm where t: "t = s \<and> tm = now \<or>
      (\<exists>sp t0. loaded = Some sp \<and> t = rebuildSessionIndexesLocked (install_snapshot sp t0) \<and> tm = now')"
    "grants tm s_TokenHash (hashValue x cfg ''session'' tok) t ctx"
    by blast
  from t(2) obtain k ses d u where g: "gm_get (st_Sessions t) k = Some ses"
    "s_TokenHash ses = hashValue x cfg ''session'' tok" "s_Status ses = statusActive"
    "tm \<le> s_ExpiresAt ses" "gm_get (st_Devices t) (s_DeviceID ses) = Some d" "d_Status d = statusActive"
    "gm_get (st_Users t) (s_UserID ses) = Some u" "d_UserID d = s_UserID ses"
    "s_ID (ctx_Session ctx) = k" "d_ID (ctx_Device ctx) = s_DeviceID ses" "ctx_User ctx = u"
    unfolding grants_def by blast
  show ?thesis
    unfolding tok_def [symmetric]
    by (intro exI [of _ t] exI [of _ tm] exI [of _ k] exI [of _ ses] exI [of _ d] exI [of _ u] conjI)
       (use t(1) g in simp_all)
qed

theorem authorize_sound_witness:
  "\<exists>ctx s'. authorizeWithReload demo_ext demo_cfg demo_key SaveOk 9 9
      (demo_request [(''Authorization'', [''Bearer '' @ ''t''])]) None (\<lambda>s. s) demo_store = (Inr ctx, s') \<and> ctx_User ctx = demo_user \<and> s_ID (ctx_Session ctx) = ''S''"
proof -
  have "\<not> isl (fst (authorizeWithReload demo_ext demo_cfg demo_key SaveOk 9 9
      (demo_request [(''Authorization'', [''Bearer '' @ ''t''])]) None (\<lambda>s. s) demo_store))" by code_simp
  then obtain ctx s' where r: "authorizeWithReload demo_ext demo_cfg demo_key SaveOk 9 9
      (demo_request [(''Authorization'', [''Bearer '' @ ''t''])]) None (\<lambda>s. s) demo_store = (Inr ctx, s')" by (metis prod.collapse sum.collapse(2))
  have i: "\<forall>t. account_inv t \<longrightarrow> account_inv t" "\<forall>sp. None = Some sp \<longrightarrow> snapshot_inv sp" by auto
  have d: "gm_get (st_Sessions demo_store) k = Some ses \<Longrightarrow> k = ''S'' \<and> s_UserID ses = ''U''" for k ses
    by (auto simp: demo_store_def demo_session_def split: if_splits)
  have u: "gm_get (st_Users demo_store) ''U'' = Some demo_user" by (simp add: demo_store_def)
  from authorize_sound [OF demo_store_inv r i] d u r show ?thesis by auto
qed

text \<open>
  The same for a subscription link: its token opens the subscription only while the
  session it was issued with is active and unexpired on an active device.
\<close>

theorem subscribe_sound:
  assumes "account_inv s" and "loaded = None"
    and "authorizeSubscribeTokenWithReload x cfg key io now now' r token loaded others s = (Inr ctx, s')"
    and "\<forall>t. account_inv t \<longrightarrow> account_inv (others t)"
  shows "\<exists>k ses d. gm_get (st_Sessions s) k = Some ses \<and>
    s_SubscribeTokenHash ses = hashValue x cfg ''subscribe'' token \<and>
    s_Status ses = statusActive \<and> now \<le> s_ExpiresAt ses \<and>
    gm_get (st_Devices s) (s_DeviceID ses) = Some d \<and> d_Status d = statusActive \<and>
    s_ID (ctx_Session ctx) = k \<and> ctx_SubscribeToken ctx = token"
proof -
  have run: "with_reload (subscribe_pass x cfg key io now r token)
      (subscribe_pass x cfg key io now' r token) loaded others s = (Inr ctx, s')"
    using assms(3) by (simp add: authorizeSubscribeTokenWithReload_def)
  have "grants now s_SubscribeTokenHash (hashValue x cfg ''subscribe'' token) s ctx"
    using subscribe_gate.reload_sound [OF assms(1) run] assms(2,4) by auto
  moreover obtain s1 where "subscribe_pass x cfg key io now r token s = (Some (Inr ctx), s1)"
    using run assms(2)
    by (auto simp: with_reload_def reloadFromPostgresOnMiss_def split: prod.splits option.splits if_splits)
  then have "ctx_SubscribeToken ctx = token"
    by (auto simp: subscribe_pass_def Let_def split: prod.splits section_result.splits if_splits option.splits)
  ultimately show ?thesis unfolding grants_def by blast
qed

theorem subscribe_sound_witness:
  "\<exists>ctx s'. authorizeSubscribeTokenWithReload demo_ext demo_cfg demo_key SaveOk 9 9 (demo_request []) ''u''
      None (\<lambda>s. s) demo_store = (Inr ctx, s') \<and> s_ID (ctx_Session ctx) = ''S'' \<and> ctx_SubscribeToken ctx = ''u''"
proof -
  have "\<not> isl (fst (authorizeSubscribeTokenWithReload demo_ext demo_cfg demo_key SaveOk 9 9 (demo_request []) ''u''
      None (\<lambda>s. s) demo_store))" by code_simp
  then obtain ctx s' where r: "authorizeSubscribeTokenWithReload demo_ext demo_cfg demo_key SaveOk 9 9 (demo_request []) ''u''
      None (\<lambda>s. s) demo_store = (Inr ctx, s')" by (metis prod.collapse sum.collapse(2))
  have i: "\<forall>t. account_inv t \<longrightarrow> account_inv t" by auto
  have d: "gm_get (st_Sessions demo_store) k = Some ses \<Longrightarrow> k = ''S''" for k ses
    by (simp add: demo_store_def split: if_splits)
  from subscribe_sound [OF demo_store_inv refl r i] d r show ?thesis by auto
qed

section \<open>Who is turned away\<close>

text \<open>The error a revocation leaves on the sessions of the device.\<close>

definition revocation_error :: "string \<Rightarrow> auth_error" where
  "revocation_error actor =
     (if actor = ''system:kick_oldest''
      then AuthCoded ''DEVICE_KICKED_BY_NEW_LOGIN''
             ''This device was signed out because the account logged in on another device''
      else AuthCoded ''DEVICE_REVOKED'' ''This device has been removed'')"

lemma known_session_result:
  assumes inv: "account_inv s" and ses: "gm_get (st_Sessions s) sid = Some ses"
    and hash: "s_TokenHash ses = hashValue x cfg ''session'' tok" "hashValue x cfg ''session'' tok \<noteq> []"
    and tok: "bearerToken x (header_get (rq_Header r) ''Authorization'') = tok" "tok \<noteq> []"
    and bad: "s_Status ses \<noteq> statusActive \<or> now > s_ExpiresAt ses"
  shows "authorizeWithReload x cfg key io now now' r loaded others s =
    (Inl (sessionAuthorizationErrorLocked ses now s),
     if s_Status ses = statusActive
     then snd (saveLocked x io (markSessionLocked (s_ID ses)
       (s\<lparr>st_Sessions := gm_mod sid (\<lambda>b. b\<lparr>s_Status := statusExpired\<rparr>) (st_Sessions s)\<rparr>)))
     else s)"
proof -
  have "gm_get (st_sessionByTokenHash s) (hashValue x cfg ''session'' tok) = Some sid"
    using account_invD(5) [OF inv] ses hash unfolding index_ok_def by metis
  moreover have "sid \<noteq> []" using tables_okD(7) [OF account_invD(1) [OF inv]] ses by auto
  ultimately show ?thesis
    using tok ses bad
    by (auto simp: authorizeWithReload_def with_reload_def authorize_pass_def session_section_def Let_def)
qed



text \<open>
  An expired session is turned away and put to rest: the request is answered with
  \<open>DEVICE_SESSION_EXPIRED\<close>, and the session is left with the status expired, so that it never
  becomes usable again.
\<close>

theorem expired_session_denied:
  assumes "account_inv s" and "gm_get (st_Sessions s) sid = Some ses" and "s_Status ses = statusActive"
    and "s_ExpiresAt ses < now"
    and "s_TokenHash ses = hashValue x cfg ''session'' tok" and "hashValue x cfg ''session'' tok \<noteq> []"
    and "bearerToken x (header_get (rq_Header r) ''Authorization'') = tok" and "tok \<noteq> []"
  shows "let (res, s') = authorizeWithReload x cfg key io now now' r loaded others s in
    res = Inl (AuthCoded ''DEVICE_SESSION_EXPIRED'' ''Device session has expired'') \<and>
    gm_get (st_Sessions s') sid = Some (ses\<lparr>s_Status := statusExpired\<rparr>) \<and>
    (\<forall>k. k \<noteq> sid \<longrightarrow> gm_get (st_Sessions s') k = gm_get (st_Sessions s) k) \<and>
    st_Devices s' = st_Devices s \<and> st_Users s' = st_Users s"
proof -
  have "sessionAuthorizationErrorLocked ses now s =
      AuthCoded ''DEVICE_SESSION_EXPIRED'' ''Device session has expired''"
    using assms(3,4) by (simp add: sessionAuthorizationErrorLocked_def Let_def)
  then show ?thesis
    using known_session_result [OF assms(1,2,5,6,7,8), of now key io now' loaded others] assms(2,3,4)
    by simp
qed

theorem expired_session_denied_witness:
  "let (res, s') = authorizeWithReload demo_ext demo_cfg demo_key SaveOk 101 101
      (demo_request [(''Authorization'', [''Bearer '' @ ''t''])]) None (\<lambda>s. s) demo_store in
    res = Inl (AuthCoded ''DEVICE_SESSION_EXPIRED'' ''Device session has expired'') \<and>
    gm_get (st_Sessions s') ''S'' = Some (demo_session\<lparr>s_Status := statusExpired\<rparr>)"
proof -
  have b: "bearerToken demo_ext (''Bearer '' @ ''t'') = ''t''" by code_simp
  have h: "s_TokenHash demo_session = hashValue demo_ext demo_cfg ''session'' ''t''"
    "hashValue demo_ext demo_cfg ''session'' ''t'' \<noteq> []" by code_simp+
  have g: "gm_get (st_Sessions demo_store) ''S'' = Some demo_session" by (simp add: demo_store_def)
  have f: "s_Status demo_session = statusActive" "s_ExpiresAt demo_session < 101"
    by (simp_all add: demo_session_def)
  have t: "bearerToken demo_ext (header_get (rq_Header (demo_request
      [(''Authorization'', [''Bearer '' @ ''t''])])) ''Authorization'') = ''t''"
    by (simp only: demo_bearer b)
  show ?thesis
    using expired_session_denied [OF demo_store_inv g f h t, of demo_key SaveOk 101 None "\<lambda>s. s"]
    by (auto simp: Let_def split: prod.splits)
qed

section \<open>The admin gate\<close>

text \<open>
  The administration API is closed unless a token is configured and the request
  carries exactly that token, in its own header or, when that header is absent, as bearer.
\<close>

theorem admin_gate:
  "requireAdmin x cfg r = None \<longleftrightarrow>
     cfg_AdminToken cfg \<noteq> [] \<and>
     (header_get (rq_Header r) ''X-Admin-Token'' = cfg_AdminToken cfg \<or>
      header_get (rq_Header r) ''X-Admin-Token'' = [] \<and>
      bearerToken x (header_get (rq_Header r) ''Authorization'') = cfg_AdminToken cfg)"
  by (auto simp: requireAdmin_def constantTimeEqual_def Let_def)

end
