(* ===== verification/Reachable.thy ===== *)
theory Reachable
  imports Business AuthProps
begin

text \<open>
  The account tables as one transition system: every critical section that changes them is a
  step, the invariant of AccountInv is kept by each, and the property of the reachable stores
  follows from the contract \<open>guarded_system\<close>.
\<close>

section \<open>The account system\<close>

text \<open>
  The steps on the account tables: each critical section of a handler or of a background
  loop. A reload installs a snapshot that satisfies the invariant, which is what the gateway
  itself saves (\<open>snapshot_of_inv\<close>). Range order: any arrangement of the tables.
\<close>

definition same_entries :: "Store \<Rightarrow> Store \<Rightarrow> bool" where
  "same_entries s s' =
     (\<exists>us ds ss. mset us = mset (st_Users s) \<and> mset ds = mset (st_Devices s) \<and>
        mset ss = mset (st_Sessions s) \<and>
        s' = s\<lparr>st_Users := us, st_Devices := ds, st_Sessions := ss\<rparr>)"

lemma same_entries_fields:
  assumes "same_entries s s'"
  shows "mset (st_Users s') = mset (st_Users s)" "mset (st_Devices s') = mset (st_Devices s)"
    "mset (st_Sessions s') = mset (st_Sessions s)"
    "st_sessionByTokenHash s' = st_sessionByTokenHash s"
    "st_sessionBySubscribeHash s' = st_sessionBySubscribeHash s"
    "st_pg s' = st_pg s" "st_revision s' = st_revision s" "st_dirtyUsers s' = st_dirtyUsers s"
    "st_dirtyDevices s' = st_dirtyDevices s" "st_dirtySessions s' = st_dirtySessions s"
    "st_dirtyAudits s' = st_dirtyAudits s" "st_deletedDevices s' = st_deletedDevices s"
    "st_deletedSessions s' = st_deletedSessions s" "st_deletedAudits s' = st_deletedAudits s"
  using assms by (auto simp: same_entries_def)

inductive section_step :: "ext \<Rightarrow> Config \<Rightarrow> string \<Rightarrow> Store \<Rightarrow> Store \<Rightarrow> bool"
  for x :: ext and cfg :: Config and key :: string where
  admit: "fresh_draws x cfg s (snd (admitDevice x cfg key io now r req sn bt s)) \<Longrightarrow>
     section_step x cfg key s (snd (admitDevice x cfg key io now r req sn bt s))"
| authorize: "section_step x cfg key s (snd (authorize_pass x cfg key io now r token s))"
| subscribe: "section_step x cfg key s (snd (subscribe_pass x cfg key io now r token s))"
| revoke: "section_step x cfg key s (snd (revoke_section x cfg io now r actor uid did s))"
| patch: "section_step x cfg key s (snd (handleAdminPatchDeviceLimit x cfg io now r body userKey s))"
| cleanup: "t90 \<le> now \<Longrightarrow> section_step x cfg key s (cleanupRevokedDevices x io t90 t30 now s)"
| subscription: "section_step x cfg key s (store_subscription x io now sn k sid cipher s)"
| sub_url: "section_step x cfg key s (remember_sub_url x io sid cipher s)"
| save: "section_step x cfg key s (snd (saveLocked x io s))"
| reorder: "same_entries s s' \<Longrightarrow> section_step x cfg key s s'"

inductive account_step :: "ext \<Rightarrow> Config \<Rightarrow> string \<Rightarrow> Store \<Rightarrow> Store \<Rightarrow> bool"
  for x :: ext and cfg :: Config and key :: string where
  locked: "section_step x cfg key s t \<Longrightarrow> account_step x cfg key s t"
| reload: "snapshot_inv sp \<Longrightarrow>
     account_step x cfg key s (rebuildSessionIndexesLocked (install_snapshot sp s))"

inductive_cases account_stepE: "account_step x cfg key s t"

lemma wf_get_perm:
  assumes "gm_wf m" and "mset m' = mset m"
  shows "gm_get m' k = gm_get m k"
  using assms map_of_inject_set [of m' m]
  by (metis mset_eq_setD mset_eq_imp_distinct_iff mset_map)

lemma ids_match_perm: "mset m' = mset m \<Longrightarrow> ids_match idf m \<Longrightarrow> ids_match idf m'"
  unfolding ids_match_def by (metis mset_eq_setD)

lemma wf_perm: "mset m' = mset m \<Longrightarrow> gm_wf m \<Longrightarrow> gm_wf m'"
  by (metis mset_eq_imp_distinct_iff mset_map)

lemma account_inv_perm:
  assumes inv: "account_inv s" and p: "same_entries s s'"
  shows "account_inv s'"
proof -
  note tok = tables_okD [OF account_invD(1) [OF inv]]
  have us: "gm_get (st_Users s') = gm_get (st_Users s)"
    and ds: "gm_get (st_Devices s') = gm_get (st_Devices s)"
    and ss: "gm_get (st_Sessions s') = gm_get (st_Sessions s)"
    using same_entries_fields(1-3) [OF p] tok wf_get_perm by auto
  have "tables_ok s'"
    using same_entries_fields(1-3) [OF p] tok ss by (auto simp: tables_ok_def intro: wf_perm ids_match_perm)
  then show ?thesis
    using inv same_entries_fields(4,5) [OF p]
    unfolding account_inv_def one_record_per_hash_def sessions_backed_def session_backed_def
      one_active_session_def index_ok_def us ds ss by simp
qed

lemma patch_inv:
  assumes inv: "account_inv s"
  shows "account_inv (snd (handleAdminPatchDeviceLimit x cfg io now r body userKey s))"
proof -
  obtain resp s' where run: "handleAdminPatchDeviceLimit x cfg io now r body userKey s = (resp, s')"
    by (cases "handleAdminPatchDeviceLimit x cfg io now r body userKey s")
  note tok = tables_okD [OF account_invD(1) [OF inv]]
  from patch_limit_store [OF account_invD(1) [OF inv] run] have "account_inv s'"
  proof (elim disjE exE conjE)
    assume "s' = s"
    then show ?thesis using inv by simp
  next
    fix payload l c k u u'
    assume *: "findUserLocked x userKey s = Some (k, u)" "patched_user cfg l c u u'"
      "st_Users s' = gm_mod k (\<lambda>_. u') (st_Users s)" "st_Devices s' = st_Devices s"
      "st_Sessions s' = st_Sessions s" "st_sessionByTokenHash s' = st_sessionByTokenHash s"
      "st_sessionBySubscribeHash s' = st_sessionBySubscribeHash s"
    have u: "gm_get (st_Users s) k = Some u" using findUserLocked_get [OF *(1) tok(1)] .
    have "ids_match u_ID (gm_mod k (\<lambda>_. u') (st_Users s))"
      using tok(4) u *(2) by (intro ids_match_mod) (auto simp: patched_user_def)
    then show ?thesis
      using * tok account_invD(2) [OF inv] u
      by (intro account_inv_weaken [OF inv]) (auto simp: sessions_weaker_refl)
  qed
  then show ?thesis by (simp add: run)
qed

lemma cipher_weaker:
  "sessions_weaker m (gm_mod sid (\<lambda>b. b\<lparr>s_BusinessSubURLCipher := c\<rparr>) m)"
  by (rule sessions_weaker_mod) (simp add: same_session_def)

lemma remember_sub_url_inv:
  assumes inv: "account_inv s"
  shows "account_inv (remember_sub_url x io sid cipher s)"
proof (cases "gm_get (st_Sessions s) sid")
  case None
  then show ?thesis using inv by (simp add: remember_sub_url_def)
next
  case (Some ses)
  note tok = tables_okD [OF account_invD(1) [OF inv]]
  have "account_inv (markSessionLocked (s_ID ses)
      (s\<lparr>st_Sessions := gm_mod sid (\<lambda>b. b\<lparr>s_BusinessSubURLCipher := cipher\<rparr>) (st_Sessions s)\<rparr>))"
    using tok account_invD(2) [OF inv]
    by (intro account_inv_weaken [OF inv]) (auto simp: markSessionLocked_def cipher_weaker)
  then show ?thesis using Some by (simp add: remember_sub_url_def)
qed

lemma refresh_user_ID [simp]: "u_ID (refresh_user sn now u) = u_ID u"
  by (simp add: refresh_user_def)

lemma store_subscription_inv:
  assumes inv: "account_inv s"
  shows "account_inv (store_subscription x io now sn k sid cipher s)"
proof (cases "gm_get (st_Users s) k")
  case None
  then show ?thesis using inv by (simp add: store_subscription_def)
next
  case (Some u)
  note tok = tables_okD [OF account_invD(1) [OF inv]]
  have ids: "ids_match u_ID (gm_mod k (refresh_user sn now) (st_Users s))"
    using tok(4) by (rule ids_match_mod) simp
  define s1 where "s1 = markUserLocked (u_ID u) (s\<lparr>st_Users := gm_mod k (refresh_user sn now) (st_Users s)\<rparr>)"
  have s1: "account_inv s1"
    unfolding s1_def using tok account_invD(2) [OF inv] ids
    by (intro account_inv_weaken [OF inv]) (auto simp: markUserLocked_def sessions_weaker_refl)
  note tok1 = tables_okD [OF account_invD(1) [OF s1]]
  have "account_inv (markSessionLocked (s_ID ses)
      (s1\<lparr>st_Sessions := gm_mod sid (\<lambda>b. b\<lparr>s_BusinessSubURLCipher := cipher\<rparr>) (st_Sessions s1)\<rparr>))" for ses
    using tok1 account_invD(2) [OF s1]
    by (intro account_inv_weaken [OF s1]) (auto simp: markSessionLocked_def cipher_weaker)
  then show ?thesis
    using Some s1 by (auto simp: store_subscription_def Let_def s1_def [symmetric] split: option.splits)
qed

lemma section_step_inv:
  assumes "section_step x cfg key s t" and "account_inv s"
  shows "account_inv t"
  using assms(1)
proof (cases rule: section_step.cases)
  case (admit io now r req sn bt)
  then show ?thesis using admit_account_inv [OF assms(2) surjective_pairing admit(2)] by simp
next
  case (authorize io now r token)
  then show ?thesis using token_gate.pass_inv [OF assms(2)] by simp
next
  case (subscribe io now r token)
  then show ?thesis using subscribe_gate.pass_inv [OF assms(2)] by simp
next
  case (revoke io now r actor uid did)
  then show ?thesis using revoke_section_inv [OF assms(2)] by simp
next
  case (patch io now r body userKey)
  then show ?thesis using patch_inv [OF assms(2)] by simp
next
  case (cleanup t90 now io t30)
  then show ?thesis using cleanup_effect(1) [OF assms(2)] by simp
next
  case (subscription io now sn k sid cipher)
  then show ?thesis using store_subscription_inv [OF assms(2)] by simp
next
  case (sub_url io sid cipher)
  then show ?thesis using remember_sub_url_inv [OF assms(2)] by simp
next
  case (save io)
  then show ?thesis using assms(2) by simp
next
  case reorder
  then show ?thesis using account_inv_perm [OF assms(2)] by simp
qed

interpretation accounts: guarded_system
    "\<lambda>s. \<exists>pg file. s = emptyStore pg file" "account_step x cfg key" account_inv for x cfg key
proof unfold_locales
  show "\<exists>pg file. s = emptyStore pg file \<Longrightarrow> account_inv s" for s
    using empty_account_inv by blast
  show "account_step x cfg key s t \<Longrightarrow> account_inv s \<Longrightarrow> account_inv t" for s t
    by (erule account_stepE) (auto intro: section_step_inv reload_account_inv)
qed

section \<open>Reachable stores\<close>

text \<open>
  Property C3. In every store the gateway can reach from an empty one by any interleaving of
  logins, authorizations, revocations, limit patches, subscription updates, cleanups, saves
  and reloads: an active
  session sits on an active device of its own, existing user; a device has at most one active
  session; a user has one record per device hash; and the token index finds a session by its
  hash exactly when the session is there.
\<close>

theorem reachable_account_tables:
  assumes "(account_step x cfg key)\<^sup>*\<^sup>* (emptyStore pg file) s"
  shows "(\<forall>k ses. gm_get (st_Sessions s) k = Some ses \<longrightarrow> s_Status ses = statusActive \<longrightarrow>
        gm_get (st_Users s) (s_UserID ses) \<noteq> None \<and>
        (\<exists>d. gm_get (st_Devices s) (s_DeviceID ses) = Some d \<and> d_UserID d = s_UserID ses \<and>
             d_Status d = statusActive)) \<and>
    (\<forall>k k' a b. gm_get (st_Sessions s) k = Some a \<longrightarrow> gm_get (st_Sessions s) k' = Some b \<longrightarrow>
        s_Status a = statusActive \<longrightarrow> s_Status b = statusActive \<longrightarrow>
        s_DeviceID a = s_DeviceID b \<longrightarrow> k = k') \<and>
    (\<forall>k k' d d'. gm_get (st_Devices s) k = Some d \<longrightarrow> gm_get (st_Devices s) k' = Some d' \<longrightarrow>
        d_UserID d = d_UserID d' \<longrightarrow> d_DeviceIDHash d = d_DeviceIDHash d' \<longrightarrow> k = k') \<and>
    (\<forall>h k. (gm_get (st_sessionByTokenHash s) h = Some k) =
        (\<exists>ses. h \<noteq> [] \<and> gm_get (st_Sessions s) k = Some ses \<and> s_TokenHash ses = h))"
proof -
  have inv: "account_inv s" using accounts.reachable_safe [OF _ assms] by blast
  have 1: "\<forall>k ses. gm_get (st_Sessions s) k = Some ses \<longrightarrow> s_Status ses = statusActive \<longrightarrow>
        gm_get (st_Users s) (s_UserID ses) \<noteq> None \<and>
        (\<exists>d. gm_get (st_Devices s) (s_DeviceID ses) = Some d \<and> d_UserID d = s_UserID ses \<and>
             d_Status d = statusActive)"
    using account_invD(3) [OF inv]
    by (auto simp: sessions_backed_def session_backed_def is_active_of_def)
  have 2: "\<forall>h k. (gm_get (st_sessionByTokenHash s) h = Some k) =
        (\<exists>ses. h \<noteq> [] \<and> gm_get (st_Sessions s) k = Some ses \<and> s_TokenHash ses = h)"
    using account_invD(5) [OF inv] unfolding index_ok_def by blast
  show ?thesis
    using 1 2 account_invD(2,4) [OF inv] unfolding one_active_session_def one_record_per_hash_def
    by blast
qed

theorem reachable_account_tables_witness:
  "\<exists>s. length (st_Sessions s) = 1 \<and> (account_step demo_ext demo_cfg demo_key)\<^sup>*\<^sup>* (emptyStore None None) s \<and>
     (\<forall>k ses. gm_get (st_Sessions s) k = Some ses \<longrightarrow> s_Status ses = statusActive \<longrightarrow>
        gm_get (st_Users s) (s_UserID ses) \<noteq> None)"
proof -
  define s where "s = snd (admitDevice demo_ext demo_cfg demo_key SaveOk 5 (demo_request [])
    (demo_login ''A'') demo_snapshot ''b'' (emptyStore None None))"
  have e: "fresh_draws demo_ext demo_cfg (emptyStore None None) s \<and> length (st_Sessions s) = 1"
    unfolding s_def by code_simp
  then have r: "(account_step demo_ext demo_cfg demo_key)\<^sup>*\<^sup>* (emptyStore None None) s"
    unfolding s_def by (blast intro: account_step.locked section_step.admit)
  from reachable_account_tables [OF r] r e show ?thesis by metis
qed

end
