(* ===== verification/Persistence.thy ===== *)
theory Persistence
  imports Store
begin

text \<open>
  Why writing only the marked records keeps PostgreSQL equal to the memory of the gateway.
  The contract of one table (its key, its row, the columns an upsert writes) is the locale
  \<open>tracked_table\<close>, interpreted for the users, devices and sessions. \<open>in_sync\<close> relates one
  table of the database to its map in memory and the marks; \<open>edits\<close> is what a change of the
  store has to respect, and every change that does keeps the invariant \<open>persist_inv\<close>.
\<close>

section \<open>One tracked table\<close>

text \<open>
  Unmarked keys agree in every column an upsert writes (\<open>view\<close>), a dirty key is in memory
  and a deleted one is not.
\<close>

definition in_sync ::
    "('v \<Rightarrow> 'v) \<Rightarrow> ('v \<Rightarrow> 'v) \<Rightarrow> unit gomap \<Rightarrow> unit gomap \<Rightarrow> 'v gomap \<Rightarrow> 'v gomap \<Rightarrow> bool" where
  "in_sync view row dirty deleted mem tbl =
     (\<forall>k. (gm_get dirty k \<noteq> None \<longrightarrow> gm_get mem k \<noteq> None) \<and>
          (gm_get deleted k \<noteq> None \<longrightarrow> gm_get mem k = None) \<and>
          (gm_get dirty k = None \<longrightarrow> gm_get deleted k = None \<longrightarrow>
             map_option view (gm_get tbl k) = map_option (\<lambda>r. view (row r)) (gm_get mem k)))"

text \<open>The abstract state of a table: what it holds under each key, creation times aside.\<close>

definition mirrors :: "('v \<Rightarrow> 'v) \<Rightarrow> ('v \<Rightarrow> 'v) \<Rightarrow> 'v gomap \<Rightarrow> 'v gomap \<Rightarrow> bool" where
  "mirrors view row mem tbl =
     (\<forall>k. map_option view (gm_get tbl k) = map_option (\<lambda>r. view (row r)) (gm_get mem k))"

lemma in_sync_clean: "in_sync view row [] [] mem tbl \<longleftrightarrow> mirrors view row mem tbl"
  by (simp add: in_sync_def mirrors_def)

lemma mirrors_in_sync:
  "in_sync view row dirty deleted mem tbl \<Longrightarrow> mirrors view row mem tbl' \<Longrightarrow>
   in_sync view row dirty deleted mem tbl'"
  by (simp add: in_sync_def mirrors_def)

text \<open>
  A change of a map and its marks: each key is untouched, or present and marked dirty, or
  absent and marked deleted. Such changes compose, and they keep \<open>in_sync\<close>.
\<close>

definition tracked ::
    "'v gomap \<Rightarrow> unit gomap \<Rightarrow> unit gomap \<Rightarrow> 'v gomap \<Rightarrow> unit gomap \<Rightarrow> unit gomap \<Rightarrow> bool" where
  "tracked mem dirty deleted mem' dirty' deleted' =
     (\<forall>k. (gm_get mem' k = gm_get mem k \<and> gm_get dirty' k = gm_get dirty k \<and>
           gm_get deleted' k = gm_get deleted k) \<or>
          (gm_get mem' k \<noteq> None \<and> gm_get dirty' k \<noteq> None \<and> gm_get deleted' k = None) \<or>
          (gm_get mem' k = None \<and> gm_get dirty' k = None \<and> gm_get deleted' k \<noteq> None))"

lemma tracked_refl [simp]: "tracked mem dirty deleted mem dirty deleted"
  by (simp add: tracked_def)

lemma tracked_trans:
  assumes "tracked m d e m1 d1 e1" and "tracked m1 d1 e1 m2 d2 e2"
  shows "tracked m d e m2 d2 e2"
  unfolding tracked_def
proof
  fix k
  show "(gm_get m2 k = gm_get m k \<and> gm_get d2 k = gm_get d k \<and> gm_get e2 k = gm_get e k) \<or>
      (gm_get m2 k \<noteq> None \<and> gm_get d2 k \<noteq> None \<and> gm_get e2 k = None) \<or>
      (gm_get m2 k = None \<and> gm_get d2 k = None \<and> gm_get e2 k \<noteq> None)"
    using assms [unfolded tracked_def, THEN spec, of k] by (elim disjE) auto
qed

lemma tracked_set [simp]: "tracked m d e (gm_set k v m) (gm_set k () d) (gm_del k e)"
  by (auto simp: tracked_def)

lemma tracked_mod [simp]:
  "gm_get m k = Some v \<Longrightarrow> tracked m d e (gm_mod k f m) (gm_set k () d) (gm_del k e)"
  by (auto simp: tracked_def)

lemma tracked_del [simp]: "tracked m d e (gm_del k m) (gm_del k d) (gm_set k () e)"
  by (auto simp: tracked_def)

text \<open>Users are never deleted: their table has no marks of that kind.\<close>

lemma tracked_set_nil [simp]: "tracked m d [] (gm_set k v m) (gm_set k () d) []"
  by (auto simp: tracked_def)

lemma tracked_mod_nil [simp]:
  "gm_get m k = Some v \<Longrightarrow> tracked m d [] (gm_mod k f m) (gm_set k () d) []"
  by (auto simp: tracked_def)

lemma tracked_in_sync:
  assumes "tracked m d e m' d' e'" and "in_sync view row d e m tbl"
  shows "in_sync view row d' e' m' tbl"
  unfolding in_sync_def
proof
  fix k
  show "(gm_get d' k \<noteq> None \<longrightarrow> gm_get m' k \<noteq> None) \<and>
      (gm_get e' k \<noteq> None \<longrightarrow> gm_get m' k = None) \<and>
      (gm_get d' k = None \<longrightarrow> gm_get e' k = None \<longrightarrow>
         map_option view (gm_get tbl k) = map_option (\<lambda>r. view (row r)) (gm_get m' k))"
    using assms(1) [unfolded tracked_def, THEN spec, of k]
      assms(2) [unfolded in_sync_def, THEN spec, of k] by (elim disjE) auto
qed

text \<open>
  The contract of a persistent record type: \<open>mrg r old\<close> is the row an upsert of \<open>r\<close> leaves
  where the table held \<open>old\<close>, and it has the columns of \<open>row r\<close> whatever \<open>old\<close> was.
\<close>

locale tracked_table =
  fixes idf :: "'v \<Rightarrow> string"
    and view :: "'v \<Rightarrow> 'v"
    and row :: "'v \<Rightarrow> 'v"
    and mrg :: "'v \<Rightarrow> 'v option \<Rightarrow> 'v"
  assumes mrg_view: "view (mrg r old) = view (row r)"
begin

lemma upsert_view:
  assumes "gm_wf us" and "ids_match idf us"
  shows "map_option view (gm_get (fold (\<lambda>e. upsert_row idf mrg (snd e)) us tbl) k) =
           (case gm_get us k of None \<Rightarrow> map_option view (gm_get tbl k)
            | Some r \<Rightarrow> Some (view (row r)))"
  by (simp add: fold_upsert_get [OF assms] mrg_view split: option.splits)

lemma upsert_dirty_mirrors:
  assumes inv: "in_sync view row dirty deleted mem tbl"
    and wf: "gm_wf us" and ids: "ids_match idf us"
    and us: "\<And>k. gm_get us k = (if gm_get dirty k \<noteq> None then gm_get mem k else None)"
    and dels: "set dels = fst ` set deleted"
  shows "mirrors view row mem (fold (\<lambda>e. upsert_row idf mrg (snd e)) us (delete_ids dels tbl))"
  unfolding mirrors_def
proof
  fix k
  have "gm_get (delete_ids dels tbl) k = (if gm_get deleted k \<noteq> None then None else gm_get tbl k)"
    by (simp add: delete_ids_get dels gm_get_None_iff)
  then show "map_option view (gm_get (fold (\<lambda>e. upsert_row idf mrg (snd e)) us (delete_ids dels tbl)) k)
      = map_option (\<lambda>r. view (row r)) (gm_get mem k)"
    using inv [unfolded in_sync_def, THEN spec, of k] us [of k]
    by (cases "gm_get dirty k"; cases "gm_get deleted k"; cases "gm_get mem k")
       (auto simp: upsert_view [OF wf ids])
qed

lemma upsert_all_mirrors:
  assumes wf: "gm_wf mem" and ids: "ids_match idf mem"
  shows "mirrors view row mem (keep_ids (gm_keys mem) (fold (\<lambda>e. upsert_row idf mrg (snd e)) mem tbl))"
  unfolding mirrors_def
proof
  fix k
  show "map_option view (gm_get (keep_ids (gm_keys mem) (fold (\<lambda>e. upsert_row idf mrg (snd e)) mem tbl)) k)
      = map_option (\<lambda>r. view (row r)) (gm_get mem k)"
    using gm_get_None_iff [of mem k] upsert_view [OF wf ids, of tbl k]
    by (auto simp: keep_ids_get split: option.splits)
qed

text \<open>
  \<open>stored tbl\<close>: the rows are as the database holds them, so that writing one back changes
  nothing. Upserts keep this when storing a row twice is storing it once.
\<close>

definition stored :: "'v gomap \<Rightarrow> bool" where
  "stored tbl = (\<forall>k r. gm_get tbl k = Some r \<longrightarrow> view (row r) = view r)"

lemma stored_reload: "stored tbl \<Longrightarrow> mirrors view row tbl tbl"
  by (auto simp: stored_def mirrors_def option.map_comp o_def intro!: option.map_cong)

lemma stored_delete: "stored tbl \<Longrightarrow> stored (delete_ids ids tbl)"
  by (simp add: stored_def delete_ids_get)

lemma stored_keep: "stored tbl \<Longrightarrow> stored (keep_ids ids tbl)"
  by (simp add: stored_def keep_ids_get)

lemma stored_upsert:
  assumes "\<And>r old. view (row (mrg r old)) = view (mrg r old)"
    and "gm_wf us" and "ids_match idf us" and "stored tbl"
  shows "stored (fold (\<lambda>e. upsert_row idf mrg (snd e)) us tbl)"
  using assms(1,4) by (auto simp: stored_def fold_upsert_get [OF assms(2,3)] split: option.splits)

end

section \<open>The three tables of the accounts\<close>

definition user_merge :: "ext \<Rightarrow> UserCache \<Rightarrow> UserCache option \<Rightarrow> UserCache" where
  "user_merge x u old =
     (case old of None \<Rightarrow> user_row x u | Some r \<Rightarrow> (user_row x u)\<lparr>u_CreatedAt := u_CreatedAt r\<rparr>)"

definition device_merge :: "ext \<Rightarrow> DeviceRecord \<Rightarrow> DeviceRecord option \<Rightarrow> DeviceRecord" where
  "device_merge x d old =
     (case old of None \<Rightarrow> device_row x d | Some r \<Rightarrow> (device_row x d)\<lparr>d_CreatedAt := d_CreatedAt r\<rparr>)"

definition session_merge :: "ext \<Rightarrow> SessionRecord \<Rightarrow> SessionRecord option \<Rightarrow> SessionRecord" where
  "session_merge x s old =
     (case old of None \<Rightarrow> session_row x s | Some r \<Rightarrow> (session_row x s)\<lparr>s_CreatedAt := s_CreatedAt r\<rparr>)"

lemma upsert_merges:
  "upsert_user x = upsert_row u_ID (user_merge x)"
  "upsert_device x = upsert_row d_ID (device_merge x)"
  "upsert_session x = upsert_row s_ID (session_merge x)"
  by (simp_all add: upsert_rows user_merge_def [abs_def] device_merge_def [abs_def]
        session_merge_def [abs_def])

text \<open>The columns that \<open>ON CONFLICT(id) DO UPDATE\<close> sets: all but \<open>created_at\<close>.\<close>

definition user_columns :: "UserCache \<Rightarrow> UserCache" where
  "user_columns u = u\<lparr>u_CreatedAt := 0\<rparr>"

definition device_columns :: "DeviceRecord \<Rightarrow> DeviceRecord" where
  "device_columns d = d\<lparr>d_CreatedAt := 0\<rparr>"

definition session_columns :: "SessionRecord \<Rightarrow> SessionRecord" where
  "session_columns s = s\<lparr>s_CreatedAt := 0\<rparr>"

lemmas columns_defs = user_columns_def device_columns_def session_columns_def
lemmas merge_defs = user_merge_def device_merge_def session_merge_def
lemmas row_defs = user_row_def device_row_def session_row_def

interpretation user_table: tracked_table u_ID user_columns "user_row x" "user_merge x" for x
  by unfold_locales (simp add: user_merge_def user_columns_def split: option.split)

interpretation device_table: tracked_table d_ID device_columns "device_row x" "device_merge x" for x
  by unfold_locales (simp add: device_merge_def device_columns_def split: option.split)

interpretation session_table: tracked_table s_ID session_columns "session_row x" "session_merge x" for x
  by unfold_locales (simp add: session_merge_def session_columns_def split: option.split)

text \<open>PostgreSQL keeps microseconds: a time read back is stored as it is.\<close>

definition pg_exact :: "ext \<Rightarrow> bool" where
  "pg_exact x = (\<forall>t. x_pg_time x (x_pg_time x t) = x_pg_time x t)"

lemma rows_stable:
  assumes "pg_exact x"
  shows "user_columns (user_row x (user_merge x u ou)) = user_columns (user_merge x u ou)"
    and "device_columns (device_row x (device_merge x d od)) = device_columns (device_merge x d od)"
    and "session_columns (session_row x (session_merge x s os)) = session_columns (session_merge x s os)"
  using assms
  by (simp_all add: pg_exact_def columns_defs merge_defs row_defs option.map_comp o_def
        split: option.split)

section \<open>The invariant of the store\<close>

definition db_mirrors :: "ext \<Rightarrow> Store \<Rightarrow> PgDb \<Rightarrow> bool" where
  "db_mirrors x s db =
     (mirrors user_columns (user_row x) (st_Users s) (pg_users db) \<and>
      mirrors device_columns (device_row x) (st_Devices s) (pg_devices db) \<and>
      mirrors session_columns (session_row x) (st_Sessions s) (pg_sessions db))"

definition db_in_sync :: "ext \<Rightarrow> Store \<Rightarrow> PgDb \<Rightarrow> bool" where
  "db_in_sync x s db =
     (in_sync user_columns (user_row x) (st_dirtyUsers s) [] (st_Users s) (pg_users db) \<and>
      in_sync device_columns (device_row x) (st_dirtyDevices s) (st_deletedDevices s)
        (st_Devices s) (pg_devices db) \<and>
      in_sync session_columns (session_row x) (st_dirtySessions s) (st_deletedSessions s)
        (st_Sessions s) (pg_sessions db))"

text \<open>A database whose keys are the record IDs and whose rows are stored ones.\<close>

definition db_ok :: "ext \<Rightarrow> PgDb \<Rightarrow> bool" where
  "db_ok x db =
     (gm_wf (pg_users db) \<and> gm_wf (pg_devices db) \<and> gm_wf (pg_sessions db) \<and>
      user_table.stored x (pg_users db) \<and> device_table.stored x (pg_devices db) \<and>
      session_table.stored x (pg_sessions db))"

definition persist_inv :: "ext \<Rightarrow> Store \<Rightarrow> bool" where
  "persist_inv x s = (\<forall>db. st_pg s = Some db \<longrightarrow> db_in_sync x s db \<and> db_ok x db)"

definition keyed :: "Store \<Rightarrow> bool" where
  "keyed s =
     (gm_wf (st_Users s) \<and> gm_wf (st_Devices s) \<and> gm_wf (st_Sessions s) \<and>
      ids_match u_ID (st_Users s) \<and> ids_match d_ID (st_Devices s) \<and> ids_match s_ID (st_Sessions s))"

lemma mirrors_sync: "db_in_sync x s db \<Longrightarrow> db_mirrors x s db' \<Longrightarrow> db_in_sync x s db'"
  unfolding db_in_sync_def db_mirrors_def by (blast intro: mirrors_in_sync)

lemma no_marks_mirrors:
  "db_in_sync x s db \<Longrightarrow> \<not> hasPendingChangesLocked s \<Longrightarrow> db_mirrors x s db"
  by (simp add: db_in_sync_def db_mirrors_def hasPendingChangesLocked_def in_sync_clean)

lemma mirrors_clean:
  "db_mirrors x s db \<Longrightarrow> db_in_sync x (clearDirtyLocked s) db"
  by (simp add: db_in_sync_def db_mirrors_def clearDirtyLocked_def in_sync_clean)

section \<open>Saving\<close>

lemma SaveChanges_tables:
  "pg_users (SaveChanges x c db) =
     fold (\<lambda>e. upsert_row u_ID (user_merge x) (snd e)) (pc_Users c) (pg_users db)"
  "pg_devices (SaveChanges x c db) =
     fold (\<lambda>e. upsert_row d_ID (device_merge x) (snd e)) (pc_Devices c)
       (delete_ids (pc_DeletedDevices c) (pg_devices db))"
  "pg_sessions (SaveChanges x c db) =
     fold (\<lambda>e. upsert_row s_ID (session_merge x) (snd e)) (pc_Sessions c)
       (delete_ids (pc_DeletedSessions c) (pg_sessions db))"
  by (auto simp: SaveChanges_def changesEmpty_def upsertUsers_def upsertDevices_def
      upsertSessions_def upsertAuditRecords_def upsert_merges delete_ids_def Let_def)

lemma SaveAll_tables:
  "pg_users (SaveAll x s db) = keep_ids (gm_keys (st_Users s))
     (fold (\<lambda>e. upsert_row u_ID (user_merge x) (snd e)) (st_Users s) (pg_users db))"
  "pg_devices (SaveAll x s db) = keep_ids (gm_keys (st_Devices s))
     (fold (\<lambda>e. upsert_row d_ID (device_merge x) (snd e)) (st_Devices s) (pg_devices db))"
  "pg_sessions (SaveAll x s db) = keep_ids (gm_keys (st_Sessions s))
     (fold (\<lambda>e. upsert_row s_ID (session_merge x) (snd e)) (st_Sessions s) (pg_sessions db))"
  by (simp_all add: SaveAll_def upsertUsers_def upsertDevices_def upsertSessions_def
      upsertAuditLogs_def upsertAuditRecords_def deleteOrphanUsers_def deleteOrphanDevices_def
      deleteOrphanSessions_def upsert_merges)

lemma set_keysOf: "set (keysOf m) = fst ` set m"
  by (simp add: keysOf_def)

lemma dirty_get:
  "gm_get (collect_dirty m (keysOf dirty) []) k =
     (if gm_get dirty k \<noteq> None then gm_get m k else None)"
  using gm_get_None_iff [of dirty k]
  by (cases "gm_get m k") (auto simp: collect_dirty_get set_keysOf)

lemma SaveChanges_mirrors:
  assumes keyed: "keyed s" and sync: "db_in_sync x s db"
  shows "db_mirrors x s (SaveChanges x (postgresChangesLocked s) db)"
proof -
  have "mirrors user_columns (user_row x) (st_Users s)
      (fold (\<lambda>e. upsert_row u_ID (user_merge x) (snd e))
        (collect_dirty (st_Users s) (keysOf (st_dirtyUsers s)) []) (delete_ids [] (pg_users db)))"
    using keyed sync
    by (intro user_table.upsert_dirty_mirrors)
       (auto simp: keyed_def db_in_sync_def collect_dirty_wf ids_match_collect dirty_get)
  moreover have "mirrors device_columns (device_row x) (st_Devices s)
      (fold (\<lambda>e. upsert_row d_ID (device_merge x) (snd e))
        (collect_dirty (st_Devices s) (keysOf (st_dirtyDevices s)) [])
        (delete_ids (keysOf (st_deletedDevices s)) (pg_devices db)))"
    using keyed sync
    by (intro device_table.upsert_dirty_mirrors [where deleted = "st_deletedDevices s"])
       (auto simp: keyed_def db_in_sync_def collect_dirty_wf ids_match_collect dirty_get set_keysOf)
  moreover have "mirrors session_columns (session_row x) (st_Sessions s)
      (fold (\<lambda>e. upsert_row s_ID (session_merge x) (snd e))
        (collect_dirty (st_Sessions s) (keysOf (st_dirtySessions s)) [])
        (delete_ids (keysOf (st_deletedSessions s)) (pg_sessions db)))"
    using keyed sync
    by (intro session_table.upsert_dirty_mirrors [where deleted = "st_deletedSessions s"])
       (auto simp: keyed_def db_in_sync_def collect_dirty_wf ids_match_collect dirty_get set_keysOf)
  ultimately show ?thesis
    by (simp add: db_mirrors_def SaveChanges_tables postgresChangesLocked_def delete_ids_def)
qed

lemma SaveAll_mirrors: "keyed s \<Longrightarrow> db_mirrors x s (SaveAll x s db)"
  by (simp add: db_mirrors_def SaveAll_tables keyed_def user_table.upsert_all_mirrors
      device_table.upsert_all_mirrors session_table.upsert_all_mirrors)

lemma SaveChanges_ok:
  assumes "pg_exact x" and "keyed s" and "db_ok x db"
  shows "db_ok x (SaveChanges x (postgresChangesLocked s) db)"
  using assms
  by (simp add: db_ok_def keyed_def SaveChanges_tables postgresChangesLocked_def fold_upsert_wf
      delete_ids_wf collect_dirty_wf ids_match_collect rows_stable user_table.stored_upsert
      device_table.stored_upsert session_table.stored_upsert device_table.stored_delete
      session_table.stored_delete)

lemma SaveAll_ok:
  assumes "pg_exact x" and "keyed s" and "db_ok x db"
  shows "db_ok x (SaveAll x s db)"
  using assms
  by (simp add: db_ok_def keyed_def SaveAll_tables fold_upsert_wf keep_ids_wf rows_stable
      user_table.stored_upsert device_table.stored_upsert session_table.stored_upsert
      user_table.stored_keep device_table.stored_keep session_table.stored_keep)

text \<open>Nothing to write means nothing pending, since a mark is about a record that is there.\<close>

lemma collect_dirty_nil:
  assumes "in_sync view row dirty deleted mem tbl" and "collect_dirty mem (keysOf dirty) [] = []"
  shows "dirty = []"
proof (rule ccontr)
  assume "dirty \<noteq> []"
  then obtain e es where "dirty = e # es" by (cases dirty) auto
  then obtain k where "gm_get dirty k \<noteq> None" by (cases e) fastforce
  then have "gm_get (collect_dirty mem (keysOf dirty) []) k \<noteq> None"
    using assms(1) by (auto simp: dirty_get in_sync_def)
  with assms(2) show False by simp
qed

lemma copy_all_Nil_iff: "copy_all es out = [] \<longleftrightarrow> es = [] \<and> out = []"
proof (induction es out rule: copy_all.induct)
  case (2 e es out)
  have "gm_set (fst e) (snd e) out \<noteq> []" by (cases out) auto
  with 2 show ?case by simp
qed simp

lemma changes_empty_clean:
  assumes "db_in_sync x s db" and "changesEmpty (postgresChangesLocked s)"
  shows "\<not> hasPendingChangesLocked s"
  using assms unfolding db_in_sync_def changesEmpty_def postgresChangesLocked_def
    hasPendingChangesLocked_def
  by (auto simp: keysOf_def copy_all_Nil_iff dest: collect_dirty_nil [unfolded keysOf_def])

lemma save_persist:
  assumes "pg_exact x" and "keyed s" and "persist_inv x s"
  shows "persist_inv x (snd (saveLocked x io s))"
  unfolding persist_inv_def
proof (intro allI impI)
  fix db' assume pg': "st_pg (snd (saveLocked x io s)) = Some db'"
  then obtain db where pg: "st_pg s = Some db"
    by (cases "st_pg s"; cases io) (auto simp: saveLocked_def)
  note inv = assms(3) [unfolded persist_inv_def, THEN spec, THEN mp, OF pg]
  note mir = SaveChanges_mirrors [OF assms(2) conjunct1 [OF inv]]
  note ok = SaveChanges_ok [OF assms(1,2) conjunct2 [OF inv]]
  show "db_in_sync x (snd (saveLocked x io s)) db' \<and> db_ok x db'"
    using pg pg' inv ok mirrors_sync [OF conjunct1 [OF inv] mir] mirrors_clean [OF mir]
    by (cases io) (auto simp: saveLocked_def Let_def db_in_sync_def clearDirtyLocked_def split: if_splits)
qed

lemma save_success:
  assumes "keyed s" and "persist_inv x s" and "st_pg s = Some db"
    and "saveLocked x io s = (True, s')"
  shows "\<exists>db'. st_pg s' = Some db' \<and> db_mirrors x s db' \<and> \<not> hasPendingChangesLocked s'"
proof -
  note inv = assms(2) [unfolded persist_inv_def, THEN spec, THEN mp, OF assms(3)]
  show ?thesis
  proof (cases "changesEmpty (postgresChangesLocked s)")
    case True
    have "\<not> hasPendingChangesLocked s" using conjunct1 [OF inv] True by (rule changes_empty_clean)
    then show ?thesis
      using assms(3,4) True conjunct1 [OF inv] no_marks_mirrors by (auto simp: saveLocked_def Let_def)
  next
    case False
    then show ?thesis
      using assms(3,4) SaveChanges_mirrors [OF assms(1) conjunct1 [OF inv]]
      by (cases io) (auto simp: saveLocked_def Let_def clearDirtyLocked_def hasPendingChangesLocked_def)
  qed
qed

section \<open>Changes of the store\<close>

text \<open>
  \<open>edits n s s'\<close>: from \<open>s\<close> to \<open>s'\<close> the maps changed under \<open>n\<close> marks, each of which counts the
  revision up, and without a mark nothing is newly pending.
\<close>

definition same_marks :: "Store \<Rightarrow> Store \<Rightarrow> bool" where
  "same_marks s s' =
     (st_dirtyUsers s' = st_dirtyUsers s \<and> st_dirtyDevices s' = st_dirtyDevices s \<and>
      st_dirtySessions s' = st_dirtySessions s \<and> st_dirtyAudits s' = st_dirtyAudits s \<and>
      st_deletedDevices s' = st_deletedDevices s \<and> st_deletedSessions s' = st_deletedSessions s \<and>
      st_deletedAudits s' = st_deletedAudits s)"

definition edits :: "nat \<Rightarrow> Store \<Rightarrow> Store \<Rightarrow> bool" where
  "edits n s s' =
     (st_pg s' = st_pg s \<and>
      tracked (st_Users s) (st_dirtyUsers s) [] (st_Users s') (st_dirtyUsers s') [] \<and>
      tracked (st_Devices s) (st_dirtyDevices s) (st_deletedDevices s)
        (st_Devices s') (st_dirtyDevices s') (st_deletedDevices s') \<and>
      tracked (st_Sessions s) (st_dirtySessions s) (st_deletedSessions s)
        (st_Sessions s') (st_dirtySessions s') (st_deletedSessions s') \<and>
      st_revision s' = st_revision s + of_nat n \<and>
      (n = 0 \<longrightarrow> same_marks s s'))"

definition edited :: "Store \<Rightarrow> Store \<Rightarrow> bool" where
  "edited s s' = (\<exists>n. edits n s s')"

lemma same_marks_pending:
  "same_marks s s' \<Longrightarrow> hasPendingChangesLocked s' = hasPendingChangesLocked s"
  by (simp add: same_marks_def hasPendingChangesLocked_def)

lemma edits_trans:
  assumes "edits m s t" and "edits n t u"
  shows "edits (m + n) s u"
  using assms unfolding edits_def
  by (auto simp: same_marks_def intro: tracked_trans)

lemma edits_0 [simp]: "edits 0 s s"
  by (simp add: edits_def same_marks_def)

lemma edited_refl [simp]: "edited s s"
  unfolding edited_def using edits_0 by blast

lemma edited_trans: "edited s t \<Longrightarrow> edited t u \<Longrightarrow> edited s u"
  unfolding edited_def by (blast intro: edits_trans)

lemma edited_one: "edits 1 s t \<Longrightarrow> edited s t"
  by (auto simp: edited_def)

lemma edits_persist:
  assumes "edits n s s'" and "persist_inv x s"
  shows "persist_inv x s'"
  using assms unfolding persist_inv_def edits_def db_in_sync_def
  by (metis tracked_in_sync)

lemma edits_none:
  assumes "edits 0 s s'" and "\<not> hasPendingChangesLocked s"
  shows "st_pg s' = st_pg s \<and> \<not> hasPendingChangesLocked s'"
  using assms same_marks_pending [of s s'] by (simp add: edits_def)

text \<open>A loop over a list of entries, with a condition every iteration keeps.\<close>

lemma edited_fold:
  assumes "I s" and "\<And>e s. e \<in> set es \<Longrightarrow> I s \<Longrightarrow> edited s (f e s) \<and> I (f e s)"
  shows "edited s (fold f es s) \<and> I (fold f es s)"
  using assms
proof (induction es arbitrary: s)
  case Nil
  then show ?case by simp
next
  case (Cons e es)
  from Cons.prems(1) Cons.prems(2) [of e s] have e: "edited s (f e s)" "I (f e s)" by auto
  have "edited (f e s) (fold f es (f e s)) \<and> I (fold f es (f e s))"
    using e(2) Cons.prems(2) by (intro Cons.IH) auto
  with e(1) show ?case by (auto intro: edited_trans)
qed

section \<open>Loading\<close>

lemma LoadAll_tables:
  assumes "db_ok x db"
  shows "sp_Users (LoadAll db) = pg_users db" "sp_Devices (LoadAll db) = pg_devices db"
    "sp_Sessions (LoadAll db) = pg_sessions db"
  using assms by (simp_all add: LoadAll_def db_ok_def copy_all_id)

lemma rebuild_tables [simp]:
  "st_Users (rebuildSessionIndexesLocked s) = st_Users s"
  "st_Devices (rebuildSessionIndexesLocked s) = st_Devices s"
  "st_Sessions (rebuildSessionIndexesLocked s) = st_Sessions s"
  "st_pg (rebuildSessionIndexesLocked s) = st_pg s"
  "st_revision (rebuildSessionIndexesLocked s) = st_revision s"
  "hasPendingChangesLocked (rebuildSessionIndexesLocked s) = hasPendingChangesLocked s"
  "persist_inv x (rebuildSessionIndexesLocked s) = persist_inv x s"
  by (simp_all add: rebuildSessionIndexesLocked_def hasPendingChangesLocked_def persist_inv_def
      db_in_sync_def)

lemma install_fields [simp]:
  "st_Users (install_snapshot sp s) = sp_Users sp"
  "st_Devices (install_snapshot sp s) = sp_Devices sp"
  "st_Sessions (install_snapshot sp s) = sp_Sessions sp"
  "st_pg (install_snapshot sp s) = st_pg s" "st_revision (install_snapshot sp s) = st_revision s"
  "hasPendingChangesLocked (install_snapshot sp s) = hasPendingChangesLocked s"
  by (simp_all add: install_snapshot_def hasPendingChangesLocked_def)

lemma loaded_mirrors:
  assumes "db_ok x db"
  shows "db_mirrors x (install_snapshot (LoadAll db) s) db"
  using assms
  by (simp add: db_mirrors_def LoadAll_tables [OF assms] db_ok_def user_table.stored_reload
      device_table.stored_reload session_table.stored_reload)

lemma clean_mirrors_inv:
  "db_mirrors x s db \<Longrightarrow> db_ok x db \<Longrightarrow> st_pg s = Some db \<Longrightarrow> \<not> hasPendingChangesLocked s \<Longrightarrow>
   persist_inv x s"
  by (simp add: persist_inv_def db_in_sync_def db_mirrors_def hasPendingChangesLocked_def in_sync_clean)

lemma reload_persist:
  assumes "persist_inv x s" and "st_pg s = Some db" and "\<not> hasPendingChangesLocked s"
  shows "persist_inv x (rebuildSessionIndexesLocked (install_snapshot (LoadAll db) s))"
proof -
  have "db_ok x db" using assms(1,2) by (simp add: persist_inv_def)
  then have "persist_inv x (install_snapshot (LoadAll db) s)"
    using assms(2,3) loaded_mirrors by (intro clean_mirrors_inv) auto
  then show ?thesis by simp
qed

text \<open>Two stores show the same records when both have the columns the database has.\<close>

definition same_records :: "ext \<Rightarrow> Store \<Rightarrow> Store \<Rightarrow> bool" where
  "same_records x s t =
     (\<forall>k. map_option (\<lambda>u. user_columns (user_row x u)) (gm_get (st_Users s) k) =
            map_option (\<lambda>u. user_columns (user_row x u)) (gm_get (st_Users t) k) \<and>
          map_option (\<lambda>d. device_columns (device_row x d)) (gm_get (st_Devices s) k) =
            map_option (\<lambda>d. device_columns (device_row x d)) (gm_get (st_Devices t) k) \<and>
          map_option (\<lambda>u. session_columns (session_row x u)) (gm_get (st_Sessions s) k) =
            map_option (\<lambda>u. session_columns (session_row x u)) (gm_get (st_Sessions t) k))"

lemma same_records_refl [simp]: "same_records x s s"
  by (simp add: same_records_def)

lemma mirrors_same:
  "db_mirrors x s db \<Longrightarrow> db_mirrors x t db \<Longrightarrow> same_records x s t"
  by (simp add: db_mirrors_def same_records_def mirrors_def)

end
