(* ===== verification/PersistSteps.thy ===== *)
theory PersistSteps
  imports Reachable Persistence
begin

text \<open>
  Every critical section of the gateway changes its tables through marks: each operation of
  the accounts is an \<open>edited\<close> step that keeps the keys of the tables, so the invariant of
  \<open>Persistence\<close> holds in every store the gateway reaches. On the way it shows that the records
  only ever take the states the constants name.
\<close>

section \<open>Record states\<close>

text \<open>
  A device is active and carries no revocation time, or revoked and carries one; a session is
  active, revoked or expired.
\<close>

definition device_state_ok :: "DeviceRecord \<Rightarrow> bool" where
  "device_state_ok d =
     (d_Status d = statusActive \<and> d_RevokedAt d = None \<or>
      d_Status d = statusRevoked \<and> d_RevokedAt d \<noteq> None)"

definition session_state_ok :: "SessionRecord \<Rightarrow> bool" where
  "session_state_ok ses = (s_Status ses \<in> {statusActive, statusRevoked, statusExpired})"

definition record_states :: "DeviceRecord gomap \<Rightarrow> SessionRecord gomap \<Rightarrow> bool" where
  "record_states ds ss =
     ((\<forall>k d. gm_get ds k = Some d \<longrightarrow> device_state_ok d) \<and>
      (\<forall>k ses. gm_get ss k = Some ses \<longrightarrow> session_state_ok ses))"

definition states_ok :: "Store \<Rightarrow> bool" where
  "states_ok s = record_states (st_Devices s) (st_Sessions s)"

lemma record_states_simps [simp]:
  "device_state_ok (revoked_record a now d)"
  "device_state_ok (activate_device x req ip ua now d)"
  "device_state_ok (touch_device x now ip ua d) = device_state_ok d"
  "session_state_ok (new_session cfg sec sid uid did ip ua now)"
  "session_state_ok (touch_session now ip ua ses) = session_state_ok ses"
  "session_state_ok (ses\<lparr>s_BusinessSubURLCipher := c\<rparr>) = session_state_ok ses"
  "session_state_ok (ses\<lparr>s_Status := statusRevoked, s_ExpiresAt := now\<rparr>)"
  "session_state_ok (ses\<lparr>s_Status := statusExpired\<rparr>)"
  by (simp_all add: device_state_ok_def session_state_ok_def revoked_record_def activate_device_def
      touch_device_def new_session_def touch_session_def updateDeviceIPInfoLocked_def Let_def
      split: option.split)

lemma record_states_change:
  "record_states ds ss \<Longrightarrow> (\<And>d. device_state_ok d \<Longrightarrow> device_state_ok (f d)) \<Longrightarrow>
     record_states (gm_mod k f ds) ss"
  "record_states ds ss \<Longrightarrow> (\<And>b. session_state_ok b \<Longrightarrow> session_state_ok (g b)) \<Longrightarrow>
     record_states ds (gm_mod k g ss)"
  "record_states ds ss \<Longrightarrow> device_state_ok d \<Longrightarrow> record_states (gm_set k d ds) ss"
  "record_states ds ss \<Longrightarrow> session_state_ok b \<Longrightarrow> record_states ds (gm_set k b ss)"
  "record_states ds ss \<Longrightarrow> record_states (gm_del k ds) ss"
  "record_states ds ss \<Longrightarrow> record_states ds (gm_del k ss)"
  unfolding record_states_def by (auto split: if_splits)

section \<open>Changes that keep the keys\<close>

definition advances :: "Store \<Rightarrow> Store \<Rightarrow> bool" where
  "advances s t = (edited s t \<and> keyed t \<and> (states_ok s \<longrightarrow> states_ok t))"

lemma advances_refl [simp]: "advances s s = keyed s"
  by (simp add: advances_def)

lemma advances_trans: "advances s t \<Longrightarrow> (keyed t \<Longrightarrow> advances t u) \<Longrightarrow> advances s u"
  unfolding advances_def by (blast intro: edited_trans)

lemma advances_fold:
  assumes "keyed s" and "J s"
    and "\<And>e s. e \<in> set es \<Longrightarrow> keyed s \<Longrightarrow> J s \<Longrightarrow> advances s (f e s) \<and> J (f e s)"
  shows "advances s (fold f es s)"
  using edited_fold [of "\<lambda>t. keyed t \<and> J t \<and> (states_ok s \<longrightarrow> states_ok t)" s es f] assms
  by (auto simp: advances_def)

lemma keyedD:
  assumes "keyed s"
  shows "gm_wf (st_Users s)" "gm_wf (st_Devices s)" "gm_wf (st_Sessions s)"
    "ids_match u_ID (st_Users s)" "ids_match d_ID (st_Devices s)" "ids_match s_ID (st_Sessions s)"
  using assms by (simp_all add: keyed_def)

lemma tables_keyed: "tables_ok s \<Longrightarrow> keyed s"
  by (simp add: tables_ok_def keyed_def)

lemma keyed_cong:
  "st_Users t = st_Users s \<Longrightarrow> st_Devices t = st_Devices s \<Longrightarrow> st_Sessions t = st_Sessions s \<Longrightarrow>
   keyed t = keyed s"
  by (simp add: keyed_def)

text \<open>One mark, one change: the shape of every primitive.\<close>

lemma advances_user:
  assumes "keyed s" and "ids_match u_ID us" and "gm_wf us"
    and "tracked (st_Users s) (st_dirtyUsers s) [] us (gm_set uid () (st_dirtyUsers s)) []"
  shows "advances s (markUserLocked uid (s\<lparr>st_rng := r, st_Users := us\<rparr>))"
  using assms
  by (auto simp: advances_def keyed_def edits_def markUserLocked_def states_ok_def intro!: edited_one)

lemma advances_device:
  assumes "keyed s" and "ids_match d_ID ds" and "gm_wf ds"
    and "tracked (st_Devices s) (st_dirtyDevices s) (st_deletedDevices s)
           ds (gm_set did () (st_dirtyDevices s)) (gm_del did (st_deletedDevices s))"
    and "states_ok s \<Longrightarrow> record_states ds (st_Sessions s)"
  shows "advances s (markDeviceLocked did (s\<lparr>st_rng := r, st_Devices := ds\<rparr>))"
  using assms
  by (auto simp: advances_def keyed_def edits_def markDeviceLocked_def states_ok_def intro!: edited_one)

lemma advances_session:
  assumes "keyed s" and "ids_match s_ID ss" and "gm_wf ss"
    and "tracked (st_Sessions s) (st_dirtySessions s) (st_deletedSessions s)
           ss (gm_set sid () (st_dirtySessions s)) (gm_del sid (st_deletedSessions s))"
    and "states_ok s \<Longrightarrow> record_states (st_Devices s) ss"
  shows "advances s (markSessionLocked sid (s\<lparr>st_rng := r, st_Sessions := ss\<rparr>))"
  using assms
  by (auto simp: advances_def keyed_def edits_def markSessionLocked_def states_ok_def intro!: edited_one)

lemma advances_mod_user:
  assumes "keyed s" and "gm_get (st_Users s) k = Some r" and "\<And>r. u_ID (f r) = u_ID r"
  shows "advances s (markUserLocked (u_ID r) (s\<lparr>st_Users := gm_mod k f (st_Users s)\<rparr>))"
proof -
  have "advances s (markUserLocked (u_ID r) (s\<lparr>st_rng := st_rng s, st_Users := gm_mod k f (st_Users s)\<rparr>))"
    using assms keyedD [OF assms(1)]
    by (intro advances_user) (auto simp: ids_match_get intro!: ids_match_mod)
  then show ?thesis by simp
qed

lemma advances_mod_device:
  assumes "keyed s" and "gm_get (st_Devices s) k = Some r" and "\<And>r. d_ID (f r) = d_ID r"
    and "\<And>r. device_state_ok r \<Longrightarrow> device_state_ok (f r)"
  shows "advances s (markDeviceLocked (d_ID r) (s\<lparr>st_Devices := gm_mod k f (st_Devices s)\<rparr>))"
proof -
  have "advances s (markDeviceLocked (d_ID r) (s\<lparr>st_rng := st_rng s, st_Devices := gm_mod k f (st_Devices s)\<rparr>))"
    using assms keyedD [OF assms(1)]
    by (intro advances_device)
       (auto simp: ids_match_get states_ok_def intro!: ids_match_mod record_states_change)
  then show ?thesis by simp
qed

lemma advances_mod_session:
  assumes "keyed s" and "gm_get (st_Sessions s) k = Some r" and "\<And>r. s_ID (f r) = s_ID r"
    and "\<And>r. session_state_ok r \<Longrightarrow> session_state_ok (f r)"
  shows "advances s (markSessionLocked (s_ID r) (s\<lparr>st_Sessions := gm_mod k f (st_Sessions s)\<rparr>))"
proof -
  have "advances s (markSessionLocked (s_ID r) (s\<lparr>st_rng := st_rng s, st_Sessions := gm_mod k f (st_Sessions s)\<rparr>))"
    using assms keyedD [OF assms(1)]
    by (intro advances_session)
       (auto simp: ids_match_get states_ok_def intro!: ids_match_mod record_states_change)
  then show ?thesis by simp
qed

lemma advances_audit:
  "keyed s \<Longrightarrow> advances s (addAuditLocked x a uid did act ip ua det now s)"
  by (auto simp: advances_def keyed_def edits_def states_ok_def intro!: edited_one)

lemma advances_rng: "advances (s\<lparr>st_rng := r\<rparr>) t \<Longrightarrow> advances s t"
  by (simp add: advances_def edited_def edits_def same_marks_def states_ok_def)

section \<open>The operations\<close>

lemma sync_user_ID [simp]: "u_ID (sync_user cfg sn email b now u) = u_ID u"
  by (simp add: sync_user_def Let_def)

lemma new_user_ID [simp]: "u_ID (new_user uid email now) = uid"
  by (simp add: new_user_def)

lemma advances_user_case:
  assumes "keyed s" and "\<And>k u. found = Some (k, u) \<Longrightarrow> gm_get (st_Users s) k = Some u"
    and "\<And>u. u_ID (f u) = u_ID u" and "u_ID v = nid"
  shows "advances s (snd (case found of
      Some (k, u) \<Rightarrow> (k, markUserLocked (u_ID u) (s\<lparr>st_Users := gm_mod k f (st_Users s)\<rparr>))
    | None \<Rightarrow> (nid, markUserLocked nid (s\<lparr>st_rng := r, st_Users := gm_set nid v (st_Users s)\<rparr>))))"
proof (cases found)
  case None
  then show ?thesis
    using assms(1,4) keyedD [OF assms(1)] by (auto simp: ids_match_set intro!: advances_user)
next
  case (Some e)
  then show ?thesis
    using assms(2) [of "fst e" "snd e"] advances_mod_user [OF assms(1) _ assms(3)] by (cases e) simp
qed

lemma advances_upsertUser:
  assumes "keyed s"
  shows "advances s (snd (upsertUserLocked x cfg sn email now s))"
  unfolding upsertUserLocked_def Let_def
proof (rule advances_user_case [OF assms])
  fix k u
  assume "(case findUserLocked x (if sn_UUID sn = [] then if sn_Email sn = [] then email else sn_Email sn
            else sn_UUID sn) s of
      None \<Rightarrow> if (if sn_Email sn = [] then email else sn_Email sn) \<noteq> []
        then findUserLocked x (if sn_Email sn = [] then email else sn_Email sn) s else None
    | Some e \<Rightarrow> Some e) = Some (k, u)"
  then show "gm_get (st_Users s) k = Some u"
    using findUserLocked_get [OF _ keyedD(1) [OF assms]] by (simp split: option.splits if_splits)
qed simp_all

lemma advances_revokeDevice:
  "keyed s \<Longrightarrow> advances s (revokeDeviceLocked k actor now s)"
  by (auto simp: revokeDeviceLocked_def intro!: advances_mod_device split: option.split)

lemma advances_revokeSessions:
  assumes "keyed s"
  shows "advances s (revokeDeviceSessionsLocked did now s)"
  unfolding revokeDeviceSessionsLocked_def
proof (rule advances_fold [where J = "\<lambda>t. gm_keys (st_Sessions t) = gm_keys (st_Sessions s)"])
  fix e t
  assume e: "e \<in> set (st_Sessions s)" and t: "keyed t"
    and ks: "gm_keys (st_Sessions t) = gm_keys (st_Sessions s)"
  have id: "s_ID (snd e) = fst e" using keyedD(6) [OF assms] e by (auto simp: ids_match_def)
  have "fst e \<in> fst ` set (st_Sessions t)" using e ks by (metis image_eqI list.set_map)
  then obtain b where b: "gm_get (st_Sessions t) (fst e) = Some b" by (rule gm_in_keysE)
  then have "s_ID b = fst e" using keyedD(6) [OF t] by (simp add: ids_match_get)
  then show "advances t (revoke_session_entry did now e t) \<and>
      gm_keys (st_Sessions (revoke_session_entry did now e t)) = gm_keys (st_Sessions s)"
    using advances_mod_session [OF t b, of "\<lambda>ses. ses\<lparr>s_Status := statusRevoked, s_ExpiresAt := now\<rparr>"] t ks id
    by (auto simp: revoke_session_entry_def)
qed (use assms in auto)

lemma advances_revoke:
  assumes "keyed s"
  shows "advances s (addAuditLocked x a uid did act ip ua det now'
    (revokeDeviceSessionsLocked sid now (revokeDeviceLocked k actor now s)))"
  by (rule advances_trans [OF advances_revokeDevice [OF assms]],
      erule advances_trans [OF advances_revokeSessions], erule advances_audit)

lemma advances_kick_one: "keyed s \<Longrightarrow> advances s (kick_one x uid ip ua now e s)"
  unfolding kick_one_def by (rule advances_revoke)

lemma advances_kick_loop:
  "keyed s \<Longrightarrow>
   (case kick_loop x uid ip ua now limit cnt ds s of Inl p \<Rightarrow> advances s (snd p) | Inr p \<Rightarrow> advances s (snd p))"
proof (induction x uid ip ua now limit cnt ds s rule: kick_loop.induct)
  case (1 x uid ip ua now limit cnt ds s)
  show ?case
  proof (cases "cnt < limit \<or> ds = []")
    case True
    then show ?thesis using "1.prems"
      by (subst kick_loop.simps) (auto simp: oldestDevice_def)
  next
    case False
    then obtain e where e: "oldestDevice ds = Some e" by (cases "oldestDevice ds") auto
    have k: "advances s (kick_one x uid ip ua now e s)" using "1.prems" by (rule advances_kick_one)
    with "1.IH" [OF _ e] False show ?thesis
      by (subst kick_loop.simps)
         (auto simp: e advances_def split: sum.splits intro: edited_trans)
  qed
qed

lemma advances_limit_gate:
  assumes "keyed s"
  shows "case limit_gate x cfg uid ip ua now limit isNew active s of
    Inl p \<Rightarrow> advances s (snd p) | Inr p \<Rightarrow> advances s (snd p)"
  using assms advances_kick_loop [OF assms] by (auto simp: limit_gate_def Let_def)

lemma activate_ID [simp]: "d_ID (activate_device x req ip ua now d) = d_ID d"
  by (simp add: activate_device_def)

lemma advances_place_device:
  assumes "keyed s" and "\<And>k d. dev = Some (k, d) \<Longrightarrow> gm_get (st_Devices s) k \<noteq> None \<and> d_ID d = k"
  shows "advances s (snd (place_device x req uid hash ip ua now dev s))"
proof (cases dev)
  case None
  then show ?thesis
    using assms(1) keyedD [OF assms(1)]
    by (auto simp: place_device_def Let_def fresh_device_def ids_match_set states_ok_def
        intro!: advances_device record_states_change)
next
  case (Some e)
  obtain k d where e: "e = (k, d)" by (cases e)
  with assms(2) Some obtain r where r: "gm_get (st_Devices s) k = Some r" "d_ID d = k" by auto
  then have "d_ID r = d_ID d" using keyedD(5) [OF assms(1)] by (simp add: ids_match_get)
  with advances_mod_device [OF assms(1) r(1), of "activate_device x req ip ua now"] Some e
  show ?thesis by (simp add: place_device_def)
qed

lemma advances_index: "advances s (markSessionLocked i (t\<lparr>st_rng := r, st_Sessions := ss\<rparr>)) \<Longrightarrow>
    advances s (markSessionLocked i (indexSessionLocked ses (t\<lparr>st_rng := r, st_Sessions := ss\<rparr>)))"
  by (simp add: advances_def edited_def edits_def same_marks_def keyed_def markSessionLocked_def
      indexSessionLocked_def states_ok_def)

lemma advances_add_session:
  assumes "keyed s"
  shows "advances s (add_session x cfg sec uid did ip ua now s)"
  unfolding add_session_def Let_def
  using assms keyedD [OF assms]
  by (intro advances_index advances_session)
     (auto simp: ids_match_set states_ok_def intro: record_states_change)

lemma advances_grant:
  assumes "keyed s" and "\<And>k d. dev = Some (k, d) \<Longrightarrow> gm_get (st_Devices s) k \<noteq> None \<and> d_ID d = k"
  shows "advances s (snd (grant_device x cfg sec req uid hash ip ua now dev s))"
proof -
  obtain k s1 where p: "place_device x req uid hash ip ua now dev s = (k, s1)"
    by (cases "place_device x req uid hash ip ua now dev s")
  then have s1: "advances s s1" using advances_place_device [OF assms] by (metis snd_conv)
  define did where "did = (case gm_get (st_Devices s1) k of Some d \<Rightarrow> d_ID d | None \<Rightarrow> k)"
  have "advances s (addAuditLocked x ''session.created'' uid did ''user'' ip ua
      (Some [(''platform'', VStr (lr_Platform req))]) now
      (add_session x cfg sec uid did ip ua now (revokeDeviceSessionsLocked did now s1)))"
    by (rule advances_trans [OF s1], erule advances_trans [OF advances_revokeSessions],
        erule advances_trans [OF advances_add_session], erule advances_audit)
  then show ?thesis by (simp add: grant_device_def p did_def Let_def)
qed

section \<open>The critical sections\<close>

text \<open>A section edits the store under \<open>n\<close> marks, and perhaps saves it at the end.\<close>

definition settles :: "ext \<Rightarrow> nat \<Rightarrow> Store \<Rightarrow> Store \<Rightarrow> bool" where
  "settles x n s t =
     (\<exists>u. edits n s u \<and> keyed u \<and> (states_ok s \<longrightarrow> states_ok u) \<and>
        (t = u \<or> (\<exists>io. t = snd (saveLocked x io u))))"

lemma settles_done: "advances s t \<Longrightarrow> \<exists>n. settles x n s t"
  by (auto simp: advances_def edited_def settles_def)

lemma settles_save: "advances s u \<Longrightarrow> \<exists>n. settles x n s (snd (saveLocked x io u))"
  by (auto simp: advances_def edited_def settles_def)

lemma inv_keyed: "account_inv s \<Longrightarrow> keyed s"
  by (simp add: account_invD(1) tables_keyed)

lemma gate_device:
  assumes "account_inv s" and "limit_gate x cfg uid ip ua now limit isNew (activeDevicesLocked uid s) s = Inr (c, t)"
    and "findDeviceByHashLocked uid hash s = Some (k, d)"
  shows "gm_get (st_Devices t) k \<noteq> None \<and> d_ID d = k"
proof -
  note tok = tables_okD [OF account_invD(1) [OF assms(1)]]
  have d: "gm_get (st_Devices s) k = Some d"
    using findDevice_get(1) [OF assms(3) tok(2)] by simp
  have "gm_keys (st_Devices t) = gm_keys (st_Devices s)"
    using limit_gate_spec [OF account_invD(1) [OF assms(1)] assms(2)]
    by (auto simp: gate_passed_def revoked_store_def)
  then have "fst ` set (st_Devices t) = fst ` set (st_Devices s)" by (metis list.set_map)
  with d have "gm_get (st_Devices t) k \<noteq> None"
    using gm_get_in_keys [OF d] by (simp add: gm_get_None_iff)
  with d tok(5) show ?thesis by (simp add: ids_match_get)
qed

lemma admit_tail_settles:
  assumes inv1: "account_inv s1" and s1: "advances s s1"
    and dev: "dev = findDeviceByHashLocked uid hash s1"
  shows "\<exists>n. settles x n s (snd (case limit_gate x cfg uid ip ua now limit isNew
      (activeDevicesLocked uid s1) s1 of
        Inl (cnt, s2) \<Rightarrow> (LimitExceeded limit cnt, s2)
      | Inr (cnt, s2) \<Rightarrow>
          let (k, s3) = grant_device x cfg sec req uid hash ip ua now dev s2;
              (ok, s4) = saveLocked x io s3 in
          (case gm_get (st_Devices s4) k of
             None \<Rightarrow> (AdmitFailed limit cnt, s4)
           | Some d \<Rightarrow>
               if ok then (Admitted tok d limit (cnt + boolToInt isNew), s4)
               else (AdmitFailed limit cnt, s4))))"
proof (cases "limit_gate x cfg uid ip ua now limit isNew (activeDevicesLocked uid s1) s1")
  case (Inl p)
  then have "advances s (snd p)"
    using s1 advances_limit_gate [OF inv_keyed [OF inv1], of x cfg uid ip ua now limit isNew
        "activeDevicesLocked uid s1"] by (auto intro: advances_trans)
  then show ?thesis using Inl by (cases p) (simp add: settles_done)
next
  case (Inr p)
  obtain c s2 where p: "p = (c, s2)" by (cases p)
  have s2: "advances s s2"
    using Inr p s1 advances_limit_gate [OF inv_keyed [OF inv1], of x cfg uid ip ua now limit isNew
        "activeDevicesLocked uid s1"] by (auto intro: advances_trans)
  obtain k s3 where gr: "grant_device x cfg sec req uid hash ip ua now dev s2 = (k, s3)"
    by (cases "grant_device x cfg sec req uid hash ip ua now dev s2")
  have "advances s2 (snd (grant_device x cfg sec req uid hash ip ua now dev s2))"
  proof (rule advances_grant)
    show "keyed s2" using s2 by (simp add: advances_def)
    show "gm_get (st_Devices s2) k \<noteq> None \<and> d_ID d = k" if "dev = Some (k, d)" for k d
      using gate_device [OF inv1 Inr [unfolded p]] that dev by simp
  qed
  then have "advances s s3" using s2 gr by (auto intro: advances_trans)
  then have "\<exists>n. settles x n s (snd (saveLocked x io s3))" by (rule settles_save)
  then show ?thesis using Inr p gr by (simp add: split_beta Let_def split: option.split)
qed

lemma admit_settles:
  assumes inv: "account_inv s"
  shows "\<exists>n. settles x n s (snd (admitDevice x cfg key io now r req sn bt s))"
proof (cases "admit_secrets x cfg key sn bt (st_rng s)")
  case None
  then show ?thesis using inv_keyed [OF inv] by (simp add: admitDevice_def Let_def settles_done)
next
  case (Some sec)
  define s0 where "s0 = s\<lparr>st_rng := as_Rng sec\<rparr>"
  obtain uk s1 where up: "upsertUserLocked x cfg sn (lr_Email req) now s0 = (uk, s1)"
    by (cases "upsertUserLocked x cfg sn (lr_Email req) now s0")
  have inv0: "account_inv s0" using inv by (subst account_inv_cong [of s0 s]) (simp_all add: s0_def)
  have inv1: "account_inv s1" using inv0 up by (rule upsertUser_inv)
  have s1: "advances s s1"
    using advances_upsertUser [OF inv_keyed [OF inv0], of x cfg sn "lr_Email req" now]
    by (intro advances_rng [where s = s and r = "as_Rng sec"]) (simp add: up flip: s0_def)
  show ?thesis
  proof (cases "gm_get (st_Users s1) uk")
    case None
    then show ?thesis using Some up s1 by (simp add: admitDevice_def Let_def settles_done flip: s0_def)
  next
    case user: (Some user)
    show ?thesis
      using admit_tail_settles [OF inv1 s1 refl] Some up user
      unfolding admitDevice_def Let_def by (simp flip: s0_def)
  qed
qed

lemma touch_IDs [simp]:
  "s_ID (touch_session now ip ua ses) = s_ID ses" "d_ID (touch_device x now ip ua d) = d_ID d"
  by (simp_all add: touch_session_def touch_device_def)

lemma advances_visit:
  assumes "keyed s" and "gm_get (st_Sessions s) sid = Some ses" and "gm_get (st_Devices s) did = Some d"
    and "\<And>r. s_ID (f r) = s_ID r" and "\<And>r. d_ID (g r) = d_ID r"
    and "\<And>r. session_state_ok r \<Longrightarrow> session_state_ok (f r)"
    and "\<And>r. device_state_ok r \<Longrightarrow> device_state_ok (g r)"
  shows "advances s (markDeviceLocked (d_ID d) (markSessionLocked (s_ID ses)
    (s\<lparr>st_Sessions := gm_mod sid f (st_Sessions s), st_Devices := gm_mod did g (st_Devices s)\<rparr>)))"
proof -
  define t where "t = markSessionLocked (s_ID ses) (s\<lparr>st_Sessions := gm_mod sid f (st_Sessions s)\<rparr>)"
  have t: "advances s t" unfolding t_def using assms(1,2,4,6) by (rule advances_mod_session)
  have d: "gm_get (st_Devices t) did = Some d" using assms(3) by (simp add: t_def)
  have "advances t (markDeviceLocked (d_ID d) (t\<lparr>st_Devices := gm_mod did g (st_Devices t)\<rparr>))"
    using t d assms(5,7) by (intro advances_mod_device) (auto simp: advances_def)
  moreover have "t\<lparr>st_Devices := gm_mod did g (st_Devices t)\<rparr> = markSessionLocked (s_ID ses)
    (s\<lparr>st_Sessions := gm_mod sid f (st_Sessions s), st_Devices := gm_mod did g (st_Devices s)\<rparr>)"
    by (simp add: t_def markSessionLocked_def)
  ultimately show ?thesis using t by (auto intro: advances_trans)
qed

lemma advances_section:
  assumes "keyed s"
  shows "advances s (snd (session_section x now ip ua sid s))"
  using assms
  by (auto simp: session_section_def Let_def intro!: advances_mod_session advances_visit
      split: option.split)

lemma authorize_settles:
  assumes "keyed s"
  shows "\<exists>n. settles x n s (snd (authorize_pass x cfg key io now r token s))"
    and "\<exists>n. settles x n s (snd (subscribe_pass x cfg key io now r token s))"
proof -
  have *: "\<exists>n. settles x n s (snd (session_section x now ip ua sid s))"
    "\<exists>n. settles x n s (snd (saveLocked x io (snd (session_section x now ip ua sid s))))" for ip ua sid
    using advances_section [OF assms, of x now ip ua sid] by (auto intro: settles_done settles_save)
  show "\<exists>n. settles x n s (snd (authorize_pass x cfg key io now r token s))"
    unfolding authorize_pass_def
    by (auto simp: Let_def split_beta * split: prod.split section_result.split option.split)
  show "\<exists>n. settles x n s (snd (subscribe_pass x cfg key io now r token s))"
    unfolding subscribe_pass_def
    by (auto simp: Let_def split_beta * split: prod.split section_result.split option.split)
qed

lemma revoke_settles:
  assumes "keyed s"
  shows "\<exists>n. settles x n s (snd (revoke_section x cfg io now r actor uid did s))"
  unfolding revoke_section_def
  using assms
  by (auto simp: Let_def split_beta intro!: settles_done settles_save advances_revoke split: option.split)

lemma patch_settles:
  assumes "keyed s"
  shows "\<exists>n. settles x n s (snd (handleAdminPatchDeviceLimit x cfg io now r body userKey s))"
proof -
  have "\<exists>n. settles x n s (snd (saveLocked x io (addAuditLocked x a uid did act ip ua det now
      (markUserLocked (u_ID u') (s\<lparr>st_Users := gm_mod k (\<lambda>_. u') (st_Users s)\<rparr>)))))"
    if "findUserLocked x userKey s = Some (k, u)" "u_ID u' = u_ID u" for k u u' a uid did act ip ua det
  proof -
    have u: "gm_get (st_Users s) k = Some u" using findUserLocked_get [OF that(1) keyedD(1) [OF assms]] .
    then have k: "u_ID u = k" using keyedD(4) [OF assms] by (simp add: ids_match_get)
    have "advances s (markUserLocked (u_ID u') (s\<lparr>st_rng := st_rng s, st_Users := gm_mod k (\<lambda>_. u') (st_Users s)\<rparr>))"
      using assms keyedD [OF assms] u k that(2)
      by (intro advances_user) (auto intro!: ids_match_mod simp: ids_match_get)
    then have "advances s (addAuditLocked x a uid did act ip ua det now
        (markUserLocked (u_ID u') (s\<lparr>st_Users := gm_mod k (\<lambda>_. u') (st_Users s)\<rparr>)))"
      by (auto intro: advances_trans advances_audit)
    then show ?thesis by (rule settles_save)
  qed
  then show ?thesis
    unfolding handleAdminPatchDeviceLimit_def
    using assms by (auto simp: Let_def split_beta settles_done split: option.split sum.split)
qed

lemma advances_delete:
  assumes "keyed s"
  shows "advances s (deleteSessionLocked sid s)" and "advances s (deleteDeviceLocked did s)"
  using assms
  by (auto simp: advances_def keyed_def edits_def deleteSessionLocked_def unindexSession_def
      deleteDeviceLocked_def Let_def ids_match_del gm_wf_del states_ok_def
      intro!: edited_one record_states_change split: option.split)

lemma advances_remove_one:
  assumes "keyed s"
  shows "advances s (remove_one c e s)"
proof -
  have "advances s (fold (drop_session_of (fst e)) (st_Sessions s) s)"
    by (rule advances_fold [where J = "\<lambda>_. True"])
       (use assms in \<open>auto simp: drop_session_of_def advances_delete\<close>)
  then show ?thesis
    using assms by (auto simp: remove_one_def intro: advances_trans advances_delete)
qed

lemma cleanup_settles:
  assumes "keyed s"
  shows "\<exists>n. settles x n s (cleanupRevokedDevices x io t90 t30 now s)"
proof -
  define s1 where "s1 = fold (auto_revoke_one x (t30 + - hours (30 * 24)) now) (st_Devices s) s"
  define s2 where "s2 = fold (remove_one (t90 + - hours (90 * 24))) (st_Devices s1) s1"
  have s1: "advances s s1" unfolding s1_def
    by (rule advances_fold [where J = "\<lambda>_. True"])
       (use assms in \<open>auto simp: auto_revoke_one_def advances_revoke\<close>)
  then have "advances s1 s2" unfolding s2_def
    by (intro advances_fold [where J = "\<lambda>_. True"])
       (use s1 in \<open>auto simp: advances_def dest: advances_remove_one [unfolded advances_def]\<close>)
  with s1 have "advances s s2" by (auto intro: advances_trans)
  then show ?thesis
    unfolding cleanupRevokedDevices_def Let_def s1_def [symmetric] s2_def [symmetric]
    by (auto intro: settles_done settles_save)
qed

lemma sub_url_settles:
  assumes "keyed s"
  shows "\<exists>n. settles x n s (remember_sub_url x io sid cipher s)"
  using assms
  by (auto simp: remember_sub_url_def intro!: settles_done settles_save advances_mod_session
      split: option.split)

lemma subscription_settles:
  assumes "keyed s"
  shows "\<exists>n. settles x n s (store_subscription x io now sn k sid cipher s)"
proof (cases "gm_get (st_Users s) k")
  case None
  then show ?thesis using assms by (simp add: store_subscription_def settles_done)
next
  case (Some u)
  define t where "t = markUserLocked (u_ID u) (s\<lparr>st_Users := gm_mod k (refresh_user sn now) (st_Users s)\<rparr>)"
  have t: "advances s t" unfolding t_def using assms Some by (rule advances_mod_user) simp
  have "advances t (markSessionLocked (s_ID ses)
      (t\<lparr>st_Sessions := gm_mod sid (\<lambda>b. b\<lparr>s_BusinessSubURLCipher := cipher\<rparr>) (st_Sessions t)\<rparr>))"
    if "gm_get (st_Sessions t) sid = Some ses" for ses
    using t that by (intro advances_mod_session) (auto simp: advances_def)
  then show ?thesis
    using Some t
    by (auto simp: store_subscription_def Let_def t_def [symmetric] intro: advances_trans
        intro!: settles_save split: option.split)
qed

lemma reorder_settles:
  assumes "keyed s" and "same_entries s t"
  shows "\<exists>n. settles x n s t"
proof -
  note f = same_entries_fields [OF assms(2)]
  have "gm_get (st_Users t) = gm_get (st_Users s)" "gm_get (st_Devices t) = gm_get (st_Devices s)"
    "gm_get (st_Sessions t) = gm_get (st_Sessions s)"
    using f(1-3) keyedD [OF assms(1)] wf_get_perm by auto
  then have "edits 0 s t" using f(6-14) by (simp add: edits_def same_marks_def tracked_def)
  moreover have "keyed t"
    using f(1-3) keyedD [OF assms(1)] by (auto simp: keyed_def intro: wf_perm ids_match_perm)
  moreover have "states_ok t" if "states_ok s"
    using that \<open>gm_get (st_Devices t) = gm_get (st_Devices s)\<close>
      \<open>gm_get (st_Sessions t) = gm_get (st_Sessions s)\<close>
    by (simp add: states_ok_def record_states_def)
  ultimately show ?thesis unfolding settles_def by blast
qed

text \<open>Every critical section of the account system settles.\<close>

lemma section_settles:
  assumes "section_step x cfg key s t" and inv: "account_inv s"
  shows "\<exists>n. settles x n s t"
  using assms(1)
  by (cases rule: section_step.cases)
     (auto intro: admit_settles [OF inv] authorize_settles revoke_settles patch_settles
       cleanup_settles subscription_settles sub_url_settles settles_save reorder_settles
       simp: inv_keyed [OF inv])

end
