(* ===== verification/PersistProps.thy ===== *)
theory PersistProps
  imports PersistSteps
begin

text \<open>
  The gateway with PostgreSQL as one transition system: it starts from what \<open>LoadStore\<close>
  returns, and its steps are the critical sections, with saves that commit, fail or are lost,
  and reloads. The invariant relates every reachable store to its database; the properties
  say what a successful save, a restart and a reload do.
\<close>

section \<open>Starting\<close>

text \<open>
  A database the gateway wrote, and the data file beside it: the file only matters while the
  database has no users, and then it is a whole snapshot that is migrated.
\<close>

definition snapshot_ok :: "Snapshot \<Rightarrow> bool" where
  "snapshot_ok sp = (snapshot_inv sp \<and> record_states (sp_Devices sp) (sp_Sessions sp))"

definition loadable :: "ext \<Rightarrow> PgDb \<Rightarrow> file_read \<Rightarrow> bool" where
  "loadable x db rd =
     (db_ok x db \<and> snapshot_ok (LoadAll db) \<and>
      (pg_users db \<noteq> [] \<or>
       (pg_devices db = [] \<and> pg_sessions db = [] \<and>
        (\<forall>sp. rd = FileHolds sp \<longrightarrow> snapshot_ok sp \<and> sp_Users sp \<noteq> []))))"

definition started_store :: "ext \<Rightarrow> Store \<Rightarrow> bool" where
  "started_store x s =
     (\<exists>db rd mig. loadable x db rd \<and> LoadStore x (Some db) True rd mig = Some s)"

definition gateway_inv :: "ext \<Rightarrow> Store \<Rightarrow> bool" where
  "gateway_inv x s = (account_inv s \<and> states_ok s \<and> st_pg s \<noteq> None \<and> persist_inv x s)"

lemma empty_clean [simp]: "\<not> hasPendingChangesLocked (emptyStore pg file)"
  by (simp add: hasPendingChangesLocked_def emptyStore_def)

lemma empty_pg [simp]: "st_pg (emptyStore pg file) = pg"
  by (simp add: emptyStore_def)

lemma install_inv:
  assumes "snapshot_ok (LoadAll db)" and "db_ok x db" and "st_pg s = Some db"
    and "\<not> hasPendingChangesLocked s"
  shows "gateway_inv x (rebuildSessionIndexesLocked (install_snapshot (LoadAll db) s))"
  using assms clean_mirrors_inv [OF loaded_mirrors [OF assms(2), of s] assms(2)]
  by (simp add: gateway_inv_def reload_account_inv snapshot_ok_def states_ok_def)

lemma migrated_inv:
  assumes x: "pg_exact x" and ok: "db_ok x db" and sp: "snapshot_ok sp"
    and s: "st_Users s = sp_Users sp" "st_Devices s = sp_Devices sp" "st_Sessions s = sp_Sessions sp"
    and clean: "\<not> hasPendingChangesLocked s"
  shows "gateway_inv x (rebuildSessionIndexesLocked (s\<lparr>st_pg := Some (SaveAll x s db)\<rparr>))"
proof -
  have k: "keyed s" using sp s by (simp add: keyed_def snapshot_inv_def snapshot_ok_def)
  have "account_inv (rebuildSessionIndexesLocked (install_snapshot sp s))"
    using sp by (simp add: reload_account_inv snapshot_ok_def)
  then have "account_inv (rebuildSessionIndexesLocked (s\<lparr>st_pg := Some (SaveAll x s db)\<rparr>))"
    by (subst account_inv_cong [of _ "rebuildSessionIndexesLocked (install_snapshot sp s)"])
       (simp_all add: s rebuildSessionIndexesLocked_def install_snapshot_def)
  moreover have "persist_inv x (s\<lparr>st_pg := Some (SaveAll x s db)\<rparr>)"
    using SaveAll_mirrors [OF k, of x db] SaveAll_ok [OF x k ok] clean
    by (intro clean_mirrors_inv)
       (auto simp: db_mirrors_def hasPendingChangesLocked_def)
  moreover have "states_ok s" using sp s by (simp add: states_ok_def snapshot_ok_def)
  ultimately show ?thesis by (simp add: gateway_inv_def states_ok_def)
qed

lemma started_inv:
  assumes x: "pg_exact x" and start: "started_store x s"
  shows "gateway_inv x s"
proof -
  obtain db rd mig where l: "loadable x db rd" and run: "LoadStore x (Some db) True rd mig = Some s"
    using start by (auto simp: started_store_def)
  define fl where "fl = (case rd of FileHolds sp \<Rightarrow> Some sp | _ \<Rightarrow> None)"
  define s1 where "s1 = install_snapshot (LoadAll db) (emptyStore (Some db) fl)"
  have ok: "db_ok x db" and sn: "snapshot_ok (LoadAll db)" using l by (simp_all add: loadable_def)
  have base: "gateway_inv x (rebuildSessionIndexesLocked s1)"
    unfolding s1_def using sn ok by (rule install_inv) simp_all
  show ?thesis
  proof (cases "pg_users db \<noteq> [] \<or> \<not> (\<exists>sp. rd = FileHolds sp)")
    case True
    have "st_Users s1 = pg_users db" by (simp add: s1_def LoadAll_tables [OF ok])
    then have "s = rebuildSessionIndexesLocked s1"
      using run True
      unfolding LoadStore_def Let_def fl_def [symmetric] option.case s1_def [symmetric]
      by (cases rd) (auto simp: loadFromFile_def split: if_splits)
    then show ?thesis using base by simp
  next
    case False
    then obtain sp where sp: "rd = FileHolds sp" by blast
    have held: "snapshot_ok sp" "sp_Users sp \<noteq> []" and none: "pg_users db = []" "pg_devices db = []"
      "pg_sessions db = []" using l False sp by (auto simp: loadable_def)
    define s2 where "s2 = s1\<lparr>st_Users := sp_Users sp, st_Devices := sp_Devices sp,
      st_Sessions := sp_Sessions sp, st_Audits := sp_Audits sp\<rparr>"
    have empty: "st_Users s1 = []" "st_Devices s1 = []" "st_Sessions s1 = []"
      by (simp_all add: s1_def LoadAll_tables [OF ok] none)
    then have "loadFromFile rd s1 = Some s2"
      using held(1) by (simp add: loadFromFile_def sp s2_def snapshot_ok_def snapshot_inv_def copy_all_id)
    then have "s = rebuildSessionIndexesLocked (s2\<lparr>st_pg := Some (SaveAll x s2 db)\<rparr>)"
      using run empty held(2)
      unfolding LoadStore_def Let_def fl_def [symmetric] option.case s1_def [symmetric]
      by (simp add: s2_def split: if_splits)
    then show ?thesis
      using migrated_inv [OF x ok held(1), of s2]
      by (simp add: s2_def s1_def hasPendingChangesLocked_def install_snapshot_def emptyStore_def)
  qed
qed

section \<open>Steps\<close>

text \<open>
  \<open>gateway_step n s t\<close>: a critical section with \<open>n\<close> marks, or a reload of the database while
  nothing is pending, whose atomicity is justified by \<open>reload_keeps_changes\<close> below.
\<close>

inductive gateway_step :: "ext \<Rightarrow> Config \<Rightarrow> string \<Rightarrow> nat \<Rightarrow> Store \<Rightarrow> Store \<Rightarrow> bool"
  for x :: ext and cfg :: Config and key :: string where
  locked: "section_step x cfg key s t \<Longrightarrow> settles x n s t \<Longrightarrow> gateway_step x cfg key n s t"
| reloaded: "st_pg s = Some db \<Longrightarrow> \<not> hasPendingChangesLocked s \<Longrightarrow>
     gateway_step x cfg key 0 s (rebuildSessionIndexesLocked (install_snapshot (LoadAll db) s))"

inductive gateway_run :: "ext \<Rightarrow> Config \<Rightarrow> string \<Rightarrow> nat \<Rightarrow> Store \<Rightarrow> Store \<Rightarrow> bool"
  for x :: ext and cfg :: Config and key :: string where
  here: "gateway_run x cfg key 0 s s"
| onward: "gateway_run x cfg key m s t \<Longrightarrow> gateway_step x cfg key n t u \<Longrightarrow>
     gateway_run x cfg key (m + n) s u"

inductive_cases gateway_stepE: "gateway_step x cfg key n s t"

text \<open>Every critical section is a step of this system.\<close>

lemma section_is_step:
  "section_step x cfg key s t \<Longrightarrow> account_inv s \<Longrightarrow> \<exists>n. gateway_step x cfg key n s t"
  using section_settles gateway_step.locked by blast

lemma mirrored_row:
  assumes "mirrors view row mem tbl" and "gm_get tbl k = Some r"
  obtains v where "gm_get mem k = Some v" and "view r = view (row v)"
  using assms(1) [unfolded mirrors_def, THEN spec, of k] assms(2) that
  by (cases "gm_get mem k") auto

lemma mirrored_rec:
  assumes "mirrors view row mem tbl" and "gm_get mem k = Some v"
  obtains r where "gm_get tbl k = Some r" and "view r = view (row v)"
  using assms(1) [unfolded mirrors_def, THEN spec, of k] assms(2) that
  by (cases "gm_get tbl k") auto

text \<open>What the account invariant reads is among the columns.\<close>

lemma same_user_columns: "user_columns a = user_columns (user_row x b) \<Longrightarrow> u_ID a = u_ID b"
  by (cases a; cases b; simp add: columns_defs row_defs)

lemma same_device_columns:
  "device_columns d = device_columns (device_row x e) \<Longrightarrow>
     d_ID d = d_ID e \<and> d_UserID d = d_UserID e \<and> d_DeviceIDHash d = d_DeviceIDHash e \<and>
     d_Status d = d_Status e \<and> (d_RevokedAt d = None \<longleftrightarrow> d_RevokedAt e = None)"
  by (cases d; cases e; simp add: columns_defs row_defs)

lemma same_session_columns:
  "session_columns s = session_columns (session_row x t) \<Longrightarrow>
     s_ID s = s_ID t \<and> s_UserID s = s_UserID t \<and> s_DeviceID s = s_DeviceID t \<and>
     s_TokenHash s = s_TokenHash t \<and> s_SubscribeTokenHash s = s_SubscribeTokenHash t \<and>
     s_Status s = s_Status t"
  by (cases s; cases t; simp add: columns_defs row_defs)

lemma mirrored_ids:
  assumes "gm_wf tbl" and "ids_match idf mem"
    and "\<And>k r. gm_get tbl k = Some r \<Longrightarrow> \<exists>v. gm_get mem k = Some v \<and> idf r = idf v"
  shows "ids_match idf tbl"
  unfolding ids_match_def
proof
  fix e assume "e \<in> set tbl"
  then have "gm_get tbl (fst e) = Some (snd e)" using assms(1) by (simp flip: gm_wf_get)
  then obtain v where "gm_get mem (fst e) = Some v" "idf (snd e) = idf v" using assms(3) by blast
  then show "idf (snd e) = fst e" using assms(2) by (simp add: ids_match_get)
qed

lemma mirrored_user:
  assumes "db_mirrors x s db" and "gm_get (pg_users db) k = Some r"
  shows "\<exists>v. gm_get (st_Users s) k = Some v \<and> u_ID r = u_ID v"
proof -
  have "mirrors user_columns (user_row x) (st_Users s) (pg_users db)"
    using assms(1) by (simp add: db_mirrors_def)
  from mirrored_row [OF this assms(2)] show ?thesis by (blast dest: same_user_columns)
qed

lemma mirrored_device:
  assumes "db_mirrors x s db" and "gm_get (pg_devices db) k = Some r"
  shows "\<exists>v. gm_get (st_Devices s) k = Some v \<and> d_ID r = d_ID v \<and> d_UserID r = d_UserID v \<and>
      d_DeviceIDHash r = d_DeviceIDHash v \<and> d_Status r = d_Status v \<and>
      (d_RevokedAt r = None \<longleftrightarrow> d_RevokedAt v = None)"
proof -
  have "mirrors device_columns (device_row x) (st_Devices s) (pg_devices db)"
    using assms(1) by (simp add: db_mirrors_def)
  from this assms(2) obtain v where "gm_get (st_Devices s) k = Some v"
    "device_columns r = device_columns (device_row x v)" by (rule mirrored_row)
  with same_device_columns [of r x v] show ?thesis by simp
qed

lemma mirrored_session:
  assumes "db_mirrors x s db" and "gm_get (pg_sessions db) k = Some r"
  shows "\<exists>v. gm_get (st_Sessions s) k = Some v \<and> s_ID r = s_ID v \<and> s_UserID r = s_UserID v \<and>
      s_DeviceID r = s_DeviceID v \<and> s_TokenHash r = s_TokenHash v \<and>
      s_SubscribeTokenHash r = s_SubscribeTokenHash v \<and> s_Status r = s_Status v"
proof -
  have "mirrors session_columns (session_row x) (st_Sessions s) (pg_sessions db)"
    using assms(1) by (simp add: db_mirrors_def)
  from mirrored_row [OF this assms(2)] show ?thesis by (blast dest: same_session_columns)
qed

lemma mirrored_backed:
  assumes inv: "account_inv s" and m: "db_mirrors x s db"
    and ses: "gm_get (pg_sessions db) k = Some ses" "s_Status ses = statusActive"
  shows "session_backed (pg_users db) (pg_devices db) ses"
proof -
  obtain v where v: "gm_get (st_Sessions s) k = Some v" "s_UserID ses = s_UserID v"
    "s_DeviceID ses = s_DeviceID v" "s_Status v = statusActive"
    using mirrored_session [OF m ses(1)] ses(2) by auto
  then obtain u d where ud: "gm_get (st_Users s) (s_UserID ses) = Some u"
    "gm_get (st_Devices s) (s_DeviceID ses) = Some d" "is_active_of (s_UserID ses) d"
    using account_invD(3) [OF inv] unfolding sessions_backed_def session_backed_def by fastforce
  have mu: "mirrors user_columns (user_row x) (st_Users s) (pg_users db)"
    and md: "mirrors device_columns (device_row x) (st_Devices s) (pg_devices db)"
    using m by (simp_all add: db_mirrors_def)
  obtain d' where d': "gm_get (pg_devices db) (s_DeviceID ses) = Some d'"
    "device_columns d' = device_columns (device_row x d)" using md ud(2) by (rule mirrored_rec)
  from same_device_columns [OF d'(2)] have "d_UserID d' = d_UserID d" "d_Status d' = d_Status d" by simp_all
  note this d'(1)
  moreover have "gm_get (pg_users db) (s_UserID ses) \<noteq> None"
    using mirrored_rec [OF mu ud(1)] by auto
  ultimately show ?thesis using ud(3) by (auto simp: session_backed_def is_active_of_def)
qed

lemma mirrored_snapshot:
  assumes inv: "account_inv s" and m: "db_mirrors x s db" and ok: "db_ok x db"
  shows "snapshot_inv (LoadAll db)"
proof -
  note tok = tables_okD [OF account_invD(1) [OF inv]]
  note U = mirrored_user [OF m] and D = mirrored_device [OF m] and S = mirrored_session [OF m]
  have wf: "gm_wf (pg_users db)" "gm_wf (pg_devices db)" "gm_wf (pg_sessions db)"
    using ok by (simp_all add: db_ok_def)
  have ids: "ids_match u_ID (pg_users db)" "ids_match d_ID (pg_devices db)" "ids_match s_ID (pg_sessions db)"
    using mirrored_ids [OF wf(1) tok(4)] mirrored_ids [OF wf(2) tok(5)] mirrored_ids [OF wf(3) tok(6)]
      U D S by metis+
  have one: "one_record_per_hash (pg_devices db)"
    unfolding one_record_per_hash_def
  proof (intro allI impI)
    fix k k' d d'
    assume r: "gm_get (pg_devices db) k = Some d" "gm_get (pg_devices db) k' = Some d'"
      "d_UserID d = d_UserID d'" "d_DeviceIDHash d = d_DeviceIDHash d'"
    with D [OF r(1)] D [OF r(2)] show "k = k'"
      using account_invD(2) [OF inv, unfolded one_record_per_hash_def, rule_format, of k _ k'] by auto
  qed
  have act: "one_active_session (pg_sessions db)"
    unfolding one_active_session_def
  proof (intro allI impI)
    fix k k' a b
    assume r: "gm_get (pg_sessions db) k = Some a" "gm_get (pg_sessions db) k' = Some b"
      "s_Status a = statusActive" "s_Status b = statusActive" "s_DeviceID a = s_DeviceID b"
    with S [OF r(1)] S [OF r(2)] show "k = k'"
      using account_invD(4) [OF inv, unfolded one_active_session_def, rule_format, of k _ k'] by auto
  qed
  have hu: "hashes_unique s_TokenHash (pg_sessions db)" "hashes_unique s_SubscribeTokenHash (pg_sessions db)"
    using index_ok_unique [OF account_invD(5) [OF inv]] index_ok_unique [OF account_invD(6) [OF inv]]
    unfolding hashes_unique_def by (metis S)+
  have none: "gm_get (pg_sessions db) [] = None"
    using S [of "[]"] tok(7) by (cases "gm_get (pg_sessions db) []") auto
  show ?thesis
    using wf ids none one act hu mirrored_backed [OF inv m]
    by (simp add: snapshot_inv_def LoadAll_tables [OF ok])
qed

lemma mirrored_states:
  assumes "states_ok s" and "db_mirrors x s db"
  shows "record_states (pg_devices db) (pg_sessions db)"
  unfolding record_states_def
proof (intro conjI allI impI)
  fix k d assume "gm_get (pg_devices db) k = Some d"
  from mirrored_device [OF assms(2) this] obtain v where v: "gm_get (st_Devices s) k = Some v"
    "d_Status d = d_Status v" "d_RevokedAt d = None \<longleftrightarrow> d_RevokedAt v = None"
    by (elim exE conjE) (rule that)
  have "device_state_ok v" using assms(1) v(1) by (simp add: states_ok_def record_states_def)
  with v show "device_state_ok d" by (simp add: device_state_ok_def)
next
  fix k ses assume "gm_get (pg_sessions db) k = Some ses"
  from mirrored_session [OF assms(2) this] obtain v where v: "gm_get (st_Sessions s) k = Some v"
    "s_Status ses = s_Status v" by blast
  have "session_state_ok v" using assms(1) v(1) by (simp add: states_ok_def record_states_def)
  with v show "session_state_ok ses" by (simp add: session_state_ok_def)
qed

lemma mirrored_ok:
  assumes "account_inv s" and "states_ok s" and "db_mirrors x s db" and "db_ok x db"
  shows "snapshot_ok (LoadAll db)"
  using mirrored_snapshot [OF assms(1,3,4)] mirrored_states [OF assms(2,3)]
  by (simp add: snapshot_ok_def LoadAll_tables [OF assms(4)])

lemma saveLocked_pg: "st_pg (snd (saveLocked x io s)) = None \<longleftrightarrow> st_pg s = None"
  by (cases io) (auto simp: saveLocked_def Let_def clearDirtyLocked_def split: option.split)

lemma saveLocked_revision: "st_revision (snd (saveLocked x io s)) = st_revision s"
  by (cases io) (auto simp: saveLocked_def Let_def clearDirtyLocked_def split: option.split)

lemma saveLocked_clean:
  assumes "\<not> hasPendingChangesLocked s"
  shows "st_pg s \<noteq> None \<Longrightarrow> snd (saveLocked x io s) = s"
  using assms
  by (auto simp: saveLocked_def Let_def hasPendingChangesLocked_def changesEmpty_def
      postgresChangesLocked_def keysOf_def)

lemma gateway_step_inv:
  assumes "pg_exact x" and "gateway_step x cfg key n s t" and inv: "gateway_inv x s"
  shows "gateway_inv x t"
  using assms(2)
proof (cases rule: gateway_step.cases)
  case locked
  have acc: "account_inv t" using locked(1) inv section_step_inv by (auto simp: gateway_inv_def)
  from locked(2) inv obtain u where u: "edits n s u" "keyed u"
    "t = u \<or> (\<exists>io. t = snd (saveLocked x io u))" "states_ok u"
    by (auto simp: settles_def gateway_inv_def)
  have states: "states_ok t" using u(3,4) by (auto simp: states_ok_def)
  have "st_pg u \<noteq> None" using u(1) inv by (simp add: edits_def gateway_inv_def)
  then have pg: "st_pg t \<noteq> None" using u(3) saveLocked_pg [of x _ u] by metis
  have "persist_inv x u" using edits_persist [OF u(1)] inv by (simp add: gateway_inv_def)
  then have "persist_inv x t" using u(2,3) save_persist [OF assms(1)] by auto
  with acc pg states show ?thesis by (simp add: gateway_inv_def)
next
  case (reloaded db)
  have p: "db_in_sync x s db" "db_ok x db" using inv reloaded(3) by (simp_all add: gateway_inv_def persist_inv_def)
  have "snapshot_ok (LoadAll db)"
    using mirrored_ok [OF _ _ no_marks_mirrors [OF p(1) reloaded(4)] p(2)] inv
    by (simp add: gateway_inv_def)
  then show ?thesis unfolding reloaded(2) using p(2) reloaded(3,4) by (intro install_inv)
qed

interpretation gateway: guarded_system
    "\<lambda>s. pg_exact x \<and> started_store x s" "\<lambda>s t. \<exists>n. gateway_step x cfg key n s t"
    "\<lambda>s. pg_exact x \<and> gateway_inv x s" for x cfg key
  by unfold_locales (auto intro: started_inv gateway_step_inv) 

lemma run_inv:
  assumes "gateway_run x cfg key n s t" and "pg_exact x" and "gateway_inv x s"
  shows "gateway_inv x t"
  using assms by (induction rule: gateway_run.induct) (auto intro: gateway_step_inv)

lemma started_run_inv:
  "pg_exact x \<Longrightarrow> started_store x s0 \<Longrightarrow> gateway_run x cfg key n s0 s \<Longrightarrow> gateway_inv x s"
  using run_inv started_inv by blast

text \<open>What a run does to the revision, and what a run without marks leaves alone.\<close>

lemma settles_revision: "settles x n s t \<Longrightarrow> st_revision t = st_revision s + of_nat n"
  by (auto simp: settles_def edits_def saveLocked_revision)

lemma run_revision:
  "gateway_run x cfg key n s t \<Longrightarrow> st_revision t = st_revision s + of_nat n"
  by (induction rule: gateway_run.induct)
     (auto elim!: gateway_stepE dest: settles_revision simp: add.assoc)

lemma settles_none:
  assumes "settles x 0 s t" and "\<not> hasPendingChangesLocked s" and "st_pg s \<noteq> None"
  shows "st_pg t = st_pg s \<and> \<not> hasPendingChangesLocked t"
proof -
  from assms(1) obtain u where u: "edits 0 s u" "t = u \<or> (\<exists>io. t = snd (saveLocked x io u))"
    by (auto simp: settles_def)
  have n: "st_pg u = st_pg s" "\<not> hasPendingChangesLocked u" using edits_none [OF u(1) assms(2)] by simp_all
  then have "t = u" using u(2) saveLocked_clean [OF n(2)] assms(3) by auto
  with n show ?thesis by simp
qed

lemma run_none:
  assumes "gateway_run x cfg key n s t" and "n = 0" and "\<not> hasPendingChangesLocked s"
    and "st_pg s \<noteq> None"
  shows "st_pg t = st_pg s \<and> \<not> hasPendingChangesLocked t"
  using assms
proof (induction rule: gateway_run.induct)
  case (here s)
  then show ?case by simp
next
  case (onward m s t n u)
  then have "m = 0" "n = 0" by simp_all
  with onward have t: "st_pg t = st_pg s" "\<not> hasPendingChangesLocked t" by simp_all
  with onward(2) \<open>n = 0\<close> onward.prems(3) have "st_pg u = st_pg t \<and> \<not> hasPendingChangesLocked u"
    by (auto elim!: gateway_stepE dest!: settles_none)
  with t show ?case by simp
qed

section \<open>Properties\<close>


text \<open>
  Property C34. In every store the gateway reaches, a device is either active and carries no revocation
  time, or revoked and carries one, and a session is active, revoked or expired: no other
  state comes up, whatever was saved, lost or read back.
\<close>

theorem record_states_typed:
  assumes "pg_exact x" and "started_store x s0" and "gateway_run x cfg key n s0 s"
  shows "(\<forall>k d. gm_get (st_Devices s) k = Some d \<longrightarrow>
        d_Status d = statusActive \<and> d_RevokedAt d = None \<or>
        d_Status d = statusRevoked \<and> d_RevokedAt d \<noteq> None) \<and>
    (\<forall>k ses. gm_get (st_Sessions s) k = Some ses \<longrightarrow>
        s_Status ses \<in> {statusActive, statusRevoked, statusExpired})"
  using started_run_inv [OF assms]
  by (simp add: gateway_inv_def states_ok_def record_states_def device_state_ok_def session_state_ok_def)

lemma index_ok_iff:
  "index_ok hashf idx m \<Longrightarrow>
   gm_get idx h = Some k \<longleftrightarrow> (h \<noteq> [] \<and> (\<exists>ses. gm_get m k = Some ses \<and> hashf ses = h))"
  unfolding index_ok_def by blast

lemma mirrored_session_back:
  assumes "db_mirrors x s db" and "gm_get (st_Sessions s) k = Some v"
  shows "\<exists>r. gm_get (pg_sessions db) k = Some r \<and> s_TokenHash r = s_TokenHash v"
proof -
  have "mirrors session_columns (session_row x) (st_Sessions s) (pg_sessions db)"
    using assms(1) by (simp add: db_mirrors_def)
  from mirrored_rec [OF this assms(2)] show ?thesis by (blast dest: same_session_columns)
qed

lemma restart_index:
  assumes "account_inv s" and "account_inv t" and "db_mirrors x s db"
    and "st_Sessions t = pg_sessions db"
  shows "gm_get (st_sessionByTokenHash t) h = gm_get (st_sessionByTokenHash s) h"
proof -
  have "(\<exists>ses. gm_get (st_Sessions t) k = Some ses \<and> s_TokenHash ses = h) \<longleftrightarrow>
      (\<exists>ses. gm_get (st_Sessions s) k = Some ses \<and> s_TokenHash ses = h)" for k
    using mirrored_session [OF assms(3), of k] mirrored_session_back [OF assms(3), of k] assms(4)
    by metis
  then have "gm_get (st_sessionByTokenHash t) h = Some k \<longleftrightarrow>
      gm_get (st_sessionByTokenHash s) h = Some k" for k
    using index_ok_iff [OF account_invD(5) [OF assms(1)]]
      index_ok_iff [OF account_invD(5) [OF assms(2)]] by simp
  then show ?thesis by (metis option.exhaust)
qed

lemma restart_run:
  assumes "db_ok x db" and "pg_users db \<noteq> []"
  obtains fl where "LoadStore x (Some db) True rd mig =
      Some (rebuildSessionIndexesLocked (install_snapshot (LoadAll db) (emptyStore (Some db) fl)))"
  using assms(2) that by (auto simp: LoadStore_def Let_def LoadAll_tables [OF assms(1)])

lemma mirrors_empty: "mirrors view row mem [] \<Longrightarrow> mem = []"
  by (cases mem) (auto simp: mirrors_def split: if_splits dest!: spec)

text \<open>
  Property C5. A restart after a successful save finds every user, device and session again, and every
  session under the same token.
\<close>

theorem restart_restores_saved:
  assumes "pg_exact x" and "started_store x s0" and "gateway_run x cfg key n s0 s"
    and "saveLocked x io s = (True, s')" and "st_Users s' \<noteq> []"
  shows "\<exists>t. LoadStore x (st_pg s') True rd mig = Some t \<and> same_records x s' t \<and>
    (\<forall>h. gm_get (st_sessionByTokenHash t) h = gm_get (st_sessionByTokenHash s') h)"
proof -
  have inv: "gateway_inv x s" using assms(1-3) by (rule started_run_inv)
  have s': "s' = snd (saveLocked x io s)" using assms(4) by simp
  have acc: "account_inv s'" using inv by (simp add: s' gateway_inv_def)
  have per: "persist_inv x s'"
    using save_persist [OF assms(1) inv_keyed] inv by (simp add: s' gateway_inv_def)
  obtain db where "st_pg s = Some db" using inv by (auto simp: gateway_inv_def)
  then obtain db' where db: "st_pg s' = Some db'" "db_mirrors x s db'"
    using save_success [OF inv_keyed _ _ assms(4)] inv by (auto simp: gateway_inv_def)
  have m: "db_mirrors x s' db'" using db(2) by (simp add: s' db_mirrors_def)
  have ok: "db_ok x db'" using per db(1) by (simp add: persist_inv_def)
  have "pg_users db' \<noteq> []" using m assms(5) by (auto simp: db_mirrors_def dest: mirrors_empty)
  then obtain fl where l: "LoadStore x (Some db') True rd mig =
      Some (rebuildSessionIndexesLocked (install_snapshot (LoadAll db') (emptyStore (Some db') fl)))"
    using ok by (rule_tac restart_run)
  define t where "t = rebuildSessionIndexesLocked (install_snapshot (LoadAll db') (emptyStore (Some db') fl))"
  have "gateway_inv x t"
    unfolding t_def using mirrored_ok [OF acc _ m ok] inv ok
    by (intro install_inv) (auto simp: s' gateway_inv_def states_ok_def)
  then have "gm_get (st_sessionByTokenHash t) h = gm_get (st_sessionByTokenHash s') h" for h
    using acc m by (intro restart_index) (auto simp: gateway_inv_def t_def LoadAll_tables [OF ok])
  moreover have "db_mirrors x t db'"
    using loaded_mirrors [OF ok, of "emptyStore (Some db') fl"] by (simp add: t_def db_mirrors_def)
  ultimately show ?thesis using l db(1) mirrors_same [OF m] by (auto simp: t_def)
qed

text \<open>
  Writing only the marked records leaves the same users, devices and sessions in the database
  as rewriting all tables would.
\<close>

theorem incremental_save_equals_full:
  assumes "pg_exact x" and "started_store x s0" and "gateway_run x cfg key n s0 s"
    and "st_pg s = Some db"
  defines "inc \<equiv> SaveChanges x (postgresChangesLocked s) db" and "all \<equiv> SaveAll x s db"
  shows "map_option user_columns (gm_get (pg_users inc) k) = map_option user_columns (gm_get (pg_users all) k) \<and>
    map_option device_columns (gm_get (pg_devices inc) k) = map_option device_columns (gm_get (pg_devices all) k) \<and>
    map_option session_columns (gm_get (pg_sessions inc) k) = map_option session_columns (gm_get (pg_sessions all) k)"
proof -
  have inv: "gateway_inv x s" using assms(1-3) by (rule started_run_inv)
  then have k: "keyed s" and sync: "db_in_sync x s db"
    using assms(4) inv_keyed by (auto simp: gateway_inv_def persist_inv_def)
  have "db_mirrors x s inc" unfolding inc_def using k sync by (rule SaveChanges_mirrors)
  moreover have "db_mirrors x s all" unfolding all_def using k by (rule SaveAll_mirrors)
  ultimately show ?thesis by (simp add: db_mirrors_def mirrors_def)
qed


section \<open>A gateway with a fresh database\<close>

definition demo_db :: PgDb where
  "demo_db = \<lparr>pg_users = [], pg_devices = [], pg_sessions = [], pg_audits = []\<rparr>"

definition demo_start :: Store where
  "demo_start = rebuildSessionIndexesLocked (install_snapshot (LoadAll demo_db) (emptyStore (Some demo_db) None))"

text \<open>A login whose save fails, so that its changes are still pending.\<close>

definition demo_pending :: Store where
  "demo_pending = snd (admitDevice demo_ext demo_cfg demo_key SaveFails 5 (demo_request [])
     (demo_login ''A'') demo_snapshot ''b'' demo_start)"

lemma demo_exact: "pg_exact demo_ext"
  by (simp add: pg_exact_def demo_ext_def)

lemma demo_started: "started_store demo_ext demo_start"
proof -
  have "loadable demo_ext demo_db FileAbsent"
    by (simp add: loadable_def db_ok_def demo_db_def snapshot_ok_def record_states_def snapshot_inv_def LoadAll_def
        one_record_per_hash_def one_active_session_def hashes_unique_def user_table.stored_def
        device_table.stored_def session_table.stored_def)
  moreover have "LoadStore demo_ext (Some demo_db) True FileAbsent True = Some demo_start"
    by (simp add: LoadStore_def demo_start_def demo_db_def LoadAll_def Let_def loadFromFile_def)
  ultimately show ?thesis unfolding started_store_def by blast
qed

lemma demo_eval:
  "fresh_draws demo_ext demo_cfg demo_start demo_pending \<and> length (st_Sessions demo_pending) = 1 \<and>
   st_Users demo_pending \<noteq> [] \<and> st_pg demo_pending = Some demo_db"
  unfolding demo_pending_def demo_start_def by code_simp

lemma demo_run: "\<exists>n. gateway_run demo_ext demo_cfg demo_key n demo_start demo_pending"
proof -
  have "account_inv demo_start"
    using started_inv [OF demo_exact demo_started] by (simp add: gateway_inv_def)
  moreover have "section_step demo_ext demo_cfg demo_key demo_start demo_pending"
    using demo_eval unfolding demo_pending_def by (blast intro: section_step.admit)
  ultimately obtain n where "gateway_step demo_ext demo_cfg demo_key n demo_start demo_pending"
    using section_is_step by blast
  then show ?thesis using gateway_run.onward [OF gateway_run.here] by blast
qed

lemma demo_save: "fst (saveLocked demo_ext SaveOk demo_pending)"
  using demo_eval by (auto simp: saveLocked_def Let_def)


theorem record_states_typed_witness:
  "\<exists>k ses. gm_get (st_Sessions demo_pending) k = Some ses \<and>
     s_Status ses \<in> {statusActive, statusRevoked, statusExpired}"
proof -
  obtain n where run: "gateway_run demo_ext demo_cfg demo_key n demo_start demo_pending"
    using demo_run by blast
  have "length (st_Sessions demo_pending) = 1" using demo_eval by simp
  then obtain k ses where "st_Sessions demo_pending = [(k, ses)]"
    by (cases "st_Sessions demo_pending") auto
  then have "gm_get (st_Sessions demo_pending) k = Some ses" by simp
  with record_states_typed [OF demo_exact demo_started run] show ?thesis by blast
qed

theorem restart_restores_saved_witness:
  "\<exists>t. LoadStore demo_ext (st_pg (snd (saveLocked demo_ext SaveOk demo_pending))) True FileAbsent True = Some t \<and>
     same_records demo_ext (snd (saveLocked demo_ext SaveOk demo_pending)) t \<and>
     length (st_Sessions demo_pending) = 1"
proof -
  obtain n where run: "gateway_run demo_ext demo_cfg demo_key n demo_start demo_pending"
    using demo_run by blast
  have "saveLocked demo_ext SaveOk demo_pending = (True, snd (saveLocked demo_ext SaveOk demo_pending))"
    using demo_save by (simp add: prod_eq_iff)
  from restart_restores_saved [OF demo_exact demo_started run this, of FileAbsent True] show ?thesis
    using demo_eval by auto
qed

theorem incremental_save_equals_full_witness:
  "length (st_Sessions demo_pending) = 1 \<and>
   (\<forall>k. map_option session_columns (gm_get (pg_sessions
          (SaveChanges demo_ext (postgresChangesLocked demo_pending) demo_db)) k) =
        map_option session_columns (gm_get (pg_sessions (SaveAll demo_ext demo_pending demo_db)) k))"
proof -
  obtain n where run: "gateway_run demo_ext demo_cfg demo_key n demo_start demo_pending"
    using demo_run by blast
  from incremental_save_equals_full [OF demo_exact demo_started run] demo_eval show ?thesis by blast
qed


end
