(* ===== verification/Failback.thy ===== *)
theory Failback
  imports BackendProps
begin

text \<open>
  The background check brings the traffic back: a run of checks that keep finding the first
  configured backend reachable makes it the active one.
\<close>

section \<open>Runs of the check\<close>

text \<open>What one run of \<open>checkBusinessRecovery\<close> sees: the probes and the clock.\<close>

type_synonym check_run = "(nat \<Rightarrow> string \<Rightarrow> bool) \<times> (nat \<Rightarrow> time \<times> time \<times> time \<times> time)"

definition run_check :: "Config \<Rightarrow> check_run \<Rightarrow> BackendPool \<Rightarrow> BackendPool" where
  "run_check cfg r p = checkBusinessRecovery cfg (fst r) (snd r) (\<lambda>i q. q) (\<lambda>i q. q) p"

text \<open>The check finds \<open>c\<close>, whose circuit is closed until \<open>until\<close>, reachable.\<close>

definition finds_up :: "time \<Rightarrow> string \<Rightarrow> check_run \<Rightarrow> bool" where
  "finds_up until c r = (fst r 0 c \<and> until \<le> fst (snd r 0))"

definition hold_over :: "Config \<Rightarrow> time \<Rightarrow> check_run \<Rightarrow> bool" where
  "hold_over cfg since r =
     (since = 0 \<or> cfg_BusinessBackupMinHold cfg \<le> time_sub (fst (snd (snd r 0))) since)"

lemma candidates_first:
  "c # cs = urls \<Longrightarrow> a \<in> set urls \<Longrightarrow> a \<noteq> c \<Longrightarrow> \<exists>rest. candidates urls a = c # rest"
  by (auto simp: candidates_def)

lemma candidates_none: "candidates (c # cs) c = []"
  by (simp add: candidates_def)

lemma votes_state: "votes p u = bs_RecoverySuccessCount (backend_state p u)"
  by (simp add: votes_def)

lemma run_check_active:
  assumes "cfg_BusinessBaseURLs cfg = c # cs" and "pl_active p = c"
  shows "run_check cfg r p = p"
  using assms by (simp add: run_check_def checkBusinessRecovery_def candidates_none)

lemma run_check_vote:
  fixes cfg r p c
  defines "q \<equiv> run_check cfg r p"
  assumes urls: "cfg_BusinessBaseURLs cfg = c # cs" and act: "pl_active p \<in> set (c # cs)"
    and other: "pl_active p \<noteq> c" and up: "finds_up (bs_DisabledUntil (backend_state p c)) c r"
  shows "pl_active q = c \<or>
      pl_active q = pl_active p \<and> pl_since q = pl_since p \<and> votes q c = votes p c + 1 \<and>
      bs_DisabledUntil (backend_state q c) = bs_DisabledUntil (backend_state p c)"
    and "required_successes cfg \<le> votes p c + 1 \<Longrightarrow> hold_over cfg (pl_since p) r \<Longrightarrow> pl_active q = c"
proof -
  obtain rest where cand: "candidates (cfg_BusinessBaseURLs cfg) (pl_active p) = c # rest"
    using candidates_first [OF urls [symmetric] _ other] act urls by auto
  have two: "\<not> length (cfg_BusinessBaseURLs cfg) < 2" using urls act other by (cases cs) auto
  obtain now held t1 t2 where clock: "snd r 0 = (now, held, t1, t2)" by (cases "snd r 0")
  have "\<not> is_disabled now p c"
    using up clock by (auto simp: finds_up_def is_disabled_def backend_state_def split: option.splits)
  then have q: "q = (let st1 = (backend_state p c)\<lparr>bs_RecoverySuccessCount := votes p c + 1\<rparr>;
        p2 = p\<lparr>pl_states := gm_set c st1 (pl_states p)\<rparr>
      in if required_successes cfg \<le> votes p c + 1 \<and> hold_over cfg (pl_since p) r
         then markBusinessSuccess t1 t2 c p2 else p2)"
    using two cand clock up
    by (simp add: q_def run_check_def checkBusinessRecovery_def finds_up_def hold_over_def votes_state
        recovery_loop.simps Let_def)
  show "pl_active q = c \<or>
      pl_active q = pl_active p \<and> pl_since q = pl_since p \<and> votes q c = votes p c + 1 \<and>
      bs_DisabledUntil (backend_state q c) = bs_DisabledUntil (backend_state p c)"
    by (auto simp: q Let_def votes_state backend_state_def)
  show "required_successes cfg \<le> votes p c + 1 \<Longrightarrow> hold_over cfg (pl_since p) r \<Longrightarrow> pl_active q = c"
    by (simp add: q Let_def)
qed

lemma run_checks_vote:
  assumes "cfg_BusinessBaseURLs cfg = c # cs" and "pl_active p \<in> set (c # cs)"
    and "\<forall>r \<in> set rs. finds_up (bs_DisabledUntil (backend_state p c)) c r"
  shows "pl_active (fold (run_check cfg) rs p) = c \<or>
    pl_active (fold (run_check cfg) rs p) = pl_active p \<and>
    pl_since (fold (run_check cfg) rs p) = pl_since p \<and>
    votes (fold (run_check cfg) rs p) c = votes p c + int (length rs) \<and>
    bs_DisabledUntil (backend_state (fold (run_check cfg) rs p) c) =
      bs_DisabledUntil (backend_state p c)"
  using assms(3)
proof (induction rs rule: rev_induct)
  case Nil
  then show ?case by simp
next
  case (snoc r rs)
  define q where "q = fold (run_check cfg) rs p"
  show ?case
  proof (cases "pl_active q = c")
    case True
    then show ?thesis using run_check_active [OF assms(1)] by (simp flip: q_def)
  next
    case False
    then have q: "pl_active q = pl_active p" "pl_since q = pl_since p" "votes q c = votes p c + int (length rs)"
      "bs_DisabledUntil (backend_state q c) = bs_DisabledUntil (backend_state p c)"
      using snoc by (auto simp: q_def)
    then have "finds_up (bs_DisabledUntil (backend_state q c)) c r" using snoc.prems by simp
    then show ?thesis
      using run_check_vote(1) [OF assms(1), of q r] assms(2) False q by (auto simp flip: q_def)
  qed
qed

text \<open>
  Property C39. The preferred backend gets the traffic back: when the check, run after run, finds the first
  configured backend with its circuit closed and reachable, then as soon as the votes reach
  the configured number and the hold time of the current backend is over, it is the active one.
\<close>

theorem failback_happens:
  assumes "cfg_BusinessBaseURLs cfg = c # cs" and "pl_active p \<in> set (c # cs)"
    and "\<forall>r \<in> set (rs @ [last_run]). finds_up (bs_DisabledUntil (backend_state p c)) c r"
    and "required_successes cfg \<le> votes p c + int (length (rs @ [last_run]))"
    and "hold_over cfg (pl_since p) last_run"
  shows "pl_active (fold (run_check cfg) (rs @ [last_run]) p) = c"
proof (cases "pl_active (fold (run_check cfg) rs p) = c")
  case True
  then show ?thesis using run_check_active [OF assms(1)] by simp
next
  case False
  define q where "q = fold (run_check cfg) rs p"
  have q: "pl_active q = pl_active p" "pl_since q = pl_since p" "votes q c = votes p c + int (length rs)"
    "bs_DisabledUntil (backend_state q c) = bs_DisabledUntil (backend_state p c)"
    using run_checks_vote [OF assms(1,2), of rs] assms(3) False by (auto simp: q_def)
  have "pl_active (run_check cfg last_run q) = c"
    using run_check_vote(2) [OF assms(1), of q last_run] assms(2-5) False q by (auto simp flip: q_def)
  then show ?thesis by (simp add: q_def)
qed

theorem failback_happens_witness:
  "pl_active (fold (run_check demo_cfg) [(\<lambda>i u. True, \<lambda>i. (60, 60, 60, 60)), (\<lambda>i u. True, \<lambda>i. (90, 90, 91, 92))]
     \<lparr>pl_states = [(''a'', no_backend_state\<lparr>bs_DisabledUntil := 50\<rparr>)], pl_active = ''b'', pl_since = 30\<rparr>) = ''a''"
proof -
  define p where "p = \<lparr>pl_states = [(''a'', no_backend_state\<lparr>bs_DisabledUntil := 50\<rparr>)],
      pl_active = ''b'', pl_since = 30\<rparr>"
  have "pl_active (fold (run_check demo_cfg)
      ([(\<lambda>i u. True, \<lambda>i. (60, 60, 60, 60))] @ [(\<lambda>i u. True, \<lambda>i. (90, 90, 91, 92))]) p) = ''a''"
    by (rule failback_happens [where cs = "[''b'']"])
       (simp_all add: demo_cfg_def p_def finds_up_def hold_over_def votes_state backend_state_def
         no_backend_state_def required_successes_def time_sub_def clamp64_def
         max_int64_def min_int64_def)
  then show ?thesis by (simp add: p_def)
qed

end
