(* ===== verification/Handlers.thy ===== *)
theory Handlers
  imports Reachable
begin

text \<open>
  The handlers that talk to the business backend: \<open>handleLogin\<close>, the proxy, the subscription
  download, and the two routers (\<open>routes\<close> and \<open>handleAdmin\<close>). A handler with one critical
  section on the store takes the store as it is when the section is entered; the pool is
  changed by the calls only.
\<close>

section \<open>State and messages\<close>

record World =
  w_Store :: Store
  w_Pool :: BackendPool

definition msg_config_failed :: string where
  "msg_config_failed =
    [CHR 0xE9, CHR 0x85, CHR 0x8D, CHR 0xE7, CHR 0xBD, CHR 0xAE, CHR 0xE5, CHR 0x8A, CHR 0xA0,
     CHR 0xE8, CHR 0xBD, CHR 0xBD, CHR 0xE5, CHR 0xA4, CHR 0xB1, CHR 0xE8, CHR 0xB4, CHR 0xA5,
     CHR 0xEF, CHR 0xBC, CHR 0x8C, CHR 0xE8, CHR 0xAF, CHR 0xB7, CHR 0xE7, CHR 0xA8, CHR 0x8D,
     CHR 0xE5, CHR 0x90, CHR 0x8E, CHR 0xE9, CHR 0x87, CHR 0x8D, CHR 0xE8, CHR 0xAF, CHR 0x95]"

definition msg_service_down :: string where
  "msg_service_down =
    [CHR 0xE6, CHR 0x9C, CHR 0x8D, CHR 0xE5, CHR 0x8A, CHR 0xA1, CHR 0xE6, CHR 0x9A, CHR 0x82,
     CHR 0xE6, CHR 0x97, CHR 0xB6, CHR 0xE4, CHR 0xB8, CHR 0x8D, CHR 0xE5, CHR 0x8F, CHR 0xAF,
     CHR 0xE7, CHR 0x94, CHR 0xA8, CHR 0xEF, CHR 0xBC, CHR 0x8C, CHR 0xE8, CHR 0xAF, CHR 0xB7,
     CHR 0xE7, CHR 0xA8, CHR 0x8D, CHR 0xE5, CHR 0x90, CHR 0x8E, CHR 0xE9, CHR 0x87, CHR 0x8D,
     CHR 0xE8, CHR 0xAF, CHR 0x95]"

section \<open>Login\<close>

definition trimmed_login :: "LoginRequest \<Rightarrow> LoginRequest" where
  "trimmed_login req =
     req\<lparr>lr_Email := trim_space (lr_Email req), lr_DeviceID := trim_space (lr_DeviceID req),
         lr_DeviceName := trim_space (lr_DeviceName req), lr_Platform := trim_space (lr_Platform req)\<rparr>"

definition default_login :: "LoginRequest \<Rightarrow> LoginRequest" where
  "default_login req =
     req\<lparr>lr_DeviceName := (if lr_DeviceName req = [] then ''Unknown device'' else lr_DeviceName req),
         lr_Platform := (if lr_Platform req = [] then ''unknown'' else lr_Platform req)\<rparr>"

definition login_snapshot :: "Config \<Rightarrow> LoginRequest \<Rightarrow> SubscriptionSnapshot option \<Rightarrow> SubscriptionSnapshot" where
  "login_snapshot cfg req fetched =
     (let sn = (case fetched of
                  Some sn \<Rightarrow> sn
                | None \<Rightarrow> \<lparr>sn_Email = lr_Email req, sn_UUID = [], sn_PlanID = 0, sn_PlanName = [],
                           sn_DeviceLimit = Some (cfg_DefaultDeviceLimit cfg), sn_DeviceLimitSet = True,
                           sn_SubscribeURL = [], sn_SubscribeToken = []\<rparr>)
      in if sn_Email sn = [] then sn\<lparr>sn_Email := lr_Email req\<rparr> else sn)"

definition login_data :: "Config \<Rightarrow> time \<Rightarrow> anymap \<Rightarrow> string \<Rightarrow> DeviceRecord \<Rightarrow> int \<Rightarrow> anymap" where
  "login_data cfg now payload sessionToken device limit =
     (let d0 = (case mapFromAny (any_index payload ''data'') of None \<Rightarrow> [] | Some d \<Rightarrow> d);
          gt = VStr (''Bearer '' @ sessionToken);
          d1 = gm_set ''device_policy'' (VStr (cfg_DevicePolicy cfg))
                (gm_set ''device_limit'' (nullableLimit limit)
                  (gm_set ''device'' (VMap (publicDevice now device (d_ID device)))
                    (gm_set ''token'' gt (gm_set ''auth_data'' gt d0))))
      in if cfg_GatewayURLs cfg \<noteq> []
         then gm_set ''gateway_urls'' (VList (map VStr (cfg_GatewayURLs cfg))) d1 else d1)"

definition login_reply :: "Config \<Rightarrow> time \<Rightarrow> anymap \<Rightarrow> admit_result \<Rightarrow> Response" where
  "login_reply cfg now payload res =
     (case res of
        Admitted tok d limit n \<Rightarrow>
          writeJSON 200 (success
            [(''message'', VStr ''Login successful''),
             (''data'', VMap (login_data cfg now payload tok d limit))])
      | LimitExceeded limit n \<Rightarrow>
          writeError 409 ''DEVICE_LIMIT_EXCEEDED'' ''Device limit exceeded''
            (Some [(''device_limit'', VInt limit), (''active_count'', VInt n)])
      | AdmitFailed limit n \<Rightarrow>
          writeError 500 ''DEVICE_ADMISSION_FAILED'' ''Device admission failed'' None)"

text \<open>The checks on the decoded body (\<open>None\<close> when it is not JSON of the right type).\<close>

definition login_checks :: "LoginRequest option \<Rightarrow> Response + LoginRequest" where
  "login_checks body =
     (case body of
        None \<Rightarrow> Inl (writeError 400 ''BAD_JSON'' ''Invalid JSON body'' None)
      | Some raw \<Rightarrow>
          let req = trimmed_login raw in
          if lr_Email req = [] \<or> lr_Password req = []
          then Inl (writeError 400 ''CREDENTIALS_REQUIRED'' ''Email and password are required'' None)
          else if lr_DeviceID req = []
          then Inl (writeError 400 ''DEVICE_ID_REQUIRED'' ''device_id is required'' None)
          else Inr (default_login req))"

text \<open>
  \<open>c1\<close> and \<open>c2\<close> are the calls for the login and the subscription, \<open>now\<close> the clock of the
  admission and \<open>now'\<close> the one of the reply.
\<close>

definition handleLogin ::
    "ext \<Rightarrow> Config \<Rightarrow> string \<Rightarrow> save_outcome \<Rightarrow> Call \<Rightarrow> Call \<Rightarrow> time \<Rightarrow> time \<Rightarrow> Request
     \<Rightarrow> LoginRequest option \<Rightarrow> World \<Rightarrow> Response \<times> World" where
  "handleLogin x cfg key io c1 c2 now now' r body w =
     (if rq_Method r \<noteq> ''POST'' then (method_not_allowed, w)
      else (case login_checks body of
        Inl resp \<Rightarrow> (resp, w)
      | Inr req \<Rightarrow>
          (case businessLogin x cfg c1 (lr_Email req) (lr_Password req) (w_Pool w) of
             (Inl (LoginHTTP code b ct), p1) \<Rightarrow> (writeRaw code ct b, w\<lparr>w_Pool := p1\<rparr>)
           | (Inl LoginPlain, p1) \<Rightarrow>
               (writeError 502 ''BACKEND_UNAVAILABLE'' msg_config_failed None, w\<lparr>w_Pool := p1\<rparr>)
           | (Inr (token, payload), p1) \<Rightarrow>
               let (fetched, p2) = fetchSubscriptionSnapshot x cfg c2 token p1;
                   (res, s1) = admitDevice x cfg key io now r req (login_snapshot cfg req fetched)
                                 token (w_Store w)
               in (login_reply cfg now' payload res, w\<lparr>w_Pool := p2, w_Store := s1\<rparr>))))"

section \<open>The proxy\<close>

definition proxy_request ::
    "ext \<Rightarrow> Config \<Rightarrow> Request \<Rightarrow> SessionContext option \<Rightarrow> string \<Rightarrow> string \<Rightarrow> breq option" where
  "proxy_request x cfg r sessionCtx body u =
     (case businessURLFor x u (rq_Path r) (rq_RawQuery r) of
        None \<Rightarrow> None
      | Some target \<Rightarrow>
          let h = copyProxyHeaders [] (rq_Header r) in
          new_request x (rq_Method r) target
            (case sessionCtx of
               Some ctx \<Rightarrow> header_set ''Authorization'' (ctx_BusinessToken ctx) h
             | None \<Rightarrow> header_del ''Authorization'' h)
            body)"

definition proxy_call ::
    "ext \<Rightarrow> Config \<Rightarrow> Call \<Rightarrow> Request \<Rightarrow> SessionContext option \<Rightarrow> string \<Rightarrow> BackendPool \<Rightarrow> try_result" where
  "proxy_call x cfg c r sessionCtx body p = try_call cfg c (proxy_request x cfg r sessionCtx body) p"

definition is_subscribe_path :: "Request \<Rightarrow> bool" where
  "is_subscribe_path r = has_suffix (rq_Path r) ''/user/getSubscribe''"

text \<open>\<open>body\<close> is what reading the request body gives; \<open>now\<close> is the clock of the rewriting.\<close>

definition proxyToBusiness ::
    "ext \<Rightarrow> Config \<Rightarrow> string \<Rightarrow> save_outcome \<Rightarrow> Call \<Rightarrow> time \<Rightarrow> Request \<Rightarrow> SessionContext option
     \<Rightarrow> string option \<Rightarrow> World \<Rightarrow> Response \<times> World" where
  "proxyToBusiness x cfg key io c now r sessionCtx body w =
     (case body of
        None \<Rightarrow> (writeError 400 ''BODY_READ_FAILED'' ''Failed to read request body'' None, w)
      | Some b \<Rightarrow>
          let t = proxy_call x cfg c r sessionCtx b (w_Pool w); w1 = w\<lparr>w_Pool := tr_Pool t\<rparr> in
          (case tr_Answer t of
             Inl _ \<Rightarrow> (writeError 502 ''BUSINESS_PROXY_FAILED'' msg_service_down None, w1)
           | Inr (code, h, None) \<Rightarrow>
               (writeError 502 ''BUSINESS_BODY_READ_FAILED'' ''Failed to read business response'' None, w1)
           | Inr (code, h, Some rb) \<Rightarrow>
               let (rb1, s1) =
                     (case sessionCtx of
                        Some ctx \<Rightarrow>
                          if 200 \<le> code \<and> code < 300 \<and> is_subscribe_path r
                          then rewriteSubscriptionResponse x cfg key io now r ctx rb (w_Store w1)
                          else (rb, w_Store w1)
                      | None \<Rightarrow> (rb, w_Store w1));
                   w2 = w1\<lparr>w_Store := s1\<rparr>
               in if code \<ge> 500 \<and> \<not> contains_str (header_get h ''Content-Type'') ''json''
                  then (writeError 502 ''BACKEND_UNAVAILABLE'' msg_config_failed None, w2)
                  else (\<lparr>rs_Status = code, rs_Header = copyResponseHeaders [] h,
                         rs_Body = RawBody rb1\<rparr>, w2)))"

text \<open>
  \<open>login\<close> is the outcome of \<open>handleLogin\<close> on the same request; \<open>between\<close> is what others do
  to the store after the session check.
\<close>

definition handleProxy ::
    "ext \<Rightarrow> Config \<Rightarrow> string \<Rightarrow> save_outcome \<Rightarrow> save_outcome \<Rightarrow> Call \<Rightarrow> time \<Rightarrow> time \<Rightarrow> time \<Rightarrow> Request
     \<Rightarrow> string option \<Rightarrow> Snapshot option \<Rightarrow> (Store \<Rightarrow> Store) \<Rightarrow> (Store \<Rightarrow> Store)
     \<Rightarrow> (World \<Rightarrow> Response \<times> World) \<Rightarrow> World \<Rightarrow> Response \<times> World" where
  "handleProxy x cfg key io io' c now now' now'' r body loaded others between login w =
     (if \<not> has_prefix (rq_Path r) (cfg_APIPrefix cfg @ ''/'')
      then (writeError 404 ''NOT_FOUND'' ''Endpoint not found'' None, w)
      else if rq_Path r = cfg_APIPrefix cfg @ ''/passport/auth/login'' then login w
      else if isPublicEndpoint (cfg_APIPrefix cfg) (rq_Path r)
      then proxyToBusiness x cfg key io' c now'' r None body w
      else
        let (auth, s1) = requireSession x cfg key io now now' r loaded others (w_Store w) in
        (case auth of
           Inl resp \<Rightarrow> (resp, w\<lparr>w_Store := s1\<rparr>)
         | Inr ctx \<Rightarrow> proxyToBusiness x cfg key io' c now'' r (Some ctx) body (w\<lparr>w_Store := between s1\<rparr>)))"

section \<open>Devices of a user\<close>

text \<open>\<open>proxy\<close> is the outcome of \<open>handleProxy\<close> for a path that only shares the prefix.\<close>

definition handleUserDevices ::
    "ext \<Rightarrow> Config \<Rightarrow> string \<Rightarrow> save_outcome \<Rightarrow> time \<Rightarrow> time \<Rightarrow> time \<Rightarrow> Request \<Rightarrow> Snapshot option
     \<Rightarrow> (Store \<Rightarrow> Store) \<Rightarrow> (Store \<Rightarrow> Store) \<Rightarrow> (World \<Rightarrow> Response \<times> World) \<Rightarrow> World \<Rightarrow> Response \<times> World" where
  "handleUserDevices x cfg key io now now' now'' r loaded others between proxy w =
     (if rq_Path r \<noteq> cfg_APIPrefix cfg @ ''/user/devices'' then proxy w
      else
        let (auth, s1) = requireSession x cfg key io now now' r loaded others (w_Store w) in
        (case auth of
           Inl resp \<Rightarrow> (resp, w\<lparr>w_Store := s1\<rparr>)
         | Inr ctx \<Rightarrow>
             let s2 = between s1 in
             (if rq_Method r = ''GET'' then writeUserDevices cfg now'' ctx s2 else method_not_allowed,
              w\<lparr>w_Store := s2\<rparr>)))"

section \<open>Subscription download\<close>

definition subscribe_token :: "ext \<Rightarrow> Request \<Rightarrow> string" where
  "subscribe_token x r =
     (let pick = (\<lambda>a b. if a \<noteq> [] then a else b) in
      pick (query_get r ''token'')
        (pick (query_get r ''device_session'')
          (pick (query_get r ''session'')
            (bearerToken x (header_get (rq_Header r) ''Authorization'')))))"

text \<open>
  \<open>fetch\<close> is the exchange with the server of the subscription URL. A body that breaks off
  while it is copied reaches the client in part; the model shows it as \<open>NoBody\<close>.
\<close>

definition handleSubscribe ::
    "ext \<Rightarrow> Config \<Rightarrow> string \<Rightarrow> save_outcome \<Rightarrow> save_outcome \<Rightarrow> Call \<Rightarrow> (breq \<Rightarrow> net_reply) \<Rightarrow> time \<Rightarrow> time
     \<Rightarrow> time \<Rightarrow> Request \<Rightarrow> Snapshot option \<Rightarrow> (Store \<Rightarrow> Store) \<Rightarrow> (Store \<Rightarrow> Store) \<Rightarrow> World
     \<Rightarrow> Response \<times> World" where
  "handleSubscribe x cfg key io io' c fetch now now' t_url r loaded others between w =
     (if rq_Method r \<noteq> ''GET'' then (method_not_allowed, w)
      else
        let token = subscribe_token x r in
        if token = []
        then (writeError 401 ''SUBSCRIBE_TOKEN_REQUIRED'' ''Subscription token is required'' None, w)
        else
          let (auth, s1) = authorizeSubscribeTokenWithReload x cfg key io now now' r token loaded others
                             (w_Store w) in
          (case auth of
             Inl _ \<Rightarrow>
               (writeError 401 ''SUBSCRIBE_SESSION_INVALID''
                  ''Subscription session is invalid or expired'' None, w\<lparr>w_Store := s1\<rparr>)
           | Inr ctx \<Rightarrow>
               let (target, p2, s2) =
                     businessSubscribeURL x cfg key io' c t_url ctx (w_Pool w) (between s1);
                   w2 = w\<lparr>w_Store := s2, w_Pool := p2\<rparr>
               in (case target of
                     None \<Rightarrow>
                       (writeError 502 ''SUBSCRIBE_URL_UNAVAILABLE'' ''Subscription URL is unavailable'' None, w2)
                   | Some u \<Rightarrow>
                       (case mergeSubscribeQuery x u (parse_query (rq_RawQuery r)) of
                          None \<Rightarrow> (writeError 502 ''BAD_SUBSCRIBE_URL'' ''Bad subscription URL'' None, w2)
                        | Some u' \<Rightarrow>
                            (case new_request x ''GET'' u'
                                    (header_del ''Authorization'' (copyProxyHeaders [] (rq_Header r))) [] of
                               None \<Rightarrow>
                                 (writeError 500 ''REQUEST_CREATE_FAILED'' ''Failed to create proxy request'' None, w2)
                             | Some req \<Rightarrow>
                                 (case fetch req of
                                    NetReply code h b \<Rightarrow>
                                      (\<lparr>rs_Status = code, rs_Header = copyResponseHeaders [] h,
                                        rs_Body = (case b of None \<Rightarrow> NoBody | Some t \<Rightarrow> RawBody t)\<rparr>, w2)
                                  | _ \<Rightarrow>
                                      (writeError 502 ''SUBSCRIBE_PROXY_FAILED'' ''Subscription proxy failed'' None,
                                       w2)))))))"

section \<open>Routing\<close>

definition handleHealth :: "time \<Rightarrow> Request \<Rightarrow> Response" where
  "handleHealth now r =
     (if rq_Method r \<noteq> ''GET'' then method_not_allowed
      else writeJSON 200 (success [(''data'', VMap [(''status'', VStr ''ok''), (''time'', VStr (rfc3339 now))])]))"

datatype route =
    RAdminPage | RAdminStatic | RHealth | RLogin | RQRSession | RQRSessionByID | RSubscribe
  | RHeartbeat | RUserDevices | RUserDeviceByID | RServiceStatus | RAdmin | RProxy

definition route_table :: "Config \<Rightarrow> (string \<times> route) list" where
  "route_table cfg =
     (let prefix = cfg_APIPrefix cfg in
      [(''/admin'', RAdminPage), (''/admin/'', RAdminPage), (''/admin/static/'', RAdminStatic),
       (''/healthz'', RHealth), (prefix @ ''/passport/auth/login'', RLogin),
       (prefix @ ''/auth/qr/sessions'', RQRSession), (prefix @ ''/auth/qr/sessions/'', RQRSessionByID),
       (prefix @ ''/client/subscribe'', RSubscribe), (prefix @ ''/user/devices/heartbeat'', RHeartbeat),
       (prefix @ ''/user/devices'', RUserDevices), (prefix @ ''/user/devices/'', RUserDeviceByID),
       (prefix @ ''/user/service-status'', RServiceStatus), (prefix @ ''/admin/'', RAdmin),
       (''/'', RProxy)])"

text \<open>
  \<open>http.ServeMux\<close> on a clean path: a pattern that ends in a slash stands for every path
  below it, the longest pattern that fits wins.
\<close>

definition pattern_fits :: "string \<Rightarrow> string \<Rightarrow> bool" where
  "pattern_fits path pat = (path = pat \<or> (has_suffix pat ''/'' \<and> has_prefix path pat))"

fun longest_fit :: "string \<Rightarrow> (string \<times> route) list \<Rightarrow> (string \<times> route) option" where
  "longest_fit path [] = None"
| "longest_fit path (e # es) =
     (case longest_fit path es of
        None \<Rightarrow> if pattern_fits path (fst e) then Some e else None
      | Some f \<Rightarrow> if pattern_fits path (fst e) \<and> length (fst e) \<ge> length (fst f) then Some e else Some f)"

definition routes :: "Config \<Rightarrow> string \<Rightarrow> route option" where
  "routes cfg path = map_option snd (longest_fit path (route_table cfg))"

datatype admin_target =
    AListUsers | AServiceHealth | AStatistics | AAuditLogs | AUserDevices string
  | ARevokeDevice string string | APatchLimit string | ANotFound

definition path_unescape :: "string \<Rightarrow> string" where
  "path_unescape s = (case url_unescape False s of None \<Rightarrow> [] | Some t \<Rightarrow> t)"

definition admin_route :: "Config \<Rightarrow> Request \<Rightarrow> admin_target" where
  "admin_route cfg r =
     (let path = trim_both (trim_prefix (rq_Path r) (cfg_APIPrefix cfg @ ''/admin'')) ''/'';
          m = rq_Method r; parts = split_on CHR ''/'' path
      in if path = ''users'' \<and> m = ''GET'' then AListUsers
         else if path = ''dashboard'' \<and> m = ''GET'' then AServiceHealth
         else if path = ''service-health'' \<and> m = ''GET'' then AServiceHealth
         else if path = ''statistics'' \<and> m = ''GET'' then AStatistics
         else if path = ''audit-logs'' \<and> m = ''GET'' then AAuditLogs
         else (case parts of
                 [a, u, b] \<Rightarrow>
                   if a = ''users'' \<and> b = ''devices'' \<and> m = ''GET'' then AUserDevices (path_unescape u)
                   else if a = ''users'' \<and> b = ''device-limit'' \<and> m = ''PATCH'' then APatchLimit (path_unescape u)
                   else ANotFound
               | [a, u, b, d] \<Rightarrow>
                   if a = ''users'' \<and> b = ''devices'' \<and> m = ''DELETE''
                   then ARevokeDevice (path_unescape u) (path_unescape d) else ANotFound
               | _ \<Rightarrow> ANotFound))"

text \<open>\<open>health\<close> is the reply of \<open>handleAdminServiceHealth\<close>, \<open>body\<close> the decoded patch.\<close>

definition handleAdmin ::
    "ext \<Rightarrow> Config \<Rightarrow> save_outcome \<Rightarrow> time \<Rightarrow> Request \<Rightarrow> string gomap option \<Rightarrow> Response \<Rightarrow> Store
     \<Rightarrow> Response \<times> Store" where
  "handleAdmin x cfg io now r body health s =
     (case requireAdmin x cfg r of
        Some resp \<Rightarrow> (resp, s)
      | None \<Rightarrow>
          (case admin_route cfg r of
             AListUsers \<Rightarrow> (handleAdminListUsers x cfg r s, s)
           | AServiceHealth \<Rightarrow> (health, s)
           | AStatistics \<Rightarrow> (handleAdminStatistics cfg now s, s)
           | AAuditLogs \<Rightarrow> (handleAdminAuditLogs r s, s)
           | AUserDevices u \<Rightarrow> (handleAdminUserDevices x cfg now u s, s)
           | ARevokeDevice u d \<Rightarrow> handleAdminRevokeDevice x cfg io now r u d s
           | APatchLimit u \<Rightarrow> handleAdminPatchDeviceLimit x cfg io now r body u s
           | ANotFound \<Rightarrow> (writeError 404 ''NOT_FOUND'' ''Admin endpoint not found'' None, s)))"

end
