(* ===== verification/QrLogin.thy ===== *)
theory QrLogin
  imports Handlers
begin

text \<open>
  Login by QR code (\<open>handleQRSession\<close> to \<open>finishQRSession\<close>): a target shows a challenge, a signed-in
  user approves it, the target polls for its login. The challenges are kept in memory under a
  lock of their own; \<open>handleQRApprove\<close> enters it twice and does its network call and the
  admission in between.
\<close>

section \<open>Challenges\<close>

record QRLoginSession =
  qr_ID :: string
  qr_PollToken :: string
  qr_Device :: LoginRequest
  qr_TargetIP :: string
  qr_TargetUA :: string
  qr_Status :: string
  qr_CreatedAt :: time
  qr_ExpiresAt :: time
  qr_ApprovedBy :: string
  qr_Response :: "anymap option"

type_synonym qr_map = "QRLoginSession gomap"

abbreviation qr_pending :: string where "qr_pending \<equiv> ''pending''"
abbreviation qr_authorizing :: string where "qr_authorizing \<equiv> ''authorizing''"
abbreviation qr_approved :: string where "qr_approved \<equiv> ''approved''"
abbreviation qr_consumed :: string where "qr_consumed \<equiv> ''consumed''"
abbreviation qr_failed :: string where "qr_failed \<equiv> ''failed''"

definition msg_qr_expired :: string where
  "msg_qr_expired =
    [CHR 0xE4, CHR 0xBA, CHR 0x8C, CHR 0xE7, CHR 0xBB, CHR 0xB4, CHR 0xE7, CHR 0xA0,
     CHR 0x81, CHR 0xE5, CHR 0xB7, CHR 0xB2, CHR 0xE8, CHR 0xBF, CHR 0x87, CHR 0xE6,
     CHR 0x9C, CHR 0x9F, CHR 0xEF, CHR 0xBC, CHR 0x8C, CHR 0xE8, CHR 0xAF, CHR 0xB7,
     CHR 0xE5, CHR 0x88, CHR 0xB7, CHR 0xE6, CHR 0x96, CHR 0xB0, CHR 0xE5, CHR 0x90,
     CHR 0x8E, CHR 0xE9, CHR 0x87, CHR 0x8D, CHR 0xE8, CHR 0xAF, CHR 0x95]"

definition msg_qr_used :: string where
  "msg_qr_used =
    [CHR 0xE4, CHR 0xBA, CHR 0x8C, CHR 0xE7, CHR 0xBB, CHR 0xB4, CHR 0xE7, CHR 0xA0,
     CHR 0x81, CHR 0xE5, CHR 0xB7, CHR 0xB2, CHR 0xE8, CHR 0xA2, CHR 0xAB, CHR 0xE4,
     CHR 0xBD, CHR 0xBF, CHR 0xE7, CHR 0x94, CHR 0xA8]"

definition msg_qr_subscription :: string where
  "msg_qr_subscription =
    [CHR 0xE6, CHR 0x97, CHR 0xA0, CHR 0xE6, CHR 0xB3, CHR 0x95, CHR 0xE9, CHR 0xAA,
     CHR 0x8C, CHR 0xE8, CHR 0xAF, CHR 0x81, CHR 0xE8, CHR 0xB4, CHR 0xA6, CHR 0xE6,
     CHR 0x88, CHR 0xB7, CHR 0xE8, CHR 0xAE, CHR 0xA2, CHR 0xE9, CHR 0x98, CHR 0x85,
     CHR 0xEF, CHR 0xBC, CHR 0x8C, CHR 0xE8, CHR 0xAF, CHR 0xB7, CHR 0xE7, CHR 0xA8,
     CHR 0x8D, CHR 0xE5, CHR 0x90, CHR 0x8E, CHR 0xE9, CHR 0x87, CHR 0x8D, CHR 0xE8,
     CHR 0xAF, CHR 0x95]"

definition msg_qr_limit :: string where
  "msg_qr_limit =
    [CHR 0xE8, CHR 0xAE, CHR 0xBE, CHR 0xE5, CHR 0xA4, CHR 0x87, CHR 0xE6, CHR 0x95,
     CHR 0xB0, CHR 0xE9, CHR 0x87, CHR 0x8F, CHR 0xE5, CHR 0xB7, CHR 0xB2, CHR 0xE8,
     CHR 0xBE, CHR 0xBE, CHR 0xE4, CHR 0xB8, CHR 0x8A, CHR 0xE9, CHR 0x99, CHR 0x90]"

definition msg_qr_admission :: string where
  "msg_qr_admission =
    [CHR 0xE8, CHR 0xAE, CHR 0xBE, CHR 0xE5, CHR 0xA4, CHR 0x87, CHR 0xE7, CHR 0x99,
     CHR 0xBB, CHR 0xE5, CHR 0xBD, CHR 0x95, CHR 0xE5, CHR 0xA4, CHR 0xB1, CHR 0xE8,
     CHR 0xB4, CHR 0xA5]"

definition qr_not_found :: Response where
  "qr_not_found = writeError 404 ''QR_SESSION_NOT_FOUND'' ''QR login session not found'' None"

definition qr_status_reply :: "anymap \<Rightarrow> Response" where
  "qr_status_reply data = writeJSON 200 (success [(''data'', VMap data)])"

text \<open>The lifetime: two minutes in nanoseconds.\<close>

definition qr_lifetime :: int where
  "qr_lifetime = 2 * 60 * 1000000000"

definition qr_session_id :: "ext \<Rightarrow> nat \<Rightarrow> string" where
  "qr_session_id x i = ''qrl_'' @ randomHex x i 16"

definition qr_checks :: "LoginRequest option \<Rightarrow> Response + LoginRequest" where
  "qr_checks body =
     (case body of
        None \<Rightarrow> Inl (writeError 400 ''BAD_JSON'' ''Invalid JSON body'' None)
      | Some raw \<Rightarrow>
          let req = raw\<lparr>lr_DeviceID := trim_space (lr_DeviceID raw),
                        lr_DeviceName := trim_space (lr_DeviceName raw),
                        lr_Platform := trim_space (lr_Platform raw)\<rparr>
          in if lr_DeviceID req = [] \<or> lr_DeviceName req = []
             then Inl (writeError 400 ''DEVICE_INFO_REQUIRED'' ''device_id and device_name are required'' None)
             else Inr (if lr_Platform req = [] then req\<lparr>lr_Platform := ''unknown''\<rparr> else req))"

definition new_qr_session :: "ext \<Rightarrow> Config \<Rightarrow> time \<Rightarrow> Request \<Rightarrow> LoginRequest \<Rightarrow> nat \<Rightarrow> QRLoginSession" where
  "new_qr_session x cfg now r req i =
     \<lparr>qr_ID = qr_session_id x i, qr_PollToken = ''qpt_'' @ randomHex x (i + 1) 24,
      qr_Device = req, qr_TargetIP = clientIP x cfg r, qr_TargetUA = userAgent r,
      qr_Status = qr_pending, qr_CreatedAt = now, qr_ExpiresAt = now + qr_lifetime,
      qr_ApprovedBy = [], qr_Response = None\<rparr>"

definition sweep_expired :: "time \<Rightarrow> qr_map \<Rightarrow> qr_map" where
  "sweep_expired now m = filter (\<lambda>e. \<not> qr_ExpiresAt (snd e) < now) m"

text \<open>The random source is the one of the store; a challenge takes two draws.\<close>

definition handleQRSession ::
    "ext \<Rightarrow> Config \<Rightarrow> time \<Rightarrow> Request \<Rightarrow> LoginRequest option \<Rightarrow> qr_map \<times> Store \<Rightarrow> Response \<times> qr_map \<times> Store" where
  "handleQRSession x cfg now r body ms =
     (let (m, s) = ms in
      if rq_Method r \<noteq> ''POST'' then (method_not_allowed, m, s)
      else (case qr_checks body of
        Inl resp \<Rightarrow> (resp, m, s)
      | Inr req \<Rightarrow>
          let q = new_qr_session x cfg now r req (st_rng s) in
          (qr_status_reply
             [(''id'', VStr (qr_ID q)), (''poll_token'', VStr (qr_PollToken q)),
              (''qr_data'', VStr (''fastcat://login/qr?challenge='' @ qr_ID q)),
              (''expires_at'', VStr (rfc3339 (qr_ExpiresAt q)))],
           gm_set (qr_ID q) q (sweep_expired now m), s\<lparr>st_rng := st_rng s + 2\<rparr>)))"

section \<open>Cancelling and polling\<close>

definition poll_token_of :: "Request \<Rightarrow> string" where
  "poll_token_of r = trim_space (query_get r ''poll_token'')"

text \<open>\<open>hmac.Equal\<close> is equality of the bytes.\<close>

definition qr_secret_ok :: "QRLoginSession \<Rightarrow> string \<Rightarrow> bool" where
  "qr_secret_ok q token = (token \<noteq> [] \<and> qr_PollToken q = token)"

definition handleQRCancel :: "Request \<Rightarrow> string \<Rightarrow> qr_map \<Rightarrow> Response \<times> qr_map" where
  "handleQRCancel r cid m =
     (case gm_get m cid of
        None \<Rightarrow> (qr_status_reply [(''status'', VStr ''cancelled'')], m)
      | Some q \<Rightarrow>
          if \<not> qr_secret_ok q (poll_token_of r) then (qr_not_found, m)
          else if qr_Status q \<noteq> qr_pending
          then (writeError 409 ''QR_SESSION_USED'' msg_qr_used None, m)
          else (qr_status_reply [(''status'', VStr ''cancelled'')], gm_del cid m))"

definition handleQRPoll :: "time \<Rightarrow> Request \<Rightarrow> string \<Rightarrow> qr_map \<Rightarrow> Response \<times> qr_map" where
  "handleQRPoll now r cid m =
     (case gm_get m cid of
        None \<Rightarrow> (qr_not_found, m)
      | Some q \<Rightarrow>
          if \<not> qr_secret_ok q (poll_token_of r) then (qr_not_found, m)
          else if qr_ExpiresAt q < now
          then (qr_status_reply [(''status'', VStr ''expired'')], gm_del cid m)
          else
            let data = [(''status'', VStr (qr_Status q)), (''expires_at'', VStr (rfc3339 (qr_ExpiresAt q)))] in
            (case qr_Response q of
               Some login \<Rightarrow>
                 if qr_Status q = qr_approved
                 then (qr_status_reply (data @ [(''login'', VMap login)]),
                       gm_mod cid (\<lambda>q. q\<lparr>qr_Status := qr_consumed\<rparr>) m)
                 else (qr_status_reply data, m)
             | None \<Rightarrow> (qr_status_reply data, m)))"

section \<open>Approving\<close>

text \<open>The first section: the challenge is marked before anything else happens.\<close>

definition qr_claim :: "time \<Rightarrow> string \<Rightarrow> qr_map \<Rightarrow> (Response + QRLoginSession) \<times> qr_map" where
  "qr_claim now cid m =
     (case gm_get m cid of
        None \<Rightarrow> (Inl (writeError 410 ''QR_SESSION_EXPIRED'' msg_qr_expired None), m)
      | Some q \<Rightarrow>
          if qr_ExpiresAt q < now
          then (Inl (writeError 410 ''QR_SESSION_EXPIRED'' msg_qr_expired None), m)
          else if qr_Status q \<noteq> qr_pending
          then (Inl (writeError 409 ''QR_SESSION_USED'' msg_qr_used None), m)
          else (Inr q, gm_mod cid (\<lambda>q. q\<lparr>qr_Status := qr_authorizing\<rparr>) m))"

definition finishQRSession :: "string \<Rightarrow> string \<Rightarrow> anymap option \<Rightarrow> qr_map \<Rightarrow> qr_map" where
  "finishQRSession cid status response m =
     gm_mod cid (\<lambda>q. q\<lparr>qr_Status := status, qr_Response := response\<rparr>) m"

definition qr_request :: "Request \<Rightarrow> QRLoginSession \<Rightarrow> Request" where
  "qr_request r q =
     r\<lparr>rq_RemoteAddr := qr_TargetIP q, rq_Header := header_set ''User-Agent'' (qr_TargetUA q) (rq_Header r)\<rparr>"

definition qr_login :: "Config \<Rightarrow> time \<Rightarrow> string \<Rightarrow> string \<Rightarrow> DeviceRecord \<Rightarrow> int \<Rightarrow> anymap" where
  "qr_login cfg now email token device limit =
     [(''token'', VStr (''Bearer '' @ token)), (''auth_data'', VStr (''Bearer '' @ token)),
      (''email'', VStr email), (''device'', VMap (publicDevice now device (d_ID device))),
      (''device_limit'', nullableLimit limit), (''device_policy'', VStr (cfg_DevicePolicy cfg))] @
     (if cfg_GatewayURLs cfg \<noteq> [] then [(''gateway_urls'', VList (map VStr (cfg_GatewayURLs cfg)))] else [])"

text \<open>What is stored with the challenge and what the approving user is told.\<close>

definition qr_outcome ::
    "Config \<Rightarrow> time \<Rightarrow> QRLoginSession \<Rightarrow> string \<Rightarrow> admit_result \<Rightarrow> (string \<times> anymap option) \<times> Response" where
  "qr_outcome cfg now q email res =
     (case res of
        Admitted tok d limit n \<Rightarrow>
          ((qr_approved, Some (qr_login cfg now email tok d limit)),
           writeJSON 200 (success
             [(''data'', VMap [(''device_name'', VStr (lr_DeviceName (qr_Device q))),
                               (''platform'', VStr (lr_Platform (qr_Device q)))])]))
      | LimitExceeded limit n \<Rightarrow>
          ((qr_failed, None),
           writeError 409 ''DEVICE_LIMIT_EXCEEDED'' msg_qr_limit
             (Some [(''device_limit'', VInt limit), (''active_count'', VInt n)]))
      | AdmitFailed limit n \<Rightarrow>
          ((qr_failed, None), writeError 500 ''DEVICE_ADMISSION_FAILED'' msg_qr_admission None))"

text \<open>
  \<open>handleQRApprove\<close>. \<open>others i\<close> is what other requests do to the challenges and to the world
  after the session check (0), during the call to the backend (1) and before the result is
  recorded (2). \<open>io\<close> and \<open>io'\<close> are the outcomes of the two saves.
\<close>

definition handleQRApprove ::
    "ext \<Rightarrow> Config \<Rightarrow> string \<Rightarrow> save_outcome \<Rightarrow> save_outcome \<Rightarrow> Call \<Rightarrow> time \<Rightarrow> time \<Rightarrow> time \<Rightarrow> time \<Rightarrow> time
     \<Rightarrow> Request \<Rightarrow> Snapshot option \<Rightarrow> (Store \<Rightarrow> Store) \<Rightarrow> (nat \<Rightarrow> qr_map \<times> World \<Rightarrow> qr_map \<times> World)
     \<Rightarrow> string \<Rightarrow> qr_map \<times> World \<Rightarrow> Response \<times> qr_map \<times> World" where
  "handleQRApprove x cfg key io io' c now now' t_claim t_admit t_reply r loaded reloads others cid mw =
     (let (m, w) = mw;
          (auth, s1) = requireSession x cfg key io now now' r loaded reloads (w_Store w) in
      (case auth of
         Inl resp \<Rightarrow> (resp, m, w\<lparr>w_Store := s1\<rparr>)
       | Inr ctx \<Rightarrow>
           let (m1, w1) = others 0 (m, w\<lparr>w_Store := s1\<rparr>);
               (claimed, m2) = qr_claim t_claim cid m1 in
           (case claimed of
              Inl resp \<Rightarrow> (resp, m2, w1)
            | Inr q \<Rightarrow>
                let (fetched, p) = fetchSubscriptionSnapshot x cfg c (ctx_BusinessToken ctx) (w_Pool w1);
                    (m3, w3) = others 1 (m2, w1\<lparr>w_Pool := p\<rparr>) in
                (case fetched of
                   None \<Rightarrow>
                     (writeError 502 ''QR_SUBSCRIPTION_UNAVAILABLE'' msg_qr_subscription None,
                      finishQRSession cid qr_failed None m3, w3)
                 | Some sn0 \<Rightarrow>
                     let sn = (if sn_Email sn0 = [] then sn0\<lparr>sn_Email := u_Email (ctx_User ctx)\<rparr> else sn0);
                         (res, s3) = admitDevice x cfg key io' t_admit (qr_request r q) (qr_Device q) sn
                                       (ctx_BusinessToken ctx) (w_Store w3);
                         ((status, response), resp) = qr_outcome cfg t_reply q (sn_Email sn) res;
                         (m4, w4) = others 2 (m3, w3\<lparr>w_Store := s3\<rparr>)
                     in (resp, finishQRSession cid status response m4, w4)))))"

datatype qr_target = QPoll string | QApprove string | QCancel string | QReply Response

definition qr_route :: "Config \<Rightarrow> Request \<Rightarrow> qr_target" where
  "qr_route cfg r =
     (let cid = trim_prefix (rq_Path r) (cfg_APIPrefix cfg @ ''/auth/qr/sessions/'') in
      if cid = [] \<or> contains_str cid ''/'' then QReply qr_not_found
      else if rq_Method r = ''GET'' then QPoll cid
      else if rq_Method r = ''POST'' then QApprove cid
      else if rq_Method r = ''DELETE'' then QCancel cid
      else QReply method_not_allowed)"

text \<open>\<open>approve\<close> is the outcome of \<open>handleQRApprove\<close> on the challenge.\<close>

definition handleQRSessionByID ::
    "Config \<Rightarrow> time \<Rightarrow> Request \<Rightarrow> (string \<Rightarrow> qr_map \<times> World \<Rightarrow> Response \<times> qr_map \<times> World)
     \<Rightarrow> qr_map \<times> World \<Rightarrow> Response \<times> qr_map \<times> World" where
  "handleQRSessionByID cfg now r approve mw =
     (case qr_route cfg r of
        QPoll cid \<Rightarrow> let (resp, m) = handleQRPoll now r cid (fst mw) in (resp, m, snd mw)
      | QApprove cid \<Rightarrow> approve cid mw
      | QCancel cid \<Rightarrow> let (resp, m) = handleQRCancel r cid (fst mw) in (resp, m, snd mw)
      | QReply resp \<Rightarrow> (resp, fst mw, snd mw))"

end
