(* ===== verification/HandlerProps.thy ===== *)
theory HandlerProps
  imports Handlers
begin

text \<open>
  The properties of the handlers: what the proxy shows to the backend, who may use it, what a
  login leads to, and what a rewritten subscription contains.
\<close>

section \<open>What the backend sees\<close>

lemma canonical_Authorization [simp]: "canonicalHeaderKey ''Authorization'' = ''Authorization''"
  by code_simp

lemma header_values_set [simp]:
  "header_values (header_set name v h) name' =
     (if canonicalHeaderKey name' = canonicalHeaderKey name then [v] else header_values h name')"
  by (simp add: header_values_def header_set_def)

lemma header_values_del [simp]:
  "header_values (header_del name h) name' =
     (if canonicalHeaderKey name' = canonicalHeaderKey name then [] else header_values h name')"
  by (simp add: header_values_def header_del_def)

lemma new_request_fields:
  "new_request x m target h b = Some req \<Longrightarrow>
   bq_Header req = h \<and> bq_Body req = b \<and> bq_Method req = (if m = [] then ''GET'' else m)"
  by (auto simp: new_request_def split: if_splits option.splits)

lemma try_call_sent:
  "list_all (\<lambda>(u, req, rep). mk u = Some req) (tr_Sent (try_call cfg c mk p))"
  using try_from_sent [of cfg mk "ca_send c" "ca_clock c" "ca_others c" 0 "businessURLs cfg (ca_now c) p" None p]
  by (simp add: try_call_def tryBusinessURLs_def)

text \<open>
  Property C35. The gateway token never reaches the backend: every request the proxy sends has
  the method and the body of the client, and as its only \<open>Authorization\<close> the business token
  of the session, or none on a public endpoint, whatever header the client sent.
\<close>

theorem proxy_hides_gateway_token:
  "list_all (\<lambda>(u, req, rep).
     header_values (bq_Header req) ''Authorization'' =
       (case sessionCtx of Some ctx \<Rightarrow> [ctx_BusinessToken ctx] | None \<Rightarrow> []) \<and>
     bq_Body req = body \<and> bq_Method req = (if rq_Method r = [] then ''GET'' else rq_Method r))
   (tr_Sent (proxy_call x cfg c r sessionCtx body p))"
proof -
  have "header_values (bq_Header req) ''Authorization'' =
       (case sessionCtx of Some ctx \<Rightarrow> [ctx_BusinessToken ctx] | None \<Rightarrow> []) \<and>
     bq_Body req = body \<and> bq_Method req = (if rq_Method r = [] then ''GET'' else rq_Method r)"
    if "proxy_request x cfg r sessionCtx body u = Some req" for u req
    using that
    by (auto simp: proxy_request_def Let_def dest!: new_request_fields split: option.splits)
  then show ?thesis
    using try_call_sent [of "proxy_request x cfg r sessionCtx body" cfg c p]
    unfolding proxy_call_def list_all_iff by blast
qed

section \<open>Who may use the proxy\<close>

lemma requireSession_ctx:
  "requireSession x cfg key io now now' r loaded others s = (Inr ctx, s') \<Longrightarrow>
   authorizeWithReload x cfg key io now now' r loaded others s = (Inr ctx, s')"
  by (auto simp: requireSession_def split: prod.splits sum.splits auth_error.splits)

lemma requireSession_401:
  "requireSession x cfg key io now now' r loaded others s = (Inl resp, s') \<Longrightarrow> rs_Status resp = 401"
  by (auto simp: requireSession_def split: prod.splits sum.splits auth_error.splits)

text \<open>
  Beyond the public endpoints and the login, the proxy contacts the backend only
  for a session in order: unless the reply is 401 with the pool untouched, the store held an
  active, unexpired session under the hash of the presented token, on an active device of
  its user.
\<close>

theorem proxy_needs_session:
  assumes "account_inv (w_Store w)"
    and "handleProxy x cfg key io io' c now now' now'' r body None others between login w = (resp, w')"
    and "has_prefix (rq_Path r) (cfg_APIPrefix cfg @ ''/'')"
    and "rq_Path r \<noteq> cfg_APIPrefix cfg @ ''/passport/auth/login''"
    and "\<not> isPublicEndpoint (cfg_APIPrefix cfg) (rq_Path r)"
    and "\<forall>t. account_inv t \<longrightarrow> account_inv (others t)"
  shows "(rs_Status resp = 401 \<and> w_Pool w' = w_Pool w) \<or>
    (\<exists>k ses d. gm_get (st_Sessions (w_Store w)) k = Some ses \<and>
       s_TokenHash ses =
         hashValue x cfg ''session'' (bearerToken x (header_get (rq_Header r) ''Authorization'')) \<and>
       s_Status ses = statusActive \<and> now \<le> s_ExpiresAt ses \<and>
       gm_get (st_Devices (w_Store w)) (s_DeviceID ses) = Some d \<and> d_Status d = statusActive \<and>
       d_UserID d = s_UserID ses)"
proof -
  obtain auth s1 where q: "requireSession x cfg key io now now' r None others (w_Store w) = (auth, s1)"
    by (cases "requireSession x cfg key io now now' r None others (w_Store w)")
  show ?thesis
  proof (cases auth)
    case (Inl resp0)
    then show ?thesis using assms(2-5) q requireSession_401 by (auto simp: handleProxy_def)
  next
    case (Inr ctx)
    have "authorizeWithReload x cfg key io now now' r None others (w_Store w) = (Inr ctx, s1)"
      using q Inr requireSession_ctx by blast
    from authorized_grants [OF assms(1) this assms(6)] show ?thesis
      unfolding grants_def by blast
  qed
qed

theorem proxy_needs_session_witness:
  "\<exists>resp w'. handleProxy demo_ext demo_cfg demo_key SaveOk SaveOk
     \<lparr>ca_now = 5, ca_send = \<lambda>i req. NetError, ca_clock = \<lambda>i. (6, 6), ca_others = \<lambda>i p. p\<rparr>
     9 9 9 ((demo_request [])\<lparr>rq_Path := ''/v1/user/info''\<rparr>) (Some []) None (\<lambda>s. s) (\<lambda>s. s) (\<lambda>w. (method_not_allowed, w))
     \<lparr>w_Store = demo_store, w_Pool = no_pool\<rparr> = (resp, w') \<and> rs_Status resp = 401 \<and> w_Pool w' = no_pool"
proof -
  define c where "c = \<lparr>ca_now = 5, ca_send = \<lambda>i req. NetError, ca_clock = \<lambda>i. (6, 6), ca_others = \<lambda>i p. p\<rparr>"
  define r where "r = (demo_request [])\<lparr>rq_Path := ''/v1/user/info''\<rparr>"
  define w where "w = \<lparr>w_Store = demo_store, w_Pool = no_pool\<rparr>"
  obtain resp w' where run: "handleProxy demo_ext demo_cfg demo_key SaveOk SaveOk c 9 9 9 r (Some []) None
      (\<lambda>s. s) (\<lambda>s. s) (\<lambda>w. (method_not_allowed, w)) w = (resp, w')" by fastforce
  have p: "has_prefix (rq_Path r) (cfg_APIPrefix demo_cfg @ ''/'')"
    "rq_Path r \<noteq> cfg_APIPrefix demo_cfg @ ''/passport/auth/login''"
    "\<not> isPublicEndpoint (cfg_APIPrefix demo_cfg) (rq_Path r)"
    unfolding r_def by code_simp+
  have i: "account_inv (w_Store w)" by (simp add: w_def demo_store_inv)
  have b: "bearerToken demo_ext (header_get (rq_Header r) ''Authorization'') = []"
    unfolding r_def by code_simp
  have "s_TokenHash ses \<noteq> hashValue demo_ext demo_cfg ''session'' []"
    if "gm_get (st_Sessions (w_Store w)) k = Some ses" for k ses
  proof -
    have "ses = demo_session" using that by (auto simp: w_def demo_store_def split: if_splits)
    moreover have "s_TokenHash demo_session \<noteq> hashValue demo_ext demo_cfg ''session'' []" by code_simp
    ultimately show ?thesis by simp
  qed
  with proxy_needs_session [OF i run p] b have "rs_Status resp = 401 \<and> w_Pool w' = w_Pool w" by auto
  with run show ?thesis by (auto simp: c_def r_def w_def)
qed

section \<open>Logins\<close>

lemma login_answer_ok:
  assumes "login_answer x answer = Inr (token, payload)"
  obtains code h b where "answer = Inr (code, h, Some b)" "200 \<le> code" "code < 300"
    "json_map x b = Some payload" "any_index payload ''success'' \<noteq> VBool False"
    "extractBusinessToken payload = token" "token \<noteq> []"
  using assms
  by (auto simp: login_answer_def Let_def split: sum.splits prod.splits option.splits if_splits)

lemma try_call_answer:
  assumes "tr_Answer (try_call cfg c mk p) = Inr (code, h, b)"
  obtains u req where "tr_Sent (try_call cfg c mk p) \<noteq> []"
    "last (tr_Sent (try_call cfg c mk p)) = (u, req, NetReply code h b)"
proof -
  let ?r = "try_call cfg c mk p"
  have "answer_ok (businessURLs cfg (ca_now c) p) ?r"
    unfolding try_call_def tryBusinessURLs_def by (rule try_from_answer)
  with assms that show thesis by (cases "last (tr_Sent ?r)") (auto simp: answer_ok_def Let_def)
qed

text \<open>
  A login on the store of \<open>Samples\<close>: the backend answers the first request with a token and is
  out of reach afterwards.
\<close>

definition demo_json :: ext where
  "demo_json = demo_ext12\<lparr>x_json_parse := \<lambda>b.
     if b = ''L'' then Some (VMap [(''data'', VMap [(''token'', VStr ''b'')])]) else None\<rparr>"

definition demo_call :: "net_reply \<Rightarrow> Call" where
  "demo_call rep = \<lparr>ca_now = 5, ca_send = \<lambda>i req. rep, ca_clock = \<lambda>i. (5, 5), ca_others = \<lambda>i p. p\<rparr>"

definition demo_world :: World where
  "demo_world = \<lparr>w_Store = demo_store, w_Pool = no_pool\<rparr>"

definition demo_handle_login :: "Response \<times> World" where
  "demo_handle_login =
     handleLogin demo_json demo_kick demo_key SaveOk (demo_call (NetReply 200 [] (Some ''L'')))
       (demo_call NetError) 5 5 (demo_request []) (Some (demo_login ''B'')) demo_world"

lemma demo_login_eval:
  "case demo_handle_login of (resp, w') \<Rightarrow>
     rs_Status resp = 200 \<and> (case rs_Body resp of JsonBody (VMap m) \<Rightarrow> True | _ \<Rightarrow> False) \<and>
     fresh_draws demo_json demo_kick demo_store (w_Store w') \<and>
     length (st_Devices (w_Store w')) \<noteq> length (st_Devices demo_store)"
  by code_simp

lemma demo_login_run:
  obtains resp w' m where
    "handleLogin demo_json demo_kick demo_key SaveOk (demo_call (NetReply 200 [] (Some ''L'')))
       (demo_call NetError) 5 5 (demo_request []) (Some (demo_login ''B'')) demo_world = (resp, w')"
    "rs_Status resp = 200" "rs_Body resp = JsonBody (VMap m)"
    "fresh_draws demo_json demo_kick (w_Store demo_world) (w_Store w')"
    "w_Store w' \<noteq> w_Store demo_world"
proof -
  obtain resp w' where run: "demo_handle_login = (resp, w')" by fastforce
  have e: "rs_Status resp = 200" "fresh_draws demo_json demo_kick demo_store (w_Store w')"
    "length (st_Devices (w_Store w')) \<noteq> length (st_Devices demo_store)"
    using demo_login_eval by (simp_all add: run)
  obtain m where m: "rs_Body resp = JsonBody (VMap m)"
    using demo_login_eval by (auto simp: run split: body.splits any.splits)
  have "w_Store w' \<noteq> w_Store demo_world" using e(3) by (auto simp: demo_world_def)
  then show thesis using that [of resp w' m] run e m by (simp add: demo_handle_login_def demo_world_def)
qed

text \<open>
  A login changes the store only after the backend accepted the credentials: the last
  reply to the login request, which carries the trimmed e-mail and the password, had a 2xx
  status, did not say \<open>success: false\<close>, and held a token. Everything else leaves the store as
  it is.
\<close>

theorem login_needs_backend:
  assumes "handleLogin x cfg key io c1 c2 now now' r body w = (resp, w')"
  shows "w_Store w' = w_Store w \<or>
    (\<exists>req u breq code h b payload.
       body = Some req \<and>
       (let sent = tr_Sent (try_call cfg c1
              (login_request x cfg (trim_space (lr_Email req)) (lr_Password req)) (w_Pool w))
        in sent \<noteq> [] \<and> last sent = (u, breq, NetReply code h (Some b))) \<and>
       200 \<le> code \<and> code < 300 \<and> json_map x b = Some payload \<and>
       any_index payload ''success'' \<noteq> VBool False \<and> extractBusinessToken payload \<noteq> [])"
proof (cases "rq_Method r = ''POST''")
  case False
  then show ?thesis using assms by (simp add: handleLogin_def)
next
  case post: True
  show ?thesis
  proof (cases "login_checks body")
    case (Inl e)
    then show ?thesis using assms post by (simp add: handleLogin_def)
  next
    case (Inr req)
    then obtain raw where raw: "body = Some raw" "lr_Email req = trim_space (lr_Email raw)"
        "lr_Password req = lr_Password raw"
      by (auto simp: login_checks_def Let_def default_login_def trimmed_login_def
          split: option.splits if_splits)
    define t where "t = try_call cfg c1 (login_request x cfg (lr_Email req) (lr_Password req)) (w_Pool w)"
    have bl: "businessLogin x cfg c1 (lr_Email req) (lr_Password req) (w_Pool w) =
        (login_answer x (tr_Answer t), tr_Pool t)" by (simp add: businessLogin_def t_def Let_def)
    show ?thesis
    proof (cases "login_answer x (tr_Answer t)")
      case (Inl e)
      then show ?thesis using assms post Inr bl by (auto simp: handleLogin_def split: login_error.splits)
    next
      case acc: (Inr tp)
      obtain token payload where tp: "tp = (token, payload)" by (cases tp)
      from acc [unfolded tp] obtain code h b where a: "tr_Answer t = Inr (code, h, Some b)"
        "200 \<le> code" "code < 300" "json_map x b = Some payload"
        "any_index payload ''success'' \<noteq> VBool False" "extractBusinessToken payload \<noteq> []"
        by (rule login_answer_ok) blast
      from a(1) obtain u breq where "tr_Sent t \<noteq> []" "last (tr_Sent t) = (u, breq, NetReply code h (Some b))"
        unfolding t_def by (rule try_call_answer)
      with a raw show ?thesis unfolding t_def Let_def by metis
    qed
  qed
qed

theorem login_needs_backend_witness:
  "\<exists>resp w'. handleLogin demo_json demo_kick demo_key SaveOk (demo_call (NetReply 200 [] (Some ''L'')))
       (demo_call NetError) 5 5 (demo_request []) (Some (demo_login ''B'')) demo_world = (resp, w') \<and>
     (\<exists>code h b payload u q. last (tr_Sent (try_call demo_kick (demo_call (NetReply 200 [] (Some ''L'')))
          (login_request demo_json demo_kick ''e'' ''p'') no_pool)) = (u, q, NetReply code h (Some b)) \<and>
        200 \<le> code \<and> code < 300 \<and> json_map demo_json b = Some payload \<and>
        extractBusinessToken payload \<noteq> [])"
proof -
  obtain resp w' m where r: "handleLogin demo_json demo_kick demo_key SaveOk
       (demo_call (NetReply 200 [] (Some ''L''))) (demo_call NetError) 5 5 (demo_request [])
       (Some (demo_login ''B'')) demo_world = (resp, w')" "w_Store w' \<noteq> w_Store demo_world"
    by (rule demo_login_run)
  have e: "trim_space (lr_Email (demo_login ''B'')) = ''e''" "lr_Password (demo_login ''B'') = ''p''"
    "w_Pool demo_world = no_pool" by code_simp+
  show ?thesis using login_needs_backend [OF r(1)] r by (simp add: Let_def e) blast
qed

text \<open>
  Property C7. From the login to the next request: after a login was answered with 200 by the
  gateway, the \<open>token\<close> of the reply sent back as \<open>Authorization\<close> within the session lifetime is
  accepted, for the device the reply names.
\<close>

theorem login_then_authorize:
  assumes "account_inv (w_Store w)"
    and "handleLogin x cfg key io c1 c2 now now' r body w = (resp, w')"
    and "rs_Status resp = 200" and "rs_Body resp = JsonBody (VMap m)"
    and "fresh_draws x cfg (w_Store w) (w_Store w')"
    and "\<forall>n p. length n = 12 \<longrightarrow> x_open x key n (x_seal x key n p) = Some p"
    and "\<forall>i. length (x_rand x i 12) = 12" and "\<forall>t. hashValue x cfg ''session'' t \<noteq> []"
  shows "\<exists>data dev g. any_index m ''data'' = VMap data \<and> any_index data ''token'' = VStr g \<and>
    any_index data ''device'' = VMap dev \<and>
    (\<forall>t1 t2 r2 loaded others. t1 \<le> now + cfg_SessionTTL cfg \<longrightarrow>
       header_get (rq_Header r2) ''Authorization'' = g \<longrightarrow>
       (\<exists>ctx s2. authorizeWithReload x cfg key SaveOk t1 t2 r2 loaded others (w_Store w') = (Inr ctx, s2) \<and>
          any_index dev ''id'' = VStr (d_ID (ctx_Device ctx))))"
proof -
  have post: "rq_Method r = ''POST''"
  proof (rule ccontr)
    assume "rq_Method r \<noteq> ''POST''"
    then have "resp = method_not_allowed" using assms(2) by (simp add: handleLogin_def)
    then show False using assms(3) by (simp add: method_not_allowed_def)
  qed
  obtain req where req: "login_checks body = Inr req"
    using assms(2,3) post
    by (cases "login_checks body") (auto simp: handleLogin_def login_checks_def Let_def split: option.splits if_splits)
  obtain token payload p1 where bl:
      "businessLogin x cfg c1 (lr_Email req) (lr_Password req) (w_Pool w) = (Inr (token, payload), p1)"
    using assms(2-4) post req
    by (auto simp: handleLogin_def writeRaw_def split: prod.splits sum.splits login_error.splits)
  obtain fetched p2 where f: "fetchSubscriptionSnapshot x cfg c2 token p1 = (fetched, p2)" by fastforce
  obtain res s1 where adm: "admitDevice x cfg key io now r req (login_snapshot cfg req fetched) token
      (w_Store w) = (res, s1)" by fastforce
  have out: "resp = login_reply cfg now' payload res" "w' = w\<lparr>w_Pool := p2, w_Store := s1\<rparr>"
    using assms(2) post req bl f adm by (simp_all add: handleLogin_def)
  obtain tok d limit n where res: "res = Admitted tok d limit n"
    using out(1) assms(3) by (cases res) (auto simp: login_reply_def)
  define data where "data = login_data cfg now' payload tok d limit"
  have m: "any_index m ''data'' = VMap data"
    using assms(4) out(1) res by (auto simp: login_reply_def success_def writeJSON_def any_index_def data_def)
  have dt: "any_index data ''token'' = VStr (''Bearer '' @ tok)"
      "any_index data ''device'' = VMap (publicDevice now' d (d_ID d))"
    by (simp_all add: data_def login_data_def Let_def)
  have fr: "fresh_draws x cfg (w_Store w) s1" using assms(5) out(2) by simp
  have "\<exists>ctx s2. authorizeWithReload x cfg key SaveOk t1 t2 r2 loaded others s1 = (Inr ctx, s2) \<and>
      d_ID (ctx_Device ctx) = d_ID d"
    if "t1 \<le> now + cfg_SessionTTL cfg" "header_get (rq_Header r2) ''Authorization'' = ''Bearer '' @ tok"
    for t1 t2 r2 loaded others
    using admitted_authorizes [OF assms(1) adm [unfolded res] fr assms(6,7) _ that] assms(8) by blast
  moreover have "any_index (publicDevice now' d (d_ID d)) ''id'' = VStr (d_ID d)"
    by (simp add: publicDevice_def any_index_def)
  ultimately show ?thesis using m dt out(2) by fastforce
qed

theorem login_then_authorize_witness:
  "\<exists>resp w' m data g. handleLogin demo_json demo_kick demo_key SaveOk
       (demo_call (NetReply 200 [] (Some ''L''))) (demo_call NetError) 5 5 (demo_request [])
       (Some (demo_login ''B'')) demo_world = (resp, w') \<and> rs_Body resp = JsonBody (VMap m) \<and>
     any_index m ''data'' = VMap data \<and> any_index data ''token'' = VStr g \<and>
     (\<forall>r2. header_get (rq_Header r2) ''Authorization'' = g \<longrightarrow>
        (\<exists>ctx s2. authorizeWithReload demo_json demo_kick demo_key SaveOk 9 9 r2 None (\<lambda>s. s) (w_Store w') =
           (Inr ctx, s2)))"
proof -
  obtain resp w' m where r: "handleLogin demo_json demo_kick demo_key SaveOk
       (demo_call (NetReply 200 [] (Some ''L''))) (demo_call NetError) 5 5 (demo_request [])
       (Some (demo_login ''B'')) demo_world = (resp, w')"
     "rs_Status resp = 200" "rs_Body resp = JsonBody (VMap m)"
     "fresh_draws demo_json demo_kick (w_Store demo_world) (w_Store w')" by (rule demo_login_run)
  have i: "account_inv (w_Store demo_world)" by (simp add: demo_world_def demo_store_inv)
  have x: "\<forall>n p. length n = 12 \<longrightarrow> x_open demo_json demo_key n (x_seal demo_json demo_key n p) = Some p"
    "\<forall>i. length (x_rand demo_json i 12) = 12" "\<forall>t. hashValue demo_json demo_kick ''session'' t \<noteq> []"
    by (simp_all add: demo_json_def demo_ext12_def demo_ext_def hashValue_def hex_encode_def)
  have t: "9 \<le> 5 + cfg_SessionTTL demo_kick" by (simp add: demo_kick_def demo_cfg_def)
  obtain data dev g where d: "any_index m ''data'' = VMap data" "any_index data ''token'' = VStr g"
    "\<forall>t1 t2 r2 loaded others. t1 \<le> 5 + cfg_SessionTTL demo_kick \<longrightarrow>
       header_get (rq_Header r2) ''Authorization'' = g \<longrightarrow>
       (\<exists>ctx s2. authorizeWithReload demo_json demo_kick demo_key SaveOk t1 t2 r2 loaded others (w_Store w') =
          (Inr ctx, s2) \<and> any_index dev ''id'' = VStr (d_ID (ctx_Device ctx)))"
    using login_then_authorize [OF i r x] by blast
  show ?thesis using d t r(1,3) by blast
qed

section \<open>Rewritten subscriptions\<close>

lemma rewritten_data_index:
  assumes "token \<noteq> []"
  shows "any_index (rewritten_data x cfg r token data) ''subscribe_url'' = VStr (gatewaySubscribeURL x cfg r token)"
    and "any_index (rewritten_data x cfg r token data) ''token'' = VStr token"
    and "k \<notin> {''subscribe_url'', ''token'', ''gateway_urls''} \<Longrightarrow>
      any_index (rewritten_data x cfg r token data) k = any_index data k"
  using assms by (auto simp: rewritten_data_def Let_def)

lemma store_subscription_session:
  assumes "gm_get (st_Users s) k = Some u" and "cipher \<noteq> []" and "gm_get (st_Sessions s) sid = Some ses"
  shows "gm_get (st_Sessions (store_subscription x io now sn k sid cipher s)) sid =
    Some (ses\<lparr>s_BusinessSubURLCipher := cipher\<rparr>)"
  using assms by (simp add: store_subscription_def Let_def markUserLocked_def markSessionLocked_def)


text \<open>
  A body that does not parse reaches the client with the backend's link in it. This happens to
  every compressed body, because the proxy passes the client's \<open>Accept-Encoding\<close> on.
\<close>

theorem unparsable_subscription_passes:
  "json_map x b = None \<Longrightarrow> rewriteSubscriptionResponse x cfg key io now r ctx b s = (b, s)"
  by (simp add: rewriteSubscriptionResponse_def parseSubscriptionSnapshot_def)

definition demo_sub :: ext where
  "demo_sub = demo_ext12
     \<lparr>x_json_parse := \<lambda>b. Some (VMap [(''data'', VMap [(''subscribe_url'', VStr ''q'')])]),
      x_json_text := \<lambda>v. Some ''T''\<rparr>"

definition demo_ctx :: SessionContext where
  "demo_ctx = \<lparr>ctx_User = demo_user, ctx_Device = demo_device, ctx_Session = demo_session,
     ctx_BusinessToken = ''b'', ctx_SubscribeToken = ''t''\<rparr>"


end
