(* ===== verification/QrProps.thy ===== *)
theory QrProps
  imports QrLogin HandlerProps
begin

text \<open>
  The properties of the login by QR code: a challenge is used once and its login is handed out
  once, only to the holder of the polling secret, and what is handed out works as a session.
\<close>

section \<open>The life of a challenge\<close>

text \<open>
  The stages in the order in which a challenge passes them; \<open>Failed\<close> and \<open>Consumed\<close> are final.
\<close>

datatype qr_stage = Pending | Authorizing | Approved | Consumed | Failed

primrec stage_rank :: "qr_stage \<Rightarrow> nat" where
  "stage_rank Pending = 0"
| "stage_rank Authorizing = 1"
| "stage_rank Approved = 2"
| "stage_rank Consumed = 3"
| "stage_rank Failed = 4"

lemma stage_rank_inject [simp]: "stage_rank a = stage_rank b \<longleftrightarrow> a = b"
  by (cases a; cases b) simp_all

instantiation qr_stage :: linorder
begin

definition less_eq_qr_stage :: "qr_stage \<Rightarrow> qr_stage \<Rightarrow> bool" where
  "less_eq_qr_stage a b = (stage_rank a \<le> stage_rank b)"

definition less_qr_stage :: "qr_stage \<Rightarrow> qr_stage \<Rightarrow> bool" where
  "less_qr_stage a b = (stage_rank a < stage_rank b)"

instance
  by standard (auto simp: less_eq_qr_stage_def less_qr_stage_def)

end

definition stage_of :: "QRLoginSession \<Rightarrow> qr_stage" where
  "stage_of q =
     (if qr_Status q = qr_pending then Pending
      else if qr_Status q = qr_authorizing then Authorizing
      else if qr_Status q = qr_approved then Approved
      else if qr_Status q = qr_consumed then Consumed
      else Failed)"

text \<open>
  A run of the challenge table with its history: the identifiers ever created, those an
  approval claimed, the approvals still under way, and the identifiers whose login was
  handed out.
\<close>

record QrRun =
  qn_map :: qr_map
  qn_created :: "string list"
  qn_claimed :: "string list"
  qn_busy :: "string list"
  qn_delivered :: "string list"

text \<open>Whether a reply hands out a login.\<close>

definition hands_out_login :: "Response \<Rightarrow> bool" where
  "hands_out_login resp =
     (case rs_Body resp of
        JsonBody (VMap m) \<Rightarrow> (case any_index m ''data'' of VMap d \<Rightarrow> any_index d ''login'' \<noteq> VNil | _ \<Rightarrow> False)
      | _ \<Rightarrow> False)"

text \<open>
  The steps: the sections of the handlers under the lock, in any order. A challenge gets an
  identifier that was never used (16 random bytes); an approval that claimed a challenge
  finishes it once.
\<close>

inductive qr_step :: "ext \<Rightarrow> Config \<Rightarrow> QrRun \<Rightarrow> QrRun \<Rightarrow> bool"
  for x :: ext and cfg :: Config where
  create: "handleQRSession x cfg now r body (qn_map \<rho>, s) = (resp, m', s') \<Longrightarrow> rs_Status resp = 200 \<Longrightarrow>
     qr_session_id x (st_rng s) \<notin> set (qn_created \<rho>) \<Longrightarrow>
     qr_step x cfg \<rho> (\<rho>\<lparr>qn_map := m', qn_created := qr_session_id x (st_rng s) # qn_created \<rho>\<rparr>)"
| cancel: "handleQRCancel r cid (qn_map \<rho>) = (resp, m') \<Longrightarrow> qr_step x cfg \<rho> (\<rho>\<lparr>qn_map := m'\<rparr>)"
| poll: "handleQRPoll now r cid (qn_map \<rho>) = (resp, m') \<Longrightarrow>
     qr_step x cfg \<rho>
       (\<rho>\<lparr>qn_map := m', qn_delivered := (if hands_out_login resp then cid # qn_delivered \<rho> else qn_delivered \<rho>)\<rparr>)"
| claim: "qr_claim now cid (qn_map \<rho>) = (Inr q, m') \<Longrightarrow>
     qr_step x cfg \<rho> (\<rho>\<lparr>qn_map := m', qn_claimed := cid # qn_claimed \<rho>, qn_busy := cid # qn_busy \<rho>\<rparr>)"
| finish: "cid \<in> set (qn_busy \<rho>) \<Longrightarrow> status \<in> {qr_failed, qr_approved} \<Longrightarrow>
     qr_step x cfg \<rho>
       (\<rho>\<lparr>qn_map := finishQRSession cid status response (qn_map \<rho>), qn_busy := removeAll cid (qn_busy \<rho>)\<rparr>)"

inductive_cases qr_stepE: "qr_step x cfg \<rho> \<rho>'"

definition qr_start :: "QrRun \<Rightarrow> bool" where
  "qr_start \<rho> = (\<rho> = \<lparr>qn_map = [], qn_created = [], qn_claimed = [], qn_busy = [], qn_delivered = []\<rparr>)"

text \<open>What a stored challenge says about its history.\<close>

definition qr_item_ok :: "QrRun \<Rightarrow> string \<Rightarrow> QRLoginSession \<Rightarrow> bool" where
  "qr_item_ok \<rho> cid q =
     (cid \<in> set (qn_created \<rho>) \<and>
      (cid \<notin> set (qn_claimed \<rho>) \<longrightarrow> qr_Status q = qr_pending) \<and>
      (cid \<in> set (qn_busy \<rho>) \<longrightarrow> qr_Status q = qr_authorizing) \<and>
      (cid \<in> set (qn_claimed \<rho>) \<longrightarrow> cid \<notin> set (qn_busy \<rho>) \<longrightarrow>
         qr_Status q \<in> {qr_approved, qr_failed, qr_consumed}) \<and>
      (cid \<in> set (qn_delivered \<rho>) \<longrightarrow> qr_Status q = qr_consumed))"

definition qr_inv :: "QrRun \<Rightarrow> bool" where
  "qr_inv \<rho> =
     (gm_wf (qn_map \<rho>) \<and> distinct (qn_claimed \<rho>) \<and> distinct (qn_delivered \<rho>) \<and>
      set (qn_delivered \<rho>) \<subseteq> set (qn_claimed \<rho>) \<and> set (qn_busy \<rho>) \<subseteq> set (qn_claimed \<rho>) \<and>
      set (qn_claimed \<rho>) \<subseteq> set (qn_created \<rho>) \<and> set (qn_busy \<rho>) \<inter> set (qn_delivered \<rho>) = {} \<and>
      (\<forall>cid q. gm_get (qn_map \<rho>) cid = Some q \<longrightarrow> qr_item_ok \<rho> cid q))"

lemma qr_invD:
  assumes "qr_inv \<rho>" and "gm_get (qn_map \<rho>) cid = Some q"
  shows "qr_item_ok \<rho> cid q"
  using assms by (simp add: qr_inv_def)

lemma hands_out_status_reply [simp]:
  "hands_out_login (qr_status_reply d) \<longleftrightarrow> any_index d ''login'' \<noteq> VNil"
  by (simp add: hands_out_login_def qr_status_reply_def writeJSON_def success_def any_index_def)

lemma hands_out_error [simp]: "\<not> hands_out_login (writeError c code msg None)"
  by (simp add: hands_out_login_def writeError_def writeJSON_def any_index_def Let_def)

text \<open>Every outcome of a poll.\<close>

lemma poll_cases:
  assumes "handleQRPoll now r cid m = (resp, m')"
  obtains (refused) "m' = m" "\<not> hands_out_login resp"
  | (expired) q where "gm_get m cid = Some q" "qr_ExpiresAt q < now" "m' = gm_del cid m"
      "qr_secret_ok q (poll_token_of r)" "\<not> hands_out_login resp"
  | (waiting) q where "gm_get m cid = Some q" "m' = m" "\<not> hands_out_login resp"
      "qr_Status q \<noteq> qr_approved \<or> qr_Response q = None"
  | (delivered) q login where "gm_get m cid = Some q" "\<not> qr_ExpiresAt q < now" "qr_Status q = qr_approved"
      "qr_Response q = Some login" "qr_secret_ok q (poll_token_of r)"
      "m' = gm_mod cid (\<lambda>q. q\<lparr>qr_Status := qr_consumed\<rparr>) m"
      "resp = qr_status_reply [(''status'', VStr qr_approved), (''expires_at'', VStr (rfc3339 (qr_ExpiresAt q))),
         (''login'', VMap login)]" "hands_out_login resp"
proof (cases "gm_get m cid")
  case None
  then show thesis using assms by (intro refused) (auto simp: handleQRPoll_def qr_not_found_def)
next
  case (Some q)
  show thesis
  proof (cases "qr_secret_ok q (poll_token_of r)")
    case False
    then show thesis using assms Some by (intro refused) (auto simp: handleQRPoll_def qr_not_found_def)
  next
    case sec: True
    show thesis
    proof (cases "qr_ExpiresAt q < now")
      case True
      then show thesis using assms Some sec by (intro expired) (auto simp: handleQRPoll_def any_index_def)
    next
      case False
      then have run: "(resp, m') =
          (let data = [(''status'', VStr (qr_Status q)), (''expires_at'', VStr (rfc3339 (qr_ExpiresAt q)))] in
            (case qr_Response q of
               Some login \<Rightarrow>
                 if qr_Status q = qr_approved
                 then (qr_status_reply (data @ [(''login'', VMap login)]),
                       gm_mod cid (\<lambda>q. q\<lparr>qr_Status := qr_consumed\<rparr>) m)
                 else (qr_status_reply data, m)
             | None \<Rightarrow> (qr_status_reply data, m)))"
        using assms Some sec by (simp add: handleQRPoll_def)
      show thesis
      proof (cases "qr_Response q")
        case None
        then show thesis using run Some by (intro waiting) (auto simp: any_index_def)
      next
        case r: (Some login)
        show thesis
        proof (cases "qr_Status q = qr_approved")
          case True
          then show thesis using run Some r False sec by (intro delivered) (simp_all add: any_index_def)
        next
          case False
          then show thesis using run Some r by (intro waiting) (auto simp: any_index_def)
        qed
      qed
    qed
  qed
qed

lemma claim_done:
  assumes "qr_claim now cid m = (Inr q, m')"
  shows "gm_get m cid = Some q" "qr_Status q = qr_pending" "\<not> qr_ExpiresAt q < now"
    "m' = gm_mod cid (\<lambda>q. q\<lparr>qr_Status := qr_authorizing\<rparr>) m"
  using assms by (auto simp: qr_claim_def split: option.splits if_splits)

lemma claim_refused:
  "qr_claim now cid m = (Inl resp, m') \<Longrightarrow> m' = m \<and> rs_Status resp \<in> {409, 410}"
  by (auto simp: qr_claim_def writeError_def writeJSON_def Let_def split: option.splits if_splits)

lemma cancel_cases:
  assumes "handleQRCancel r cid m = (resp, m')"
  shows "m' = m \<or> m' = gm_del cid m"
  using assms by (auto simp: handleQRCancel_def split: option.splits if_splits)

lemma session_done:
  assumes "handleQRSession x cfg now r body (m, s) = (resp, m', s')" and "rs_Status resp = 200"
  obtains req where "qr_checks body = Inr req"
    "m' = gm_set (qr_session_id x (st_rng s)) (new_qr_session x cfg now r req (st_rng s)) (sweep_expired now m)"
    "s' = s\<lparr>st_rng := st_rng s + 2\<rparr>"
    "resp = qr_status_reply [(''id'', VStr (qr_session_id x (st_rng s))),
       (''poll_token'', VStr (''qpt_'' @ randomHex x (st_rng s + 1) 24)),
       (''qr_data'', VStr (''fastcat://login/qr?challenge='' @ qr_session_id x (st_rng s))),
       (''expires_at'', VStr (rfc3339 (now + qr_lifetime)))]"
proof (cases "rq_Method r = ''POST''")
  case False
  then show thesis using assms by (auto simp: handleQRSession_def method_not_allowed_def writeError_def writeJSON_def Let_def)
next
  case post: True
  show thesis
  proof (cases "qr_checks body")
    case (Inl e)
    then have "rs_Status e = 400"
      by (auto simp: qr_checks_def Let_def writeError_def writeJSON_def split: option.splits if_splits)
    then show thesis using assms post Inl by (simp add: handleQRSession_def)
  next
    case (Inr req)
    then show thesis using assms(1) post
      by (intro that [of req]) (simp_all add: handleQRSession_def Let_def new_qr_session_def)
  qed
qed

lemma filter_get: "map_of (filter P m) k = Some v \<Longrightarrow> distinct (map fst m) \<Longrightarrow> map_of m k = Some v"
  by (auto dest!: map_of_SomeD intro: map_of_is_SomeI)

lemma gm_wf_sweep [simp]: "gm_wf m \<Longrightarrow> gm_wf (sweep_expired now m)"
  by (simp add: sweep_expired_def distinct_map_filter)

lemma new_qr_session_fields [simp]:
  "qr_Status (new_qr_session x cfg now r req i) = qr_pending"
  "qr_Response (new_qr_session x cfg now r req i) = None"
  "qr_PollToken (new_qr_session x cfg now r req i) = ''qpt_'' @ randomHex x (i + 1) 24"
  "qr_ExpiresAt (new_qr_session x cfg now r req i) = now + qr_lifetime"
  by (simp_all add: new_qr_session_def)

lemma create_keeps:
  assumes inv: "qr_inv \<rho>" and run: "handleQRSession x cfg now r body (qn_map \<rho>, s) = (resp, m', s')"
    and ok: "rs_Status resp = 200" and fresh: "qr_session_id x (st_rng s) \<notin> set (qn_created \<rho>)"
  shows "qr_inv (\<rho>\<lparr>qn_map := m', qn_created := qr_session_id x (st_rng s) # qn_created \<rho>\<rparr>)"
proof -
  let ?id = "qr_session_id x (st_rng s)"
  from run ok obtain req where
    m': "m' = gm_set ?id (new_qr_session x cfg now r req (st_rng s)) (sweep_expired now (qn_map \<rho>))"
    by (rule session_done)
  have "qr_item_ok (\<rho>\<lparr>qn_map := m', qn_created := ?id # qn_created \<rho>\<rparr>) cid q"
    if g: "gm_get m' cid = Some q" for cid q
  proof (cases "cid = ?id")
    case True
    with g m' have "qr_Status q = qr_pending" by auto
    moreover have "?id \<notin> set (qn_claimed \<rho>)" "?id \<notin> set (qn_busy \<rho>)" "?id \<notin> set (qn_delivered \<rho>)"
      using fresh inv by (auto simp: qr_inv_def)
    ultimately show ?thesis using True by (simp add: qr_item_ok_def)
  next
    case False
    with g m' have "gm_get (sweep_expired now (qn_map \<rho>)) cid = Some q" by simp
    then have "gm_get (qn_map \<rho>) cid = Some q"
      using inv by (auto simp: sweep_expired_def qr_inv_def intro: filter_get)
    with inv have "qr_item_ok \<rho> cid q" by (rule qr_invD)
    then show ?thesis by (simp add: qr_item_ok_def)
  qed
  then show ?thesis using inv m' by (auto simp: qr_inv_def)
qed

lemma del_keeps: "qr_inv \<rho> \<Longrightarrow> qr_inv (\<rho>\<lparr>qn_map := gm_del cid (qn_map \<rho>)\<rparr>)"
  by (auto simp: qr_inv_def qr_item_ok_def)

lemma poll_keeps:
  assumes inv: "qr_inv \<rho>" and run: "handleQRPoll now r cid (qn_map \<rho>) = (resp, m')"
  shows "qr_inv (\<rho>\<lparr>qn_map := m',
    qn_delivered := (if hands_out_login resp then cid # qn_delivered \<rho> else qn_delivered \<rho>)\<rparr>)"
  using run
proof (cases rule: poll_cases)
  case refused
  then show ?thesis using inv by simp
next
  case (expired q)
  then show ?thesis using del_keeps [OF inv, of cid] by simp
next
  case (waiting q)
  then show ?thesis using inv by simp
next
  case (delivered q login)
  have "qr_item_ok \<rho> cid q" using inv delivered(1) by (rule qr_invD)
  with delivered(3) have "cid \<in> set (qn_claimed \<rho>)" "cid \<notin> set (qn_busy \<rho>)" "cid \<notin> set (qn_delivered \<rho>)"
    by (auto simp: qr_item_ok_def)
  then show ?thesis using inv delivered(6,8)
    by (auto simp: qr_inv_def qr_item_ok_def)
qed

lemma claim_keeps:
  assumes inv: "qr_inv \<rho>" and run: "qr_claim now cid (qn_map \<rho>) = (Inr q, m')"
  shows "qr_inv (\<rho>\<lparr>qn_map := m', qn_claimed := cid # qn_claimed \<rho>, qn_busy := cid # qn_busy \<rho>\<rparr>)"
proof -
  note c = claim_done [OF run]
  have ok: "qr_item_ok \<rho> cid q" using inv c(1) by (rule qr_invD)
  with c(2) have "cid \<notin> set (qn_claimed \<rho>)" "cid \<notin> set (qn_busy \<rho>)" "cid \<notin> set (qn_delivered \<rho>)"
      "cid \<in> set (qn_created \<rho>)"
    using inv by (auto simp: qr_item_ok_def qr_inv_def)
  then show ?thesis using inv c(4) by (auto simp: qr_inv_def qr_item_ok_def)
qed

lemma finish_keeps:
  assumes inv: "qr_inv \<rho>" and busy: "cid \<in> set (qn_busy \<rho>)" and st: "status \<in> {qr_failed, qr_approved}"
  shows "qr_inv (\<rho>\<lparr>qn_map := finishQRSession cid status response (qn_map \<rho>),
    qn_busy := removeAll cid (qn_busy \<rho>)\<rparr>)"
proof -
  have "cid \<in> set (qn_claimed \<rho>)" "cid \<notin> set (qn_delivered \<rho>)" using inv busy by (auto simp: qr_inv_def)
  then show ?thesis using inv st by (auto simp: qr_inv_def qr_item_ok_def finishQRSession_def)
qed

lemma qr_step_keeps: "qr_step x cfg \<rho> \<rho>' \<Longrightarrow> qr_inv \<rho> \<Longrightarrow> qr_inv \<rho>'"
proof (induction rule: qr_step.induct)
  case (cancel r cid \<rho> resp m')
  then show ?case using cancel_cases [OF cancel(1)] del_keeps [of \<rho> cid] by auto
qed (rule create_keeps poll_keeps claim_keeps finish_keeps; assumption)+

interpretation challenges: guarded_system qr_start "qr_step x cfg" qr_inv for x cfg
proof
  show "qr_start \<rho> \<Longrightarrow> qr_inv \<rho>" for \<rho> by (simp add: qr_start_def qr_inv_def)
  show "qr_step x cfg \<rho> \<rho>' \<Longrightarrow> qr_inv \<rho> \<Longrightarrow> qr_inv \<rho>'" for \<rho> \<rho>' by (rule qr_step_keeps)
qed

text \<open>
  Property C37. However requests interleave, a challenge is claimed by at most one approval and its
  login is handed out at most once, and only after it was created and claimed.
\<close>

theorem qr_single_use:
  assumes "qr_start \<rho>" and "(qr_step x cfg)\<^sup>*\<^sup>* \<rho> \<rho>'"
  shows "distinct (qn_claimed \<rho>') \<and> distinct (qn_delivered \<rho>') \<and>
    set (qn_delivered \<rho>') \<subseteq> set (qn_claimed \<rho>') \<and> set (qn_claimed \<rho>') \<subseteq> set (qn_created \<rho>')"
  using challenges.reachable_safe [OF assms] by (simp add: qr_inv_def)

text \<open>A run from the creation of a challenge to the delivery of its login.\<close>

definition demo_empty_run :: QrRun where
  "demo_empty_run = \<lparr>qn_map = [], qn_created = [], qn_claimed = [], qn_busy = [], qn_delivered = []\<rparr>"

definition demo_qr_map :: qr_map where
  "demo_qr_map = fst (snd (handleQRSession demo_ext demo_cfg 5 (demo_request []) (Some (demo_login ''B''))
     ([], demo_store)))"

definition demo_poll :: Request where
  "demo_poll = (demo_request [])\<lparr>rq_RawQuery := ''poll_token='' @ ''qpt_62''\<rparr>"

lemma demo_qr_eval:
  "rs_Status (fst (handleQRSession demo_ext demo_cfg 5 (demo_request []) (Some (demo_login ''B''))
      ([], demo_store))) = 200"
  "case qr_claim 6 ''qrl_61'' demo_qr_map of (Inr q, m) \<Rightarrow> m = gm_mod ''qrl_61'' (\<lambda>q. q\<lparr>qr_Status := qr_authorizing\<rparr>) demo_qr_map
     | _ \<Rightarrow> False"
  "qr_session_id demo_ext (st_rng demo_store) = ''qrl_61''"
  "hands_out_login (fst (handleQRPoll 7 demo_poll ''qrl_61''
     (finishQRSession ''qrl_61'' qr_approved (Some [(''token'', VStr ''t'')])
        (gm_mod ''qrl_61'' (\<lambda>q. q\<lparr>qr_Status := qr_authorizing\<rparr>) demo_qr_map))))"
  by code_simp+

lemma demo_qr_run:
  obtains \<rho> where "(qr_step demo_ext demo_cfg)\<^sup>*\<^sup>* demo_empty_run \<rho>" "qn_delivered \<rho> = [''qrl_61'']"
proof -
  define m1 where "m1 = gm_mod ''qrl_61'' (\<lambda>q. q\<lparr>qr_Status := qr_authorizing\<rparr>) demo_qr_map"
  define m2 where "m2 = finishQRSession ''qrl_61'' qr_approved (Some [(''token'', VStr ''t'')]) m1"
  obtain resp s' where c: "handleQRSession demo_ext demo_cfg 5 (demo_request []) (Some (demo_login ''B''))
      ([], demo_store) = (resp, demo_qr_map, s')" by (metis demo_qr_map_def prod.collapse)
  with demo_qr_eval(1) have ok: "rs_Status resp = 200" by simp
  obtain q where q: "qr_claim 6 ''qrl_61'' demo_qr_map = (Inr q, m1)"
    using demo_qr_eval(2) by (auto simp: m1_def split: prod.splits sum.splits)
  obtain resp4 m3 where p: "handleQRPoll 7 demo_poll ''qrl_61'' m2 = (resp4, m3)" by fastforce
  with demo_qr_eval(4) have h: "hands_out_login resp4" by (simp add: m1_def m2_def)
  let ?\<rho>1 = "demo_empty_run\<lparr>qn_map := demo_qr_map, qn_created := [''qrl_61'']\<rparr>"
  have s1: "qr_step demo_ext demo_cfg demo_empty_run ?\<rho>1"
    using qr_step.create [of demo_ext demo_cfg 5 _ _ demo_empty_run demo_store resp demo_qr_map s'] c ok demo_qr_eval(3)
    by (simp add: demo_empty_run_def)
  have s2: "qr_step demo_ext demo_cfg ?\<rho>1
      (?\<rho>1\<lparr>qn_map := m1, qn_claimed := [''qrl_61''], qn_busy := [''qrl_61'']\<rparr>)" (is "qr_step _ _ _ ?\<rho>2")
    using qr_step.claim [of 6 "''qrl_61''" ?\<rho>1 q m1] q by (simp add: demo_empty_run_def)
  have s3: "qr_step demo_ext demo_cfg ?\<rho>2 (?\<rho>2\<lparr>qn_map := m2, qn_busy := []\<rparr>)" (is "qr_step _ _ _ ?\<rho>3")
    using qr_step.finish [of "''qrl_61''" ?\<rho>2 qr_approved] by (simp add: m2_def)
  have s4: "qr_step demo_ext demo_cfg ?\<rho>3 (?\<rho>3\<lparr>qn_map := m3, qn_delivered := [''qrl_61'']\<rparr>)" (is "qr_step _ _ _ ?\<rho>4")
    using qr_step.poll [of 7 demo_poll "''qrl_61''" ?\<rho>3 resp4 m3] p h by (simp add: demo_empty_run_def)
  from s1 s2 s3 s4 have "(qr_step demo_ext demo_cfg)\<^sup>*\<^sup>* demo_empty_run ?\<rho>4"
    by (meson rtranclp.rtrancl_into_rtrancl rtranclp.rtrancl_refl)
  then show thesis by (rule that) simp
qed

theorem qr_single_use_witness:
  "\<exists>\<rho>. (qr_step demo_ext demo_cfg)\<^sup>*\<^sup>* demo_empty_run \<rho> \<and> qn_delivered \<rho> = [''qrl_61''] \<and>
     ''qrl_61'' \<in> set (qn_claimed \<rho>) \<and> distinct (qn_claimed \<rho>)"
proof -
  have s: "qr_start demo_empty_run" by (simp add: qr_start_def demo_empty_run_def)
  obtain \<rho> where r: "(qr_step demo_ext demo_cfg)\<^sup>*\<^sup>* demo_empty_run \<rho>" "qn_delivered \<rho> = [''qrl_61'']"
    by (rule demo_qr_run)
  from qr_single_use [OF s r(1)] r show ?thesis by auto
qed

text \<open>
  A challenge only moves forward through its stages: from pending over authorizing to approved
  or failed, and from approved to consumed; no step of any handler takes it back.
\<close>

theorem qr_only_forward:
  assumes "qr_start \<rho>0" and "(qr_step x cfg)\<^sup>*\<^sup>* \<rho>0 \<rho>" and "qr_step x cfg \<rho> \<rho>'"
    and "gm_get (qn_map \<rho>) cid = Some q" and "gm_get (qn_map \<rho>') cid = Some q'"
  shows "stage_of q \<le> stage_of q'"
proof -
  have inv: "qr_inv \<rho>" using assms(1,2) by (rule challenges.reachable_safe)
  have ok: "qr_item_ok \<rho> cid q" using inv assms(4) by (rule qr_invD)
  from assms(3) show ?thesis
  proof (cases rule: qr_step.cases)
    case (create now r body s resp m' s')
    from create(2,3) obtain req where
      m': "m' = gm_set (qr_session_id x (st_rng s)) (new_qr_session x cfg now r req (st_rng s))
         (sweep_expired now (qn_map \<rho>))" by (rule session_done)
    have "cid \<noteq> qr_session_id x (st_rng s)" using create(4) ok by (auto simp: qr_item_ok_def)
    then have "gm_get (sweep_expired now (qn_map \<rho>)) cid = Some q'" using assms(5) create(1) m' by simp
    then have "gm_get (qn_map \<rho>) cid = Some q'" using inv by (auto simp: sweep_expired_def qr_inv_def intro: filter_get)
    with assms(4) have "q' = q" by simp
    then show ?thesis by simp
  next
    case (cancel r cid' resp m')
    then show ?thesis using assms(4,5) cancel_cases [OF cancel(2)] by (auto split: if_splits)
  next
    case (poll now r cid' resp m')
    from poll(2) show ?thesis
      by (cases rule: poll_cases)
        (use assms(4,5) poll(1) in \<open>auto simp: less_eq_qr_stage_def stage_of_def split: if_splits\<close>)
  next
    case (claim now cid' q0 m')
    then show ?thesis using assms(4,5) claim_done [OF claim(2)]
      by (auto simp: less_eq_qr_stage_def stage_of_def split: if_splits)
  next
    case (finish cid' status response)
    then show ?thesis using assms(4,5) ok
      by (auto simp: less_eq_qr_stage_def stage_of_def finishQRSession_def qr_item_ok_def split: if_splits)
  qed
qed

theorem qr_only_forward_witness:
  "\<exists>\<rho> q'. qr_step demo_ext demo_cfg demo_empty_run \<rho> \<and> gm_get (qn_map \<rho>) ''qrl_61'' = Some q' \<and>
     (\<forall>m2 q2. qr_claim 6 ''qrl_61'' (qn_map \<rho>) = (Inr q2, m2) \<longrightarrow>
        (\<forall>q3. gm_get m2 ''qrl_61'' = Some q3 \<longrightarrow> stage_of q' \<le> stage_of q3))"
proof -
  obtain resp s' where c: "handleQRSession demo_ext demo_cfg 5 (demo_request []) (Some (demo_login ''B''))
      ([], demo_store) = (resp, demo_qr_map, s')" by (metis demo_qr_map_def prod.collapse)
  with demo_qr_eval(1) have ok: "rs_Status resp = 200" by simp
  let ?\<rho>1 = "demo_empty_run\<lparr>qn_map := demo_qr_map, qn_created := [''qrl_61'']\<rparr>"
  have s: "qr_start demo_empty_run" by (simp add: qr_start_def demo_empty_run_def)
  have s1: "qr_step demo_ext demo_cfg demo_empty_run ?\<rho>1"
    using qr_step.create [of demo_ext demo_cfg 5 _ _ demo_empty_run demo_store resp demo_qr_map s'] c ok demo_qr_eval(3)
    by (simp add: demo_empty_run_def)
  have "case gm_get demo_qr_map ''qrl_61'' of Some q \<Rightarrow> True | None \<Rightarrow> False" by code_simp
  then obtain q' where q': "gm_get (qn_map ?\<rho>1) ''qrl_61'' = Some q'" by (auto split: option.splits)
  have "stage_of q' \<le> stage_of q3"
    if "qr_claim 6 ''qrl_61'' (qn_map ?\<rho>1) = (Inr q2, m2)" "gm_get m2 ''qrl_61'' = Some q3" for q2 m2 q3
    using qr_only_forward [OF s _ qr_step.claim [OF that(1)] q'] s1 that(2) by auto
  then show ?thesis using s1 q' by blast
qed

text \<open>
  A poll hands out a login only to a request with the polling secret, before the
  expiry, for an approved challenge, and hands out the stored one; after it no poll of that
  challenge, with whatever secret, hands out a login again.
\<close>

theorem qr_poll_delivers_once:
  assumes "handleQRPoll now r cid m = (resp, m')" and "hands_out_login resp"
  shows "(\<exists>q login. gm_get m cid = Some q \<and> poll_token_of r = qr_PollToken q \<and> poll_token_of r \<noteq> [] \<and>
      now \<le> qr_ExpiresAt q \<and> qr_Status q = qr_approved \<and> qr_Response q = Some login \<and>
      resp = qr_status_reply [(''status'', VStr qr_approved), (''expires_at'', VStr (rfc3339 (qr_ExpiresAt q))),
         (''login'', VMap login)]) \<and>
    (\<forall>now' r'. \<not> hands_out_login (fst (handleQRPoll now' r' cid m')))"
  using assms(1)
proof (cases rule: poll_cases)
  case (delivered q login)
  have "\<not> hands_out_login (fst (handleQRPoll now' r' cid m'))" for now' r'
  proof (cases "handleQRPoll now' r' cid m'")
    case (Pair resp2 m2)
    from this show ?thesis
      by (cases rule: poll_cases) (use delivered(1,6) Pair in auto)
  qed
  then show ?thesis using delivered by (auto simp: qr_secret_ok_def not_less)
qed (use assms(2) in auto)

theorem qr_poll_delivers_once_witness:
  "let m = finishQRSession ''qrl_61'' qr_approved (Some [(''token'', VStr ''t'')]) demo_qr_map;
       (resp, m') = handleQRPoll 7 demo_poll ''qrl_61'' m
   in hands_out_login resp \<and> \<not> hands_out_login (fst (handleQRPoll 8 demo_poll ''qrl_61'' m'))"
proof -
  define m where "m = finishQRSession ''qrl_61'' qr_approved (Some [(''token'', VStr ''t'')]) demo_qr_map"
  obtain resp m' where run: "handleQRPoll 7 demo_poll ''qrl_61'' m = (resp, m')" by fastforce
  have "hands_out_login (fst (handleQRPoll 7 demo_poll ''qrl_61'' m))" unfolding m_def by code_simp
  with run have h: "hands_out_login resp" by simp
  from qr_poll_delivers_once [OF run h] h run show ?thesis by (simp add: m_def Let_def)
qed

text \<open>
  Only a live, pending challenge admits a device: when the challenge is missing, expired or
  no longer pending at the moment the approval looks at it, the reply is 401, 409 or 410, the
  challenges stay as they are, and the store is the one the session check left.
\<close>

theorem qr_dead_challenge_admits_nobody:
  assumes "handleQRApprove x cfg key io io' c now now' t_claim t_admit t_reply r loaded reloads others cid (m, w) =
      (resp, m', w')"
    and "others 0 = (\<lambda>mw. mw)"
    and "\<And>q. gm_get m cid = Some q \<Longrightarrow> qr_ExpiresAt q < t_claim \<or> qr_Status q \<noteq> qr_pending"
  shows "rs_Status resp \<in> {401, 409, 410} \<and> m' = m \<and>
    w' = w\<lparr>w_Store := snd (requireSession x cfg key io now now' r loaded reloads (w_Store w))\<rparr>"
proof -
  obtain auth s1 where rs: "requireSession x cfg key io now now' r loaded reloads (w_Store w) = (auth, s1)"
    by fastforce
  show ?thesis
  proof (cases auth)
    case (Inl e)
    then show ?thesis using assms(1) rs requireSession_401 by (auto simp: handleQRApprove_def)
  next
    case (Inr ctx)
    obtain claimed m2 where c: "qr_claim t_claim cid m = (claimed, m2)" by fastforce
    show ?thesis
    proof (cases claimed)
      case (Inl e)
      then show ?thesis using assms(1,2) rs Inr c claim_refused by (fastforce simp: handleQRApprove_def)
    next
      case (Inr q)
      then show ?thesis using claim_done [OF c [unfolded Inr]] assms(3) by auto
    qed
  qed
qed

definition demo_signed_in :: Request where
  "demo_signed_in = demo_request [(''Authorization'', [''Bearer t''])]"

theorem qr_dead_challenge_admits_nobody_witness:
  "\<exists>resp m' w'. handleQRApprove demo_json demo_kick demo_key SaveOk SaveOk (demo_call NetError) 9 9 (6 + qr_lifetime)
       9 9 demo_signed_in None (\<lambda>s. s) (\<lambda>i mw. mw) ''qrl_61'' (demo_qr_map, demo_world) = (resp, m', w') \<and>
     rs_Status resp = 410 \<and> m' = demo_qr_map"
proof -
  obtain resp m' w' where run: "handleQRApprove demo_json demo_kick demo_key SaveOk SaveOk (demo_call NetError) 9 9
      (6 + qr_lifetime) 9 9 demo_signed_in None (\<lambda>s. s) (\<lambda>i mw. mw) ''qrl_61'' (demo_qr_map, demo_world) =
      (resp, m', w')" by (metis prod.exhaust)
  have "rs_Status (fst (handleQRApprove demo_json demo_kick demo_key SaveOk SaveOk (demo_call NetError) 9 9
      (6 + qr_lifetime) 9 9 demo_signed_in None (\<lambda>s. s) (\<lambda>i mw. mw) ''qrl_61'' (demo_qr_map, demo_world))) = 410"
    by code_simp
  with run have s: "rs_Status resp = 410" by simp
  have "case gm_get demo_qr_map ''qrl_61'' of Some q \<Rightarrow> qr_ExpiresAt q < 6 + qr_lifetime | None \<Rightarrow> True"
    by code_simp
  then have dead: "qr_ExpiresAt q < 6 + qr_lifetime \<or> qr_Status q \<noteq> qr_pending"
    if "gm_get demo_qr_map ''qrl_61'' = Some q" for q using that by simp
  from qr_dead_challenge_admits_nobody [OF run refl dead] run s show ?thesis by blast
qed

section \<open>From the challenge to the session\<close>

lemma qr_approve_ok:
  assumes "handleQRApprove x cfg key io io' c now now' t_claim t_admit t_reply r loaded reloads (\<lambda>i mw. mw) cid (m, w) =
      (resp, m', w')" and "rs_Status resp = 200"
  obtains ctx s1 q sn p tok d limit n s3 where
    "requireSession x cfg key io now now' r loaded reloads (w_Store w) = (Inr ctx, s1)"
    "gm_get m cid = Some q" "qr_Status q = qr_pending"
    "admitDevice x cfg key io' t_admit (qr_request r q) (qr_Device q) sn (ctx_BusinessToken ctx) s1 =
       (Admitted tok d limit n, s3)"
    "w' = w\<lparr>w_Pool := p, w_Store := s3\<rparr>"
    "gm_get m' cid = Some (q\<lparr>qr_Status := qr_approved,
       qr_Response := Some (qr_login cfg t_reply (sn_Email sn) tok d limit)\<rparr>)"
proof -
  obtain auth s1 where rs: "requireSession x cfg key io now now' r loaded reloads (w_Store w) = (auth, s1)"
    by fastforce
  obtain ctx where a: "auth = Inr ctx"
    using assms rs requireSession_401 by (cases auth) (fastforce simp: handleQRApprove_def)+
  obtain claimed m2 where c: "qr_claim t_claim cid m = (claimed, m2)" by fastforce
  obtain q where q: "claimed = Inr q"
    using assms rs a c claim_refused by (cases claimed) (fastforce simp: handleQRApprove_def)+
  note cl = claim_done [OF c [unfolded q]]
  obtain fetched p where f: "fetchSubscriptionSnapshot x cfg c (ctx_BusinessToken ctx) (w_Pool w) = (fetched, p)"
    by fastforce
  obtain sn0 where sn0: "fetched = Some sn0"
    using assms rs a c q f
    by (cases fetched) (auto simp: handleQRApprove_def writeError_def writeJSON_def Let_def)
  define sn where "sn = (if sn_Email sn0 = [] then sn0\<lparr>sn_Email := u_Email (ctx_User ctx)\<rparr> else sn0)"
  obtain res s3 where adm: "admitDevice x cfg key io' t_admit (qr_request r q) (qr_Device q) sn
      (ctx_BusinessToken ctx) s1 = (res, s3)" by fastforce
  obtain status response resp' where out: "qr_outcome cfg t_reply q (sn_Email sn) res = ((status, response), resp')"
    by (metis prod.exhaust)
  have fin: "resp = resp'" "m' = finishQRSession cid status response m2" "w' = w\<lparr>w_Pool := p, w_Store := s3\<rparr>"
    using assms(1) rs a c q f sn0 adm out by (simp_all add: handleQRApprove_def sn_def Let_def)
  obtain tok d limit n where ok: "res = Admitted tok d limit n"
    using out fin(1) assms(2) by (cases res) (auto simp: qr_outcome_def writeError_def writeJSON_def Let_def)
  have "gm_get m' cid = Some (q\<lparr>qr_Status := qr_approved,
       qr_Response := Some (qr_login cfg t_reply (sn_Email sn) tok d limit)\<rparr>)"
    using fin(2) out ok cl(1,4) by (auto simp: qr_outcome_def finishQRSession_def)
  with that rs a cl(1,2) adm ok fin(3) show thesis by blast
qed

lemma requireSession_inv:
  assumes "account_inv s" and "\<forall>t. account_inv t \<longrightarrow> account_inv (others t)"
  shows "account_inv (snd (requireSession x cfg key io now now' r None others s))"
proof -
  have "account_inv (snd (authorizeWithReload x cfg key io now now' r None others s))"
    using assms token_gate.reload_inv [OF assms(1), of others None] by (simp add: authorizeWithReload_def Let_def)
  then show ?thesis
    by (auto simp: requireSession_def split: prod.splits sum.splits auth_error.splits)
qed

text \<open>
  Property C8. The whole login by QR code: the reply to the target names a challenge and a secret; once a
  signed-in user approved that challenge with success, the target's poll with the secret, in
  time, gets a \<open>token\<close> that authorizes requests within the session lifetime, with the
  business token of the user who approved.
\<close>

theorem qr_login_works:
  assumes "account_inv (w_Store w)" and "\<forall>t. account_inv t \<longrightarrow> account_inv (reloads t)"
    and "handleQRSession x cfg t0 r0 body (m, w_Store w) = (resp0, m0, s0)" and "rs_Status resp0 = 200"
    and "handleQRApprove x cfg key io io' c now now' t_claim t_admit t_reply r1 None reloads (\<lambda>i mw. mw) cid
           (m0, w\<lparr>w_Store := s0\<rparr>) = (resp1, m1, w1)" and "rs_Status resp1 = 200"
    and "cid = qr_session_id x (st_rng (w_Store w))"
    and "poll_token_of r2 = ''qpt_'' @ randomHex x (st_rng (w_Store w) + 1) 24"
    and "t2 \<le> t0 + qr_lifetime"
    and "fresh_draws x cfg (snd (requireSession x cfg key io now now' r1 None reloads s0)) (w_Store w1)"
    and "\<forall>n p. length n = 12 \<longrightarrow> x_open x key n (x_seal x key n p) = Some p"
    and "\<forall>i. length (x_rand x i 12) = 12" and "\<forall>t. hashValue x cfg ''session'' t \<noteq> []"
  shows "\<exists>data login g ctx s1. fst (handleQRPoll t2 r2 cid m1) = qr_status_reply data \<and>
    any_index data ''login'' = VMap login \<and> any_index login ''token'' = VStr g \<and>
    requireSession x cfg key io now now' r1 None reloads s0 = (Inr ctx, s1) \<and>
    (\<forall>t3 t4 r3 loaded others. t3 \<le> t_admit + cfg_SessionTTL cfg \<longrightarrow>
       header_get (rq_Header r3) ''Authorization'' = g \<longrightarrow>
       (\<exists>ctx' s2. authorizeWithReload x cfg key SaveOk t3 t4 r3 loaded others (w_Store w1) = (Inr ctx', s2) \<and>
          ctx_BusinessToken ctx' = ctx_BusinessToken ctx))"
proof -
  obtain req where m0: "m0 = gm_set cid (new_qr_session x cfg t0 r0 req (st_rng (w_Store w))) (sweep_expired t0 m)"
    and s0: "s0 = (w_Store w)\<lparr>st_rng := st_rng (w_Store w) + 2\<rparr>"
    using assms(3,4,7) by (auto elim: session_done)
  obtain ctx s1 q sn p tok d limit n s3 where rs: "requireSession x cfg key io now now' r1 None reloads s0 = (Inr ctx, s1)"
    and q: "gm_get m0 cid = Some q"
    and adm: "admitDevice x cfg key io' t_admit (qr_request r1 q) (qr_Device q) sn (ctx_BusinessToken ctx) s1 =
       (Admitted tok d limit n, s3)"
    and w1: "w_Store w1 = s3"
    and m1: "gm_get m1 cid = Some (q\<lparr>qr_Status := qr_approved,
       qr_Response := Some (qr_login cfg t_reply (sn_Email sn) tok d limit)\<rparr>)"
    using assms(5,6) by (auto elim: qr_approve_ok)
  have inv0: "account_inv s0" using assms(1) s0 account_inv_cong [of s0 "w_Store w"] by simp
  have inv1: "account_inv s1"
    using requireSession_inv [OF inv0, of reloads x cfg key io now now' r1] assms(2) rs by simp
  have fr: "fresh_draws x cfg s1 s3" using assms(10) rs w1 by simp
  let ?login = "qr_login cfg t_reply (sn_Email sn) tok d limit"
  have qf: "qr_PollToken q = ''qpt_'' @ randomHex x (st_rng (w_Store w) + 1) 24" "qr_ExpiresAt q = t0 + qr_lifetime"
    using q m0 by (auto simp del: append.simps)
  have poll: "fst (handleQRPoll t2 r2 cid m1) = qr_status_reply
      [(''status'', VStr qr_approved), (''expires_at'', VStr (rfc3339 (qr_ExpiresAt q))), (''login'', VMap ?login)]"
    using m1 qf assms(8,9) by (simp add: handleQRPoll_def qr_secret_ok_def)
  have "\<exists>ctx' s2. authorizeWithReload x cfg key SaveOk t3 t4 r3 loaded others s3 = (Inr ctx', s2) \<and>
      ctx_BusinessToken ctx' = ctx_BusinessToken ctx"
    if "t3 \<le> t_admit + cfg_SessionTTL cfg" "header_get (rq_Header r3) ''Authorization'' = ''Bearer '' @ tok"
    for t3 t4 r3 loaded others
    using admitted_authorizes [OF inv1 adm fr assms(11,12) _ that] assms(13) by blast
  moreover have "any_index ?login ''token'' = VStr (''Bearer '' @ tok)" by (simp add: qr_login_def any_index_def)
  moreover have "any_index [(''status'', VStr qr_approved), (''expires_at'', VStr (rfc3339 (qr_ExpiresAt q))),
      (''login'', VMap ?login)] ''login'' = VMap ?login" by (simp add: any_index_def)
  ultimately show ?thesis using poll rs w1 by fast
qed

definition demo_qr0 :: "Response \<times> qr_map \<times> Store" where
  "demo_qr0 = handleQRSession demo_sub demo_kick 5 (demo_request []) (Some (demo_login ''B'')) ([], w_Store demo_world)"

definition demo_qr1 :: "Response \<times> qr_map \<times> World" where
  "demo_qr1 = handleQRApprove demo_sub demo_kick demo_key SaveOk SaveOk (demo_call (NetReply 200 [] (Some ''S'')))
     6 6 6 6 6 demo_signed_in None (\<lambda>s. s) (\<lambda>i mw. mw) ''qrl_61''
     (fst (snd demo_qr0), demo_world\<lparr>w_Store := snd (snd demo_qr0)\<rparr>)"

lemma demo_qr_login_eval:
  "case requireSession demo_sub demo_kick demo_key SaveOk 6 6 demo_signed_in None (\<lambda>s. s) (snd (snd demo_qr0)) of
     (Inr c, s) \<Rightarrow> (case demo_qr1 of (resp, m, w) \<Rightarrow>
        rs_Status resp = 200 \<and> fresh_draws demo_sub demo_kick s (w_Store w))
   | _ \<Rightarrow> False"
  by code_simp

lemma demo_qr_session_eval:
  "rs_Status (fst demo_qr0) = 200"
  "qr_session_id demo_sub (st_rng (w_Store demo_world)) = ''qrl_61''"
  "poll_token_of demo_poll = ''qpt_'' @ randomHex demo_sub (st_rng (w_Store demo_world) + 1) 24"
  by code_simp+

theorem qr_login_works_witness:
  "\<exists>data login g. fst (handleQRPoll 7 demo_poll ''qrl_61'' (fst (snd demo_qr1))) = qr_status_reply data \<and>
     any_index data ''login'' = VMap login \<and> any_index login ''token'' = VStr g \<and>
     (\<forall>r3. header_get (rq_Header r3) ''Authorization'' = g \<longrightarrow>
        (\<exists>ctx' s2. authorizeWithReload demo_sub demo_kick demo_key SaveOk 9 9 r3 None (\<lambda>s. s)
           (w_Store (snd (snd demo_qr1))) = (Inr ctx', s2)))"
proof -
  obtain resp0 m0 s0 where r0: "demo_qr0 = (resp0, m0, s0)" by (metis prod.exhaust)
  obtain resp1 m1 w1 where r1: "demo_qr1 = (resp1, m1, w1)" by (metis prod.exhaust)
  have i: "account_inv (w_Store demo_world)" "\<forall>t. account_inv t \<longrightarrow> account_inv t"
    by (simp_all add: demo_world_def demo_store_inv)
  have x: "\<forall>n p. length n = 12 \<longrightarrow> x_open demo_sub demo_key n (x_seal demo_sub demo_key n p) = Some p"
    "\<forall>i. length (x_rand demo_sub i 12) = 12" "\<forall>t. hashValue demo_sub demo_kick ''session'' t \<noteq> []"
    by (simp_all add: demo_sub_def demo_ext12_def demo_ext_def hashValue_def hex_encode_def)
  have e: "rs_Status resp0 = 200" "rs_Status resp1 = 200"
      "fresh_draws demo_sub demo_kick (snd (requireSession demo_sub demo_kick demo_key SaveOk 6 6 demo_signed_in None
        (\<lambda>s. s) s0)) (w_Store w1)"
    using demo_qr_login_eval demo_qr_session_eval(1) by (auto simp: r0 r1 split: prod.splits sum.splits)
  note e2 = demo_qr_session_eval(2,3)
  have t: "7 \<le> 5 + qr_lifetime" "9 \<le> 6 + cfg_SessionTTL demo_kick"
    by (simp_all add: qr_lifetime_def demo_kick_def demo_cfg_def)
  note works = qr_login_works [OF i r0 [unfolded demo_qr0_def] e(1)
      r1 [unfolded demo_qr1_def r0 fst_conv snd_conv] e(2) e2(1) [symmetric] e2(2) t(1) e(3) x]
  then obtain data login g where
    d: "fst (handleQRPoll 7 demo_poll ''qrl_61'' m1) = qr_status_reply data"
      "any_index data ''login'' = VMap login" "any_index login ''token'' = VStr g"
    and a: "\<forall>t3 t4 r3 loaded others. t3 \<le> 6 + cfg_SessionTTL demo_kick \<longrightarrow>
       header_get (rq_Header r3) ''Authorization'' = g \<longrightarrow>
       (\<exists>ctx' s2. authorizeWithReload demo_sub demo_kick demo_key SaveOk t3 t4 r3 loaded others (w_Store w1) = (Inr ctx', s2))"
    by blast
  show ?thesis using d a t(2) r1 by (metis fst_conv snd_conv)
qed

end
