(* ===== verification/OssConfig.thy ===== *)
theory OssConfig
  imports Backends
begin

text \<open>
  The dynamic route bundle and the start-up configuration (main.go: \<open>fetchBusinessBaseURLs\<close> to
  \<open>splitAndNormalizeURLs\<close>, and the environment helpers). A bundle is downloaded from several
  mirrors, decrypted, its lists are extracted by three regular expressions, and the newest one
  replaces the cached bundle. The process environment and \<open>url.ParseRequestURI\<close> are
  parameters; an error of these functions is \<open>None\<close>, since every caller only logs it.
\<close>

record Environ =
  ev_getenv :: "string \<Rightarrow> string"
  ev_uri_ok :: "string \<Rightarrow> bool"

section \<open>Environment\<close>

definition env :: "Environ \<Rightarrow> string \<Rightarrow> string \<Rightarrow> string" where
  "env ev key fallback = (if ev_getenv ev key \<noteq> [] then ev_getenv ev key else fallback)"

definition envInt :: "Environ \<Rightarrow> string \<Rightarrow> int \<Rightarrow> int" where
  "envInt ev key fallback =
     (let v = ev_getenv ev key in
      if v = [] then fallback
      else case atoi v of (parsed, ok) \<Rightarrow> if ok then parsed else fallback)"

definition envBool :: "ext \<Rightarrow> Environ \<Rightarrow> string \<Rightarrow> bool \<Rightarrow> bool" where
  "envBool x ev key fallback =
     (let v = to_lower (x_unicode_lower x) (trim_space (ev_getenv ev key)) in
      if v = [] then fallback else v = ''1'' \<or> v = ''true'' \<or> v = ''yes'')"

text \<open>The loop of \<open>splitAndNormalizeURLs\<close>: \<open>seen\<close> is what the result holds so far.\<close>

fun keep_new_urls :: "string list \<Rightarrow> string list \<Rightarrow> string list" where
  "keep_new_urls seen [] = []"
| "keep_new_urls seen (item # items) =
     (let u = trim_right (trim_space item) ''/'' in
      if u = [] then keep_new_urls seen items
      else if u \<in> set seen then keep_new_urls seen items
      else u # keep_new_urls (u # seen) items)"

definition splitAndNormalizeURLs :: "string \<Rightarrow> string list" where
  "splitAndNormalizeURLs raw = keep_new_urls [] (split_on CHR '','' raw)"

section \<open>Versions\<close>

fun compare_parts :: "string list \<Rightarrow> string list \<Rightarrow> nat \<Rightarrow> nat \<Rightarrow> int" where
  "compare_parts a b i 0 = 0"
| "compare_parts a b i (Suc n) =
     (let av = (if i < length a then fst (atoi (a ! i)) else 0);
          bv = (if i < length b then fst (atoi (b ! i)) else 0)
      in if av < bv then - 1 else if av > bv then 1 else compare_parts a b (Suc i) n)"

definition compareConfigVersions :: "string \<Rightarrow> string \<Rightarrow> int" where
  "compareConfigVersions left right =
     (if left = right then 0
      else if left = [] then - 1
      else if right = [] then 1
      else
        let a = split_on CHR ''.'' left; b = split_on CHR ''.'' right
        in compare_parts a b 0 (max (length a) (length b)))"

section \<open>Decryption\<close>

definition xor_char :: "char \<Rightarrow> char \<Rightarrow> char" where
  "xor_char a b = char_of (Bit_Operations.xor (byte_of a) (byte_of b))"

definition xor_key :: "string \<Rightarrow> string \<Rightarrow> string" where
  "xor_key key bs = map (\<lambda>i. xor_char (bs ! i) (key ! (i mod length key))) [0 ..< length bs]"

definition xorDecryptPayload :: "string \<Rightarrow> string \<Rightarrow> string option" where
  "xorDecryptPayload encoded key =
     (if key = [] then None else map_option (xor_key key) (b64_decode encoded))"

text \<open>
  The signed envelope and its decoding by \<open>json.Unmarshal\<close>: a key selects the field of its
  name in any letter case, an absent field is empty, \<open>null\<close> leaves a field as it is, and
  any other value that is not a string is an error.
\<close>

record Envelope =
  en_Format :: string
  en_Algorithm :: string
  en_Encoding :: string
  en_Payload :: string
  en_Signature :: string

definition set_envelope_field :: "string \<Rightarrow> any \<Rightarrow> Envelope \<Rightarrow> Envelope option" where
  "set_envelope_field k v e =
     (if \<not> list_ex (\<lambda>f. equal_fold f k) [''_format'', ''algorithm'', ''encoding'', ''payload'', ''signature'']
      then Some e
      else (case v of
              VNil \<Rightarrow> Some e
            | VStr s \<Rightarrow>
                Some (if equal_fold ''_format'' k then e\<lparr>en_Format := s\<rparr>
                      else if equal_fold ''algorithm'' k then e\<lparr>en_Algorithm := s\<rparr>
                      else if equal_fold ''encoding'' k then e\<lparr>en_Encoding := s\<rparr>
                      else if equal_fold ''payload'' k then e\<lparr>en_Payload := s\<rparr>
                      else e\<lparr>en_Signature := s\<rparr>)
            | _ \<Rightarrow> None))"

fun envelope_fields :: "anymap \<Rightarrow> Envelope \<Rightarrow> Envelope option" where
  "envelope_fields [] e = Some e"
| "envelope_fields (f # fs) e =
     (case set_envelope_field (fst f) (snd f) e of None \<Rightarrow> None | Some e' \<Rightarrow> envelope_fields fs e')"

definition decode_envelope :: "any \<Rightarrow> Envelope option" where
  "decode_envelope v =
     (let e0 = \<lparr>en_Format = [], en_Algorithm = [], en_Encoding = [], en_Payload = [], en_Signature = []\<rparr>
      in case v of VMap m \<Rightarrow> envelope_fields m e0 | VNil \<Rightarrow> Some e0 | _ \<Rightarrow> None)"

definition signed_format :: string where
  "signed_format = ''fastcat-config-v2''"

text \<open>\<open>open_envelope\<close>: the branch for the signed format; the public key has 32 bytes.\<close>

definition open_envelope :: "ext \<Rightarrow> Environ \<Rightarrow> Envelope \<Rightarrow> string \<Rightarrow> string option" where
  "open_envelope x ev e key =
     (if en_Algorithm e \<noteq> ''Ed25519'' \<or> en_Encoding e \<noteq> ''xor+base64'' \<or> en_Payload e = [] \<or> en_Signature e = []
      then None
      else
        let pkText = trim_space (env ev ''DG_OSS_SIGNING_PUBLIC_KEY'' []) in
        if pkText = [] then None
        else (case b64_decode pkText of
                None \<Rightarrow> None
              | Some pk \<Rightarrow>
                  if length pk \<noteq> 32 then None
                  else (case b64_decode (en_Signature e) of
                          None \<Rightarrow> None
                        | Some sig \<Rightarrow>
                            if x_ed25519_verify x pk (en_Payload e) sig
                            then xorDecryptPayload (en_Payload e) key else None)))"

definition xorDecrypt :: "ext \<Rightarrow> Environ \<Rightarrow> string \<Rightarrow> string \<Rightarrow> string option" where
  "xorDecrypt x ev body key =
     (let trimmed = trim_space body in
      if trimmed = [] then None
      else if hd trimmed = CHR 0x7B \<or> hd trimmed = CHR ''[''
      then (case x_json_parse x trimmed of
              None \<Rightarrow> xorDecryptPayload trimmed key
            | Some v \<Rightarrow>
                (case decode_envelope v of
                   Some e \<Rightarrow> if en_Format e = signed_format then open_envelope x ev e key else Some trimmed
                 | None \<Rightarrow> Some trimmed))
      else xorDecryptPayload trimmed key)"

section \<open>Extraction\<close>

text \<open>\<open>\\s\<close> of Go's regular expressions, and the leftmost position at which \<open>m\<close> matches.\<close>

definition re_space :: "char \<Rightarrow> bool" where
  "re_space c = (byte_of c \<in> {9, 10, 12, 13, 32})"

fun leftmost :: "(string \<Rightarrow> 'a option) \<Rightarrow> string \<Rightarrow> 'a option" where
  "leftmost m [] = m []"
| "leftmost m (c # cs) = (case m (c # cs) of Some r \<Rightarrow> Some r | None \<Rightarrow> leftmost m cs)"

text \<open>\<open>"name"\\s*:\\s*\<close> at the start of a text; the rest of the text.\<close>

definition match_field :: "string \<Rightarrow> string \<Rightarrow> string option" where
  "match_field name s =
     (let q = CHR 0x22 # name @ [CHR 0x22] in
      if has_prefix s q
      then (case dropWhile re_space (drop (length q) s) of
              [] \<Rightarrow> None
            | c # cs \<Rightarrow> if c = CHR '':'' then Some (dropWhile re_space cs) else None)
      else None)"

text \<open>\<open>ossDomainsRE\<close> and \<open>ossGatewayURLsRE\<close>: a bracket up to the first closing one.\<close>

definition match_array :: "string \<Rightarrow> string \<Rightarrow> string option" where
  "match_array name s =
     (case match_field name s of
        None \<Rightarrow> None
      | Some [] \<Rightarrow> None
      | Some (c # cs) \<Rightarrow>
          let inner = takeWhile (\<lambda>d. d \<noteq> CHR '']'') cs in
          if c = CHR ''['' \<and> length inner < length cs then Some (c # inner @ [CHR '']'']) else None)"

text \<open>\<open>ossConfigVersionRE\<close>: digits, then groups of a dot and digits.\<close>

function version_groups :: "string \<Rightarrow> string" where
  "version_groups s =
     (case s of
        c # d # cs \<Rightarrow>
          if c = CHR ''.'' \<and> is_digit d
          then c # takeWhile is_digit (d # cs) @ version_groups (dropWhile is_digit (d # cs))
          else []
      | _ \<Rightarrow> [])"
  by pat_completeness auto
termination
  by (relation "measure length") (auto intro: le_less_trans [OF length_dropWhile_le])

declare version_groups.simps [simp del]

definition match_version :: "string \<Rightarrow> string option" where
  "match_version s =
     (case match_field ''config_version'' s of
        None \<Rightarrow> None
      | Some t0 \<Rightarrow>
          let t = (case t0 of c # cs \<Rightarrow> if c = CHR 0x22 then cs else t0 | [] \<Rightarrow> []);
              digits = takeWhile is_digit t
          in if digits = [] then None
             else Some (digits @ version_groups (dropWhile is_digit t)))"

text \<open>\<open>json.Unmarshal\<close> into \<open>[]string\<close>: \<open>null\<close> elements become empty strings.\<close>

fun string_elems :: "any list \<Rightarrow> string list option" where
  "string_elems [] = Some []"
| "string_elems (v # vs) =
     (case v of
        VStr s \<Rightarrow> map_option ((#) s) (string_elems vs)
      | VNil \<Rightarrow> map_option ((#) []) (string_elems vs)
      | _ \<Rightarrow> None)"

definition string_array :: "ext \<Rightarrow> string \<Rightarrow> string list option" where
  "string_array x t = (case x_json_parse x t of Some (VList vs) \<Rightarrow> string_elems vs | _ \<Rightarrow> None)"

definition valid_urls :: "Environ \<Rightarrow> string list \<Rightarrow> string list" where
  "valid_urls ev arr =
     filter (\<lambda>u. u \<noteq> [] \<and> ev_uri_ok ev u) (map (\<lambda>u. trim_right u ''/'') arr)"

definition extract_list :: "ext \<Rightarrow> Environ \<Rightarrow> string \<Rightarrow> string \<Rightarrow> string list" where
  "extract_list x ev name data =
     (case leftmost (match_array name) data of
        None \<Rightarrow> []
      | Some t \<Rightarrow> (case string_array x t of None \<Rightarrow> [] | Some arr \<Rightarrow> valid_urls ev arr))"

definition extractOSSConfig ::
    "ext \<Rightarrow> Environ \<Rightarrow> string \<Rightarrow> (string list \<times> string list \<times> string) option" where
  "extractOSSConfig x ev data =
     (let domains = extract_list x ev ''domains'' data;
          gateways = extract_list x ev ''gateway_urls'' data;
          version = (case leftmost match_version data of None \<Rightarrow> [] | Some v \<Rightarrow> v)
      in if domains = [] then None else Some (domains, gateways, version))"

section \<open>Mirrors\<close>

record ossFetchResult =
  or_domains :: "string list"
  or_gatewayURLs :: "string list"
  or_configVersion :: string
  or_decrypted :: string
  or_source :: string
  or_index :: nat

text \<open>\<open>io.LimitReader\<close> over a body that is at hand.\<close>

definition limit_bytes :: "int \<Rightarrow> string \<Rightarrow> string" where
  "limit_bytes n s = (if int (length s) \<le> n then s else take (nat n) s)"

definition downloadOSS :: "ext \<Rightarrow> (breq \<Rightarrow> net_reply) \<Rightarrow> string \<Rightarrow> string option" where
  "downloadOSS x send rawURL =
     (case new_request x ''GET'' rawURL [] [] of
        None \<Rightarrow> None
      | Some req \<Rightarrow>
          (case send req of
             NetReply code h (Some body) \<Rightarrow> if code = 200 then Some (limit_bytes 1048576 body) else None
           | _ \<Rightarrow> None))"

text \<open>One goroutine of \<open>fetchOSSGroup\<close>: the result it sends, \<open>None\<close> for one with an error.\<close>

definition oss_source ::
    "ext \<Rightarrow> Environ \<Rightarrow> (breq \<Rightarrow> net_reply) \<Rightarrow> string \<Rightarrow> nat \<Rightarrow> string \<Rightarrow> ossFetchResult option" where
  "oss_source x ev send key i url =
     (case downloadOSS x send url of
        None \<Rightarrow> None
      | Some body \<Rightarrow>
          (case xorDecrypt x ev body key of
             None \<Rightarrow> None
           | Some data \<Rightarrow>
               (case extractOSSConfig x ev data of
                  None \<Rightarrow> None
                | Some (domains, gateways, version) \<Rightarrow>
                    Some \<lparr>or_domains = domains, or_gatewayURLs = gateways, or_configVersion = version,
                          or_decrypted = data, or_source = url, or_index = i\<rparr>)))"

definition better :: "ossFetchResult option \<Rightarrow> ossFetchResult option \<Rightarrow> ossFetchResult option" where
  "better result best =
     (case result of
        None \<Rightarrow> best
      | Some r \<Rightarrow>
          (case best of
             None \<Rightarrow> Some r
           | Some b \<Rightarrow>
               let comparison = compareConfigVersions (or_configVersion r) (or_configVersion b) in
               if comparison > 0 \<or> (comparison = 0 \<and> or_index r < or_index b) then Some r else Some b))"

text \<open>
  The results the loop looks at: all up to the first one without an error, then the \<open>extra\<close>
  ones that arrive before the settlement timer fires.
\<close>

fun until_settled :: "nat \<Rightarrow> ossFetchResult option list \<Rightarrow> ossFetchResult option list" where
  "until_settled extra [] = []"
| "until_settled extra (r # rs) = r # (if r = None then until_settled extra rs else take extra rs)"

text \<open>\<open>arrivals\<close> is the order in which the goroutines deliver.\<close>

definition fetchOSSGroup ::
    "ext \<Rightarrow> Environ \<Rightarrow> (breq \<Rightarrow> net_reply) \<Rightarrow> nat list \<Rightarrow> nat \<Rightarrow> string list \<Rightarrow> string
     \<Rightarrow> ossFetchResult option" where
  "fetchOSSGroup x ev send arrivals extra urls key =
     (if urls = [] then None
      else fold better
             (until_settled extra (map (\<lambda>i. oss_source x ev send key i (urls ! i)) arrivals)) None)"

section \<open>The bundle in use\<close>

definition oss_probe_ok :: "ext \<Rightarrow> Environ \<Rightarrow> (breq \<Rightarrow> net_reply) \<Rightarrow> string \<Rightarrow> bool" where
  "oss_probe_ok x ev send base =
     (case x_url_parse x base of
        None \<Rightarrow> False
      | Some target \<Rightarrow>
          let pre = trim_right (env ev ''DG_API_PREFIX'' ''/api/v1'') ''/'';
              u = target\<lparr>pu_Path := joinURLPath (pu_Path target) (pre @ ''/guest/comm/config'')\<rparr> in
          (case new_request x ''GET'' (x_url_string x u) [] [] of
             None \<Rightarrow> False
           | Some req \<Rightarrow> (case send req of NetReply code h b \<Rightarrow> 200 \<le> code \<and> code < 300 | _ \<Rightarrow> False)))"

definition anyOSSBusinessRouteHealthy ::
    "ext \<Rightarrow> Environ \<Rightarrow> (breq \<Rightarrow> net_reply) \<Rightarrow> string list \<Rightarrow> bool" where
  "anyOSSBusinessRouteHealthy x ev send domains = list_ex (oss_probe_ok x ev send) domains"

text \<open>\<open>file\<close> is what reading the cache file gives, \<open>None\<close> for an error.\<close>

definition loadCachedOSSResult :: "ext \<Rightarrow> Environ \<Rightarrow> string option \<Rightarrow> ossFetchResult option" where
  "loadCachedOSSResult x ev file =
     (case file of
        None \<Rightarrow> None
      | Some data \<Rightarrow>
          (case extractOSSConfig x ev data of
             None \<Rightarrow> None
           | Some (domains, gateways, version) \<Rightarrow>
               Some \<lparr>or_domains = domains, or_gatewayURLs = gateways, or_configVersion = version,
                     or_decrypted = data, or_source = ''local_cache'', or_index = 0\<rparr>))"

text \<open>\<open>written\<close> says whether directory, temporary file and rename succeed.\<close>

definition persistOSSConfigCache :: "bool \<Rightarrow> string \<Rightarrow> string option \<Rightarrow> string option" where
  "persistOSSConfigCache written data file =
     (if data = [] then file else if written then Some data else file)"

definition default_emergency_url :: string where
  "default_emergency_url = ''https://gdhwag-1251796499.cos.ap-guangzhou.myqcloud.com/cat.json''"

text \<open>The two rounds of downloads, each with its order of arrival.\<close>

definition fetch_rounds ::
    "ext \<Rightarrow> Environ \<Rightarrow> (breq \<Rightarrow> net_reply) \<Rightarrow> (nat list \<times> nat) \<Rightarrow> (nat list \<times> nat) \<Rightarrow> string
     \<Rightarrow> ossFetchResult option" where
  "fetch_rounds x ev send round1 round2 key =
     (let normalURLs = splitAndNormalizeURLs (env ev ''DG_OSS_CONFIG_URLS'' []) in
      case fetchOSSGroup x ev send (fst round1) (snd round1) normalURLs key of
        Some r \<Rightarrow> Some r
      | None \<Rightarrow>
          let emergency = trim_space (env ev ''DG_EMERGENCY_OSS_CONFIG_URL'' default_emergency_url) in
          if emergency \<noteq> [] \<and> \<not> containsString normalURLs emergency
          then fetchOSSGroup x ev send (fst round2) (snd round2) [emergency] key else None)"

text \<open>
  \<open>fetchBusinessBaseURLs\<close> with the cache file before and after. \<open>in_time\<close> says whether the probe of
  the cached routes ends within the wait of the branch that asks for it; no branch asks twice.
\<close>

definition fetchBusinessBaseURLs ::
    "ext \<Rightarrow> Environ \<Rightarrow> (breq \<Rightarrow> net_reply) \<Rightarrow> (nat list \<times> nat) \<Rightarrow> (nat list \<times> nat) \<Rightarrow> bool \<Rightarrow> bool
     \<Rightarrow> string option \<Rightarrow> (string list \<times> string list) \<times> string option" where
  "fetchBusinessBaseURLs x ev send round1 round2 in_time written file =
     (let key = env ev ''DG_OSS_XOR_KEY'' [];
          cached = loadCachedOSSResult x ev file;
          from_cache = (case cached of
             Some c \<Rightarrow> if in_time \<and> anyOSSBusinessRouteHealthy x ev send (or_domains c)
                       then Some (or_domains c, or_gatewayURLs c) else None
           | None \<Rightarrow> None);
          or_nothing = (case from_cache of Some p \<Rightarrow> p | None \<Rightarrow> ([], []))
      in if key = [] then (or_nothing, file)
         else (case fetch_rounds x ev send round1 round2 key of
                 None \<Rightarrow> (or_nothing, file)
               | Some r \<Rightarrow>
                   if \<not> anyOSSBusinessRouteHealthy x ev send (or_domains r) then (or_nothing, file)
                   else
                     let newer = (case cached of
                           None \<Rightarrow> True
                         | Some c \<Rightarrow> compareConfigVersions (or_configVersion c) (or_configVersion r) < 0);
                         fresh = (or_domains r, or_gatewayURLs r)
                     in if newer then (fresh, persistOSSConfigCache written (or_decrypted r) file)
                        else (case from_cache of Some p \<Rightarrow> (p, file) | None \<Rightarrow> (fresh, file))))"

section \<open>Start-up\<close>

datatype config_error = BadPolicy string | NoRoute | BadURL string

definition seed_urls :: "Environ \<Rightarrow> string list" where
  "seed_urls ev =
     (let envURLs = env ev ''DG_BUSINESS_BASE_URLS'' [];
          envURL = trim_right (env ev ''DG_BUSINESS_BASE_URL'' []) ''/''
      in if envURLs \<noteq> [] then splitAndNormalizeURLs envURLs
         else if envURL \<noteq> [] then [envURL] else [])"

definition token_secret :: "Environ \<Rightarrow> string" where
  "token_secret ev =
     (let adminToken = env ev ''DG_ADMIN_TOKEN'' []; s0 = env ev ''DG_TOKEN_SECRET'' [];
          s1 = (if s0 = [] then adminToken else s0)
      in if s1 = [] then ''dev-insecure-token-secret'' else s1)"

text \<open>\<open>fetched\<close> is the outcome of \<open>fetchBusinessBaseURLs\<close>; durations are 64-bit products.\<close>

definition loadConfig ::
    "ext \<Rightarrow> Environ \<Rightarrow> string list \<times> string list \<Rightarrow> config_error + Config" where
  "loadConfig x ev fetched =
     (let prefix0 = trim_right (env ev ''DG_API_PREFIX'' ''/api/v1'') ''/'';
          prefix1 = (if prefix0 = [] then ''/api/v1'' else prefix0);
          policy = env ev ''DG_DEVICE_POLICY'' policyStrict;
          secs = (\<lambda>key d. wrap64 (envInt ev key d * 1000000000))
      in if policy \<noteq> policyStrict \<and> policy \<noteq> policyKickOldest then Inl (BadPolicy policy)
         else
           let baseURLs = (if fst fetched = [] then seed_urls ev else fst fetched);
               public0 = trim_right (env ev ''DG_PUBLIC_BASE_URL'' []) ''/'';
               public1 = (if public0 = [] \<and> snd fetched \<noteq> [] then hd (snd fetched) else public0)
           in if baseURLs = [] then Inl NoRoute
              else (case find (\<lambda>u. \<not> ev_uri_ok ev u) baseURLs of
                 Some u \<Rightarrow> Inl (BadURL u)
               | None \<Rightarrow> Inr
                   \<lparr>cfg_ListenAddr = env ev ''DG_LISTEN_ADDR'' '':8787'',
                    cfg_BusinessBaseURLs = baseURLs, cfg_PublicBaseURL = public1,
                    cfg_GatewayURLs = snd fetched, cfg_APIPrefix = prefix1,
                    cfg_DataFile = env ev ''DG_DATA_FILE'' ''./data/device-gateway.json'',
                    cfg_AdminToken = env ev ''DG_ADMIN_TOKEN'' [], cfg_TokenSecret = token_secret ev,
                    cfg_SessionTTL = wrap64 (envInt ev ''DG_SESSION_TTL_HOURS'' 720 * 3600000000000),
                    cfg_DevicePolicy = policy,
                    cfg_DefaultDeviceLimit = envInt ev ''DG_DEFAULT_DEVICE_LIMIT'' 1,
                    cfg_HTTPTimeout = secs ''DG_HTTP_TIMEOUT_SECONDS'' 20,
                    cfg_BusinessFailureThreshold = envInt ev ''DG_BUSINESS_FAILURE_THRESHOLD'' 2,
                    cfg_BusinessCircuitBreak = secs ''DG_BUSINESS_CIRCUIT_SECONDS'' 90,
                    cfg_BusinessHealthInterval = secs ''DG_BUSINESS_HEALTH_INTERVAL_SECONDS'' 30,
                    cfg_BusinessRecoverySuccess = envInt ev ''DG_BUSINESS_RECOVERY_SUCCESSES'' 3,
                    cfg_BusinessBackupMinHold = secs ''DG_BUSINESS_BACKUP_MIN_HOLD_SECONDS'' 180,
                    cfg_TrustForwardedFor = envBool x ev ''DG_TRUST_FORWARDED_FOR'' False,
                    cfg_IPRegionDB = env ev ''DG_IP_REGION_DB'' ''./data/ip2region.db'',
                    cfg_PostgresDSN = env ev ''DG_POSTGRES_DSN'' []\<rparr>))"

end
