(* ===== verification/AdminHealth.thy ===== *)
theory AdminHealth
  imports OssConfig ServiceStatus Business
begin

text \<open>
  The service health report for administrators (admin_health.go): probes of the mirrors, of the
  cached bundle, of the public gateways and of the business backends, their order, and their
  summaries. Probes run concurrently; the order in which they deliver is an argument. The
  texts of library errors are the argument \<open>errText\<close>, indexed by the status they come with.
\<close>

section \<open>Items\<close>

record adminEndpointHealthItem =
  ah_Index :: int
  ah_Name :: string
  ah_Role :: string
  ah_Address :: string
  ah_Status :: string
  ah_LatencyMS :: int
  ah_StatusCode :: int
  ah_Error :: string
  ah_Active :: bool
  ah_MatchesCurrent :: bool
  ah_ConfigVersion :: string
  ah_BusinessCount :: int
  ah_GatewayCount :: int
  ah_CheckedAt :: string

record adminOSSProbeResult =
  op_item :: adminEndpointHealthItem
  op_domains :: "string list"
  op_gatewayURLs :: "string list"

record adminHealthGroupSummary =
  hs_Healthy :: int
  hs_Total :: int

definition new_item :: "int \<Rightarrow> string \<Rightarrow> string \<Rightarrow> string \<Rightarrow> string \<Rightarrow> time \<Rightarrow> adminEndpointHealthItem" where
  "new_item index name role address status now =
     \<lparr>ah_Index = index, ah_Name = name, ah_Role = role, ah_Address = address, ah_Status = status,
      ah_LatencyMS = 0, ah_StatusCode = 0, ah_Error = [], ah_Active = False, ah_MatchesCurrent = False,
      ah_ConfigVersion = [], ah_BusinessCount = 0, ah_GatewayCount = 0, ah_CheckedAt = rfc3339 now\<rparr>"

definition msg_no_key :: string where
  "msg_no_key =
    [CHR 0x44, CHR 0x47, CHR 0x5F, CHR 0x4F, CHR 0x53, CHR 0x53, CHR 0x5F, CHR 0x58,
     CHR 0x4F, CHR 0x52, CHR 0x5F, CHR 0x4B, CHR 0x45, CHR 0x59, CHR 0x20, CHR 0xE6,
     CHR 0x9C, CHR 0xAA, CHR 0xE9, CHR 0x85, CHR 0x8D, CHR 0xE7, CHR 0xBD, CHR 0xAE]"

definition msg_timeout :: string where
  "msg_timeout =
    [CHR 0xE8, CHR 0xAF, CHR 0xB7, CHR 0xE6, CHR 0xB1, CHR 0x82, CHR 0xE8, CHR 0xB6,
     CHR 0x85, CHR 0xE6, CHR 0x97, CHR 0xB6]"

definition msg_bad_gateway :: string where
  "msg_bad_gateway =
    [CHR 0xE7, CHR 0xBD, CHR 0x91, CHR 0xE5, CHR 0x85, CHR 0xB3, CHR 0xE5, CHR 0x9C,
     CHR 0xB0, CHR 0xE5, CHR 0x9D, CHR 0x80, CHR 0xE6, CHR 0x97, CHR 0xA0, CHR 0xE6,
     CHR 0x95, CHR 0x88]"

definition msg_bad_health :: string where
  "msg_bad_health =
    [CHR 0xE5, CHR 0x81, CHR 0xA5, CHR 0xE5, CHR 0xBA, CHR 0xB7, CHR 0xE6, CHR 0xA3,
     CHR 0x80, CHR 0xE6, CHR 0x9F, CHR 0xA5, CHR 0xE5, CHR 0x93, CHR 0x8D, CHR 0xE5,
     CHR 0xBA, CHR 0x94, CHR 0xE6, CHR 0xA0, CHR 0xBC, CHR 0xE5, CHR 0xBC, CHR 0x8F,
     CHR 0xE6, CHR 0x97, CHR 0xA0, CHR 0xE6, CHR 0x95, CHR 0x88]"

definition msg_not_ok :: string where
  "msg_not_ok =
    [CHR 0xE5, CHR 0x81, CHR 0xA5, CHR 0xE5, CHR 0xBA, CHR 0xB7, CHR 0xE6, CHR 0xA3,
     CHR 0x80, CHR 0xE6, CHR 0x9F, CHR 0xA5, CHR 0xE7, CHR 0x8A, CHR 0xB6, CHR 0xE6,
     CHR 0x80, CHR 0x81, CHR 0xE4, CHR 0xB8, CHR 0x8D, CHR 0xE6, CHR 0x98, CHR 0xAF,
     CHR 0x20, CHR 0x6F, CHR 0x6B]"

section \<open>Sorting\<close>

text \<open>
  The exchange sort of \<open>sortAdminHealthItems\<close> and \<open>sortAdminOSSProbeResults\<close>: one comparison, one
  run of the inner loop, all of them.
\<close>

definition exchange_step :: "('a \<Rightarrow> int) \<Rightarrow> nat \<Rightarrow> nat \<Rightarrow> 'a list \<Rightarrow> 'a list" where
  "exchange_step f i j xs = (if f (xs ! j) < f (xs ! i) then xs[i := xs ! j, j := xs ! i] else xs)"

definition exchange_row :: "('a \<Rightarrow> int) \<Rightarrow> nat \<Rightarrow> 'a list \<Rightarrow> 'a list" where
  "exchange_row f i xs = fold (exchange_step f i) [Suc i ..< length xs] xs"

definition exchange_sort :: "('a \<Rightarrow> int) \<Rightarrow> 'a list \<Rightarrow> 'a list" where
  "exchange_sort f xs = fold (exchange_row f) [0 ..< length xs] xs"

definition sortAdminHealthItems :: "adminEndpointHealthItem list \<Rightarrow> adminEndpointHealthItem list" where
  "sortAdminHealthItems items = exchange_sort ah_Index items"

definition sortAdminOSSProbeResults :: "adminOSSProbeResult list \<Rightarrow> adminOSSProbeResult list" where
  "sortAdminOSSProbeResults items = exchange_sort (\<lambda>p. ah_Index (op_item p)) items"

section \<open>Mirrors and cache\<close>

definition sameStringList :: "string list \<Rightarrow> string list \<Rightarrow> bool" where
  "sameStringList left right =
     (length left = length right \<and>
      list_all2 (\<lambda>a b. trim_right a ''/'' = trim_right b ''/'') left right)"

definition ok_probe ::
    "adminEndpointHealthItem \<Rightarrow> string list \<times> string list \<times> string \<Rightarrow> adminOSSProbeResult" where
  "ok_probe item cfg =
     (case cfg of (domains, gateways, version) \<Rightarrow>
        \<lparr>op_item = item\<lparr>ah_Status := ''healthy'', ah_ConfigVersion := version,
                     ah_BusinessCount := int (length domains), ah_GatewayCount := int (length gateways)\<rparr>,
         op_domains = domains, op_gatewayURLs = gateways\<rparr>)"

definition bad_probe :: "adminEndpointHealthItem \<Rightarrow> string \<Rightarrow> string \<Rightarrow> adminOSSProbeResult" where
  "bad_probe item status err =
     \<lparr>op_item = item\<lparr>ah_Status := status, ah_Error := err\<rparr>, op_domains = [], op_gatewayURLs = []\<rparr>"

definition probeAdminOSSSource ::
    "ext \<Rightarrow> Environ \<Rightarrow> (string \<Rightarrow> string) \<Rightarrow> (breq \<Rightarrow> net_reply \<times> int) \<Rightarrow> time \<Rightarrow> int \<Rightarrow> string \<Rightarrow> string
     \<Rightarrow> string \<Rightarrow> string \<Rightarrow> adminOSSProbeResult" where
  "probeAdminOSSSource x ev errText send now index name role address key =
     (let item = new_item index name role address ''unreachable'' now in
      if key = [] then bad_probe item ''not_configured'' msg_no_key
      else (case new_request x ''GET'' address [] [] of
              None \<Rightarrow> bad_probe item ''invalid_address'' (errText ''invalid_address'')
            | Some req \<Rightarrow>
                let (rep, latency) = send req; item1 = item\<lparr>ah_LatencyMS := latency\<rparr> in
                (case rep of
                   NetTimeout \<Rightarrow> bad_probe item1 ''timeout'' msg_timeout
                 | NetError \<Rightarrow> bad_probe item1 ''unreachable'' (errText ''unreachable'')
                 | NetReply code h body \<Rightarrow>
                     let item2 = item1\<lparr>ah_StatusCode := code\<rparr> in
                     if code \<noteq> 200 then bad_probe item2 ''http_error'' (''HTTP '' @ itoa code)
                     else (case body of
                        None \<Rightarrow> bad_probe item2 ''read_error'' (errText ''read_error'')
                      | Some b \<Rightarrow>
                          (case xorDecrypt x ev (limit_bytes 1048576 b) key of
                             None \<Rightarrow> bad_probe item2 ''decrypt_error'' (errText ''decrypt_error'')
                           | Some d \<Rightarrow>
                               (case extractOSSConfig x ev d of
                                  None \<Rightarrow> bad_probe item2 ''invalid_config'' (errText ''invalid_config'')
                                | Some cfg \<Rightarrow> ok_probe item2 cfg))))))"

datatype file_read = FileMissing | FileError | FileData string

definition ossConfigCachePath :: "Environ \<Rightarrow> string" where
  "ossConfigCachePath ev = env ev ''DG_OSS_CACHE_FILE'' ''./data/device-gateway-remote-config.json''"

definition probeAdminOSSCache ::
    "ext \<Rightarrow> Environ \<Rightarrow> (string \<Rightarrow> string) \<Rightarrow> file_read \<times> int \<Rightarrow> time \<Rightarrow> adminOSSProbeResult" where
  "probeAdminOSSCache x ev errText file now =
     (let item = (new_item 0 ''local_cache'' ''cache'' (ossConfigCachePath ev) ''missing'' now)
                   \<lparr>ah_LatencyMS := snd file\<rparr>
      in case fst file of
           FileMissing \<Rightarrow> \<lparr>op_item = item, op_domains = [], op_gatewayURLs = []\<rparr>
         | FileError \<Rightarrow> bad_probe item ''read_error'' (errText ''read_error'')
         | FileData d \<Rightarrow>
             (case extractOSSConfig x ev d of
                None \<Rightarrow> bad_probe item ''invalid_config'' (errText ''invalid_config'')
              | Some cfg \<Rightarrow> ok_probe item cfg))"

text \<open>The sources: index, name, role and address.\<close>

definition oss_sources :: "Environ \<Rightarrow> (int \<times> string \<times> string \<times> string) list" where
  "oss_sources ev =
     (let normalURLs = splitAndNormalizeURLs (env ev ''DG_OSS_CONFIG_URLS'' []);
          emergencyURL = trim_space (env ev ''DG_EMERGENCY_OSS_CONFIG_URL'' default_emergency_url);
          sources = map (\<lambda>i. (int i + 1, ''source_'' @ itoa (int i),
                             if i = 0 then ''primary'' else ''backup'', normalURLs ! i)) [0 ..< length normalURLs]
      in if emergencyURL \<noteq> [] \<and> \<not> containsString normalURLs emergencyURL
         then sources @ [(int (length sources) + 1, ''emergency'', ''emergency'', emergencyURL)]
         else sources)"

definition mark_current :: "Config \<Rightarrow> adminOSSProbeResult \<Rightarrow> adminEndpointHealthItem" where
  "mark_current cfg p =
     (if ah_Status (op_item p) = ''healthy'' \<and> sameStringList (op_domains p) (cfg_BusinessBaseURLs cfg) \<and>
         sameStringList (op_gatewayURLs p) (cfg_GatewayURLs cfg)
      then (op_item p)\<lparr>ah_MatchesCurrent := True\<rparr> else op_item p)"

text \<open>\<open>send i\<close> and \<open>clock i\<close> belong to the \<open>i\<close>-th source, \<open>t_cache\<close> to the probe of the cache.\<close>

definition probeAdminOSS ::
    "ext \<Rightarrow> Config \<Rightarrow> Environ \<Rightarrow> (string \<Rightarrow> string) \<Rightarrow> (nat \<Rightarrow> breq \<Rightarrow> net_reply \<times> int) \<Rightarrow> (nat \<Rightarrow> time)
     \<Rightarrow> nat list \<Rightarrow> file_read \<times> int \<Rightarrow> time \<Rightarrow> adminEndpointHealthItem list" where
  "probeAdminOSS x cfg ev errText send clock arrivals file t_cache =
     (let sources = oss_sources ev; key = env ev ''DG_OSS_XOR_KEY'' [];
          probe = (\<lambda>i. case sources ! i of (index, name, role, address) \<Rightarrow>
                     probeAdminOSSSource x ev errText (send i) (clock i) index name role address key);
          probes = sortAdminOSSProbeResults (map probe arrivals);
          cache0 = probeAdminOSSCache x ev errText file t_cache;
          cache = cache0\<lparr>op_item := (op_item cache0)\<lparr>ah_Index := int (length probes) + 1\<rparr>\<rparr>
      in map (mark_current cfg) (probes @ [cache]))"

section \<open>Gateways\<close>

definition endpointComparable :: "ext \<Rightarrow> string \<Rightarrow> string" where
  "endpointComparable x raw =
     (case x_url_parse x (trim_right (trim_space raw) ''/'') of
        None \<Rightarrow> []
      | Some u \<Rightarrow> if pu_Host u = [] then []
                  else to_lower (x_unicode_lower x) (pu_Scheme u @ ''://'' @ pu_Host u))"

definition healthz_verdict :: "ext \<Rightarrow> string \<Rightarrow> string \<times> string" where
  "healthz_verdict x body =
     (case json_map x body of
        None \<Rightarrow> (''invalid_response'', msg_bad_health)
      | Some payload \<Rightarrow>
          if any_index payload ''success'' \<noteq> VBool True then (''invalid_response'', msg_bad_health)
          else (case any_index payload ''data'' of
                  VMap data \<Rightarrow> if any_index data ''status'' \<noteq> VStr ''ok'' then (''invalid_response'', msg_not_ok)
                               else (''healthy'', [])
                | _ \<Rightarrow> (''invalid_response'', msg_not_ok)))"

text \<open>A body that breaks off is taken as empty; it is no JSON either way.\<close>

definition probeAdminGateway ::
    "ext \<Rightarrow> Config \<Rightarrow> (string \<Rightarrow> string) \<Rightarrow> (breq \<Rightarrow> net_reply \<times> int) \<Rightarrow> time \<Rightarrow> nat \<Rightarrow> string
     \<Rightarrow> adminEndpointHealthItem" where
  "probeAdminGateway x cfg errText send now i address =
     (let item = (new_item (int i + 1) (''gateway_'' @ itoa (int i + 1)) (if i = 0 then ''primary'' else ''backup'')
                    address ''unreachable'' now)
                   \<lparr>ah_Active := (endpointComparable x address = endpointComparable x (cfg_PublicBaseURL cfg))\<rparr>
      in case x_url_parse x address of
           None \<Rightarrow> item\<lparr>ah_Status := ''invalid_address'', ah_Error := msg_bad_gateway\<rparr>
         | Some target \<Rightarrow>
             if fst (host_and_port (pu_Host target)) = []
             then item\<lparr>ah_Status := ''invalid_address'', ah_Error := msg_bad_gateway\<rparr>
             else (case new_request x ''GET''
                          (x_url_string x (target\<lparr>pu_Path := joinURLPath (pu_Path target) ''/healthz''\<rparr>)) [] [] of
                None \<Rightarrow> item\<lparr>ah_Status := ''invalid_address'', ah_Error := errText ''invalid_address''\<rparr>
              | Some req \<Rightarrow>
                  let (rep, latency) = send req; item1 = item\<lparr>ah_LatencyMS := latency\<rparr> in
                  (case rep of
                     NetTimeout \<Rightarrow> item1\<lparr>ah_Status := ''timeout'', ah_Error := msg_timeout\<rparr>
                   | NetError \<Rightarrow> item1\<lparr>ah_Status := ''unreachable'', ah_Error := errText ''unreachable''\<rparr>
                   | NetReply code h body \<Rightarrow>
                       let item2 = item1\<lparr>ah_StatusCode := code\<rparr> in
                       if code < 200 \<or> code \<ge> 300
                       then item2\<lparr>ah_Status := ''http_error'', ah_Error := ''HTTP '' @ itoa code\<rparr>
                       else
                         let (status, err) =
                           healthz_verdict x (limit_bytes 65536 (case body of None \<Rightarrow> [] | Some b \<Rightarrow> b))
                         in item2\<lparr>ah_Status := status, ah_Error := err\<rparr>)))"

definition probeAdminGateways ::
    "ext \<Rightarrow> Config \<Rightarrow> (string \<Rightarrow> string) \<Rightarrow> (nat \<Rightarrow> breq \<Rightarrow> net_reply \<times> int) \<Rightarrow> (nat \<Rightarrow> time)
     \<Rightarrow> nat list \<Rightarrow> adminEndpointHealthItem list" where
  "probeAdminGateways x cfg errText send clock arrivals =
     sortAdminHealthItems
       (map (\<lambda>i. probeAdminGateway x cfg errText (send i) (clock i) i (cfg_GatewayURLs cfg ! i)) arrivals)"

section \<open>The report\<close>

fun summarize_from :: "bool \<Rightarrow> adminEndpointHealthItem list \<Rightarrow> adminHealthGroupSummary \<Rightarrow> adminHealthGroupSummary" where
  "summarize_from excludeCache [] s = s"
| "summarize_from excludeCache (item # items) s =
     (if excludeCache \<and> ah_Role item = ''cache'' then summarize_from excludeCache items s
      else
        let s1 = s\<lparr>hs_Total := hs_Total s + 1\<rparr>;
            s2 = (if ah_Status item = ''healthy'' \<or> ah_Status item = ''recovering''
                  then s1\<lparr>hs_Healthy := hs_Healthy s1 + 1\<rparr> else s1)
        in summarize_from excludeCache items s2)"

definition summarizeAdminEndpointHealth :: "adminEndpointHealthItem list \<Rightarrow> bool \<Rightarrow> adminHealthGroupSummary" where
  "summarizeAdminEndpointHealth items excludeCache =
     summarize_from excludeCache items \<lparr>hs_Healthy = 0, hs_Total = 0\<rparr>"

definition summarizeBusinessServiceHealth :: "BusinessServiceStatus list \<Rightarrow> adminHealthGroupSummary" where
  "summarizeBusinessServiceHealth items =
     \<lparr>hs_Healthy = int (length (filter (\<lambda>s. ss_Status s = ''healthy'' \<or> ss_Status s = ''recovering'') items)),
      hs_Total = int (length items)\<rparr>"

definition first_forwarded :: "Request \<Rightarrow> string \<Rightarrow> string" where
  "first_forwarded r name = trim_space (hd (split_on CHR '','' (header_get (rq_Header r) name)))"

definition adminRequestBaseURL :: "Request \<Rightarrow> string" where
  "adminRequestBaseURL r =
     (let scheme0 = (if rq_TLS r then ''https'' else ''http'');
          proto = first_forwarded r ''X-Forwarded-Proto'';
          scheme = (if proto \<noteq> [] then proto else scheme0);
          fhost = first_forwarded r ''X-Forwarded-Host'';
          host = (if fhost \<noteq> [] then fhost else rq_Host r)
      in if host = [] then [] else scheme @ ''://'' @ host)"

record adminServiceHealthSnapshot =
  sh_CheckedAt :: string
  sh_SummaryOSS :: adminHealthGroupSummary
  sh_SummaryGateways :: adminHealthGroupSummary
  sh_SummaryBusiness :: adminHealthGroupSummary
  sh_OSSItems :: "adminEndpointHealthItem list"
  sh_GatewayItems :: "adminEndpointHealthItem list"
  sh_PublicBaseURL :: string
  sh_RequestBaseURL :: string
  sh_PublicBaseMismatch :: bool
  sh_BusinessItems :: "BusinessServiceStatus list"

text \<open>What one group of probes is given: the exchanges, the clock, and the order of delivery.\<close>

record ProbeRun =
  pr_send :: "nat \<Rightarrow> breq \<Rightarrow> net_reply \<times> int"
  pr_clock :: "nat \<Rightarrow> time"
  pr_left :: "nat \<Rightarrow> time"
  pr_arrivals :: "nat list"

text \<open>
  \<open>collectAdminServiceHealth\<close>: \<open>oss\<close>, \<open>gws\<close> and \<open>bus\<close> are the three groups, \<open>file\<close> the read of the
  cache, \<open>t_pool\<close> the clock and \<open>p\<close> the pool when the business backends are looked at.
\<close>

definition collectAdminServiceHealth ::
    "ext \<Rightarrow> Config \<Rightarrow> Environ \<Rightarrow> (string \<Rightarrow> string) \<Rightarrow> Request \<Rightarrow> ProbeRun \<Rightarrow> ProbeRun \<Rightarrow> ProbeRun
     \<Rightarrow> file_read \<times> int \<Rightarrow> time \<Rightarrow> time \<Rightarrow> BackendPool \<Rightarrow> time \<Rightarrow> adminServiceHealthSnapshot" where
  "collectAdminServiceHealth x cfg ev errText r oss gws bus file t_cache t_pool p now =
     (let ossItems = probeAdminOSS x cfg ev errText (pr_send oss) (pr_clock oss) (pr_arrivals oss) file t_cache;
          gatewayItems = probeAdminGateways x cfg errText (pr_send gws) (pr_clock gws) (pr_arrivals gws);
          businessItems = adminBusinessServiceStatuses x cfg t_pool p (pr_send bus)
            (\<lambda>i. (pr_left bus i, pr_clock bus i)) (pr_arrivals bus);
          pub = endpointComparable x (cfg_PublicBaseURL cfg);
          reqb = endpointComparable x (adminRequestBaseURL r)
      in \<lparr>sh_CheckedAt = rfc3339 now,
          sh_SummaryOSS = summarizeAdminEndpointHealth ossItems True,
          sh_SummaryGateways = summarizeAdminEndpointHealth gatewayItems False,
          sh_SummaryBusiness = summarizeBusinessServiceHealth businessItems,
          sh_OSSItems = ossItems, sh_GatewayItems = gatewayItems,
          sh_PublicBaseURL = cfg_PublicBaseURL cfg, sh_RequestBaseURL = adminRequestBaseURL r,
          sh_PublicBaseMismatch = (pub \<noteq> [] \<and> reqb \<noteq> [] \<and> pub \<noteq> reqb),
          sh_BusinessItems = businessItems\<rparr>)"

definition item_json :: "adminEndpointHealthItem \<Rightarrow> any" where
  "item_json i = VMap
     ([(''index'', VInt (ah_Index i)), (''name'', VStr (ah_Name i)), (''role'', VStr (ah_Role i)),
       (''address'', VStr (ah_Address i)), (''status'', VStr (ah_Status i)), (''latency_ms'', VInt (ah_LatencyMS i))] @
      (if ah_StatusCode i = 0 then [] else [(''status_code'', VInt (ah_StatusCode i))]) @
      (if ah_Error i = [] then [] else [(''error'', VStr (ah_Error i))]) @
      [(''active'', VBool (ah_Active i))] @
      (if ah_MatchesCurrent i then [(''matches_current'', VBool True)] else []) @
      (if ah_ConfigVersion i = [] then [] else [(''config_version'', VStr (ah_ConfigVersion i))]) @
      (if ah_BusinessCount i = 0 then [] else [(''business_count'', VInt (ah_BusinessCount i))]) @
      (if ah_GatewayCount i = 0 then [] else [(''gateway_count'', VInt (ah_GatewayCount i))]) @
      [(''checked_at'', VStr (ah_CheckedAt i))])"

definition summary_json :: "adminHealthGroupSummary \<Rightarrow> any" where
  "summary_json s = VMap [(''healthy'', VInt (hs_Healthy s)), (''total'', VInt (hs_Total s))]"

definition snapshot_json :: "adminServiceHealthSnapshot \<Rightarrow> any" where
  "snapshot_json s = VMap
     [(''checked_at'', VStr (sh_CheckedAt s)),
      (''summary'', VMap [(''oss'', summary_json (sh_SummaryOSS s)), (''gateways'', summary_json (sh_SummaryGateways s)),
                          (''business'', summary_json (sh_SummaryBusiness s))]),
      (''oss'', VMap [(''items'', VList (map item_json (sh_OSSItems s)))]),
      (''gateways'', VMap
         [(''items'', VList (map item_json (sh_GatewayItems s))), (''public_base_url'', VStr (sh_PublicBaseURL s)),
          (''request_base_url'', VStr (sh_RequestBaseURL s)),
          (''public_base_mismatch'', VBool (sh_PublicBaseMismatch s))]),
      (''business'', VMap [(''items'', VList (map status_json (sh_BusinessItems s)))])]"

definition handleAdminServiceHealth ::
    "ext \<Rightarrow> Config \<Rightarrow> Environ \<Rightarrow> (string \<Rightarrow> string) \<Rightarrow> Request \<Rightarrow> ProbeRun \<Rightarrow> ProbeRun \<Rightarrow> ProbeRun
     \<Rightarrow> file_read \<times> int \<Rightarrow> time \<Rightarrow> time \<Rightarrow> BackendPool \<Rightarrow> time \<Rightarrow> Response" where
  "handleAdminServiceHealth x cfg ev errText r oss gws bus file t_cache t_pool p now =
     writeJSON 200 (success [(''data'',
       snapshot_json (collectAdminServiceHealth x cfg ev errText r oss gws bus file t_cache t_pool p now))])"

end
