(* ===== verification/OssProps.thy ===== *)
theory OssProps
  imports OssConfig Samples
begin

text \<open>
  The properties of the route bundle: versions are a total preorder, the mirrors give the best
  bundle seen whatever the order of arrival, encryption is undone, a signed envelope needs its
  signature, the cache never goes back, and a configuration that starts is usable.
\<close>

section \<open>Versions\<close>

definition ver_part :: "string list \<Rightarrow> nat \<Rightarrow> int" where
  "ver_part a i = (if i < length a then fst (atoi (a ! i)) else 0)"

definition first_less :: "(nat \<Rightarrow> int) \<Rightarrow> (nat \<Rightarrow> int) \<Rightarrow> bool" where
  "first_less f g = (\<exists>k. f k < g k \<and> (\<forall>j<k. f j = g j))"

lemma compare_parts_step:
  "compare_parts a b i (Suc n) =
     (if ver_part a i < ver_part b i then - 1
      else if ver_part a i > ver_part b i then 1 else compare_parts a b (Suc i) n)"
  by (simp add: ver_part_def Let_def)

declare compare_parts.simps(2) [simp del]

lemma compare_parts_swap: "compare_parts b a i n = - compare_parts a b i n"
  by (induction n arbitrary: i) (auto simp: compare_parts_step)

lemma compare_parts_less:
  "compare_parts a b i n < 0 \<longleftrightarrow>
     (\<exists>k. i \<le> k \<and> k < i + n \<and> ver_part a k < ver_part b k \<and> (\<forall>j. i \<le> j \<longrightarrow> j < k \<longrightarrow> ver_part a j = ver_part b j))"
proof (induction n arbitrary: i)
  case 0
  then show ?case by simp
next
  case (Suc n)
  show ?case
  proof (cases "ver_part a i = ver_part b i")
    case True
    then have "(\<exists>k. Suc i \<le> k \<and> k < Suc i + n \<and> ver_part a k < ver_part b k \<and>
        (\<forall>j. Suc i \<le> j \<longrightarrow> j < k \<longrightarrow> ver_part a j = ver_part b j)) \<longleftrightarrow>
      (\<exists>k. i \<le> k \<and> k < i + Suc n \<and> ver_part a k < ver_part b k \<and>
        (\<forall>j. i \<le> j \<longrightarrow> j < k \<longrightarrow> ver_part a j = ver_part b j))" (is "?l = ?r")
      by (metis Suc_leD Suc_leI add_Suc add_Suc_right le_neq_implies_less less_irrefl)
    then show ?thesis using Suc True by (simp add: compare_parts_step)
  next
    case False
    then show ?thesis
      by (auto simp: compare_parts_step intro: exI [of _ i]) (metis le_neq_implies_less order_refl less_asym)+
  qed
qed

lemma compare_parts_zero:
  "compare_parts a b i n = 0 \<longleftrightarrow> (\<forall>k. i \<le> k \<longrightarrow> k < i + n \<longrightarrow> ver_part a k = ver_part b k)"
proof (induction n arbitrary: i)
  case (Suc n)
  have "(\<forall>k. i \<le> k \<longrightarrow> k < i + Suc n \<longrightarrow> ver_part a k = ver_part b k) \<longleftrightarrow>
      ver_part a i = ver_part b i \<and> (\<forall>k. Suc i \<le> k \<longrightarrow> k < Suc i + n \<longrightarrow> ver_part a k = ver_part b k)"
    by (metis Suc_leD Suc_leI add_Suc add_Suc_right le_eq_less_or_eq le_refl less_add_Suc1)
  then show ?case using Suc [of "Suc i"] by (simp add: compare_parts_step)
qed simp

text \<open>Beyond the longer list both sides are padded with zeros.\<close>

lemma full_less: "compare_parts a b 0 (max (length a) (length b)) < 0 \<longleftrightarrow> first_less (ver_part a) (ver_part b)"
proof -
  have "k < max (length a) (length b)" if "ver_part a k < ver_part b k" for k
    using that by (auto simp: ver_part_def split: if_splits)
  then show ?thesis by (auto simp: compare_parts_less first_less_def)
qed

lemma full_zero: "compare_parts a b 0 (max (length a) (length b)) = 0 \<longleftrightarrow> ver_part a = ver_part b"
proof -
  have "ver_part a k = ver_part b k" if "\<not> k < max (length a) (length b)" for k
    using that by (auto simp: ver_part_def)
  then have "ver_part a = ver_part b \<longleftrightarrow> (\<forall>k < max (length a) (length b). ver_part a k = ver_part b k)"
    unfolding fun_eq_iff by blast
  then show ?thesis by (simp add: compare_parts_zero)
qed

lemma first_less_trans: "first_less f g \<Longrightarrow> first_less g h \<Longrightarrow> first_less f h"
proof -
  assume "first_less f g" "first_less g h"
  then obtain k l where "f k < g k" "\<forall>j<k. f j = g j" "g l < h l" "\<forall>j<l. g j = h j"
    by (auto simp: first_less_def)
  then have "f (min k l) < h (min k l) \<and> (\<forall>j < min k l. f j = h j)"
    by (cases k l rule: linorder_cases) auto
  then show "first_less f h" unfolding first_less_def by blast
qed

definition ver_of :: "string \<Rightarrow> nat \<Rightarrow> int" where
  "ver_of v = ver_part (split_on CHR ''.'' v)"

lemma compareConfigVersions_le:
  "compareConfigVersions l r \<le> 0 \<longleftrightarrow>
     l = r \<or> l = [] \<or> (r \<noteq> [] \<and> (first_less (ver_of l) (ver_of r) \<or> ver_of l = ver_of r))"
  unfolding ver_of_def full_less [symmetric] full_zero [symmetric]
  by (simp add: compareConfigVersions_def Let_def order_le_less)

interpretation versions: comparator compareConfigVersions
proof
  show "sgn (compareConfigVersions b a) = - sgn (compareConfigVersions a b)" for a b
    using compare_parts_swap [of "split_on CHR ''.'' a" "split_on CHR ''.'' b"]
    by (simp add: compareConfigVersions_def Let_def max.commute)
  show "compareConfigVersions a b \<le> 0 \<Longrightarrow> compareConfigVersions b c \<le> 0 \<Longrightarrow> compareConfigVersions a c \<le> 0"
    for a b c
    unfolding compareConfigVersions_le
    using first_less_trans [of "ver_of a" "ver_of b" "ver_of c"] by fastforce
qed

section \<open>The best mirror\<close>

text \<open>\<open>r\<close> is at least as good as \<open>r'\<close>: a newer version, or the same one from an earlier mirror.\<close>

definition at_least_as_good :: "ossFetchResult \<Rightarrow> ossFetchResult \<Rightarrow> bool" where
  "at_least_as_good r r' =
     (let c = compareConfigVersions (or_configVersion r') (or_configVersion r)
      in c < 0 \<or> (c = 0 \<and> or_index r \<le> or_index r'))"

lemma good_refl: "at_least_as_good r r"
  by (simp add: at_least_as_good_def versions.cmp_refl)

lemma good_trans: "at_least_as_good a b \<Longrightarrow> at_least_as_good b c \<Longrightarrow> at_least_as_good a c"
  using versions.cmp_less_trans [of "or_configVersion c" "or_configVersion b" "or_configVersion a"]
    versions.cmp_less_trans2 [of "or_configVersion c" "or_configVersion b" "or_configVersion a"]
    versions.cmp_trans [of "or_configVersion c" "or_configVersion b" "or_configVersion a"]
  by (auto simp: at_least_as_good_def Let_def)

lemma better_good:
  "\<exists>m. better (Some r) best = Some m \<and> (m = r \<or> best = Some m) \<and> at_least_as_good m r \<and>
     (\<forall>b. best = Some b \<longrightarrow> at_least_as_good m b)"
proof (cases best)
  case None
  then show ?thesis by (simp add: better_def good_refl)
next
  case (Some b)
  let ?c = "compareConfigVersions (or_configVersion r) (or_configVersion b)"
  show ?thesis
  proof (cases "?c > 0 \<or> (?c = 0 \<and> or_index r < or_index b)")
    case True
    then have "at_least_as_good r b"
      using versions.cmp_less_swap [of "or_configVersion b" "or_configVersion r"]
        versions.cmp_zero_swap [of "or_configVersion b" "or_configVersion r"]
      by (auto simp: at_least_as_good_def Let_def)
    with True Some show ?thesis by (auto simp: better_def good_refl)
  next
    case False
    then have "at_least_as_good b r" by (auto simp: at_least_as_good_def Let_def)
    with False Some show ?thesis by (auto simp: better_def good_refl)
  qed
qed

lemma fold_better:
  "case fold better rs best of
     None \<Rightarrow> best = None \<and> (\<forall>r. Some r \<notin> set rs)
   | Some m \<Rightarrow> (Some m \<in> set rs \<or> best = Some m) \<and> (\<forall>r. Some r \<in> set rs \<longrightarrow> at_least_as_good m r) \<and>
       (\<forall>b. best = Some b \<longrightarrow> at_least_as_good m b)"
proof (induction rs arbitrary: best)
  case Nil
  then show ?case by (auto simp: good_refl split: option.splits)
next
  case (Cons r rs)
  show ?case
  proof (cases r)
    case None
    then have "better r best = best" by (simp add: better_def)
    then show ?thesis using Cons [of best] None by (simp split: option.splits)
  next
    case (Some r0)
    obtain m where m: "better (Some r0) best = Some m" "m = r0 \<or> best = Some m" "at_least_as_good m r0"
        "\<forall>b. best = Some b \<longrightarrow> at_least_as_good m b"
      using better_good [of r0 best] by (elim exE conjE) (rule that)
    obtain n where n: "fold better rs (Some m) = Some n"
      using Cons [of "Some m"] by (cases "fold better rs (Some m)") simp_all
    with Cons [of "Some m"] have n2: "Some n \<in> set rs \<or> n = m"
      "\<forall>r. Some r \<in> set rs \<longrightarrow> at_least_as_good n r" "at_least_as_good n m" by auto
    have "at_least_as_good n r0" using good_trans [OF n2(3) m(3)] .
    moreover have "\<forall>b. best = Some b \<longrightarrow> at_least_as_good n b" using m(4) good_trans [OF n2(3)] by blast
    moreover have "fold better (r # rs) best = Some n" using Some m(1) n by simp
    moreover have "Some n \<in> set (r # rs) \<or> best = Some n" using n2(1) m(2) Some by auto
    moreover have "\<forall>r'. Some r' \<in> set (r # rs) \<longrightarrow> at_least_as_good n r'" using n2(2) calculation(1) Some by auto
    ultimately show ?thesis by simp
  qed
qed

lemma set_until_settled: "set (until_settled extra rs) \<subseteq> set rs"
  by (induction extra rs rule: until_settled.induct) (auto dest: in_set_takeD)

lemma until_settled_all: "length rs \<le> Suc extra \<Longrightarrow> set (until_settled extra rs) = set rs"
  by (induction extra rs rule: until_settled.induct) auto

lemma oss_source_index: "oss_source x ev send key i url = Some r \<Longrightarrow> or_index r = i"
  by (auto simp: oss_source_def split: option.splits prod.splits)

text \<open>
  When every mirror answers before the settlement timer, the bundle does not depend on the
  order in which the answers arrive: it is the one of the newest version, from the first
  mirror of the list that has it, and there is none only if every mirror failed.
\<close>

theorem mirrors_order_independent:
  assumes "set arrivals = {0 ..< length urls}" and "length arrivals \<le> Suc extra"
  shows "case fetchOSSGroup x ev send arrivals extra urls key of
      None \<Rightarrow> (\<forall>i < length urls. oss_source x ev send key i (urls ! i) = None)
    | Some r \<Rightarrow> (\<exists>i < length urls. oss_source x ev send key i (urls ! i) = Some r) \<and>
        (\<forall>i < length urls. \<forall>r'. oss_source x ev send key i (urls ! i) = Some r' \<longrightarrow>
           compareConfigVersions (or_configVersion r') (or_configVersion r) \<le> 0 \<and>
           (compareConfigVersions (or_configVersion r') (or_configVersion r) = 0 \<longrightarrow> or_index r \<le> i))"
proof (cases "urls = []")
  case True
  then show ?thesis by (simp add: fetchOSSGroup_def)
next
  case False
  let ?rs = "map (\<lambda>i. oss_source x ev send key i (urls ! i)) arrivals"
  have seen: "Some r \<in> set (until_settled extra ?rs) \<longleftrightarrow>
      (\<exists>i < length urls. oss_source x ev send key i (urls ! i) = Some r)" for r
    using assms until_settled_all [of ?rs extra] by (auto simp: image_iff) force
  show ?thesis
  proof (cases "fold better (until_settled extra ?rs) None")
    case None
    then show ?thesis
      using fold_better [where rs = "until_settled extra ?rs" and best = None] seen False
      by (fastforce simp: fetchOSSGroup_def)
  next
    case (Some r)
    then show ?thesis
      using fold_better [where rs = "until_settled extra ?rs" and best = None] seen False oss_source_index
      by (fastforce simp: fetchOSSGroup_def at_least_as_good_def Let_def)
  qed
qed

text \<open>An environment with one mirror, and replies that carry a bundle in plain JSON.\<close>

definition demo_env :: Environ where
  "demo_env =
     \<lparr>ev_getenv = (\<lambda>k. if k = ''DG_OSS_XOR_KEY'' then ''k'' else if k = ''DG_OSS_CONFIG_URLS'' then ''m, n/''
        else if k = ''DG_OSS_SIGNING_PUBLIC_KEY'' then b64_encode (replicate 32 CHR ''K'') else []),
      ev_uri_ok = (\<lambda>u. True)\<rparr>"

definition demo_bundle :: string where
  "demo_bundle = CHR 0x7B # CHR 0x22 # ''domains'' @ [CHR 0x22] @ '': ['' @ [CHR 0x22] @ ''a'' @ [CHR 0x22] @ '']'' @ [CHR 0x7D]"

definition demo_oss :: ext where
  "demo_oss = demo_ext\<lparr>x_json_parse := \<lambda>s.
     if hd s = CHR ''['' then Some (VList [VStr ''a''])
     else Some (VMap [(''_format'', VStr (if s = demo_bundle then [] else signed_format)),
       (''algorithm'', VStr ''Ed25519''), (''encoding'', VStr ''xor+base64''),
       (''payload'', VStr (b64_encode ''p'')), (''signature'', VStr (b64_encode ''s''))])\<rparr>"

definition demo_send :: "breq \<Rightarrow> net_reply" where
  "demo_send req = NetReply 200 [] (Some demo_bundle)"

theorem mirrors_order_independent_witness:
  "\<exists>r. fetchOSSGroup demo_oss demo_env demo_send [1, 0] 1 [''m'', ''n''] ''k'' = Some r \<and> or_index r \<le> 0"
proof -
  have a: "set [1, 0] = {0 ..< length [''m'', ''n'']}" "length [1 :: nat, 0] \<le> Suc 1" by auto
  have "case fetchOSSGroup demo_oss demo_env demo_send [1, 0] 1 [''m'', ''n''] ''k'' of Some r \<Rightarrow> or_configVersion r = []
     | None \<Rightarrow> False" by code_simp
  then obtain r where r: "fetchOSSGroup demo_oss demo_env demo_send [1, 0] 1 [''m'', ''n''] ''k'' = Some r"
      "or_configVersion r = []" by (auto split: option.splits)
  have "case oss_source demo_oss demo_env demo_send ''k'' 0 ''m'' of Some r \<Rightarrow> or_configVersion r = [] | None \<Rightarrow> False"
    by code_simp
  then obtain r' where r': "oss_source demo_oss demo_env demo_send ''k'' 0 ([''m'', ''n''] ! 0) = Some r'"
      "or_configVersion r' = []" by (auto split: option.splits)
  have "compareConfigVersions [] [] = 0" by code_simp
  with mirrors_order_independent [OF a, of demo_oss demo_env demo_send "''k''"] r r' show ?thesis by force
qed

section \<open>Encryption and signatures\<close>

lemma xor_less_256: "(a :: nat) < 256 \<Longrightarrow> b < 256 \<Longrightarrow> Bit_Operations.xor a b < 256"
proof -
  assume "a < 256" "b < 256"
  then have "take_bit 8 (Bit_Operations.xor a b) = Bit_Operations.xor a b"
    by (simp add: take_bit_xor take_bit_nat_eq_self)
  moreover have "take_bit 8 (Bit_Operations.xor a b) < 2 ^ 8" by (rule take_bit_nat_less_exp)
  ultimately show ?thesis by simp
qed

lemma xor_char_twice: "xor_char (xor_char c k) k = c"
proof -
  have "byte_of (xor_char c k) = Bit_Operations.xor (byte_of c) (byte_of k)"
    using xor_less_256 [of "byte_of c" "byte_of k"] by (simp add: xor_char_def byte_of_less)
  then show ?thesis by (simp add: xor_char_def xor.assoc)
qed

lemma xor_key_twice: "xor_key key (xor_key key p) = p"
  by (intro nth_equalityI) (simp_all add: xor_key_def xor_char_twice)

lemma b64_char_text:
  "n < 64 \<Longrightarrow> visible_char (b64_char n) \<and> b64_char n \<noteq> CHR 0x7B \<and> b64_char n \<noteq> CHR ''[''"
proof -
  assume n: "n < 64"
  have m: "byte_of (char_of k) = k" if "k < 256" for k :: nat using that by simp
  have s: "byte_of CHR ''+'' = 43" "byte_of CHR ''/'' = 47" "byte_of CHR 0x7B = 123" "byte_of CHR ''['' = 91"
    by code_simp+
  have "byte_of (b64_char n) \<in> {43, 47} \<union> {48..57} \<union> {65..90} \<union> {97..122}"
    using n m [of "65 + n"] m [of "71 + n"] m [of "n - 4"] s(1,2) by (auto simp: b64_char_def)
  then show ?thesis using s(3,4) by (auto simp: visible_char_def)
qed

lemma b64_encode_text:
  "list_all (\<lambda>c. visible_char c \<and> c \<noteq> CHR 0x7B \<and> c \<noteq> CHR ''['') (b64_encode s)"
proof (induction s rule: b64_encode.induct)
  have eq: "visible_char CHR ''=''" by code_simp
  case (2 a)
  then show ?case by (simp add: Let_def b64_char_text eq)
next
  have eq: "visible_char CHR ''=''" by code_simp
  case (3 a b)
  then show ?case by (simp add: Let_def b64_char_text eq)
qed (simp_all add: Let_def b64_char_text)

text \<open>
  What the publisher encrypts is what the gateway reads: XOR with the repeated key and base64
  are undone by \<open>xorDecrypt\<close>, for every non-empty text and key.
\<close>

theorem xor_roundtrip:
  assumes "key \<noteq> []" and "p \<noteq> []"
  shows "xorDecrypt x ev (b64_encode (xor_key key p)) key = Some p"
proof -
  let ?c = "b64_encode (xor_key key p)"
  have ne: "?c \<noteq> []"
  proof
    assume "?c = []"
    then have "b64_decode [] = Some (xor_key key p)" using b64_decode_encode [of "xor_key key p"] by simp
    moreover have "b64_decode [] = Some []" by code_simp
    ultimately have "length (xor_key key p) = 0" by simp
    with assms(2) show False by (simp add: xor_key_def)
  qed
  then have "hd ?c \<in> set ?c" "last ?c \<in> set ?c" by simp_all
  then have t: "trim_space ?c = ?c"
    using b64_encode_text [of "xor_key key p"] ne unfolding list_all_iff by (blast intro: trim_space_visible)
  have "hd ?c \<noteq> CHR 0x7B \<and> hd ?c \<noteq> CHR ''[''"
    using b64_encode_text [of "xor_key key p"] \<open>hd ?c \<in> set ?c\<close> unfolding list_all_iff by blast
  then show ?thesis
    using t ne assms(1) by (simp add: xorDecrypt_def xorDecryptPayload_def b64_decode_encode xor_key_twice)
qed

theorem xor_roundtrip_witness:
  "xorDecrypt demo_ext \<lparr>ev_getenv = \<lambda>k. [], ev_uri_ok = \<lambda>u. True\<rparr> (b64_encode (xor_key ''ab'' ''hello'')) ''ab'' = Some ''hello''"
  by (rule xor_roundtrip) simp_all

text \<open>
  A bundle in the signed format is used only after its signature was verified: whatever
  \<open>xorDecrypt\<close> returns for such an envelope is the decrypted payload that the configured
  32-byte public key signed.
\<close>

theorem signed_bundle_verified:
  assumes "xorDecrypt x ev body key = Some data" and "trim_space body \<noteq> []"
    and "hd (trim_space body) = CHR 0x7B" and "x_json_parse x (trim_space body) = Some v"
    and "decode_envelope v = Some e" and "en_Format e = signed_format"
  shows "\<exists>pk sig. b64_decode (trim_space (ev_getenv ev ''DG_OSS_SIGNING_PUBLIC_KEY'')) = Some pk \<and>
    length pk = 32 \<and> b64_decode (en_Signature e) = Some sig \<and>
    x_ed25519_verify x pk (en_Payload e) sig \<and> xorDecryptPayload (en_Payload e) key = Some data"
proof -
  have "open_envelope x ev e key = Some data" using assms by (simp add: xorDecrypt_def Let_def)
  moreover have "env ev ''DG_OSS_SIGNING_PUBLIC_KEY'' [] = ev_getenv ev ''DG_OSS_SIGNING_PUBLIC_KEY''"
    by (simp add: env_def)
  ultimately show ?thesis
    by (auto simp: open_envelope_def Let_def split: if_splits option.splits)
qed

theorem signed_bundle_verified_witness:
  "\<exists>data. xorDecrypt demo_oss demo_env [CHR 0x7B] ''k'' = Some data \<and>
     (\<exists>pk sig. b64_decode (trim_space (ev_getenv demo_env ''DG_OSS_SIGNING_PUBLIC_KEY'')) = Some pk \<and>
        length pk = 32 \<and> x_ed25519_verify demo_oss pk (b64_encode ''p'') sig)"
proof -
  have "case xorDecrypt demo_oss demo_env [CHR 0x7B] ''k'' of Some d \<Rightarrow> True | None \<Rightarrow> False" by code_simp
  then obtain data where d: "xorDecrypt demo_oss demo_env [CHR 0x7B] ''k'' = Some data" by (auto split: option.splits)
  have t: "trim_space [CHR 0x7B] \<noteq> []" "hd (trim_space [CHR 0x7B]) = CHR 0x7B" by code_simp+
  define v where "v = the (x_json_parse demo_oss (trim_space [CHR 0x7B]))"
  define e where "e = the (decode_envelope v)"
  have p: "x_json_parse demo_oss (trim_space [CHR 0x7B]) = Some v"
    by (simp add: v_def demo_oss_def)
  have "case decode_envelope (the (x_json_parse demo_oss (trim_space [CHR 0x7B]))) of
     Some e \<Rightarrow> en_Format e = signed_format \<and> en_Payload e = b64_encode ''p'' | None \<Rightarrow> False" by code_simp
  then have e: "decode_envelope v = Some e" "en_Format e = signed_format" "en_Payload e = b64_encode ''p''"
    by (auto simp: e_def v_def split: option.splits)
  from signed_bundle_verified [OF d t p e(1,2)] d e(3) show ?thesis by auto
qed

text \<open>An envelope with a field of the wrong type is not an envelope: it passes as plain text.\<close>

theorem malformed_envelope_passes:
  assumes "trim_space body = t" and "t \<noteq> []" and "hd t = CHR 0x7B"
    and "x_json_parse x t = Some (VMap [(''_format'', VStr signed_format), (''signature'', VInt 0)])"
  shows "xorDecrypt x ev body key = Some t"
proof -
  have "decode_envelope (VMap [(''_format'', VStr signed_format), (''signature'', VInt 0)]) = None"
    by code_simp
  then show ?thesis using assms by (simp add: xorDecrypt_def Let_def)
qed

section \<open>The cache\<close>

lemma fetch_group_source:
  assumes "fetchOSSGroup x ev send arrivals extra urls key = Some r"
  obtains i url where "oss_source x ev send key i url = Some r"
proof -
  let ?rs = "map (\<lambda>i. oss_source x ev send key i (urls ! i)) arrivals"
  have "fold better (until_settled extra ?rs) None = Some r"
    using assms by (simp add: fetchOSSGroup_def split: if_splits)
  then have "Some r \<in> set (until_settled extra ?rs)"
    using fold_better [where rs = "until_settled extra ?rs" and best = None] by simp
  then have "Some r \<in> set ?rs" using set_until_settled by blast
  with that show thesis by (auto simp: image_iff dest: sym)
qed

lemma fetch_rounds_source:
  assumes "fetch_rounds x ev send round1 round2 key = Some r"
  obtains i url where "oss_source x ev send key i url = Some r"
  using assms by (auto simp: fetch_rounds_def Let_def split: option.splits if_splits elim: fetch_group_source)

lemma oss_source_extract:
  "oss_source x ev send key i url = Some r \<Longrightarrow>
     extractOSSConfig x ev (or_decrypted r) = Some (or_domains r, or_gatewayURLs r, or_configVersion r)"
  by (auto simp: oss_source_def split: option.splits prod.splits)

lemma extract_nonempty: "extractOSSConfig x ev [] = None"
proof -
  have "leftmost (match_array ''domains'') [] = None" by code_simp
  then show ?thesis by (simp add: extractOSSConfig_def extract_list_def Let_def)
qed

lemma loadCached_extract:
  "loadCachedOSSResult x ev (Some data) = Some c \<longleftrightarrow>
     (\<exists>d g v. extractOSSConfig x ev data = Some (d, g, v) \<and>
        c = \<lparr>or_domains = d, or_gatewayURLs = g, or_configVersion = v, or_decrypted = data,
             or_source = ''local_cache'', or_index = 0\<rparr>)"
  by (auto simp: loadCachedOSSResult_def split: option.splits)

text \<open>
  Property C40. The cached bundle never goes back: a refresh either leaves the cache file as it is, or
  replaces it by a bundle that loads again, has a strictly newer version than the cached
  one had, has a reachable route, and is the one the gateway uses from then on.
\<close>

theorem cache_never_downgraded:
  assumes "fetchBusinessBaseURLs x ev send round1 round2 in_time written file = (urls, file')"
  shows "file' = file \<or>
    (\<exists>r. loadCachedOSSResult x ev file' = Some r \<and> urls = (or_domains r, or_gatewayURLs r) \<and>
       anyOSSBusinessRouteHealthy x ev send (or_domains r) \<and>
       (\<forall>c. loadCachedOSSResult x ev file = Some c \<longrightarrow>
          compareConfigVersions (or_configVersion c) (or_configVersion r) < 0))"
proof (cases "file' = file")
  case False
  let ?key = "env ev ''DG_OSS_XOR_KEY'' []"
  obtain r where r: "fetch_rounds x ev send round1 round2 ?key = Some r"
    "anyOSSBusinessRouteHealthy x ev send (or_domains r)"
    "\<forall>c. loadCachedOSSResult x ev file = Some c \<longrightarrow>
          compareConfigVersions (or_configVersion c) (or_configVersion r) < 0"
    "urls = (or_domains r, or_gatewayURLs r)" "file' = persistOSSConfigCache written (or_decrypted r) file"
    using assms False
    by (auto simp: fetchBusinessBaseURLs_def Let_def split: if_splits option.splits)
  from r(1) obtain i url where "oss_source x ev send ?key i url = Some r" by (rule fetch_rounds_source)
  then have e: "extractOSSConfig x ev (or_decrypted r) = Some (or_domains r, or_gatewayURLs r, or_configVersion r)"
    by (rule oss_source_extract)
  have "file' = Some (or_decrypted r)" using r(5) False by (simp add: persistOSSConfigCache_def split: if_splits)
  then have "\<exists>c. loadCachedOSSResult x ev file' = Some c \<and> or_domains c = or_domains r \<and>
      or_gatewayURLs c = or_gatewayURLs r \<and> or_configVersion c = or_configVersion r"
    using e by (simp add: loadCachedOSSResult_def)
  with r show ?thesis by metis
qed simp

theorem cache_never_downgraded_witness:
  "\<exists>urls file'. fetchBusinessBaseURLs demo_oss demo_env demo_send ([0, 1], 1) ([], 0) True True None = (urls, file') \<and>
     (\<exists>r. loadCachedOSSResult demo_oss demo_env file' = Some r \<and>
        anyOSSBusinessRouteHealthy demo_oss demo_env demo_send (or_domains r))"
proof -
  obtain urls file' where run: "fetchBusinessBaseURLs demo_oss demo_env demo_send ([0, 1], 1) ([], 0) True True None =
      (urls, file')" by fastforce
  have "snd (fetchBusinessBaseURLs demo_oss demo_env demo_send ([0, 1], 1) ([], 0) True True None) \<noteq> None"
    by code_simp
  with run have "file' \<noteq> None" by simp
  with cache_never_downgraded [OF run] run show ?thesis by blast
qed

text \<open>
  Every route the gateway takes over was reachable when it was probed: the domains
  \<open>fetchBusinessBaseURLs\<close> returns are none at all, or one of them answered with a 2xx status.
\<close>

theorem routes_were_reachable:
  "fst (fst (fetchBusinessBaseURLs x ev send round1 round2 in_time written file)) = [] \<or>
   anyOSSBusinessRouteHealthy x ev send
     (fst (fst (fetchBusinessBaseURLs x ev send round1 round2 in_time written file)))"
  by (auto simp: fetchBusinessBaseURLs_def Let_def split: option.splits if_splits)

section \<open>Start-up\<close>

lemma keep_new_urls_set:
  "set (keep_new_urls seen items) = {u. u \<noteq> [] \<and> (\<exists>i \<in> set items. u = trim_right (trim_space i) ''/'')} - set seen"
proof (induction items arbitrary: seen)
  case Nil
  then show ?case by simp
next
  case (Cons item items)
  then show ?case by (auto simp: Let_def Cons)
qed

lemma keep_new_urls_distinct: "distinct (keep_new_urls seen items)"
  by (induction items arbitrary: seen) (simp_all add: Let_def keep_new_urls_set)

text \<open>
  The list of URLs read from the environment has no duplicates and no empty entries, none ends
  with a slash, and it holds exactly the entries of the text, trimmed.
\<close>

theorem split_urls_normal:
  "distinct (splitAndNormalizeURLs raw) \<and>
   set (splitAndNormalizeURLs raw) =
     {u. u \<noteq> [] \<and> last u \<noteq> CHR ''/'' \<and> (\<exists>i \<in> set (split_on CHR '','' raw). u = trim_right (trim_space i) ''/'')}"
proof -
  have "last (trim_right (trim_space i) ''/'') \<noteq> CHR ''/''" if "trim_right (trim_space i) ''/'' \<noteq> []" for i
    using trim_right_no_suffix [OF that] by simp
  then show ?thesis unfolding splitAndNormalizeURLs_def keep_new_urls_set by (auto simp: keep_new_urls_distinct)
qed

text \<open>
  A configuration the gateway starts with is usable: it has a business URL and all of them are
  valid, the API prefix is neither empty nor ends with a slash, the device policy is one of
  the two, and the token secret is not empty.
\<close>

theorem started_config_usable:
  assumes "loadConfig x ev fetched = Inr cfg"
  shows "cfg_BusinessBaseURLs cfg \<noteq> [] \<and> list_all (ev_uri_ok ev) (cfg_BusinessBaseURLs cfg) \<and>
    cfg_APIPrefix cfg \<noteq> [] \<and> last (cfg_APIPrefix cfg) \<noteq> CHR ''/'' \<and>
    cfg_DevicePolicy cfg \<in> {policyStrict, policyKickOldest} \<and> cfg_TokenSecret cfg \<noteq> [] \<and>
    cfg_ListenAddr cfg \<noteq> [] \<and> cfg_DataFile cfg \<noteq> []"
proof -
  define pre where "pre = trim_right (env ev ''DG_API_PREFIX'' ''/api/v1'') ''/''"
  define pre1 where "pre1 = (if pre = [] then ''/api/v1'' else pre)"
  have pre1: "pre1 \<noteq> [] \<and> last pre1 \<noteq> CHR ''/''"
    using trim_right_no_suffix [of "env ev ''DG_API_PREFIX'' ''/api/v1''" "''/''"] by (auto simp: pre1_def pre_def)
  have sec: "token_secret ev \<noteq> []" by (simp add: token_secret_def Let_def)
  have e: "env ev k d \<noteq> []" if "d \<noteq> []" for k d using that by (simp add: env_def)
  define base where "base = (if fst fetched = [] then seed_urls ev else fst fetched)"
  define policy where "policy = env ev ''DG_DEVICE_POLICY'' policyStrict"
  have p: "policy = policyStrict \<or> policy = policyKickOldest"
    using assms by (auto simp: loadConfig_def policy_def [symmetric] Let_def split: if_splits)
  have b: "base \<noteq> []"
    using assms p by (auto simp: loadConfig_def policy_def [symmetric] base_def [symmetric] Let_def split: if_splits)
  have ok: "find (\<lambda>u. \<not> ev_uri_ok ev u) base = None"
    using assms p b
    by (cases "find (\<lambda>u. \<not> ev_uri_ok ev u) base")
      (auto simp: loadConfig_def policy_def [symmetric] base_def [symmetric] Let_def)
  have "cfg_BusinessBaseURLs cfg = base" "cfg_APIPrefix cfg = pre1" "cfg_DevicePolicy cfg = policy"
    "cfg_TokenSecret cfg = token_secret ev" "cfg_ListenAddr cfg = env ev ''DG_LISTEN_ADDR'' '':8787''"
    "cfg_DataFile cfg = env ev ''DG_DATA_FILE'' ''./data/device-gateway.json''"
    using assms p b ok
    by (auto simp: loadConfig_def policy_def [symmetric] base_def [symmetric] pre_def [symmetric]
        pre1_def [symmetric] Let_def)
  then show ?thesis using pre1 sec e p b ok by (auto simp: find_None_iff list_all_iff)
qed

theorem started_config_usable_witness:
  "\<exists>cfg. loadConfig demo_ext demo_env ([''a''], []) = Inr cfg \<and> cfg_TokenSecret cfg \<noteq> [] \<and> cfg_APIPrefix cfg \<noteq> []"
proof -
  have "case loadConfig demo_ext demo_env ([''a''], []) of Inr cfg \<Rightarrow> True | Inl e \<Rightarrow> False" by code_simp
  then obtain cfg where "loadConfig demo_ext demo_env ([''a''], []) = Inr cfg" by (auto split: sum.splits)
  with started_config_usable [OF this] show ?thesis by blast
qed

end
