(* ===== verification/AdminHealthProps.thy ===== *)
theory AdminHealthProps
  imports AdminHealth OssProps
begin

text \<open>
  The properties of the health report: the exchange sort is a sort, so items come in the order of
  the configuration whatever the order of delivery; the summaries count what they say; and a
  mirror is reported healthy exactly when the gateway would take its bundle.
\<close>

section \<open>The exchange sort\<close>

lemma exchange_step_mset: "i < length xs \<Longrightarrow> j < length xs \<Longrightarrow> mset (exchange_step f i j xs) = mset xs"
  by (simp add: exchange_step_def mset_swap)

lemma exchange_step_length [simp]: "length (exchange_step f i j xs) = length xs"
  by (simp add: exchange_step_def)

lemma exchange_step_nth:
  assumes "i < j" and "j < length xs" and "k < length xs"
  shows "exchange_step f i j xs ! k =
    (if k = i then (if f (xs ! j) < f (xs ! i) then xs ! j else xs ! i)
     else if k = j then (if f (xs ! j) < f (xs ! i) then xs ! i else xs ! j) else xs ! k)"
  using assms by (auto simp: exchange_step_def nth_list_update)

text \<open>
  The first \<open>n\<close> positions of the inner loop: position \<open>i\<close> holds a least element of those looked at,
  what is before \<open>i\<close> and from \<open>n\<close> on is untouched.
\<close>

definition row_done :: "('a \<Rightarrow> int) \<Rightarrow> nat \<Rightarrow> nat \<Rightarrow> 'a list \<Rightarrow> 'a list \<Rightarrow> bool" where
  "row_done f i n xs ys =
     (length ys = length xs \<and> mset ys = mset xs \<and> (\<forall>k<i. ys ! k = xs ! k) \<and>
      (\<forall>k. i < k \<longrightarrow> k < n \<longrightarrow> f (ys ! i) \<le> f (ys ! k)) \<and>
      (\<forall>k. n \<le> k \<longrightarrow> k < length xs \<longrightarrow> ys ! k = xs ! k))"

lemma row_done_step:
  assumes "row_done f i n xs ys" and "i < n" and "n < length xs"
  shows "row_done f i (Suc n) xs (exchange_step f i n ys)"
proof -
  have len: "length ys = length xs" and mins: "\<And>k. i < k \<Longrightarrow> k < n \<Longrightarrow> f (ys ! i) \<le> f (ys ! k)"
    and rest: "mset ys = mset xs" "\<And>k. k < i \<Longrightarrow> ys ! k = xs ! k" "\<And>k. n \<le> k \<Longrightarrow> k < length xs \<Longrightarrow> ys ! k = xs ! k"
    using assms(1) by (simp_all add: row_done_def)
  note nth = exchange_step_nth [OF assms(2), of ys]
  let ?zs = "exchange_step f i n ys"
  have "f (?zs ! i) \<le> f (?zs ! k)" if "i < k" "k < Suc n" for k
  proof (cases "k = n")
    case True
    then show ?thesis using assms(2,3) len by (simp add: nth)
  next
    case False
    then have "f (ys ! i) \<le> f (ys ! k)" using that mins by simp
    then show ?thesis using False that assms(2,3) len by (simp add: nth)
  qed
  then show ?thesis using assms(2,3) len rest by (auto simp: row_done_def nth exchange_step_mset)
qed

lemma exchange_row_done:
  assumes "Suc i \<le> n" and "n \<le> length xs"
  shows "row_done f i n xs (fold (exchange_step f i) [Suc i ..< n] xs)"
  using assms
proof (induction n rule: dec_induct)
  case base
  then show ?case by (simp add: row_done_def)
next
  case (step n)
  then show ?case using row_done_step [of f i n xs] by (simp add: upt_Suc_append)
qed

text \<open>After \<open>i\<close> rows the first \<open>i\<close> positions are sorted and no later element is smaller.\<close>

definition rows_done :: "('a \<Rightarrow> int) \<Rightarrow> nat \<Rightarrow> 'a list \<Rightarrow> 'a list \<Rightarrow> bool" where
  "rows_done f i xs ys =
     (length ys = length xs \<and> mset ys = mset xs \<and>
      (\<forall>j k. j < i \<longrightarrow> j < k \<longrightarrow> k < length xs \<longrightarrow> f (ys ! j) \<le> f (ys ! k)))"

lemma row_done_le:
  assumes "row_done f i (length xs) xs ys" and "i < length xs" and "i < k" and "k < length xs"
    and "\<And>m. i \<le> m \<Longrightarrow> m < length xs \<Longrightarrow> a \<le> f (xs ! m)"
  shows "a \<le> f (ys ! k)"
proof -
  have "mset (drop i ys) = mset (drop i xs)"
  proof -
    have "take i ys = take i xs" using assms(1,2) by (intro nth_equalityI) (simp_all add: row_done_def)
    then show ?thesis using assms(1)
      by (metis append_take_drop_id mset_append row_done_def union_left_cancel)
  qed
  moreover have "ys ! k \<in> set (drop i ys)"
    using assms(1,3,4) nth_mem [of "k - i" "drop i ys"] by (simp add: row_done_def)
  ultimately have "ys ! k \<in> set (drop i xs)" by (metis mset_eq_setD)
  then obtain m where "m < length (drop i xs)" "ys ! k = drop i xs ! m" by (auto simp: in_set_conv_nth)
  then show ?thesis using assms(5) [of "i + m"] assms(2) by simp
qed

lemma rows_done_step:
  assumes "rows_done f i xs ys" and "i < length xs"
  shows "rows_done f (Suc i) xs (exchange_row f i ys)"
proof -
  have len: "length ys = length xs" and ms: "mset ys = mset xs"
    and ord: "\<And>j k. j < i \<Longrightarrow> j < k \<Longrightarrow> k < length xs \<Longrightarrow> f (ys ! j) \<le> f (ys ! k)"
    using assms(1) by (simp_all add: rows_done_def)
  let ?zs = "exchange_row f i ys"
  have row: "row_done f i (length ys) ys ?zs"
    unfolding exchange_row_def by (rule exchange_row_done) (use assms(2) len in simp_all)
  then have z: "length ?zs = length ys" "mset ?zs = mset ys" "\<And>k. k < i \<Longrightarrow> ?zs ! k = ys ! k"
      "\<And>k. i < k \<Longrightarrow> k < length ys \<Longrightarrow> f (?zs ! i) \<le> f (?zs ! k)"
    by (simp_all add: row_done_def)
  have at_i: "f (ys ! j) \<le> f (?zs ! i)" if "j < i" for j
  proof -
    have "?zs ! i \<in> set (drop i ?zs)" using assms(2) len z(1) nth_mem [of 0 "drop i ?zs"] by simp
    moreover have "mset (drop i ?zs) = mset (drop i ys)"
    proof -
      have "take i ?zs = take i ys" using z(1,3) assms(2) len by (intro nth_equalityI) simp_all
      then show ?thesis using z(2) by (metis append_take_drop_id mset_append union_left_cancel)
    qed
    ultimately have "?zs ! i \<in> set (drop i ys)" by (metis mset_eq_setD)
    then obtain m where "m < length (drop i ys)" "?zs ! i = drop i ys ! m" by (auto simp: in_set_conv_nth)
    then show ?thesis using ord [of j "i + m"] that len assms(2) by simp
  qed
  have "f (?zs ! j) \<le> f (?zs ! k)" if jk: "j < Suc i" "j < k" "k < length xs" for j k
  proof (cases "j = i")
    case True
    then show ?thesis using z(4) jk len by simp
  next
    case False
    then have j: "j < i" using jk by simp
    show ?thesis
    proof (cases k i rule: linorder_cases)
      case less
      then show ?thesis using ord [OF j jk(2,3)] z(3) j by simp
    next
      case equal
      then show ?thesis using at_i [OF j] z(3) [OF j] by simp
    next
      case greater
      have "f (ys ! j) \<le> f (?zs ! k)"
        by (rule row_done_le [OF row _ greater]) (use assms(2) len jk ord j in auto)
      then show ?thesis using z(3) [OF j] by simp
    qed
  qed
  then show ?thesis using z len ms by (simp add: rows_done_def)
qed

lemma exchange_sort_done: "n \<le> length xs \<Longrightarrow> rows_done f n xs (fold (exchange_row f) [0 ..< n] xs)"
proof (induction n)
  case 0
  then show ?case by (simp add: rows_done_def)
next
  case (Suc n)
  then show ?case using rows_done_step [of f n xs] by simp
qed

lemma exchange_sort_sorted:
  "mset (exchange_sort f xs) = mset xs" "sorted (map f (exchange_sort f xs))"
  using exchange_sort_done [of "length xs" xs f]
  by (simp_all add: rows_done_def exchange_sort_def sorted_iff_nth_mono_less)

text \<open>With distinct keys the exchange sort gives the same list as the library's sort.\<close>

lemma exchange_sort_unique:
  assumes "mset xs = mset ys" and "sorted (map f ys)" and "distinct (map f ys)"
  shows "exchange_sort f xs = ys"
proof -
  have "sort_slice (\<lambda>a b. f a < f b) (exchange_sort f xs) = ys"
    using assms exchange_sort_sorted(1) [of f xs] by (intro sort_slice_unique) simp_all
  moreover have "sort_slice (\<lambda>a b. f a < f b) (exchange_sort f xs) = exchange_sort f xs"
  proof (rule sort_slice_unique)
    have "mset (map f (exchange_sort f xs)) = mset (map f ys)"
      using assms(1) exchange_sort_sorted(1) [of f xs] by simp
    then show "distinct (map f (exchange_sort f xs))" using assms(3) by (metis mset_eq_imp_distinct_iff)
  qed (simp_all add: exchange_sort_sorted)
  ultimately show ?thesis by simp
qed

section \<open>Order and counts\<close>

lemma gateway_index [simp]: "ah_Index (probeAdminGateway x cfg errText send now i address) = int i + 1"
  by (auto simp: probeAdminGateway_def new_item_def Let_def split: option.splits net_reply.splits prod.splits)

text \<open>
  The gateways are reported in the order of the configuration, one item each, whatever the
  order in which the concurrent probes deliver.
\<close>

theorem gateways_in_order:
  assumes "mset arrivals = mset [0 ..< length (cfg_GatewayURLs cfg)]"
  shows "probeAdminGateways x cfg errText send clock arrivals =
    map (\<lambda>i. probeAdminGateway x cfg errText (send i) (clock i) i (cfg_GatewayURLs cfg ! i))
      [0 ..< length (cfg_GatewayURLs cfg)]"
  unfolding probeAdminGateways_def sortAdminHealthItems_def
proof (rule exchange_sort_unique)
  let ?p = "\<lambda>i. probeAdminGateway x cfg errText (send i) (clock i) i (cfg_GatewayURLs cfg ! i)"
  show "mset (map ?p arrivals) = mset (map ?p [0 ..< length (cfg_GatewayURLs cfg)])"
    using assms by (simp only: mset_map)
  show "sorted (map ah_Index (map ?p [0 ..< length (cfg_GatewayURLs cfg)]))"
    by (simp add: sorted_iff_nth_mono_less)
  show "distinct (map ah_Index (map ?p [0 ..< length (cfg_GatewayURLs cfg)]))"
    by (simp add: distinct_map inj_on_def)
qed

theorem gateways_in_order_witness:
  "map ah_Index (probeAdminGateways demo_ext (demo_cfg\<lparr>cfg_GatewayURLs := [''g'', ''h'']\<rparr>) (\<lambda>k. [])
     (\<lambda>i req. (NetError, 0)) (\<lambda>i. 5) [1, 0]) = [1, 2]"
proof -
  have "mset [1, 0] = mset [0 ..< length (cfg_GatewayURLs (demo_cfg\<lparr>cfg_GatewayURLs := [''g'', ''h'']\<rparr>))]"
    by (simp add: upt_rec)
  from gateways_in_order [OF this, of demo_ext "\<lambda>k. []" "\<lambda>i req. (NetError, 0)" "\<lambda>i. 5"]
  show ?thesis by (simp add: upt_rec)
qed

text \<open>
  The report agrees with the gateway: with a key configured a mirror is healthy exactly when the
  fetch of the route bundle would accept the same reply, and then the reported lists and
  version are the ones the gateway would use.
\<close>

theorem mirror_health_agrees:
  assumes "key \<noteq> []"
  shows "let p = probeAdminOSSSource x ev errText send now index name role address key;
             found = oss_source x ev (\<lambda>req. fst (send req)) key i address
    in (ah_Status (op_item p) = ''healthy'' \<longleftrightarrow> found \<noteq> None) \<and>
       (case found of None \<Rightarrow> op_domains p = [] \<and> op_gatewayURLs p = []
        | Some r \<Rightarrow> op_domains p = or_domains r \<and> op_gatewayURLs p = or_gatewayURLs r \<and>
            ah_ConfigVersion (op_item p) = or_configVersion r)"
proof (cases "new_request x ''GET'' address [] []")
  case None
  then show ?thesis using assms
    by (simp add: probeAdminOSSSource_def oss_source_def downloadOSS_def bad_probe_def Let_def)
next
  case (Some req)
  obtain rep latency where s: "send req = (rep, latency)" by fastforce
  show ?thesis
  proof (cases rep)
    case (NetReply code h body)
    show ?thesis
    proof (cases "code = 200 \<and> body \<noteq> None")
      case True
      then obtain b where b: "body = Some b" by auto
      show ?thesis
        using assms Some s NetReply True b
        by (cases "xorDecrypt x ev (limit_bytes 1048576 b) key")
          (auto simp: probeAdminOSSSource_def oss_source_def downloadOSS_def bad_probe_def ok_probe_def Let_def
            split: option.splits prod.splits)
    next
      case False
      then show ?thesis using assms Some s NetReply
        by (cases body) (auto simp: probeAdminOSSSource_def oss_source_def downloadOSS_def bad_probe_def Let_def)
    qed
  qed (use assms Some s in \<open>simp_all add: probeAdminOSSSource_def oss_source_def downloadOSS_def bad_probe_def Let_def\<close>)
qed

theorem mirror_health_agrees_witness:
  "ah_Status (op_item (probeAdminOSSSource demo_oss demo_env (\<lambda>k. []) (\<lambda>req. (demo_send req, 3)) 5 1 ''source_0''
     ''primary'' ''m'' ''k'')) = ''healthy''"
proof -
  have "case oss_source demo_oss demo_env demo_send ''k'' 0 ''m'' of Some r \<Rightarrow> True | None \<Rightarrow> False" by code_simp
  then have "oss_source demo_oss demo_env demo_send ''k'' 0 ''m'' \<noteq> None" by (auto split: option.splits)
  with mirror_health_agrees [of "''k''" demo_oss demo_env "\<lambda>k. []" "\<lambda>req. (demo_send req, 3)" 5 1 "''source_0''"
      "''primary''" "''m''" 0]
  show ?thesis by (simp add: Let_def)
qed

text \<open>The counters as lengths.\<close>

definition counted :: "bool \<Rightarrow> adminEndpointHealthItem \<Rightarrow> bool" where
  "counted excludeCache item = (\<not> (excludeCache \<and> ah_Role item = ''cache''))"

lemma summarize_from_count:
  "summarize_from e items s =
     \<lparr>hs_Healthy = hs_Healthy s +
        int (length (filter (\<lambda>i. counted e i \<and> ah_Status i \<in> {''healthy'', ''recovering''}) items)),
      hs_Total = hs_Total s + int (length (filter (counted e) items))\<rparr>"
  by (induction e items s rule: summarize_from.induct) (auto simp: counted_def Let_def)

lemma probe_role [simp]:
  "ah_Role (op_item (probeAdminOSSSource x ev errText send now index name role address key)) = role"
  by (auto simp: probeAdminOSSSource_def bad_probe_def ok_probe_def new_item_def Let_def
      split: option.splits net_reply.splits prod.splits)

lemma cache_role [simp]: "ah_Role (op_item (probeAdminOSSCache x ev errText file now)) = ''cache''"
  by (auto simp: probeAdminOSSCache_def bad_probe_def ok_probe_def new_item_def Let_def
      split: option.splits file_read.splits prod.splits)

lemma mark_current_role [simp]: "ah_Role (mark_current cfg p) = ah_Role (op_item p)"
  by (simp add: mark_current_def)

lemma source_roles: "(index, name, role, address) \<in> set (oss_sources ev) \<Longrightarrow> role \<noteq> ''cache''"
  by (auto simp: oss_sources_def Let_def split: if_splits)

text \<open>
  The summary of the mirrors counts the configured sources, the emergency one included and the
  cache left out, and never more healthy ones than there are.
\<close>

theorem oss_summary_counts:
  fixes x :: ext and cfg :: Config and ev :: Environ and errText :: "string \<Rightarrow> string"
    and send :: "nat \<Rightarrow> breq \<Rightarrow> net_reply \<times> int" and clock :: "nat \<Rightarrow> time" and arrivals :: "nat list"
    and fl :: "file_read \<times> int" and t_cache :: time
  assumes "mset arrivals = mset [0 ..< length (oss_sources ev)]"
  defines "items \<equiv> probeAdminOSS x cfg ev errText send clock arrivals fl t_cache"
  shows "hs_Total (summarizeAdminEndpointHealth items True) = int (length (oss_sources ev)) \<and>
    hs_Healthy (summarizeAdminEndpointHealth items True) \<le> hs_Total (summarizeAdminEndpointHealth items True) \<and>
    length items = Suc (length (oss_sources ev)) \<and> ah_Role (last items) = ''cache''"
proof -
  define probe where "probe = (\<lambda>i. case oss_sources ev ! i of (index, name, role, address) \<Rightarrow>
      probeAdminOSSSource x ev errText (send i) (clock i) index name role address (env ev ''DG_OSS_XOR_KEY'' []))"
  define probes where "probes = sortAdminOSSProbeResults (map probe arrivals)"
  define cache where "cache = (let c = probeAdminOSSCache x ev errText fl t_cache
      in c\<lparr>op_item := (op_item c)\<lparr>ah_Index := int (length probes) + 1\<rparr>\<rparr>)"
  have items: "items = map (mark_current cfg) (probes @ [cache])"
    by (simp add: items_def probeAdminOSS_def probes_def probe_def cache_def Let_def)
  have cr: "ah_Role (op_item cache) = ''cache''" by (simp add: cache_def Let_def)
  have m: "mset probes = image_mset probe (mset arrivals)"
    by (simp add: probes_def sortAdminOSSProbeResults_def exchange_sort_sorted)
  have len: "length probes = length (oss_sources ev)"
    using assms(1) m by (metis length_upt minus_nat.diff_0 size_image_mset size_mset)
  have nc: "ah_Role (op_item p) \<noteq> ''cache''" if "p \<in> set probes" for p
  proof -
    from that have "p \<in># image_mset probe (mset arrivals)" using m by (metis set_mset_mset)
    then obtain i where i: "i \<in> set arrivals" "p = probe i" by auto
    then have "i < length (oss_sources ev)" using assms(1) by (metis atLeastLessThan_iff mset_eq_setD set_upt)
    then have "oss_sources ev ! i \<in> set (oss_sources ev)" by simp
    then show ?thesis using i(2) source_roles by (auto simp: probe_def split: prod.splits)
  qed
  have f: "filter (counted True) items = map (mark_current cfg) probes"
    using nc cr by (simp add: items counted_def filter_map o_def)
  have "length (filter (\<lambda>i. counted True i \<and> ah_Status i \<in> {''healthy'', ''recovering''}) items) \<le>
      length (filter (counted True) items)"
    using length_filter_le [of "\<lambda>i. ah_Status i \<in> {''healthy'', ''recovering''}" "filter (counted True) items"]
    by (simp add: conj_commute)
  moreover have "length items = Suc (length (oss_sources ev))" "ah_Role (last items) = ''cache''"
    using len cr by (simp_all add: items)
  moreover have "length (filter (counted True) items) = length (oss_sources ev)" using f len by simp
  ultimately show ?thesis by (simp add: summarizeAdminEndpointHealth_def summarize_from_count)
qed

theorem oss_summary_counts_witness:
  "hs_Total (summarizeAdminEndpointHealth (probeAdminOSS demo_oss demo_cfg demo_env (\<lambda>k. [])
     (\<lambda>i req. (demo_send req, 3)) (\<lambda>i. 5) [2, 0, 1] (FileMissing, 0) 5) True) = 3"
proof -
  have n: "length (oss_sources demo_env) = 3" by code_simp
  then have "mset [2, 0, 1] = mset [0 ..< length (oss_sources demo_env)]" by (simp add: upt_rec)
  from oss_summary_counts [OF this, of demo_oss demo_cfg "\<lambda>k. []" "\<lambda>i req. (demo_send req, 3)" "\<lambda>i. 5"
      "(FileMissing, 0)" 5] n
  show ?thesis by simp
qed

end
