(* ===== verification/CoreConfig.thy ===== *)
theory CoreConfig
  imports GoStd
begin

text \<open>
  The configuration of the proxy core as the Go layer in \<open>src/core\<close> manages it:
  initialisation, the listeners, applying a profile (\<open>setupConfig\<close>) and changing a running
  one (\<open>updateConfig\<close>) of \<open>common.go\<close> and \<open>hub.go\<close>, and the overrides of \<open>lib_ios.go\<close>. What
  these functions ask of the vendored proxy core is recorded as a list of calls.
\<close>

section \<open>State\<close>

record TunCfg =
  tn_Enable :: bool
  tn_Device :: string
  tn_Stack :: int
  tn_DNSHijack :: "string list"
  tn_AutoRoute :: bool
  tn_RouteAddress :: "string list"

text \<open>The fields of \<open>config.General\<close> the layer reads or writes; foreign records are texts.\<close>

record General =
  gn_Port :: int
  gn_SocksPort :: int
  gn_RedirPort :: int
  gn_TProxyPort :: int
  gn_MixedPort :: int
  gn_AllowLan :: bool
  gn_SkipAuthPrefixes :: "string list"
  gn_LanAllowedIPs :: "string list"
  gn_LanDisAllowedIPs :: "string list"
  gn_BindAddress :: string
  gn_ShadowSocksConfig :: string
  gn_VmessConfig :: string
  gn_TuicServer :: string
  gn_Tun :: TunCfg
  gn_Mode :: int
  gn_LogLevel :: int
  gn_IPv6 :: bool
  gn_Interface :: string
  gn_Sniffing :: bool
  gn_FindProcessMode :: int
  gn_TCPConcurrent :: bool
  gn_UnifiedDelay :: bool

text \<open>\<open>config.Config\<close>; a pointer that may be nil is an option.\<close>

record CoreCfg =
  cc_General :: "General option"
  cc_Controller :: "string option"
  cc_Listeners :: "string gomap"

text \<open>What the layer calls in the vendored core, with the arguments that matter.\<close>

datatype core_call =
    CSetHomeDir string
  | CResetConnection
  | CShutdown
  | CGC
  | CCloseListener string
  | CUpdateListeners
  | CPatchInboundListeners "string gomap"
  | CSetAllowLan bool
  | CSetSkipAuthPrefixes "string list"
  | CSetAllowedIPs "string list"
  | CSetDisAllowedIPs "string list"
  | CSetBindAddress string
  | CReCreateHTTP int
  | CReCreateSocks int
  | CReCreateRedir int
  | CReCreateTProxy int
  | CReCreateMixed int
  | CReCreateShadowSocks string
  | CReCreateVmess string
  | CReCreateTuic string
  | CReCreateTun TunCfg
  | CSetSniffing bool
  | CSetFindProcessMode int
  | CSetTcpConcurrent bool
  | CSetDefaultInterface string
  | CSetUnifiedDelay bool
  | CSetMode int
  | CSetLevel int
  | CDisableIPv6 bool
  | CReCreateServer string
  | CApplyConfig CoreCfg
  | CForceSet string string

text \<open>The package variables of \<open>common.go\<close> and \<open>hub.go\<close>, and the calls made so far.\<close>

record Core =
  co_config :: "CoreCfg option"
  co_version :: int
  co_isRunning :: bool
  co_isInit :: bool
  co_testURL :: string
  co_calls :: "core_call list"

text \<open>A function that returns, or runs into a nil pointer.\<close>

datatype 'a outcome = Returned 'a | Panicked

definition emit :: "core_call list \<Rightarrow> Core \<Rightarrow> Core" where
  "emit cs s = s\<lparr>co_calls := co_calls s @ cs\<rparr>"

section \<open>Listeners\<close>

text \<open>The calls of \<open>updateListeners\<close> on a configuration; \<open>goos\<close> is \<open>runtime.GOOS\<close>.\<close>

definition listener_calls :: "string \<Rightarrow> General \<Rightarrow> core_call list" where
  "listener_calls goos g =
     [CSetAllowLan (gn_AllowLan g), CSetSkipAuthPrefixes (gn_SkipAuthPrefixes g),
      CSetAllowedIPs (gn_LanAllowedIPs g), CSetDisAllowedIPs (gn_LanDisAllowedIPs g),
      CSetBindAddress (gn_BindAddress g), CReCreateHTTP (gn_Port g), CReCreateSocks (gn_SocksPort g),
      CReCreateRedir (gn_RedirPort g), CReCreateTProxy (gn_TProxyPort g),
      CReCreateMixed (gn_MixedPort g), CReCreateShadowSocks (gn_ShadowSocksConfig g),
      CReCreateVmess (gn_VmessConfig g), CReCreateTuic (gn_TuicServer g)] @
     (if goos \<noteq> ''android'' then [CReCreateTun (gn_Tun g)] else [])"

definition updateListeners :: "string \<Rightarrow> Core \<Rightarrow> unit outcome \<times> Core" where
  "updateListeners goos s =
     (if \<not> co_isRunning s then (Returned (), s)
      else (case co_config s of
              None \<Rightarrow> (Returned (), s)
            | Some cfg \<Rightarrow>
                let s1 = emit [CPatchInboundListeners (cc_Listeners cfg)] s in
                (case cc_General cfg of
                   None \<Rightarrow> (Panicked, s1)
                 | Some g \<Rightarrow> (Returned (), emit (listener_calls goos g) s1))))"

text \<open>\<open>inbounds\<close> are the names of \<open>tunnel.Listeners()\<close>.\<close>

definition stopListeners :: "string list \<Rightarrow> Core \<Rightarrow> Core" where
  "stopListeners inbounds s = emit (map CCloseListener inbounds @ [CUpdateListeners]) s"

definition handleStartListener :: "string \<Rightarrow> Core \<Rightarrow> bool outcome \<times> Core" where
  "handleStartListener goos s =
     (case updateListeners goos (s\<lparr>co_isRunning := True\<rparr>) of
        (Panicked, s1) \<Rightarrow> (Panicked, s1)
      | (Returned _, s1) \<Rightarrow> (Returned True, emit [CResetConnection] s1))"

definition handleStopListener :: "string list \<Rightarrow> Core \<Rightarrow> bool \<times> Core" where
  "handleStopListener inbounds s = (True, stopListeners inbounds (s\<lparr>co_isRunning := False\<rparr>))"

section \<open>Start and shutdown\<close>

record InitParams =
  ip_HomeDir :: string
  ip_Version :: int

text \<open>\<open>params\<close> is the decoded text, \<open>None\<close> when it does not decode.\<close>

definition handleInitClash :: "InitParams option \<Rightarrow> Core \<Rightarrow> bool \<times> Core" where
  "handleInitClash params s =
     (case params of
        None \<Rightarrow> (False, s)
      | Some p \<Rightarrow>
          let s1 = s\<lparr>co_version := ip_Version p\<rparr>;
              s2 = (if co_isInit s1 then s1
                    else (emit [CSetHomeDir (ip_HomeDir p)] s1)\<lparr>co_isInit := True\<rparr>)
          in (co_isInit s2, s2))"

definition handleShutdown :: "string list \<Rightarrow> Core \<Rightarrow> bool \<times> Core" where
  "handleShutdown inbounds s =
     (True, (emit [CShutdown, CGC] (stopListeners inbounds s))\<lparr>co_isInit := False\<rparr>)"

section \<open>Changing the configuration\<close>

record tunSchema =
  ts_Enable :: bool
  ts_Device :: "string option"
  ts_Stack :: "int option"
  ts_DNSHijack :: "string list option"
  ts_AutoRoute :: "bool option"
  ts_RouteAddress :: "string list option"

record UpdateParams =
  up_Tun :: "tunSchema option"
  up_AllowLan :: "bool option"
  up_MixedPort :: "int option"
  up_FindProcessMode :: "int option"
  up_Mode :: "int option"
  up_LogLevel :: "int option"
  up_IPv6 :: "bool option"
  up_Sniffing :: "bool option"
  up_TCPConcurrent :: "bool option"
  up_ExternalController :: "string option"
  up_Interface :: "string option"
  up_UnifiedDelay :: "bool option"

text \<open>The update of the first frame: a log level and nothing else.\<close>

definition log_only :: "UpdateParams \<Rightarrow> bool" where
  "log_only p =
     (up_LogLevel p \<noteq> None \<and> up_Tun p = None \<and> up_AllowLan p = None \<and> up_MixedPort p = None \<and>
      up_FindProcessMode p = None \<and> up_Mode p = None \<and> up_IPv6 p = None \<and> up_Sniffing p = None \<and>
      up_TCPConcurrent p = None \<and> up_ExternalController p = None \<and> up_Interface p = None \<and>
      up_UnifiedDelay p = None)"

text \<open>One \<open>if params.X != nil { ... }\<close>: an assignment to the general part and its calls.\<close>

definition when_given ::
    "'a option \<Rightarrow> ('a \<Rightarrow> General \<Rightarrow> General) \<Rightarrow> ('a \<Rightarrow> core_call list) \<Rightarrow> General \<times> core_call list
     \<Rightarrow> General \<times> core_call list" where
  "when_given v put calls gc =
     (case v of None \<Rightarrow> gc | Some a \<Rightarrow> (put a (fst gc), snd gc @ calls a))"

definition update_general :: "UpdateParams \<Rightarrow> General \<Rightarrow> General \<times> core_call list" where
  "update_general p g =
     (let a0 = (g, []);
          a1 = when_given (up_MixedPort p) (\<lambda>v g. g\<lparr>gn_MixedPort := v\<rparr>) (\<lambda>v. []) a0;
          a2 = when_given (up_Sniffing p) (\<lambda>v g. g\<lparr>gn_Sniffing := v\<rparr>) (\<lambda>v. [CSetSniffing v]) a1;
          a3 = when_given (up_FindProcessMode p) (\<lambda>v g. g\<lparr>gn_FindProcessMode := v\<rparr>)
                 (\<lambda>v. [CSetFindProcessMode v]) a2;
          a4 = when_given (up_TCPConcurrent p) (\<lambda>v g. g\<lparr>gn_TCPConcurrent := v\<rparr>)
                 (\<lambda>v. [CSetTcpConcurrent v]) a3;
          a5 = when_given (up_Interface p) (\<lambda>v g. g\<lparr>gn_Interface := v\<rparr>)
                 (\<lambda>v. [CSetDefaultInterface v]) a4;
          a6 = when_given (up_UnifiedDelay p) (\<lambda>v g. g\<lparr>gn_UnifiedDelay := v\<rparr>)
                 (\<lambda>v. [CSetUnifiedDelay v]) a5;
          a7 = when_given (up_Mode p) (\<lambda>v g. g\<lparr>gn_Mode := v\<rparr>) (\<lambda>v. [CSetMode v]) a6;
          a8 = when_given (up_LogLevel p) (\<lambda>v g. g\<lparr>gn_LogLevel := v\<rparr>) (\<lambda>v. [CSetLevel v]) a7
      in when_given (up_IPv6 p) (\<lambda>v g. g\<lparr>gn_IPv6 := v\<rparr>) (\<lambda>v. [CDisableIPv6 (\<not> v)]) a8)"

text \<open>
  The assignments of the TUN part, up to the first nil pointer; the result is whether all of
  them were made.
\<close>

definition update_tun :: "tunSchema \<Rightarrow> TunCfg \<Rightarrow> bool \<times> TunCfg" where
  "update_tun ts t0 =
     (let t1 = t0\<lparr>tn_Enable := ts_Enable ts\<rparr> in
      case ts_AutoRoute ts of None \<Rightarrow> (False, t1) | Some ar \<Rightarrow>
      (let t2 = t1\<lparr>tn_AutoRoute := ar\<rparr> in
       case ts_Device ts of None \<Rightarrow> (False, t2) | Some dev \<Rightarrow>
       (let t3 = t2\<lparr>tn_Device := dev\<rparr> in
        case ts_RouteAddress ts of None \<Rightarrow> (False, t3) | Some ra \<Rightarrow>
        (let t4 = t3\<lparr>tn_RouteAddress := ra\<rparr> in
         case ts_DNSHijack ts of None \<Rightarrow> (False, t4) | Some dh \<Rightarrow>
         (let t5 = t4\<lparr>tn_DNSHijack := dh\<rparr> in
          case ts_Stack ts of None \<Rightarrow> (False, t5) | Some st \<Rightarrow> (True, t5\<lparr>tn_Stack := st\<rparr>))))))"

definition set_general :: "General \<Rightarrow> Core \<Rightarrow> Core" where
  "set_general g s = s\<lparr>co_config := map_option (\<lambda>c. c\<lparr>cc_General := Some g\<rparr>) (co_config s)\<rparr>"

text \<open>The rest of \<open>updateConfig\<close> once there is a general part: controller, TUN, listeners.\<close>

definition update_running :: "string \<Rightarrow> UpdateParams \<Rightarrow> CoreCfg \<Rightarrow> General \<Rightarrow> Core \<Rightarrow> string option outcome \<times> Core" where
  "update_running goos p cfg g s =
     (let (g1, calls) = update_general p g;
          s1 = emit calls (set_general g1 s) in
      case (case up_ExternalController p of
              None \<Rightarrow> (Returned (), s1)
            | Some addr \<Rightarrow>
                (case cc_Controller cfg of
                   None \<Rightarrow> (Panicked, s1)
                 | Some _ \<Rightarrow>
                     (Returned (), emit [CReCreateServer addr]
                        (s1\<lparr>co_config := map_option (\<lambda>c. c\<lparr>cc_Controller := Some addr\<rparr>) (co_config s1)\<rparr>)))) of
        (Panicked, s2) \<Rightarrow> (Panicked, s2)
      | (Returned _, s2) \<Rightarrow>
          let (ok, s3) = (case up_Tun p of
                            None \<Rightarrow> (True, s2)
                          | Some ts \<Rightarrow>
                              let (ok, t) = update_tun ts (gn_Tun g1)
                              in (ok, set_general (g1\<lparr>gn_Tun := t\<rparr>) s2)) in
          if \<not> ok then (Panicked, s3)
          else (case updateListeners goos s3 of
                  (Panicked, s4) \<Rightarrow> (Panicked, s4)
                | (Returned _, s4) \<Rightarrow> (Returned None, s4)))"

text \<open>The result is nil or the text of the error.\<close>

definition updateConfig :: "string \<Rightarrow> UpdateParams option \<Rightarrow> Core \<Rightarrow> string option outcome \<times> Core" where
  "updateConfig goos params s =
     (case params of
        None \<Rightarrow> (Returned (Some ''missing configuration update''), s)
      | Some p \<Rightarrow>
          if log_only p then
            (case up_LogLevel p of
               None \<Rightarrow> (Returned None, s)
             | Some level \<Rightarrow>
                 (Returned None,
                  (emit [CSetLevel level] s)
                    \<lparr>co_config := map_option
                       (\<lambda>c. c\<lparr>cc_General := map_option (\<lambda>g. g\<lparr>gn_LogLevel := level\<rparr>) (cc_General c)\<rparr>)
                       (co_config s)\<rparr>))
          else (case co_config s of
                  None \<Rightarrow> (Returned (Some ''core configuration is not ready; apply a profile before updating it''), s)
                | Some cfg \<Rightarrow>
                    (case cc_General cfg of
                       None \<Rightarrow> (Returned (Some ''core configuration is not ready; apply a profile before updating it''), s)
                     | Some g \<Rightarrow> update_running goos p cfg g s)))"

text \<open>\<open>handleUpdateConfig\<close>: \<open>Inl\<close> is the error of decoding; \<open>null\<close> decodes to \<open>None\<close>.\<close>

definition handleUpdateConfig ::
    "string \<Rightarrow> string + UpdateParams option \<Rightarrow> Core \<Rightarrow> string outcome \<times> Core" where
  "handleUpdateConfig goos decoded s =
     (case decoded of
        Inl err \<Rightarrow> (Returned err, s)
      | Inr params \<Rightarrow>
          (case updateConfig goos params s of
             (Panicked, s1) \<Rightarrow> (Panicked, s1)
           | (Returned None, s1) \<Rightarrow> (Returned [], s1)
           | (Returned (Some err), s1) \<Rightarrow> (Returned err, s1)))"

section \<open>Applying a profile\<close>

text \<open>
  A raw configuration as \<open>UnmarshalRawConfig\<close> or the JSON decoder gives it: the fields the
  layer touches. \<open>parse\<close> stands for \<open>config.ParseRawConfig\<close>.
\<close>

record RawCfg =
  rw_Text :: string
  rw_TunEnable :: bool
  rw_AllowLan :: bool
  rw_BindAddress :: string
  rw_MixedPort :: int
  rw_DNSEnable :: bool
  rw_DNSListen :: string
  rw_DNSEnhancedMode :: string
  rw_DNSFakeIPRange :: string
  rw_DNSFakeIPFilter :: "string list"
  rw_DNSNameServer :: "string list"
  rw_DNSFallback :: "string list"

record SetupParams =
  su_Config :: "RawCfg option"
  su_SelectedMap :: "string gomap"
  su_TestURL :: string

definition default_test_url :: string where
  "default_test_url = ''https://www.gstatic.com/generate_204''"

text \<open>\<open>dflt\<close> is \<open>config.DefaultRawConfig()\<close>.\<close>

definition defaultSetupParams :: "RawCfg \<Rightarrow> SetupParams" where
  "defaultSetupParams dflt =
     \<lparr>su_Config = Some dflt, su_SelectedMap = [],
      su_TestURL = ''https://www.gstatic.com/generate_204''\<rparr>"

text \<open>\<open>proxies\<close> are the proxies of the tunnel by name, with whether each is a group to select in.\<close>

definition patchSelectGroup :: "bool gomap \<Rightarrow> string gomap \<Rightarrow> core_call list" where
  "patchSelectGroup proxies mapping =
     concat (map (\<lambda>e. if \<not> snd e then []
                      else (case gm_get mapping (fst e) of
                              None \<Rightarrow> []
                            | Some selected \<Rightarrow> [CForceSet (fst e) selected])) proxies)"

definition setupConfig ::
    "string \<Rightarrow> (RawCfg \<Rightarrow> string + CoreCfg) \<Rightarrow> (CoreCfg \<Rightarrow> bool gomap) \<Rightarrow> string
     \<Rightarrow> SetupParams option \<Rightarrow> Core \<Rightarrow> string option outcome \<times> Core" where
  "setupConfig goos parse proxies dflt_url params s =
     (case params of
        None \<Rightarrow> (Returned (Some ''missing configuration''), s)
      | Some p \<Rightarrow>
          (case su_Config p of
             None \<Rightarrow> (Returned (Some ''missing configuration''), s)
           | Some raw \<Rightarrow>
               (case parse raw of
                  Inl err \<Rightarrow> (Returned (Some err), s)
                | Inr next \<Rightarrow>
                    let s1 = s\<lparr>co_testURL := (if su_TestURL p \<noteq> [] then su_TestURL p else dflt_url),
                               co_config := Some next\<rparr>;
                        s2 = emit (CApplyConfig next # patchSelectGroup (proxies next) (su_SelectedMap p)) s1
                    in (case updateListeners goos s2 of
                          (Panicked, s3) \<Rightarrow> (Panicked, s3)
                        | (Returned _, s3) \<Rightarrow> (Returned None, s3)))))"

definition handleSetupConfig ::
    "string \<Rightarrow> (RawCfg \<Rightarrow> string + CoreCfg) \<Rightarrow> (CoreCfg \<Rightarrow> bool gomap) \<Rightarrow> string
     \<Rightarrow> string + SetupParams \<Rightarrow> Core \<Rightarrow> string outcome \<times> Core" where
  "handleSetupConfig goos parse proxies dflt_url decoded s =
     (case decoded of
        Inl err \<Rightarrow> (Returned err, s)
      | Inr params \<Rightarrow>
          (case setupConfig goos parse proxies dflt_url (Some params) s of
             (Panicked, s1) \<Rightarrow> (Panicked, s1)
           | (Returned None, s1) \<Rightarrow> (Returned [], s1)
           | (Returned (Some err), s1) \<Rightarrow> (Returned err, s1)))"

section \<open>iOS\<close>

text \<open>\<open>patchConfigForIOS\<close>: proxy mode without TUN, with fake-ip DNS.\<close>

definition patchConfigForIOS :: "RawCfg \<Rightarrow> RawCfg" where
  "patchConfigForIOS cfg =
     cfg\<lparr>rw_TunEnable := False, rw_AllowLan := True, rw_BindAddress := ''*'',
         rw_MixedPort := (if rw_MixedPort cfg = 0 then 7890 else rw_MixedPort cfg),
         rw_DNSEnable := True, rw_DNSListen := ''127.0.0.1:6053'', rw_DNSEnhancedMode := ''fake-ip'',
         rw_DNSFakeIPRange := ''198.18.0.1/16'',
         rw_DNSFakeIPFilter := [''*.lan'', ''*.local'', ''localhost'', ''+.msftconnecttest.com'',
           ''+.msftncsi.com''],
         rw_DNSNameServer := (if rw_DNSNameServer cfg = [] then [''223.5.5.5'', ''119.29.29.29'']
                              else rw_DNSNameServer cfg),
         rw_DNSFallback := (if rw_DNSFallback cfg = [] then [''8.8.8.8'', ''1.1.1.1'']
                            else rw_DNSFallback cfg)\<rparr>"

text \<open>
  \<open>ClashCore_init\<close>: \<open>unmarshal\<close> is \<open>config.UnmarshalRawConfig\<close>. The result is the return code.
\<close>

definition ClashCore_init ::
    "(string \<Rightarrow> RawCfg option) \<Rightarrow> (RawCfg \<Rightarrow> string + CoreCfg) \<Rightarrow> (CoreCfg \<Rightarrow> bool gomap) \<Rightarrow> string
     \<Rightarrow> string \<Rightarrow> string \<Rightarrow> Core \<Rightarrow> int outcome \<times> Core" where
  "ClashCore_init unmarshal parse proxies dflt_url homeDir configYaml s =
     (let (ok, s1) = handleInitClash (Some \<lparr>ip_HomeDir = homeDir, ip_Version = 0\<rparr>) s in
      if \<not> ok then (Returned 1, s1)
      else if configYaml = [] then (Returned 2, s1)
      else (case unmarshal configYaml of
              None \<Rightarrow> (Returned 2, s1)
            | Some rawCfg \<Rightarrow>
                let params = \<lparr>su_Config = Some (patchConfigForIOS rawCfg), su_SelectedMap = [],
                              su_TestURL = ''https://www.gstatic.com/generate_204''\<rparr> in
                (case setupConfig ''ios'' parse proxies dflt_url (Some params) s1 of
                   (Panicked, s2) \<Rightarrow> (Panicked, s2)
                 | (Returned (Some err), s2) \<Rightarrow> (Returned 3, s2)
                 | (Returned None, s2) \<Rightarrow>
                     (case handleStartListener ''ios'' s2 of
                        (Panicked, s3) \<Rightarrow> (Panicked, s3)
                      | (Returned _, s3) \<Rightarrow> (Returned 0, s3)))))"

definition ClashCore_get_mixed_port :: "Core \<Rightarrow> int outcome" where
  "ClashCore_get_mixed_port s =
     (case co_config s of
        None \<Rightarrow> Returned 0
      | Some c \<Rightarrow> (case cc_General c of None \<Rightarrow> Panicked | Some g \<Rightarrow> Returned (gn_MixedPort g)))"

end
