(* ===== verification/CoreConfigProps.thy ===== *)
theory CoreConfigProps
  imports CoreConfig "HOL-Library.Sublist"
begin

text \<open>
  What a configuration change of the proxy core does: a rejected one nothing, an accepted one
  exactly the fields it names, and which ones run into a nil pointer.
\<close>

section \<open>Rejected changes\<close>

lemma update_running_no_error: "fst (update_running goos p cfg g s) \<noteq> Returned (Some err)"
  by (auto simp: update_running_def Let_def split: prod.splits option.splits outcome.splits)

text \<open>
  A rejected update or profile leaves the core as it was: the configuration, the test URL and
  everything asked of the vendored core.
\<close>

theorem rejected_change_keeps_core:
  "(updateConfig goos params s = (Returned (Some err), s') \<longrightarrow> s' = s) \<and>
   (setupConfig goos parse proxies dflt setup s = (Returned (Some err), s') \<longrightarrow> s' = s)"
proof
  show "updateConfig goos params s = (Returned (Some err), s') \<longrightarrow> s' = s"
    using update_running_no_error [of goos _ _ _ s err]
    by (auto simp: updateConfig_def split: option.splits if_splits) (metis fst_conv)+
  show "setupConfig goos parse proxies dflt setup s = (Returned (Some err), s') \<longrightarrow> s' = s"
    by (auto simp: setupConfig_def Let_def split: option.splits sum.splits prod.splits outcome.splits)
qed

section \<open>Accepted changes\<close>

definition given :: "'a option \<Rightarrow> 'a \<Rightarrow> 'a" where
  "given v old = (case v of None \<Rightarrow> old | Some a \<Rightarrow> a)"

lemma given_simps [simp]: "given None old = old" "given (Some a) old = a"
  by (simp_all add: given_def)

text \<open>The general part an update asks for, field by field.\<close>

definition merged_tun :: "tunSchema option \<Rightarrow> TunCfg \<Rightarrow> TunCfg" where
  "merged_tun ts t =
     (case ts of
        None \<Rightarrow> t
      | Some ts \<Rightarrow>
          \<lparr>tn_Enable = ts_Enable ts, tn_Device = given (ts_Device ts) (tn_Device t),
           tn_Stack = given (ts_Stack ts) (tn_Stack t),
           tn_DNSHijack = given (ts_DNSHijack ts) (tn_DNSHijack t),
           tn_AutoRoute = given (ts_AutoRoute ts) (tn_AutoRoute t),
           tn_RouteAddress = given (ts_RouteAddress ts) (tn_RouteAddress t)\<rparr>)"

definition merged :: "UpdateParams \<Rightarrow> General \<Rightarrow> General" where
  "merged p g =
     g\<lparr>gn_MixedPort := given (up_MixedPort p) (gn_MixedPort g),
       gn_Sniffing := given (up_Sniffing p) (gn_Sniffing g),
       gn_FindProcessMode := given (up_FindProcessMode p) (gn_FindProcessMode g),
       gn_TCPConcurrent := given (up_TCPConcurrent p) (gn_TCPConcurrent g),
       gn_Interface := given (up_Interface p) (gn_Interface g),
       gn_UnifiedDelay := given (up_UnifiedDelay p) (gn_UnifiedDelay g),
       gn_Mode := given (up_Mode p) (gn_Mode g),
       gn_LogLevel := given (up_LogLevel p) (gn_LogLevel g),
       gn_IPv6 := given (up_IPv6 p) (gn_IPv6 g)\<rparr>"

lemma when_given_put:
  "put (fld (fst gc)) (fst gc) = fst gc \<Longrightarrow>
   fst (when_given v put calls gc) = put (given v (fld (fst gc))) (fst gc)"
  by (cases v) (simp_all add: when_given_def)

lemmas when_given_fields =
  when_given_put [where put = "\<lambda>v. gn_MixedPort_update (\<lambda>_. v)" and fld = gn_MixedPort, simplified]
  when_given_put [where put = "\<lambda>v. gn_Sniffing_update (\<lambda>_. v)" and fld = gn_Sniffing, simplified]
  when_given_put [where put = "\<lambda>v. gn_FindProcessMode_update (\<lambda>_. v)" and fld = gn_FindProcessMode, simplified]
  when_given_put [where put = "\<lambda>v. gn_TCPConcurrent_update (\<lambda>_. v)" and fld = gn_TCPConcurrent, simplified]
  when_given_put [where put = "\<lambda>v. gn_Interface_update (\<lambda>_. v)" and fld = gn_Interface, simplified]
  when_given_put [where put = "\<lambda>v. gn_UnifiedDelay_update (\<lambda>_. v)" and fld = gn_UnifiedDelay, simplified]
  when_given_put [where put = "\<lambda>v. gn_Mode_update (\<lambda>_. v)" and fld = gn_Mode, simplified]
  when_given_put [where put = "\<lambda>v. gn_LogLevel_update (\<lambda>_. v)" and fld = gn_LogLevel, simplified]
  when_given_put [where put = "\<lambda>v. gn_IPv6_update (\<lambda>_. v)" and fld = gn_IPv6, simplified]

lemma update_general_merged: "fst (update_general p g) = merged p g"
  unfolding update_general_def Let_def merged_def by (simp add: when_given_fields)

definition tun_complete :: "tunSchema \<Rightarrow> bool" where
  "tun_complete ts =
     (ts_Device ts \<noteq> None \<and> ts_Stack ts \<noteq> None \<and> ts_DNSHijack ts \<noteq> None \<and> ts_AutoRoute ts \<noteq> None \<and>
      ts_RouteAddress ts \<noteq> None)"

lemma update_tun_ok: "fst (update_tun ts t) = tun_complete ts"
  by (auto simp: update_tun_def tun_complete_def Let_def split: option.split)

lemma update_tun_merged: "tun_complete ts \<Longrightarrow> snd (update_tun ts t) = merged_tun (Some ts) t"
  by (cases t) (auto simp: update_tun_def tun_complete_def merged_tun_def Let_def)

lemma merged_tun_None [simp]: "merged_tun None t = t"
  by (simp add: merged_tun_def)

text \<open>The calls an update asks of the vendored core, in the order the fields are looked at.\<close>

definition asked :: "'a option \<Rightarrow> ('a \<Rightarrow> core_call) \<Rightarrow> core_call list" where
  "asked v call = (case v of None \<Rightarrow> [] | Some a \<Rightarrow> [call a])"

definition update_calls :: "UpdateParams \<Rightarrow> core_call list" where
  "update_calls p =
     asked (up_Sniffing p) CSetSniffing @ asked (up_FindProcessMode p) CSetFindProcessMode @
     asked (up_TCPConcurrent p) CSetTcpConcurrent @ asked (up_Interface p) CSetDefaultInterface @
     asked (up_UnifiedDelay p) CSetUnifiedDelay @ asked (up_Mode p) CSetMode @
     asked (up_LogLevel p) CSetLevel @ asked (up_IPv6 p) (\<lambda>v. CDisableIPv6 (\<not> v)) @
     asked (up_ExternalController p) CReCreateServer"

lemma when_given_snd:
  "snd (when_given v put calls gc) = (case v of None \<Rightarrow> snd gc | Some a \<Rightarrow> snd gc @ calls a)"
  by (simp add: when_given_def split: option.split)

lemma update_general_calls:
  "update_calls p = snd (update_general p g) @ asked (up_ExternalController p) CReCreateServer"
  unfolding update_general_def Let_def when_given_snd update_calls_def asked_def
  by (simp split: option.split)

text \<open>What \<open>update_running\<close> needs to come through: no nil controller, no incomplete TUN part.\<close>

definition update_safe :: "UpdateParams \<Rightarrow> CoreCfg \<Rightarrow> bool" where
  "update_safe p cfg =
     ((up_ExternalController p \<noteq> None \<longrightarrow> cc_Controller cfg \<noteq> None) \<and>
      (\<forall>ts. up_Tun p = Some ts \<longrightarrow> tun_complete ts))"

lemma updateListeners_config: "co_config (snd (updateListeners goos s)) = co_config s"
  by (auto simp: updateListeners_def emit_def Let_def split: option.split)

lemma set_general_config [simp]:
  "co_config (set_general g s) = map_option (\<lambda>c. c\<lparr>cc_General := Some g\<rparr>) (co_config s)"
  "co_isRunning (set_general g s) = co_isRunning s" "co_calls (set_general g s) = co_calls s"
  by (simp_all add: set_general_def)

lemma emit_fields [simp]:
  "co_config (emit cs s) = co_config s" "co_isRunning (emit cs s) = co_isRunning s"
  "co_calls (emit cs s) = co_calls s @ cs"
  by (simp_all add: emit_def)

lemma not_log_only: "\<not> log_only p \<Longrightarrow> co_config s = Some cfg \<Longrightarrow> cc_General cfg = Some g \<Longrightarrow>
    updateConfig goos (Some p) s = update_running goos p cfg g s"
  by (simp add: updateConfig_def)

lemma update_unsafe:
  "\<not> update_safe p cfg \<Longrightarrow> fst (update_running goos p cfg g s) = Panicked"
  by (cases "update_general p g"; cases "up_ExternalController p"; cases "up_Tun p"; cases "cc_Controller cfg")
     (simp_all add: update_running_def Let_def split_beta update_safe_def update_tun_ok)

definition updated :: "UpdateParams \<Rightarrow> CoreCfg \<Rightarrow> General \<Rightarrow> CoreCfg" where
  "updated p cfg g = cfg\<lparr>cc_General := Some ((merged p g)\<lparr>gn_Tun := merged_tun (up_Tun p) (gn_Tun g)\<rparr>),
     cc_Controller := (if up_ExternalController p = None then cc_Controller cfg else up_ExternalController p)\<rparr>"

text \<open>An update without a nil pointer, up to its call of \<open>updateListeners\<close>.\<close>

lemma update_running_safe:
  assumes "co_config s = Some cfg" and "cc_General cfg = Some g" and "update_safe p cfg"
  obtains s3 where "update_running goos p cfg g s = (case updateListeners goos s3 of
        (Panicked, s4) \<Rightarrow> (Panicked, s4) | (Returned _, s4) \<Rightarrow> (Returned None, s4))"
    and "co_config s3 = Some (updated p cfg g)" and "co_isRunning s3 = co_isRunning s"
    and "co_calls s3 = co_calls s @ update_calls p"
proof -
  define g' where "g' = (merged p g)\<lparr>gn_Tun := merged_tun (up_Tun p) (gn_Tun g)\<rparr>"
  obtain g1 calls where u: "update_general p g = (g1, calls)" by (cases "update_general p g")
  then have g1: "g1 = merged p g" using update_general_merged [of p g] by simp
  have tun: "gn_Tun (merged p g) = gn_Tun g" by (simp add: merged_def)
  define s2 where "s2 = (case up_ExternalController p of
      None \<Rightarrow> emit calls (set_general g1 s)
    | Some addr \<Rightarrow> emit [CReCreateServer addr] ((emit calls (set_general g1 s))
        \<lparr>co_config := map_option (\<lambda>c. c\<lparr>cc_Controller := Some addr\<rparr>) (co_config (emit calls (set_general g1 s)))\<rparr>))"
  define s3 where "s3 = (case up_Tun p of None \<Rightarrow> s2 | Some ts \<Rightarrow> set_general g' s2)"
  have "update_running goos p cfg g s = (case updateListeners goos s3 of
        (Panicked, s4) \<Rightarrow> (Panicked, s4) | (Returned _, s4) \<Rightarrow> (Returned None, s4))"
    using assms(3)
    by (cases "up_ExternalController p"; cases "up_Tun p"; cases "cc_Controller cfg")
       (simp_all add: update_running_def u Let_def split_beta update_safe_def update_tun_ok
         update_tun_merged s2_def s3_def g'_def g1 tun del: set_general_config emit_fields split: outcome.split)
  moreover have "co_config s3 = Some (updated p cfg g)"
    using assms(1) tun by (auto simp: s3_def s2_def g'_def g1 updated_def split: option.split)
  moreover have "co_isRunning s3 = co_isRunning s" by (simp add: s3_def s2_def split: option.split)
  moreover have "co_calls s3 = co_calls s @ update_calls p"
    by (simp add: s3_def s2_def update_general_calls [of p g] u asked_def split: option.split)
  ultimately show thesis by (rule that)
qed


section \<open>The listeners over the life of the core\<close>

text \<open>The calls that open or close a listener or set how one is opened.\<close>

fun listener_call :: "core_call \<Rightarrow> bool" where
  "listener_call (CCloseListener n) = True"
| "listener_call CUpdateListeners = True"
| "listener_call (CPatchInboundListeners l) = True"
| "listener_call (CSetAllowLan b) = True"
| "listener_call (CSetSkipAuthPrefixes l) = True"
| "listener_call (CSetAllowedIPs l) = True"
| "listener_call (CSetDisAllowedIPs l) = True"
| "listener_call (CSetBindAddress b) = True"
| "listener_call (CReCreateHTTP p) = True"
| "listener_call (CReCreateSocks p) = True"
| "listener_call (CReCreateRedir p) = True"
| "listener_call (CReCreateTProxy p) = True"
| "listener_call (CReCreateMixed p) = True"
| "listener_call (CReCreateShadowSocks c) = True"
| "listener_call (CReCreateVmess c) = True"
| "listener_call (CReCreateTuic c) = True"
| "listener_call (CReCreateTun t) = True"
| "listener_call c = False"

definition history :: "Core \<Rightarrow> core_call list" where
  "history s = filter listener_call (co_calls s)"

text \<open>Every listener was closed last, or none ever opened.\<close>

definition listeners_closed :: "Core \<Rightarrow> bool" where
  "listeners_closed s = (history s = [] \<or> last (history s) = CUpdateListeners)"

text \<open>The listeners were opened last, from the configuration there is now.\<close>

definition listeners_current :: "string \<Rightarrow> Core \<Rightarrow> bool" where
  "listeners_current goos s =
     (\<exists>cfg g. co_config s = Some cfg \<and> cc_General cfg = Some g \<and>
        suffix (CPatchInboundListeners (cc_Listeners cfg) # listener_calls goos g) (history s))"

definition listeners_ok :: "string \<Rightarrow> bool \<Rightarrow> Core \<Rightarrow> bool" where
  "listeners_ok goos down s =
     ((co_isRunning s \<or> listeners_closed s) \<and> (listeners_closed s \<or> listeners_current goos s) \<and>
      (down \<or> \<not> co_isRunning s \<or> co_config s = None \<or> listeners_current goos s))"

text \<open>One request that returns; the flag says whether it shuts the core down.\<close>

inductive core_step :: "string \<Rightarrow> bool \<Rightarrow> Core \<Rightarrow> Core \<Rightarrow> bool" for goos where
  init_core: "core_step goos False s (snd (handleInitClash p s))"
| start_listener: "handleStartListener goos s = (Returned r, s') \<Longrightarrow> core_step goos False s s'"
| stop_listener: "core_step goos False s (snd (handleStopListener inbounds s))"
| setup_config: "handleSetupConfig goos parse proxies dflt d s = (Returned r, s') \<Longrightarrow> core_step goos False s s'"
| update_config: "handleUpdateConfig goos u s = (Returned r, s') \<Longrightarrow> core_step goos False s s'"
| shutdown_core: "core_step goos True s (snd (handleShutdown inbounds s))"

inductive core_run :: "string \<Rightarrow> Core \<Rightarrow> bool \<Rightarrow> Core \<Rightarrow> bool" for goos s0 where
  here: "core_run goos s0 False s0"
| onward: "\<lbrakk>core_run goos s0 down s; core_step goos d s s'\<rbrakk> \<Longrightarrow> core_run goos s0 (down \<or> d) s'"

inductive_cases core_stepE: "core_step goos d s s'"

definition core_start :: Core where
  "core_start = \<lparr>co_config = None, co_version = 0, co_isRunning = False, co_isInit = False,
     co_testURL = default_test_url, co_calls = []\<rparr>"

lemma all_listener_calls: "filter listener_call (listener_calls goos g) = listener_calls goos g"
  by (simp add: listener_calls_def)

lemma history_emit: "history (emit cs s) = history s @ filter listener_call cs"
  by (simp add: history_def)

lemma update_calls_quiet: "filter listener_call (update_calls p) = []"
  by (simp add: update_calls_def asked_def split: option.split)

lemma listeners_closedI: "history s = pre @ [CUpdateListeners] \<Longrightarrow> listeners_closed s"
  by (simp add: listeners_closed_def)

text \<open>A new or kept configuration, and then \<open>updateListeners\<close>.\<close>

lemma updateListeners_ok:
  assumes "listeners_ok goos down s" and "history s1 = history s" and "co_isRunning s1 = co_isRunning s"
    and "updateListeners goos s1 = (Returned u, s2)" and "co_config s1 \<noteq> None"
  shows "listeners_ok goos down s2"
proof (cases "co_isRunning s1")
  case False
  then have "s2 = s1" using assms(4) by (simp add: updateListeners_def)
  then show ?thesis using assms(1-3) False by (simp add: listeners_ok_def listeners_closed_def)
next
  case True
  obtain cfg where cfg: "co_config s1 = Some cfg" using assms(5) by blast
  with True assms(4) obtain g where g: "cc_General cfg = Some g"
    and s2: "s2 = emit (listener_calls goos g) (emit [CPatchInboundListeners (cc_Listeners cfg)] s1)"
    by (auto simp: updateListeners_def Let_def split: option.splits)
  have "listeners_current goos s2"
    using cfg g by (auto simp: s2 listeners_current_def history_emit all_listener_calls suffix_def)
  then show ?thesis using True by (simp add: listeners_ok_def s2)
qed

lemma start_ok:
  assumes "listeners_ok goos down s" and "handleStartListener goos s = (Returned r, s')"
  shows "listeners_ok goos down s'"
proof -
  obtain u s1 where ul: "updateListeners goos (s\<lparr>co_isRunning := True\<rparr>) = (Returned u, s1)"
    and s': "s' = emit [CResetConnection] s1"
    using assms(2) by (auto simp: handleStartListener_def split: prod.splits outcome.splits)
  have same: "listeners_ok goos down s' = listeners_ok goos down s1"
    by (simp add: s' listeners_ok_def listeners_closed_def listeners_current_def history_emit)
  show ?thesis
  proof (cases "co_config s")
    case None
    then have "s1 = s\<lparr>co_isRunning := True\<rparr>" using ul by (simp add: updateListeners_def)
    then show ?thesis
      using assms(1) None unfolding same
      by (auto simp: listeners_ok_def listeners_closed_def listeners_current_def history_def)
  next
    case (Some cfg)
    then obtain g where g: "cc_General cfg = Some g"
      and s1: "s1 = emit (listener_calls goos g) (emit [CPatchInboundListeners (cc_Listeners cfg)]
        (s\<lparr>co_isRunning := True\<rparr>))"
      using ul by (auto simp: updateListeners_def Let_def split: option.splits)
    have "listeners_current goos s1"
      using Some g by (auto simp: s1 listeners_current_def history_emit all_listener_calls suffix_def)
    then show ?thesis unfolding same by (simp add: listeners_ok_def s1)
  qed
qed

lemma setup_ok:
  assumes "listeners_ok goos down s" and "handleSetupConfig goos parse proxies dflt d s = (Returned r, s')"
  shows "listeners_ok goos down s'"
proof (cases "s' = s")
  case False
  have quiet: "filter listener_call (patchSelectGroup pr m) = []" for pr m
    by (induction pr) (auto simp: patchSelectGroup_def split: option.split)
  from False assms(2) obtain m url "next" where s1: "updateListeners goos
      (emit (CApplyConfig next # patchSelectGroup (proxies next) m)
        (s\<lparr>co_testURL := url, co_config := Some next\<rparr>)) = (Returned (), s')"
    by (auto simp: handleSetupConfig_def setupConfig_def Let_def
          split: sum.splits option.splits outcome.splits prod.splits)
  show ?thesis
    by (rule updateListeners_ok [OF assms(1) _ _ s1]) (simp_all add: history_def quiet)
qed (use assms(1) in simp)

lemma handleUpdateConfig_cases:
  assumes "handleUpdateConfig goos u s = (Returned r, s')"
  obtains "s' = s" | p e where "updateConfig goos (Some p) s = (Returned e, s')"
proof (cases u)
  case (Inl err)
  then show ?thesis using assms that by (simp add: handleUpdateConfig_def)
next
  case (Inr params)
  show ?thesis
  proof (cases params)
    case None
    then show ?thesis using assms that(1) Inr by (simp add: handleUpdateConfig_def updateConfig_def)
  next
    case (Some p)
    obtain e s1 where "updateConfig goos (Some p) s = (e, s1)" by (cases "updateConfig goos (Some p) s")
    then show ?thesis
      using assms that(2) Inr Some
      by (auto simp: handleUpdateConfig_def split: outcome.splits option.splits)
  qed
qed

lemma listeners_ok_log_level:
  assumes "listeners_ok goos down s"
  shows "listeners_ok goos down ((emit [CSetLevel level] s)\<lparr>co_config := map_option
    (\<lambda>c. c\<lparr>cc_General := map_option (\<lambda>g. g\<lparr>gn_LogLevel := level\<rparr>) (cc_General c)\<rparr>) (co_config s)\<rparr>)"
    (is "listeners_ok goos down ?s1")
proof -
  have hist: "history ?s1 = history s" and running: "co_isRunning ?s1 = co_isRunning s"
    by (simp_all add: history_def emit_def)
  have level_free: "listener_calls goos (g\<lparr>gn_LogLevel := level\<rparr>) = listener_calls goos g" for g
    by (simp add: listener_calls_def)
  have "listeners_current goos s \<Longrightarrow> listeners_current goos ?s1"
    unfolding listeners_current_def hist by (auto simp: level_free)
  then show ?thesis
    using assms by (auto simp: listeners_ok_def listeners_closed_def hist running)
qed

lemma config_ok:
  assumes "listeners_ok goos down s" and "updateConfig goos (Some p) s = (Returned e, s')"
  shows "listeners_ok goos down s'"
proof (cases "log_only p")
  case True
  then obtain level where "up_LogLevel p = Some level" by (auto simp: log_only_def)
  then show ?thesis
    using assms listeners_ok_log_level [OF assms(1)] True by (auto simp: updateConfig_def)
next
  case False
  show ?thesis
  proof (cases "\<exists>cfg g. co_config s = Some cfg \<and> cc_General cfg = Some g")
    case True
    then obtain cfg g where cg: "co_config s = Some cfg" "cc_General cfg = Some g" by blast
    have run: "update_running goos p cfg g s = (Returned e, s')"
      using assms(2) not_log_only [OF False cg] by simp
    then have "update_safe p cfg" using update_unsafe [of p cfg goos g s] by auto
    from update_running_safe [OF cg this]
    obtain s3 where s3: "update_running goos p cfg g s = (case updateListeners goos s3 of
          (Panicked, s4) \<Rightarrow> (Panicked, s4) | (Returned _, s4) \<Rightarrow> (Returned None, s4))"
      and props: "co_config s3 = Some (updated p cfg g)" "co_isRunning s3 = co_isRunning s"
        "co_calls s3 = co_calls s @ update_calls p" .
    have "updateListeners goos s3 = (Returned (), s')"
      using run s3 by (auto split: prod.splits outcome.splits)
    with props show ?thesis
      by (intro updateListeners_ok [OF assms(1), of s3]) (simp_all add: history_def update_calls_quiet)
  next
    case none: False
    then have "s' = s"
      using assms(2) False by (cases "co_config s") (auto simp: updateConfig_def split: option.splits)
    then show ?thesis using assms(1) by simp
  qed
qed

lemma step_ok: "core_step goos d s s' \<Longrightarrow> listeners_ok goos down s \<Longrightarrow> listeners_ok goos (down \<or> d) s'"
proof (induction rule: core_step.induct)
  case (init_core s p)
  then show ?case
    by (auto simp: handleInitClash_def Let_def listeners_ok_def listeners_closed_def listeners_current_def
          history_def emit_def split: option.split)
next
  case (start_listener s r s')
  then show ?case by (simp add: start_ok)
next
  case (stop_listener s inbounds)
  show ?case
    by (simp add: handleStopListener_def stopListeners_def listeners_ok_def listeners_closed_def
          history_emit)
next
  case (setup_config parse proxies dflt d s r s')
  then show ?case by (simp add: setup_ok)
next
  case (update_config u s r s')
  then show ?case by (auto elim: handleUpdateConfig_cases intro: config_ok)
next
  case (shutdown_core s inbounds)
  show ?case
    by (simp add: handleShutdown_def stopListeners_def listeners_ok_def listeners_closed_def
          history_def emit_def)
qed

lemma run_ok: "core_run goos core_start down s \<Longrightarrow> listeners_ok goos down s"
proof (induction rule: core_run.induct)
  case here
  show ?case by (simp add: core_start_def listeners_ok_def listeners_closed_def history_def)
next
  case (onward down s d s')
  then show ?case by (simp add: step_ok)
qed

text \<open>
  After any sequence of requests that return, a core that is not running has closed its
  listeners, a core that was never shut down and runs with a profile has its listeners made
  from the profile it has now, and in between there is nothing: the listeners are closed, or
  they are those of the present profile, whatever profiles and updates came before.
\<close>

theorem listeners_follow_profile:
  assumes "core_run goos core_start down s"
  shows "(co_isRunning s \<or> listeners_closed s) \<and> (listeners_closed s \<or> listeners_current goos s) \<and>
    (down \<or> \<not> co_isRunning s \<or> co_config s = None \<or> listeners_current goos s)"
  using run_ok [OF assms] by (simp add: listeners_ok_def)

section \<open>The statements at concrete inputs\<close>

definition demo_general :: General where
  "demo_general = \<lparr>gn_Port = 0, gn_SocksPort = 0, gn_RedirPort = 0, gn_TProxyPort = 0, gn_MixedPort = 7890,
     gn_AllowLan = False, gn_SkipAuthPrefixes = [], gn_LanAllowedIPs = [], gn_LanDisAllowedIPs = [],
     gn_BindAddress = ''*'', gn_ShadowSocksConfig = [], gn_VmessConfig = [], gn_TuicServer = [],
     gn_Tun = \<lparr>tn_Enable = False, tn_Device = [], tn_Stack = 0, tn_DNSHijack = [], tn_AutoRoute = False,
       tn_RouteAddress = []\<rparr>,
     gn_Mode = 1, gn_LogLevel = 2, gn_IPv6 = False, gn_Interface = [], gn_Sniffing = False,
     gn_FindProcessMode = 0, gn_TCPConcurrent = False, gn_UnifiedDelay = False\<rparr>"

definition demo_profile :: CoreCfg where
  "demo_profile = \<lparr>cc_General = Some demo_general, cc_Controller = None, cc_Listeners = []\<rparr>"

definition demo_raw :: RawCfg where
  "demo_raw = \<lparr>rw_Text = ''mode: rule'', rw_TunEnable = False, rw_AllowLan = False, rw_BindAddress = ''*'',
     rw_MixedPort = 7890, rw_DNSEnable = False, rw_DNSListen = [], rw_DNSEnhancedMode = [],
     rw_DNSFakeIPRange = [], rw_DNSFakeIPFilter = [], rw_DNSNameServer = [], rw_DNSFallback = []\<rparr>"

definition demo_setup :: SetupParams where
  "demo_setup = \<lparr>su_Config = Some demo_raw, su_SelectedMap = [], su_TestURL = []\<rparr>"

definition demo_parse :: "RawCfg \<Rightarrow> string + CoreCfg" where
  "demo_parse raw = (if rw_MixedPort raw = 7890 then Inr demo_profile else Inl ''bad port'')"

definition demo_update :: UpdateParams where
  "demo_update = \<lparr>up_Tun = None, up_AllowLan = Some True, up_MixedPort = Some 7891, up_FindProcessMode = None,
     up_Mode = Some 2, up_LogLevel = None, up_IPv6 = None, up_Sniffing = None, up_TCPConcurrent = None,
     up_ExternalController = None, up_Interface = None, up_UnifiedDelay = None\<rparr>"

definition demo_ready :: Core where
  "demo_ready = snd (handleSetupConfig ''linux'' demo_parse (\<lambda>_. []) default_test_url (Inr demo_setup) core_start)"

definition demo_running :: Core where
  "demo_running = snd (handleStartListener ''linux'' demo_ready)"

lemmas demo_defs = demo_general_def demo_profile_def demo_raw_def demo_setup_def demo_parse_def demo_update_def

lemma demo_ready_eq:
  "handleSetupConfig ''linux'' demo_parse (\<lambda>_. []) default_test_url (Inr demo_setup) core_start =
     (Returned [], demo_ready)"
  "demo_ready = core_start\<lparr>co_config := Some demo_profile, co_calls := [CApplyConfig demo_profile]\<rparr>"
  by (simp_all add: demo_ready_def handleSetupConfig_def setupConfig_def demo_setup_def demo_parse_def
        demo_raw_def updateListeners_def core_start_def emit_def patchSelectGroup_def Let_def)

lemma demo_running_eq:
  "handleStartListener ''linux'' demo_ready = (Returned True, demo_running)"
  "co_config demo_running = Some demo_profile" "co_isRunning demo_running"
  by (simp_all add: demo_running_def demo_ready_eq(2) handleStartListener_def updateListeners_def Let_def
        demo_profile_def core_start_def emit_def)

theorem rejected_change_keeps_core_witness:
  "\<exists>s1 s2. updateConfig ''linux'' None demo_running = (Returned (Some ''missing configuration update''), s1) \<and>
     setupConfig ''linux'' demo_parse (\<lambda>_. []) [] (Some (demo_setup\<lparr>su_Config := Some (demo_raw\<lparr>rw_MixedPort := 1\<rparr>)\<rparr>))
       demo_running = (Returned (Some ''bad port''), s2) \<and> s1 = demo_running \<and> s2 = demo_running"
proof -
  obtain s1 where s1: "updateConfig ''linux'' None demo_running = (Returned (Some ''missing configuration update''), s1)"
    by (simp add: updateConfig_def)
  obtain s2 where s2: "setupConfig ''linux'' demo_parse (\<lambda>_. []) []
      (Some (demo_setup\<lparr>su_Config := Some (demo_raw\<lparr>rw_MixedPort := 1\<rparr>)\<rparr>)) demo_running =
      (Returned (Some ''bad port''), s2)"
    by (simp add: setupConfig_def demo_parse_def demo_setup_def)
  show ?thesis using rejected_change_keeps_core s1 s2 by metis
qed


theorem listeners_follow_profile_witness:
  "co_isRunning demo_running \<and> listeners_current ''linux'' demo_running"
proof -
  have "core_run ''linux'' core_start False demo_ready"
    using core_run.onward [OF core_run.here core_step.setup_config [OF demo_ready_eq(1)]] by simp
  from core_run.onward [OF this core_step.start_listener [OF demo_running_eq(1)]]
  have "core_run ''linux'' core_start False demo_running" by simp
  from listeners_follow_profile [OF this] demo_running_eq show ?thesis by simp
qed

end
