(* ===== verification/CoreLogs.thy ===== *)
theory CoreLogs
  imports GoStd
begin

text \<open>
  The log buffer of the proxy core (\<open>src/core/hub.go\<close>): subscribing to the log of the
  vendored core, collecting its events, and draining them over the request channel. The
  abstract log keeps everything; the buffer is shown to be the last 500 messages of it.
\<close>

record LogEvent =
  le_LogLevel :: int
  le_Payload :: string

record Message =
  mg_Type :: string
  mg_Data :: LogEvent

definition coreLogBufferLimit :: nat where
  "coreLogBufferLimit = 500"

definition LogMessage :: string where
  "LogMessage = ''log''"

text \<open>
  A subscription is the number of its channel. \<open>lg_live\<close> lists the subscriptions whose
  channel is open, each with the goroutine of \<open>handleStartLog\<close> reading from it.
\<close>

record LogState =
  lg_subscriber :: "nat option"
  lg_live :: "nat list"
  lg_level :: int
  lg_buffer :: "Message list"

text \<open>\<open>appendCoreLog\<close>: a full buffer is moved down by one place and cut before the message is added.\<close>

definition appendCoreLog :: "Message \<Rightarrow> Message list \<Rightarrow> Message list" where
  "appendCoreLog message buf =
     (let kept = (if coreLogBufferLimit \<le> length buf
                  then take (coreLogBufferLimit - 1) (tl buf @ [last buf]) else buf)
      in kept @ [message])"

text \<open>The body of the loop in \<open>handleStartLog\<close> for one event.\<close>

definition forward_log :: "LogEvent \<Rightarrow> LogState \<Rightarrow> LogState" where
  "forward_log logData s =
     (if le_LogLevel logData < lg_level s then s
      else s\<lparr>lg_buffer := appendCoreLog \<lparr>mg_Type = LogMessage, mg_Data = logData\<rparr> (lg_buffer s)\<rparr>)"

definition unsubscribe :: "LogState \<Rightarrow> LogState" where
  "unsubscribe s =
     (case lg_subscriber s of
        None \<Rightarrow> s
      | Some k \<Rightarrow> s\<lparr>lg_live := removeAll k (lg_live s), lg_subscriber := None\<rparr>)"

text \<open>\<open>fresh\<close> is the channel \<open>log.Subscribe\<close> returns.\<close>

definition handleStartLog :: "nat \<Rightarrow> LogState \<Rightarrow> LogState" where
  "handleStartLog fresh s =
     (let s1 = unsubscribe s in s1\<lparr>lg_subscriber := Some fresh, lg_live := lg_live s1 @ [fresh]\<rparr>)"

definition handleStopLog :: "LogState \<Rightarrow> LogState" where
  "handleStopLog s = unsubscribe s"

text \<open>\<open>marshal\<close> is \<open>json.Marshal\<close> of the messages.\<close>

definition handleDrainLogs :: "(Message list \<Rightarrow> string option) \<Rightarrow> LogState \<Rightarrow> string \<times> LogState" where
  "handleDrainLogs marshal s =
     (let messages = lg_buffer s;
          s1 = s\<lparr>lg_buffer := []\<rparr>
      in if messages = [] then (''[]'', s1)
         else (case marshal messages of None \<Rightarrow> (''[]'', s1) | Some data \<Rightarrow> (data, s1)))"

text \<open>The vendored core logs an event: every open subscription gets it.\<close>

definition publish_log :: "LogEvent \<Rightarrow> LogState \<Rightarrow> LogState" where
  "publish_log e s = fold (\<lambda>_ s. forward_log e s) (lg_live s) s"

section \<open>Requests and events in sequence\<close>

datatype log_op = LogStart nat | LogStop | LogEvt LogEvent | LogLevel int | LogDrain

fun log_exec :: "(Message list \<Rightarrow> string option) \<Rightarrow> log_op \<Rightarrow> LogState \<Rightarrow> LogState" where
  "log_exec marshal (LogStart fresh) s = handleStartLog fresh s"
| "log_exec marshal LogStop s = handleStopLog s"
| "log_exec marshal (LogEvt e) s = publish_log e s"
| "log_exec marshal (LogLevel l) s = s\<lparr>lg_level := l\<rparr>"
| "log_exec marshal LogDrain s = snd (handleDrainLogs marshal s)"

definition log_start :: "int \<Rightarrow> LogState" where
  "log_start level = \<lparr>lg_subscriber = None, lg_live = [], lg_level = level, lg_buffer = []\<rparr>"

text \<open>
  What the log promises: a switch, a level and, without a bound, the messages of the events
  at or above the level while the switch is on, since the last drain.
\<close>

record AbsLog =
  al_on :: bool
  al_level :: int
  al_pending :: "Message list"

fun abs_exec :: "log_op \<Rightarrow> AbsLog \<Rightarrow> AbsLog" where
  "abs_exec (LogStart fresh) a = a\<lparr>al_on := True\<rparr>"
| "abs_exec LogStop a = a\<lparr>al_on := False\<rparr>"
| "abs_exec (LogEvt e) a =
     (if al_on a \<and> al_level a \<le> le_LogLevel e
      then a\<lparr>al_pending := al_pending a @ [\<lparr>mg_Type = LogMessage, mg_Data = e\<rparr>]\<rparr> else a)"
| "abs_exec (LogLevel l) a = a\<lparr>al_level := l\<rparr>"
| "abs_exec LogDrain a = a\<lparr>al_pending := []\<rparr>"

definition log_refines :: "LogState \<Rightarrow> AbsLog \<Rightarrow> bool" where
  "log_refines s a =
     ((lg_subscriber s \<noteq> None) = al_on a \<and>
      lg_live s = (case lg_subscriber s of None \<Rightarrow> [] | Some k \<Rightarrow> [k]) \<and>
      lg_level s = al_level a \<and>
      lg_buffer s = take_last coreLogBufferLimit (al_pending a))"

lemma appendCoreLog_small:
  assumes "length xs \<le> coreLogBufferLimit"
  shows "appendCoreLog x xs = take_last coreLogBufferLimit (xs @ [x])"
proof (cases "length xs < coreLogBufferLimit")
  case True
  then show ?thesis by (simp add: appendCoreLog_def)
next
  case False
  with assms have len: "length xs = coreLogBufferLimit" by simp
  then obtain y ys where xs: "xs = y # ys" by (cases xs) (auto simp: coreLogBufferLimit_def)
  then show ?thesis using len by (simp add: appendCoreLog_def take_last_def)
qed

interpretation core_log: bounded_log appendCoreLog coreLogBufferLimit
  by unfold_locales (simp_all add: appendCoreLog_small, simp add: coreLogBufferLimit_def)

section \<open>The buffer is the end of the log\<close>

lemma forward_refines:
  assumes "lg_level s = al_level a" and "lg_buffer s = take_last coreLogBufferLimit (al_pending a)"
    and "al_on a"
  shows "lg_buffer (forward_log e s) = take_last coreLogBufferLimit (al_pending (abs_exec (LogEvt e) a))"
proof (cases "le_LogLevel e < al_level a")
  case True
  then show ?thesis using assms by (simp add: forward_log_def)
next
  case False
  let ?m = "\<lparr>mg_Type = LogMessage, mg_Data = e\<rparr>"
  have "appendCoreLog ?m (take_last coreLogBufferLimit (al_pending a)) =
      take_last coreLogBufferLimit (al_pending a @ [?m])"
    using core_log.fold_push [of "al_pending a @ [?m]"] core_log.fold_push [of "al_pending a"] by simp
  then show ?thesis using False assms by (simp add: forward_log_def)
qed

lemma forward_keeps:
  "lg_subscriber (forward_log e s) = lg_subscriber s" "lg_live (forward_log e s) = lg_live s"
  "lg_level (forward_log e s) = lg_level s"
  by (simp_all add: forward_log_def)

lemma exec_refines: "log_refines s a \<Longrightarrow> log_refines (log_exec marshal c s) (abs_exec c a)"
proof (cases c)
  case (LogStart fresh)
  assume "log_refines s a"
  then show ?thesis
    by (simp add: LogStart handleStartLog_def unsubscribe_def log_refines_def Let_def split: option.splits)
next
  case LogStop
  assume "log_refines s a"
  then show ?thesis
    by (auto simp: LogStop handleStopLog_def unsubscribe_def log_refines_def split: option.splits)
next
  case (LogEvt e)
  assume r: "log_refines s a"
  show ?thesis
  proof (cases "lg_subscriber s")
    case None
    then show ?thesis using r by (auto simp: LogEvt log_refines_def publish_log_def)
  next
    case (Some k)
    then have "publish_log e s = forward_log e s" and on: "al_on a"
      using r by (auto simp: log_refines_def publish_log_def)
    then show ?thesis
      using r forward_refines [of s a e] Some
      by (simp add: LogEvt log_refines_def forward_keeps del: abs_exec.simps(1,2,4,5))
  qed
next
  case (LogLevel l)
  assume "log_refines s a"
  then show ?thesis by (simp add: LogLevel log_refines_def)
next
  case LogDrain
  assume "log_refines s a"
  then show ?thesis
    by (auto simp: LogDrain handleDrainLogs_def log_refines_def Let_def split: option.splits)
qed

lemma execs_refine:
  "log_refines s a \<Longrightarrow> log_refines (fold (log_exec marshal) cs s) (fold abs_exec cs a)"
  by (induction cs arbitrary: s a) (auto intro: exec_refines)

text \<open>
  After any sequence of starting, stopping, level changes, events and drains, a drain returns
  the last 500 messages an unbounded log would hold since the drain before, each once and in
  order: starting the log again does not make an event arrive twice, and nothing logged while
  it is stopped or below the level gets in. The drain leaves nothing behind.
\<close>

theorem drain_returns_end_of_log:
  "handleDrainLogs marshal (fold (log_exec marshal) cs (log_start level)) =
     (let held = take_last 500 (al_pending (fold abs_exec cs \<lparr>al_on = False, al_level = level, al_pending = []\<rparr>))
      in (if held = [] then ''[]'' else (case marshal held of None \<Rightarrow> ''[]'' | Some data \<Rightarrow> data)),
     (fold (log_exec marshal) cs (log_start level))\<lparr>lg_buffer := []\<rparr>)"
proof -
  have "log_refines (log_start level) \<lparr>al_on = False, al_level = level, al_pending = []\<rparr>"
    by (simp add: log_refines_def log_start_def)
  from execs_refine [OF this, of marshal cs] show ?thesis
    by (simp add: log_refines_def handleDrainLogs_def Let_def coreLogBufferLimit_def split: option.split)
qed

end
