(* ===== verification/CoreProbe.thy ===== *)
theory CoreProbe
  imports Http
begin

text \<open>
  Streaming probes of the proxy core (\<open>src/core/streaming_probe.go\<close>): the table of runs with
  their cancellation, and one probe request. A run is shared by the table and by the requests
  that hold it, so the runs live in a store and the table holds their addresses.
\<close>

section \<open>The table of runs\<close>

text \<open>\<open>rn_cancelled\<close> is whether the context of the run is cancelled.\<close>

record streamingRun =
  rn_cancelled :: bool
  rn_active :: int
  rn_touched :: time

record Runs =
  rs_heap :: "streamingRun list"
  rs_items :: "nat gomap"

definition run_at :: "Runs \<Rightarrow> nat \<Rightarrow> streamingRun" where
  "run_at r a = rs_heap r ! a"

definition run_upd :: "nat \<Rightarrow> (streamingRun \<Rightarrow> streamingRun) \<Rightarrow> Runs \<Rightarrow> Runs" where
  "run_upd a f r = r\<lparr>rs_heap := (rs_heap r)[a := f (run_at r a)]\<rparr>"

definition run_cancel :: "nat \<Rightarrow> Runs \<Rightarrow> Runs" where
  "run_cancel a r = run_upd a (\<lambda>run. run\<lparr>rn_cancelled := True\<rparr>) r"

definition run_retention :: duration where
  "run_retention = minutes 15"

definition run_capacity :: nat where
  "run_capacity = 64"

definition run_expired :: "time \<Rightarrow> streamingRun \<Rightarrow> bool" where
  "run_expired now run = (rn_active run = 0 \<and> run_retention < time_sub now (rn_touched run))"

text \<open>The first loop of \<open>streamingRunLocked\<close>: idle runs out of their time go.\<close>

definition drop_expired :: "time \<Rightarrow> Runs \<Rightarrow> Runs" where
  "drop_expired now r =
     fold (\<lambda>e r. if run_expired now (run_at r (snd e))
                 then (run_cancel (snd e) r)\<lparr>rs_items := gm_del (fst e) (rs_items r)\<rparr> else r)
          (rs_items r) r"

text \<open>The second loop: the idle run touched longest ago; the order is that of the map.\<close>

fun oldest_idle :: "Runs \<Rightarrow> (string \<times> nat) list \<Rightarrow> (string \<times> nat) option \<Rightarrow> (string \<times> nat) option" where
  "oldest_idle r [] best = best"
| "oldest_idle r (e # es) best =
     (if rn_active (run_at r (snd e)) = 0 \<and>
         (case best of None \<Rightarrow> True
          | Some b \<Rightarrow> rn_touched (run_at r (snd e)) < rn_touched (run_at r (snd b)))
      then oldest_idle r es (Some e) else oldest_idle r es best)"

definition make_room :: "Runs \<Rightarrow> Runs" where
  "make_room r =
     (if run_capacity \<le> length (rs_items r) then
        (case oldest_idle r (rs_items r) None of
           None \<Rightarrow> r
         | Some (k, a) \<Rightarrow> (run_cancel a r)\<lparr>rs_items := gm_del k (rs_items r)\<rparr>)
      else r)"

definition streamingRunLocked :: "time \<Rightarrow> string \<Rightarrow> Runs \<Rightarrow> nat \<times> Runs" where
  "streamingRunLocked now i r =
     (let r1 = drop_expired now r in
      case gm_get (rs_items r1) i of
        Some a \<Rightarrow> (a, r1)
      | None \<Rightarrow>
          let r2 = make_room r1;
              a = length (rs_heap r2);
              run = \<lparr>rn_cancelled = False, rn_active = 0, rn_touched = now\<rparr>
          in (a, r2\<lparr>rs_heap := rs_heap r2 @ [run], rs_items := gm_set i a (rs_items r2)\<rparr>))"

text \<open>
  \<open>acquireStreamingRun\<close>: the run whose context the request gets (none, the background context,
  without an identifier); \<open>release_run\<close> is the function it returns.
\<close>

definition acquireStreamingRun :: "time \<Rightarrow> string \<Rightarrow> Runs \<Rightarrow> nat option \<times> Runs" where
  "acquireStreamingRun now i r =
     (if i = [] then (None, r)
      else let (a, r1) = streamingRunLocked now i r
           in (Some a, run_upd a (\<lambda>run. run\<lparr>rn_active := rn_active run + 1\<rparr>) r1))"

definition release_run :: "time \<Rightarrow> nat option \<Rightarrow> Runs \<Rightarrow> Runs" where
  "release_run now run r =
     (case run of
        None \<Rightarrow> r
      | Some a \<Rightarrow> run_upd a (\<lambda>run. run\<lparr>rn_active := rn_active run - 1, rn_touched := now\<rparr>) r)"

definition cancelStreamingProbes :: "time \<Rightarrow> string \<Rightarrow> Runs \<Rightarrow> Runs" where
  "cancelStreamingProbes now i r =
     (if i = [] then r
      else let (a, r1) = streamingRunLocked now i r
           in run_upd a (\<lambda>run. run\<lparr>rn_cancelled := True, rn_touched := now\<rparr>) r1)"

section \<open>One probe\<close>

record StreamingProbeParams =
  sp_RunID :: string
  sp_ProxyName :: string
  sp_URL :: string
  sp_Method :: string
  sp_Body :: string
  sp_Timeout :: int
  sp_MaxBodySize :: int
  sp_Headers :: "string gomap"
  sp_NoRedirect :: bool

record StreamingProbeResult =
  sr_OK :: bool
  sr_StatusCode :: int
  sr_FinalURL :: string
  sr_Headers :: "string gomap"
  sr_Body :: string
  sr_ElapsedMs :: int
  sr_Truncated :: bool
  sr_Error :: string

definition empty_result :: StreamingProbeResult where
  "empty_result = \<lparr>sr_OK = False, sr_StatusCode = 0, sr_FinalURL = [], sr_Headers = [], sr_Body = [],
     sr_ElapsedMs = 0, sr_Truncated = False, sr_Error = []\<rparr>"

text \<open>
  What \<open>client.Do\<close> gives back: the status, the final address, the headers and the bytes the
  body yields, with the error reading them ends in and whether it comes with the last bytes.
\<close>

record probe_answer =
  pa_Status :: int
  pa_FinalURL :: string
  pa_Header :: header
  pa_Body :: string
  pa_ReadErr :: "string option"
  pa_ErrWithLast :: bool

record probe_call =
  pr_Method :: string
  pr_URL :: string
  pr_Body :: "string option"
  pr_Header :: header
  pr_Timeout :: duration
  pr_NoRedirect :: bool
  pr_Run :: "nat option"

text \<open>\<open>CheckRedirect\<close> of the client: \<open>None\<close> follows, \<open>Some\<close> is the error.\<close>

definition checkRedirect :: "bool \<Rightarrow> nat \<Rightarrow> string option" where
  "checkRedirect noRedirect via =
     (if noRedirect then Some ''net/http: use last response''
      else if 8 \<le> via then Some ''too many redirects'' else None)"

definition probe_timeout :: "int \<Rightarrow> duration" where
  "probe_timeout ms = (let t = wrap64 (ms * 1000000) in if t \<le> 0 then seconds 8 else t)"

definition probe_max_body :: "int \<Rightarrow> int" where
  "probe_max_body n = (if n \<le> 0 \<or> n > 2 * 1024 * 1024 then 128 * 1024 else n)"

definition probe_method :: "(string \<Rightarrow> string) \<Rightarrow> string \<Rightarrow> string" where
  "probe_method upper m = (let m1 = upper (trim_space m) in if m1 = [] then ''GET'' else m1)"

definition probe_headers :: "string gomap \<Rightarrow> header" where
  "probe_headers hs =
     fold (\<lambda>e h. header_set (fst e) (snd e) h) hs
       (header_set ''Cache-Control'' ''no-cache''
         (header_set ''Accept-Language'' ''en-US,en;q=0.9''
           (header_set ''Accept'' ''text/html,application/xhtml+xml,application/json;q=0.9,*/*;q=0.8''
             (header_set ''User-Agent''
               (''Mozilla/5.0 (Windows NT 10.0; Win64; x64) AppleWebKit/537.36 (KHTML, like Gecko) '' @
                ''Chrome/138.0.0.0 Safari/537.36'') []))))"

text \<open>Reading the answer: at most one byte more than allowed is read.\<close>

definition read_answer :: "int \<Rightarrow> probe_answer \<Rightarrow> StreamingProbeResult" where
  "read_answer maxBodySize ans =
     (let limit = nat (maxBodySize + 1);
          data = take limit (pa_Body ans);
          readErr = (if limit < length (pa_Body ans) \<or>
                        limit = length (pa_Body ans) \<and> \<not> pa_ErrWithLast ans then None
                     else pa_ReadErr ans)
      in case readErr of
           Some err \<Rightarrow> empty_result\<lparr>sr_Error := err\<rparr>
         | None \<Rightarrow>
             let cut = (maxBodySize < int (length data));
                 body = (if cut then take (nat maxBodySize) data else data)
             in empty_result\<lparr>sr_OK := True, sr_StatusCode := pa_Status ans,
                  sr_FinalURL := pa_FinalURL ans,
                  sr_Headers := fold (\<lambda>e h. gm_set (fst e) (join_with '', '' (snd e)) h) (pa_Header ans) [],
                  sr_Body := body, sr_Truncated := cut\<rparr>)"

text \<open>
  \<open>handleStreamingProbe\<close>. The parameters: \<open>decoded\<close> is the decoded request, \<open>proxies\<close> whether a
  proxy has the name, \<open>upper\<close> is \<open>strings.ToUpper\<close>, \<open>new_request\<close> the check of
  \<open>http.NewRequestWithContext\<close>, \<open>send\<close> is \<open>client.Do\<close> with the proxy (\<open>Inl\<close> its error), and
  the clock at the start, when the run is taken, and at the end. \<open>during\<close> is what happens to the
  table while the request is on its way. The result holds the request that was sent, if any.
\<close>

definition handleStreamingProbe ::
    "(string \<Rightarrow> string) \<Rightarrow> (string \<Rightarrow> bool) \<Rightarrow> (string \<Rightarrow> string \<Rightarrow> string option)
     \<Rightarrow> (probe_call \<Rightarrow> string + probe_answer) \<Rightarrow> (Runs \<Rightarrow> Runs)
     \<Rightarrow> time \<times> time \<times> time \<Rightarrow> string + StreamingProbeParams \<Rightarrow> Runs
     \<Rightarrow> StreamingProbeResult \<times> probe_call option \<times> Runs" where
  "handleStreamingProbe upper proxies new_request send during clock decoded r =
     (let (started, taken, ended) = clock;
          finish = (\<lambda>res. res\<lparr>sr_ElapsedMs := go_div (time_sub ended started) 1000000\<rparr>)
      in case decoded of
           Inl err \<Rightarrow> (finish (empty_result\<lparr>sr_Error := err\<rparr>), None, r)
         | Inr params \<Rightarrow>
             if \<not> proxies (sp_ProxyName params)
             then (finish (empty_result\<lparr>sr_Error := ''proxy not found''\<rparr>), None, r)
             else
               let timeout = probe_timeout (sp_Timeout params);
                   maxBodySize = probe_max_body (sp_MaxBodySize params);
                   (run, r1) = acquireStreamingRun taken (sp_RunID params) r;
                   method = probe_method upper (sp_Method params)
               in if method \<noteq> ''GET'' \<and> method \<noteq> ''POST'' \<and> method \<noteq> ''HEAD''
                  then (finish (empty_result\<lparr>sr_Error := ''unsupported HTTP method''\<rparr>), None,
                        release_run ended run r1)
                  else
                    (case new_request method (sp_URL params) of
                       Some err \<Rightarrow> (finish (empty_result\<lparr>sr_Error := err\<rparr>), None, release_run ended run r1)
                     | None \<Rightarrow>
                         let req = \<lparr>pr_Method = method, pr_URL = sp_URL params,
                                    pr_Body = (if sp_Body params \<noteq> [] then Some (sp_Body params) else None),
                                    pr_Header = probe_headers (sp_Headers params), pr_Timeout = timeout,
                                    pr_NoRedirect = sp_NoRedirect params, pr_Run = run\<rparr>;
                             res = (case send req of
                                      Inl err \<Rightarrow> empty_result\<lparr>sr_Error := err\<rparr>
                                    | Inr ans \<Rightarrow> read_answer maxBodySize ans)
                         in (finish res, Some req, release_run ended run (during r1))))"

end
