(* ===== verification/CoreProbeProps.thy ===== *)
theory CoreProbeProps
  imports CoreProbe "HOL-Library.Multiset"
begin

text \<open>
  The properties of streaming probes: a run that requests hold is never evicted and only its
  own cancellation stops them, a stopped run stays stopped while it is retained, and a probe
  never gives back more of a body than it may.
\<close>

section \<open>The table as a system of steps\<close>

text \<open>
  The critical sections of requests and cancellations. The second part of the state lists the
  runs that requests hold, with repetition; a map may be ranged over in any order.
\<close>

datatype probe_ev = PAcquire string | PRelease nat | PCancel string | PReorder

inductive probe_step :: "time \<Rightarrow> probe_ev \<Rightarrow> Runs \<times> nat list \<Rightarrow> Runs \<times> nat list \<Rightarrow> bool" where
  acquire: "acquireStreamingRun now i r = (Some a, r') \<Longrightarrow> probe_step now (PAcquire i) (r, out) (r', a # out)"
| release: "a \<in> set out \<Longrightarrow> probe_step now (PRelease a) (r, out) (release_run now (Some a) r, remove1 a out)"
| cancel: "probe_step now (PCancel i) (r, out) (cancelStreamingProbes now i r, out)"
| reorder: "mset (rs_items r') = mset (rs_items r) \<Longrightarrow> rs_heap r' = rs_heap r \<Longrightarrow>
    probe_step now PReorder (r, out) (r', out)"

inductive probe_reach :: "Runs \<times> nat list \<Rightarrow> bool" where
  start: "probe_reach (\<lparr>rs_heap = [], rs_items = []\<rparr>, [])"
| onward: "probe_reach p \<Longrightarrow> probe_step now ev p q \<Longrightarrow> probe_reach q"

abbreviation held :: "Runs \<Rightarrow> string \<Rightarrow> nat option" where
  "held r k \<equiv> gm_get (rs_items r) k"

definition runs_inv :: "Runs \<Rightarrow> nat list \<Rightarrow> bool" where
  "runs_inv r out =
     (distinct (map fst (rs_items r)) \<and> distinct (map snd (rs_items r)) \<and>
      (\<forall>a \<in> snd ` set (rs_items r). a < length (rs_heap r)) \<and>
      (\<forall>a < length (rs_heap r). rn_active (run_at r a) = int (count_list out a)) \<and>
      set out \<subseteq> snd ` set (rs_items r))"

lemma run_at_upd:
  "a < length (rs_heap r) \<Longrightarrow> run_at (run_upd a f r) b = (if a = b then f (run_at r a) else run_at r b)"
  by (simp add: run_at_def run_upd_def nth_list_update)

lemma run_upd_fields [simp]:
  "rs_items (run_upd a f r) = rs_items r" "length (rs_heap (run_upd a f r)) = length (rs_heap r)"
  by (simp_all add: run_upd_def)

lemma run_at_items [simp]: "run_at (r\<lparr>rs_items := m\<rparr>) a = run_at r a"
  by (simp add: run_at_def)

lemma held_in: "held r k = Some a \<Longrightarrow> (k, a) \<in> set (rs_items r)"
  by (rule map_of_SomeD)

lemma held_iff: "distinct (map fst (rs_items r)) \<Longrightarrow> held r k = Some a \<longleftrightarrow> (k, a) \<in> set (rs_items r)"
  by (rule map_of_eq_Some_iff)

lemma held_inj:
  assumes "runs_inv r out" and "held r k = Some a" and "held r k' = Some a"
  shows "k = k'"
proof -
  have "distinct (map snd (rs_items r))" using assms(1) by (simp add: runs_inv_def)
  then have "inj_on snd (set (rs_items r))" by (simp add: distinct_map)
  from inj_onD [OF this _ held_in [OF assms(2)] held_in [OF assms(3)]] show ?thesis by simp
qed

lemma held_range: "runs_inv r out \<Longrightarrow> held r k = Some a \<Longrightarrow> a < length (rs_heap r)"
  using held_in [of r k a] unfolding runs_inv_def by (metis image_eqI snd_conv)

lemma address_held:
  assumes "runs_inv r out" and "a \<in> snd ` set (rs_items r)"
  obtains k where "held r k = Some a"
proof -
  obtain k where "(k, a) \<in> set (rs_items r)" using assms(2) by auto
  then have "held r k = Some a" using assms(1) held_iff [of r k a] by (simp add: runs_inv_def)
  then show thesis by (rule that)
qed

lemma out_held: "runs_inv r out \<Longrightarrow> a \<in> set out \<Longrightarrow> a \<in> snd ` set (rs_items r)"
  unfolding runs_inv_def by blast

section \<open>Evicting a run\<close>

definition evict :: "string \<Rightarrow> nat \<Rightarrow> Runs \<Rightarrow> Runs" where
  "evict k a r = (run_cancel a r)\<lparr>rs_items := gm_del k (rs_items r)\<rparr>"

lemma held_evict: "held (evict k a r) k' = (if k' = k then None else held r k')"
  by (simp add: evict_def)

lemma evict_fields [simp]: "length (rs_heap (evict k a r)) = length (rs_heap r)"
  by (simp add: evict_def run_cancel_def)

lemma run_at_evict:
  "a < length (rs_heap r) \<Longrightarrow>
   run_at (evict k a r) b = (if a = b then (run_at r a)\<lparr>rn_cancelled := True\<rparr> else run_at r b)"
  by (simp add: evict_def run_cancel_def run_at_upd)

text \<open>
  What removing runs does: nothing but take idle runs for which \<open>P\<close> holds out of the table.
\<close>

definition shrinks :: "(nat \<Rightarrow> bool) \<Rightarrow> Runs \<Rightarrow> Runs \<Rightarrow> bool" where
  "shrinks P r r' =
     (length (rs_heap r') = length (rs_heap r) \<and>
      (\<forall>a < length (rs_heap r). rn_active (run_at r' a) = rn_active (run_at r a) \<and>
         rn_touched (run_at r' a) = rn_touched (run_at r a)) \<and>
      (\<forall>k a. held r' k = Some a \<longrightarrow> held r k = Some a \<and>
         rn_cancelled (run_at r' a) = rn_cancelled (run_at r a)) \<and>
      (\<forall>k a. held r k = Some a \<longrightarrow> held r' k = Some a \<or> rn_active (run_at r a) = 0 \<and> P a))"

lemma shrinks_refl: "shrinks P r r"
  by (simp add: shrinks_def)

lemma shrinks_trans:
  assumes "shrinks P r r1" and "shrinks P r1 r2" and "runs_inv r out"
  shows "shrinks P r r2"
proof -
  have "held r2 k = Some a \<or> rn_active (run_at r a) = 0 \<and> P a" if "held r k = Some a" for k a
    using assms(1,2) that held_range [OF assms(3) that] unfolding shrinks_def by metis
  moreover have "held r k = Some a \<and> rn_cancelled (run_at r2 a) = rn_cancelled (run_at r a)"
    if "held r2 k = Some a" for k a
    using assms(1,2) that unfolding shrinks_def by metis
  ultimately show ?thesis using assms(1,2) unfolding shrinks_def by simp
qed

lemma evict_ok:
  assumes inv: "runs_inv r out" and "held r k = Some a" and idle: "rn_active (run_at r a) = 0"
  shows "runs_inv (evict k a r) out" and "P a \<Longrightarrow> shrinks P r (evict k a r)"
proof -
  have a: "a < length (rs_heap r)" using held_range [OF assms(1,2)] .
  then have "a \<notin> set out"
    using inv idle by (auto simp: runs_inv_def count_list_0_iff)
  have sub: "set (rs_items (evict k a r)) = {e \<in> set (rs_items r). fst e \<noteq> k}"
    by (auto simp: evict_def gm_del_def)
  have "distinct (map fst (rs_items (evict k a r)))" "distinct (map snd (rs_items (evict k a r)))"
    using inv by (auto simp: evict_def gm_del_def runs_inv_def distinct_map_filter)
  moreover have "set out \<subseteq> snd ` set (rs_items (evict k a r))"
  proof
    fix b assume b: "b \<in> set out"
    then obtain k' where k': "held r k' = Some b" using address_held [OF inv out_held [OF inv]] by blast
    with b \<open>a \<notin> set out\<close> assms(2) have "k' \<noteq> k" by auto
    with held_in [OF k'] show "b \<in> snd ` set (rs_items (evict k a r))" by (force simp: sub)
  qed
  ultimately show "runs_inv (evict k a r) out"
    using inv a by (auto simp: runs_inv_def sub run_at_evict)
  assume "P a"
  have other: "b \<noteq> a" if "held r k' = Some b" "k' \<noteq> k" for k' b
    using held_inj [OF inv assms(2), of k'] that by auto
  show "shrinks P r (evict k a r)"
    using a idle \<open>P a\<close> assms(2) other
    by (auto simp: shrinks_def held_evict run_at_evict split: if_splits)
qed

lemma drop_loop:
  assumes "runs_inv r out" and "distinct (map fst es)" and "\<And>e. e \<in> set es \<Longrightarrow> held r (fst e) = Some (snd e)"
    and "\<And>a. a < length (rs_heap r) \<Longrightarrow> run_expired now (run_at r a) = P a"
  shows "let r' = fold (\<lambda>e r. if run_expired now (run_at r (snd e)) then evict (fst e) (snd e) r else r) es r
    in runs_inv r' out \<and> shrinks P r r'"
  using assms
proof (induction es arbitrary: r)
  case Nil
  then show ?case by (simp add: shrinks_refl)
next
  case (Cons e es)
  show ?case
  proof (cases "run_expired now (run_at r (snd e))")
    case False
    then show ?thesis using Cons.IH [OF Cons.prems(1) _ _ Cons.prems(4)] Cons.prems(2,3) by simp
  next
    case True
    let ?r1 = "evict (fst e) (snd e) r"
    have e: "held r (fst e) = Some (snd e)" using Cons.prems(3) by simp
    have idle: "rn_active (run_at r (snd e)) = 0" using True by (simp add: run_expired_def)
    have "P (snd e)" using True Cons.prems(4) held_range [OF Cons.prems(1) e] by simp
    with evict_ok [OF Cons.prems(1) e idle]
    have ok: "runs_inv ?r1 out" "shrinks P r ?r1" by simp_all
    have "held ?r1 (fst e') = Some (snd e')" if "e' \<in> set es" for e'
      using that Cons.prems(2,3) by (auto simp: held_evict image_iff)
    moreover have "run_expired now (run_at ?r1 a) = P a" if "a < length (rs_heap ?r1)" for a
      using that Cons.prems(4) ok(2) by (simp add: run_expired_def shrinks_def)
    ultimately show ?thesis
      using Cons.IH [OF ok(1)] Cons.prems(2) True shrinks_trans [OF ok(2) _ Cons.prems(1)]
      by (simp add: Let_def)
  qed
qed

lemma drop_expired_ok:
  assumes "runs_inv r out"
  shows "runs_inv (drop_expired now r) out"
    and "shrinks (\<lambda>a. run_expired now (run_at r a)) r (drop_expired now r)"
proof -
  have "drop_expired now r =
      fold (\<lambda>e r. if run_expired now (run_at r (snd e)) then evict (fst e) (snd e) r else r) (rs_items r) r"
    unfolding drop_expired_def evict_def by (rule refl)
  moreover have "held r (fst e) = Some (snd e)" if "e \<in> set (rs_items r)" for e
    using that assms held_iff [of r "fst e" "snd e"] by (simp add: runs_inv_def)
  ultimately show "runs_inv (drop_expired now r) out"
    and "shrinks (\<lambda>a. run_expired now (run_at r a)) r (drop_expired now r)"
    using drop_loop [OF assms, of "rs_items r" now "\<lambda>a. run_expired now (run_at r a)"] assms
    by (simp_all add: Let_def runs_inv_def)
qed

text \<open>The table is full and \<open>a\<close> is the idle run touched longest ago.\<close>

definition crowded_out :: "Runs \<Rightarrow> nat \<Rightarrow> bool" where
  "crowded_out r a =
     (run_capacity \<le> length (rs_items r) \<and>
      (\<forall>b \<in> snd ` set (rs_items r). rn_active (run_at r b) = 0 \<longrightarrow>
         rn_touched (run_at r a) \<le> rn_touched (run_at r b)))"

lemma oldest_idle_spec:
  assumes "oldest_idle r es best = Some e" and "\<And>b. best = Some b \<Longrightarrow> rn_active (run_at r (snd b)) = 0"
  shows "(e \<in> set es \<or> best = Some e) \<and> rn_active (run_at r (snd e)) = 0 \<and>
    (\<forall>b \<in> set es \<union> set_option best. rn_active (run_at r (snd b)) = 0 \<longrightarrow>
       rn_touched (run_at r (snd e)) \<le> rn_touched (run_at r (snd b)))"
  using assms
proof (induction es arbitrary: best)
  case Nil
  then show ?case by simp
next
  case (Cons x es)
  show ?case
  proof (cases "rn_active (run_at r (snd x)) = 0 \<and>
      (case best of None \<Rightarrow> True | Some b \<Rightarrow> rn_touched (run_at r (snd x)) < rn_touched (run_at r (snd b)))")
    case True
    with Cons.prems have "oldest_idle r es (Some x) = Some e" by simp
    from Cons.IH [OF this] True Cons.prems show ?thesis by (auto split: option.splits)
  next
    case False
    then have "oldest_idle r es best = Some e" using Cons.prems(1) by auto
    from Cons.IH [OF this Cons.prems(2)] False Cons.prems(2) show ?thesis
      by (cases best) auto
  qed
qed

lemma make_room_ok:
  assumes inv: "runs_inv r out"
  shows "runs_inv (make_room r) out \<and> shrinks (crowded_out r) r (make_room r)"
proof (cases "make_room r = r")
  case True
  then show ?thesis using inv by (simp add: shrinks_refl)
next
  case False
  then obtain k a where full: "run_capacity \<le> length (rs_items r)"
    and old: "oldest_idle r (rs_items r) None = Some (k, a)" and room: "make_room r = evict k a r"
    by (auto simp: make_room_def evict_def split: if_splits option.splits)
  from oldest_idle_spec [OF old] have ka: "(k, a) \<in> set (rs_items r)" "rn_active (run_at r a) = 0"
    and "crowded_out r a"
    using full by (auto simp: crowded_out_def)
  moreover have "held r k = Some a" using ka(1) inv held_iff by (simp add: runs_inv_def)
  ultimately show ?thesis using evict_ok [OF inv] by (simp add: room)
qed

section \<open>One critical section\<close>

text \<open>
  What a step may do to a run of the table besides its own business: it stays, or it is idle
  and out of its time, or the table is full and it is the idle run touched longest ago.
\<close>

definition may_go :: "time \<Rightarrow> Runs \<Rightarrow> nat \<Rightarrow> bool" where
  "may_go now r a =
     (rn_active (run_at r a) = 0 \<and>
      (run_expired now (run_at r a) \<or>
       run_capacity \<le> length (rs_items r) \<and>
       (\<forall>b \<in> snd ` set (rs_items r). rn_active (run_at r b) = 0 \<and> \<not> run_expired now (run_at r b) \<longrightarrow>
          rn_touched (run_at r a) \<le> rn_touched (run_at r b))))"

lemma shrinks_kept:
  assumes "shrinks P r r'" and "runs_inv r out" and "held r k = Some b"
  shows "held r' k = Some b \<and> run_at r' b = run_at r b \<or> rn_active (run_at r b) = 0 \<and> P b"
proof -
  have b: "b < length (rs_heap r)" using held_range [OF assms(2,3)] .
  have "held r' k = Some b \<or> rn_active (run_at r b) = 0 \<and> P b"
    using assms(1,3) by (simp add: shrinks_def)
  moreover have "run_at r' b = run_at r b" if "held r' k = Some b"
    using assms(1) b that by (simp add: shrinks_def)
  ultimately show ?thesis by blast
qed

lemma shrinks_length:
  assumes "shrinks P r r'" and "runs_inv r out" and "runs_inv r' out"
  shows "length (rs_items r') \<le> length (rs_items r)"
proof -
  have "fst e \<in> set (map fst (rs_items r))" if "e \<in> set (rs_items r')" for e
  proof -
    have "held r' (fst e) = Some (snd e)" using that assms(3) held_iff by (simp add: runs_inv_def)
    then have "held r (fst e) = Some (snd e)" using assms(1) by (simp add: shrinks_def)
    from held_in [OF this] show ?thesis by force
  qed
  then have "set (map fst (rs_items r')) \<subseteq> set (map fst (rs_items r))" by auto
  from card_mono [OF _ this] show ?thesis
    using assms(2,3) distinct_card [of "map fst (rs_items r)"] distinct_card [of "map fst (rs_items r')"]
    by (simp add: runs_inv_def)
qed

lemma crowded_may_go:
  assumes inv: "runs_inv r out" and idle: "rn_active (run_at r1 b) = 0" "crowded_out r1 b"
    and r1: "r1 = drop_expired now r" and same: "run_at r1 b = run_at r b"
  shows "may_go now r b"
proof -
  note d = drop_expired_ok [OF inv, of now, folded r1]
  have "run_capacity \<le> length (rs_items r)"
    using idle(2) shrinks_length [OF d(2) inv d(1)] by (simp add: crowded_out_def)
  moreover have "rn_touched (run_at r b) \<le> rn_touched (run_at r c)"
    if "c \<in> snd ` set (rs_items r)" "rn_active (run_at r c) = 0" "\<not> run_expired now (run_at r c)" for c
  proof -
    note c = that
    obtain k where "held r k = Some c" by (rule address_held [OF inv c(1)])
    with shrinks_kept [OF d(2) inv this] c(3)
    have "held r1 k = Some c" and same_c: "run_at r1 c = run_at r c" by simp_all
    from held_in [OF this(1)] have "c \<in> snd ` set (rs_items r1)" by force
    with idle(2) c(2) same_c same show ?thesis by (auto simp: crowded_out_def)
  qed
  ultimately show ?thesis using idle(1) same by (simp add: may_go_def)
qed

lemma gm_set_new: "gm_get m i = None \<Longrightarrow> gm_set i v m = m @ [(i, v)]"
  by (induction m) (auto split: if_splits)

lemma new_run_ok:
  fixes r :: Runs and run :: streamingRun and i :: string
  defines "r' \<equiv> r\<lparr>rs_heap := rs_heap r @ [run], rs_items := gm_set i (length (rs_heap r)) (rs_items r)\<rparr>"
  assumes inv: "runs_inv r out" and new: "held r i = None" and "rn_active run = 0"
  shows "runs_inv r' out" and "held r' i = Some (length (rs_heap r))"
    and "held r k = Some b \<Longrightarrow> held r' k = Some b \<and> run_at r' b = run_at r b"
proof -
  have items: "rs_items r' = rs_items r @ [(i, length (rs_heap r))]"
    using new by (simp add: r'_def gm_set_new)
  have old: "run_at r' b = run_at r b" if "b < length (rs_heap r)" for b
    using that by (simp add: r'_def run_at_def nth_append)
  have top: "run_at r' (length (rs_heap r)) = run" by (simp add: r'_def run_at_def)
  have "length (rs_heap r) \<notin> set out"
    using inv out_held [OF inv, of "length (rs_heap r)"] unfolding runs_inv_def by (meson less_irrefl)
  moreover have "length (rs_heap r') = Suc (length (rs_heap r))" by (simp add: r'_def)
  ultimately show "runs_inv r' out"
    using inv new assms(4) old top
    by (auto simp: runs_inv_def items less_Suc_eq map_of_eq_None_iff count_list_0_iff)
  show "held r' i = Some (length (rs_heap r))" by (simp add: r'_def)
  assume k: "held r k = Some b"
  then show "held r' k = Some b \<and> run_at r' b = run_at r b"
    using new old held_range [OF inv k] by (auto simp: r'_def)
qed

lemma locked_ok:
  assumes inv: "runs_inv r out" and run: "streamingRunLocked now i r = (a, r')"
  shows "runs_inv r' out" and "held r' i = Some a"
    and "held r k = Some b \<Longrightarrow> held r' k = Some b \<and> run_at r' b = run_at r b \<or> may_go now r b"
proof -
  define r1 where "r1 = drop_expired now r"
  note d = drop_expired_ok [OF inv, of now, folded r1_def]
  have first: "held r1 k = Some b \<and> run_at r1 b = run_at r b \<or> may_go now r b" if "held r k = Some b" for k b
    using shrinks_kept [OF d(2) inv that] by (auto simp: may_go_def)
  have "runs_inv r' out \<and> held r' i = Some a \<and>
    (\<forall>k b. held r k = Some b \<longrightarrow> held r' k = Some b \<and> run_at r' b = run_at r b \<or> may_go now r b)"
  proof (cases "held r1 i")
    case (Some a')
    then show ?thesis
      using run d(1) first by (auto simp: streamingRunLocked_def Let_def simp flip: r1_def)
  next
    case None
    define r2 where "r2 = make_room r1"
    have r2: "runs_inv r2 out" "shrinks (crowded_out r1) r1 r2"
      using make_room_ok [OF d(1)] by (simp_all add: r2_def)
    have "held r2 i = None" using None r2(2) unfolding shrinks_def by (metis not_Some_eq)
    note new = new_run_ok [OF r2(1) this, of "\<lparr>rn_cancelled = False, rn_active = 0, rn_touched = now\<rparr>"]
    have r': "a = length (rs_heap r2)" "r' = r2\<lparr>rs_heap := rs_heap r2 @
        [\<lparr>rn_cancelled = False, rn_active = 0, rn_touched = now\<rparr>],
        rs_items := gm_set i (length (rs_heap r2)) (rs_items r2)\<rparr>"
      using run None by (auto simp: streamingRunLocked_def Let_def simp flip: r1_def r2_def)
    have "held r' k = Some b \<and> run_at r' b = run_at r b \<or> may_go now r b" if k: "held r k = Some b" for k b
    proof (cases "held r1 k = Some b \<and> run_at r1 b = run_at r b")
      case True
      with shrinks_kept [OF r2(2) d(1), of k b] crowded_may_go [OF inv _ _ r1_def, of b] new(3) [of k b]
      show ?thesis by (auto simp: r')
    next
      case False
      with first [OF k] show ?thesis by blast
    qed
    with new(1,2) show ?thesis by (simp add: r')
  qed
  then show "runs_inv r' out" and "held r' i = Some a"
    and "held r k = Some b \<Longrightarrow> held r' k = Some b \<and> run_at r' b = run_at r b \<or> may_go now r b"
    by blast+
qed

section \<open>Reachable tables\<close>

text \<open>Changing the counters of one run.\<close>

lemma upd_ok:
  assumes "runs_inv r out" and "a \<in> snd ` set (rs_items r)" and "set out' \<subseteq> insert a (set out)"
    and "\<And>b. b \<noteq> a \<Longrightarrow> count_list out' b = count_list out b"
    and "rn_active (f (run_at r a)) = int (count_list out' a)"
  shows "runs_inv (run_upd a f r) out'"
  using assms by (auto simp: runs_inv_def run_at_upd)

lemma held_upd [simp]: "held (run_upd a f r) k = held r k"
  by (simp add: run_upd_def)

lemma count_remove1: "count_list (remove1 a xs) b = count_list xs b - (if a = b then 1 else 0)"
  by (induction xs) (auto simp: count_list_0_iff)

lemma acquire_cases:
  assumes "acquireStreamingRun now i r = (Some a, r')"
  obtains r1 where "i \<noteq> []" and "streamingRunLocked now i r = (a, r1)"
    and "r' = run_upd a (\<lambda>run. run\<lparr>rn_active := rn_active run + 1\<rparr>) r1"
  using assms by (auto simp: acquireStreamingRun_def split: if_splits prod.splits)

lemma cancel_probe_cases:
  obtains "i = []" and "cancelStreamingProbes now i r = r"
  | a r1 where "i \<noteq> []" and "streamingRunLocked now i r = (a, r1)"
      and "cancelStreamingProbes now i r = run_upd a (\<lambda>run. run\<lparr>rn_cancelled := True, rn_touched := now\<rparr>) r1"
  by (cases "i = []"; cases "streamingRunLocked now i r") (auto simp: cancelStreamingProbes_def)

lemma held_address: "held r k = Some a \<Longrightarrow> a \<in> snd ` set (rs_items r)"
  using held_in by force

lemma active_count:
  "runs_inv r out \<Longrightarrow> a \<in> snd ` set (rs_items r) \<Longrightarrow> rn_active (run_at r a) = int (count_list out a)"
  unfolding runs_inv_def by blast

lemma perm_distinct: "mset xs = mset ys \<Longrightarrow> distinct (map f xs) = distinct (map f ys)"
  by (metis mset_eq_imp_distinct_iff mset_map)

lemma step_inv:
  "probe_step now ev p q \<Longrightarrow> runs_inv (fst p) (snd p) \<Longrightarrow> runs_inv (fst q) (snd q)"
proof (induction rule: probe_step.induct)
  case (acquire now i r a r' out)
  then have inv: "runs_inv r out" by simp
  from acquire(1) obtain r1 where run: "streamingRunLocked now i r = (a, r1)"
    and r': "r' = run_upd a (\<lambda>run. run\<lparr>rn_active := rn_active run + 1\<rparr>) r1"
    by (rule acquire_cases)
  note l = locked_ok(1,2) [OF inv run]
  show ?case
    unfolding r' fst_conv snd_conv
    by (rule upd_ok [OF l(1) held_address [OF l(2)]])
       (use active_count [OF l(1) held_address [OF l(2)]] in auto)
next
  case (release a out now r)
  then have inv: "runs_inv r out" by simp
  have a: "a \<in> snd ` set (rs_items r)" using out_held [OF inv release(1)] .
  have "0 < count_list out a" using release(1) by (metis count_list_0_iff gr0I)
  then show ?case
    unfolding release_run_def fst_conv snd_conv option.case
    by (intro upd_ok [OF inv a])
       (use active_count [OF inv a] in \<open>auto simp: count_remove1 dest: notin_set_remove1 [THEN contrapos_pp]\<close>)
next
  case (cancel now i r out)
  then have inv: "runs_inv r out" by simp
  show ?case
  proof (rule cancel_probe_cases [of i now r])
    assume "cancelStreamingProbes now i r = r"
    then show ?thesis using inv by simp
  next
    fix a r1
    assume run: "streamingRunLocked now i r = (a, r1)"
      and c: "cancelStreamingProbes now i r = run_upd a (\<lambda>run. run\<lparr>rn_cancelled := True, rn_touched := now\<rparr>) r1"
    note l = locked_ok(1,2) [OF inv run]
    show ?thesis
      unfolding c fst_conv snd_conv
      by (rule upd_ok [OF l(1) held_address [OF l(2)]])
         (use active_count [OF l(1) held_address [OF l(2)]] in auto)
  qed
next
  case (reorder r' r now out)
  then have inv: "runs_inv r out" by simp
  have "set (rs_items r') = set (rs_items r)" using reorder(1) by (rule mset_eq_setD)
  then show ?case using inv reorder(2) perm_distinct [OF reorder(1), of fst]
      perm_distinct [OF reorder(1), of snd] by (simp add: runs_inv_def run_at_def)
qed

lemma reach_inv: "probe_reach p \<Longrightarrow> runs_inv (fst p) (snd p)"
proof (induction rule: probe_reach.induct)
  case start
  then show ?case by (simp add: runs_inv_def)
next
  case (onward p now ev q)
  then show ?case using step_inv by blast
qed

text \<open>What one step does to a run that is in the table.\<close>

lemma step_kept:
  assumes "probe_step now ev p q" and "runs_inv (fst p) (snd p)" and "held (fst p) k = Some a"
  shows "held (fst q) k = Some a \<and>
      rn_cancelled (run_at (fst q) a) = (rn_cancelled (run_at (fst p) a) \<or> ev = PCancel k \<and> k \<noteq> []) \<and>
      (rn_touched (run_at (fst q) a) = rn_touched (run_at (fst p) a) \<or> rn_touched (run_at (fst q) a) = now) \<or>
    may_go now (fst p) a"
  using assms
proof (induction rule: probe_step.induct)
  case (acquire now i r b r' out)
  then have inv: "runs_inv r out" and k: "held r k = Some a" by simp_all
  from acquire(1) obtain r1 where run: "streamingRunLocked now i r = (b, r1)"
    and r': "r' = run_upd b (\<lambda>run. run\<lparr>rn_active := rn_active run + 1\<rparr>) r1"
    by (rule acquire_cases)
  note l = locked_ok [OF inv run]
  from l(3) [OF k] held_range [OF l(1,2)] show ?case by (auto simp: r' run_at_upd)
next
  case (release b out now r)
  then have inv: "runs_inv r out" and k: "held r k = Some a" by simp_all
  obtain k' where "held r k' = Some b" by (rule address_held [OF inv out_held [OF inv release(1)]])
  from k held_range [OF inv this] show ?case by (auto simp: release_run_def run_at_upd)
next
  case (cancel now i r out)
  then have inv: "runs_inv r out" and k: "held r k = Some a" by simp_all
  show ?case
  proof (rule cancel_probe_cases [of i now r])
    assume "i = []" "cancelStreamingProbes now i r = r"
    then show ?thesis using k by auto
  next
    fix b r1
    assume i: "i \<noteq> []" and run: "streamingRunLocked now i r = (b, r1)"
      and c: "cancelStreamingProbes now i r = run_upd b (\<lambda>run. run\<lparr>rn_cancelled := True, rn_touched := now\<rparr>) r1"
    note l = locked_ok [OF inv run]
    have "b = a \<longleftrightarrow> i = k" if "held r1 k = Some a"
      using held_inj [OF l(1) that, of i] l(2) that by auto
    with l(3) [OF k] held_range [OF l(1,2)] i show ?thesis by (auto simp: c run_at_upd)
  qed
next
  case (reorder r' r now out)
  then have inv: "runs_inv r out" by simp
  have "gm_wf (rs_items r')" using inv perm_distinct [OF reorder(1), of fst] by (simp add: runs_inv_def)
  then have "held r' k = Some a"
    using reorder inv mset_eq_setD [OF reorder(1)] held_iff [of r' k a] held_iff [of r k a]
    by (simp add: runs_inv_def)
  then show ?case using reorder(2) by (simp add: run_at_def)
qed

text \<open>
  A run that a request holds is in the table under one identifier. Whatever the other requests
  and cancellations do, whatever the clock reads and however full the table is, it stays
  there, and its context is cancelled only by a cancellation of that identifier.
\<close>

theorem active_run_spared:
  assumes "probe_reach (r, out)" and "a \<in> set out" and "probe_step now ev (r, out) (r', out')"
  shows "\<exists>k. held r k = Some a \<and> held r' k = Some a \<and>
    (ev = PCancel k \<or> rn_cancelled (run_at r' a) = rn_cancelled (run_at r a))"
proof -
  have inv: "runs_inv r out" using reach_inv [OF assms(1)] by simp
  have addr: "a \<in> snd ` set (rs_items r)" using out_held [OF inv assms(2)] .
  obtain k where k: "held r k = Some a" by (rule address_held [OF inv addr])
  have "\<not> may_go now r a"
    using active_count [OF inv addr] assms(2) by (auto simp: may_go_def count_list_0_iff)
  with step_kept [OF assms(3), of k a] inv k show ?thesis by auto
qed

section \<open>Stopped runs\<close>

text \<open>Steps between two readings of the clock, with the table never full.\<close>

inductive probe_run :: "time \<Rightarrow> time \<Rightarrow> Runs \<times> nat list \<Rightarrow> Runs \<times> nat list \<Rightarrow> bool" for lo hi p where
  here: "probe_run lo hi p p"
| onward: "\<lbrakk>probe_run lo hi p q; probe_step now ev q q'; lo \<le> now; now \<le> hi;
    length (rs_items (fst q)) < run_capacity\<rbrakk> \<Longrightarrow> probe_run lo hi p q'"

lemma fresh_not_expired: "t0 \<le> rn_touched run \<Longrightarrow> now \<le> t0 + run_retention \<Longrightarrow> \<not> run_expired now run"
  by (simp add: run_expired_def time_sub_def clamp64_def run_retention_def min_int64_def max_int64_def)

definition stopped :: "time \<Rightarrow> string \<Rightarrow> Runs \<Rightarrow> bool" where
  "stopped t0 i r = (\<exists>a. held r i = Some a \<and> rn_cancelled (run_at r a) \<and> t0 \<le> rn_touched (run_at r a))"

lemma run_stopped:
  assumes "probe_run t0 (t0 + run_retention) p q" and "runs_inv (fst p) (snd p)" and "stopped t0 i (fst p)"
  shows "runs_inv (fst q) (snd q) \<and> stopped t0 i (fst q)"
  using assms
proof (induction rule: probe_run.induct)
  case here
  then show ?case by simp
next
  case (onward q now ev q')
  then have inv: "runs_inv (fst q) (snd q)" and "stopped t0 i (fst q)" by simp_all
  then obtain a where a: "held (fst q) i = Some a" "rn_cancelled (run_at (fst q) a)"
    "t0 \<le> rn_touched (run_at (fst q) a)" by (auto simp: stopped_def)
  have "\<not> may_go now (fst q) a"
    using onward.hyps(4,5) fresh_not_expired [OF a(3), of now] by (simp add: may_go_def)
  with step_kept [OF onward.hyps(2) inv a(1)] a onward.hyps(3)
  have "stopped t0 i (fst q')" by (auto simp: stopped_def)
  with step_inv [OF onward.hyps(2) inv] show ?case by simp
qed

lemma cancel_stops:
  assumes "runs_inv r out" and "i \<noteq> []"
  shows "stopped now i (cancelStreamingProbes now i r)"
proof (rule cancel_probe_cases [of i now r])
  fix a r1
  assume run: "streamingRunLocked now i r = (a, r1)"
    and c: "cancelStreamingProbes now i r = run_upd a (\<lambda>run. run\<lparr>rn_cancelled := True, rn_touched := now\<rparr>) r1"
  note l = locked_ok(1,2) [OF assms(1) run]
  show ?thesis using l(2) held_range [OF l] by (simp add: stopped_def c run_at_upd)
qed (use assms(2) in simp)

text \<open>
  Property C24. A stopped run cannot be started again: for 15 minutes after its cancellation, whatever other
  requests, releases and cancellations come in between while the table has room, a request
  that arrives for the run gets a context that is cancelled already.
\<close>

theorem stopped_run_stays_stopped:
  assumes "probe_reach (r, out)" and "i \<noteq> []"
    and "probe_run t0 (t0 + run_retention) (cancelStreamingProbes t0 i r, out) (r1, out1)"
    and "length (rs_items r1) < run_capacity" and "t0 \<le> now" and "now \<le> t0 + run_retention"
    and "acquireStreamingRun now i r1 = (Some a, r2)"
  shows "rn_cancelled (run_at r2 a)"
proof -
  have inv: "runs_inv r out" using reach_inv [OF assms(1)] by simp
  have inv0: "runs_inv (cancelStreamingProbes t0 i r) out"
    using step_inv [OF probe_step.cancel [of t0 i r out]] inv by simp
  have "stopped t0 i r1" and inv1: "runs_inv r1 out1"
    using run_stopped [OF assms(3), of i] inv0 cancel_stops [OF inv assms(2), of t0] by simp_all
  then obtain b where b: "held r1 i = Some b" "rn_cancelled (run_at r1 b)" "t0 \<le> rn_touched (run_at r1 b)"
    by (auto simp: stopped_def)
  have keep: "\<not> may_go now r1 b"
    using assms(4,6) fresh_not_expired [OF b(3), of now] by (simp add: may_go_def)
  have step: "probe_step now (PAcquire i) (r1, out1) (r2, a # out1)" using assms(7) by (rule probe_step.acquire)
  from step_kept [OF step, of i b] inv1 b keep
  have "held r2 i = Some b" "rn_cancelled (run_at r2 b)" by simp_all
  moreover obtain r' where "streamingRunLocked now i r1 = (a, r')" and "rs_items r2 = rs_items r'"
    using assms(7) by (rule acquire_cases) simp
  ultimately show ?thesis using locked_ok(2) [OF inv1, of now i a r'] by simp
qed

section \<open>What a probe gives back\<close>

lemma read_answer_bounds:
  assumes "0 \<le> limit" and "read_answer limit ans = res"
  shows "int (length (sr_Body res)) \<le> limit"
    and "sr_OK res \<Longrightarrow> sr_Body res = take (nat limit) (pa_Body ans) \<and>
      sr_Truncated res = (limit < int (length (pa_Body ans)))"
  using assms
  by (auto simp: read_answer_def empty_result_def Let_def min_def take_all_iff nat_add_distrib
        split: option.splits if_splits)

lemma probe_max_body_range: "0 < probe_max_body n \<and> probe_max_body n \<le> 2097152"
  by (simp add: probe_max_body_def)

text \<open>
  Property C30. A probe gives back at most 2 MiB of a body. It reports success only for a request that was
  sent, through a proxy that exists, with one of the methods GET, POST and HEAD, and answered;
  then the body is that of the answer up to the limit asked for (128 KiB where that is absent
  or too large), marked as cut exactly when there was more. Nothing is sent with another
  method, and the run the request took is released on every path.
\<close>

theorem probe_gives_bounded_answer:
  assumes "handleStreamingProbe upper proxies new_request send during clock (Inr params) r = (res, sent, r')"
  defines "limit \<equiv> probe_max_body (sp_MaxBodySize params)"
    and "taken \<equiv> acquireStreamingRun (fst (snd clock)) (sp_RunID params) r"
  shows "length (sr_Body res) \<le> 2097152 \<and>
    (sr_OK res \<longrightarrow> (\<exists>req ans. sent = Some req \<and> send req = Inr ans \<and>
       sr_Body res = take (nat limit) (pa_Body ans) \<and>
       sr_Truncated res = (limit < int (length (pa_Body ans))))) \<and>
    (sent \<noteq> None \<longrightarrow> proxies (sp_ProxyName params) \<and> pr_Method (the sent) \<in> {''GET'', ''POST'', ''HEAD''} \<and>
       pr_Run (the sent) = fst taken) \<and>
    r' = (if \<not> proxies (sp_ProxyName params) then r
          else release_run (snd (snd clock)) (fst taken) (if sent = None then snd taken else during (snd taken)))"
proof -
  have "0 \<le> limit" and small: "limit \<le> 2097152"
    using probe_max_body_range [of "sp_MaxBodySize params"] by (simp_all add: limit_def)
  note bounds = read_answer_bounds [OF this(1) refl]
  have body: "length (sr_Body (read_answer limit ans)) \<le> 2097152" for ans
    using bounds(1) [of ans] small by simp
  obtain started t ended where clock: "clock = (started, t, ended)" by (cases clock)
  obtain run r1 where taken: "acquireStreamingRun t (sp_RunID params) r = (run, r1)"
    by (cases "acquireStreamingRun t (sp_RunID params) r")
  show ?thesis
    using assms(1) body bounds(2)
    by (auto simp: handleStreamingProbe_def clock taken taken_def Let_def empty_result_def
          simp flip: limit_def split: if_splits option.splits sum.splits)
qed

section \<open>The statements at concrete inputs\<close>

definition no_runs :: Runs where
  "no_runs = \<lparr>rs_heap = [], rs_items = []\<rparr>"

definition one_run :: Runs where
  "one_run = \<lparr>rs_heap = [\<lparr>rn_cancelled = False, rn_active = 1, rn_touched = 0\<rparr>], rs_items = [(''a'', 0)]\<rparr>"

definition one_stopped :: Runs where
  "one_stopped = \<lparr>rs_heap = [\<lparr>rn_cancelled = True, rn_active = 0, rn_touched = 0\<rparr>], rs_items = [(''a'', 0)]\<rparr>"

lemma demo_runs:
  "acquireStreamingRun 0 ''a'' no_runs = (Some 0, one_run)"
  "cancelStreamingProbes 0 ''b'' one_run =
     \<lparr>rs_heap = rs_heap one_run @ [\<lparr>rn_cancelled = True, rn_active = 0, rn_touched = 0\<rparr>],
      rs_items = [(''a'', 0), (''b'', 1)]\<rparr>"
  "cancelStreamingProbes 0 ''a'' no_runs = one_stopped"
  "fst (acquireStreamingRun 5 ''a'' one_stopped) = Some 0"
  unfolding no_runs_def one_run_def one_stopped_def by code_simp+

lemma no_runs_reach: "probe_reach (no_runs, [])"
  unfolding no_runs_def by (rule probe_reach.start)

theorem active_run_spared_witness:
  "held (cancelStreamingProbes 0 ''b'' one_run) ''a'' = Some 0 \<and>
   \<not> rn_cancelled (run_at (cancelStreamingProbes 0 ''b'' one_run) 0)"
proof -
  have "probe_reach (one_run, [0])"
    using probe_reach.onward [OF no_runs_reach probe_step.acquire [OF demo_runs(1)]] by simp
  from active_run_spared [OF this _ probe_step.cancel [of 0 "''b''"], of 0]
  obtain k where "held one_run k = Some 0" "held (cancelStreamingProbes 0 ''b'' one_run) k = Some 0"
    "PCancel ''b'' = PCancel k \<or>
     rn_cancelled (run_at (cancelStreamingProbes 0 ''b'' one_run) 0) = rn_cancelled (run_at one_run 0)"
    by auto
  then show ?thesis by (auto simp: one_run_def run_at_def split: if_splits)
qed

theorem stopped_run_stays_stopped_witness:
  "rn_cancelled (run_at (snd (acquireStreamingRun 5 ''a'' one_stopped)) 0)"
proof -
  have acq: "acquireStreamingRun 5 ''a'' one_stopped = (Some 0, snd (acquireStreamingRun 5 ''a'' one_stopped))"
    using demo_runs(4) by (simp add: prod_eq_iff)
  have run: "probe_run 0 (0 + run_retention) (cancelStreamingProbes 0 ''a'' no_runs, []) (one_stopped, [])"
    unfolding demo_runs(3) by (rule probe_run.here)
  show ?thesis
    by (rule stopped_run_stays_stopped [OF no_runs_reach _ run _ _ _ acq])
       (simp_all add: one_stopped_def run_capacity_def run_retention_def)
qed

definition demo_params :: StreamingProbeParams where
  "demo_params = \<lparr>sp_RunID = ''a'', sp_ProxyName = ''p'', sp_URL = ''http://h/'', sp_Method = [], sp_Body = [],
     sp_Timeout = 0, sp_MaxBodySize = 3, sp_Headers = [], sp_NoRedirect = False\<rparr>"

definition demo_answer :: probe_answer where
  "demo_answer = \<lparr>pa_Status = 200, pa_FinalURL = ''http://h/'', pa_Header = [], pa_Body = ''body'',
     pa_ReadErr = None, pa_ErrWithLast = False\<rparr>"

definition demo_probe :: "StreamingProbeResult \<times> probe_call option \<times> Runs" where
  "demo_probe = handleStreamingProbe (\<lambda>s. s) (\<lambda>_. True) (\<lambda>_ _. None) (\<lambda>_. Inr demo_answer) (\<lambda>r. r) (0, 0, 0)
     (Inr demo_params) no_runs"

lemma demo_probe_ok: "sr_OK (fst demo_probe)"
  unfolding demo_probe_def no_runs_def demo_params_def demo_answer_def by code_simp

theorem probe_gives_bounded_answer_witness:
  "sr_Body (fst demo_probe) = ''bod'' \<and> sr_Truncated (fst demo_probe) \<and>
   snd (snd demo_probe) = release_run 0 (Some 0) one_run"
proof -
  have "handleStreamingProbe (\<lambda>s. s) (\<lambda>_. True) (\<lambda>_ _. None) (\<lambda>_. Inr demo_answer) (\<lambda>r. r) (0, 0, 0)
     (Inr demo_params) no_runs = (fst demo_probe, fst (snd demo_probe), snd (snd demo_probe))"
    by (simp add: demo_probe_def)
  from probe_gives_bounded_answer [OF this] demo_probe_ok
  show ?thesis by (auto simp: demo_params_def demo_answer_def demo_runs(1) probe_max_body_def split: if_splits)
qed

end
