(* ===== verification/CoreDiagnose.thy ===== *)
theory CoreDiagnose
  imports CoreConfig
begin

text \<open>
  Selecting a proxy, testing its delay and diagnosing it (\<open>src/core/hub.go\<close>). The proxies of
  the vendored core and the network are parameters; what a diagnosis tries on the network is
  recorded in order.
\<close>

section \<open>Selecting a proxy\<close>

record ChangeProxyParams =
  cp_GroupName :: "string option"
  cp_ProxyName :: "string option"

text \<open>
  A proxy of the tunnel: whether it is an \<open>*adapter.Proxy\<close> and, if a group to select in, what
  its \<open>Set\<close> answers to a name (\<open>None\<close> when it takes it).
\<close>

datatype tunnel_proxy = NotAdapter | PlainProxy | SelectGroup "string \<Rightarrow> string option"

datatype select_call = SelForce string string | SelSet string string

text \<open>The text given to the callback and the selection asked for; nil pointers end the process.\<close>

definition handleChangeProxy ::
    "tunnel_proxy gomap \<Rightarrow> string + ChangeProxyParams \<Rightarrow> string outcome \<times> select_call list" where
  "handleChangeProxy proxies decoded =
     (case decoded of
        Inl err \<Rightarrow> (Returned err, [])
      | Inr params \<Rightarrow>
          (case (cp_GroupName params, cp_ProxyName params) of
             (Some groupName, Some proxyName) \<Rightarrow>
               (case gm_get proxies groupName of
                  None \<Rightarrow> (Returned ''Not found group'', [])
                | Some NotAdapter \<Rightarrow> (Panicked, [])
                | Some PlainProxy \<Rightarrow> (Returned ''Group is not selectable'', [])
                | Some (SelectGroup pick) \<Rightarrow>
                    if proxyName = [] then (Returned [], [SelForce groupName proxyName])
                    else (case pick proxyName of
                            Some err \<Rightarrow> (Returned err, [SelSet groupName proxyName])
                          | None \<Rightarrow> (Returned [], [SelSet groupName proxyName])))
           | _ \<Rightarrow> (Panicked, [])))"

section \<open>Testing the delay\<close>

record TestDelayParams =
  td_ProxyName :: string
  td_TestUrl :: string
  td_Timeout :: int

record Delay =
  dl_Url :: string
  dl_Name :: string
  dl_Value :: int

text \<open>
  \<open>urlTest\<close> is \<open>URLTest\<close> of the proxies there are: the error, if any, and the delay, a
  \<open>uint16\<close>. The result is the delay record given to the callback, \<open>None\<close> for the empty text.
\<close>

definition handleAsyncTestDelay ::
    "(string \<Rightarrow> (string \<Rightarrow> string option \<times> nat) option) \<Rightarrow> string \<Rightarrow> TestDelayParams option \<Rightarrow> Delay option" where
  "handleAsyncTestDelay proxies testURL decoded =
     (case decoded of
        None \<Rightarrow> None
      | Some params \<Rightarrow>
          (case proxies (td_ProxyName params) of
             None \<Rightarrow> Some \<lparr>dl_Url = [], dl_Name = td_ProxyName params, dl_Value = - 1\<rparr>
           | Some urlTest \<Rightarrow>
               let testUrl = (if td_TestUrl params \<noteq> [] then td_TestUrl params else testURL);
                   (err, delay) = urlTest testUrl
               in Some \<lparr>dl_Url = testUrl, dl_Name = td_ProxyName params,
                        dl_Value = (if err \<noteq> None \<or> delay = 0 then - 1 else int delay)\<rparr>))"

section \<open>Diagnosing a proxy\<close>

record DiagnoseProxyParams =
  dp_ProxyName :: string
  dp_TestUrl :: string
  dp_Timeout :: int

record ProxyDiagnosticResult =
  pd_DiagnosticStatus :: string
  pd_ProxyType :: string
  pd_Network :: string
  pd_Host :: string
  pd_Port :: string
  pd_ResolvedIPs :: "string list"
  pd_DNSStatus :: string
  pd_DNSElapsedMs :: int
  pd_TCPStatus :: string
  pd_TCPElapsedMs :: int
  pd_ProxyStatus :: string
  pd_FailureStage :: string
  pd_HTTPElapsedMs :: int
  pd_Error :: string

datatype AdapterType = Hysteria | Hysteria2 | Tuic | WireGuard | OtherAdapter string

definition proxyDiagnosticNetwork :: "AdapterType \<Rightarrow> string" where
  "proxyDiagnosticNetwork t =
     (case t of Hysteria \<Rightarrow> ''udp'' | Hysteria2 \<Rightarrow> ''udp'' | Tuic \<Rightarrow> ''udp'' | WireGuard \<Rightarrow> ''udp''
      | OtherAdapter _ \<Rightarrow> ''tcp'')"

fun adapter_type_string :: "AdapterType \<Rightarrow> string" where
  "adapter_type_string Hysteria = ''Hysteria''"
| "adapter_type_string Hysteria2 = ''Hysteria2''"
| "adapter_type_string Tuic = ''Tuic''"
| "adapter_type_string WireGuard = ''WireGuard''"
| "adapter_type_string (OtherAdapter n) = n"

text \<open>The classifications work on the text of an error; \<open>uni\<close> lowers text outside ASCII.\<close>

definition has_any :: "string list \<Rightarrow> string \<Rightarrow> bool" where
  "has_any ps s = list_ex (contains_str s) ps"

definition isTimeoutError :: "(string \<Rightarrow> string) \<Rightarrow> string option \<Rightarrow> bool" where
  "isTimeoutError uni err =
     (case err of
        None \<Rightarrow> False
      | Some e \<Rightarrow> let lower = to_lower uni e in
          contains_str lower ''timeout'' \<or> contains_str lower ''deadline exceeded'')"

definition classifyTCPError :: "(string \<Rightarrow> string) \<Rightarrow> string option \<Rightarrow> string" where
  "classifyTCPError uni err =
     (case err of
        None \<Rightarrow> ''success''
      | Some e \<Rightarrow> let lower = to_lower uni e in
          if contains_str lower ''refused'' then ''refused''
          else if has_any [''unreachable'', ''no route''] lower then ''unreachable''
          else if has_any [''timeout'', ''deadline exceeded''] lower then ''timeout''
          else ''failed'')"

definition classifyProxyFailure :: "(string \<Rightarrow> string) \<Rightarrow> string option \<Rightarrow> string \<Rightarrow> string" where
  "classifyProxyFailure uni err tcpStatus =
     (case err of
        None \<Rightarrow> ''http''
      | Some e \<Rightarrow> let lower = to_lower uni e in
          if has_any [''no such host'', ''lookup '', ''dns''] lower then ''dns''
          else if has_any [''tls'', ''x509'', ''certificate''] lower then ''tls''
          else if has_any [''websocket'', ''grpc'', ''authentication'', ''handshake''] lower then ''protocol''
          else if tcpStatus \<noteq> ''success'' \<and> tcpStatus \<noteq> ''skipped'' then ''tcp''
          else if has_any [''http'', ''status''] lower then ''http''
          else ''protocol'')"

text \<open>
  The network as a diagnosis sees it: each operation gives its outcome and the milliseconds
  it took. \<open>nw_split\<close> is \<open>net.SplitHostPort\<close>, \<open>None\<close> for an error.
\<close>

record network =
  nw_split :: "string \<Rightarrow> (string \<times> string) option"
  nw_lookup :: "string \<Rightarrow> duration \<Rightarrow> (string + string list) \<times> int"
  nw_dial :: "string \<Rightarrow> duration \<Rightarrow> string option \<times> int"

record node =
  nd_Type :: AdapterType
  nd_Addr :: string
  nd_URLTest :: "string \<Rightarrow> duration \<Rightarrow> (string option \<times> nat) \<times> int"

datatype net_act = LookedUp string | Dialled string | Tested string

definition initial_diagnostic :: ProxyDiagnosticResult where
  "initial_diagnostic = \<lparr>pd_DiagnosticStatus = ''complete'', pd_ProxyType = [], pd_Network = [], pd_Host = [],
     pd_Port = [], pd_ResolvedIPs = [], pd_DNSStatus = ''unavailable'', pd_DNSElapsedMs = 0,
     pd_TCPStatus = ''skipped'', pd_TCPElapsedMs = 0, pd_ProxyStatus = ''failed'', pd_FailureStage = [],
     pd_HTTPElapsedMs = 0, pd_Error = []\<rparr>"

definition diagnose_timeout :: "int \<Rightarrow> duration" where
  "diagnose_timeout ms = (let t = wrap64 (ms * 1000000) in if t \<le> 0 then seconds 8 else t)"

text \<open>The last part, the test through the proxy; a delay of zero is a failure too.\<close>

definition diagnose_http ::
    "(string \<Rightarrow> string) \<Rightarrow> node \<Rightarrow> string \<Rightarrow> duration \<Rightarrow> ProxyDiagnosticResult \<Rightarrow> ProxyDiagnosticResult" where
  "diagnose_http uni n url timeout res =
     (let ((proxyErr, delay), elapsed) = nd_URLTest n url timeout;
          res1 = res\<lparr>pd_HTTPElapsedMs := elapsed\<rparr>
      in if proxyErr \<noteq> None \<or> delay = 0 then
           let stage = classifyProxyFailure uni proxyErr (pd_TCPStatus res1) in
           res1\<lparr>pd_ProxyStatus := ''failed'',
                pd_FailureStage := (if pd_Network res1 = ''udp'' \<and> proxyErr \<noteq> None \<and> isTimeoutError uni proxyErr
                                    then ''udp'' else stage),
                pd_Error := (case proxyErr of Some e \<Rightarrow> e | None \<Rightarrow> ''proxy test returned zero delay'')\<rparr>
         else res1\<lparr>pd_ProxyStatus := ''success'', pd_HTTPElapsedMs := int delay\<rparr>)"

text \<open>
  \<open>handleDiagnoseProxy\<close>. A test address that is missing stays empty: the local variable is
  assigned to itself.
\<close>

definition handleDiagnoseProxy ::
    "(string \<Rightarrow> string) \<Rightarrow> network \<Rightarrow> (string \<Rightarrow> node option) \<Rightarrow> string + DiagnoseProxyParams
     \<Rightarrow> ProxyDiagnosticResult \<times> net_act list" where
  "handleDiagnoseProxy uni nw proxies decoded =
     (case decoded of
        Inl err \<Rightarrow>
          (initial_diagnostic\<lparr>pd_TCPStatus := ''unavailable'', pd_FailureStage := ''configuration'',
                              pd_Error := err\<rparr>, [])
      | Inr params \<Rightarrow>
          let timeout = diagnose_timeout (dp_Timeout params) in
          (case proxies (dp_ProxyName params) of
             None \<Rightarrow> (initial_diagnostic\<lparr>pd_FailureStage := ''configuration'', pd_Error := ''proxy not found''\<rparr>, [])
           | Some n \<Rightarrow>
               let r0 = initial_diagnostic\<lparr>pd_ProxyType := adapter_type_string (nd_Type n),
                          pd_Network := proxyDiagnosticNetwork (nd_Type n)\<rparr> in
               (case nw_split nw (nd_Addr n) of
                  None \<Rightarrow> (r0\<lparr>pd_FailureStage := ''configuration'', pd_Error := ''node endpoint unavailable''\<rparr>, [])
                | Some (host, port) \<Rightarrow>
                    let r1 = r0\<lparr>pd_Host := host, pd_Port := port\<rparr>;
                        (looked, dnsMs) = nw_lookup nw host timeout;
                        r2 = r1\<lparr>pd_DNSElapsedMs := dnsMs\<rparr>
                    in (case looked of
                          Inl dnsErr \<Rightarrow>
                            (r2\<lparr>pd_DNSStatus := ''failed'', pd_FailureStage := ''dns'', pd_Error := dnsErr\<rparr>,
                             [LookedUp host])
                        | Inr ips \<Rightarrow>
                            let r3 = r2\<lparr>pd_DNSStatus := ''success'', pd_ResolvedIPs := ips\<rparr>;
                                url = dp_TestUrl params
                            in if pd_Network r3 = ''tcp'' then
                                 let (tcpErr, tcpMs) = nw_dial nw (nd_Addr n) timeout;
                                     r4 = r3\<lparr>pd_TCPElapsedMs := tcpMs\<rparr>
                                 in (case tcpErr of
                                       Some e \<Rightarrow>
                                         (r4\<lparr>pd_TCPStatus := classifyTCPError uni tcpErr, pd_FailureStage := ''tcp'',
                                             pd_Error := e\<rparr>, [LookedUp host, Dialled (nd_Addr n)])
                                     | None \<Rightarrow>
                                         (diagnose_http uni n url timeout (r4\<lparr>pd_TCPStatus := ''success''\<rparr>),
                                          [LookedUp host, Dialled (nd_Addr n), Tested url]))
                               else (diagnose_http uni n url timeout r3, [LookedUp host, Tested url])))))"

end
