(* ===== verification/CoreDiagnoseProps.thy ===== *)
theory CoreDiagnoseProps
  imports CoreDiagnose
begin

text \<open>
  What a diagnosis reports: success exactly when every part of the path worked, and otherwise
  a stage, with nothing tried behind the part that failed.
\<close>

lemma classify_nonempty: "classifyProxyFailure uni err st \<noteq> []"
  by (simp add: classifyProxyFailure_def Let_def split: option.split)

lemma classify_tcp_error: "classifyTCPError uni (Some e) \<notin> {''success'', ''skipped''}"
  by (simp add: classifyTCPError_def Let_def)

lemma diagnose_http_result:
  assumes "pd_FailureStage res = []"
  shows "pd_ProxyStatus (diagnose_http uni n url t res) = ''success'' \<longleftrightarrow>
      (\<exists>d ms. nd_URLTest n url t = ((None, d), ms) \<and> d \<noteq> 0)"
    and "pd_FailureStage (diagnose_http uni n url t res) = [] \<longleftrightarrow>
      pd_ProxyStatus (diagnose_http uni n url t res) = ''success''"
    and "pd_DNSStatus (diagnose_http uni n url t res) = pd_DNSStatus res"
    and "pd_TCPStatus (diagnose_http uni n url t res) = pd_TCPStatus res"
    and "pd_Host (diagnose_http uni n url t res) = pd_Host res"
    and "pd_Network (diagnose_http uni n url t res) = pd_Network res"
  using assms classify_nonempty
  by (auto simp: diagnose_http_def Let_def split: prod.splits)

text \<open>
  Property C31. A diagnosis reports success exactly when the proxy exists, its endpoint parses, its host
  resolves, it can be dialled if it runs over TCP, and the test through it answers in a time
  that is not zero. In every other case it names a stage; a host that does not resolve is not
  dialled, and an endpoint that cannot be dialled is not tested.
\<close>

theorem diagnosis_finds_failing_stage:
  fixes uni nw proxies params
  defines "res \<equiv> fst (handleDiagnoseProxy uni nw proxies (Inr params))"
    and "acts \<equiv> snd (handleDiagnoseProxy uni nw proxies (Inr params))"
    and "t \<equiv> diagnose_timeout (dp_Timeout params)"
  shows "(pd_ProxyStatus res = ''success'' \<longleftrightarrow>
      (\<exists>n host port ips dms d ms. proxies (dp_ProxyName params) = Some n \<and>
         nw_split nw (nd_Addr n) = Some (host, port) \<and> nw_lookup nw host t = (Inr ips, dms) \<and>
         (proxyDiagnosticNetwork (nd_Type n) = ''udp'' \<or> fst (nw_dial nw (nd_Addr n) t) = None) \<and>
         nd_URLTest n (dp_TestUrl params) t = ((None, d), ms) \<and> d \<noteq> 0)) \<and>
    (pd_FailureStage res = [] \<longleftrightarrow> pd_ProxyStatus res = ''success'') \<and>
    (\<exists>addr. acts =
       (if pd_DNSStatus res = ''unavailable'' then []
        else LookedUp (pd_Host res) #
          (if pd_DNSStatus res = ''failed'' then []
           else (if pd_Network res = ''tcp'' then [Dialled addr] else []) @
             (if pd_TCPStatus res \<in> {''success'', ''skipped''} then [Tested (dp_TestUrl params)] else []))))"
proof (cases "proxies (dp_ProxyName params)")
  case None
  then show ?thesis
    by (simp add: res_def acts_def handleDiagnoseProxy_def initial_diagnostic_def)
next
  case n: (Some n)
  show ?thesis
  proof (cases "nw_split nw (nd_Addr n)")
    case None
    with n show ?thesis
      by (simp add: res_def acts_def handleDiagnoseProxy_def initial_diagnostic_def Let_def)
  next
    case hp: (Some hp)
    obtain host port where h: "hp = (host, port)" by (cases hp)
    obtain looked dms where l: "nw_lookup nw host t = (looked, dms)" by (cases "nw_lookup nw host t")
    obtain tcpErr tms where d: "nw_dial nw (nd_Addr n) t = (tcpErr, tms)" by (cases "nw_dial nw (nd_Addr n) t")
    note eval = res_def acts_def handleDiagnoseProxy_def Let_def t_def [symmetric] n hp h l d
    have net: "proxyDiagnosticNetwork (nd_Type n) = ''udp'' \<longleftrightarrow> proxyDiagnosticNetwork (nd_Type n) \<noteq> ''tcp''"
      by (simp add: proxyDiagnosticNetwork_def split: AdapterType.split)
    show ?thesis
    proof (cases looked)
      case (Inl err)
      then show ?thesis by (simp add: eval initial_diagnostic_def)
    next
      case (Inr ips)
      show ?thesis
      proof (cases "proxyDiagnosticNetwork (nd_Type n) = ''tcp'' \<and> tcpErr \<noteq> None")
        case True
        then show ?thesis
          using Inr net classify_tcp_error by (auto simp: eval initial_diagnostic_def)
      next
        case False
        then show ?thesis
          using Inr net by (auto simp: eval diagnose_http_result initial_diagnostic_def)
      qed
    qed
  qed
qed

end
