(* ===== verification/CoreProviders.thy ===== *)
theory CoreProviders
  imports GoStd "HOL-Library.List_Lexorder" "HOL-Library.Char_ord"
begin

text \<open>
  The external providers of the proxy core (\<open>src/core/common.go\<close>, \<open>hub.go\<close>): listing them,
  describing one, updating one and loading one from given bytes. The providers themselves are
  objects of the vendored core; what the layer asks of them is a record here.
\<close>

text \<open>
  The dynamic type of a provider. The vendored core makes its rule providers as pointers, so
  \<open>RuleSetValue\<close>, the value type, is what the type switch of a side load tests for only.
\<close>

datatype provider_kind = ProxySet | RuleSetPointer | RuleSetValue | OtherProvider

record Provider =
  pv_Kind :: provider_kind
  pv_Compatible :: bool
  pv_Name :: string
  pv_Type :: string
  pv_VehicleType :: string
  pv_Count :: int
  pv_UpdatedAt :: time
  pv_Path :: string
  pv_Info :: "string option"
  pv_Update :: "string option"
  pv_SideUpdate :: "string \<Rightarrow> string option"

record ExternalProvider =
  ep_Name :: string
  ep_Type :: string
  ep_VehicleType :: string
  ep_Count :: int
  ep_Path :: string
  ep_UpdateAt :: time
  ep_SubscriptionInfo :: "string option"

text \<open>The proxy providers and then the rule providers of the tunnel, but for the internal ones.\<close>

definition getExternalProvidersRaw :: "Provider gomap \<Rightarrow> Provider gomap \<Rightarrow> Provider gomap" where
  "getExternalProvidersRaw proxySets ruleSets =
     (let add = (\<lambda>e eps. if pv_Compatible (snd e) then eps else gm_set (fst e) (snd e) eps)
      in fold add ruleSets (fold add proxySets []))"

definition toExternalProvider :: "Provider \<Rightarrow> ExternalProvider option" where
  "toExternalProvider p =
     (case pv_Kind p of
        ProxySet \<Rightarrow>
          Some \<lparr>ep_Name = pv_Name p, ep_Type = pv_Type p, ep_VehicleType = pv_VehicleType p,
                ep_Count = pv_Count p, ep_Path = pv_Path p, ep_UpdateAt = pv_UpdatedAt p,
                ep_SubscriptionInfo = pv_Info p\<rparr>
      | RuleSetPointer \<Rightarrow>
          Some \<lparr>ep_Name = pv_Name p, ep_Type = pv_Type p, ep_VehicleType = pv_VehicleType p,
                ep_Count = pv_Count p, ep_Path = pv_Path p, ep_UpdateAt = pv_UpdatedAt p,
                ep_SubscriptionInfo = None\<rparr>
      | _ \<Rightarrow> None)"

text \<open>
  \<open>sideUpdateExternalProvider\<close>: the error of the update is dropped, and a rule provider is not
  recognised.
\<close>

definition sideUpdateExternalProvider :: "Provider \<Rightarrow> string \<Rightarrow> string option" where
  "sideUpdateExternalProvider p payload =
     (case pv_Kind p of
        ProxySet \<Rightarrow> (case pv_SideUpdate p payload of None \<Rightarrow> None | Some err \<Rightarrow> None)
      | RuleSetValue \<Rightarrow> (case pv_SideUpdate p payload of None \<Rightarrow> None | Some err \<Rightarrow> None)
      | _ \<Rightarrow> Some ''not external provider'')"

text \<open>
  The handlers. The state is \<open>externalProviders\<close>; \<open>marshal\<close> and \<open>marshal1\<close> are
  \<open>json.Marshal\<close> of a list and of one provider.
\<close>

definition listed_providers :: "Provider gomap \<Rightarrow> ExternalProvider list" where
  "listed_providers eps =
     sort_slice (\<lambda>a b. ep_Name a < ep_Name b) (List.map_filter (\<lambda>e. toExternalProvider (snd e)) eps)"

definition handleGetExternalProviders ::
    "(ExternalProvider list \<Rightarrow> string option) \<Rightarrow> Provider gomap \<Rightarrow> Provider gomap \<Rightarrow> Provider gomap
     \<Rightarrow> string \<times> Provider gomap" where
  "handleGetExternalProviders marshal proxySets ruleSets externalProviders =
     (let externalProviders1 = getExternalProvidersRaw proxySets ruleSets
      in (case marshal (listed_providers externalProviders1) of None \<Rightarrow> [] | Some data \<Rightarrow> data,
          externalProviders1))"

definition handleGetExternalProvider ::
    "(ExternalProvider \<Rightarrow> string option) \<Rightarrow> string \<Rightarrow> Provider gomap \<Rightarrow> string" where
  "handleGetExternalProvider marshal1 externalProviderName externalProviders =
     (case gm_get externalProviders externalProviderName of
        None \<Rightarrow> []
      | Some p \<Rightarrow>
          (case toExternalProvider p of
             None \<Rightarrow> []
           | Some e \<Rightarrow> (case marshal1 e of None \<Rightarrow> [] | Some data \<Rightarrow> data)))"

definition handleUpdateExternalProvider :: "string \<Rightarrow> Provider gomap \<Rightarrow> string" where
  "handleUpdateExternalProvider providerName externalProviders =
     (case gm_get externalProviders providerName of
        None \<Rightarrow> ''external provider is not exist''
      | Some p \<Rightarrow> (case pv_Update p of Some err \<Rightarrow> err | None \<Rightarrow> []))"

definition handleSideLoadExternalProvider :: "string \<Rightarrow> string \<Rightarrow> Provider gomap \<Rightarrow> string" where
  "handleSideLoadExternalProvider providerName data externalProviders =
     (case gm_get externalProviders providerName of
        None \<Rightarrow> ''external provider is not exist''
      | Some p \<Rightarrow> (case sideUpdateExternalProvider p data of Some err \<Rightarrow> err | None \<Rightarrow> []))"

section \<open>What the list holds\<close>

lemma fold_add_get:
  "gm_get (fold (\<lambda>e eps. if P (snd e) then eps else gm_set (fst e) (snd e) eps) es eps) k =
     (case gm_get (rev (filter (\<lambda>e. \<not> P (snd e)) es)) k of Some p \<Rightarrow> Some p | None \<Rightarrow> gm_get eps k)"
  by (induction es arbitrary: eps) (auto split: option.splits simp: map_add_def)

lemma get_filter:
  "gm_wf es \<Longrightarrow> gm_get (rev (filter Q es)) k =
     (case gm_get es k of Some p \<Rightarrow> if Q (k, p) then Some p else None | None \<Rightarrow> None)"
proof (induction es)
  case (Cons e es)
  have "gm_get es (fst e) = None" using Cons.prems by (simp add: gm_get_None_iff)
  with Cons show ?case by (cases e) (auto split: option.splits simp: map_add_def)
qed simp

text \<open>
  The table the layer keeps: a provider under a name is the rule provider of that name, or
  else the proxy provider, and the internal ones are left out.
\<close>

lemma raw_get:
  assumes "gm_wf proxySets" and "gm_wf ruleSets"
  shows "gm_get (getExternalProvidersRaw proxySets ruleSets) k =
    (case gm_get ruleSets k of
       Some p \<Rightarrow> if pv_Compatible p then
                   (case gm_get proxySets k of Some q \<Rightarrow> if pv_Compatible q then None else Some q | None \<Rightarrow> None)
                 else Some p
     | None \<Rightarrow> (case gm_get proxySets k of Some q \<Rightarrow> if pv_Compatible q then None else Some q | None \<Rightarrow> None))"
  using assms
  by (auto simp: getExternalProvidersRaw_def Let_def fold_add_get get_filter split: option.splits)

lemma raw_wf: "gm_wf (getExternalProvidersRaw proxySets ruleSets)"
  unfolding getExternalProvidersRaw_def Let_def
  by (intro fold_invariant [where I = gm_wf]) auto

lemma listed_sorted: "sorted (map ep_Name (listed_providers eps))"
proof -
  have "sorted_wrt (\<lambda>a b. \<not> ep_Name b < ep_Name a) (listed_providers eps)"
    unfolding listed_providers_def by (rule sorted_sort_slice) auto
  then show ?thesis by (simp add: sorted_wrt_map linorder_not_less)
qed

lemma set_map_filter: "set (List.map_filter f xs) = {y. \<exists>x \<in> set xs. f x = Some y}"
  by (induction xs) (auto simp: List.map_filter_def)

text \<open>
  The list of external providers is sorted by name and consists of exactly the providers the
  single request describes afterwards: an entry is listed just when some name of the tunnel
  has it, a rule provider before a proxy provider of the same name, internal ones never.
\<close>

theorem provider_list_agrees:
  assumes "gm_wf proxySets" and "gm_wf ruleSets"
    and "handleGetExternalProviders marshal proxySets ruleSets old = (out, eps)"
  shows "out = (case marshal (listed_providers eps) of None \<Rightarrow> [] | Some data \<Rightarrow> data) \<and>
    sorted (map ep_Name (listed_providers eps)) \<and>
    (\<forall>e. e \<in> set (listed_providers eps) \<longleftrightarrow>
       (\<exists>k p. gm_get eps k = Some p \<and> toExternalProvider p = Some e)) \<and>
    (\<forall>k. gm_get eps k =
       (case List.find (\<lambda>p. \<not> pv_Compatible p)
               (case gm_get ruleSets k of Some p \<Rightarrow> [p] | None \<Rightarrow> []) of
          Some p \<Rightarrow> Some p
        | None \<Rightarrow> List.find (\<lambda>p. \<not> pv_Compatible p)
                    (case gm_get proxySets k of Some p \<Rightarrow> [p] | None \<Rightarrow> [])))"
proof -
  have eps: "eps = getExternalProvidersRaw proxySets ruleSets"
    and out: "out = (case marshal (listed_providers eps) of None \<Rightarrow> [] | Some data \<Rightarrow> data)"
    using assms(3) by (auto simp: handleGetExternalProviders_def Let_def)
  have "e \<in> set (listed_providers eps) \<longleftrightarrow>
      (\<exists>k p. gm_get eps k = Some p \<and> toExternalProvider p = Some e)" for e
    using gm_wf_get [OF raw_wf [of proxySets ruleSets]]
    by (force simp: listed_providers_def set_map_filter eps)
  moreover have "gm_get eps k =
       (case List.find (\<lambda>p. \<not> pv_Compatible p)
               (case gm_get ruleSets k of Some p \<Rightarrow> [p] | None \<Rightarrow> []) of
          Some p \<Rightarrow> Some p
        | None \<Rightarrow> List.find (\<lambda>p. \<not> pv_Compatible p)
                    (case gm_get proxySets k of Some p \<Rightarrow> [p] | None \<Rightarrow> []))" for k
    by (simp add: eps raw_get [OF assms(1,2)] split: option.split)
  ultimately show ?thesis using listed_sorted out by blast
qed

definition demo_provider :: "string \<Rightarrow> bool \<Rightarrow> Provider" where
  "demo_provider n internal = \<lparr>pv_Kind = ProxySet, pv_Compatible = internal, pv_Name = n, pv_Type = ''Proxy'',
     pv_VehicleType = ''HTTP'', pv_Count = 1, pv_UpdatedAt = 0, pv_Path = [], pv_Info = None,
     pv_Update = None, pv_SideUpdate = (\<lambda>_. None)\<rparr>"

lemma demo_listing:
  "handleGetExternalProviders (\<lambda>es. Some (concat (map ep_Name es)))
     [(''b'', demo_provider ''b'' False), (''c'', demo_provider ''c'' True), (''a'', demo_provider ''a'' False)] [] [] =
   (''ab'', [(''b'', demo_provider ''b'' False), (''a'', demo_provider ''a'' False)])"
  by (simp add: handleGetExternalProviders_def getExternalProvidersRaw_def listed_providers_def
        List.map_filter_def toExternalProvider_def demo_provider_def sort_slice_def Let_def less_char_def)

theorem provider_list_agrees_witness:
  "\<exists>eps. gm_get eps ''a'' = Some (demo_provider ''a'' False) \<and> gm_get eps ''c'' = None \<and>
     sorted (map ep_Name (listed_providers eps))"
proof -
  note demo_listing
  from provider_list_agrees [OF _ _ this] show ?thesis
    by (intro exI [of _ "[(''b'', demo_provider ''b'' False), (''a'', demo_provider ''a'' False)]"]) simp
qed

end
