(* ===== verification/CoreProcFs.thy ===== *)
theory CoreProcFs
  imports GoStd "HOL-Library.Word"
begin

text \<open>
  Finding the user of a socket in the tables of the kernel (\<open>src/core/platform/procfs.go\<close>): the
  columns of the table, the text of an address in it, and the search. The files and the byte
  order of the machine are parameters.
\<close>

unbundle bit_operations_syntax

section \<open>Byte order\<close>

type_synonym octet = "8 word"

text \<open>\<open>binary.BigEndian.Uint32\<close> and \<open>PutUint32\<close> of the two byte orders.\<close>

definition be_uint32 :: "octet \<Rightarrow> octet \<Rightarrow> octet \<Rightarrow> octet \<Rightarrow> 32 word" where
  "be_uint32 b0 b1 b2 b3 =
     ucast b3 OR push_bit 8 (ucast b2) OR push_bit 16 (ucast b1) OR push_bit 24 (ucast b0)"

definition put_uint32 :: "bool \<Rightarrow> 32 word \<Rightarrow> octet list" where
  "put_uint32 big v =
     (if big then [ucast (drop_bit 24 v), ucast (drop_bit 16 v), ucast (drop_bit 8 v), ucast v]
      else [ucast v, ucast (drop_bit 8 v), ucast (drop_bit 16 v), ucast (drop_bit 24 v)])"

text \<open>\<open>nativeEndianIP\<close>; reading four bytes where there are fewer panics (\<open>None\<close>).\<close>

fun nativeEndianIP :: "bool \<Rightarrow> octet list \<Rightarrow> octet list option" where
  "nativeEndianIP big [] = Some []"
| "nativeEndianIP big (b0 # b1 # b2 # b3 # ip) =
     map_option (\<lambda>rest. put_uint32 big (be_uint32 b0 b1 b2 b3) @ rest) (nativeEndianIP big ip)"
| "nativeEndianIP big ip = None"

definition octets_hex :: "octet list \<Rightarrow> string" where
  "octets_hex bs = hex_encode (map (\<lambda>b. char_of (unat b)) bs)"

definition port_octets :: "int \<Rightarrow> octet list" where
  "port_octets p = [ucast (drop_bit 8 (word_of_int p :: 16 word)), ucast (word_of_int p :: 16 word)]"

section \<open>The columns\<close>

text \<open>The header of the table: the positions of the address and of the user, \<open>- 1\<close> when absent.\<close>

record columns =
  cl_tx :: bool
  cl_rx :: bool
  cl_tr :: bool
  cl_tm :: bool
  cl_local :: int
  cl_uid :: int

definition column_offset :: "columns \<Rightarrow> int" where
  "column_offset c =
     (if cl_tx c \<and> cl_rx c then - 1 else 0) + (if cl_tr c \<and> cl_tm c then - 1 else 0)"

definition read_column :: "nat \<Rightarrow> string \<Rightarrow> columns \<Rightarrow> columns" where
  "read_column idx col c =
     (let offset = column_offset c in
      if col = ''tx_queue'' then c\<lparr>cl_tx := True\<rparr>
      else if col = ''rx_queue'' then c\<lparr>cl_rx := True\<rparr>
      else if col = ''tr'' then c\<lparr>cl_tr := True\<rparr>
      else if col = ''tm->when'' then c\<lparr>cl_tm := True\<rparr>
      else if col = ''local_address'' then c\<lparr>cl_local := int idx + offset\<rparr>
      else if col = ''uid'' then c\<lparr>cl_uid := int idx + offset\<rparr>
      else c)"

fun read_columns :: "nat \<Rightarrow> string list \<Rightarrow> columns \<Rightarrow> columns" where
  "read_columns idx [] c = c"
| "read_columns idx (col # cols) c = read_columns (Suc idx) cols (read_column idx col c)"

definition no_columns :: columns where
  "no_columns = \<lparr>cl_tx = False, cl_rx = False, cl_tr = False, cl_tm = False, cl_local = - 1, cl_uid = - 1\<rparr>"

definition table_columns :: "string option \<Rightarrow> int \<times> int" where
  "table_columns header =
     (case header of
        None \<Rightarrow> (- 1, - 1)
      | Some h \<Rightarrow> let c = read_columns 0 (str_fields h) no_columns in (cl_local c, cl_uid c))"

section \<open>The search\<close>

text \<open>The loop of \<open>doQuery\<close> over the rows of the file.\<close>

fun scan_rows :: "int \<Rightarrow> int \<Rightarrow> string \<Rightarrow> string list \<Rightarrow> int" where
  "scan_rows loc u local [] = - 1"
| "scan_rows loc u local (row # rows) =
     (let fields = str_fields row in
      if int (length fields) \<le> loc \<or> int (length fields) \<le> u then scan_rows loc u local rows
      else if equal_fold local (fields ! nat loc) then
        (let (v, ok) = atoi (fields ! nat u) in if ok then v else - 1)
      else scan_rows loc u local rows)"

text \<open>\<open>file\<close> is the rows of the table, \<open>None\<close> when it cannot be opened; the result \<open>None\<close> is a panic.\<close>

definition doQuery :: "bool \<Rightarrow> int \<times> int \<Rightarrow> string list option \<Rightarrow> octet list \<Rightarrow> int \<Rightarrow> int option" where
  "doQuery big cols table sIP sPort =
     (case table of
        None \<Rightarrow> Some (- 1)
      | Some rows \<Rightarrow>
          map_option
            (\<lambda>swapped. scan_rows (fst cols) (snd cols)
               (octets_hex swapped @ '':'' @ octets_hex (port_octets sPort)) rows)
            (nativeEndianIP big sIP))"

text \<open>\<open>To16\<close> and \<open>To4\<close> of \<open>net.IP\<close>.\<close>

definition v4_prefix :: "octet list" where
  "v4_prefix = replicate 10 0 @ [255, 255]"

definition ip_To16 :: "octet list \<Rightarrow> octet list option" where
  "ip_To16 ip = (if length ip = 4 then Some (v4_prefix @ ip) else if length ip = 16 then Some ip else None)"

definition ip_To4 :: "octet list \<Rightarrow> octet list option" where
  "ip_To4 ip =
     (if length ip = 4 then Some ip
      else if length ip = 16 \<and> take 12 ip = v4_prefix then Some (drop 12 ip) else None)"

text \<open>The source of a connection: its network and, when it is a TCP or UDP address, IP and port.\<close>

record net_addr =
  na_Network :: string
  na_Endpoint :: "(octet list \<times> int) option"

definition socket_table :: "string \<Rightarrow> string" where
  "socket_table network =
     ''/proc/net/'' @ (if has_suffix network ''4'' \<or> has_suffix network ''6'' then butlast network else network)"

definition QuerySocketUidFromProcFs ::
    "bool \<Rightarrow> int \<times> int \<Rightarrow> (string \<Rightarrow> string list option) \<Rightarrow> net_addr \<Rightarrow> int option" where
  "QuerySocketUidFromProcFs big cols files source =
     (if fst cols < 0 \<or> snd cols < 0 then Some (- 1)
      else
        let path = socket_table (na_Network source) in
        (case na_Endpoint source of
           None \<Rightarrow> Some (- 1)
         | Some (ip, sPort) \<Rightarrow>
             (case ip_To16 ip of
                None \<Rightarrow> Some (- 1)
              | Some ip16 \<Rightarrow>
                  (case doQuery big cols (files (path @ ''6'')) ip16 sPort of
                     None \<Rightarrow> None
                   | Some uid \<Rightarrow>
                       if uid \<noteq> - 1 then Some uid
                       else (case ip_To4 ip16 of
                               None \<Rightarrow> Some (- 1)
                             | Some ip4 \<Rightarrow> doQuery big cols (files path) ip4 sPort)))))"

end
