(* ===== verification/CoreProcFsProps.thy ===== *)
theory CoreProcFsProps
  imports CoreProcFs
begin

text \<open>
  The search of the socket tables finds what the kernel wrote: the columns of the header name
  the right fields of a row, and the address text is the one of the socket.
\<close>

section \<open>Byte order\<close>

lemma octet_bit: "8 \<le> n \<Longrightarrow> \<not> bit (b :: octet) n"
  using bit_imp_le_length [of b n] by auto

lemma octet_range: "unat (b :: octet) < 256"
  by (rule order_less_le_trans [OF unsigned_less]) simp

lemma octet_nibbles [simp]: "unat (b :: octet) div 16 < 16" "unat (b :: octet) mod 16 < 16"
  using octet_range [of b] by simp_all

lemma put_be_uint32:
  "put_uint32 big (be_uint32 b0 b1 b2 b3) = (if big then [b0, b1, b2, b3] else [b3, b2, b1, b0])"
  unfolding put_uint32_def be_uint32_def
  by (auto intro!: bit_word_eqI simp: bit_simps octet_bit)

text \<open>The bytes of an address in the order in which the kernel prints the words that hold them.\<close>

fun kernel_order :: "bool \<Rightarrow> octet list \<Rightarrow> octet list" where
  "kernel_order big (b0 # b1 # b2 # b3 # ip) =
     (if big then [b0, b1, b2, b3] else [b3, b2, b1, b0]) @ kernel_order big ip"
| "kernel_order big ip = []"

lemma four_dvd_Suc: "4 dvd Suc (Suc (Suc (Suc n))) \<longleftrightarrow> 4 dvd n" "\<not> 4 dvd Suc (Suc (Suc 0))"
    "\<not> 4 dvd Suc (Suc 0)" "\<not> 4 dvd Suc 0"
  by presburger+

lemma nativeEndianIP_kernel: "4 dvd length ip \<Longrightarrow> nativeEndianIP big ip = Some (kernel_order big ip)"
  by (induction big ip rule: nativeEndianIP.induct)
     (simp_all add: put_be_uint32 four_dvd_Suc del: One_nat_def)

lemma kernel_order_inj:
  "length ip' = length ip \<Longrightarrow> 4 dvd length ip \<Longrightarrow> kernel_order big ip = kernel_order big ip' \<longleftrightarrow> ip = ip'"
proof (induction big ip arbitrary: ip' rule: kernel_order.induct)
  case (1 big b0 b1 b2 b3 ip)
  then obtain c0 c1 c2 c3 ip'' where "ip' = c0 # c1 # c2 # c3 # ip''"
    by (auto simp: length_Suc_conv)
  with 1 show ?case by (auto simp: four_dvd_Suc)
qed (auto simp: four_dvd_Suc)

section \<open>The text of an address\<close>

lemma hex_digit_inj:
  assumes "i < 16" and "j < 16"
  shows "hex_digit i = hex_digit j \<longleftrightarrow> i = j"
proof
  assume "hex_digit i = hex_digit j"
  then have "byte_of (hex_digit i) = byte_of (hex_digit j)" by simp
  with assms show "i = j" by (auto simp: hex_digit_def split: if_splits)
qed simp

lemma octets_hex_Cons:
  "octets_hex (b # bs) = hex_digit (unat b div 16) # hex_digit (unat b mod 16) # octets_hex bs"
  using octet_range [of b] by (simp add: octets_hex_def hex_encode_def)

lemma octets_hex_Nil [simp]: "octets_hex [] = []"
  by (simp add: octets_hex_def hex_encode_def)

lemma octets_hex_inj: "octets_hex as = octets_hex bs \<longleftrightarrow> as = bs"
proof (induction as arbitrary: bs)
  case Nil
  show ?case by (cases bs) (simp_all add: octets_hex_Cons)
next
  case (Cons a as)
  show ?case
  proof (cases bs)
    case Nil
    then show ?thesis by (simp add: octets_hex_Cons)
  next
    case (Cons b bs')
    have "unat a div 16 = unat b div 16 \<and> unat a mod 16 = unat b mod 16 \<longleftrightarrow> a = b"
      by (metis div_mult_mod_eq word_unat_eq_iff)
    then show ?thesis
      using Cons.IH octet_range [of a] octet_range [of b] by (simp add: Cons octets_hex_Cons hex_digit_inj) blast
  qed
qed

text \<open>Text that folds to no other: neither an \<open>s\<close> nor a \<open>k\<close> in it.\<close>

lemma equal_fold_plain:
  assumes "CHR ''s'' \<notin> set (map ascii_lower_char p)" and "CHR ''k'' \<notin> set (map ascii_lower_char p)"
  shows "equal_fold p s \<longleftrightarrow> map ascii_lower_char s = map ascii_lower_char p"
  using assms
  by (induction p s rule: equal_fold.induct) auto

lemma hex_letters: "char_of (97 :: nat) = CHR ''a''" "char_of (98 :: nat) = CHR ''b''"
  "char_of (99 :: nat) = CHR ''c''" "char_of (100 :: nat) = CHR ''d''" "char_of (101 :: nat) = CHR ''e''"
  "char_of (102 :: nat) = CHR ''f''"
  by code_simp+

lemma hex_digit_lower:
  assumes "i < 16"
  shows "ascii_lower_char (hex_digit i) = hex_digit i"
    and "ascii_lower_char (ascii_upper_char (hex_digit i)) = hex_digit i"
    and "CHR '':'' \<noteq> hex_digit i" and "CHR ''s'' \<noteq> hex_digit i" and "CHR ''k'' \<noteq> hex_digit i"
proof -
  have "i \<in> {0, 1, 2, 3, 4, 5, 6, 7, 8, 9, 10, 11, 12, 13, 14, 15}"
    using assms by simp presburger
  then have "ascii_lower_char (hex_digit i) = hex_digit i \<and>
    ascii_lower_char (ascii_upper_char (hex_digit i)) = hex_digit i \<and>
    CHR '':'' \<noteq> hex_digit i \<and> CHR ''s'' \<noteq> hex_digit i \<and> CHR ''k'' \<noteq> hex_digit i"
    by (elim insertE emptyE) (simp_all add: hex_digit_chars hex_letters ascii_lower_char_def ascii_upper_char_def)
  then show "ascii_lower_char (hex_digit i) = hex_digit i"
    and "ascii_lower_char (ascii_upper_char (hex_digit i)) = hex_digit i"
    and "CHR '':'' \<noteq> hex_digit i" and "CHR ''s'' \<noteq> hex_digit i" and "CHR ''k'' \<noteq> hex_digit i"
    by blast+
qed

lemma octets_hex_chars:
  "map ascii_lower_char (octets_hex bs) = octets_hex bs"
  "map ascii_lower_char (map ascii_upper_char (octets_hex bs)) = octets_hex bs"
  "CHR '':'' \<notin> set (octets_hex bs)" "CHR ''s'' \<notin> set (octets_hex bs)" "CHR ''k'' \<notin> set (octets_hex bs)"
  by (induction bs) (simp_all add: octets_hex_Cons hex_digit_lower)

text \<open>The text the kernel prints for a local address, and what the search compares with it.\<close>

definition kernel_address :: "bool \<Rightarrow> octet list \<Rightarrow> int \<Rightarrow> string" where
  "kernel_address big ip p =
     map ascii_upper_char (octets_hex (kernel_order big ip)) @ '':'' @
     map ascii_upper_char (octets_hex (port_octets p))"

lemma lower_colon: "ascii_lower_char (CHR '':'') = CHR '':''"
  by (simp add: ascii_lower_char_def)

lemma kernel_address_match:
  assumes "length ip = length ip'" and "4 dvd length ip"
  shows "equal_fold (octets_hex (kernel_order big ip) @ '':'' @ octets_hex (port_octets p))
      (kernel_address big ip' p') \<longleftrightarrow> ip = ip' \<and> port_octets p = port_octets p'"
proof -
  let ?hex = "\<lambda>i q. octets_hex (kernel_order big i) @ '':'' @ octets_hex (port_octets q)"
  have "map ascii_lower_char (?hex ip p) = ?hex ip p"
    by (simp add: octets_hex_chars(1) lower_colon)
  moreover have "map ascii_lower_char (kernel_address big ip' p') = ?hex ip' p'"
    using octets_hex_chars(2) by (simp add: kernel_address_def lower_colon)
  moreover have "CHR ''s'' \<notin> set (?hex ip p)" "CHR ''k'' \<notin> set (?hex ip p)"
    by (simp_all add: octets_hex_chars)
  ultimately have "equal_fold (?hex ip p) (kernel_address big ip' p') \<longleftrightarrow> ?hex ip' p' = ?hex ip p"
    using equal_fold_plain [of "?hex ip p" "kernel_address big ip' p'"] by simp
  also have "\<dots> \<longleftrightarrow> split_on CHR '':'' (?hex ip' p') = split_on CHR '':'' (?hex ip p)"
    using join_split_on [of "CHR '':''"] by metis
  also have "\<dots> \<longleftrightarrow> ip = ip' \<and> port_octets p = port_octets p'"
    using assms kernel_order_inj [of ip ip' big]
    by (auto simp: split_on_append split_on_no_sep octets_hex_chars octets_hex_inj)
  finally show ?thesis .
qed

lemma port_octets_word:
  "port_octets p = port_octets q \<Longrightarrow> (word_of_int p :: 16 word) = word_of_int q"
proof (rule bit_word_eqI)
  fix n
  assume eq: "port_octets p = port_octets q" and "n < LENGTH(16)"
  then have n: "n < 16" by simp
  have lo: "(ucast (word_of_int p :: 16 word) :: octet) = ucast (word_of_int q :: 16 word)"
    and hi: "(ucast (drop_bit 8 (word_of_int p :: 16 word)) :: octet) = ucast (drop_bit 8 (word_of_int q :: 16 word))"
    using eq by (simp_all add: port_octets_def)
  show "bit (word_of_int p :: 16 word) n = bit (word_of_int q :: 16 word) n"
  proof (cases "n < 8")
    case True
    then show ?thesis using arg_cong [OF lo, of "\<lambda>w. bit w n"] by (simp add: bit_simps)
  next
    case False
    then have "n - 8 < 8" using n by simp
    then show ?thesis using n False arg_cong [OF hi, of "\<lambda>w. bit w (n - 8)"] by (simp add: bit_simps)
  qed
qed

lemma port_octets_inj:
  assumes "0 \<le> p" and "p < 65536" and "0 \<le> q" and "q < 65536"
  shows "port_octets p = port_octets q \<longleftrightarrow> p = q"
proof
  assume "port_octets p = port_octets q"
  then have "take_bit 16 p = take_bit 16 q"
    using port_octets_word [of p q] by (simp add: word_of_int_eq_iff)
  with assms show "p = q" by (simp add: take_bit_int_eq_self)
qed simp

section \<open>The columns name the right fields\<close>

text \<open>
  A row of the table writes \<open>tx_queue\<close> and \<open>rx_queue\<close> in one field, and \<open>tr\<close> and \<open>tm->when\<close> in
  another: the header without the second name of each pair lines up with the fields.
\<close>

definition row_columns :: "string list \<Rightarrow> string list" where
  "row_columns cols = filter (\<lambda>c. c \<notin> {''rx_queue'', ''tm->when''}) cols"

definition names_at :: "string \<Rightarrow> string list \<Rightarrow> int \<Rightarrow> bool" where
  "names_at n cols i = (0 \<le> i \<and> nat i < length (row_columns cols) \<and> row_columns cols ! nat i = n)"

lemma names_at_snoc: "names_at n cols i \<Longrightarrow> names_at n (cols @ [x]) i"
  by (simp add: names_at_def row_columns_def nth_append)

lemma names_at_last:
  "x \<notin> {''rx_queue'', ''tm->when''} \<Longrightarrow> names_at x (cols @ [x]) (int (length (row_columns cols)))"
  by (simp add: names_at_def row_columns_def)

text \<open>The flags after a part of the header, and what is known of the columns so far.\<close>

definition header_upto :: "string list \<Rightarrow> columns \<Rightarrow> bool" where
  "header_upto cols c =
     ((cl_tx c \<longleftrightarrow> ''tx_queue'' \<in> set cols) \<and> (cl_rx c \<longleftrightarrow> ''rx_queue'' \<in> set cols) \<and>
      (cl_tr c \<longleftrightarrow> ''tr'' \<in> set cols) \<and> (cl_tm c \<longleftrightarrow> ''tm->when'' \<in> set cols) \<and>
      (''local_address'' \<in> set cols \<longrightarrow> names_at ''local_address'' cols (cl_local c)) \<and>
      (''uid'' \<in> set cols \<longrightarrow> names_at ''uid'' cols (cl_uid c)))"

text \<open>Each second name of a pair comes behind the first one, no name twice.\<close>

definition paired_header :: "string list \<Rightarrow> bool" where
  "paired_header cols =
     (distinct cols \<and>
      (''rx_queue'' \<in> set cols \<longrightarrow> ''tx_queue'' \<in> set (takeWhile (\<lambda>c. c \<noteq> ''rx_queue'') cols)) \<and>
      (''tm->when'' \<in> set cols \<longrightarrow> ''tr'' \<in> set (takeWhile (\<lambda>c. c \<noteq> ''tm->when'') cols)))"

lemma length_row_columns:
  assumes "distinct cols" and "''rx_queue'' \<in> set cols \<Longrightarrow> ''tx_queue'' \<in> set cols"
    and "''tm->when'' \<in> set cols \<Longrightarrow> ''tr'' \<in> set cols" and "header_upto cols c"
  shows "int (length cols) + column_offset c = int (length (row_columns cols))"
proof -
  have "length (row_columns cols) = card (set cols - {''rx_queue'', ''tm->when''})"
    using assms(1) by (simp add: row_columns_def distinct_card [symmetric] set_diff_eq)
  also have "\<dots> = card (set cols) - card (set cols \<inter> {''rx_queue'', ''tm->when''})"
    by (simp add: card_Diff_subset_Int)
  finally show ?thesis
    using assms distinct_card [OF assms(1)] card_mono [of "set cols" "set cols \<inter> {''rx_queue'', ''tm->when''}"]
    by (cases "''rx_queue'' \<in> set cols"; cases "''tm->when'' \<in> set cols")
       (auto simp: header_upto_def column_offset_def Int_insert_right)
qed

lemma read_columns_snoc:
  "read_columns i (cols @ [x]) c = read_column (i + length cols) x (read_columns i cols c)"
  by (induction cols arbitrary: i c) simp_all

lemma takeWhile_upto: "c \<in> set cols \<Longrightarrow> takeWhile (\<lambda>d. d \<noteq> c) (cols @ [x]) = takeWhile (\<lambda>d. d \<noteq> c) cols"
  "c \<notin> set cols \<Longrightarrow> takeWhile (\<lambda>d. d \<noteq> c) (cols @ [c]) = cols"
  by (induction cols) auto

lemma paired_header_snoc:
  assumes "paired_header (cols @ [x])"
  shows "paired_header cols" and "x \<notin> set cols"
    and "x = ''rx_queue'' \<Longrightarrow> ''tx_queue'' \<in> set cols" and "x = ''tm->when'' \<Longrightarrow> ''tr'' \<in> set cols"
proof -
  show new: "x \<notin> set cols" using assms by (simp add: paired_header_def)
  show "paired_header cols" using assms by (simp add: paired_header_def takeWhile_upto(1))
  show "x = ''rx_queue'' \<Longrightarrow> ''tx_queue'' \<in> set cols" "x = ''tm->when'' \<Longrightarrow> ''tr'' \<in> set cols"
    using assms new by (auto simp: paired_header_def takeWhile_upto(2))
qed

lemma paired_header_pairs:
  assumes "paired_header cols"
  shows "''rx_queue'' \<in> set cols \<Longrightarrow> ''tx_queue'' \<in> set cols"
    and "''tm->when'' \<in> set cols \<Longrightarrow> ''tr'' \<in> set cols"
  using assms by (auto simp: paired_header_def dest: set_takeWhileD)

lemma header_upto_read:
  "paired_header cols \<Longrightarrow> header_upto cols (read_columns 0 cols no_columns)"
proof (induction cols rule: rev_induct)
  case Nil
  show ?case by (simp add: header_upto_def no_columns_def)
next
  case (snoc x cols)
  note p = paired_header_snoc [OF snoc.prems]
  let ?c = "read_columns 0 cols no_columns"
  have up: "header_upto cols ?c" using snoc.IH [OF p(1)] .
  have "int (length cols) + column_offset ?c = int (length (row_columns cols))"
    using p(1) paired_header_pairs [OF p(1)] up by (intro length_row_columns) (simp_all add: paired_header_def)
  then have at: "read_columns 0 (cols @ [x]) no_columns =
      (if x = ''tx_queue'' then ?c\<lparr>cl_tx := True\<rparr> else if x = ''rx_queue'' then ?c\<lparr>cl_rx := True\<rparr>
       else if x = ''tr'' then ?c\<lparr>cl_tr := True\<rparr> else if x = ''tm->when'' then ?c\<lparr>cl_tm := True\<rparr>
       else if x = ''local_address'' then ?c\<lparr>cl_local := int (length (row_columns cols))\<rparr>
       else if x = ''uid'' then ?c\<lparr>cl_uid := int (length (row_columns cols))\<rparr> else ?c)"
    by (simp add: read_columns_snoc read_column_def)
  have last: "names_at ''local_address'' (cols @ [''local_address'']) (int (length (row_columns cols)))"
    "names_at ''uid'' (cols @ [''uid'']) (int (length (row_columns cols)))"
    by (simp_all add: names_at_last)
  show ?case
    using up p(2) last by (simp add: at header_upto_def names_at_snoc)
qed

text \<open>
  The two positions read off a header are those of the address and of the user in the rows
  below it, although a row has one field where the header has two names, twice.
\<close>

theorem header_columns_name_fields:
  assumes "paired_header (str_fields h)" and "''local_address'' \<in> set (str_fields h)"
    and "''uid'' \<in> set (str_fields h)" and "table_columns (Some h) = (loc, u)"
  shows "names_at ''local_address'' (str_fields h) loc \<and> names_at ''uid'' (str_fields h) u"
  using header_upto_read [OF assms(1)] assms(2-4)
  by (auto simp: table_columns_def Let_def header_upto_def)

section \<open>The search finds the socket\<close>

lemma digits_val_snoc: "digits_val acc (xs @ [c]) = 10 * digits_val acc xs + digit_val c"
  by (induction xs arbitrary: acc) simp_all

lemma digit_char_val: "n < 10 \<Longrightarrow> digit_val (char_of (48 + n :: nat)) = int n \<and> is_digit (char_of (48 + n :: nat))"
  by (simp add: digit_val_def is_digit_def)

lemma nat_digits_read: "digits_val 0 (nat_digits n) = int n \<and> list_all is_digit (nat_digits n) \<and> nat_digits n \<noteq> []"
proof (induction n rule: nat_digits.induct)
  case (1 n)
  show ?case
  proof (cases "n < 10")
    case True
    then show ?thesis using digit_char_val [of n] by (simp add: nat_digits.simps [of n])
  next
    case False
    have "int n = 10 * int (n div 10) + int (n mod 10)" by presburger
    then show ?thesis
      using 1 False digit_char_val [of "n mod 10"]
      by (simp add: nat_digits.simps [of n] digits_val_snoc)
  qed
qed

lemma atoi_itoa:
  assumes "0 \<le> i" and "i \<le> max_int64"
  shows "atoi (itoa i) = (i, True)"
proof -
  have d: "digits_val 0 (nat_digits (nat i)) = i" "list_all is_digit (nat_digits (nat i))" "nat_digits (nat i) \<noteq> []"
    using nat_digits_read [of "nat i"] assms(1) by simp_all
  then have "is_digit (hd (nat_digits (nat i)))" by (cases "nat_digits (nat i)") auto
  then have "hd (nat_digits (nat i)) \<noteq> CHR ''-''" "hd (nat_digits (nat i)) \<noteq> CHR ''+''"
    by (auto simp: is_digit_def)
  with d show ?thesis
    using assms by (simp add: atoi_def itoa_def Let_def clamp64_def min_int64_def)
qed

text \<open>A socket of the kernel: its local address, its port and its user, and the row it has.\<close>

type_synonym socket = "octet list \<times> int \<times> int"

definition socket_row :: "bool \<Rightarrow> int \<Rightarrow> int \<Rightarrow> string \<Rightarrow> socket \<Rightarrow> bool" where
  "socket_row big loc u row sk =
     (loc < int (length (str_fields row)) \<and> u < int (length (str_fields row)) \<and>
      str_fields row ! nat loc = kernel_address big (fst sk) (fst (snd sk)) \<and>
      str_fields row ! nat u = itoa (snd (snd sk)))"

definition socket_ok :: "nat \<Rightarrow> socket \<Rightarrow> bool" where
  "socket_ok len sk =
     (length (fst sk) = len \<and> 0 \<le> fst (snd sk) \<and> fst (snd sk) < 65536 \<and>
      0 \<le> snd (snd sk) \<and> snd (snd sk) \<le> max_int64)"

text \<open>The file of the kernel for its sockets with addresses of \<open>len\<close> bytes.\<close>

definition socket_file :: "bool \<Rightarrow> int \<Rightarrow> int \<Rightarrow> nat \<Rightarrow> string list option \<Rightarrow> socket list \<Rightarrow> bool" where
  "socket_file big loc u len table sks =
     (\<exists>header rows. table = Some (header # rows) \<and>
        (int (length (str_fields header)) \<le> loc \<or> CHR '':'' \<notin> set (str_fields header ! nat loc)) \<and>
        list_all2 (socket_row big loc u) rows sks \<and> list_all (socket_ok len) sks)"

definition socket_user :: "socket list \<Rightarrow> octet list \<Rightarrow> int \<Rightarrow> int option" where
  "socket_user sks ip p =
     map_option (\<lambda>sk. snd (snd sk)) (List.find (\<lambda>sk. fst sk = ip \<and> fst (snd sk) = p) sks)"

lemma lower_is_colon: "ascii_lower_char c = CHR '':'' \<Longrightarrow> c = CHR '':''"
proof (rule ccontr)
  assume low: "ascii_lower_char c = CHR '':''" and "c \<noteq> CHR '':''"
  then have up: "65 \<le> byte_of c" "byte_of c \<le> 90" and "char_of (byte_of c + 32) = CHR '':''"
    by (auto simp: ascii_lower_char_def split: if_splits)
  from arg_cong [OF this(3), of byte_of] up show False by simp
qed

lemma equal_fold_colon:
  assumes "CHR '':'' \<notin> set s"
  shows "\<not> equal_fold (octets_hex as @ '':'' @ octets_hex bs) s"
proof
  let ?text = "octets_hex as @ '':'' @ octets_hex bs"
  assume "equal_fold ?text s"
  then have "map ascii_lower_char s = map ascii_lower_char ?text"
    using equal_fold_plain [of ?text s] by (simp add: octets_hex_chars lower_colon)
  then have "CHR '':'' \<in> set (map ascii_lower_char s)" by (simp add: lower_colon)
  then show False using assms lower_is_colon by force
qed

lemma scan_rows_find:
  assumes "list_all2 (socket_row big loc u) rows sks" and "list_all (socket_ok (length ip)) sks"
    and "4 dvd length ip" and "0 \<le> p" and "p < 65536"
  shows "scan_rows loc u (octets_hex (kernel_order big ip) @ '':'' @ octets_hex (port_octets p)) rows =
    (case socket_user sks ip p of Some uid \<Rightarrow> uid | None \<Rightarrow> - 1)"
  using assms(1,2)
proof (induction rows sks rule: list_all2_induct)
  case Nil
  then show ?case by (simp add: socket_user_def)
next
  case (Cons row rows sk sks)
  have "equal_fold (octets_hex (kernel_order big ip) @ '':'' @ octets_hex (port_octets p))
      (kernel_address big (fst sk) (fst (snd sk))) \<longleftrightarrow> fst sk = ip \<and> fst (snd sk) = p"
    using kernel_address_match [of ip "fst sk" big p "fst (snd sk)"] Cons.prems assms(3-5)
      port_octets_inj [of p "fst (snd sk)"] by (auto simp: socket_ok_def)
  moreover have "atoi (itoa (snd (snd sk))) = (snd (snd sk), True)"
    using Cons.prems by (simp add: socket_ok_def atoi_itoa)
  ultimately show ?case
    using Cons by (auto simp: socket_row_def socket_user_def)
qed

lemma doQuery_find:
  assumes "socket_file big loc u (length ip) table sks" and "4 dvd length ip" and "0 \<le> p" and "p < 65536"
  shows "doQuery big (loc, u) table ip p = Some (case socket_user sks ip p of Some uid \<Rightarrow> uid | None \<Rightarrow> - 1)"
proof -
  obtain header rows where t: "table = Some (header # rows)"
    and h: "int (length (str_fields header)) \<le> loc \<or> CHR '':'' \<notin> set (str_fields header ! nat loc)"
    and r: "list_all2 (socket_row big loc u) rows sks" "list_all (socket_ok (length ip)) sks"
    using assms(1) by (auto simp: socket_file_def)
  define local where "local = octets_hex (kernel_order big ip) @ '':'' @ octets_hex (port_octets p)"
  have "doQuery big (loc, u) table ip p = Some (scan_rows loc u local (header # rows))"
    by (simp only: doQuery_def t nativeEndianIP_kernel [OF assms(2)] option.case option.map fst_conv snd_conv
          local_def)
  also have "scan_rows loc u local (header # rows) = scan_rows loc u local rows"
  proof (cases "int (length (str_fields header)) \<le> loc")
    case True
    then show ?thesis by (simp add: Let_def)
  next
    case False
    then have "\<not> equal_fold local (str_fields header ! nat loc)"
      using h equal_fold_colon by (simp only: local_def) blast
    then show ?thesis by (simp add: Let_def)
  qed
  also have "\<dots> = (case socket_user sks ip p of Some uid \<Rightarrow> uid | None \<Rightarrow> - 1)"
    unfolding local_def by (rule scan_rows_find [OF r assms(2-4)])
  finally show ?thesis .
qed

lemma user_range:
  assumes "socket_file big loc u len table sks" and "socket_user sks ip p = Some uid"
  shows "0 \<le> uid"
proof -
  obtain sk where f: "List.find (\<lambda>sk. fst sk = ip \<and> fst (snd sk) = p) sks = Some sk" and "snd (snd sk) = uid"
    using assms(2) by (auto simp: socket_user_def)
  moreover obtain i where "i < length sks" "sk = sks ! i" using f unfolding find_Some_iff by blast
  then have "sk \<in> set sks" by simp
  moreover have "list_all (socket_ok len) sks" using assms(1) unfolding socket_file_def by blast
  ultimately show ?thesis by (auto simp: list_all_iff socket_ok_def simp del: split_paired_All)
qed

text \<open>
  Property C29. For a TCP or UDP source the search gives the user of the first socket the kernel lists with
  its address and port: first in the table of IPv6 sockets, where an IPv4 address counts in
  its mapped form, then, for an IPv4 address, in the table of IPv4 sockets, and \<open>- 1\<close> when
  neither has it. This holds on machines of both byte orders.
\<close>

theorem socket_user_found:
  assumes "0 \<le> loc" and "0 \<le> u" and "na_Endpoint source = Some (ip, p)" and "0 \<le> p" and "p < 65536"
    and "socket_file big loc u 16 (files (socket_table (na_Network source) @ ''6'')) sks6"
    and "socket_file big loc u 4 (files (socket_table (na_Network source))) sks4"
    and "ip_To16 ip = Some ip16"
  shows "QuerySocketUidFromProcFs big (loc, u) files source =
    Some (case socket_user sks6 ip16 p of
            Some uid \<Rightarrow> uid
          | None \<Rightarrow> (case ip_To4 ip16 of
                       None \<Rightarrow> - 1
                     | Some ip4 \<Rightarrow> (case socket_user sks4 ip4 p of Some uid \<Rightarrow> uid | None \<Rightarrow> - 1)))"
proof -
  have len: "length ip16 = 16"
    using assms(8) by (auto simp: ip_To16_def v4_prefix_def split: if_splits)
  have q6: "doQuery big (loc, u) (files (socket_table (na_Network source) @ ''6'')) ip16 p =
      Some (case socket_user sks6 ip16 p of Some uid \<Rightarrow> uid | None \<Rightarrow> - 1)"
    using assms(4-6) len by (intro doQuery_find) simp_all
  have "length ip4 = 4" if "ip_To4 ip16 = Some ip4" for ip4
    using that len by (auto simp: ip_To4_def split: if_splits)
  then have q4: "doQuery big (loc, u) (files (socket_table (na_Network source))) ip4 p =
      Some (case socket_user sks4 ip4 p of Some uid \<Rightarrow> uid | None \<Rightarrow> - 1)" if "ip_To4 ip16 = Some ip4" for ip4
    using assms(4,5,7) that by (intro doQuery_find) simp_all
  have "uid \<noteq> - 1" if "socket_user sks6 ip16 p = Some uid" for uid
    using user_range [OF assms(6) that] by simp
  then show ?thesis
    using assms(1-3,8) q6 q4
    by (auto simp: QuerySocketUidFromProcFs_def Let_def split: option.split)
qed

section \<open>The statements at concrete inputs\<close>

definition tcp_header :: string where
  "tcp_header = ''  sl  local_address rem_address   st tx_queue rx_queue tr tm->when retrnsmt   uid  timeout inode''"

lemma tcp_header_eval:
  "str_fields tcp_header = [''sl'', ''local_address'', ''rem_address'', ''st'', ''tx_queue'', ''rx_queue'', ''tr'',
     ''tm->when'', ''retrnsmt'', ''uid'', ''timeout'', ''inode'']"
  "table_columns (Some tcp_header) = (1, 7)"
  unfolding tcp_header_def by code_simp+

theorem header_columns_name_fields_witness:
  "names_at ''local_address'' (str_fields tcp_header) 1 \<and> names_at ''uid'' (str_fields tcp_header) 7"
  by (rule header_columns_name_fields) (simp_all add: tcp_header_eval paired_header_def)

definition demo_files :: "string \<Rightarrow> string list option" where
  "demo_files f =
     (if f = ''/proc/net/tcp6'' then Some [''local_address uid'']
      else if f = ''/proc/net/tcp'' then Some [''local_address uid'', ''0100007F:1F90 1000'']
      else None)"

lemma demo_rows:
  "str_fields ''local_address uid'' = [''local_address'', ''uid'']"
  "str_fields ''0100007F:1F90 1000'' = [''0100007F:1F90'', ''1000'']"
  "kernel_address False [127, 0, 0, 1] 8080 = ''0100007F:1F90''"
  "itoa 1000 = ''1000''"
  by code_simp+

theorem socket_user_found_witness:
  "QuerySocketUidFromProcFs False (0, 1) demo_files
     \<lparr>na_Network = ''tcp4'', na_Endpoint = Some ([127, 0, 0, 1], 8080)\<rparr> = Some 1000"
proof -
  have table: "socket_table ''tcp4'' = ''/proc/net/tcp''"
    by (simp add: socket_table_def has_suffix_def suffix_def)
  have six: "socket_file False 0 1 16 (demo_files (socket_table ''tcp4'' @ ''6'')) []"
    by (simp add: socket_file_def table demo_files_def demo_rows)
  have four: "socket_file False 0 1 4 (demo_files (socket_table ''tcp4'')) [([127, 0, 0, 1], 8080, 1000)]"
    by (simp add: socket_file_def table demo_files_def demo_rows socket_row_def socket_ok_def max_int64_def)
  have "QuerySocketUidFromProcFs False (0, 1) demo_files
     \<lparr>na_Network = ''tcp4'', na_Endpoint = Some ([127, 0, 0, 1], 8080)\<rparr> =
     Some (case socket_user [] (v4_prefix @ [127, 0, 0, 1]) 8080 of
            Some uid \<Rightarrow> uid
          | None \<Rightarrow> (case ip_To4 (v4_prefix @ [127, 0, 0, 1]) of
                       None \<Rightarrow> - 1
                     | Some ip4 \<Rightarrow> (case socket_user [([127, 0, 0, 1], 8080, 1000)] ip4 8080 of
                                    Some uid \<Rightarrow> uid | None \<Rightarrow> - 1)))"
    by (rule socket_user_found [where ip = "[127, 0, 0, 1]"]) (use six four in \<open>simp_all add: ip_To16_def\<close>)
  also have "ip_To4 (v4_prefix @ [127, 0, 0, 1]) = Some [127, 0, 0, 1]"
    by (simp add: ip_To4_def v4_prefix_def)
  finally show ?thesis by (simp add: socket_user_def)
qed

end
