(* ===== verification/CoreAndroid.thy ===== *)
theory CoreAndroid
  imports CoreConfig CoreProcFs
begin

text \<open>
  The Android side of the proxy core: the application state (\<open>src/core/state/state.go\<close>), the TUN
  device with its callback object (\<open>lib_android.go\<close>, \<open>android_bride.go\<close>, \<open>tun/tun.go\<close>) and the
  limit on open files (\<open>platform/limit.go\<close>). Calls of the system and of the vendored core are
  recorded in order.
\<close>

section \<open>Application state\<close>

record AccessControl =
  ac_Enable :: bool
  ac_Mode :: string
  ac_AcceptList :: "string list"
  ac_RejectList :: "string list"

record AndroidVpnRawOptions =
  vr_Enable :: bool
  vr_AccessControl :: "AccessControl option"
  vr_AllowBypass :: bool
  vr_SystemProxy :: bool
  vr_Ipv6 :: bool

record State =
  ss_VpnProps :: AndroidVpnRawOptions
  ss_CurrentProfileName :: string
  ss_OnlyStatisticsProxy :: bool
  ss_BypassDomain :: "string list"

record AndroidVpnOptions =
  vo_Enable :: bool
  vo_Port :: int
  vo_AccessControl :: "AccessControl option"
  vo_AllowBypass :: bool
  vo_SystemProxy :: bool
  vo_BypassDomain :: "string list"
  vo_RouteAddress :: "string list"
  vo_Ipv4Address :: string
  vo_Ipv6Address :: string
  vo_DnsServerAddress :: string

definition DefaultIpv4Address :: string where
  "DefaultIpv4Address = ''172.19.0.1/30''"

definition DefaultDnsAddress :: string where
  "DefaultDnsAddress = ''172.19.0.2''"

definition DefaultIpv6Address :: string where
  "DefaultIpv6Address = ''fdfe:dcba:9876::1/126''"

definition GetIpv6Address :: "State \<Rightarrow> string" where
  "GetIpv6Address st = (if vr_Ipv6 (ss_VpnProps st) then DefaultIpv6Address else [])"

definition GetDnsServerAddress :: string where
  "GetDnsServerAddress = DefaultDnsAddress"

text \<open>
  \<open>handleSetState\<close>: \<open>decode\<close> is \<open>json.Unmarshal\<close> into the state there is, whose error is dropped.
\<close>

definition handleSetState :: "(string \<Rightarrow> State \<Rightarrow> State) \<Rightarrow> string \<Rightarrow> State \<Rightarrow> State" where
  "handleSetState decode params st = decode params st"

text \<open>\<open>handleGetAndroidVpnOptions\<close> up to the encoding: without a profile the process ends.\<close>

definition android_vpn_options :: "State \<Rightarrow> CoreCfg option \<Rightarrow> AndroidVpnOptions outcome" where
  "android_vpn_options st cfg =
     (case cfg of
        None \<Rightarrow> Panicked
      | Some c \<Rightarrow>
          (case cc_General c of
             None \<Rightarrow> Panicked
           | Some g \<Rightarrow>
               Returned \<lparr>vo_Enable = vr_Enable (ss_VpnProps st), vo_Port = gn_MixedPort g,
                 vo_AccessControl = vr_AccessControl (ss_VpnProps st),
                 vo_AllowBypass = vr_AllowBypass (ss_VpnProps st),
                 vo_SystemProxy = vr_SystemProxy (ss_VpnProps st),
                 vo_BypassDomain = ss_BypassDomain st, vo_RouteAddress = tn_RouteAddress (gn_Tun g),
                 vo_Ipv4Address = DefaultIpv4Address, vo_Ipv6Address = GetIpv6Address st,
                 vo_DnsServerAddress = GetDnsServerAddress\<rparr>))"

definition handleGetCurrentProfileName :: "State option \<Rightarrow> string" where
  "handleGetCurrentProfileName st = (case st of None \<Rightarrow> [] | Some s \<Rightarrow> ss_CurrentProfileName s)"

section \<open>The TUN device\<close>

text \<open>The options \<open>tun.Start\<close> gives to \<open>sing_tun.New\<close>.\<close>

record TunOptions =
  to_Enable :: bool
  to_Device :: string
  to_Stack :: int
  to_DNSHijack :: "string list"
  to_AutoRoute :: bool
  to_AutoDetectInterface :: bool
  to_Inet4Address :: "string list"
  to_Inet6Address :: "string list"
  to_MTU :: int
  to_FileDescriptor :: int

definition tun_options :: "State \<Rightarrow> int \<Rightarrow> string \<Rightarrow> int \<Rightarrow> TunOptions" where
  "tun_options st fd device stack =
     \<lparr>to_Enable = True, to_Device = device, to_Stack = stack,
      to_DNSHijack = [GetDnsServerAddress @ '':53''], to_AutoRoute = False, to_AutoDetectInterface = False,
      to_Inet4Address = [DefaultIpv4Address],
      to_Inet6Address = (if vr_Ipv6 (ss_VpnProps st) then [DefaultIpv6Address] else []),
      to_MTU = 9000, to_FileDescriptor = fd\<rparr>"

text \<open>
  Objects of the Java side and listeners are numbers. What is done to them is recorded.
\<close>

datatype tun_call =
    TunNew TunOptions
  | TunClose nat
  | TunRelease nat
  | TunProtect nat int
  | TunResolve nat int string string int

record TunHandler =
  th_listener :: "nat option"
  th_callback :: "nat option"

record TunState =
  tt_runTime :: "time option"
  tt_handler :: "TunHandler option"
  tt_hook :: bool
  tt_calls :: "tun_call list"

definition tun_emit :: "tun_call list \<Rightarrow> TunState \<Rightarrow> TunState" where
  "tun_emit cs s = s\<lparr>tt_calls := tt_calls s @ cs\<rparr>"

definition initTunHook :: "TunState \<Rightarrow> TunState" where
  "initTunHook s = s\<lparr>tt_hook := True\<rparr>"

definition removeTunHook :: "TunState \<Rightarrow> TunState" where
  "removeTunHook s = s\<lparr>tt_hook := False\<rparr>"

text \<open>\<open>TunHandler.close\<close>: it waits for the four permits, so no use of the callback is under way.\<close>

definition tun_close :: "TunHandler \<Rightarrow> TunState \<Rightarrow> TunState" where
  "tun_close h s =
     (let s1 = removeTunHook s;
          s2 = (case th_listener h of None \<Rightarrow> s1 | Some l \<Rightarrow> tun_emit [TunClose l] s1);
          s3 = (case th_callback h of None \<Rightarrow> s2 | Some c \<Rightarrow> tun_emit [TunRelease c] s2)
      in s3\<lparr>tt_handler := Some \<lparr>th_listener = None, th_callback = None\<rparr>\<rparr>)"

definition handleStopTun :: "TunState \<Rightarrow> TunState" where
  "handleStopTun s =
     (let s1 = s\<lparr>tt_runTime := None\<rparr>
      in case tt_handler s1 of None \<Rightarrow> s1 | Some h \<Rightarrow> tun_close h s1)"

text \<open>\<open>new_tun\<close> is \<open>sing_tun.New\<close>: the listener, or none on an error.\<close>

definition handleStartTun ::
    "(TunOptions \<Rightarrow> nat option) \<Rightarrow> time \<Rightarrow> State \<Rightarrow> CoreCfg option \<Rightarrow> int \<Rightarrow> nat \<Rightarrow> TunState
     \<Rightarrow> unit outcome \<times> TunState" where
  "handleStartTun new_tun now st cfg fd callback s =
     (let s1 = (handleStopTun s)\<lparr>tt_runTime := Some now\<rparr> in
      if fd = 0 then (Returned (), s1)
      else
        let s2 = initTunHook (s1\<lparr>tt_handler := Some \<lparr>th_listener = None, th_callback = Some callback\<rparr>\<rparr>) in
        (case cfg of
           None \<Rightarrow> (Panicked, s2)
         | Some c \<Rightarrow>
             (case cc_General c of
                None \<Rightarrow> (Panicked, s2)
              | Some g \<Rightarrow>
                  let opts = tun_options st fd (tn_Device (gn_Tun g)) (tn_Stack (gn_Tun g));
                      s3 = tun_emit [TunNew opts] s2
                  in (case new_tun opts of
                        Some l \<Rightarrow>
                          (Returned (), s3\<lparr>tt_handler := Some \<lparr>th_listener = Some l, th_callback = Some callback\<rparr>\<rparr>)
                      | None \<Rightarrow> (Returned (), removeTunHook s3)))))"

definition handleGetRunTime :: "TunState \<Rightarrow> string" where
  "handleGetRunTime s =
     (case tt_runTime s of None \<Rightarrow> [] | Some t \<Rightarrow> itoa ((t - 62135596800000000000) div 1000000))"

section \<open>Hooks\<close>

text \<open>\<open>platform.ShouldBlockConnection\<close>: \<open>dup\<close> is the descriptor \<open>syscall.Dup\<close> gives, if any.\<close>

definition max_fd_count :: "int option \<Rightarrow> int" where
  "max_fd_count limit = (case limit of None \<Rightarrow> go_div 1024 4 * 3 | Some cur \<Rightarrow> go_div cur 4 * 3)"

definition ShouldBlockConnection :: "int \<Rightarrow> int option \<Rightarrow> bool" where
  "ShouldBlockConnection maxFdCount dup = (case dup of None \<Rightarrow> True | Some fd \<Rightarrow> maxFdCount < fd)"

text \<open>
  \<open>handleProtect\<close> and the socket hook of \<open>initTunHook\<close>, which answers with an error when the
  connection is blocked; the registered function is called with the callback object.
\<close>

definition handleProtect :: "int \<Rightarrow> TunState \<Rightarrow> TunState" where
  "handleProtect fd s =
     (case tt_handler s of
        None \<Rightarrow> s
      | Some h \<Rightarrow>
          (case (th_listener h, th_callback h) of
             (Some _, Some c) \<Rightarrow> tun_emit [TunProtect c fd] s
           | _ \<Rightarrow> s))"

definition socket_hook :: "int \<Rightarrow> int option \<Rightarrow> int \<Rightarrow> TunState \<Rightarrow> string option \<times> TunState" where
  "socket_hook maxFdCount dup fd s =
     (if ShouldBlockConnection maxFdCount dup then (Some ''blocked'', s) else (None, handleProtect fd s))"

definition protocol_number :: "string \<Rightarrow> int" where
  "protocol_number network =
     (if network \<in> {''udp'', ''udp4'', ''udp6''} then 17
      else if network \<in> {''tcp'', ''tcp4'', ''tcp6''} then 6 else 0)"

text \<open>
  \<open>handleResolveProcess\<close>: the user is looked up only where the system is older than version 29;
  \<open>query\<close> is \<open>QuerySocketUidFromProcFs\<close>, \<open>resolve\<close> the registered function.
\<close>

definition handleResolveProcess ::
    "(nat \<Rightarrow> int \<Rightarrow> string \<Rightarrow> string \<Rightarrow> int \<Rightarrow> string) \<Rightarrow> int \<Rightarrow> (net_addr \<Rightarrow> int option) \<Rightarrow> (net_addr \<Rightarrow> string)
     \<Rightarrow> net_addr \<Rightarrow> net_addr \<Rightarrow> TunState \<Rightarrow> string outcome \<times> TunState" where
  "handleResolveProcess resolve version query addr_text source target s =
     (case tt_handler s of
        None \<Rightarrow> (Returned [], s)
      | Some h \<Rightarrow>
          (case (th_listener h, th_callback h) of
             (Some _, Some c) \<Rightarrow>
               (case (if version < 29 then query source else Some (- 1)) of
                  None \<Rightarrow> (Panicked, s)
                | Some uid \<Rightarrow>
                    let protocol = protocol_number (na_Network source);
                        src = addr_text source;
                        tgt = addr_text target
                    in (Returned (resolve c protocol src tgt uid),
                        tun_emit [TunResolve c protocol src tgt uid] s))
           | _ \<Rightarrow> (Returned [], s)))"

section \<open>Quick start\<close>

text \<open>
  \<open>quickStart\<close>: the messages sent to the port. A failed initialisation is reported, and the
  profile is applied all the same.
\<close>

definition quickStart ::
    "(RawCfg \<Rightarrow> string + CoreCfg) \<Rightarrow> (CoreCfg \<Rightarrow> bool gomap) \<Rightarrow> string \<Rightarrow> (string \<Rightarrow> State \<Rightarrow> State)
     \<Rightarrow> InitParams option \<Rightarrow> string + SetupParams \<Rightarrow> string \<Rightarrow> Core \<times> State
     \<Rightarrow> string list outcome \<times> Core \<times> State" where
  "quickStart parse proxies dflt_url decode initParams setup stateParams cs =
     (let (res, c1) = handleInitClash initParams (fst cs);
          msgs = (if res then [] else [''init error'']);
          st = handleSetState decode stateParams (snd cs)
      in case handleSetupConfig ''android'' parse proxies dflt_url setup c1 of
           (Panicked, c2) \<Rightarrow> (Panicked, c2, st)
         | (Returned err, c2) \<Rightarrow> (Returned (msgs @ [err]), c2, st))"

end
