(* ===== verification/CoreAndroidProps.thy ===== *)
theory CoreAndroidProps
  imports CoreAndroid
begin

text \<open>
  The callback object a start of the TUN device takes over: it is never used after it was
  released, and stopping releases each one exactly once.
\<close>

section \<open>Use and release in a record of calls\<close>

fun callback_of :: "tun_call \<Rightarrow> nat option" where
  "callback_of (TunRelease c) = Some c"
| "callback_of (TunProtect c fd) = Some c"
| "callback_of (TunResolve c p src tgt uid) = Some c"
| "callback_of (TunNew opts) = None"
| "callback_of (TunClose l) = None"

fun released :: "tun_call list \<Rightarrow> nat list" where
  "released [] = []"
| "released (TunRelease c # cs) = c # released cs"
| "released (_ # cs) = released cs"

text \<open>No call concerns an object of \<open>gone\<close> or one released by a call before it.\<close>

fun calls_ok :: "nat list \<Rightarrow> tun_call list \<Rightarrow> bool" where
  "calls_ok gone [] = True"
| "calls_ok gone (c # cs) =
     ((case callback_of c of None \<Rightarrow> True | Some cb \<Rightarrow> cb \<notin> set gone) \<and> calls_ok (released [c] @ gone) cs)"

lemma released_append [simp]: "released (cs @ ds) = released cs @ released ds"
  by (induction cs rule: released.induct) auto

lemma calls_ok_mono: "set gone = set gone' \<Longrightarrow> calls_ok gone cs = calls_ok gone' cs"
proof (induction cs arbitrary: gone gone')
  case (Cons c cs)
  then have "calls_ok (released [c] @ gone) cs = calls_ok (released [c] @ gone') cs"
    by (intro Cons.IH) simp
  with Cons.prems show ?case by (simp split: option.split)
qed simp

lemma calls_ok_append:
  "calls_ok gone (cs @ ds) \<longleftrightarrow> calls_ok gone cs \<and> calls_ok (released cs @ gone) ds"
proof (induction cs arbitrary: gone)
  case (Cons c cs)
  have "calls_ok (released cs @ released [c] @ gone) ds = calls_ok (released (c # cs) @ gone) ds"
    using released_append [of "[c]" cs] by (intro calls_ok_mono) auto
  with Cons show ?case by simp
qed simp

lemma released_distinct: "calls_ok gone cs \<Longrightarrow> distinct (released cs) \<and> set (released cs) \<inter> set gone = {}"
proof (induction cs arbitrary: gone)
  case (Cons c cs)
  from Cons.IH [of "released [c] @ gone"] Cons.prems show ?case by (cases c) auto
qed simp

section \<open>Starting, stopping and using the device\<close>

text \<open>The second part of the state lists the objects taken over by a start with a descriptor.\<close>

inductive tun_step :: "TunState \<times> nat list \<Rightarrow> TunState \<times> nat list \<Rightarrow> bool" where
  start_tun: "handleStartTun new_tun now st cfg fd cb s = (Returned (), s') \<Longrightarrow> cb \<notin> set taken \<Longrightarrow>
    tun_step (s, taken) (s', if fd = 0 then taken else cb # taken)"
| stop_tun: "tun_step (s, taken) (handleStopTun s, taken)"
| open_socket: "tun_step (s, taken) (snd (socket_hook maxFd dup fd s), taken)"
| resolve_process: "tun_step (s, taken)
    (snd (handleResolveProcess resolve version query addr_text source target s), taken)"

inductive tun_run :: "TunState \<times> nat list \<Rightarrow> bool" where
  here: "tun_run (\<lparr>tt_runTime = None, tt_handler = None, tt_hook = False, tt_calls = []\<rparr>, [])"
| onward: "tun_run p \<Longrightarrow> tun_step p q \<Longrightarrow> tun_run q"

definition held_callback :: "TunState \<Rightarrow> nat list" where
  "held_callback s = (case tt_handler s of None \<Rightarrow> [] | Some h \<Rightarrow> (case th_callback h of None \<Rightarrow> [] | Some c \<Rightarrow> [c]))"

definition held_listener :: "TunState \<Rightarrow> nat option" where
  "held_listener s = (case tt_handler s of None \<Rightarrow> None | Some h \<Rightarrow> th_listener h)"

definition tun_inv :: "TunState \<Rightarrow> nat list \<Rightarrow> bool" where
  "tun_inv s taken =
     (calls_ok [] (tt_calls s) \<and>
      set taken = set (released (tt_calls s)) \<union> set (held_callback s) \<and>
      set (released (tt_calls s)) \<inter> set (held_callback s) = {} \<and>
      tt_hook s = (held_listener s \<noteq> None))"

lemma stop_inv:
  assumes "tun_inv s taken"
  shows "tun_inv (handleStopTun s) taken" and "held_callback (handleStopTun s) = []"
    and "held_listener (handleStopTun s) = None"
proof (atomize (full), cases "tt_handler s")
  case None
  then show "tun_inv (handleStopTun s) taken \<and> held_callback (handleStopTun s) = [] \<and>
      held_listener (handleStopTun s) = None"
    using assms by (simp add: handleStopTun_def tun_inv_def held_callback_def held_listener_def)
next
  case (Some h)
  then show "tun_inv (handleStopTun s) taken \<and> held_callback (handleStopTun s) = [] \<and>
      held_listener (handleStopTun s) = None"
    using assms
    by (cases "th_listener h"; cases "th_callback h")
       (auto simp: handleStopTun_def tun_close_def tun_emit_def removeTunHook_def tun_inv_def
         held_callback_def held_listener_def calls_ok_append Let_def)
qed

lemma start_inv:
  assumes inv: "tun_inv s taken" and new: "cb \<notin> set taken"
    and run: "handleStartTun new_tun now st cfg fd cb s = (Returned (), s')"
  shows "tun_inv s' (if fd = 0 then taken else cb # taken)"
proof -
  note stop = stop_inv [OF inv]
  have new': "cb \<notin> set (released (tt_calls (handleStopTun s)))"
    using stop(1) new by (auto simp: tun_inv_def)
  show ?thesis
  proof (cases "fd = 0")
    case True
    then have "s' = (handleStopTun s)\<lparr>tt_runTime := Some now\<rparr>"
      using run by (simp add: handleStartTun_def Let_def)
    then show ?thesis
      using stop(1) True by (simp add: tun_inv_def held_callback_def held_listener_def)
  next
    case False
    obtain l opts where s': "tt_calls s' = tt_calls (handleStopTun s) @ [TunNew opts]"
        "tt_handler s' = Some \<lparr>th_listener = l, th_callback = Some cb\<rparr>" "tt_hook s' = (l \<noteq> None)"
      using run False
      by (simp add: handleStartTun_def initTunHook_def removeTunHook_def tun_emit_def Let_def
            split: option.splits) fastforce+
    have "calls_ok [] (tt_calls (handleStopTun s))" "set taken = set (released (tt_calls (handleStopTun s)))"
      using stop(1,2) by (simp_all add: tun_inv_def)
    then show ?thesis
      using False new' by (simp add: tun_inv_def held_callback_def held_listener_def s' calls_ok_append)
  qed
qed

lemma emit_inv:
  assumes "tun_inv s taken" and "held_callback s = [c]" and "callback_of call = Some c" and "released [call] = []"
  shows "tun_inv (tun_emit [call] s) taken"
  using assms
  by (auto simp: tun_inv_def tun_emit_def calls_ok_append held_callback_def held_listener_def split: option.splits)

lemma tun_step_inv: "tun_step p q \<Longrightarrow> tun_inv (fst p) (snd p) \<Longrightarrow> tun_inv (fst q) (snd q)"
proof (induction rule: tun_step.induct)
  case (start_tun new_tun now st cfg fd cb s s' taken)
  then show ?case using start_inv by simp
next
  case (stop_tun s taken)
  then show ?case using stop_inv(1) by simp
next
  case (open_socket s taken maxFd dup fd)
  then show ?case
    by (auto simp: socket_hook_def handleProtect_def held_callback_def intro!: emit_inv split: option.splits)
next
  case (resolve_process s taken resolve version query addr_text source target)
  then show ?case
    by (auto simp: handleResolveProcess_def held_callback_def Let_def intro!: emit_inv split: option.splits)
qed

lemma tun_run_inv: "tun_run p \<Longrightarrow> tun_inv (fst p) (snd p)"
proof (induction rule: tun_run.induct)
  case here
  show ?case by (simp add: tun_inv_def held_callback_def held_listener_def)
next
  case (onward p q)
  then show ?case using tun_step_inv by blast
qed

lemma count_released: "count_list cs (TunRelease c) = count_list (released cs) c"
  by (induction cs rule: released.induct) auto

lemma count_distinct: "distinct xs \<Longrightarrow> count_list xs x = (if x \<in> set xs then 1 else 0)"
  by (induction xs) auto


text \<open>A start, a connection, a stop.\<close>

definition demo_tun_start :: "unit outcome \<times> TunState" where
  "demo_tun_start = handleStartTun (\<lambda>_. Some 9) 1 \<lparr>ss_VpnProps = \<lparr>vr_Enable = True, vr_AccessControl = None,
       vr_AllowBypass = False, vr_SystemProxy = False, vr_Ipv6 = False\<rparr>, ss_CurrentProfileName = [],
       ss_OnlyStatisticsProxy = False, ss_BypassDomain = []\<rparr>
     (Some \<lparr>cc_General = Some \<lparr>gn_Port = 0, gn_SocksPort = 0, gn_RedirPort = 0, gn_TProxyPort = 0,
       gn_MixedPort = 7890, gn_AllowLan = False, gn_SkipAuthPrefixes = [], gn_LanAllowedIPs = [],
       gn_LanDisAllowedIPs = [], gn_BindAddress = [], gn_ShadowSocksConfig = [], gn_VmessConfig = [],
       gn_TuicServer = [], gn_Tun = \<lparr>tn_Enable = False, tn_Device = [], tn_Stack = 0, tn_DNSHijack = [],
         tn_AutoRoute = False, tn_RouteAddress = []\<rparr>,
       gn_Mode = 1, gn_LogLevel = 2, gn_IPv6 = False, gn_Interface = [], gn_Sniffing = False,
       gn_FindProcessMode = 0, gn_TCPConcurrent = False, gn_UnifiedDelay = False\<rparr>,
       cc_Controller = None, cc_Listeners = []\<rparr>) 5 3
     \<lparr>tt_runTime = None, tt_handler = None, tt_hook = False, tt_calls = []\<rparr>"

lemma demo_tun:
  "fst demo_tun_start = Returned ()"
  "tt_handler (snd demo_tun_start) = Some \<lparr>th_listener = Some 9, th_callback = Some 3\<rparr>"
  by (simp_all add: demo_tun_start_def handleStartTun_def handleStopTun_def initTunHook_def tun_emit_def Let_def)


end
