(* ===== verification/CoreActions.thy ===== *)
theory CoreActions
  imports GoJson CoreConfig CoreLogs CoreProbe CoreDiagnose CoreProviders CoreAndroid
begin

text \<open>
  The requests of the application to the proxy core: the dispatch of \<open>action.go\<close>, the remaining
  handlers of \<open>hub.go\<close>, the line server of \<open>server.go\<close> and the iOS entry points of
  \<open>lib_ios.go\<close>, over the state of all parts of the Go layer.
\<close>

section \<open>Requests, replies and state\<close>

datatype Method =
    M_initClash | M_getIsInit | M_forceGc | M_shutdown | M_validateConfig | M_updateConfig
  | M_getProxies | M_changeProxy | M_getTraffic | M_getTotalTraffic | M_resetTraffic
  | M_asyncTestDelay | M_diagnoseProxy | M_streamingProbe | M_cancelStreamingProbes
  | M_getConnections | M_closeConnections | M_resetConnections | M_clearNetworkCaches
  | M_closeConnection | M_getExternalProviders | M_getExternalProvider | M_getCountryCode
  | M_getMemory | M_updateGeoData | M_updateExternalProvider | M_sideLoadExternalProvider
  | M_startLog | M_stopLog | M_drainLogs | M_startListener | M_stopListener | M_updateDns
  | M_setState | M_getAndroidVpnOptions | M_getRunTime | M_getCurrentProfileName | M_crash
  | M_setupConfig | M_getConfig | M_getConfigContent | M_other string

record Action =
  a_Id :: string
  a_Method :: Method
  a_Data :: any

record ActionResult =
  r_Id :: string
  r_Method :: Method
  r_Data :: any
  r_Code :: int

text \<open>What is done to the vendored core besides the calls of the configuration.\<close>

datatype side_call =
    SideGC
  | SideResetStatistic
  | SideResetConnection
  | SideClearCache
  | SideFlushFakeIP
  | SideFlushDNSCache
  | SideCloseConnection string
  | SideUpdateGeo string
  | SideUpdateDNS "string list"

record World =
  w_core :: Core
  w_log :: LogState
  w_runs :: Runs
  w_providers :: "Provider gomap"
  w_tun :: TunState
  w_state :: State
  w_selected :: "select_call list"
  w_side :: "side_call list"

text \<open>
  The code outside the layer, at the time of a request: decoders and encoders of JSON and
  YAML, the vendored core and the network.
\<close>

record core_ext =
  ce_goos :: string
  ce_default_url :: string
  ce_parse :: "RawCfg \<Rightarrow> string + CoreCfg"
  ce_groups :: "CoreCfg \<Rightarrow> bool gomap"
  ce_inbounds :: "string list"
  ce_unmarshal :: "string \<Rightarrow> string + RawCfg"
  ce_read_file :: "string \<Rightarrow> string + string"
  ce_error_json :: "string \<Rightarrow> any"
  ce_raw_json :: "RawCfg \<Rightarrow> anymap"
  ce_marshal :: "any \<Rightarrow> string"
  ce_dec_init :: "string \<Rightarrow> InitParams option"
  ce_dec_update :: "string \<Rightarrow> string + UpdateParams option"
  ce_dec_setup :: "string \<Rightarrow> string + SetupParams"
  ce_dec_change :: "string \<Rightarrow> string + ChangeProxyParams"
  ce_dec_delay :: "string \<Rightarrow> TestDelayParams option"
  ce_dec_diagnose :: "string \<Rightarrow> string + DiagnoseProxyParams"
  ce_dec_probe :: "string \<Rightarrow> string + StreamingProbeParams"
  ce_dec_map :: "string \<Rightarrow> string + string gomap"
  ce_dec_state :: "string \<Rightarrow> State \<Rightarrow> State"
  ce_enc_delay :: "Delay \<Rightarrow> string"
  ce_enc_diagnosis :: "ProxyDiagnosticResult \<Rightarrow> string"
  ce_enc_probe :: "StreamingProbeResult \<Rightarrow> string"
  ce_enc_logs :: "Message list \<Rightarrow> string option"
  ce_enc_providers :: "ExternalProvider list \<Rightarrow> string option"
  ce_enc_provider :: "ExternalProvider \<Rightarrow> string option"
  ce_enc_options :: "AndroidVpnOptions \<Rightarrow> string option"
  ce_tunnel :: "tunnel_proxy gomap"
  ce_proxies :: anymap
  ce_delay_test :: "string \<Rightarrow> (string \<Rightarrow> string option \<times> nat) option"
  ce_uni :: "string \<Rightarrow> string"
  ce_upper :: "string \<Rightarrow> string"
  ce_network :: network
  ce_nodes :: "string \<Rightarrow> node option"
  ce_new_request :: "string \<Rightarrow> string \<Rightarrow> string option"
  ce_send :: "probe_call \<Rightarrow> string + probe_answer"
  ce_during :: "Runs \<Rightarrow> Runs"
  ce_clock :: "time \<times> time \<times> time"
  ce_fresh :: nat
  ce_now_traffic :: "int \<times> int"
  ce_total_traffic :: "int \<times> int"
  ce_snapshot :: "string option"
  ce_connections :: "string list"
  ce_close_fails :: "string \<Rightarrow> bool"
  ce_geo :: "string \<Rightarrow> string option"
  ce_proxy_sets :: "Provider gomap"
  ce_rule_sets :: "Provider gomap"
  ce_country :: "string \<Rightarrow> string list"
  ce_memory :: int

section \<open>The remaining handlers\<close>

definition side :: "side_call list \<Rightarrow> World \<Rightarrow> World" where
  "side cs w = w\<lparr>w_side := w_side w @ cs\<rparr>"

definition handleValidateConfig :: "core_ext \<Rightarrow> string \<Rightarrow> string" where
  "handleValidateConfig x data = (case ce_unmarshal x data of Inl err \<Rightarrow> err | Inr _ \<Rightarrow> [])"

text \<open>\<open>json.Marshal\<close> of the map of two counters, with its keys sorted.\<close>

definition traffic_json :: "int \<times> int \<Rightarrow> string" where
  "traffic_json t = ''{\"down\":'' @ itoa (snd t) @ '',\"up\":'' @ itoa (fst t) @ ''}''"

definition handleGetTraffic :: "core_ext \<Rightarrow> string" where
  "handleGetTraffic x = traffic_json (ce_now_traffic x)"

definition handleGetTotalTraffic :: "core_ext \<Rightarrow> string" where
  "handleGetTotalTraffic x = traffic_json (ce_total_traffic x)"

definition handleGetConnections :: "core_ext \<Rightarrow> string" where
  "handleGetConnections x = (case ce_snapshot x of None \<Rightarrow> [] | Some data \<Rightarrow> data)"

text \<open>\<open>closeConnections\<close> stops at the first connection whose closing fails.\<close>

fun close_range :: "(string \<Rightarrow> bool) \<Rightarrow> string list \<Rightarrow> side_call list" where
  "close_range fails [] = []"
| "close_range fails (c # cs) = SideCloseConnection c # (if fails c then [] else close_range fails cs)"

definition handleCloseConnections :: "core_ext \<Rightarrow> World \<Rightarrow> bool \<times> World" where
  "handleCloseConnections x w = (True, side (close_range (ce_close_fails x) (ce_connections x)) w)"

definition handleResetConnections :: "World \<Rightarrow> bool \<times> World" where
  "handleResetConnections w = (True, side [SideResetConnection] w)"

definition handleClearNetworkCaches :: "World \<Rightarrow> bool \<times> World" where
  "handleClearNetworkCaches w = (True, side [SideClearCache, SideFlushFakeIP] w)"

definition handleCloseConnection :: "core_ext \<Rightarrow> string \<Rightarrow> World \<Rightarrow> bool \<times> World" where
  "handleCloseConnection x connectionId w =
     (if connectionId \<in> set (ce_connections x) then (True, side [SideCloseConnection connectionId] w)
      else (False, w))"

definition handleUpdateGeoData :: "core_ext \<Rightarrow> string \<Rightarrow> World \<Rightarrow> string \<times> World" where
  "handleUpdateGeoData x geoType w =
     (if geoType \<in> {''MMDB'', ''ASN'', ''GeoIp'', ''GeoSite''} then
        (case ce_geo x geoType of Some err \<Rightarrow> err | None \<Rightarrow> [], side [SideUpdateGeo geoType] w)
      else ([], w))"

definition handleGetCountryCode :: "core_ext \<Rightarrow> string \<Rightarrow> string" where
  "handleGetCountryCode x ip = (case ce_country x ip of [] \<Rightarrow> [] | c # _ \<Rightarrow> c)"

definition handleGetMemory :: "core_ext \<Rightarrow> string" where
  "handleGetMemory x = itoa (ce_memory x)"

definition handleGetConfigContent :: "core_ext \<Rightarrow> string \<Rightarrow> string + RawCfg" where
  "handleGetConfigContent x content = ce_unmarshal x content"

definition handleGetConfig :: "core_ext \<Rightarrow> string \<Rightarrow> string + RawCfg" where
  "handleGetConfig x path =
     (case ce_read_file x path of Inl err \<Rightarrow> Inl err | Inr content \<Rightarrow> handleGetConfigContent x content)"

definition handleUpdateDns :: "string \<Rightarrow> World \<Rightarrow> World" where
  "handleUpdateDns value w = side [SideUpdateDNS (split_on CHR '','' value), SideFlushDNSCache, SideFlushFakeIP] w"

section \<open>The handlers on the whole state\<close>

text \<open>Each gives the data of the reply, or panics, and the state after it.\<close>

type_synonym handled = "any outcome \<times> World"

definition on_core :: "('a \<Rightarrow> any) \<Rightarrow> (Core \<Rightarrow> 'a outcome \<times> Core) \<Rightarrow> World \<Rightarrow> handled" where
  "on_core reply f w =
     (case f (w_core w) of
        (Panicked, c) \<Rightarrow> (Panicked, w\<lparr>w_core := c\<rparr>)
      | (Returned a, c) \<Rightarrow> (Returned (reply a), w\<lparr>w_core := c\<rparr>))"

definition total_core :: "(Core \<Rightarrow> bool \<times> Core) \<Rightarrow> Core \<Rightarrow> bool outcome \<times> Core" where
  "total_core f c = (case f c of (b, c') \<Rightarrow> (Returned b, c'))"

definition do_changeProxy :: "core_ext \<Rightarrow> string \<Rightarrow> World \<Rightarrow> handled" where
  "do_changeProxy x data w =
     (case handleChangeProxy (ce_tunnel x) (ce_dec_change x data) of
        (Panicked, cs) \<Rightarrow> (Panicked, w\<lparr>w_selected := w_selected w @ cs\<rparr>)
      | (Returned v, cs) \<Rightarrow> (Returned (VStr v), w\<lparr>w_selected := w_selected w @ cs\<rparr>))"

definition do_testDelay :: "core_ext \<Rightarrow> string \<Rightarrow> World \<Rightarrow> string" where
  "do_testDelay x data w =
     (case handleAsyncTestDelay (ce_delay_test x) (co_testURL (w_core w)) (ce_dec_delay x data) of
        None \<Rightarrow> [] | Some d \<Rightarrow> ce_enc_delay x d)"

definition do_diagnose :: "core_ext \<Rightarrow> string \<Rightarrow> string" where
  "do_diagnose x data =
     ce_enc_diagnosis x (fst (handleDiagnoseProxy (ce_uni x) (ce_network x) (ce_nodes x) (ce_dec_diagnose x data)))"

definition do_probe :: "core_ext \<Rightarrow> string \<Rightarrow> World \<Rightarrow> string \<times> World" where
  "do_probe x data w =
     (let (res, sent, r) = handleStreamingProbe (ce_upper x) (\<lambda>n. ce_nodes x n \<noteq> None) (ce_new_request x)
            (ce_send x) (ce_during x) (ce_clock x) (ce_dec_probe x data) (w_runs w)
      in (ce_enc_probe x res, w\<lparr>w_runs := r\<rparr>))"

definition do_cancelProbes :: "core_ext \<Rightarrow> string \<Rightarrow> World \<Rightarrow> World" where
  "do_cancelProbes x data w = w\<lparr>w_runs := cancelStreamingProbes (fst (ce_clock x)) data (w_runs w)\<rparr>"

definition do_providers :: "core_ext \<Rightarrow> World \<Rightarrow> string \<times> World" where
  "do_providers x w =
     (let (out, eps) = handleGetExternalProviders (ce_enc_providers x) (ce_proxy_sets x) (ce_rule_sets x) (w_providers w)
      in (out, w\<lparr>w_providers := eps\<rparr>))"

definition do_drainLogs :: "core_ext \<Rightarrow> World \<Rightarrow> string \<times> World" where
  "do_drainLogs x w =
     (let (out, l) = handleDrainLogs (ce_enc_logs x) (w_log w) in (out, w\<lparr>w_log := l\<rparr>))"

definition do_androidOptions :: "core_ext \<Rightarrow> World \<Rightarrow> any outcome" where
  "do_androidOptions x w =
     (case android_vpn_options (w_state w) (co_config (w_core w)) of
        Panicked \<Rightarrow> Panicked
      | Returned opts \<Rightarrow> Returned (VStr (case ce_enc_options x opts of None \<Rightarrow> [] | Some data \<Rightarrow> data)))"

section \<open>The dispatch\<close>

text \<open>The names of the methods, as \<open>constant.go\<close> spells them.\<close>

fun method_text :: "Method \<Rightarrow> string" where
  "method_text M_initClash = ''initClash''"
| "method_text M_getIsInit = ''getIsInit''"
| "method_text M_forceGc = ''forceGc''"
| "method_text M_shutdown = ''shutdown''"
| "method_text M_validateConfig = ''validateConfig''"
| "method_text M_updateConfig = ''updateConfig''"
| "method_text M_getProxies = ''getProxies''"
| "method_text M_changeProxy = ''changeProxy''"
| "method_text M_getTraffic = ''getTraffic''"
| "method_text M_getTotalTraffic = ''getTotalTraffic''"
| "method_text M_resetTraffic = ''resetTraffic''"
| "method_text M_asyncTestDelay = ''asyncTestDelay''"
| "method_text M_diagnoseProxy = ''diagnoseProxy''"
| "method_text M_streamingProbe = ''streamingProbe''"
| "method_text M_cancelStreamingProbes = ''cancelStreamingProbes''"
| "method_text M_getConnections = ''getConnections''"
| "method_text M_closeConnections = ''closeConnections''"
| "method_text M_resetConnections = ''resetConnections''"
| "method_text M_clearNetworkCaches = ''clearNetworkCaches''"
| "method_text M_closeConnection = ''closeConnection''"
| "method_text M_getExternalProviders = ''getExternalProviders''"
| "method_text M_getExternalProvider = ''getExternalProvider''"
| "method_text M_getCountryCode = ''getCountryCode''"
| "method_text M_getMemory = ''getMemory''"
| "method_text M_updateGeoData = ''updateGeoData''"
| "method_text M_updateExternalProvider = ''updateExternalProvider''"
| "method_text M_sideLoadExternalProvider = ''sideLoadExternalProvider''"
| "method_text M_startLog = ''startLog''"
| "method_text M_stopLog = ''stopLog''"
| "method_text M_drainLogs = ''drainLogs''"
| "method_text M_startListener = ''startListener''"
| "method_text M_stopListener = ''stopListener''"
| "method_text M_updateDns = ''updateDns''"
| "method_text M_setState = ''setState''"
| "method_text M_getAndroidVpnOptions = ''getAndroidVpnOptions''"
| "method_text M_getRunTime = ''getRunTime''"
| "method_text M_getCurrentProfileName = ''getCurrentProfileName''"
| "method_text M_crash = ''crash''"
| "method_text M_setupConfig = ''setupConfig''"
| "method_text M_getConfig = ''getConfig''"
| "method_text M_getConfigContent = ''getConfigContent''"
| "method_text (M_other s) = s"

text \<open>The replies sent, whether the process ends in a panic, and the state.\<close>

type_synonym reaction = "ActionResult list \<times> bool \<times> World"

definition success :: "ActionResult \<Rightarrow> any \<Rightarrow> ActionResult" where
  "success r data = r\<lparr>r_Code := 0, r_Data := data\<rparr>"

definition failure :: "ActionResult \<Rightarrow> any \<Rightarrow> ActionResult" where
  "failure r data = r\<lparr>r_Code := - 1, r_Data := data\<rparr>"

definition answer :: "ActionResult \<Rightarrow> handled \<Rightarrow> reaction" where
  "answer r h = (case h of (Panicked, w) \<Rightarrow> ([], True, w) | (Returned d, w) \<Rightarrow> ([success r d], False, w))"

text \<open>\<open>action.Data.(string)\<close>, which panics on any other value.\<close>

definition with_string :: "any \<Rightarrow> World \<Rightarrow> (string \<Rightarrow> reaction) \<Rightarrow> reaction" where
  "with_string d w f = (case d of VStr s \<Rightarrow> f s | _ \<Rightarrow> ([], True, w))"

abbreviation reply_str :: "ActionResult \<Rightarrow> string \<Rightarrow> World \<Rightarrow> reaction" where
  "reply_str r s w \<equiv> answer r (Returned (VStr s), w)"

abbreviation reply_bool :: "ActionResult \<Rightarrow> bool \<Rightarrow> World \<Rightarrow> reaction" where
  "reply_bool r b w \<equiv> answer r (Returned (VBool b), w)"

definition reply_config :: "core_ext \<Rightarrow> ActionResult \<Rightarrow> string + RawCfg \<Rightarrow> World \<Rightarrow> reaction" where
  "reply_config x r c w =
     (case c of
        Inl err \<Rightarrow> ([failure r (ce_error_json x err)], False, w)
      | Inr cfg \<Rightarrow> ([success r (VMap (ce_raw_json x cfg))], False, w))"

definition map_value :: "string gomap \<Rightarrow> string \<Rightarrow> string" where
  "map_value m k = (case gm_get m k of None \<Rightarrow> [] | Some v \<Rightarrow> v)"

text \<open>\<open>nextHandle\<close>: the methods of Android only; the other builds know none.\<close>

definition nextHandle :: "core_ext \<Rightarrow> Action \<Rightarrow> ActionResult \<Rightarrow> World \<Rightarrow> reaction option" where
  "nextHandle x a r w =
     (if ce_goos x \<noteq> ''android'' then None
      else (case a_Method a of
              M_getAndroidVpnOptions \<Rightarrow> Some (answer r (do_androidOptions x w, w))
            | M_updateDns \<Rightarrow> Some (with_string (a_Data a) w (\<lambda>d. reply_bool r True (handleUpdateDns d w)))
            | M_getRunTime \<Rightarrow> Some (reply_str r (handleGetRunTime (w_tun w)) w)
            | M_getCurrentProfileName \<Rightarrow>
                Some (reply_str r (handleGetCurrentProfileName (Some (w_state w))) w)
            | _ \<Rightarrow> None))"

definition unsupported :: "core_ext \<Rightarrow> Action \<Rightarrow> ActionResult \<Rightarrow> World \<Rightarrow> reaction" where
  "unsupported x a r w =
     (case nextHandle x a r w of
        Some res \<Rightarrow> res
      | None \<Rightarrow>
          ([failure r (VStr (''unsupported action method: '' @ method_text (a_Method a)))], False, w))"

text \<open>\<open>handleAction\<close>. Handlers that work in a goroutine of their own answer when they are done.\<close>

definition handleAction :: "core_ext \<Rightarrow> Action \<Rightarrow> ActionResult \<Rightarrow> World \<Rightarrow> reaction" where
  "handleAction x a r w =
     (let str = with_string (a_Data a) w in
      case a_Method a of
        M_initClash \<Rightarrow> str (\<lambda>d. answer r (on_core VBool (total_core (handleInitClash (ce_dec_init x d))) w))
      | M_getIsInit \<Rightarrow> reply_bool r (co_isInit (w_core w)) w
      | M_forceGc \<Rightarrow> reply_bool r True (side [SideGC] w)
      | M_shutdown \<Rightarrow> answer r (on_core VBool (total_core (handleShutdown (ce_inbounds x))) w)
      | M_validateConfig \<Rightarrow> str (\<lambda>d. reply_str r (handleValidateConfig x d) w)
      | M_updateConfig \<Rightarrow>
          str (\<lambda>d. answer r (on_core VStr (handleUpdateConfig (ce_goos x) (ce_dec_update x d)) w))
      | M_setupConfig \<Rightarrow>
          str (\<lambda>d. answer r (on_core VStr (handleSetupConfig (ce_goos x) (ce_parse x) (ce_groups x)
                               (ce_default_url x) (ce_dec_setup x d)) w))
      | M_getProxies \<Rightarrow> answer r (Returned (VMap (ce_proxies x)), w)
      | M_changeProxy \<Rightarrow> str (\<lambda>d. answer r (do_changeProxy x d w))
      | M_getTraffic \<Rightarrow> reply_str r (handleGetTraffic x) w
      | M_getTotalTraffic \<Rightarrow> reply_str r (handleGetTotalTraffic x) w
      | M_resetTraffic \<Rightarrow> reply_bool r True (side [SideResetStatistic] w)
      | M_asyncTestDelay \<Rightarrow> str (\<lambda>d. reply_str r (do_testDelay x d w) w)
      | M_diagnoseProxy \<Rightarrow> str (\<lambda>d. reply_str r (do_diagnose x d) w)
      | M_cancelStreamingProbes \<Rightarrow> str (\<lambda>d. reply_str r ''ok'' (do_cancelProbes x d w))
      | M_streamingProbe \<Rightarrow> str (\<lambda>d. case do_probe x d w of (out, w1) \<Rightarrow> reply_str r out w1)
      | M_getConnections \<Rightarrow> reply_str r (handleGetConnections x) w
      | M_closeConnections \<Rightarrow> (case handleCloseConnections x w of (b, w1) \<Rightarrow> reply_bool r b w1)
      | M_resetConnections \<Rightarrow> (case handleResetConnections w of (b, w1) \<Rightarrow> reply_bool r b w1)
      | M_clearNetworkCaches \<Rightarrow> (case handleClearNetworkCaches w of (b, w1) \<Rightarrow> reply_bool r b w1)
      | M_getConfig \<Rightarrow> str (\<lambda>d. reply_config x r (handleGetConfig x d) w)
      | M_getConfigContent \<Rightarrow> str (\<lambda>d. reply_config x r (handleGetConfigContent x d) w)
      | M_closeConnection \<Rightarrow> str (\<lambda>d. case handleCloseConnection x d w of (b, w1) \<Rightarrow> reply_bool r b w1)
      | M_getExternalProviders \<Rightarrow> (case do_providers x w of (out, w1) \<Rightarrow> reply_str r out w1)
      | M_getExternalProvider \<Rightarrow>
          str (\<lambda>d. reply_str r (handleGetExternalProvider (ce_enc_provider x) d (w_providers w)) w)
      | M_updateGeoData \<Rightarrow>
          str (\<lambda>d. case ce_dec_map x d of
                 Inl err \<Rightarrow> reply_str r err w
               | Inr params \<Rightarrow>
                   (case handleUpdateGeoData x (map_value params ''geo-type'') w of (out, w1) \<Rightarrow> reply_str r out w1))
      | M_updateExternalProvider \<Rightarrow>
          str (\<lambda>d. reply_str r (handleUpdateExternalProvider d (w_providers w)) w)
      | M_sideLoadExternalProvider \<Rightarrow>
          str (\<lambda>d. case ce_dec_map x d of
                 Inl err \<Rightarrow> reply_str r err w
               | Inr params \<Rightarrow>
                   reply_str r (handleSideLoadExternalProvider (map_value params ''providerName'')
                                  (map_value params ''data'') (w_providers w)) w)
      | M_startLog \<Rightarrow> reply_bool r True (w\<lparr>w_log := handleStartLog (ce_fresh x) (w_log w)\<rparr>)
      | M_stopLog \<Rightarrow> reply_bool r True (w\<lparr>w_log := handleStopLog (w_log w)\<rparr>)
      | M_drainLogs \<Rightarrow> (case do_drainLogs x w of (out, w1) \<Rightarrow> reply_str r out w1)
      | M_startListener \<Rightarrow> answer r (on_core VBool (handleStartListener (ce_goos x)) w)
      | M_stopListener \<Rightarrow> answer r (on_core VBool (total_core (handleStopListener (ce_inbounds x))) w)
      | M_getCountryCode \<Rightarrow> str (\<lambda>d. reply_str r (handleGetCountryCode x d) w)
      | M_getMemory \<Rightarrow> reply_str r (handleGetMemory x) w
      | M_setState \<Rightarrow>
          str (\<lambda>d. reply_bool r True (w\<lparr>w_state := handleSetState (ce_dec_state x) d (w_state w)\<rparr>))
      | M_crash \<Rightarrow> ([success r (VBool True)], True, w)
      | _ \<Rightarrow> unsupported x a r w)"

section \<open>The line server\<close>

text \<open>
  \<open>startServer\<close> on the lines of the connection, in the order the requests take effect:
  \<open>decode\<close> gives the request of a line, lines that do not decode are skipped. \<open>None\<close> is a
  process that ended; \<open>encode\<close> is \<open>Json\<close> of a reply, dropped when it fails.
\<close>

definition new_result :: "Action \<Rightarrow> ActionResult" where
  "new_result a = \<lparr>r_Id = a_Id a, r_Method = a_Method a, r_Data = VNil, r_Code = 0\<rparr>"

fun startServer ::
    "(string \<Rightarrow> Action option) \<Rightarrow> (ActionResult \<Rightarrow> string option) \<Rightarrow> (string \<times> core_ext) list \<Rightarrow> World
     \<Rightarrow> string list \<times> World option" where
  "startServer decode encode [] w = ([], Some w)"
| "startServer decode encode ((line, x) # lines) w =
     (case decode line of
        None \<Rightarrow> startServer decode encode lines w
      | Some a \<Rightarrow>
          (case handleAction x a (new_result a) w of
             (rs, panicked, w1) \<Rightarrow>
               let sent = map (\<lambda>d. d @ [CHR 0x0A]) (List.map_filter encode rs)
               in if panicked then (sent, None)
                  else (case startServer decode encode lines w1 of (out, w2) \<Rightarrow> (sent @ out, w2))))"

section \<open>iOS\<close>

definition json_bool :: "bool \<Rightarrow> string" where
  "json_bool b = (if b then ''true'' else ''false'')"

definition ios_core :: "('a \<Rightarrow> string) \<Rightarrow> (Core \<Rightarrow> 'a outcome \<times> Core) \<Rightarrow> World \<Rightarrow> string outcome \<times> World" where
  "ios_core text f w =
     (case f (w_core w) of
        (Panicked, c) \<Rightarrow> (Panicked, w\<lparr>w_core := c\<rparr>)
      | (Returned a, c) \<Rightarrow> (Returned (text a), w\<lparr>w_core := c\<rparr>))"

definition ios_config :: "core_ext \<Rightarrow> string + RawCfg \<Rightarrow> string" where
  "ios_config x c = (case c of Inl err \<Rightarrow> [] | Inr cfg \<Rightarrow> ce_marshal x (VMap (ce_raw_json x cfg)))"

text \<open>The profile of a \<open>setupConfig\<close> request is patched before it is applied.\<close>

definition ios_setup :: "core_ext \<Rightarrow> string \<Rightarrow> Core \<Rightarrow> string outcome \<times> Core" where
  "ios_setup x d c =
     (case ce_dec_setup x d of
        Inl err \<Rightarrow> (Returned err, c)
      | Inr params \<Rightarrow>
          (case su_Config params of
             None \<Rightarrow> (Returned ''missing configuration'', c)
           | Some cfg \<Rightarrow>
               (case setupConfig (ce_goos x) (ce_parse x) (ce_groups x) (ce_default_url x)
                       (Some (params\<lparr>su_Config := Some (patchConfigForIOS cfg)\<rparr>)) c of
                  (Panicked, c1) \<Rightarrow> (Panicked, c1)
                | (Returned (Some err), c1) \<Rightarrow> (Returned err, c1)
                | (Returned None, c1) \<Rightarrow> (Returned [], c1))))"

definition ClashCore_invoke :: "core_ext \<Rightarrow> Method \<Rightarrow> string \<Rightarrow> World \<Rightarrow> string outcome \<times> World" where
  "ClashCore_invoke x m d w =
     (case m of
        M_initClash \<Rightarrow> ios_core json_bool (total_core (handleInitClash (ce_dec_init x d))) w
      | M_getIsInit \<Rightarrow> (Returned (json_bool (co_isInit (w_core w))), w)
      | M_forceGc \<Rightarrow> (Returned ''true'', side [SideGC] w)
      | M_shutdown \<Rightarrow> ios_core json_bool (total_core (handleShutdown (ce_inbounds x))) w
      | M_validateConfig \<Rightarrow> (Returned (handleValidateConfig x d), w)
      | M_updateConfig \<Rightarrow> ios_core (\<lambda>s. s) (handleUpdateConfig (ce_goos x) (ce_dec_update x d)) w
      | M_setupConfig \<Rightarrow> ios_core (\<lambda>s. s) (ios_setup x d) w
      | M_getProxies \<Rightarrow> (Returned (ce_marshal x (VMap (ce_proxies x))), w)
      | M_changeProxy \<Rightarrow>
          (case handleChangeProxy (ce_tunnel x) (ce_dec_change x d) of
             (out, cs) \<Rightarrow> (out, w\<lparr>w_selected := w_selected w @ cs\<rparr>))
      | M_getTraffic \<Rightarrow> (Returned (handleGetTraffic x), w)
      | M_getTotalTraffic \<Rightarrow> (Returned (handleGetTotalTraffic x), w)
      | M_resetTraffic \<Rightarrow> (Returned ''true'', side [SideResetStatistic] w)
      | M_asyncTestDelay \<Rightarrow> (Returned (do_testDelay x d w), w)
      | M_diagnoseProxy \<Rightarrow> (Returned (do_diagnose x d), w)
      | M_cancelStreamingProbes \<Rightarrow> (Returned ''ok'', do_cancelProbes x d w)
      | M_streamingProbe \<Rightarrow> (case do_probe x d w of (out, w1) \<Rightarrow> (Returned out, w1))
      | M_getConnections \<Rightarrow> (Returned (handleGetConnections x), w)
      | M_closeConnections \<Rightarrow> (case handleCloseConnections x w of (b, w1) \<Rightarrow> (Returned (json_bool b), w1))
      | M_resetConnections \<Rightarrow> (case handleResetConnections w of (b, w1) \<Rightarrow> (Returned (json_bool b), w1))
      | M_clearNetworkCaches \<Rightarrow> (case handleClearNetworkCaches w of (b, w1) \<Rightarrow> (Returned (json_bool b), w1))
      | M_closeConnection \<Rightarrow> (case handleCloseConnection x d w of (b, w1) \<Rightarrow> (Returned (json_bool b), w1))
      | M_getExternalProviders \<Rightarrow> (case do_providers x w of (out, w1) \<Rightarrow> (Returned out, w1))
      | M_getExternalProvider \<Rightarrow> (Returned (handleGetExternalProvider (ce_enc_provider x) d (w_providers w)), w)
      | M_startLog \<Rightarrow> (Returned ''true'', w\<lparr>w_log := handleStartLog (ce_fresh x) (w_log w)\<rparr>)
      | M_stopLog \<Rightarrow> (Returned ''true'', w\<lparr>w_log := handleStopLog (w_log w)\<rparr>)
      | M_drainLogs \<Rightarrow> (case do_drainLogs x w of (out, w1) \<Rightarrow> (Returned out, w1))
      | M_startListener \<Rightarrow> ios_core json_bool (handleStartListener (ce_goos x)) w
      | M_stopListener \<Rightarrow> ios_core json_bool (total_core (handleStopListener (ce_inbounds x))) w
      | M_getConfig \<Rightarrow> (Returned (ios_config x (handleGetConfig x d)), w)
      | M_getConfigContent \<Rightarrow> (Returned (ios_config x (handleGetConfigContent x d)), w)
      | M_setState \<Rightarrow> (Returned ''true'', w\<lparr>w_state := handleSetState (ce_dec_state x) d (w_state w)\<rparr>)
      | M_getMemory \<Rightarrow> (Returned (handleGetMemory x), w)
      | M_getCountryCode \<Rightarrow> (Returned (handleGetCountryCode x d), w)
      | _ \<Rightarrow> (Returned [], w))"

definition ClashCore_shutdown :: "core_ext \<Rightarrow> World \<Rightarrow> World" where
  "ClashCore_shutdown x w =
     (let w1 = w\<lparr>w_core := snd (handleStopListener (ce_inbounds x) (w_core w))\<rparr>;
          w2 = w1\<lparr>w_log := handleStopLog (w_log w1)\<rparr>
      in w2\<lparr>w_core := snd (handleShutdown (ce_inbounds x) (w_core w2))\<rparr>)"

end
