(* ===== verification/CoreActionsProps.thy ===== *)
theory CoreActionsProps
  imports CoreActions CoreConfigProps CoreProbeProps
begin

text \<open>
  The requests of the application as a whole: each gets exactly one answer, the iOS entry
  point answers as the dispatch of the other systems does, and a session of requests keeps
  what the parts of the layer promise.
\<close>

section \<open>One answer per request\<close>

definition takes_text :: "Method \<Rightarrow> bool" where
  "takes_text m =
     (m \<in> {M_initClash, M_validateConfig, M_updateConfig, M_setupConfig, M_changeProxy, M_asyncTestDelay,
            M_diagnoseProxy, M_cancelStreamingProbes, M_streamingProbe, M_getConfig, M_getConfigContent,
            M_closeConnection, M_getExternalProvider, M_updateGeoData, M_updateExternalProvider,
            M_sideLoadExternalProvider, M_getCountryCode, M_setState, M_updateDns})"

text \<open>The methods whose handlers may run into a nil pointer.\<close>

definition may_panic :: "Method \<Rightarrow> bool" where
  "may_panic m = (m \<in> {M_updateConfig, M_setupConfig, M_startListener, M_changeProxy, M_getAndroidVpnOptions})"

text \<open>The methods of Android, and names that are no method.\<close>

definition android_only :: "Method \<Rightarrow> bool" where
  "android_only m =
     (m \<in> {M_updateDns, M_getAndroidVpnOptions, M_getRunTime, M_getCurrentProfileName} \<or> (\<exists>s. m = M_other s))"

lemma with_string_text: "with_string (VStr s) w f = f s"
  by (simp add: with_string_def)

lemma with_string_else: "\<forall>s. d \<noteq> VStr s \<Longrightarrow> with_string d w f = ([], True, w)"
  by (cases d) (simp_all add: with_string_def)

text \<open>What an answer is: one reply with the identifier, or a panic without one.\<close>

definition answered :: "Action \<Rightarrow> int set \<Rightarrow> bool \<Rightarrow> reaction \<Rightarrow> bool" where
  "answered a codes safe res =
     (case res of (rs, panicked, w) \<Rightarrow>
        if panicked then \<not> safe \<and> rs = []
        else (\<exists>d c. c \<in> codes \<and> rs = [\<lparr>r_Id = a_Id a, r_Method = a_Method a, r_Data = d, r_Code = c\<rparr>]))"

lemma answered_returned: "0 \<in> codes \<Longrightarrow> answered a codes safe (answer (new_result a) (Returned d, w))"
  by (simp add: answer_def answered_def new_result_def success_def)

lemma answered_any: "0 \<in> codes \<Longrightarrow> answered a codes False (answer (new_result a) h)"
  by (cases h; cases "fst h") (auto simp: answer_def answered_def new_result_def success_def)

lemma answered_total:
  "0 \<in> codes \<Longrightarrow> answered a codes safe (answer (new_result a) (on_core VBool (total_core f) w))"
  by (simp add: on_core_def total_core_def answered_returned split: prod.split)

lemma answered_config: "{0, - 1} \<subseteq> codes \<Longrightarrow> answered a codes safe (reply_config x (new_result a) c w)"
  by (simp add: reply_config_def answered_def new_result_def success_def failure_def split: sum.split)

lemma answered_failure: "- 1 \<in> codes \<Longrightarrow> answered a codes safe ([failure (new_result a) d], False, w)"
  by (simp add: answered_def new_result_def failure_def)

lemma answered_split: "(\<And>b w. answered a codes safe (f b w)) \<Longrightarrow> answered a codes safe (case p of (b, w) \<Rightarrow> f b w)"
  by (cases p) simp

lemma answered_sum:
  "(\<And>e. answered a codes safe (f e)) \<Longrightarrow> (\<And>v. answered a codes safe (g v)) \<Longrightarrow>
   answered a codes safe (case s of Inl e \<Rightarrow> f e | Inr v \<Rightarrow> g v)"
  by (cases s) simp_all

lemmas answered_intros = answered_returned answered_total answered_config answered_failure answered_split answered_sum

definition codes_of :: "core_ext \<Rightarrow> Method \<Rightarrow> int set" where
  "codes_of x m =
     (if m \<in> {M_getConfig, M_getConfigContent} then {0, - 1}
      else if android_only m \<and> ce_goos x \<noteq> ''android'' \<or> (\<exists>s. m = M_other s) then {- 1} else {0})"

lemma text_answered:
  assumes "a_Method a \<noteq> M_crash" and "takes_text (a_Method a) \<Longrightarrow> a_Data a = VStr s"
  shows "answered a (codes_of x (a_Method a)) (\<not> may_panic (a_Method a)) (handleAction x a (new_result a) w)"
proof (cases "takes_text (a_Method a)")
  case True
  then have s: "a_Data a = VStr s" by (rule assms(2))
  show ?thesis
    using True
    by (cases "a_Method a")
       (simp_all add: handleAction_def s with_string_text takes_text_def codes_of_def may_panic_def android_only_def
         unsupported_def nextHandle_def answered_any answered_intros)
next
  case False
  then show ?thesis
    using assms(1)
    by (cases "a_Method a")
       (simp_all add: handleAction_def takes_text_def codes_of_def may_panic_def android_only_def
         unsupported_def nextHandle_def answered_any answered_intros)
qed

lemma other_data_answered:
  assumes "takes_text (a_Method a)" and "\<forall>s. a_Data a \<noteq> VStr s"
  shows "handleAction x a (new_result a) w = ([], True, w) \<or>
    answered a (codes_of x (a_Method a)) True (handleAction x a (new_result a) w)"
  using assms
  by (cases "a_Method a")
     (simp_all add: handleAction_def with_string_else takes_text_def codes_of_def android_only_def
       unsupported_def nextHandle_def answered_failure)

lemma crash_answered: "a_Method a = M_crash \<Longrightarrow>
    handleAction x a (new_result a) w = ([success (new_result a) (VBool True)], True, w)"
  by (simp add: handleAction_def)

lemma request_cases:
  obtains (crash) "a_Method a = M_crash"
      "handleAction x a (new_result a) w = ([success (new_result a) (VBool True)], True, w)"
  | (no_text) "takes_text (a_Method a)" "\<forall>s. a_Data a \<noteq> VStr s" "handleAction x a (new_result a) w = ([], True, w)"
  | (answer) "answered a (codes_of x (a_Method a)) (\<not> may_panic (a_Method a)) (handleAction x a (new_result a) w)"
proof (cases "a_Method a = M_crash")
  case True
  then show ?thesis using crash_answered [OF True] that(1) by blast
next
  case False
  show ?thesis
  proof (cases "takes_text (a_Method a) \<and> (\<forall>s. a_Data a \<noteq> VStr s)")
    case True
    then consider "handleAction x a (new_result a) w = ([], True, w)"
      | "answered a (codes_of x (a_Method a)) True (handleAction x a (new_result a) w)"
      using other_data_answered [of a x w] by blast
    then show ?thesis
    proof cases
      case 1
      then show ?thesis using True that(2) by blast
    next
      case 2
      then have "answered a (codes_of x (a_Method a)) (\<not> may_panic (a_Method a)) (handleAction x a (new_result a) w)"
        by (auto simp: answered_def split: prod.splits if_splits)
      then show ?thesis by (rule that(3))
    qed
  next
    case given: False
    then obtain s where "takes_text (a_Method a) \<Longrightarrow> a_Data a = VStr s" by blast
    from that(3) [OF text_answered [OF False this]] show ?thesis by blast
  qed
qed


lemma request_ids:
  assumes "handleAction x a (new_result a) w = (rs, False, w')"
  shows "\<exists>r. rs = [r] \<and> r_Id r = a_Id a \<and> r_Method r = a_Method a"
  using assms
  by (cases rule: request_cases [of a x w]) (auto simp: answered_def)

section \<open>The line server\<close>

text \<open>
  As long as no request ends the process, the server answers the lines that decode, in order,
  each with one line that carries its identifier and method, and skips the others.
\<close>

theorem server_answers_lines:
  assumes "startServer decode encode lines w = (out, Some w')"
  shows "\<exists>rs. out = map (\<lambda>d. d @ [CHR 0x0A]) (List.map_filter encode rs) \<and>
    map (\<lambda>r. (r_Id r, r_Method r)) rs =
      map (\<lambda>a. (a_Id a, a_Method a)) (List.map_filter (\<lambda>l. decode (fst l)) lines)"
  using assms
proof (induction lines arbitrary: w out)
  case Nil
  then show ?case by (auto simp: List.map_filter_def intro: exI [of _ "[]"])
next
  case (Cons l lines)
  obtain line x where l: "l = (line, x)" by (cases l)
  show ?case
  proof (cases "decode line")
    case None
    with Cons show ?thesis by (simp add: l List.map_filter_def)
  next
    case (Some a)
    obtain rs panicked w1 where h: "handleAction x a (new_result a) w = (rs, panicked, w1)"
      by (cases "handleAction x a (new_result a) w")
    have going: "\<not> panicked" using Cons.prems by (auto simp: l Some h Let_def split: if_splits)
    then obtain out2 where out: "out = map (\<lambda>d. d @ [CHR 0x0A]) (List.map_filter encode rs) @ out2"
      and rest: "startServer decode encode lines w1 = (out2, Some w')"
      using Cons.prems by (auto simp: l Some h Let_def split: prod.splits)
    obtain r where r: "rs = [r]" "r_Id r = a_Id a" "r_Method r = a_Method a"
      using request_ids [of x a w rs w1] h going by auto
    from Cons.IH [OF rest] obtain rs2 where
      "out2 = map (\<lambda>d. d @ [CHR 0x0A]) (List.map_filter encode rs2)"
      "map (\<lambda>r. (r_Id r, r_Method r)) rs2 =
        map (\<lambda>a. (a_Id a, a_Method a)) (List.map_filter (\<lambda>l. decode (fst l)) lines)" by blast
    then show ?thesis
      using r out Some l by (intro exI [of _ "r # rs2"]) (simp add: List.map_filter_def split: option.split)
  qed
qed

section \<open>iOS\<close>

text \<open>The methods the iOS entry point answers; the others get an empty text.\<close>

definition ios_method :: "Method \<Rightarrow> bool" where
  "ios_method m =
     (m \<notin> {M_updateGeoData, M_updateExternalProvider, M_sideLoadExternalProvider, M_crash} \<and> \<not> android_only m)"

definition reply_text :: "core_ext \<Rightarrow> ActionResult \<Rightarrow> string" where
  "reply_text x r =
     (if r_Code r \<noteq> 0 then []
      else (case r_Data r of VStr s \<Rightarrow> s | VBool b \<Rightarrow> json_bool b | v \<Rightarrow> ce_marshal x v))"

text \<open>The reply of the dispatch and the text of the entry point belong together.\<close>

definition same_answer :: "core_ext \<Rightarrow> reaction \<Rightarrow> string outcome \<times> World \<Rightarrow> bool" where
  "same_answer x res ios =
     (case (res, ios) of
        ((rs, panicked, w), (out, w')) \<Rightarrow>
          w' = w \<and> (if panicked then out = Panicked
                    else (\<exists>r. rs = [r] \<and> out = Returned (reply_text x r))))"

text \<open>The decoder of profiles with the iOS patch behind it.\<close>

definition patched_setup :: "core_ext \<Rightarrow> string \<Rightarrow> string + SetupParams" where
  "patched_setup x d =
     (case ce_dec_setup x d of
        Inl err \<Rightarrow> Inl err
      | Inr p \<Rightarrow> Inr (p\<lparr>su_Config := map_option patchConfigForIOS (su_Config p)\<rparr>))"

lemma same_answer_core:
  assumes "\<And>a. reply_text x (success r (g a)) = t a"
  shows "same_answer x (answer r (on_core g f w)) (ios_core t f w)"
  using assms by (auto simp: same_answer_def answer_def on_core_def ios_core_def split: prod.splits outcome.splits)

lemma same_answer_returned:
  "reply_text x (success r v) = t \<Longrightarrow> same_answer x (answer r (Returned v, w)) (Returned t, w)"
  by (simp add: same_answer_def answer_def)

lemma same_answer_split:
  "(\<And>b w. same_answer x (f b w) (g b w)) \<Longrightarrow>
   same_answer x (case p of (b, w) \<Rightarrow> f b w) (case p of (b, w) \<Rightarrow> g b w)"
  by (cases p) simp

lemma reply_text_simps [simp]:
  "reply_text x (success r (VStr s)) = s" "reply_text x (success r (VBool b)) = json_bool b"
  "reply_text x (success r (VMap m)) = ce_marshal x (VMap m)" "reply_text x (failure r v) = []"
  "json_bool True = ''true''"
  by (simp_all add: reply_text_def success_def failure_def json_bool_def)

lemma same_answer_config:
  "same_answer x (reply_config x r c w) (Returned (ios_config x c), w)"
  by (auto simp: same_answer_def reply_config_def ios_config_def split: sum.split)

lemma same_answer_change:
  "same_answer x (answer r (do_changeProxy x d w))
     (case handleChangeProxy (ce_tunnel x) (ce_dec_change x d) of
        (out, cs) \<Rightarrow> (out, w\<lparr>w_selected := w_selected w @ cs\<rparr>))"
  by (auto simp: do_changeProxy_def same_answer_def answer_def split: prod.split outcome.split)

lemma ios_setup_patched:
  "ios_setup x d = handleSetupConfig (ce_goos x) (ce_parse x) (ce_groups x) (ce_default_url x) (patched_setup x d)"
  by (rule ext) (auto simp: ios_setup_def patched_setup_def handleSetupConfig_def setupConfig_def split: sum.split option.split)

text \<open>The other handlers do not look at the decoder of profiles.\<close>

lemma setup_ignored [simp]:
  "handleValidateConfig (x\<lparr>ce_dec_setup := f\<rparr>) d = handleValidateConfig x d"
  "handleGetTraffic (x\<lparr>ce_dec_setup := f\<rparr>) = handleGetTraffic x"
  "handleGetTotalTraffic (x\<lparr>ce_dec_setup := f\<rparr>) = handleGetTotalTraffic x"
  "do_testDelay (x\<lparr>ce_dec_setup := f\<rparr>) d w = do_testDelay x d w"
  "do_diagnose (x\<lparr>ce_dec_setup := f\<rparr>) d = do_diagnose x d"
  "do_probe (x\<lparr>ce_dec_setup := f\<rparr>) d w = do_probe x d w"
  "do_cancelProbes (x\<lparr>ce_dec_setup := f\<rparr>) d w = do_cancelProbes x d w"
  "handleGetConnections (x\<lparr>ce_dec_setup := f\<rparr>) = handleGetConnections x"
  "handleCloseConnections (x\<lparr>ce_dec_setup := f\<rparr>) w = handleCloseConnections x w"
  "handleCloseConnection (x\<lparr>ce_dec_setup := f\<rparr>) d w = handleCloseConnection x d w"
  "do_providers (x\<lparr>ce_dec_setup := f\<rparr>) w = do_providers x w"
  "do_drainLogs (x\<lparr>ce_dec_setup := f\<rparr>) w = do_drainLogs x w"
  "handleGetMemory (x\<lparr>ce_dec_setup := f\<rparr>) = handleGetMemory x"
  "handleGetCountryCode (x\<lparr>ce_dec_setup := f\<rparr>) d = handleGetCountryCode x d"
  "reply_config (x\<lparr>ce_dec_setup := f\<rparr>) r c w = reply_config x r c w"
  "do_changeProxy (x\<lparr>ce_dec_setup := f\<rparr>) d w = do_changeProxy x d w"
  "handleGetConfig (x\<lparr>ce_dec_setup := f\<rparr>) d = handleGetConfig x d"
  "handleGetConfigContent (x\<lparr>ce_dec_setup := f\<rparr>) d = handleGetConfigContent x d"
  by (simp_all add: handleGetConfig_def handleGetConfigContent_def handleValidateConfig_def handleGetTraffic_def handleGetTotalTraffic_def do_testDelay_def do_diagnose_def do_probe_def do_cancelProbes_def handleGetConnections_def handleCloseConnections_def handleCloseConnection_def do_providers_def do_drainLogs_def handleGetMemory_def handleGetCountryCode_def reply_config_def do_changeProxy_def
        split: option.split sum.split)

text \<open>
  Property C27. The iOS entry point and the dispatch of the other systems agree: on every method iOS
  supports the state afterwards is the same, one panics when the other does, and the text
  returned is that of the reply, once profiles are patched for iOS as they are decoded.
\<close>

theorem ios_answers_alike:
  assumes "ios_method m"
  shows "same_answer x (handleAction (x\<lparr>ce_dec_setup := patched_setup x\<rparr>) \<lparr>a_Id = i, a_Method = m, a_Data = VStr d\<rparr> r w)
    (ClashCore_invoke x m d w)"
  using assms
  by (cases m)
     (auto simp: ios_method_def android_only_def handleAction_def ClashCore_invoke_def with_string_text
       ios_setup_patched
       intro!: same_answer_core same_answer_returned same_answer_split same_answer_config same_answer_change)

section \<open>A session keeps what the parts promise\<close>

text \<open>What a request may do to the configuration and to the runs: one step of the component, or nothing.\<close>

definition request_effect :: "string \<Rightarrow> bool \<Rightarrow> World \<Rightarrow> World \<Rightarrow> bool" where
  "request_effect goos down w w' =
     ((w_core w' = w_core w \<or> core_step goos down (w_core w) (w_core w')) \<and>
      (runs_inv (w_runs w) [] \<longrightarrow> runs_inv (w_runs w') []))"

definition effect_of :: "string \<Rightarrow> bool \<Rightarrow> World \<Rightarrow> reaction \<Rightarrow> bool" where
  "effect_of goos down w res = (case res of (rs, panicked, w') \<Rightarrow> panicked \<or> request_effect goos down w w')"

lemma effect_same:
  "w_core w' = w_core w \<Longrightarrow> w_runs w' = w_runs w \<Longrightarrow> effect_of goos down w (answer r (v, w'))"
  by (cases v) (simp_all add: effect_of_def request_effect_def answer_def)

lemma effect_total:
  assumes "\<And>c. core_step goos down c (snd (f c))"
  shows "effect_of goos down w (answer r (on_core VBool (total_core f) w))"
  using assms [of "w_core w"]
  by (cases "f (w_core w)") (simp add: effect_of_def request_effect_def answer_def on_core_def total_core_def)

lemma effect_core:
  assumes "\<And>c b c'. f c = (Returned b, c') \<Longrightarrow> core_step goos down c c'"
  shows "effect_of goos down w (answer r (on_core g f w))"
  using assms [of "w_core w"]
  by (auto simp: effect_of_def request_effect_def answer_def on_core_def split: prod.split outcome.split)

lemma effect_config: "effect_of goos down w (reply_config x r c w)"
  by (simp add: effect_of_def request_effect_def reply_config_def split: sum.split)

lemma effect_split: "(\<And>b w1. p = (b, w1) \<Longrightarrow> effect_of goos down w (f b w1)) \<Longrightarrow>
    effect_of goos down w (case p of (b, w1) \<Rightarrow> f b w1)"
  by (cases p) simp

lemma effect_sum: "(\<And>e. effect_of goos down w (f e)) \<Longrightarrow> (\<And>v. effect_of goos down w (g v)) \<Longrightarrow>
    effect_of goos down w (case s of Inl e \<Rightarrow> f e | Inr v \<Rightarrow> g v)"
  by (cases s) simp_all

lemma effect_text: "(\<And>s. effect_of goos down w (f s)) \<Longrightarrow> effect_of goos down w (with_string d w f)"
  by (cases d) (simp_all add: with_string_def effect_of_def)

lemma effect_failure: "effect_of goos down w ([failure r d], False, w)"
  by (simp add: effect_of_def request_effect_def)

lemma effect_panic: "effect_of goos down w (rs, True, w')"
  by (simp add: effect_of_def)

lemma acquire_release_inv:
  assumes "runs_inv r []" and "\<And>r out. runs_inv r out \<Longrightarrow> runs_inv (during r) out"
    and "acquireStreamingRun now i r = (run, r1)"
  shows "runs_inv (release_run t run (during r1)) []" and "runs_inv (release_run t run r1) []"
proof -
  have ok: "runs_inv (release_run t run (g r1)) []" if g: "\<And>r out. runs_inv r out \<Longrightarrow> runs_inv (g r) out" for g
  proof (cases run)
    case None
    then have "r1 = r" using assms(3) by (auto simp: acquireStreamingRun_def split: if_splits prod.splits)
    then show ?thesis using g assms(1) by (simp add: None release_run_def)
  next
    case (Some a)
    then have "runs_inv r1 [a]"
      using step_inv [OF probe_step.acquire [of now i r a r1 "[]"]] assms(1,3) by simp
    then have "runs_inv (g r1) [a]" by (rule g)
    then show ?thesis
      using step_inv [OF probe_step.release [of a "[a]" t "g r1"]] by (simp add: Some)
  qed
  show "runs_inv (release_run t run (during r1)) []" using assms(2) by (rule ok)
  show "runs_inv (release_run t run r1) []" using ok [of "\<lambda>r. r"] by simp
qed

lemma probe_runs:
  "snd (snd (handleStreamingProbe upper proxies new_request send during (started, t, ended) (Inr params) r)) \<in>
     {r, release_run ended (fst (acquireStreamingRun t (sp_RunID params) r))
           (snd (acquireStreamingRun t (sp_RunID params) r)),
      release_run ended (fst (acquireStreamingRun t (sp_RunID params) r))
           (during (snd (acquireStreamingRun t (sp_RunID params) r)))}"
  by (simp add: handleStreamingProbe_def Let_def split_beta split: option.split)

lemma probe_keeps_runs:
  assumes "runs_inv r []" and "\<And>r out. runs_inv r out \<Longrightarrow> runs_inv (during r) out"
  shows "runs_inv (snd (snd (handleStreamingProbe upper proxies new_request send during clock decoded r))) []"
proof -
  obtain started t ended where clock: "clock = (started, t, ended)" by (cases clock)
  show ?thesis
  proof (cases decoded)
    case (Inl err)
    then show ?thesis using assms(1) by (simp add: handleStreamingProbe_def clock Let_def)
  next
    case (Inr params)
    note rel = acquire_release_inv [OF assms prod.collapse [symmetric], where t = ended and now = t and i = "sp_RunID params"]
    show ?thesis
      using probe_runs [of upper proxies new_request send during started t ended params r] rel assms(1)
      unfolding clock Inr by fastforce
  qed
qed

lemma effect_probe:
  assumes "\<And>r out. runs_inv r out \<Longrightarrow> runs_inv (ce_during x r) out" and "do_probe x d w = (b, w1)"
  shows "effect_of goos down w (answer r (v, w1))"
proof -
  obtain res sent r' where p: "handleStreamingProbe (ce_upper x) (\<lambda>n. ce_nodes x n \<noteq> None) (ce_new_request x)
      (ce_send x) (ce_during x) (ce_clock x) (ce_dec_probe x d) (w_runs w) = (res, sent, r')"
    by (rule prod_cases3)
  have "w1 = w\<lparr>w_runs := r'\<rparr>" using assms(2) unfolding do_probe_def p by simp
  moreover have "runs_inv r' []" if "runs_inv (w_runs w) []"
    using probe_keeps_runs [of "w_runs w" "ce_during x", OF that assms(1)] arg_cong [OF p, of "\<lambda>q. snd (snd q)"]
    by (metis snd_conv)
  ultimately show ?thesis by (cases v) (simp_all add: effect_of_def request_effect_def answer_def)
qed

lemma effect_cancel: "effect_of goos down w (answer r (v, do_cancelProbes x d w))"
  using step_inv [OF probe_step.cancel [of "fst (ce_clock x)" d "w_runs w" "[]"]]
  by (cases v) (simp_all add: effect_of_def request_effect_def answer_def do_cancelProbes_def)

lemma handler_effects:
  "do_changeProxy x d w = (v, w1) \<Longrightarrow> w_core w1 = w_core w \<and> w_runs w1 = w_runs w"
  "handleCloseConnections x w = (b, w1) \<Longrightarrow> w_core w1 = w_core w \<and> w_runs w1 = w_runs w"
  "handleResetConnections w = (b, w1) \<Longrightarrow> w_core w1 = w_core w \<and> w_runs w1 = w_runs w"
  "handleClearNetworkCaches w = (b, w1) \<Longrightarrow> w_core w1 = w_core w \<and> w_runs w1 = w_runs w"
  "handleCloseConnection x d w = (b, w1) \<Longrightarrow> w_core w1 = w_core w \<and> w_runs w1 = w_runs w"
  "do_providers x w = (t, w1) \<Longrightarrow> w_core w1 = w_core w \<and> w_runs w1 = w_runs w"
  "do_drainLogs x w = (t, w1) \<Longrightarrow> w_core w1 = w_core w \<and> w_runs w1 = w_runs w"
  "handleUpdateGeoData x g w = (t, w1) \<Longrightarrow> w_core w1 = w_core w \<and> w_runs w1 = w_runs w"
  by (auto simp: do_changeProxy_def handleCloseConnections_def handleResetConnections_def
        handleClearNetworkCaches_def handleCloseConnection_def do_providers_def do_drainLogs_def
        handleUpdateGeoData_def side_def split: prod.splits outcome.splits if_splits)

lemma effect_change: "effect_of goos down w (answer r (do_changeProxy x d w))"
  using handler_effects(1) [of x d w] effect_same [of "snd (do_changeProxy x d w)" w goos down r "fst (do_changeProxy x d w)"]
  by (cases "do_changeProxy x d w") simp

lemma effect_core_handlers:
  "effect_of goos False w (answer r (on_core VBool (total_core (handleInitClash p)) w))"
  "effect_of goos True w (answer r (on_core VBool (total_core (handleShutdown inbounds)) w))"
  "effect_of goos False w (answer r (on_core VBool (total_core (handleStopListener inbounds)) w))"
  "effect_of goos False w (answer r (on_core VBool (handleStartListener goos) w))"
  "effect_of goos False w (answer r (on_core VStr (handleSetupConfig goos parse proxies dflt decoded) w))"
  "effect_of goos False w (answer r (on_core VStr (handleUpdateConfig goos u) w))"
  by (rule effect_total, rule core_step.intros)+ (rule effect_core, erule core_step.intros)+

lemma effect_pairs:
  "effect_of goos down w (case handleCloseConnections x w of (b, w1) \<Rightarrow> reply_bool r b w1)"
  "effect_of goos down w (case handleResetConnections w of (b, w1) \<Rightarrow> reply_bool r b w1)"
  "effect_of goos down w (case handleClearNetworkCaches w of (b, w1) \<Rightarrow> reply_bool r b w1)"
  "effect_of goos down w (case handleCloseConnection x d w of (b, w1) \<Rightarrow> reply_bool r b w1)"
  "effect_of goos down w (case do_providers x w of (t, w1) \<Rightarrow> reply_str r t w1)"
  "effect_of goos down w (case do_drainLogs x w of (t, w1) \<Rightarrow> reply_str r t w1)"
  "effect_of goos down w (case handleUpdateGeoData x g w of (t, w1) \<Rightarrow> reply_str r t w1)"
  using handler_effects(2-8) by (auto intro!: effect_split effect_same)

lemma action_effect:
  assumes "ce_goos x = goos" and "\<And>r out. runs_inv r out \<Longrightarrow> runs_inv (ce_during x r) out"
  shows "effect_of goos (a_Method a = M_shutdown) w (handleAction x a r w)"
proof -
  have probe: "effect_of goos down w (case do_probe x d w of (t, w1) \<Rightarrow> reply_str r t w1)" for down d
    by (rule effect_split, rule effect_probe [OF assms(2)])
  show ?thesis
    by (cases "a_Method a")
       (simp_all add: handleAction_def unsupported_def nextHandle_def assms(1) handleUpdateDns_def side_def
         effect_core_handlers effect_pairs effect_config effect_failure effect_panic effect_change
         effect_cancel effect_text effect_sum effect_same probe split: option.split)
qed

definition shuts_down :: "(string \<Rightarrow> Action option) \<Rightarrow> string \<times> core_ext \<Rightarrow> bool" where
  "shuts_down decode l = (case decode (fst l) of None \<Rightarrow> False | Some a \<Rightarrow> a_Method a = M_shutdown)"

lemma session_effect:
  assumes "startServer decode encode lines w = (out, Some w')"
    and "\<And>l. l \<in> set lines \<Longrightarrow> ce_goos (snd l) = goos"
    and "\<And>l r os. l \<in> set lines \<Longrightarrow> runs_inv r os \<Longrightarrow> runs_inv (ce_during (snd l) r) os"
    and "core_run goos core_start down (w_core w)" and "runs_inv (w_runs w) []"
  shows "core_run goos core_start (down \<or> list_ex (shuts_down decode) lines) (w_core w') \<and> runs_inv (w_runs w') []"
  using assms
proof (induction lines arbitrary: w out down)
  case Nil
  then show ?case by simp
next
  case (Cons l lines)
  obtain line x where l: "l = (line, x)" by (cases l)
  show ?case
  proof (cases "decode line")
    case None
    with Cons show ?thesis by (simp add: l shuts_down_def)
  next
    case (Some a)
    obtain rs panicked w1 where h: "handleAction x a (new_result a) w = (rs, panicked, w1)"
      by (cases "handleAction x a (new_result a) w")
    have going: "\<not> panicked" using Cons.prems(1) by (auto simp: l Some h Let_def split: if_splits)
    then obtain out2 where rest: "startServer decode encode lines w1 = (out2, Some w')"
      using Cons.prems(1) by (auto simp: l Some h Let_def split: prod.splits)
    have "request_effect goos (a_Method a = M_shutdown) w w1"
      using action_effect [of x goos a w "new_result a"] Cons.prems(2,3) [of l] h going
      by (simp add: l effect_of_def)
    then have eff: "runs_inv (w_runs w1) []" "w_core w1 = w_core w \<or>
        core_step goos (a_Method a = M_shutdown) (w_core w) (w_core w1)"
      using Cons.prems(5) by (auto simp: request_effect_def)
    show ?thesis
    proof (cases "core_step goos (a_Method a = M_shutdown) (w_core w) (w_core w1)")
      case True
      from Cons.IH [OF rest Cons.prems(2,3) core_run.onward [OF Cons.prems(4) True] eff(1)]
      show ?thesis by (simp add: l shuts_down_def Some disj_assoc)
    next
      case False
      then have "w_core w1 = w_core w" using eff(2) by blast
      moreover have "a_Method a \<noteq> M_shutdown"
        using False h going core_step.shutdown_core
        by (auto simp: handleAction_def answer_def on_core_def total_core_def split: prod.splits) (metis snd_conv)
      ultimately show ?thesis
        using Cons.IH [OF rest Cons.prems(2,3) _ eff(1), of down] Cons.prems(4)
        by (simp add: l shuts_down_def Some)
    qed
  qed
qed


section \<open>The statements at concrete inputs\<close>

definition idle_world :: World where
  "idle_world = \<lparr>w_core = core_start, w_log = log_start 2, w_runs = \<lparr>rs_heap = [], rs_items = []\<rparr>,
     w_providers = [], w_tun = \<lparr>tt_runTime = None, tt_handler = None, tt_hook = False, tt_calls = []\<rparr>,
     w_state = \<lparr>ss_VpnProps = \<lparr>vr_Enable = True, vr_AccessControl = None, vr_AllowBypass = False,
         vr_SystemProxy = False, vr_Ipv6 = False\<rparr>, ss_CurrentProfileName = ''p'',
       ss_OnlyStatisticsProxy = False, ss_BypassDomain = []\<rparr>,
     w_selected = [], w_side = []\<rparr>"

definition demo_node :: node where
  "demo_node = \<lparr>nd_Type = OtherAdapter ''Direct'', nd_Addr = ''h:1'', nd_URLTest = (\<lambda>_ _. ((None, 1), 1))\<rparr>"

definition demo_core_ext :: core_ext where
  "demo_core_ext = \<lparr>ce_goos = ''linux'', ce_default_url = default_test_url, ce_parse = demo_parse,
     ce_groups = (\<lambda>_. []), ce_inbounds = [], ce_unmarshal = (\<lambda>_. Inr demo_raw), ce_read_file = Inr,
     ce_error_json = (\<lambda>_. VMap []), ce_raw_json = (\<lambda>_. []), ce_marshal = (\<lambda>_. ''{}''),
     ce_dec_init = (\<lambda>_. None), ce_dec_update = (\<lambda>_. Inr None), ce_dec_setup = (\<lambda>_. Inr demo_setup),
     ce_dec_change = Inl, ce_dec_delay = (\<lambda>_. None), ce_dec_diagnose = Inl, ce_dec_probe = Inl, ce_dec_map = Inl,
     ce_dec_state = (\<lambda>_ s. s), ce_enc_delay = dl_Name, ce_enc_diagnosis = pd_Error, ce_enc_probe = sr_Error,
     ce_enc_logs = (\<lambda>_. None), ce_enc_providers = (\<lambda>_. None), ce_enc_provider = (\<lambda>_. None),
     ce_enc_options = (\<lambda>_. None), ce_tunnel = [], ce_proxies = [], ce_delay_test = (\<lambda>_. None),
     ce_uni = (\<lambda>s. s), ce_upper = (\<lambda>s. s),
     ce_network = \<lparr>nw_split = (\<lambda>_. None), nw_lookup = (\<lambda>_ _. (Inr [], 0)), nw_dial = (\<lambda>_ _. (None, 0))\<rparr>,
     ce_nodes = (\<lambda>_. Some demo_node), ce_new_request = (\<lambda>_ _. None), ce_send = (\<lambda>_. Inl ''offline''),
     ce_during = (\<lambda>r. r), ce_clock = (0, 0, 0), ce_fresh = 1, ce_now_traffic = (1, 2), ce_total_traffic = (3, 4),
     ce_snapshot = None, ce_connections = [], ce_close_fails = (\<lambda>_. False), ce_geo = (\<lambda>_. None),
     ce_proxy_sets = [], ce_rule_sets = [], ce_country = (\<lambda>_. []), ce_memory = 0\<rparr>"

lemma demo_fields:
  "ce_goos demo_core_ext = ''linux''" "ce_during demo_core_ext = (\<lambda>r. r)"
  "w_core idle_world = core_start" "w_runs idle_world = \<lparr>rs_heap = [], rs_items = []\<rparr>"
  by (simp_all add: demo_core_ext_def idle_world_def)

definition demo_decode :: "string \<Rightarrow> Action option" where
  "demo_decode line =
     (if line = ''setup'' then Some \<lparr>a_Id = ''1'', a_Method = M_setupConfig, a_Data = VStr ''{}''\<rparr>
      else if line = ''start'' then Some \<lparr>a_Id = ''2'', a_Method = M_startListener, a_Data = VNil\<rparr> else None)"

lemma demo_setup_request:
  "handleAction demo_core_ext \<lparr>a_Id = ''1'', a_Method = M_setupConfig, a_Data = VStr ''{}''\<rparr> r idle_world =
     ([success r (VStr [])], False, idle_world\<lparr>w_core := demo_ready\<rparr>)"
  using demo_ready_eq(1)
  by (simp add: handleAction_def with_string_text on_core_def answer_def idle_world_def demo_core_ext_def)

lemma demo_start_request:
  "handleAction demo_core_ext \<lparr>a_Id = ''2'', a_Method = M_startListener, a_Data = VNil\<rparr> r (idle_world\<lparr>w_core := demo_ready\<rparr>) =
     ([success r (VBool True)], False, idle_world\<lparr>w_core := demo_running\<rparr>)"
  using demo_running_eq(1)
  by (simp add: handleAction_def on_core_def answer_def demo_core_ext_def)

lemma demo_session:
  "startServer demo_decode (\<lambda>r. Some (r_Id r)) [(''setup'', demo_core_ext), (''?'', demo_core_ext), (''start'', demo_core_ext)]
     idle_world = ([''1'' @ [CHR 0x0A], ''2'' @ [CHR 0x0A]], Some (idle_world\<lparr>w_core := demo_running\<rparr>))"
  by (simp add: demo_decode_def demo_setup_request demo_start_request new_result_def success_def
        List.map_filter_def)


theorem server_answers_lines_witness:
  "\<exists>rs :: ActionResult list. map (\<lambda>r. (r_Id r, r_Method r)) rs = [(''1'', M_setupConfig), (''2'', M_startListener)] \<and>
     map (\<lambda>d. d @ [CHR 0x0A]) (List.map_filter (\<lambda>r. Some (r_Id r)) rs) = [''1'' @ [CHR 0x0A], ''2'' @ [CHR 0x0A]]"
proof -
  obtain rs :: "ActionResult list" where out: "[''1'' @ [CHR 0x0A], ''2'' @ [CHR 0x0A]] =
      map (\<lambda>d. d @ [CHR 0x0A]) (List.map_filter (\<lambda>r. Some (r_Id r)) rs)"
    and ids: "map (\<lambda>r. (r_Id r, r_Method r)) rs = map (\<lambda>a. (a_Id a, a_Method a)) (List.map_filter
      (\<lambda>l. demo_decode (fst l)) [(''setup'', demo_core_ext), (''?'', demo_core_ext), (''start'', demo_core_ext)])"
    using server_answers_lines [OF demo_session] by (elim exE conjE) (erule (1) that)
  have "map (\<lambda>r. (r_Id r, r_Method r)) rs = [(''1'', M_setupConfig), (''2'', M_startListener)]"
    unfolding ids by (simp add: demo_decode_def List.map_filter_def)
  with out [symmetric] show ?thesis by (intro exI conjI)
qed

theorem ios_answers_alike_witness:
  "ClashCore_invoke demo_core_ext M_getTraffic [] idle_world = (Returned (handleGetTraffic demo_core_ext), idle_world) \<and>
   same_answer demo_core_ext
     (handleAction (demo_core_ext\<lparr>ce_dec_setup := patched_setup demo_core_ext\<rparr>)
        \<lparr>a_Id = ''1'', a_Method = M_getTraffic, a_Data = VStr []\<rparr> (new_result \<lparr>a_Id = ''1'', a_Method = M_getTraffic, a_Data = VStr []\<rparr>)
        idle_world)
     (ClashCore_invoke demo_core_ext M_getTraffic [] idle_world)"
  using ios_answers_alike [of M_getTraffic] by (simp add: ios_method_def android_only_def ClashCore_invoke_def)


end
