(* ===== verification/Lru.thy ===== *)
theory Lru
  imports Prelude "HOL-Library.AList"
begin

text \<open>
  The LRU cache of the proxy core (\<open>common/lru/lrucache.go\<close>): a doubly linked list of entries, the
  least recently used in front, and a map from keys to the elements of the list. An element is
  its identity in the list. Readings of the clock (Unix seconds) are arguments; where an operation
  reads it twice there are two. Calls of the eviction callback are recorded in order. The
  abstract view is the list of entries alone: \<open>lru_ok\<close> says that the map indexes it, and each
  operation acts on the list as a short list function says.
\<close>

record ('k, 'v) entry =
  en_key :: 'k
  en_value :: 'v
  en_expires :: int

record ('k, 'v) LruCache =
  lc_maxAge :: int
  lc_maxSize :: int
  lc_cache :: "('k \<times> nat) list"
  lc_lru :: "(nat \<times> ('k, 'v) entry) list"
  lc_fresh :: nat
  lc_updateAgeOnGet :: bool
  lc_staleReturn :: bool
  lc_onEvict :: bool
  lc_evicted :: "('k \<times> 'v) list"

section \<open>The linked list\<close>

definition list_remove :: "nat \<Rightarrow> (nat \<times> 'e) list \<Rightarrow> (nat \<times> 'e) list" where
  "list_remove le l = filter (\<lambda>el. fst el \<noteq> le) l"

definition MoveToBack :: "nat \<Rightarrow> (nat \<times> 'e) list \<Rightarrow> (nat \<times> 'e) list" where
  "MoveToBack le l =
     (case map_of l le of None \<Rightarrow> l | Some e \<Rightarrow> list_remove le l @ [(le, e)])"

definition set_elem :: "nat \<Rightarrow> ('e \<Rightarrow> 'e) \<Rightarrow> (nat \<times> 'e) list \<Rightarrow> (nat \<times> 'e) list" where
  "set_elem le f l = map (\<lambda>el. if fst el = le then (le, f (snd el)) else el) l"

section \<open>Operations\<close>

definition lru_clear :: "('k, 'v) LruCache \<Rightarrow> ('k, 'v) LruCache" where
  "lru_clear c = c\<lparr>lc_lru := [], lc_cache := []\<rparr>"

definition lru_new :: "int \<Rightarrow> int \<Rightarrow> bool \<Rightarrow> bool \<Rightarrow> bool \<Rightarrow> ('k, 'v) LruCache" where
  "lru_new maxAge maxSize updateAgeOnGet staleReturn onEvict =
     \<lparr>lc_maxAge = maxAge, lc_maxSize = maxSize, lc_cache = [], lc_lru = [], lc_fresh = 0,
      lc_updateAgeOnGet = updateAgeOnGet, lc_staleReturn = staleReturn, lc_onEvict = onEvict,
      lc_evicted = []\<rparr>"

definition deleteElement :: "nat \<times> ('k, 'v) entry \<Rightarrow> ('k, 'v) LruCache \<Rightarrow> ('k, 'v) LruCache" where
  "deleteElement el c =
     (let e = snd el;
          c1 = c\<lparr>lc_lru := list_remove (fst el) (lc_lru c), lc_cache := AList.delete (en_key e) (lc_cache c)\<rparr>
      in if lc_onEvict c1 then c1\<lparr>lc_evicted := lc_evicted c1 @ [(en_key e, en_value e)]\<rparr> else c1)"

text \<open>The loop looks at the front of the list as it is after each removal.\<close>

function delete_front :: "int \<Rightarrow> ('k, 'v) LruCache \<Rightarrow> ('k, 'v) LruCache" where
  "delete_front now c =
     (case lc_lru c of
        [] \<Rightarrow> c
      | el # rest \<Rightarrow> if en_expires (snd el) \<le> now then delete_front now (deleteElement el c) else c)"
  by pat_completeness auto
termination
proof (relation "measure (\<lambda>(now, c). length (lc_lru c))")
  fix now :: int and c :: "('k, 'v) LruCache" and el rest
  assume "lc_lru c = el # rest"
  then show "((now, deleteElement el c), now, c) \<in> measure (\<lambda>(now, c). length (lc_lru c))"
    by (simp add: deleteElement_def list_remove_def Let_def le_imp_less_Suc)
qed simp

declare delete_front.simps [simp del]

definition maybeDeleteOldest :: "int \<Rightarrow> ('k, 'v) LruCache \<Rightarrow> ('k, 'v) LruCache" where
  "maybeDeleteOldest now c =
     (if \<not> lc_staleReturn c \<and> lc_maxAge c > 0 then delete_front now c else c)"

text \<open>\<open>get\<close> reads the clock for the age check (\<open>t1\<close>) and again for what follows (\<open>t2\<close>).\<close>

definition lru_get :: "int \<Rightarrow> int \<Rightarrow> 'k \<Rightarrow> ('k, 'v) LruCache \<Rightarrow> ('k, 'v) entry option \<times> ('k, 'v) LruCache" where
  "lru_get t1 t2 key c =
     (case map_of (lc_cache c) key of
        None \<Rightarrow> (None, c)
      | Some le \<Rightarrow>
          (case map_of (lc_lru c) le of
             None \<Rightarrow> (None, c)
           | Some e \<Rightarrow>
               if \<not> lc_staleReturn c \<and> lc_maxAge c > 0 \<and> en_expires e \<le> t1
               then (None, maybeDeleteOldest t2 (deleteElement (le, e) c))
               else
                 let c1 = c\<lparr>lc_lru := MoveToBack le (lc_lru c)\<rparr>
                 in if lc_maxAge c > 0 \<and> lc_updateAgeOnGet c
                    then let e1 = e\<lparr>en_expires := t2 + lc_maxAge c\<rparr>
                         in (Some e1, c1\<lparr>lc_lru := set_elem le (\<lambda>_. e1) (lc_lru c1)\<rparr>)
                    else (Some e, c1)))"

definition lru_Get :: "int \<Rightarrow> int \<Rightarrow> 'k \<Rightarrow> ('k, 'v) LruCache \<Rightarrow> 'v option \<times> ('k, 'v) LruCache" where
  "lru_Get t1 t2 key c = (let (el, c1) = lru_get t1 t2 key c in (map_option en_value el, c1))"

definition lru_GetWithExpire ::
    "int \<Rightarrow> int \<Rightarrow> 'k \<Rightarrow> ('k, 'v) LruCache \<Rightarrow> ('v \<times> int) option \<times> ('k, 'v) LruCache" where
  "lru_GetWithExpire t1 t2 key c =
     (let (el, c1) = lru_get t1 t2 key c in (map_option (\<lambda>e. (en_value e, en_expires e)) el, c1))"

definition lru_Exist :: "'k \<Rightarrow> ('k, 'v) LruCache \<Rightarrow> bool" where
  "lru_Exist key c = (map_of (lc_cache c) key \<noteq> None)"

definition setWithExpire ::
    "int \<Rightarrow> 'k \<Rightarrow> 'v \<Rightarrow> int \<Rightarrow> ('k, 'v) LruCache \<Rightarrow> ('k, 'v) LruCache" where
  "setWithExpire now key value expires c =
     maybeDeleteOldest now
       (case map_of (lc_cache c) key of
          Some le \<Rightarrow>
            c\<lparr>lc_lru := set_elem le (\<lambda>e. e\<lparr>en_value := value, en_expires := expires\<rparr>)
                          (MoveToBack le (lc_lru c))\<rparr>
        | None \<Rightarrow>
            let e = \<lparr>en_key = key, en_value = value, en_expires = expires\<rparr>;
                c1 = c\<lparr>lc_lru := lc_lru c @ [(lc_fresh c, e)],
                       lc_cache := AList.update key (lc_fresh c) (lc_cache c),
                       lc_fresh := Suc (lc_fresh c)\<rparr>
            in if lc_maxSize c1 > 0 \<and> int (length (lc_lru c1)) > lc_maxSize c1
               then deleteElement (hd (lc_lru c1)) c1 else c1)"

definition lru_set :: "int \<Rightarrow> int \<Rightarrow> 'k \<Rightarrow> 'v \<Rightarrow> ('k, 'v) LruCache \<Rightarrow> ('k, 'v) LruCache" where
  "lru_set t1 t2 key value c =
     (let expires = (if lc_maxAge c > 0 then t1 + lc_maxAge c else 0)
      in setWithExpire t2 key value expires c)"

definition lru_delete :: "'k \<Rightarrow> ('k, 'v) LruCache \<Rightarrow> ('k, 'v) LruCache" where
  "lru_delete key c =
     (case map_of (lc_cache c) key of
        None \<Rightarrow> c
      | Some le \<Rightarrow> (case map_of (lc_lru c) le of None \<Rightarrow> c | Some e \<Rightarrow> deleteElement (le, e) c))"

text \<open>\<open>GetOrStore\<close> and \<open>Compute\<close> run a function of the caller inside the critical section.\<close>

definition lru_GetOrStore ::
    "int \<Rightarrow> int \<Rightarrow> int \<Rightarrow> int \<Rightarrow> 'k \<Rightarrow> 'v \<Rightarrow> ('k, 'v) LruCache \<Rightarrow> ('v \<times> bool) \<times> ('k, 'v) LruCache" where
  "lru_GetOrStore t1 t2 t3 t4 key constructed c =
     (case lru_get t1 t2 key c of
        (None, c1) \<Rightarrow> ((constructed, False), lru_set t3 t4 key constructed c1)
      | (Some el, c1) \<Rightarrow> ((en_value el, True), c1))"

definition lru_Compute ::
    "int \<Rightarrow> int \<Rightarrow> int \<Rightarrow> int \<Rightarrow> 'k \<Rightarrow> ('v option \<Rightarrow> 'v \<times> bool) \<Rightarrow> ('k, 'v) LruCache
     \<Rightarrow> 'v option \<times> ('k, 'v) LruCache" where
  "lru_Compute t1 t2 t3 t4 key valueFn c =
     (let (el, c1) = lru_get t1 t2 key c;
          (newValue, del) = valueFn (map_option en_value el)
      in if del then (None, if el \<noteq> None then lru_delete key c1 else c1)
         else (Some newValue, lru_set t3 t4 key newValue c1))"

text \<open>
  The copy gets elements of its own; the entries are the same objects in both caches, so the
  definition describes \<open>n\<close> as long as nobody writes to \<open>c\<close> any more. The caller of the proxy core
  (a reload of the configuration) drops \<open>c\<close> right after.
\<close>

definition lru_CloneTo :: "('k, 'v) LruCache \<Rightarrow> ('k, 'v) LruCache \<Rightarrow> ('k, 'v) LruCache" where
  "lru_CloneTo c n =
     (let els = map snd (lc_lru c);
          lru1 = zip [lc_fresh n..<lc_fresh n + length els] els
      in n\<lparr>lc_lru := lru1,
           lc_cache := foldl (\<lambda>m el. AList.update (en_key (snd el)) (fst el) m) [] lru1,
           lc_fresh := lc_fresh n + length els\<rparr>)"

section \<open>The abstract view: a list of entries\<close>

definition entries :: "('k, 'v) LruCache \<Rightarrow> ('k, 'v) entry list" where
  "entries c = map snd (lc_lru c)"

definition has_key :: "'k \<Rightarrow> ('k, 'v) entry list \<Rightarrow> bool" where
  "has_key k es = (k \<in> en_key ` set es)"

fun find_key :: "'k \<Rightarrow> ('k, 'v) entry list \<Rightarrow> ('k, 'v) entry option" where
  "find_key k [] = None"
| "find_key k (e # es) = (if en_key e = k then Some e else find_key k es)"

definition drop_key :: "'k \<Rightarrow> ('k, 'v) entry list \<Rightarrow> ('k, 'v) entry list" where
  "drop_key k es = filter (\<lambda>e. en_key e \<noteq> k) es"

definition index_of :: "(nat \<times> ('k, 'v) entry) list \<Rightarrow> ('k \<times> nat) list" where
  "index_of l = map (\<lambda>el. (en_key (snd el), fst el)) l"

definition lru_ok :: "('k, 'v) LruCache \<Rightarrow> bool" where
  "lru_ok c = (distinct (map fst (lc_lru c)) \<and> distinct (map en_key (entries c)) \<and>
     (\<forall>el \<in> set (lc_lru c). fst el < lc_fresh c) \<and>
     map_of (lc_cache c) = map_of (index_of (lc_lru c)) \<and>
     (lc_maxSize c > 0 \<longrightarrow> int (length (lc_lru c)) \<le> lc_maxSize c))"

lemma index_of_simps [simp]:
  "index_of [] = []"
  "index_of (el # l) = (en_key (snd el), fst el) # index_of l"
  "index_of (l @ l') = index_of l @ index_of l'"
  by (simp_all add: index_of_def)

lemma keys_index_of [simp]: "map fst (index_of l) = map en_key (map snd l)"
  by (induction l) auto

lemma list_remove_simps [simp]:
  "list_remove le [] = []"
  "list_remove le (el # l) = (if fst el = le then list_remove le l else el # list_remove le l)"
  "list_remove le (l @ l') = list_remove le l @ list_remove le l'"
  by (simp_all add: list_remove_def)

lemma list_remove_absent [simp]: "le \<notin> fst ` set l \<Longrightarrow> list_remove le l = l"
  by (induction l) auto

lemma drop_key_simps [simp]:
  "drop_key k [] = []"
  "drop_key k (e # es) = (if en_key e = k then drop_key k es else e # drop_key k es)"
  "drop_key k (es @ es') = drop_key k es @ drop_key k es'"
  by (simp_all add: drop_key_def)

lemma drop_key_absent [simp]: "k \<notin> en_key ` set es \<Longrightarrow> drop_key k es = es"
  by (induction es) auto

lemma set_drop_key: "set (drop_key k es) = {e \<in> set es. en_key e \<noteq> k}"
  by (auto simp: drop_key_def)

lemma distinct_drop_key: "distinct (map en_key es) \<Longrightarrow> distinct (map en_key (drop_key k es))"
  by (induction es) (auto simp: set_drop_key)

lemma find_key_None: "find_key k es = None \<longleftrightarrow> k \<notin> en_key ` set es"
  by (induction es) auto

lemma find_key_SomeD: "find_key k es = Some e \<Longrightarrow> e \<in> set es \<and> en_key e = k"
  by (induction es) (auto split: if_splits)

lemma find_key_append [simp]:
  "find_key k (es @ es') = (case find_key k es of Some e \<Rightarrow> Some e | None \<Rightarrow> find_key k es')"
  by (induction es) auto

lemma find_drop_key [simp]: "find_key k' (drop_key k es) = (if k' = k then None else find_key k' es)"
  by (induction es) auto

lemma find_key_in: "distinct (map en_key es) \<Longrightarrow> e \<in> set es \<Longrightarrow> find_key (en_key e) es = Some e"
  by (induction es) auto

text \<open>What an element the map points to looks like, and the list without it.\<close>

lemma split_elem:
  assumes "map_of l le = Some e" and "distinct (map fst l)"
  obtains l1 l2 where "l = l1 @ (le, e) # l2" and "le \<notin> fst ` set l1" and "le \<notin> fst ` set l2"
proof -
  obtain l1 l2 where "l = l1 @ (le, e) # l2"
    using split_list [OF map_of_SomeD [OF assms(1)]] by blast
  with assms(2) that show ?thesis by force
qed

lemma index_lookup:
  assumes "map_of (index_of l) k = Some le" and "distinct (map fst l)"
    and "distinct (map en_key (map snd l))"
  obtains e where "map_of l le = Some e" and "en_key e = k" and "find_key k (map snd l) = Some e"
  using assms
proof -
  obtain e where e: "(le, e) \<in> set l" "en_key e = k"
    using map_of_SomeD [OF assms(1)] by (auto simp: index_of_def)
  with assms(2) have "map_of l le = Some e" by (simp add: map_of_eq_Some_iff)
  moreover have "find_key k (map snd l) = Some e"
    using find_key_in [OF assms(3), of e] e by force
  ultimately show thesis using e(2) that by blast
qed

lemma index_none: "map_of (index_of l) k = None \<longleftrightarrow> find_key k (map snd l) = None"
  by (induction l) auto

lemma index_remove:
  assumes "map_of l le = Some e" and "distinct (map fst l)" and "distinct (map en_key (map snd l))"
  shows "map_of (index_of (list_remove le l)) = (map_of (index_of l))(en_key e := None)"
    and "map snd (list_remove le l) = drop_key (en_key e) (map snd l)"
proof -
  obtain l1 l2 where l: "l = l1 @ (le, e) # l2" "le \<notin> fst ` set l1" "le \<notin> fst ` set l2"
    using split_elem [OF assms(1,2)] by blast
  have n: "en_key e \<notin> en_key ` set (map snd l1)" "en_key e \<notin> en_key ` set (map snd l2)"
    using assms(3) by (auto simp: l(1))
  then have "map_of (index_of l1) (en_key e) = None" "map_of (index_of l2) (en_key e) = None"
    by (simp_all add: index_none find_key_None)
  then show "map_of (index_of (list_remove le l)) = (map_of (index_of l))(en_key e := None)"
    using l by (auto simp: map_add_def fun_eq_iff split: option.splits)
  show "map snd (list_remove le l) = drop_key (en_key e) (map snd l)"
    using l n by simp
qed

lemma list_remove_frame:
  "distinct (map fst l) \<Longrightarrow> distinct (map fst (list_remove le l))"
  "set (list_remove le l) = {el \<in> set l. fst el \<noteq> le}"
  "length (list_remove le l) \<le> length l"
  by (auto simp: list_remove_def distinct_map_filter)

section \<open>The operations on the list of entries\<close>

definition expire :: "int \<Rightarrow> bool \<Rightarrow> int \<Rightarrow> ('k, 'v) entry list \<Rightarrow> ('k, 'v) entry list" where
  "expire maxAge stale now es =
     (if \<not> stale \<and> maxAge > 0 then dropWhile (\<lambda>e. en_expires e \<le> now) es else es)"

definition abs_get ::
    "('k, 'v) LruCache \<Rightarrow> int \<Rightarrow> int \<Rightarrow> 'k \<Rightarrow> ('k, 'v) entry list \<Rightarrow> ('k, 'v) entry option \<times> ('k, 'v) entry list" where
  "abs_get c t1 t2 k es =
     (case find_key k es of
        None \<Rightarrow> (None, es)
      | Some e \<Rightarrow>
          if \<not> lc_staleReturn c \<and> lc_maxAge c > 0 \<and> en_expires e \<le> t1
          then (None, expire (lc_maxAge c) (lc_staleReturn c) t2 (drop_key k es))
          else let e1 = (if lc_maxAge c > 0 \<and> lc_updateAgeOnGet c
                         then e\<lparr>en_expires := t2 + lc_maxAge c\<rparr> else e)
               in (Some e1, drop_key k es @ [e1]))"

definition abs_put :: "('k, 'v) LruCache \<Rightarrow> int \<Rightarrow> ('k, 'v) entry \<Rightarrow> ('k, 'v) entry list \<Rightarrow> ('k, 'v) entry list" where
  "abs_put c now e es =
     expire (lc_maxAge c) (lc_staleReturn c) now
       (let es1 = drop_key (en_key e) es @ [e]
        in if \<not> has_key (en_key e) es \<and> lc_maxSize c > 0 \<and> int (length es1) > lc_maxSize c
           then tl es1 else es1)"

text \<open>The fixed part of a cache: what no operation after the construction changes.\<close>

definition same_setup :: "('k, 'v) LruCache \<Rightarrow> ('k, 'v) LruCache \<Rightarrow> bool" where
  "same_setup c c' = (lc_maxAge c' = lc_maxAge c \<and> lc_maxSize c' = lc_maxSize c \<and>
     lc_updateAgeOnGet c' = lc_updateAgeOnGet c \<and> lc_staleReturn c' = lc_staleReturn c)"

lemma lru_ok_new: "lru_ok (lru_new age sz upd stale evict)"
  by (simp add: lru_ok_def lru_new_def entries_def)

lemma entries_new [simp]: "entries (lru_new age sz upd stale evict) = []"
  by (simp add: lru_new_def entries_def)

lemma lru_ok_elem:
  assumes "lru_ok c" and "map_of (lc_cache c) k = Some le"
  obtains e where "map_of (lc_lru c) le = Some e" and "en_key e = k"
    and "find_key k (entries c) = Some e"
  using assms index_lookup [of "lc_lru c" k le] by (auto simp: lru_ok_def entries_def)

lemma lru_ok_none:
  assumes "lru_ok c"
  shows "map_of (lc_cache c) k = None \<longleftrightarrow> find_key k (entries c) = None"
  using assms index_none [of "lc_lru c" k] by (simp add: lru_ok_def entries_def)

lemma delete_element_ok:
  assumes "lru_ok c" and "map_of (lc_lru c) le = Some e"
  shows "lru_ok (deleteElement (le, e) c)"
    and "entries (deleteElement (le, e) c) = drop_key (en_key e) (entries c)"
    and "same_setup c (deleteElement (le, e) c)"
proof -
  let ?l = "lc_lru c"
  have d: "distinct (map fst ?l)" "distinct (map en_key (map snd ?l))"
    using assms(1) by (simp_all add: lru_ok_def entries_def)
  note r = index_remove [OF assms(2) d]
  show "entries (deleteElement (le, e) c) = drop_key (en_key e) (entries c)"
    using r(2) by (simp add: deleteElement_def entries_def Let_def)
  then have "distinct (map en_key (entries (deleteElement (le, e) c)))"
    using d(2) by (simp add: distinct_drop_key entries_def)
  moreover have "map_of (AList.delete (en_key e) (lc_cache c)) = map_of (index_of (list_remove le ?l))"
    using assms(1) r(1) by (simp add: lru_ok_def delete_conv')
  moreover have "int (length (list_remove le ?l)) \<le> lc_maxSize c" if "0 < lc_maxSize c"
    using assms(1) that list_remove_frame(3) [of le ?l] by (simp add: lru_ok_def)
  ultimately show "lru_ok (deleteElement (le, e) c)"
    using assms(1) d list_remove_frame(1) [of ?l le] list_remove_frame(2,3) [of le ?l]
    by (simp add: lru_ok_def deleteElement_def Let_def)
  show "same_setup c (deleteElement (le, e) c)"
    by (simp add: same_setup_def deleteElement_def Let_def)
qed

lemma delete_front_ok:
  assumes "lru_ok c"
  shows "lru_ok (delete_front now c) \<and>
    entries (delete_front now c) = dropWhile (\<lambda>e. en_expires e \<le> now) (entries c) \<and>
    same_setup c (delete_front now c)"
  using assms
proof (induction now c rule: delete_front.induct)
  case (1 now c)
  show ?case
  proof (cases "lc_lru c")
    case Nil
    with 1 show ?thesis
      by (subst (1 2 3) delete_front.simps) (simp add: entries_def same_setup_def)
  next
    case (Cons el rest)
    have m: "map_of (lc_lru c) (fst el) = Some (snd el)" by (simp add: Cons)
    have s: "drop_key (en_key (snd el)) (entries c) = map snd rest"
      using "1.prems" Cons by (auto simp: lru_ok_def entries_def intro!: drop_key_absent)
    show ?thesis
    proof (cases "en_expires (snd el) \<le> now")
      case True
      note d = delete_element_ok [OF "1.prems" m]
      have "delete_front now c = delete_front now (deleteElement el c)"
        by (subst delete_front.simps) (simp add: Cons True)
      with "1.IH" [OF Cons True] d s True show ?thesis
        by (simp add: same_setup_def) (simp add: entries_def Cons)
    next
      case False
      with "1.prems" Cons show ?thesis
        by (subst (1 2 3) delete_front.simps) (simp add: entries_def same_setup_def)
    qed
  qed
qed

lemma maybe_delete_ok:
  assumes "lru_ok c"
  shows "lru_ok (maybeDeleteOldest now c)"
    and "entries (maybeDeleteOldest now c) = expire (lc_maxAge c) (lc_staleReturn c) now (entries c)"
    and "same_setup c (maybeDeleteOldest now c)"
  using delete_front_ok [OF assms, of now] assms
  by (simp_all add: maybeDeleteOldest_def expire_def same_setup_def)

lemma move_to_back:
  assumes "map_of l le = Some e" and "distinct (map fst l)" and "distinct (map en_key (map snd l))"
  shows "MoveToBack le l = list_remove le l @ [(le, e)]"
    and "map_of (index_of (MoveToBack le l)) = map_of (index_of l)"
    and "map snd (MoveToBack le l) = drop_key (en_key e) (map snd l) @ [e]"
    and "distinct (map fst (MoveToBack le l))"
    and "set (MoveToBack le l) = set l" and "length (MoveToBack le l) = length l"
proof -
  show m: "MoveToBack le l = list_remove le l @ [(le, e)]"
    by (simp add: MoveToBack_def assms(1))
  have i: "map_of (index_of l) (en_key e) = Some le"
    using assms by (force simp: index_of_def map_of_eq_Some_iff o_def)
  note r = index_remove [OF assms]
  show "map_of (index_of (MoveToBack le l)) = map_of (index_of l)"
    using r(1) i by (auto simp: m map_add_def fun_eq_iff split: option.splits)
  show "map snd (MoveToBack le l) = drop_key (en_key e) (map snd l) @ [e]"
    using r(2) by (simp add: m)
  obtain l1 l2 where l: "l = l1 @ (le, e) # l2" "le \<notin> fst ` set l1" "le \<notin> fst ` set l2"
    using split_elem [OF assms(1,2)] by blast
  then show "distinct (map fst (MoveToBack le l))"
    "set (MoveToBack le l) = set l" "length (MoveToBack le l) = length l"
    using assms(2) unfolding m by auto
qed

lemma set_elem_simps [simp]:
  "set_elem le f [] = []"
  "set_elem le f (el # l) = (if fst el = le then (le, f (snd el)) else el) # set_elem le f l"
  "set_elem le f (l @ l') = set_elem le f l @ set_elem le f l'"
  by (simp_all add: set_elem_def)

lemma set_elem_absent [simp]: "le \<notin> fst ` set l \<Longrightarrow> set_elem le f l = l"
  by (induction l) auto

lemma removed_simps [simp]:
  "set_elem le f (list_remove le l) = list_remove le l"
  "map_of (list_remove le l) le = None"
  by (induction l) auto

text \<open>Moving an element to the back and rewriting its entry, under the same key.\<close>

lemma touch_ok:
  assumes "lru_ok c" and "map_of (lc_lru c) le = Some e" and "en_key (f e) = en_key e"
  shows "lru_ok (c\<lparr>lc_lru := set_elem le f (MoveToBack le (lc_lru c))\<rparr>)"
    and "entries (c\<lparr>lc_lru := set_elem le f (MoveToBack le (lc_lru c))\<rparr>) =
      drop_key (en_key e) (entries c) @ [f e]"
proof -
  let ?l = "lc_lru c"
  have d: "distinct (map fst ?l)" "distinct (map en_key (map snd ?l))"
    using assms(1) by (simp_all add: lru_ok_def entries_def)
  note m = move_to_back [OF assms(2) d]
  have s: "set_elem le f (MoveToBack le ?l) = list_remove le ?l @ [(le, f e)]"
    by (simp add: m(1))
  note r = index_remove [OF assms(2) d]
  show e: "entries (c\<lparr>lc_lru := set_elem le f (MoveToBack le ?l)\<rparr>) =
      drop_key (en_key e) (entries c) @ [f e]"
    using r(2) by (simp add: entries_def s)
  have "map_of (index_of (list_remove le ?l @ [(le, f e)])) = map_of (index_of ?l)"
    using m(1,2) assms(3) by (simp add: fun_eq_iff)
  moreover have "distinct (map fst (list_remove le ?l @ [(le, f e)]))"
    using d(1) by (auto simp: list_remove_frame)
  moreover have "distinct (map en_key (drop_key (en_key e) (map snd ?l) @ [f e]))"
    using distinct_drop_key [OF d(2), of "en_key e"] assms(3) by (auto simp: set_drop_key)
  moreover have "length (list_remove le ?l @ [(le, f e)]) = length ?l"
    using m(1,6) by simp
  moreover have "le < lc_fresh c"
    using assms(1) map_of_SomeD [OF assms(2)] by (auto simp: lru_ok_def)
  ultimately show "lru_ok (c\<lparr>lc_lru := set_elem le f (MoveToBack le ?l)\<rparr>)"
    using assms(1) e by (auto simp: lru_ok_def s entries_def list_remove_frame(2))
qed

lemma set_elem_id: "map_of l le = Some e \<Longrightarrow> distinct (map fst l) \<Longrightarrow> set_elem le (\<lambda>_. e) l = l"
  by (induction l) (auto split: if_splits)

section \<open>Each operation acts on the list of entries\<close>

theorem lru_get_acts:
  assumes "lru_ok c"
  shows "lru_ok (snd (lru_get t1 t2 k c)) \<and> same_setup c (snd (lru_get t1 t2 k c)) \<and>
    (fst (lru_get t1 t2 k c), entries (snd (lru_get t1 t2 k c))) = abs_get c t1 t2 k (entries c)"
proof (cases "map_of (lc_cache c) k")
  case None
  with assms lru_ok_none [OF assms, of k] show ?thesis
    by (simp add: lru_get_def abs_get_def same_setup_def)
next
  case (Some le)
  then obtain e where e: "map_of (lc_lru c) le = Some e" "en_key e = k"
    "find_key k (entries c) = Some e"
    by (rule lru_ok_elem [OF assms])
  have d: "distinct (map fst (lc_lru c))" "distinct (map en_key (map snd (lc_lru c)))"
    using assms by (simp_all add: lru_ok_def entries_def)
  have b: "set_elem le (\<lambda>_. e) (MoveToBack le (lc_lru c)) = MoveToBack le (lc_lru c)"
    by (rule set_elem_id) (auto simp: move_to_back [OF e(1) d] map_add_def list_remove_frame d)
  note del = delete_element_ok [OF assms e(1)]
  note old = maybe_delete_ok [OF del(1), of t2]
  note keep = touch_ok [OF assms e(1), of "\<lambda>_. e"]
  note upd = touch_ok [OF assms e(1), of "\<lambda>_. e\<lparr>en_expires := t2 + lc_maxAge c\<rparr>"]
  have s: "lc_maxAge (deleteElement (le, e) c) = lc_maxAge c"
    "lc_staleReturn (deleteElement (le, e) c) = lc_staleReturn c"
    using del(3) by (simp_all add: same_setup_def)
  show ?thesis
    using del old keep upd e b s
    by (simp add: lru_get_def Some abs_get_def Let_def same_setup_def)
qed

text \<open>Removing the front element of a list that is one too long.\<close>

lemma evict_front_ok:
  assumes "lru_ok (d\<lparr>lc_maxSize := 0\<rparr>)" and "lc_lru d \<noteq> []"
    and "int (length (lc_lru d)) \<le> lc_maxSize d + 1"
  shows "lru_ok (deleteElement (hd (lc_lru d)) d)"
    and "entries (deleteElement (hd (lc_lru d)) d) = tl (entries d)"
    and "same_setup d (deleteElement (hd (lc_lru d)) d)"
proof -
  obtain h t where l: "lc_lru d = h # t" using assms(2) by (cases "lc_lru d") auto
  let ?b = "d\<lparr>lc_maxSize := 0\<rparr>"
  have m: "map_of (lc_lru ?b) (fst h) = Some (snd h)" using l by simp
  note del = delete_element_ok [OF assms(1) m, simplified]
  have "distinct (map en_key (map snd (h # t)))"
    using assms(1) by (simp add: lru_ok_def entries_def l)
  then have "drop_key (en_key (snd h)) (map snd (h # t)) = map snd t"
    by (auto intro!: drop_key_absent)
  then have tl: "entries (deleteElement h ?b) = map snd t"
    using del(2) by (simp add: entries_def l)
  have s: "deleteElement h d = (deleteElement h ?b)\<lparr>lc_maxSize := lc_maxSize d\<rparr>"
    by (simp add: deleteElement_def Let_def)
  have hd: "hd (lc_lru d) = h" by (simp add: l)
  show "entries (deleteElement (hd (lc_lru d)) d) = tl (entries d)"
    using tl unfolding hd s by (simp add: entries_def l)
  show "same_setup d (deleteElement (hd (lc_lru d)) d)"
    using del(3) unfolding hd s by (simp add: same_setup_def)
  have "length (lc_lru (deleteElement h ?b)) = length t"
    using arg_cong [OF tl, of length] by (simp add: entries_def)
  with del(1) assms(3) show "lru_ok (deleteElement (hd (lc_lru d)) d)"
    unfolding hd s by (simp add: lru_ok_def entries_def l)
qed

definition push_back :: "('k, 'v) entry \<Rightarrow> ('k, 'v) LruCache \<Rightarrow> ('k, 'v) LruCache" where
  "push_back e c =
     c\<lparr>lc_lru := lc_lru c @ [(lc_fresh c, e)],
       lc_cache := AList.update (en_key e) (lc_fresh c) (lc_cache c), lc_fresh := Suc (lc_fresh c)\<rparr>"

lemma push_back_ok:
  assumes "lru_ok c" and "en_key e \<notin> en_key ` set (entries c)"
  shows "lru_ok ((push_back e c)\<lparr>lc_maxSize := 0\<rparr>)"
    and "entries (push_back e c) = entries c @ [e]"
    and "int (length (lc_lru (push_back e c))) \<le> lc_maxSize c \<Longrightarrow> lru_ok (push_back e c)"
    and "lc_maxSize c \<le> 0 \<Longrightarrow> lru_ok (push_back e c)"
    and "same_setup c (push_back e c)"
proof -
  have f: "lc_fresh c \<notin> fst ` set (lc_lru c)"
    using assms by (auto simp: lru_ok_def)
  have "map_of (index_of (lc_lru c)) (en_key e) = None"
    using assms(2) by (simp add: index_none find_key_None entries_def)
  then have "map_of (AList.update (en_key e) (lc_fresh c) (lc_cache c)) =
      map_of (index_of (lc_lru c @ [(lc_fresh c, e)]))"
    using assms by (auto simp: update_conv' lru_ok_def map_add_def fun_eq_iff split: option.splits)
  then show ok: "lru_ok ((push_back e c)\<lparr>lc_maxSize := 0\<rparr>)"
    using assms f by (auto simp: lru_ok_def entries_def push_back_def)
  show "entries (push_back e c) = entries c @ [e]" by (simp add: entries_def push_back_def)
  show "same_setup c (push_back e c)" by (simp add: same_setup_def push_back_def)
  show "int (length (lc_lru (push_back e c))) \<le> lc_maxSize c \<Longrightarrow> lru_ok (push_back e c)"
    "lc_maxSize c \<le> 0 \<Longrightarrow> lru_ok (push_back e c)"
    using ok by (simp_all add: lru_ok_def entries_def push_back_def)
qed

theorem setWithExpire_acts:
  assumes "lru_ok c"
  shows "lru_ok (setWithExpire now k v x c) \<and> same_setup c (setWithExpire now k v x c) \<and>
    entries (setWithExpire now k v x c) =
      abs_put c now \<lparr>en_key = k, en_value = v, en_expires = x\<rparr> (entries c)"
proof (cases "map_of (lc_cache c) k")
  case None
  let ?e = "\<lparr>en_key = k, en_value = v, en_expires = x\<rparr>"
  define p where "p = push_back ?e c"
  define r where "r = (if lc_maxSize p > 0 \<and> int (length (lc_lru p)) > lc_maxSize p
    then deleteElement (hd (lc_lru p)) p else p)"
  have n: "k \<notin> en_key ` set (entries c)"
    using None lru_ok_none [OF assms, of k] by (simp add: find_key_None)
  then have nk: "en_key ?e \<notin> en_key ` set (entries c)" by simp
  note push = push_back_ok [OF assms nk, folded p_def]
  have sz: "lc_maxSize p = lc_maxSize c" "length (lc_lru p) = Suc (length (lc_lru c))"
    by (simp_all add: p_def push_back_def)
  have lim: "lc_maxSize c > 0 \<Longrightarrow> int (length (lc_lru p)) \<le> lc_maxSize p + 1"
    using assms sz by (simp add: lru_ok_def)
  have ne: "lc_lru p \<noteq> []" using sz(2) by auto
  have set: "setWithExpire now k v x c = maybeDeleteOldest now r"
    by (simp add: setWithExpire_def None Let_def r_def p_def push_back_def)
  have len: "length (entries p) = length (lc_lru p)" by (simp add: entries_def)
  have r: "lru_ok r \<and> same_setup c r \<and> entries r =
      (if lc_maxSize c > 0 \<and> int (length (entries p)) > lc_maxSize c then tl (entries p) else entries p)"
  proof (cases "lc_maxSize p > 0 \<and> int (length (lc_lru p)) > lc_maxSize p")
    case True
    with evict_front_ok [OF push(1) ne lim] push(5) sz(1) len show ?thesis
      by (simp add: r_def same_setup_def)
  next
    case False
    with push(3-5) sz(1) len show ?thesis by (auto simp: r_def)
  qed
  have "entries p = drop_key k (entries c) @ [?e]" using push(2) n by simp
  with r maybe_delete_ok [of r now] n show ?thesis
    by (simp add: set abs_put_def has_key_def Let_def same_setup_def)
next
  case (Some le)
  then obtain e where e: "map_of (lc_lru c) le = Some e" "en_key e = k"
    "find_key k (entries c) = Some e"
    by (rule lru_ok_elem [OF assms])
  let ?f = "\<lambda>e. e\<lparr>en_value := v, en_expires := x\<rparr>"
  note t = touch_ok [OF assms e(1), of ?f, simplified]
  have "has_key k (entries c)"
    using find_key_SomeD [OF e(3)] by (auto simp: has_key_def)
  then show ?thesis
    using t maybe_delete_ok [OF t(1), of now] e(2)
    by (cases e) (simp add: setWithExpire_def Some abs_put_def Let_def same_setup_def)
qed

theorem lru_delete_acts:
  assumes "lru_ok c"
  shows "lru_ok (lru_delete k c) \<and> same_setup c (lru_delete k c) \<and>
    entries (lru_delete k c) = drop_key k (entries c)"
proof (cases "map_of (lc_cache c) k")
  case None
  with assms lru_ok_none [OF assms, of k] show ?thesis
    by (simp add: lru_delete_def same_setup_def find_key_None)
next
  case (Some le)
  then obtain e where "map_of (lc_lru c) le = Some e" "en_key e = k"
    by (rule lru_ok_elem [OF assms])
  with Some delete_element_ok [OF assms this(1)] show ?thesis
    by (simp add: lru_delete_def)
qed

lemma lru_Exist_iff: "lru_ok c \<Longrightarrow> lru_Exist k c \<longleftrightarrow> has_key k (entries c)"
  using lru_ok_none [of c k] by (simp add: lru_Exist_def has_key_def find_key_None)

text \<open>A copy has the same entries in the same order.\<close>

lemma index_foldl:
  assumes "distinct (map en_key (map snd l))" and "\<forall>k \<in> fst ` set m. k \<notin> en_key ` set (map snd l)"
  shows "map_of (foldl (\<lambda>m el. AList.update (en_key (snd el)) (fst el) m) m l) =
    (\<lambda>k. case map_of (index_of l) k of Some i \<Rightarrow> Some i | None \<Rightarrow> map_of m k)"
  using assms
proof (induction l arbitrary: m)
  case Nil
  then show ?case by simp
next
  case (Cons el l)
  let ?m = "AList.update (en_key (snd el)) (fst el) m"
  have "\<forall>k \<in> fst ` set ?m. k \<notin> en_key ` set (map snd l)"
  proof -
    have "fst ` set ?m = insert (en_key (snd el)) (fst ` set m)"
      using arg_cong [OF update_conv' [of "en_key (snd el)" "fst el" m], of dom]
      by (simp add: dom_map_of_conv_image_fst)
    with Cons.prems show ?thesis by auto
  qed
  moreover have "distinct (map en_key (map snd l))" using Cons.prems(1) by simp
  moreover have "map_of (index_of l) (en_key (snd el)) = None"
    using Cons.prems(1) by (auto simp: index_none find_key_None)
  ultimately show ?case
    using Cons.IH [of ?m] by (auto simp: update_conv' fun_eq_iff split: option.splits)
qed

lemma lru_clone_ok:
  assumes "lru_ok c" and "lc_maxSize n > 0 \<Longrightarrow> int (length (entries c)) \<le> lc_maxSize n"
  shows "lru_ok (lru_CloneTo c n) \<and> entries (lru_CloneTo c n) = entries c \<and>
    same_setup n (lru_CloneTo c n)"
proof -
  let ?l = "zip [lc_fresh n..<lc_fresh n + length (map snd (lc_lru c))] (map snd (lc_lru c))"
  have e: "map snd ?l = map snd (lc_lru c)" "map fst ?l = [lc_fresh n..<lc_fresh n + length (lc_lru c)]"
    by simp_all
  have d: "distinct (map en_key (map snd ?l))"
    unfolding e(1) using assms(1) by (simp add: lru_ok_def entries_def)
  have "map_of (foldl (\<lambda>m el. AList.update (en_key (snd el)) (fst el) m) [] ?l) = map_of (index_of ?l)"
    using index_foldl [OF d, of "[]"] by (simp add: fun_eq_iff split: option.split)
  moreover have "\<forall>el \<in> set ?l. fst el < lc_fresh n + length (lc_lru c)"
    by (auto dest!: set_zip_leftD)
  ultimately show ?thesis
    using assms d e by (simp add: lru_CloneTo_def lru_ok_def entries_def same_setup_def Let_def)
qed

section \<open>Runs of operations\<close>

datatype ('k, 'v) lru_op =
    OpGet int int 'k
  | OpSet int int 'k 'v
  | OpSetWithExpire int 'k 'v int
  | OpDelete 'k
  | OpClear

fun lru_do :: "('k, 'v) lru_op \<Rightarrow> ('k, 'v) LruCache \<Rightarrow> 'v option \<times> ('k, 'v) LruCache" where
  "lru_do (OpGet t1 t2 k) c = lru_Get t1 t2 k c"
| "lru_do (OpSet t1 t2 k v) c = (None, lru_set t1 t2 k v c)"
| "lru_do (OpSetWithExpire now k v x) c = (None, setWithExpire now k v x c)"
| "lru_do (OpDelete k) c = (None, lru_delete k c)"
| "lru_do OpClear c = (None, lru_clear c)"

fun lru_run :: "('k, 'v) lru_op list \<Rightarrow> ('k, 'v) LruCache \<Rightarrow> 'v option list \<times> ('k, 'v) LruCache" where
  "lru_run [] c = ([], c)"
| "lru_run (a # as) c = (let (r, c1) = lru_do a c; (rs, c2) = lru_run as c1 in (r # rs, c2))"

text \<open>
  The specification: a list of entries, the least recently used first. A look-up moves an entry
  that is young enough to the end; a write puts the entry at the end and, if the key is new and the
  list has become too long, drops the first; then expired entries at the front go.
\<close>

fun list_do :: "('k, 'v) LruCache \<Rightarrow> ('k, 'v) lru_op \<Rightarrow> ('k, 'v) entry list \<Rightarrow> 'v option \<times> ('k, 'v) entry list" where
  "list_do c (OpGet t1 t2 k) es = (let (e, es') = abs_get c t1 t2 k es in (map_option en_value e, es'))"
| "list_do c (OpSet t1 t2 k v) es =
     (None, abs_put c t2 \<lparr>en_key = k, en_value = v,
        en_expires = (if lc_maxAge c > 0 then t1 + lc_maxAge c else 0)\<rparr> es)"
| "list_do c (OpSetWithExpire now k v x) es =
     (None, abs_put c now \<lparr>en_key = k, en_value = v, en_expires = x\<rparr> es)"
| "list_do c (OpDelete k) es = (None, drop_key k es)"
| "list_do c OpClear es = (None, [])"

fun list_run :: "('k, 'v) LruCache \<Rightarrow> ('k, 'v) lru_op list \<Rightarrow> ('k, 'v) entry list \<Rightarrow>
    'v option list \<times> ('k, 'v) entry list" where
  "list_run c [] es = ([], es)"
| "list_run c (a # as) es = (let (r, es1) = list_do c a es; (rs, es2) = list_run c as es1 in (r # rs, es2))"

lemma list_do_setup: "same_setup c c' \<Longrightarrow> list_do c' a es = list_do c a es"
  by (cases a) (auto simp: same_setup_def abs_get_def abs_put_def split: option.split)

lemma list_run_setup: "same_setup c c' \<Longrightarrow> list_run c' as es = list_run c as es"
  by (induction "as" arbitrary: es) (simp_all add: list_do_setup)

lemma lru_do_acts:
  assumes "lru_ok c"
  shows "lru_ok (snd (lru_do a c)) \<and> same_setup c (snd (lru_do a c)) \<and>
    (fst (lru_do a c), entries (snd (lru_do a c))) = list_do c a (entries c)"
proof (cases a)
  case (OpGet t1 t2 k)
  with lru_get_acts [OF assms, of t1 t2 k] show ?thesis
    by (auto simp: lru_Get_def Let_def split: prod.splits)
next
  case (OpSet t1 t2 k v)
  with setWithExpire_acts [OF assms, of t2 k v] show ?thesis
    by (simp add: lru_set_def)
next
  case (OpSetWithExpire now k v x)
  with setWithExpire_acts [OF assms, of now k v x] show ?thesis by simp
next
  case (OpDelete k)
  with lru_delete_acts [OF assms, of k] show ?thesis by simp
next
  case OpClear
  with assms show ?thesis
    by (simp add: lru_clear_def lru_ok_def entries_def same_setup_def)
qed

lemma lru_run_acts:
  assumes "lru_ok c"
  shows "lru_ok (snd (lru_run as c)) \<and> same_setup c (snd (lru_run as c)) \<and>
    (fst (lru_run as c), entries (snd (lru_run as c))) = list_run c as (entries c)"
  using assms
proof (induction "as" arbitrary: c)
  case Nil
  then show ?case by (simp add: same_setup_def)
next
  case (Cons a "as")
  obtain r c1 where d: "lru_do a c = (r, c1)" by (rule prod.exhaust)
  have a: "lru_ok c1" "same_setup c c1" "list_do c a (entries c) = (r, entries c1)"
    using lru_do_acts [OF Cons.prems, of a] d by simp_all
  with Cons.IH [OF a(1)] list_run_setup [OF a(2)] show ?case
    by (auto simp: d Let_def same_setup_def split: prod.splits)
qed

text \<open>
  Property C22. A new cache answers every run of operations as the list does, and its list and map stay in
  step: the keys are distinct and never more than the limit.
\<close>

theorem lru_answers_as_list:
  "(fst (lru_run ops (lru_new age n upd stale evict)),
     entries (snd (lru_run ops (lru_new age n upd stale evict)))) =
   list_run (lru_new age n upd stale evict) ops [] \<and>
   distinct (map en_key (entries (snd (lru_run ops (lru_new age n upd stale evict))))) \<and>
   int (length (entries (snd (lru_run ops (lru_new age n upd stale evict))))) \<le>
     (if n > 0 then n else int (length (entries (snd (lru_run ops (lru_new age n upd stale evict)))))) \<and>
   (lru_Exist k (snd (lru_run ops (lru_new age n upd stale evict))) \<longleftrightarrow>
     has_key k (entries (snd (lru_run ops (lru_new age n upd stale evict)))))"
proof -
  let ?c = "lru_new age n upd stale evict"
  have "lru_ok (snd (lru_run ops ?c)) \<and> same_setup ?c (snd (lru_run ops ?c)) \<and>
    (fst (lru_run ops ?c), entries (snd (lru_run ops ?c))) = list_run ?c ops []"
    using lru_run_acts [OF lru_ok_new, of ops age n upd stale evict] by simp
  then obtain rs r where r: "lru_run ops ?c = (rs, r)" "lru_ok r" "same_setup ?c r"
    "list_run ?c ops [] = (rs, entries r)"
    by (cases "lru_run ops ?c") auto
  have "lc_maxSize r = n" using r(3) by (simp add: same_setup_def lru_new_def)
  then have "int (length (entries r)) \<le> (if n > 0 then n else int (length (entries r)))"
    using r(2) by (simp add: lru_ok_def entries_def)
  moreover have "distinct (map en_key (entries r))" using r(2) by (simp add: lru_ok_def)
  ultimately show ?thesis
    using lru_Exist_iff [OF r(2), of k] by (simp only: r(1,4) fst_conv snd_conv simp_thms)
qed

section \<open>Caches without a maximal age\<close>

text \<open>Such a cache is a list of pairs of a key and a value, the least recently used first.\<close>

definition pairs :: "('k, 'v) LruCache \<Rightarrow> ('k \<times> 'v) list" where
  "pairs c = map (\<lambda>e. (en_key e, en_value e)) (entries c)"

definition without :: "'k \<Rightarrow> ('k \<times> 'v) list \<Rightarrow> ('k \<times> 'v) list" where
  "without k ps = filter (\<lambda>p. fst p \<noteq> k) ps"

definition trim :: "int \<Rightarrow> ('k \<times> 'v) list \<Rightarrow> ('k \<times> 'v) list" where
  "trim n ps = (if n > 0 \<and> int (length ps) > n then tl ps else ps)"

definition ageless_ok :: "('k, 'v) LruCache \<Rightarrow> bool" where
  "ageless_ok c = (lru_ok c \<and> lc_maxAge c = 0)"

lemma map_of_pairs: "map_of (map (\<lambda>e. (en_key e, en_value e)) es) k = map_option en_value (find_key k es)"
  by (induction es) auto

lemma without_pairs:
  "map (\<lambda>e. (en_key e, en_value e)) (drop_key k es) = without k (map (\<lambda>e. (en_key e, en_value e)) es)"
  by (induction es) (auto simp: without_def)

lemma pairs_distinct: "ageless_ok c \<Longrightarrow> distinct (map fst (pairs c))"
  by (simp add: ageless_ok_def lru_ok_def pairs_def o_def)

lemma pairs_bounded: "ageless_ok c \<Longrightarrow> lc_maxSize c > 0 \<Longrightarrow> int (length (pairs c)) \<le> lc_maxSize c"
  by (simp add: ageless_ok_def lru_ok_def pairs_def entries_def)

lemma ageless_new [simp]: "ageless_ok (lru_new 0 n u s e)" "pairs (lru_new 0 n u s e) = []"
  by (simp_all add: ageless_ok_def lru_ok_new pairs_def) (simp add: lru_new_def)

lemma ageless_clear: "ageless_ok c \<Longrightarrow> ageless_ok (lru_clear c) \<and> pairs (lru_clear c) = []"
  by (simp add: ageless_ok_def lru_ok_def lru_clear_def pairs_def entries_def)

lemma ageless_get:
  assumes "ageless_ok c" and "lru_Get t1 t2 k c = (r, c')"
  shows "ageless_ok c' \<and> lc_maxSize c' = lc_maxSize c \<and> r = map_of (pairs c) k \<and>
    pairs c' = (case r of None \<Rightarrow> pairs c | Some v \<Rightarrow> without k (pairs c) @ [(k, v)])"
  using assms lru_get_acts [of c t1 t2 k]
  by (auto simp: ageless_ok_def lru_Get_def abs_get_def same_setup_def pairs_def map_of_pairs Let_def
      without_pairs split: prod.splits option.splits dest: find_key_SomeD)

lemma ageless_set:
  assumes "ageless_ok c"
  shows "ageless_ok (lru_set t1 t2 k v c) \<and> lc_maxSize (lru_set t1 t2 k v c) = lc_maxSize c \<and>
    pairs (lru_set t1 t2 k v c) =
      (if map_of (pairs c) k = None then trim (lc_maxSize c) (pairs c @ [(k, v)])
       else without k (pairs c) @ [(k, v)])"
proof -
  have "has_key k (entries c) \<longleftrightarrow> map_of (pairs c) k \<noteq> None"
    using find_key_None [of k "entries c"] by (simp add: has_key_def pairs_def map_of_pairs)
  moreover have "map_of (pairs c) k = None \<Longrightarrow> drop_key k (entries c) = entries c"
    using find_key_None [of k "entries c"] by (simp add: pairs_def map_of_pairs)
  ultimately show ?thesis
    using assms setWithExpire_acts [of c t2 k v 0]
    by (auto simp: ageless_ok_def lru_set_def abs_put_def expire_def same_setup_def pairs_def
        without_pairs trim_def map_tl)
qed

lemma ageless_delete:
  "ageless_ok c \<Longrightarrow> ageless_ok (lru_delete k c) \<and> lc_maxSize (lru_delete k c) = lc_maxSize c \<and>
    pairs (lru_delete k c) = without k (pairs c)"
  using lru_delete_acts [of c k] by (auto simp: ageless_ok_def same_setup_def pairs_def without_pairs)

lemma ageless_exist: "ageless_ok c \<Longrightarrow> lru_Exist k c \<longleftrightarrow> map_of (pairs c) k \<noteq> None"
  using lru_Exist_iff [of c k] find_key_None [of k "entries c"]
  by (simp add: ageless_ok_def has_key_def pairs_def map_of_pairs)


lemma ageless_clone:
  assumes "ageless_ok c" and "ageless_ok n" and "lc_maxSize n = lc_maxSize c"
  shows "ageless_ok (lru_CloneTo c n) \<and> pairs (lru_CloneTo c n) = pairs c \<and>
    lc_maxSize (lru_CloneTo c n) = lc_maxSize n"
  using assms lru_clone_ok [of c n] by (auto simp: ageless_ok_def same_setup_def pairs_def lru_ok_def entries_def)

end
