(* ===== verification/NetAddr.thy ===== *)
theory NetAddr
  imports Prelude "HOL-Library.Word"
begin

text \<open>
  What the proxy core uses of \<open>net/netip\<close>: addresses as words of 32 and 128 bits with the order of
  \<open>Compare\<close> (by length, then by value), the neighbours of an address, and prefixes. Zones are
  left out: the addresses of the pools and of the rules have none.
\<close>

unbundle bit_operations_syntax

datatype Addr = NoAddr | Addr4 "32 word" | Addr6 "128 word"

fun addr_BitLen :: "Addr \<Rightarrow> nat" where
  "addr_BitLen NoAddr = 0"
| "addr_BitLen (Addr4 w) = 32"
| "addr_BitLen (Addr6 w) = 128"

fun addr_val :: "Addr \<Rightarrow> nat" where
  "addr_val NoAddr = 0"
| "addr_val (Addr4 w) = unat w"
| "addr_val (Addr6 w) = unat w"

definition IsValid :: "Addr \<Rightarrow> bool" where
  "IsValid a = (a \<noteq> NoAddr)"

lemma addr_eqI: "addr_BitLen a = addr_BitLen b \<Longrightarrow> addr_val a = addr_val b \<Longrightarrow> a = b"
  by (cases a; cases b) (auto intro: word_unat_eq_iff [THEN iffD2])

text \<open>\<open>Less\<close> is the order \<open><\<close> of the type.\<close>

instantiation Addr :: linorder
begin

definition less_Addr :: "Addr \<Rightarrow> Addr \<Rightarrow> bool" where
  "less_Addr a b = (addr_BitLen a < addr_BitLen b \<or>
     addr_BitLen a = addr_BitLen b \<and> addr_val a < addr_val b)"

definition less_eq_Addr :: "Addr \<Rightarrow> Addr \<Rightarrow> bool" where
  "less_eq_Addr a b = (addr_BitLen a < addr_BitLen b \<or>
     addr_BitLen a = addr_BitLen b \<and> addr_val a \<le> addr_val b)"

instance
  by standard (auto simp: less_Addr_def less_eq_Addr_def intro: addr_eqI)

end

text \<open>The neighbours: past the ends there is no address.\<close>

fun addr_Next :: "Addr \<Rightarrow> Addr" where
  "addr_Next NoAddr = NoAddr"
| "addr_Next (Addr4 w) = (if w = - 1 then NoAddr else Addr4 (w + 1))"
| "addr_Next (Addr6 w) = (if w = - 1 then NoAddr else Addr6 (w + 1))"

fun addr_Prev :: "Addr \<Rightarrow> Addr" where
  "addr_Prev NoAddr = NoAddr"
| "addr_Prev (Addr4 w) = (if w = 0 then NoAddr else Addr4 (w - 1))"
| "addr_Prev (Addr6 w) = (if w = 0 then NoAddr else Addr6 (w - 1))"

fun Unmap :: "Addr \<Rightarrow> Addr" where
  "Unmap (Addr6 w) = (if drop_bit 32 w = 0xffff then Addr4 (ucast w) else Addr6 w)"
| "Unmap a = a"

record Prefix =
  px_addr :: Addr
  px_bits :: nat

definition prefix_valid :: "Prefix \<Rightarrow> bool" where
  "prefix_valid p = (px_addr p \<noteq> NoAddr \<and> px_bits p \<le> addr_BitLen (px_addr p))"

fun Masked :: "Addr \<Rightarrow> nat \<Rightarrow> Addr" where
  "Masked NoAddr b = NoAddr"
| "Masked (Addr4 w) b = Addr4 (push_bit (32 - b) (drop_bit (32 - b) w))"
| "Masked (Addr6 w) b = Addr6 (push_bit (128 - b) (drop_bit (128 - b) w))"

definition Contains :: "Prefix \<Rightarrow> Addr \<Rightarrow> bool" where
  "Contains p ip = (prefix_valid p \<and>
     (case (px_addr p, ip) of
        (Addr4 a, Addr4 b) \<Rightarrow> drop_bit (32 - px_bits p) (a XOR b) = 0
      | (Addr6 a, Addr6 b) \<Rightarrow> drop_bit (128 - px_bits p) (a XOR b) = 0
      | _ \<Rightarrow> False))"

lemma IsValid_simps [simp]: "\<not> IsValid NoAddr" "IsValid (Addr4 w)" "IsValid (Addr6 v)"
  by (simp_all add: IsValid_def)

lemma less_Addr_simps [simp]:
  "Addr4 v < Addr4 w \<longleftrightarrow> v < w" "Addr6 x < Addr6 y \<longleftrightarrow> x < y"
  "Addr4 v < Addr6 x" "\<not> Addr6 x < Addr4 v" "NoAddr < Addr4 v" "NoAddr < Addr6 x"
  "\<not> a < NoAddr"
  by (cases a; simp add: less_Addr_def word_less_nat_alt)+

lemma less_eq_Addr_simps [simp]:
  "Addr4 v \<le> Addr4 w \<longleftrightarrow> v \<le> w" "Addr6 x \<le> Addr6 y \<longleftrightarrow> x \<le> y"
  "Addr4 v \<le> Addr6 x" "\<not> Addr6 x \<le> Addr4 v" "NoAddr \<le> a"
  by (simp_all add: less_eq_Addr_def word_le_nat_alt) (cases a; simp)

lemma word_succ_gt: "w \<noteq> - 1 \<Longrightarrow> (w :: 'a::len word) < w + 1"
  using unatSuc [of w] by (auto simp: word_less_nat_alt add.commute eq_neg_iff_add_eq_0)

lemma Next_above: "addr_Next a \<noteq> NoAddr \<Longrightarrow> a < addr_Next a"
  by (cases a) (auto split: if_splits intro: word_succ_gt)

lemma Next_Prev: "addr_Prev a \<noteq> NoAddr \<Longrightarrow> addr_Next (addr_Prev a) = a"
  by (cases a) (auto split: if_splits)

lemma Next_below_last:
  assumes "a < b" and "addr_BitLen a = addr_BitLen b"
  shows "addr_Next a \<noteq> NoAddr \<and> addr_Next a \<le> b \<and> addr_BitLen (addr_Next a) = addr_BitLen b"
  using assms
  by (cases a; cases b)
     (auto simp: inc_le dest: less_le_trans [OF _ word_order.extremum])


lemma word_succ_val: "(w :: 'a::len word) + 1 \<noteq> 0 \<Longrightarrow> unat (w + 1) = Suc (unat w)"
  using unatSuc [of w] by (simp add: add.commute)

lemma Next_val: "addr_Next a \<noteq> NoAddr \<Longrightarrow>
    addr_val (addr_Next a) = Suc (addr_val a) \<and> addr_BitLen (addr_Next a) = addr_BitLen a"
  by (cases a) (auto split: if_splits simp: word_succ_val eq_neg_iff_add_eq_0)

lemma less_same_length: "addr_BitLen a = addr_BitLen b \<Longrightarrow> a < b \<longleftrightarrow> addr_val a < addr_val b"
  by (simp add: less_Addr_def)

lemma less_eq_same_length: "addr_BitLen a = addr_BitLen b \<Longrightarrow> a \<le> b \<longleftrightarrow> addr_val a \<le> addr_val b"
  by (simp add: less_eq_Addr_def)

lemma between_same_length: "a \<le> b \<Longrightarrow> b < c \<Longrightarrow> addr_BitLen a = addr_BitLen c \<Longrightarrow> addr_BitLen b = addr_BitLen c"
  by (auto simp: less_Addr_def less_eq_Addr_def)

end
