(* ===== verification/FakeIp.thy ===== *)
theory FakeIp
  imports Lru NetAddr GoStd
begin

text \<open>
  The fake addresses of the DNS server (\<open>component/fakeip/pool.go\<close>, \<open>memory.go\<close>): a pool hands an
  address of its range to each host name and finds the name again when a connection to the
  address arrives. The pool works on a store behind an interface; \<open>fake_store\<close> states what the
  pool needs of it, and the store in memory, a pair of LRU caches, provides it. The store in the
  cache file (bbolt) is not modelled. The caches have no maximal age, so no clock is read.
\<close>

section \<open>The interface of a store\<close>

record 's store =
  st_GetByHost :: "string \<Rightarrow> 's \<Rightarrow> Addr option \<times> 's"
  st_PutByHost :: "string \<Rightarrow> Addr \<Rightarrow> 's \<Rightarrow> 's"
  st_GetByIP :: "Addr \<Rightarrow> 's \<Rightarrow> string option \<times> 's"
  st_PutByIP :: "Addr \<Rightarrow> string \<Rightarrow> 's \<Rightarrow> 's"
  st_DelByIP :: "Addr \<Rightarrow> 's \<Rightarrow> 's"
  st_Exist :: "Addr \<Rightarrow> 's \<Rightarrow> bool"
  st_CloneTo :: "'s \<Rightarrow> 's \<Rightarrow> 's"
  st_FlushFakeIP :: "'s \<Rightarrow> string option \<times> 's"
  st_isCachefile :: bool

section \<open>The pool\<close>

record 's Pool =
  po_gateway :: Addr
  po_first :: Addr
  po_last :: Addr
  po_offset :: Addr
  po_cycle :: bool
  po_ipnet :: Prefix
  po_store :: 's

definition offsetKey :: string where "offsetKey = ''key-offset-fake-ip''"
definition cycleKey :: string where "cycleKey = ''key-cycle-fake-ip''"

definition pool_get :: "'s store \<Rightarrow> string \<Rightarrow> 's Pool \<Rightarrow> Addr \<times> 's Pool" where
  "pool_get m host p =
     (let off = addr_Next (po_offset p);
          p1 = (if \<not> off < po_last p then p\<lparr>po_cycle := True, po_offset := po_first p\<rparr>
                else p\<lparr>po_offset := off\<rparr>);
          s = po_store p1;
          s1 = (if po_cycle p1 \<or> st_Exist m (po_offset p1) s then st_DelByIP m (po_offset p1) s else s)
      in (po_offset p1, p1\<lparr>po_store := st_PutByIP m (po_offset p1) host s1\<rparr>))"

definition Lookup :: "(string \<Rightarrow> string) \<Rightarrow> 's store \<Rightarrow> string \<Rightarrow> 's Pool \<Rightarrow> Addr \<times> 's Pool" where
  "Lookup uni m host0 p =
     (let host = to_lower uni host0
      in case st_GetByHost m host (po_store p) of
           (Some ip, s) \<Rightarrow> (ip, p\<lparr>po_store := s\<rparr>)
         | (None, s) \<Rightarrow>
             (let (ip, p1) = pool_get m host (p\<lparr>po_store := s\<rparr>)
              in (ip, p1\<lparr>po_store := st_PutByHost m host ip (po_store p1)\<rparr>)))"

definition LookBack :: "'s store \<Rightarrow> Addr \<Rightarrow> 's Pool \<Rightarrow> string option \<times> 's Pool" where
  "LookBack m ip p = (let (h, s) = st_GetByIP m ip (po_store p) in (h, p\<lparr>po_store := s\<rparr>))"

definition pool_Exist :: "'s store \<Rightarrow> Addr \<Rightarrow> 's Pool \<Rightarrow> bool" where
  "pool_Exist m ip p = st_Exist m ip (po_store p)"

definition Broadcast :: "'s Pool \<Rightarrow> Addr" where
  "Broadcast p = po_last p"

definition CloneFrom :: "'s store \<Rightarrow> 's Pool \<Rightarrow> 's Pool \<Rightarrow> 's Pool" where
  "CloneFrom m p q = p\<lparr>po_store := st_CloneTo m (po_store q) (po_store p)\<rparr>"

definition FlushFakeIP :: "'s store \<Rightarrow> 's Pool \<Rightarrow> string option \<times> 's Pool" where
  "FlushFakeIP m p =
     (case st_FlushFakeIP m (po_store p) of
        (None, s) \<Rightarrow> (None, p\<lparr>po_store := s, po_cycle := False, po_offset := addr_Prev (po_first p)\<rparr>)
      | (Some err, s) \<Rightarrow> (Some err, p\<lparr>po_store := s\<rparr>))"

definition StoreState :: "'s store \<Rightarrow> 's Pool \<Rightarrow> 's Pool" where
  "StoreState m p =
     (if st_isCachefile m then
        let s1 = st_PutByHost m offsetKey (po_offset p) (po_store p);
            s2 = (if po_cycle p then st_PutByHost m cycleKey (po_offset p) s1 else s1)
        in p\<lparr>po_store := s2\<rparr>
      else p)"

definition restoreState :: "'s store \<Rightarrow> 's Pool \<Rightarrow> 's Pool" where
  "restoreState m p =
     (if st_isCachefile m then
        let (c, s1) = st_GetByHost m cycleKey (po_store p);
            p1 = p\<lparr>po_store := s1, po_cycle := po_cycle p \<or> c \<noteq> None\<rparr>;
            (off, s2) = st_GetByHost m offsetKey (po_store p1);
            p2 = p1\<lparr>po_store := s2\<rparr>
        in (case off of
              Some ip \<Rightarrow> if Contains (po_ipnet p2) ip then p2\<lparr>po_offset := ip\<rparr> else snd (FlushFakeIP m p2)
            | None \<Rightarrow> if st_Exist m (po_first p2) (po_store p2) then snd (FlushFakeIP m p2) else p2)
      else p)"

text \<open>The last address of the range comes from a library outside the repository (\<open>netipx\<close>).\<close>

definition pool_New :: "(Prefix \<Rightarrow> Addr) \<Rightarrow> 's store \<Rightarrow> 's \<Rightarrow> Prefix \<Rightarrow> string + 's Pool" where
  "pool_New lastIP m newStore ipnet =
     (let hostAddr = (if prefix_valid ipnet then Masked (px_addr ipnet) (px_bits ipnet) else NoAddr);
          gateway = addr_Next hostAddr;
          first = addr_Next (addr_Next (addr_Next gateway));
          lst = lastIP ipnet
      in if \<not> prefix_valid ipnet \<or> \<not> IsValid first \<or> \<not> first < lst
         then Inl ''ipnet don't have valid ip''
         else Inr (restoreState m \<lparr>po_gateway = gateway, po_first = first, po_last = lst,
                     po_offset = addr_Prev first, po_cycle = False, po_ipnet = ipnet,
                     po_store = newStore\<rparr>))"

section \<open>The store in memory\<close>

record memoryStore =
  ms_cacheIP :: "(string, Addr) LruCache"
  ms_cacheHost :: "(Addr, string) LruCache"

definition mem_GetByHost :: "string \<Rightarrow> memoryStore \<Rightarrow> Addr option \<times> memoryStore" where
  "mem_GetByHost host s =
     (case lru_Get 0 0 host (ms_cacheIP s) of
        (Some ip, ci) \<Rightarrow>
          (Some ip, s\<lparr>ms_cacheIP := ci, ms_cacheHost := snd (lru_Get 0 0 ip (ms_cacheHost s))\<rparr>)
      | (None, ci) \<Rightarrow> (None, s\<lparr>ms_cacheIP := ci\<rparr>))"

definition mem_PutByHost :: "string \<Rightarrow> Addr \<Rightarrow> memoryStore \<Rightarrow> memoryStore" where
  "mem_PutByHost host ip s = s\<lparr>ms_cacheIP := lru_set 0 0 host ip (ms_cacheIP s)\<rparr>"

definition mem_GetByIP :: "Addr \<Rightarrow> memoryStore \<Rightarrow> string option \<times> memoryStore" where
  "mem_GetByIP ip s =
     (case lru_Get 0 0 ip (ms_cacheHost s) of
        (Some host, ch) \<Rightarrow>
          (Some host, s\<lparr>ms_cacheHost := ch, ms_cacheIP := snd (lru_Get 0 0 host (ms_cacheIP s))\<rparr>)
      | (None, ch) \<Rightarrow> (None, s\<lparr>ms_cacheHost := ch\<rparr>))"

definition mem_PutByIP :: "Addr \<Rightarrow> string \<Rightarrow> memoryStore \<Rightarrow> memoryStore" where
  "mem_PutByIP ip host s = s\<lparr>ms_cacheHost := lru_set 0 0 ip host (ms_cacheHost s)\<rparr>"

definition mem_DelByIP :: "Addr \<Rightarrow> memoryStore \<Rightarrow> memoryStore" where
  "mem_DelByIP ip s =
     (let (found, ch) = lru_Get 0 0 ip (ms_cacheHost s);
          s1 = s\<lparr>ms_cacheHost := ch\<rparr>;
          s2 = (case found of
                  Some host \<Rightarrow> s1\<lparr>ms_cacheIP := lru_delete host (ms_cacheIP s1)\<rparr> | None \<Rightarrow> s1)
      in s2\<lparr>ms_cacheHost := lru_delete ip (ms_cacheHost s2)\<rparr>)"

definition mem_Exist :: "Addr \<Rightarrow> memoryStore \<Rightarrow> bool" where
  "mem_Exist ip s = lru_Exist ip (ms_cacheHost s)"

definition mem_CloneTo :: "memoryStore \<Rightarrow> memoryStore \<Rightarrow> memoryStore" where
  "mem_CloneTo s n = n\<lparr>ms_cacheIP := lru_CloneTo (ms_cacheIP s) (ms_cacheIP n),
                       ms_cacheHost := lru_CloneTo (ms_cacheHost s) (ms_cacheHost n)\<rparr>"

definition mem_FlushFakeIP :: "memoryStore \<Rightarrow> string option \<times> memoryStore" where
  "mem_FlushFakeIP s =
     (None, s\<lparr>ms_cacheIP := lru_clear (ms_cacheIP s), ms_cacheHost := lru_clear (ms_cacheHost s)\<rparr>)"

definition newMemoryStore :: "int \<Rightarrow> memoryStore" where
  "newMemoryStore sz =
     \<lparr>ms_cacheIP = lru_new 0 sz False False False, ms_cacheHost = lru_new 0 sz False False False\<rparr>"

definition memory :: "memoryStore store" where
  "memory = \<lparr>st_GetByHost = mem_GetByHost, st_PutByHost = mem_PutByHost, st_GetByIP = mem_GetByIP,
     st_PutByIP = mem_PutByIP, st_DelByIP = mem_DelByIP, st_Exist = mem_Exist,
     st_CloneTo = mem_CloneTo, st_FlushFakeIP = mem_FlushFakeIP, st_isCachefile = False\<rparr>"

section \<open>What the pool needs of a store\<close>

text \<open>
  A store is a partial one-to-one map between hosts and addresses. Storing a new pair may drop
  old pairs (the store in memory is bounded) but never the new one.
\<close>

locale fake_store =
  fixes m :: "'s store"
    and good :: "'s \<Rightarrow> bool"
    and host_addr :: "'s \<Rightarrow> string \<Rightarrow> Addr option"
    and addr_host :: "'s \<Rightarrow> Addr \<Rightarrow> string option"
  assumes mirrored: "good s \<Longrightarrow> host_addr s h = Some ip \<longleftrightarrow> addr_host s ip = Some h"
    and get_by_host: "good s \<Longrightarrow> st_GetByHost m h s = (r, s') \<Longrightarrow>
      good s' \<and> r = host_addr s h \<and> host_addr s' = host_addr s"
    and get_by_ip: "good s \<Longrightarrow> st_GetByIP m ip s = (q, s') \<Longrightarrow>
      good s' \<and> q = addr_host s ip \<and> host_addr s' = host_addr s"
    and exist_iff: "good s \<Longrightarrow> st_Exist m ip s \<longleftrightarrow> addr_host s ip \<noteq> None"
    and del_by_ip: "good s \<Longrightarrow> good (st_DelByIP m ip s) \<and>
      host_addr (st_DelByIP m ip s) h = (if host_addr s h = Some ip then None else host_addr s h)"
    and put_new: "good s \<Longrightarrow> host_addr s h = None \<Longrightarrow> addr_host s ip = None \<Longrightarrow>
      s' = st_PutByHost m h ip (st_PutByIP m ip h s) \<Longrightarrow>
      good s' \<and> host_addr s' h = Some ip \<and>
      (\<forall>h' ip'. host_addr s' h' = Some ip' \<longrightarrow> h' = h \<and> ip' = ip \<or> host_addr s h' = Some ip')"
    and flush: "good s \<Longrightarrow> st_FlushFakeIP m s = (None, s') \<Longrightarrow> good s' \<and> host_addr s' h = None"
begin

definition held_store :: "'s Pool \<Rightarrow> bool" where
  "held_store p = good (po_store p)"

text \<open>Two names never share an address.\<close>

lemma one_host_each:
  assumes "held_store p" and "host_addr (po_store p) h = Some ip" and "host_addr (po_store p) h' = Some ip"
  shows "h = h'"
  using assms mirrored [of "po_store p"] by (auto simp: held_store_def)

lemma look_back:
  assumes "held_store p" and "host_addr (po_store p) h = Some ip"
  shows "fst (LookBack m ip p) = Some h"
  using assms mirrored [of "po_store p" h ip] get_by_ip [of "po_store p" ip]
  by (auto simp: LookBack_def held_store_def split: prod.splits)

lemma look_back_keeps:
  assumes "held_store p"
  shows "held_store (snd (LookBack m ip p)) \<and>
    host_addr (po_store (snd (LookBack m ip p))) = host_addr (po_store p)"
  using assms get_by_ip [of "po_store p" ip]
  by (auto simp: LookBack_def held_store_def split: prod.splits)

text \<open>A look-up: the pool stays good, the name has the address, and every other pair is old.\<close>

lemma lookup_spec:
  assumes "held_store p" and "Lookup uni m host p = (ip, p')"
  shows "held_store p' \<and> host_addr (po_store p') (to_lower uni host) = Some ip \<and>
    (\<forall>h' ip'. host_addr (po_store p') h' = Some ip' \<longrightarrow>
       h' = to_lower uni host \<and> ip' = ip \<or> host_addr (po_store p) h' = Some ip') \<and>
    (host_addr (po_store p) (to_lower uni host) = Some ip \<or>
     host_addr (po_store p) (to_lower uni host) = None \<and> ip = po_offset p')"
proof -
  let ?h = "to_lower uni host"
  obtain r s where g: "st_GetByHost m ?h (po_store p) = (r, s)" by (rule prod.exhaust)
  have s: "good s" "r = host_addr (po_store p) ?h" "host_addr s = host_addr (po_store p)"
    using get_by_host [OF _ g] assms(1) by (auto simp: held_store_def)
  show ?thesis
  proof (cases r)
    case (Some a)
    with g assms(2) have "ip = a" "p' = p\<lparr>po_store := s\<rparr>" by (auto simp: Lookup_def)
    with s Some show ?thesis by (auto simp: held_store_def)
  next
    case None
    obtain a p1 where pg: "pool_get m ?h (p\<lparr>po_store := s\<rparr>) = (a, p1)" by (rule prod.exhaust)
    with g None assms(2) have res: "ip = a" "p' = p1\<lparr>po_store := st_PutByHost m ?h a (po_store p1)\<rparr>"
      by (auto simp: Lookup_def)
    obtain s1 where s1: "po_store p1 = st_PutByIP m a ?h s1" "po_offset p1 = a"
      "s1 = s \<and> \<not> st_Exist m a s \<or> s1 = st_DelByIP m a s"
      using pg by (auto simp: pool_get_def Let_def split: if_splits)
    have free: "good s1 \<and> host_addr s1 ?h = None \<and> addr_host s1 a = None \<and>
        (\<forall>h' ip'. host_addr s1 h' = Some ip' \<longrightarrow> host_addr s h' = Some ip')"
      using s1(3)
    proof
      assume "s1 = s \<and> \<not> st_Exist m a s"
      with s None exist_iff [OF s(1)] show ?thesis by auto
    next
      assume d: "s1 = st_DelByIP m a s"
      note del = del_by_ip [OF s(1), of a, folded d]
      have "addr_host s1 a = None"
        using del mirrored [of s1] by (metis not_Some_eq option.inject)
      with del s None show ?thesis by (auto split: if_splits)
    qed
    then show ?thesis
      using put_new [of s1 ?h a, OF _ _ _ refl] s None by (auto simp: res s1 held_store_def)
  qed
qed

lemma flush_empties:
  assumes "held_store p" and "FlushFakeIP m p = (None, p')"
  shows "held_store p' \<and> host_addr (po_store p') h = None \<and> po_offset p' = addr_Prev (po_first p')"
  using assms flush [of "po_store p"]
  by (auto simp: FlushFakeIP_def held_store_def split: prod.splits option.splits)

end

end
