(* ===== verification/FakeIpProps.thy ===== *)
theory FakeIpProps
  imports FakeIp
begin

text \<open>
  The store in memory provides the interface of the pool: its two caches hold the same pairs, each
  the other way round and in the same order of use, so they always evict the same pair. From the
  interface follow the properties of the pool; those that need the order of use are proved on the
  store in memory.
\<close>

section \<open>The store in memory is a one-to-one map\<close>

definition flip :: "('a \<times> 'b) list \<Rightarrow> ('b \<times> 'a) list" where
  "flip ps = map (\<lambda>p. (snd p, fst p)) ps"

definition mem_pairs :: "memoryStore \<Rightarrow> (string \<times> Addr) list" where
  "mem_pairs s = pairs (ms_cacheIP s)"

definition mem_good :: "memoryStore \<Rightarrow> bool" where
  "mem_good s = (ageless_ok (ms_cacheIP s) \<and> ageless_ok (ms_cacheHost s) \<and>
     lc_maxSize (ms_cacheIP s) = lc_maxSize (ms_cacheHost s) \<and>
     pairs (ms_cacheHost s) = flip (mem_pairs s))"

definition mem_host_addr :: "memoryStore \<Rightarrow> string \<Rightarrow> Addr option" where
  "mem_host_addr s h = map_of (mem_pairs s) h"

definition mem_addr_host :: "memoryStore \<Rightarrow> Addr \<Rightarrow> string option" where
  "mem_addr_host s ip = map_of (flip (mem_pairs s)) ip"

lemma flip_simps [simp]:
  "flip [] = []" "flip (p # ps) = (snd p, fst p) # flip ps" "flip (ps @ qs) = flip ps @ flip qs"
  "length (flip ps) = length ps" "map fst (flip ps) = map snd ps" "flip (tl ps) = tl (flip ps)"
  by (simp_all add: flip_def map_tl)

lemma in_flip: "(b, a) \<in> set (flip ps) \<longleftrightarrow> (a, b) \<in> set ps"
  by (force simp: flip_def)

lemma trim_flip: "flip (trim n ps) = trim n (flip ps)"
  by (simp add: trim_def)

lemma mem_pairs_distinct:
  assumes "mem_good s"
  shows "distinct (map fst (mem_pairs s))" and "distinct (map snd (mem_pairs s))"
  using assms pairs_distinct [of "ms_cacheIP s"] pairs_distinct [of "ms_cacheHost s"]
  by (simp_all add: mem_good_def mem_pairs_def)

lemma mem_mirrored:
  assumes "mem_good s"
  shows "mem_host_addr s h = Some ip \<longleftrightarrow> mem_addr_host s ip = Some h"
  using mem_pairs_distinct [OF assms]
  by (simp add: mem_host_addr_def mem_addr_host_def map_of_eq_Some_iff in_flip)

text \<open>Taking a pair out by its name and by its address is the same.\<close>

lemma without_flip:
  assumes "distinct (map fst ps)" and "distinct (map snd ps)" and "(h, ip) \<in> set ps"
  shows "flip (without h ps) = without ip (flip ps)"
proof -
  have "fst p = h \<longleftrightarrow> snd p = ip" if "p \<in> set ps" for p
  proof -
    have "(ip, h) \<in> set (flip ps)" "(snd p, fst p) \<in> set (flip ps)" "(fst p, snd p) \<in> set ps"
      using assms(3) that by (simp_all add: in_flip)
    with assms eq_key_imp_eq_value [of ps] eq_key_imp_eq_value [of "flip ps"] show ?thesis
      by (metis flip_simps(5))
  qed
  then have "filter (\<lambda>p. fst p \<noteq> h) ps = filter (\<lambda>p. snd p \<noteq> ip) ps"
    by (intro filter_cong) auto
  then show ?thesis by (simp add: without_def flip_def filter_map o_def)
qed

lemma map_of_without: "map_of (without k ps) x = (if x = k then None else map_of ps x)"
  by (induction ps) (auto simp: without_def)

lemma map_of_use_again:
  assumes "map_of ps k = Some v"
  shows "map_of (without k ps @ [(k, v)]) = map_of ps"
  using assms by (auto simp: map_of_without map_add_def fun_eq_iff split: option.splits)

lemma mem_new_good: "mem_good (newMemoryStore n)" "mem_pairs (newMemoryStore n) = []"
  "lc_maxSize (ms_cacheIP (newMemoryStore n)) = n"
  by (simp_all add: mem_good_def newMemoryStore_def mem_pairs_def) (simp_all add: lru_new_def)

text \<open>Using a pair again moves it to the back of both caches.\<close>

definition mem_used :: "string \<Rightarrow> memoryStore \<Rightarrow> (string \<times> Addr) list" where
  "mem_used h s =
     (case mem_host_addr s h of None \<Rightarrow> mem_pairs s | Some ip \<Rightarrow> without h (mem_pairs s) @ [(h, ip)])"

lemma mem_get_by_host:
  assumes "mem_good s" and "mem_GetByHost h s = (r, s')"
  shows "mem_good s' \<and> r = mem_host_addr s h \<and> mem_pairs s' = mem_used h s \<and>
    lc_maxSize (ms_cacheIP s') = lc_maxSize (ms_cacheIP s)"
proof -
  obtain q ci where g: "lru_Get 0 0 h (ms_cacheIP s) = (q, ci)" by (rule prod.exhaust)
  note a = ageless_get [OF _ g]
  show ?thesis
  proof (cases q)
    case None
    with assms a g show ?thesis
      by (auto simp: mem_good_def mem_GetByHost_def mem_host_addr_def mem_pairs_def mem_used_def)
  next
    case (Some ip)
    obtain q2 ch where g2: "lru_Get 0 0 ip (ms_cacheHost s) = (q2, ch)" by (rule prod.exhaust)
    have h: "mem_host_addr s h = Some ip"
      using a assms(1) Some by (auto simp: mem_good_def mem_host_addr_def mem_pairs_def)
    then have m: "(h, ip) \<in> set (mem_pairs s)" by (simp add: mem_host_addr_def map_of_SomeD)
    have i: "mem_addr_host s ip = Some h" using h mem_mirrored [OF assms(1)] by simp
    have s': "s' = s\<lparr>ms_cacheIP := ci, ms_cacheHost := ch\<rparr>" "r = Some ip"
      using assms(2) g g2 Some by (simp_all add: mem_GetByHost_def)
    have g1: "ageless_ok ci \<and> lc_maxSize ci = lc_maxSize (ms_cacheIP s) \<and>
        pairs ci = without h (mem_pairs s) @ [(h, ip)]"
      and g2': "ageless_ok ch \<and> lc_maxSize ch = lc_maxSize (ms_cacheHost s) \<and>
        pairs ch = without ip (flip (mem_pairs s)) @ [(ip, h)]"
      using ageless_get [OF _ g] ageless_get [OF _ g2] assms(1) h i
      by (auto simp: mem_good_def mem_pairs_def mem_host_addr_def mem_addr_host_def)
    have u: "mem_used h s = without h (mem_pairs s) @ [(h, ip)]" by (simp add: mem_used_def h)
    show ?thesis
      using g1 g2' u h i assms(1) without_flip [OF mem_pairs_distinct [OF assms(1)] m]
      by (simp add: s' mem_good_def) (simp add: mem_pairs_def)
  qed
qed

lemma mem_get_by_ip:
  assumes "mem_good s" and "mem_GetByIP ip s = (r, s')"
  shows "mem_good s' \<and> r = mem_addr_host s ip \<and>
    mem_pairs s' = (case r of None \<Rightarrow> mem_pairs s | Some h \<Rightarrow> mem_used h s) \<and>
    lc_maxSize (ms_cacheIP s') = lc_maxSize (ms_cacheIP s)"
proof -
  obtain q ch where g: "lru_Get 0 0 ip (ms_cacheHost s) = (q, ch)" by (rule prod.exhaust)
  note a = ageless_get [OF _ g]
  show ?thesis
  proof (cases q)
    case None
    with assms a g show ?thesis
      by (auto simp: mem_good_def mem_GetByIP_def mem_addr_host_def mem_pairs_def)
  next
    case (Some h)
    obtain q2 ci where g2: "lru_Get 0 0 h (ms_cacheIP s) = (q2, ci)" by (rule prod.exhaust)
    have i: "mem_addr_host s ip = Some h"
      using a assms(1) Some by (auto simp: mem_good_def mem_addr_host_def mem_pairs_def)
    then have h: "mem_host_addr s h = Some ip" using mem_mirrored [OF assms(1)] by simp
    then have m: "(h, ip) \<in> set (mem_pairs s)" by (simp add: mem_host_addr_def map_of_SomeD)
    have s': "s' = s\<lparr>ms_cacheHost := ch, ms_cacheIP := ci\<rparr>" "r = Some h"
      using assms(2) g g2 Some by (simp_all add: mem_GetByIP_def)
    have g1: "ageless_ok ci \<and> lc_maxSize ci = lc_maxSize (ms_cacheIP s) \<and>
        pairs ci = without h (mem_pairs s) @ [(h, ip)]"
      and g2': "ageless_ok ch \<and> lc_maxSize ch = lc_maxSize (ms_cacheHost s) \<and>
        pairs ch = without ip (flip (mem_pairs s)) @ [(ip, h)]"
      using ageless_get [OF _ g] ageless_get [OF _ g2] assms(1) h i
      by (auto simp: mem_good_def mem_pairs_def mem_host_addr_def mem_addr_host_def)
    have u: "mem_used h s = without h (mem_pairs s) @ [(h, ip)]" by (simp add: mem_used_def h)
    show ?thesis
      using g1 g2' u h i assms(1) without_flip [OF mem_pairs_distinct [OF assms(1)] m]
      by (simp add: s' mem_good_def) (simp add: mem_pairs_def)
  qed
qed

lemma mem_exist: "mem_good s \<Longrightarrow> mem_Exist ip s \<longleftrightarrow> mem_addr_host s ip \<noteq> None"
  by (simp add: mem_Exist_def ageless_exist mem_good_def mem_addr_host_def)


lemma without_absent: "map_of ps k = None \<Longrightarrow> without k ps = ps"
  by (induction ps) (auto simp: without_def split: if_splits)

lemma without_idem: "without k (without k ps @ [(k, v)]) = without k ps"
  by (simp add: without_def)

lemma mem_del:
  assumes "mem_good s"
  shows "mem_good (mem_DelByIP ip s) \<and>
    lc_maxSize (ms_cacheIP (mem_DelByIP ip s)) = lc_maxSize (ms_cacheIP s) \<and>
    mem_pairs (mem_DelByIP ip s) =
      (case mem_addr_host s ip of None \<Rightarrow> mem_pairs s | Some h \<Rightarrow> without h (mem_pairs s))"
proof -
  obtain q ch where g: "lru_Get 0 0 ip (ms_cacheHost s) = (q, ch)" by (rule prod.exhaust)
  have a: "ageless_ok ch" "lc_maxSize ch = lc_maxSize (ms_cacheHost s)" "q = mem_addr_host s ip"
    "pairs ch = (case q of None \<Rightarrow> flip (mem_pairs s)
                 | Some h \<Rightarrow> without ip (flip (mem_pairs s)) @ [(ip, h)])"
    using ageless_get [OF _ g] assms
    by (auto simp: mem_good_def mem_addr_host_def split: option.splits)
  note d = ageless_delete [OF a(1), of ip]
  show ?thesis
  proof (cases q)
    case None
    then have "without ip (flip (mem_pairs s)) = flip (mem_pairs s)"
      using a(3) by (simp add: mem_addr_host_def without_absent)
    with None a d g assms show ?thesis
      by (simp add: mem_DelByIP_def mem_good_def mem_pairs_def)
  next
    case (Some h)
    then have h: "mem_addr_host s ip = Some h" using a(3) by simp
    then have m: "(h, ip) \<in> set (mem_pairs s)"
      using mem_mirrored [OF assms, of h ip] by (simp add: mem_host_addr_def map_of_SomeD)
    have s': "mem_DelByIP ip s = s\<lparr>ms_cacheIP := lru_delete h (ms_cacheIP s),
        ms_cacheHost := lru_delete ip ch\<rparr>"
      by (simp add: mem_DelByIP_def g Some)
    have "ageless_ok (ms_cacheIP s)" using assms by (simp add: mem_good_def)
    from ageless_delete [OF this, of h] d a(1,2,4) Some h assms
      without_flip [OF mem_pairs_distinct [OF assms] m]
    show ?thesis by (simp add: s' mem_good_def without_idem) (simp add: mem_pairs_def)
  qed
qed

lemma mem_put:
  assumes "mem_good s" and "mem_host_addr s h = None" and "mem_addr_host s ip = None"
    and "s' = mem_PutByHost h ip (mem_PutByIP ip h s)"
  shows "mem_good s' \<and> lc_maxSize (ms_cacheIP s') = lc_maxSize (ms_cacheIP s) \<and>
    mem_pairs s' = trim (lc_maxSize (ms_cacheIP s)) (mem_pairs s @ [(h, ip)])"
proof -
  have ok: "ageless_ok (ms_cacheIP s)" "ageless_ok (ms_cacheHost s)"
    using assms(1) by (simp_all add: mem_good_def)
  have s': "s' = s\<lparr>ms_cacheIP := lru_set 0 0 h ip (ms_cacheIP s),
      ms_cacheHost := lru_set 0 0 ip h (ms_cacheHost s)\<rparr>"
    by (simp add: assms(4) mem_PutByHost_def mem_PutByIP_def)
  show ?thesis
    using ageless_set [OF ok(1), of 0 0 h ip] ageless_set [OF ok(2), of 0 0 ip h] assms(1-3)
    by (simp add: s' mem_good_def mem_pairs_def mem_host_addr_def mem_addr_host_def trim_flip)
qed

lemma trim_last: "x \<in> set (trim n (ps @ [x]))"
  by (cases ps) (auto simp: trim_def)

lemma trim_subset: "set (trim n ps) \<subseteq> set ps"
  by (cases ps) (auto simp: trim_def)

lemma mem_flush:
  assumes "mem_good s" and "mem_FlushFakeIP s = (r, s')"
  shows "mem_good s' \<and> mem_pairs s' = [] \<and> lc_maxSize (ms_cacheIP s') = lc_maxSize (ms_cacheIP s)"
proof -
  have s': "s' = s\<lparr>ms_cacheIP := lru_clear (ms_cacheIP s), ms_cacheHost := lru_clear (ms_cacheHost s)\<rparr>"
    using assms(2) by (simp add: mem_FlushFakeIP_def)
  have "ageless_ok (ms_cacheIP s)" "ageless_ok (ms_cacheHost s)"
    "lc_maxSize (ms_cacheIP s) = lc_maxSize (ms_cacheHost s)"
    using assms(1) by (simp_all add: mem_good_def)
  then show ?thesis
    using ageless_clear [of "ms_cacheIP s"] ageless_clear [of "ms_cacheHost s"]
    by (simp add: s' mem_good_def mem_pairs_def) (simp add: lru_clear_def)
qed

lemma mem_host_addr_iff:
  "mem_good s \<Longrightarrow> mem_host_addr s h = Some ip \<longleftrightarrow> (h, ip) \<in> set (mem_pairs s)"
  using mem_pairs_distinct [of s] by (simp add: mem_host_addr_def map_of_eq_Some_iff)

lemma mem_host_addr_None: "mem_host_addr s h = None \<longleftrightarrow> h \<notin> fst ` set (mem_pairs s)"
  by (simp add: mem_host_addr_def map_of_eq_None_iff)

lemma mem_used_same: "map_of (mem_used h s) = mem_host_addr s"
  using map_of_use_again [of "mem_pairs s" h]
  by (auto simp: mem_used_def mem_host_addr_def fun_eq_iff split: option.splits)

interpretation mem: fake_store memory mem_good mem_host_addr mem_addr_host
proof
  show "mem_good s \<Longrightarrow> mem_host_addr s h = Some ip \<longleftrightarrow> mem_addr_host s ip = Some h" for s h ip
    by (rule mem_mirrored)
  show "mem_good s' \<and> r = mem_host_addr s h \<and> mem_host_addr s' = mem_host_addr s"
    if "mem_good s" "st_GetByHost memory h s = (r, s')" for s h r s'
    using mem_get_by_host [of s h r s'] that mem_used_same [of h s]
    by (simp add: memory_def mem_host_addr_def fun_eq_iff)
  show "mem_good s' \<and> q = mem_addr_host s ip \<and> mem_host_addr s' = mem_host_addr s"
    if "mem_good s" "st_GetByIP memory ip s = (q, s')" for s ip q s'
    using mem_get_by_ip [of s ip q s'] that mem_used_same [of _ s]
    by (auto simp: memory_def mem_host_addr_def fun_eq_iff split: option.splits)
  show "mem_good s \<Longrightarrow> st_Exist memory ip s \<longleftrightarrow> mem_addr_host s ip \<noteq> None" for s ip
    by (simp add: memory_def mem_exist)
  show "mem_good (st_DelByIP memory ip s) \<and> mem_host_addr (st_DelByIP memory ip s) h =
      (if mem_host_addr s h = Some ip then None else mem_host_addr s h)" if "mem_good s" for s ip h
    using mem_del [OF that, of ip] mem_mirrored [OF that]
    by (auto simp: memory_def mem_host_addr_def map_of_without split: option.splits)
  show "mem_good s' \<and> mem_host_addr s' h = Some ip \<and>
      (\<forall>h' ip'. mem_host_addr s' h' = Some ip' \<longrightarrow> h' = h \<and> ip' = ip \<or> mem_host_addr s h' = Some ip')"
    if "mem_good s" "mem_host_addr s h = None" "mem_addr_host s ip = None"
      "s' = st_PutByHost memory h ip (st_PutByIP memory ip h s)" for s h ip s'
  proof -
    have "s' = mem_PutByHost h ip (mem_PutByIP ip h s)" using that(4) by (simp add: memory_def)
    note p = mem_put [OF that(1-3) this]
    with trim_last [of "(h, ip)"] trim_subset [of "lc_maxSize (ms_cacheIP s)" "mem_pairs s @ [(h, ip)]"]
    show ?thesis by (auto simp: mem_host_addr_iff that(1))
  qed
  show "mem_good s' \<and> mem_host_addr s' h = None"
    if "mem_good s" "st_FlushFakeIP memory s = (None, s')" for s s' h
    using mem_flush [of s None s'] that by (simp add: memory_def mem_host_addr_def)
qed


section \<open>The addresses handed out\<close>

text \<open>The address a pool will give to the next new name.\<close>

definition next_addr :: "'s Pool \<Rightarrow> Addr" where
  "next_addr p = (if addr_Next (po_offset p) < po_last p then addr_Next (po_offset p) else po_first p)"

definition span_ok :: "'s Pool \<Rightarrow> bool" where
  "span_ok p = (po_first p < po_last p \<and> addr_BitLen (po_first p) = addr_BitLen (po_last p) \<and>
     addr_Prev (po_first p) \<noteq> NoAddr \<and>
     (po_offset p = addr_Prev (po_first p) \<or> po_first p \<le> po_offset p \<and> po_offset p < po_last p))"

definition pool_inv :: "memoryStore Pool \<Rightarrow> bool" where
  "pool_inv p = (span_ok p \<and> mem_good (po_store p) \<and>
     (\<forall>(h, ip) \<in> set (mem_pairs (po_store p)). po_first p \<le> ip \<and> ip < po_last p))"

definition pool_fixed :: "'s Pool \<Rightarrow> 's Pool \<Rightarrow> bool" where
  "pool_fixed p p' = (po_first p' = po_first p \<and> po_last p' = po_last p \<and>
     po_gateway p' = po_gateway p \<and> po_ipnet p' = po_ipnet p)"

lemma next_addr_range:
  assumes "span_ok p"
  shows "po_first p \<le> next_addr p \<and> next_addr p < po_last p"
proof (cases "po_offset p = addr_Prev (po_first p)")
  case True
  then have "addr_Next (po_offset p) = po_first p"
    using assms Next_Prev [of "po_first p"] by (simp add: span_ok_def)
  with assms show ?thesis by (simp add: next_addr_def span_ok_def)
next
  case False
  then have o: "po_first p \<le> po_offset p" "po_offset p < po_last p"
    using assms by (auto simp: span_ok_def)
  then have "addr_BitLen (po_offset p) = addr_BitLen (po_last p)"
    using assms between_same_length by (auto simp: span_ok_def)
  with o(2) have "addr_Next (po_offset p) \<noteq> NoAddr" using Next_below_last by blast
  then have "po_offset p < addr_Next (po_offset p)" by (rule Next_above)
  with o assms show ?thesis by (auto simp: next_addr_def span_ok_def)
qed

lemma next_addr_val:
  assumes "span_ok p" and "po_offset p \<noteq> addr_Prev (po_first p)"
  shows "addr_val (next_addr p) =
    (if Suc (addr_val (po_offset p)) < addr_val (po_last p) then Suc (addr_val (po_offset p))
     else addr_val (po_first p))"
proof -
  have o: "po_first p \<le> po_offset p" "po_offset p < po_last p"
    using assms by (auto simp: span_ok_def)
  then have l: "addr_BitLen (po_offset p) = addr_BitLen (po_last p)"
    using assms between_same_length by (auto simp: span_ok_def)
  with o(2) have "addr_Next (po_offset p) \<noteq> NoAddr" using Next_below_last by blast
  from Next_val [OF this] l show ?thesis by (simp add: next_addr_def less_same_length)
qed

text \<open>A look-up of a name without an address, on the store in memory.\<close>

lemma lookup_cases:
  assumes "pool_inv p" and "Lookup uni memory host p = (ip, p')"
  defines "h \<equiv> to_lower uni host" and "s \<equiv> po_store p"
  obtains (old) "mem_host_addr s h = Some ip" "mem_good (po_store p')"
      "mem_pairs (po_store p') = mem_used h s" "po_offset p' = po_offset p" "pool_fixed p p'"
      "lc_maxSize (ms_cacheIP (po_store p')) = lc_maxSize (ms_cacheIP s)"
  | (new) ps where "mem_host_addr s h = None" "ip = next_addr p" "po_offset p' = ip" "pool_fixed p p'"
      "mem_good (po_store p')"
      "ps = mem_pairs s \<or> (\<exists>h'. mem_addr_host s ip = Some h' \<and> ps = without h' (mem_pairs s))"
      "mem_pairs (po_store p') = trim (lc_maxSize (ms_cacheIP s)) (ps @ [(h, ip)])"
      "lc_maxSize (ms_cacheIP (po_store p')) = lc_maxSize (ms_cacheIP s)"
proof -
  have g: "mem_good s" and r: "span_ok p" using assms(1) by (simp_all add: pool_inv_def s_def)
  obtain q s1 where g1: "mem_GetByHost h s = (q, s1)" by (rule prod.exhaust)
  note got = mem_get_by_host [OF g g1]
  show thesis
  proof (cases q)
    case (Some a)
    have "ip = a" "p' = p\<lparr>po_store := s1\<rparr>"
      using assms(2) g1 Some by (simp_all add: Lookup_def memory_def h_def s_def)
    with got Some show thesis by (intro old) (simp_all add: pool_fixed_def)
  next
    case None
    let ?a = "next_addr p"
    have s1: "mem_pairs s1 = mem_pairs s" "mem_host_addr s1 h = None"
      using got None by (simp_all add: mem_used_def mem_host_addr_def)
    define s2 where "s2 = (if \<not> addr_Next (po_offset p) < po_last p \<or> po_cycle p \<or> mem_Exist ?a s1
      then mem_DelByIP ?a s1 else s1)"
    define s3 where "s3 = mem_PutByHost h ?a (mem_PutByIP ?a h s2)"
    have p': "ip = ?a" "po_store p' = s3" "po_offset p' = ?a" "pool_fixed p p'"
      using assms(2) g1 None
      by (auto simp: Lookup_def memory_def h_def s_def pool_get_def Let_def next_addr_def s2_def s3_def
          pool_fixed_def)
    have a1: "mem_addr_host s1 ?a = mem_addr_host s ?a"
      using s1(1) by (simp add: mem_addr_host_def)
    have s2: "mem_good s2" "mem_addr_host s2 ?a = None" "mem_host_addr s2 h = None"
      "lc_maxSize (ms_cacheIP s2) = lc_maxSize (ms_cacheIP s)"
      "mem_pairs s2 = mem_pairs s \<or>
        (\<exists>h'. mem_addr_host s ?a = Some h' \<and> mem_pairs s2 = without h' (mem_pairs s))"
    proof -
      have d: "mem_good s2 \<and> mem_addr_host s2 ?a = None \<and> mem_host_addr s2 h = None \<and>
        lc_maxSize (ms_cacheIP s2) = lc_maxSize (ms_cacheIP s) \<and>
        (mem_pairs s2 = mem_pairs s \<or>
          (\<exists>h'. mem_addr_host s ?a = Some h' \<and> mem_pairs s2 = without h' (mem_pairs s)))"
      proof (cases "mem_addr_host s1 ?a")
        case None
        with mem_del [of s1 ?a] got s1 a1 show ?thesis
          by (simp add: s2_def mem_exist mem_host_addr_def mem_addr_host_def)
      next
        case (Some h')
        then have s2': "s2 = mem_DelByIP ?a s1" using got by (simp add: s2_def mem_exist)
        note del = mem_del [of s1 ?a, folded s2'] mem.del_by_ip [of s1 ?a, folded s2']
        have "mem_good s2" using del(1) got by simp
        moreover have "mem_addr_host s2 ?a \<noteq> Some h''" for h''
          using mem_mirrored [OF \<open>mem_good s2\<close>, of h'' ?a] mem_mirrored [of s1 h'' ?a] del(2) got
          by (auto simp: s2' memory_def split: if_splits)
        moreover have a2: "mem_addr_host s ?a = Some h'" using Some a1 by simp
        moreover have "mem_pairs s2 = without h' (mem_pairs s)"
          using del(1) got(1) s1(1) Some by simp
        moreover have "mem_host_addr s2 h = None"
          using s1 calculation(4) by (simp add: mem_host_addr_def map_of_without)
        ultimately show ?thesis using del(1) got by auto
      qed
      then show "mem_good s2" "mem_addr_host s2 ?a = None" "mem_host_addr s2 h = None"
        "lc_maxSize (ms_cacheIP s2) = lc_maxSize (ms_cacheIP s)"
        "mem_pairs s2 = mem_pairs s \<or>
          (\<exists>h'. mem_addr_host s ?a = Some h' \<and> mem_pairs s2 = without h' (mem_pairs s))"
        by blast+
    qed
    note put = mem_put [OF s2(1,3,2) s3_def]
    show thesis
      by (rule new [of "mem_pairs s2"]) (use put s2 p' got None in \<open>simp_all\<close>)
  qed
qed


lemma set_without: "set (without k ps) = {p \<in> set ps. fst p \<noteq> k}"
  by (auto simp: without_def)

lemma set_mem_used: "mem_good s \<Longrightarrow> set (mem_used h s) = set (mem_pairs s)"
  using mem_host_addr_iff [of s h] mem_pairs_distinct(1) [of s]
  by (auto simp: mem_used_def set_without mem_host_addr_iff dest: eq_key_imp_eq_value split: option.splits)

lemma span_ok_step:
  assumes "span_ok p" and "pool_fixed p p'" and "po_offset p' = po_offset p \<or> po_offset p' = next_addr p"
  shows "span_ok p'"
  using assms next_addr_range [of p] by (auto simp: span_ok_def pool_fixed_def)

lemma lookup_keeps:
  assumes "pool_inv p" and "Lookup uni memory host p = (ip, p')"
  shows "pool_inv p' \<and> pool_fixed p p' \<and> po_first p \<le> ip \<and> ip < po_last p"
  using assms
proof (cases rule: lookup_cases)
  case old
  then have "(to_lower uni host, ip) \<in> set (mem_pairs (po_store p))"
    using assms(1) by (simp add: pool_inv_def mem_host_addr_iff)
  with old assms(1) span_ok_step [of p p'] show ?thesis
    by (auto simp: pool_inv_def set_mem_used pool_fixed_def)
next
  case (new ps)
  have r: "po_first p \<le> ip \<and> ip < po_last p"
    using assms(1) next_addr_range [of p] new(2) by (simp add: pool_inv_def)
  have "set (mem_pairs (po_store p')) \<subseteq> insert (to_lower uni host, ip) (set (mem_pairs (po_store p)))"
  proof -
    have "set ps \<subseteq> set (mem_pairs (po_store p))" using new(6) by (auto simp: set_without)
    moreover have "set (mem_pairs (po_store p')) \<subseteq> set (ps @ [(to_lower uni host, ip)])"
      unfolding new(7) by (rule trim_subset)
    ultimately show ?thesis by auto
  qed
  with new(2-5) r assms(1) span_ok_step [of p p'] show ?thesis
    by (fastforce simp: pool_inv_def pool_fixed_def)
qed

lemma look_back_inv:
  assumes "pool_inv p"
  shows "pool_inv (snd (LookBack memory ip p)) \<and> pool_fixed p (snd (LookBack memory ip p))"
proof -
  obtain r s where g: "mem_GetByIP ip (po_store p) = (r, s)" by (rule prod.exhaust)
  with assms mem_get_by_ip [OF _ g] show ?thesis
    by (auto simp: LookBack_def memory_def pool_inv_def set_mem_used span_ok_def pool_fixed_def
        split: option.splits)
qed

lemma flush_inv:
  assumes "pool_inv p"
  shows "pool_inv (snd (FlushFakeIP memory p)) \<and> pool_fixed p (snd (FlushFakeIP memory p))"
  using assms mem_flush [of "po_store p", OF _ surjective_pairing]
  by (auto simp: FlushFakeIP_def memory_def mem_FlushFakeIP_def pool_inv_def span_ok_def pool_fixed_def)

text \<open>A new pool, given what the library promises of the last address of a range.\<close>

lemma masked_length: "addr_BitLen (Masked a b) = addr_BitLen a"
  by (cases a) auto

lemma Prev_Next: "addr_Next a \<noteq> NoAddr \<Longrightarrow> addr_Prev (addr_Next a) = a"
  by (cases a) (auto split: if_splits simp: eq_neg_iff_add_eq_0)

lemma new_pool_inv:
  assumes "pool_New lastIP memory (newMemoryStore n) net = Inr p"
    and "addr_BitLen (lastIP net) = addr_BitLen (px_addr net)"
  shows "pool_inv p \<and> po_offset p = addr_Prev (po_first p) \<and> po_ipnet p = net \<and> po_last p = lastIP net \<and>
    lc_maxSize (ms_cacheIP (po_store p)) = n \<and> mem_pairs (po_store p) = []"
proof -
  let ?a = "addr_Next (addr_Next (Masked (px_addr net) (px_bits net)))"
  have p: "po_first p = addr_Next (addr_Next ?a)" "po_last p = lastIP net" "prefix_valid net"
    "IsValid (po_first p)" "po_first p < po_last p" "po_offset p = addr_Prev (po_first p)"
    "po_store p = newMemoryStore n" "po_ipnet p = net"
    using assms(1) by (auto simp: pool_New_def Let_def restoreState_def memory_def split: if_splits)
  have v: "addr_Next (addr_Next ?a) \<noteq> NoAddr" using p(1,4) by (simp add: IsValid_def)
  then have v1: "addr_Next ?a \<noteq> NoAddr" "?a \<noteq> NoAddr" "addr_Next (Masked (px_addr net) (px_bits net)) \<noteq> NoAddr"
    by auto
  have "addr_BitLen (po_first p) = addr_BitLen (po_last p)"
    using Next_val [OF v] Next_val [OF v1(1)] Next_val [OF v1(2)] Next_val [OF v1(3)] assms(2)
    by (simp add: p(1,2) masked_length)
  moreover have "addr_Prev (po_first p) \<noteq> NoAddr"
    using Prev_Next [OF v] v1 by (simp add: p(1))
  ultimately show ?thesis
    using p by (simp add: pool_inv_def span_ok_def mem_new_good)
qed

section \<open>Runs of a pool\<close>

inductive pool_step :: "memoryStore Pool \<Rightarrow> memoryStore Pool \<Rightarrow> bool" where
  lookup_step: "pool_step p (snd (Lookup uni memory host p))"
| look_back_step: "pool_step p (snd (LookBack memory ip p))"
| flush_step: "pool_step p (snd (FlushFakeIP memory p))"

inductive pool_run :: "memoryStore Pool \<Rightarrow> memoryStore Pool \<Rightarrow> bool" where
  run_none: "pool_run p p"
| run_step: "pool_run p q \<Longrightarrow> pool_step q r \<Longrightarrow> pool_run p r"

lemma pool_step_inv: "pool_step p q \<Longrightarrow> pool_inv p \<Longrightarrow> pool_inv q \<and> pool_fixed p q"
  by (induction rule: pool_step.induct)
     (use lookup_keeps [OF _ surjective_pairing] look_back_inv flush_inv in \<open>blast\<close>)+

lemma pool_run_inv: "pool_run p q \<Longrightarrow> pool_inv p \<Longrightarrow> pool_inv q \<and> pool_fixed p q"
  by (induction rule: pool_run.induct)
     (auto simp: pool_fixed_def dest!: pool_step_inv)


section \<open>How long a name keeps its address\<close>

text \<open>
  A pair leaves the store in memory when it has become the least recently used of a full store, or
  when the pool comes round to its address. \<open>behind\<close> counts the pairs used after the pair of a
  name, \<open>turns\<close> the new names until the pool is at an address again.
\<close>

definition behind :: "string \<Rightarrow> (string \<times> Addr) list \<Rightarrow> nat" where
  "behind h ps = length (takeWhile (\<lambda>p. fst p \<noteq> h) (rev ps))"

definition room :: "'s Pool \<Rightarrow> nat" where
  "room p = addr_val (po_last p) - addr_val (po_first p)"

definition turns :: "Addr \<Rightarrow> 's Pool \<Rightarrow> nat" where
  "turns ip p =
     (if addr_val (next_addr p) \<le> addr_val ip then addr_val ip - addr_val (next_addr p)
      else room p - (addr_val (next_addr p) - addr_val ip))"

lemma behind_snoc: "behind h (ps @ [p]) = (if fst p = h then 0 else Suc (behind h ps))"
  by (simp add: behind_def)

lemma behind_le: "behind h ps \<le> length ps"
  by (simp add: behind_def length_takeWhile_le [THEN le_trans])

lemma takeWhile_filter_le: "length (takeWhile P (filter Q xs)) \<le> length (takeWhile P xs)"
  if "\<And>x. \<not> P x \<Longrightarrow> Q x"
  using that by (induction xs) auto

lemma behind_without: "h' \<noteq> h \<Longrightarrow> behind h (without h' ps) \<le> behind h ps"
  unfolding behind_def without_def rev_filter by (rule takeWhile_filter_le) auto

lemma behind_tl:
  assumes "h \<in> fst ` set (tl ps)"
  shows "behind h (tl ps) = behind h ps"
proof (cases ps)
  case (Cons p qs)
  then obtain q where "q \<in> set (rev qs)" "fst q = h" using assms by auto
  then have "takeWhile (\<lambda>p. fst p \<noteq> h) (rev qs @ [p]) = takeWhile (\<lambda>p. fst p \<noteq> h) (rev qs)"
    by (intro takeWhile_append1) auto
  with Cons show ?thesis by (simp add: behind_def)
qed simp

text \<open>Trimming keeps a pair that has fewer than the limit behind it.\<close>

lemma trim_keeps:
  assumes "(h, ip) \<in> set ps" and "n > 0 \<Longrightarrow> int (behind h ps) < n" and "distinct (map fst ps)"
  shows "(h, ip) \<in> set (trim n ps) \<and> behind h (trim n ps) = behind h ps"
proof (cases "n > 0 \<and> int (length ps) > n")
  case True
  then obtain p qs where ps: "ps = p # qs" by (cases ps) auto
  have "fst p \<noteq> h"
  proof
    assume h: "fst p = h"
    have apart: "\<forall>q \<in> set (rev qs). fst q \<noteq> h"
    proof
      fix q assume "q \<in> set (rev qs)"
      then have "fst q \<in> fst ` set qs" by simp
      moreover have "fst p \<notin> fst ` set qs" using assms(3) by (simp add: ps)
      ultimately show "fst q \<noteq> h" using h by metis
    qed
    then have "takeWhile (\<lambda>q. fst q \<noteq> h) (rev qs) = rev qs" by (simp add: takeWhile_eq_all_conv)
    then have "behind h ps = length qs" by (simp add: behind_def ps h takeWhile_append)
    with assms(2) True ps show False by simp
  qed
  then have "(h, ip) \<in> set qs" using assms(1) ps by auto
  moreover from this have "h \<in> fst ` set (tl ps)" using ps by force
  ultimately show ?thesis using True ps behind_tl [of h ps] by (simp add: trim_def)
qed (auto simp: trim_def assms)


text \<open>One look-up of another name.\<close>

lemma lookup_keeps_pair:
  assumes "pool_inv p" and "Lookup uni memory host p = (a, p')"
    and "mem_host_addr (po_store p) h = Some ip" and "po_offset p \<noteq> addr_Prev (po_first p)"
    and "0 < turns ip p"
    and "lc_maxSize (ms_cacheIP (po_store p)) > 0 \<Longrightarrow>
      int (Suc (behind h (mem_pairs (po_store p)))) < lc_maxSize (ms_cacheIP (po_store p))"
  shows "mem_host_addr (po_store p') h = Some ip \<and>
    behind h (mem_pairs (po_store p')) \<le> Suc (behind h (mem_pairs (po_store p))) \<and>
    po_offset p' \<noteq> addr_Prev (po_first p') \<and> turns ip p \<le> Suc (turns ip p') \<and>
    lc_maxSize (ms_cacheIP (po_store p')) = lc_maxSize (ms_cacheIP (po_store p))"
proof -
  let ?s = "po_store p" let ?h = "to_lower uni host"
  have r: "span_ok p" and g: "mem_good ?s" using assms(1) by (simp_all add: pool_inv_def)
  have m: "(h, ip) \<in> set (mem_pairs ?s)" using assms(3) by (simp add: mem_host_addr_def map_of_SomeD)
  have inr: "po_first p \<le> ip" "ip < po_last p" using m assms(1) by (auto simp: pool_inv_def)
  from assms(1,2) show ?thesis
  proof (cases rule: lookup_cases)
    case old
    have "behind h (mem_used ?h ?s) \<le> Suc (behind h (mem_pairs ?s))"
      using old(1) behind_without [of ?h h "mem_pairs ?s"]
      by (cases "?h = h") (simp_all add: mem_used_def behind_snoc)
    moreover have "mem_host_addr (po_store p') h = Some ip"
      using mem_used_same [of ?h ?s] assms(3) by (simp add: mem_host_addr_def old(3))
    moreover have "next_addr p' = next_addr p"
      using old(4,5) by (simp add: next_addr_def pool_fixed_def)
    ultimately show ?thesis
      using old(3-6) assms(4) by (auto simp: turns_def room_def pool_fixed_def)
  next
    case (new ps)
    have ne: "?h \<noteq> h" using new(1) assms(3) by auto
    have "a \<noteq> ip" using assms(5) new(2) by (auto simp: turns_def)
    then have other: "mem_addr_host ?s a \<noteq> Some h"
      using mem_mirrored [OF g, of h a] assms(3) by auto
    have kept: "(h, ip) \<in> set ps" "behind h ps \<le> behind h (mem_pairs ?s)"
      using new(6) m other behind_without [of _ h "mem_pairs ?s"]
      by (auto simp: set_without)
    have d: "distinct (map fst (ps @ [(?h, a)]))"
    proof -
      have "distinct (map fst ps)" "set ps \<subseteq> set (mem_pairs ?s)"
        using new(6) mem_pairs_distinct(1) [OF g] by (auto simp: without_def distinct_map_filter)
      with new(1) show ?thesis by (auto simp: mem_host_addr_None)
    qed
    have "(h, ip) \<in> set (mem_pairs (po_store p')) \<and>
        behind h (mem_pairs (po_store p')) = behind h (ps @ [(?h, a)])"
      unfolding new(7) using kept ne assms(6) d
      by (intro trim_keeps) (auto simp: behind_snoc)
    moreover have "po_offset p' \<noteq> addr_Prev (po_first p')"
    proof -
      have "addr_Prev (po_first p) < po_first p"
        using r Next_Prev [of "po_first p"] Next_above [of "addr_Prev (po_first p)"]
        by (cases "po_first p") (auto simp: span_ok_def split: if_splits)
      with next_addr_range [OF r] new(2-4) show ?thesis by (auto simp: pool_fixed_def)
    qed
    moreover have "turns ip p \<le> Suc (turns ip p')"
    proof -
      have r': "span_ok p'" using span_ok_step [OF r new(4)] new(2,3) by simp
      have l: "addr_BitLen ip = addr_BitLen (po_last p)" "addr_BitLen a = addr_BitLen (po_last p)"
        "po_first p \<le> a" "a < po_last p"
        using inr r next_addr_range [OF r] between_same_length new(2) by (auto simp: span_ok_def)
      have v: "addr_val (po_first p) \<le> addr_val ip" "addr_val ip < addr_val (po_last p)"
        "addr_val (po_first p) \<le> addr_val a" "addr_val a < addr_val (po_last p)"
        using inr l r by (auto simp: less_same_length less_eq_same_length span_ok_def)
      have "addr_val (next_addr p') = (if Suc (addr_val a) < addr_val (po_last p)
          then Suc (addr_val a) else addr_val (po_first p))"
        using next_addr_val [OF r' calculation(2)] new(3,4) by (simp add: pool_fixed_def)
      with v new(2) assms(5) show ?thesis
        by (auto simp: turns_def room_def pool_fixed_def new(4) [unfolded pool_fixed_def])
    qed
    ultimately show ?thesis
      using kept(2) ne new(5,8) by (auto simp: behind_snoc mem_host_addr_iff)
  qed
qed


definition lookups :: "(string \<Rightarrow> string) \<Rightarrow> string list \<Rightarrow> memoryStore Pool \<Rightarrow> memoryStore Pool" where
  "lookups uni hs p = foldl (\<lambda>p h. snd (Lookup uni memory h p)) p hs"

lemma lookups_keep_pair:
  assumes "pool_inv p" and "mem_host_addr (po_store p) h = Some ip"
    and "po_offset p \<noteq> addr_Prev (po_first p)" and "length hs \<le> turns ip p"
    and "lc_maxSize (ms_cacheIP (po_store p)) > 0 \<Longrightarrow>
      int (behind h (mem_pairs (po_store p)) + length hs) < lc_maxSize (ms_cacheIP (po_store p))"
  shows "pool_inv (lookups uni hs p) \<and> mem_host_addr (po_store (lookups uni hs p)) h = Some ip"
  using assms
proof (induction hs arbitrary: p)
  case Nil
  then show ?case by (simp add: lookups_def)
next
  case (Cons x hs)
  obtain a q where q: "Lookup uni memory x p = (a, q)" by (rule prod.exhaust)
  note k = lookup_keeps_pair [OF Cons.prems(1) q Cons.prems(2,3)]
  have "mem_host_addr (po_store q) h = Some ip \<and>
    behind h (mem_pairs (po_store q)) \<le> Suc (behind h (mem_pairs (po_store p))) \<and>
    po_offset q \<noteq> addr_Prev (po_first q) \<and> turns ip p \<le> Suc (turns ip q) \<and>
    lc_maxSize (ms_cacheIP (po_store q)) = lc_maxSize (ms_cacheIP (po_store p))"
    using Cons.prems(4,5) by (intro k) auto
  then have "pool_inv (lookups uni hs q) \<and> mem_host_addr (po_store (lookups uni hs q)) h = Some ip"
    using Cons.prems lookup_keeps [OF Cons.prems(1) q] by (intro Cons.IH) auto
  then show ?case by (simp add: lookups_def q)
qed

lemma fresh_turns:
  assumes "pool_inv p" and "mem_host_addr (po_store p) (to_lower uni host) = None"
    and "Lookup uni memory host p = (ip, q)"
  shows "turns ip q = room q - 1 \<and> po_offset q \<noteq> addr_Prev (po_first q) \<and>
    behind (to_lower uni host) (mem_pairs (po_store q)) = 0"
  using assms(1,3)
proof (cases rule: lookup_cases)
  case old
  with assms(2) show ?thesis by simp
next
  case (new ps)
  have r: "span_ok p" using assms(1) by (simp add: pool_inv_def)
  have r': "span_ok q" using span_ok_step [OF r new(4)] new(2,3) by simp
  have "addr_Prev (po_first p) < po_first p"
    using r Next_Prev [of "po_first p"] Next_above [of "addr_Prev (po_first p)"]
    by (cases "po_first p") (auto simp: span_ok_def split: if_splits)
  with next_addr_range [OF r] new(2-4) have o: "po_offset q \<noteq> addr_Prev (po_first q)"
    by (auto simp: pool_fixed_def)
  have "addr_BitLen ip = addr_BitLen (po_last q)" "po_first q \<le> ip" "ip < po_last q"
    using r next_addr_range [OF r] between_same_length new(2,4) by (auto simp: span_ok_def pool_fixed_def)
  then have v: "addr_val (po_first q) \<le> addr_val ip" "addr_val ip < addr_val (po_last q)"
    using r' by (auto simp: less_same_length less_eq_same_length span_ok_def)
  have "turns ip q = room q - 1"
    using next_addr_val [OF r' o] v new(3) by (auto simp: turns_def room_def)
  moreover have "behind (to_lower uni host) (trim n (ps @ [(to_lower uni host, ip)])) = 0" for n
    by (cases ps) (simp_all add: trim_def behind_def)
  ultimately show ?thesis using o by (simp add: new(7))
qed


lemma clone_good:
  assumes "mem_good (po_store q)" and "mem_good (po_store p)"
    and "lc_maxSize (ms_cacheIP (po_store p)) = lc_maxSize (ms_cacheIP (po_store q))"
  shows "mem_good (po_store (CloneFrom memory p q)) \<and>
    mem_pairs (po_store (CloneFrom memory p q)) = mem_pairs (po_store q)"
  using assms ageless_clone [of "ms_cacheIP (po_store q)" "ms_cacheIP (po_store p)"]
    ageless_clone [of "ms_cacheHost (po_store q)" "ms_cacheHost (po_store p)"]
  by (simp add: CloneFrom_def memory_def mem_CloneTo_def mem_good_def mem_pairs_def)

section \<open>The properties of the pool\<close>

definition promised_last :: "(Prefix \<Rightarrow> Addr) \<Rightarrow> bool" where
  "promised_last lastIP = (\<forall>net. addr_BitLen (lastIP net) = addr_BitLen (px_addr net))"

lemma pool_step_size:
  assumes "pool_step p q" and "pool_inv p"
  shows "lc_maxSize (ms_cacheIP (po_store q)) = lc_maxSize (ms_cacheIP (po_store p))"
  using assms
proof (induction rule: pool_step.induct)
  case (lookup_step p uni host)
  obtain a q where q: "Lookup uni memory host p = (a, q)" by (rule prod.exhaust)
  with lookup_step show ?case by (auto elim: lookup_cases [OF _ q])
next
  case (look_back_step p ip)
  obtain r s where g: "mem_GetByIP ip (po_store p) = (r, s)" by (rule prod.exhaust)
  with look_back_step mem_get_by_ip [OF _ g] show ?case
    by (simp add: LookBack_def memory_def pool_inv_def)
next
  case (flush_step p)
  then show ?case
    using mem_flush [of "po_store p", OF _ surjective_pairing]
    by (auto simp: FlushFakeIP_def memory_def mem_FlushFakeIP_def pool_inv_def)
qed

lemma pool_run_size:
  "pool_run p q \<Longrightarrow> pool_inv p \<Longrightarrow>
    lc_maxSize (ms_cacheIP (po_store q)) = lc_maxSize (ms_cacheIP (po_store p))"
  by (induction rule: pool_run.induct) (auto simp: pool_step_size dest: pool_run_inv)

lemma mem_pairs_bounded:
  "mem_good s \<Longrightarrow> 0 < lc_maxSize (ms_cacheIP s) \<Longrightarrow> int (length (mem_pairs s)) \<le> lc_maxSize (ms_cacheIP s)"
  using pairs_bounded [of "ms_cacheIP s"] by (simp add: mem_good_def mem_pairs_def)

text \<open>
  Property C10. In every pool that look-ups in both directions and flushes reach from a new one, a name has an
  address of the range, looking the address up gives the name back, no other name has it, and
  the store holds at most as many names as it was made for.
\<close>

theorem fake_addresses_named:
  assumes "pool_New lastIP memory (newMemoryStore n) net = Inr p0"
    and "addr_BitLen (lastIP net) = addr_BitLen (px_addr net)"
    and "pool_run p0 p" and "mem_host_addr (po_store p) h = Some ip"
  shows "po_first p0 \<le> ip \<and> ip < lastIP net \<and> fst (LookBack memory ip p) = Some h \<and>
    (mem_host_addr (po_store p) h' = Some ip \<longrightarrow> h' = h) \<and>
    (0 < n \<longrightarrow> int (length (mem_pairs (po_store p))) \<le> n)"
proof -
  note new = new_pool_inv [OF assms(1,2)]
  have inv: "pool_inv p" "pool_fixed p0 p" using pool_run_inv [OF assms(3)] new by auto
  then have ok: "mem.held_store p" by (simp add: mem.held_store_def pool_inv_def)
  have sz: "lc_maxSize (ms_cacheIP (po_store p)) = n" using pool_run_size [OF assms(3)] new by simp
  have "(h, ip) \<in> set (mem_pairs (po_store p))"
    using assms(4) by (simp add: mem_host_addr_def map_of_SomeD)
  then have "po_first p \<le> ip \<and> ip < po_last p" using inv(1) by (auto simp: pool_inv_def)
  with inv(2) new mem.look_back [OF ok assms(4)] mem.one_host_each [OF ok assms(4)] sz
    mem_pairs_bounded [of "po_store p"] inv(1)
  show ?thesis by (auto simp: pool_fixed_def pool_inv_def)
qed

text \<open>
  Property C11. A name that was just given an address keeps it, in both directions, while fewer names are looked up
  than the range has addresses and the store has places.
\<close>

theorem fake_address_kept:
  assumes "pool_New lastIP memory (newMemoryStore n) net = Inr p0"
    and "addr_BitLen (lastIP net) = addr_BitLen (px_addr net)"
    and "pool_run p0 p" and "mem_host_addr (po_store p) (to_lower uni host) = None"
    and "Lookup uni memory host p = (ip, q)"
    and "length others < room q" and "0 < n \<longrightarrow> int (length others) < n"
  shows "fst (LookBack memory ip (lookups uni others q)) = Some (to_lower uni host) \<and>
    fst (Lookup uni memory host (lookups uni others q)) = ip"
proof -
  note new = new_pool_inv [OF assms(1,2)]
  let ?h = "to_lower uni host" let ?r = "lookups uni others q"
  have inv: "pool_inv p" "pool_fixed p0 p" using pool_run_inv [OF assms(3)] new by auto
  note q = lookup_keeps [OF inv(1) assms(5)] and f = fresh_turns [OF inv(1) assms(4,5)]
  have run: "pool_run p0 q"
    using run_step [OF assms(3) lookup_step [of p uni host]] assms(5) by simp
  have sz: "lc_maxSize (ms_cacheIP (po_store q)) = n" using pool_run_size [OF run] new by simp
  have "mem.held_store p" using inv(1) by (simp add: mem.held_store_def pool_inv_def)
  then have "mem_host_addr (po_store q) ?h = Some ip" using mem.lookup_spec [OF _ assms(5)] by blast
  then have r: "pool_inv ?r \<and> mem_host_addr (po_store ?r) ?h = Some ip"
    using q f assms(6,7) sz by (intro lookups_keep_pair) auto
  then have ok: "mem.held_store ?r" by (simp add: mem.held_store_def pool_inv_def)
  obtain a s where a: "Lookup uni memory host ?r = (a, s)" by (rule prod.exhaust)
  with mem.lookup_spec [OF ok a] mem.look_back [OF ok] r show ?thesis by auto
qed


section \<open>A small pool\<close>

definition demo_last :: "Prefix \<Rightarrow> Addr" where
  "demo_last p = (case px_addr p of
     NoAddr \<Rightarrow> NoAddr
   | Addr4 w \<Rightarrow> Addr4 (push_bit (32 - px_bits p) (drop_bit (32 - px_bits p) w) + (2 ^ (32 - px_bits p) - 1))
   | Addr6 w \<Rightarrow> Addr6 (push_bit (128 - px_bits p) (drop_bit (128 - px_bits p) w) + (2 ^ (128 - px_bits p) - 1)))"

definition demo_net :: Prefix where
  "demo_net = \<lparr>px_addr = Addr4 0xC6120001, px_bits = 28\<rparr>"

definition demo_pool :: "memoryStore Pool" where
  "demo_pool = \<lparr>po_gateway = Addr4 0xC6120001, po_first = Addr4 0xC6120004, po_last = Addr4 0xC612000F,
     po_offset = Addr4 0xC6120003, po_cycle = False, po_ipnet = demo_net, po_store = newMemoryStore 3\<rparr>"

lemma demo_pool_new: "pool_New demo_last memory (newMemoryStore 3) demo_net = Inr demo_pool"
  by (simp add: pool_New_def demo_net_def prefix_valid_def demo_last_def memory_def restoreState_def
      demo_pool_def Let_def)

lemma demo_last_length: "addr_BitLen (demo_last demo_net) = addr_BitLen (px_addr demo_net)"
  by (simp add: demo_last_def demo_net_def)

definition demo_uni :: "string \<Rightarrow> string" where "demo_uni s = s"

definition demo_looked :: "Addr \<times> memoryStore Pool" where
  "demo_looked = Lookup demo_uni memory ''a.b'' demo_pool"

lemma demo_lower: "to_lower demo_uni ''a.b'' = ''a.b''"
  by code_simp

lemma demo_free: "mem_host_addr (po_store demo_pool) (to_lower demo_uni ''a.b'') = None"
  by (simp add: demo_pool_def mem_host_addr_def mem_new_good)

lemma demo_named: "mem_host_addr (po_store (snd demo_looked)) ''a.b'' = Some (fst demo_looked)"
proof -
  have "pool_inv demo_pool" using new_pool_inv [OF demo_pool_new demo_last_length] by simp
  then have "mem.held_store demo_pool" by (simp add: mem.held_store_def pool_inv_def)
  from mem.lookup_spec [OF this, of demo_uni "''a.b''"] show ?thesis
    by (metis demo_looked_def demo_lower surjective_pairing)
qed

lemma demo_pool_run: "pool_run demo_pool (snd demo_looked)"
  unfolding demo_looked_def by (rule run_step [OF run_none lookup_step])

theorem fake_addresses_named_witness:
  "po_first demo_pool \<le> fst demo_looked \<and> fst demo_looked < Addr4 0xC612000F \<and>
    fst (LookBack memory (fst demo_looked) (snd demo_looked)) = Some ''a.b'' \<and>
    length (mem_pairs (po_store (snd demo_looked))) \<le> 3"
  using fake_addresses_named [OF demo_pool_new demo_last_length demo_pool_run demo_named]
  by (simp add: demo_last_def demo_net_def)

theorem fake_address_kept_witness:
  "fst (LookBack memory (fst demo_looked) (lookups demo_uni [''c'', ''A.B''] (snd demo_looked))) = Some ''a.b'' \<and>
    fst (Lookup demo_uni memory ''a.b'' (lookups demo_uni [''c'', ''A.B''] (snd demo_looked))) = fst demo_looked"
proof -
  have l: "Lookup demo_uni memory ''a.b'' demo_pool = (fst demo_looked, snd demo_looked)"
    by (simp add: demo_looked_def)
  have "pool_fixed demo_pool (snd demo_looked)"
    using pool_run_inv [OF demo_pool_run] new_pool_inv [OF demo_pool_new demo_last_length] by blast
  then have "length [''c'', ''A.B''] < room (snd demo_looked)"
    by (simp add: pool_fixed_def room_def demo_pool_def)
  from fake_address_kept [OF demo_pool_new demo_last_length run_none demo_free l this] show ?thesis
    by (simp add: demo_lower)
qed

end
