(* ===== verification/DomainTrie.thy ===== *)
theory DomainTrie
  imports GoStd
begin

text \<open>
  The trie of domain patterns of the proxy core (\<open>component/trie/domain.go\<close>, \<open>node.go\<close>). A node keeps
  one child in place and goes over to a map with the second; \<open>optimize\<close> shrinks maps again. The
  nodes form a tree, so an insertion is a rebuilt path. Ranging over a Go map is in the order of
  the association list.
\<close>

abbreviation wildcard :: string where "wildcard \<equiv> ''*''"
abbreviation dotWildcard :: string where "dotWildcard \<equiv> []"
abbreviation complexWildcard :: string where "complexWildcard \<equiv> ''+''"
abbreviation domainStep :: string where "domainStep \<equiv> ''.''"

section \<open>Nodes\<close>

datatype 'a Node = Node
  (childMap: "(string \<times> 'a Node) list option")
  (childNode: "'a Node option")
  (childStr: string)
  (node_data: "'a option")

text \<open>\<open>inited\<close> and \<open>data\<close> are one optional value: \<open>data\<close> is read only where \<open>inited\<close> holds.\<close>

definition newNode :: "'a Node" where
  "newNode = Node None None [] None"

definition isEmpty :: "'a Node option \<Rightarrow> bool" where
  "isEmpty n = (case n of None \<Rightarrow> True | Some n \<Rightarrow> node_data n = None)"

definition setData :: "'a \<Rightarrow> 'a Node \<Rightarrow> 'a Node" where
  "setData d n = Node (childMap n) (childNode n) (childStr n) (Some d)"

definition getChild :: "string \<Rightarrow> 'a Node \<Rightarrow> 'a Node option" where
  "getChild s n =
     (case childMap n of
        None \<Rightarrow> (if childNode n \<noteq> None \<and> childStr n = s then childNode n else None)
      | Some m \<Rightarrow> gm_get m s)"

definition addChild :: "string \<Rightarrow> 'a Node \<Rightarrow> 'a Node \<Rightarrow> 'a Node" where
  "addChild s child n =
     (case childMap n of
        None \<Rightarrow>
          (case childNode n of
             None \<Rightarrow> Node None (Some child) s (node_data n)
           | Some c \<Rightarrow> Node (Some (gm_set s child (gm_set (childStr n) c []))) None [] (node_data n))
      | Some m \<Rightarrow> Node (Some (gm_set s child m)) (childNode n) (childStr n) (node_data n))"

text \<open>A write through the pointer to a child the node has.\<close>

definition putChild :: "string \<Rightarrow> 'a Node \<Rightarrow> 'a Node \<Rightarrow> 'a Node" where
  "putChild s child n =
     (case childMap n of
        None \<Rightarrow> Node None (Some child) (childStr n) (node_data n)
      | Some m \<Rightarrow> Node (Some (gm_set s child m)) (childNode n) (childStr n) (node_data n))"

definition getChildren :: "'a Node \<Rightarrow> (string \<times> 'a Node) list" where
  "getChildren n =
     (case childMap n of
        None \<Rightarrow> (case childNode n of None \<Rightarrow> [] | Some c \<Rightarrow> [(childStr n, c)])
      | Some m \<Rightarrow> m)"

section \<open>Patterns\<close>

text \<open>
  \<open>ValidAndSplitDomain\<close>; the messages of the errors are left out. The two checks of white space
  decode one rune at each end.
\<close>

definition starts_with_space :: "string \<Rightarrow> bool" where
  "starts_with_space s = (\<exists>sp \<in> set utf8_spaces. has_prefix s sp)"

definition ends_with_space :: "string \<Rightarrow> bool" where
  "ends_with_space s = (\<exists>sp \<in> set utf8_spaces. has_suffix s sp)"

definition bad_part :: "nat \<Rightarrow> nat \<Rightarrow> string \<Rightarrow> bool" where
  "bad_part n i part =
     (contains_str part complexWildcard \<and> (part \<noteq> complexWildcard \<or> i \<noteq> 0 \<or> n = 1) \<or>
      contains_str part wildcard \<and> part \<noteq> wildcard)"

definition ValidAndSplitDomain :: "(string \<Rightarrow> string) \<Rightarrow> string \<Rightarrow> string list option" where
  "ValidAndSplitDomain uni domain =
     (if domain = [] then None
      else if last domain = CHR ''.'' then None
      else if starts_with_space domain then None
      else if ends_with_space domain then None
      else let parts = split_on (CHR ''.'') (to_lower uni domain) in
        if length parts = 1 \<and> hd parts = [] then None
        else if length parts \<noteq> 1 \<and> [] \<in> set (tl parts) then None
        else if \<exists>ip \<in> set (zip [0..<length parts] parts). bad_part (length parts) (fst ip) (snd ip) then None
        else Some parts)"

section \<open>Insertion and search\<close>

text \<open>The loop of \<open>insert\<close> goes over the parts from the last to the first: \<open>path\<close> is that order.\<close>

fun insert_path :: "string list \<Rightarrow> 'a \<Rightarrow> 'a Node \<Rightarrow> 'a Node" where
  "insert_path [] d node = setData d node"
| "insert_path (part # path) d node =
     (case getChild part node of
        None \<Rightarrow> addChild part (insert_path path d newNode) node
      | Some c \<Rightarrow> putChild part (insert_path path d c) node)"

definition trie_insert :: "string list \<Rightarrow> 'a \<Rightarrow> 'a Node \<Rightarrow> 'a Node" where
  "trie_insert parts d rt = insert_path (rev parts) d rt"

definition Insert :: "(string \<Rightarrow> string) \<Rightarrow> string \<Rightarrow> 'a \<Rightarrow> 'a Node \<Rightarrow> 'a Node option" where
  "Insert uni domain d rt =
     (case ValidAndSplitDomain uni domain of
        None \<Rightarrow> None
      | Some parts \<Rightarrow>
          Some (if hd parts = complexWildcard
                then trie_insert (dotWildcard # tl parts) d (trie_insert (tl parts) d rt)
                else trie_insert parts d rt))"

text \<open>\<open>search\<close> takes the parts from the last: \<open>path\<close> is the reversed list.\<close>

fun search_path :: "'a Node \<Rightarrow> string list \<Rightarrow> 'a Node option" where
  "search_path node [] = Some node"
| "search_path node (part # path) =
     (let a = (case getChild part node of None \<Rightarrow> None | Some c \<Rightarrow> search_path c path);
          b = (case getChild wildcard node of None \<Rightarrow> None | Some c \<Rightarrow> search_path c path)
      in if \<not> isEmpty a then a
         else if \<not> isEmpty b then b
         else getChild dotWildcard node)"

definition Search :: "(string \<Rightarrow> string) \<Rightarrow> string \<Rightarrow> 'a Node \<Rightarrow> 'a option" where
  "Search uni domain rt =
     (case ValidAndSplitDomain uni domain of
        None \<Rightarrow> None
      | Some parts \<Rightarrow>
          (if hd parts = [] then None
           else case search_path rt (rev parts) of None \<Rightarrow> None | Some n \<Rightarrow> node_data n))"

section \<open>Optimisation and enumeration\<close>

text \<open>
  \<open>optimize\<close> works on the node in place: first its single child, then its map. \<open>strClone\<close> copies the
  bytes of a key and is the identity on values.
\<close>

primrec optimize :: "'a Node \<Rightarrow> 'a Node" where
  "optimize (Node m c s d) =
     (let m1 = map_option (map (map_prod (\<lambda>k. k) optimize)) m;
          c1 = map_option optimize c
      in (case m1 of
            None \<Rightarrow> Node None c1 s d
          | Some es \<Rightarrow>
              if es = [] then Node None c1 s d
              else if length es = 1 then Node None (Some (snd (hd es))) (fst (hd es)) d
              else Node (Some es) c1 s d))"

definition Optimize :: "'a Node \<Rightarrow> 'a Node" where
  "Optimize rt = optimize rt"

text \<open>
  The callback of \<open>Foreach\<close> answers whether to go on; it has a state of its own. \<open>Foreach\<close> does not
  look at the answer that \<open>recursion\<close> passes up.
\<close>

lemma size_children: "size_list (\<lambda>e. size (snd e)) (getChildren n) < size n"
proof (cases n)
  case (Node m c s d)
  have le: "size_list (\<lambda>e. size (snd e)) es \<le> size_list (size_prod (\<lambda>x. 0) size) es"
    for es :: "(string \<times> 'a Node) list"
    by (induction es) auto
  show ?thesis
  proof (cases m)
    case None
    with Node show ?thesis by (simp add: getChildren_def split: option.split)
  next
    case (Some es)
    with Node le [of es] show ?thesis by (simp add: getChildren_def)
  qed
qed

function recursion :: "(string \<Rightarrow> 'a \<Rightarrow> 's \<Rightarrow> bool \<times> 's) \<Rightarrow> string list \<Rightarrow> (string \<times> 'a Node) list \<Rightarrow> 's \<Rightarrow> bool \<times> 's" where
  "recursion fn items [] s = (True, s)"
| "recursion fn items (e # es) s =
     (let newItems = fst e # items;
          (go, s1) = (case node_data (snd e) of
                        None \<Rightarrow> (True, s) | Some d \<Rightarrow> fn (join_with domainStep newItems) d s)
      in if \<not> go then (False, s1)
         else (let (go2, s2) = recursion fn newItems (getChildren (snd e)) s1
               in if \<not> go2 then (False, s2) else recursion fn items es s2))"
  by pat_completeness auto
termination
proof (relation "measure (\<lambda>(fn, items, es, s). size_list (\<lambda>e. size (snd e)) es)")
  fix fn :: "string \<Rightarrow> 'a \<Rightarrow> 's \<Rightarrow> bool \<times> 's" and items e es s x y a b
  show "((fn, x, getChildren (snd e), b), fn, items, e # es, s) \<in>
      measure (\<lambda>(fn, items, es, s). size_list (\<lambda>e. size (snd e)) es)"
    using size_children [of "snd e"] by simp
qed (auto)

declare recursion.simps(2) [simp del]

fun foreach_loop :: "(string \<Rightarrow> 'a \<Rightarrow> 's \<Rightarrow> bool \<times> 's) \<Rightarrow> (string \<times> 'a Node) list \<Rightarrow> 's \<Rightarrow> 's" where
  "foreach_loop fn [] s = s"
| "foreach_loop fn (e # es) s =
     (let s1 = snd (recursion fn [fst e] (getChildren (snd e)) s);
          (go, s2) = (case node_data (snd e) of
                        None \<Rightarrow> (True, s1) | Some d \<Rightarrow> fn (join_with domainStep [fst e]) d s1)
      in if go then foreach_loop fn es s2 else s2)"

definition Foreach :: "(string \<Rightarrow> 'a \<Rightarrow> 's \<Rightarrow> bool \<times> 's) \<Rightarrow> 'a Node \<Rightarrow> 's \<Rightarrow> 's" where
  "Foreach fn rt s = foreach_loop fn (getChildren rt) s"

definition IsEmpty :: "'a Node option \<Rightarrow> bool" where
  "IsEmpty t = (case t of None \<Rightarrow> True | Some rt \<Rightarrow> getChildren rt = [])"

section \<open>The patterns a trie stores\<close>

fun data_at :: "'a Node \<Rightarrow> string list \<Rightarrow> 'a option" where
  "data_at n [] = node_data n"
| "data_at n (part # path) = (case getChild part n of None \<Rightarrow> None | Some c \<Rightarrow> data_at c path)"

lemma getChild_addChild:
  "getChild s n = None \<Longrightarrow> getChild t (addChild s c n) = (if t = s then Some c else getChild t n)"
  by (cases n) (auto simp: getChild_def addChild_def split: option.splits if_splits)

lemma getChild_putChild:
  "getChild s n \<noteq> None \<Longrightarrow> getChild t (putChild s c n) = (if t = s then Some c else getChild t n)"
  by (cases n) (auto simp: getChild_def putChild_def split: option.splits if_splits)

lemma node_data_simps [simp]:
  "node_data newNode = None" "node_data (setData d n) = Some d"
  "node_data (addChild s c n) = node_data n" "node_data (putChild s c n) = node_data n"
  by (simp_all add: newNode_def setData_def addChild_def putChild_def split: option.split)

lemma getChild_simps [simp]: "getChild s newNode = None" "getChild s (setData d n) = getChild s n"
  by (cases n; simp add: newNode_def setData_def getChild_def split: option.split)+

lemma data_at_newNode [simp]: "data_at newNode path = None"
  by (cases path) simp_all

lemma data_at_insert: "data_at (insert_path path d n) q = (if q = path then Some d else data_at n q)"
proof (induction path d n arbitrary: q rule: insert_path.induct)
  case (1 d node)
  then show ?case by (cases q) simp_all
next
  case (2 part path d node)
  show ?case
  proof (cases q)
    case Nil
    then show ?thesis by (simp split: option.split)
  next
    case (Cons x xs)
    show ?thesis
    proof (cases "getChild part node")
      case None
      with 2(1) Cons show ?thesis by (auto simp: getChild_addChild)
    next
      case (Some c)
      with 2(2) Cons show ?thesis by (auto simp: getChild_putChild)
    qed
  qed
qed

text \<open>The patterns that can answer for a domain, in the order in which \<open>search\<close> tries them.\<close>

fun trie_paths :: "string list \<Rightarrow> string list list" where
  "trie_paths [] = [[]]"
| "trie_paths (x # xs) =
     map ((#) x) (trie_paths xs) @ map ((#) wildcard) (trie_paths xs) @ [[dotWildcard]]"

fun first_some :: "('a \<Rightarrow> 'b option) \<Rightarrow> 'a list \<Rightarrow> 'b option" where
  "first_some f [] = None"
| "first_some f (x # xs) = (case f x of Some y \<Rightarrow> Some y | None \<Rightarrow> first_some f xs)"

lemma first_some_append: "first_some f (xs @ ys) = (case first_some f xs of Some y \<Rightarrow> Some y | None \<Rightarrow> first_some f ys)"
  by (induction xs) (auto split: option.splits)

lemma first_some_map: "first_some f (map g xs) = first_some (\<lambda>x. f (g x)) xs"
  by (induction xs) (auto split: option.splits)

lemma first_some_None: "first_some f xs = None \<longleftrightarrow> (\<forall>x \<in> set xs. f x = None)"
  by (induction xs) (auto split: option.splits)

lemma first_some_SomeD: "first_some f xs = Some d \<Longrightarrow> \<exists>x \<in> set xs. f x = Some d"
  by (induction xs) (auto split: option.splits)

lemma first_some_never [simp]: "first_some (\<lambda>x. None) xs = None"
  by (simp add: first_some_None)

definition data_of :: "'a Node option \<Rightarrow> 'a option" where
  "data_of n = (case n of None \<Rightarrow> None | Some n \<Rightarrow> node_data n)"

lemma isEmpty_data: "isEmpty n \<longleftrightarrow> data_of n = None"
  by (simp add: isEmpty_def data_of_def split: option.split)

lemma search_finds: "data_of (search_path n path) = first_some (data_at n) (trie_paths path)"
proof (induction n path rule: search_path.induct)
  case (1 n)
  then show ?case by (simp add: data_of_def split: option.split)
next
  case (2 n part path)
  have child: "data_of (case getChild s n of None \<Rightarrow> None | Some c \<Rightarrow> search_path c path) =
      first_some (\<lambda>q. data_at n (s # q)) (trie_paths path)" if "s = part \<or> s = wildcard" for s
    using 2 that by (cases "getChild s n") (auto simp: data_of_def)
  have dot: "data_of (getChild dotWildcard n) = data_at n [dotWildcard]"
    by (simp add: data_of_def split: option.split)
  show ?case
    using child [of part] child [of wildcard] dot
    by (simp add: Let_def isEmpty_data first_some_append first_some_map split: option.split)
qed

section \<open>What a search answers\<close>

text \<open>A pattern matches a domain, both written from the last label to the first.\<close>

fun pattern_matches :: "string list \<Rightarrow> string list \<Rightarrow> bool" where
  "pattern_matches [] xs = (xs = [])"
| "pattern_matches (p # ps) xs =
     (case xs of
        [] \<Rightarrow> False
      | x # rest \<Rightarrow> p = dotWildcard \<and> ps = [] \<or> (p = x \<or> p = wildcard) \<and> pattern_matches ps rest)"

lemma paths_match: "c \<in> set (trie_paths path) \<longleftrightarrow> pattern_matches c path"
proof (induction path arbitrary: c rule: trie_paths.induct)
  case 1
  then show ?case by (cases c) auto
next
  case (2 x xs)
  then show ?case by (cases c) auto
qed

text \<open>The trie of a list of patterns, inserted in order; an invalid pattern is an error and adds nothing.\<close>

definition build :: "(string \<Rightarrow> string) \<Rightarrow> (string \<times> 'a) list \<Rightarrow> 'a Node" where
  "build uni ps =
     foldl (\<lambda>rt p. case Insert uni (fst p) (snd p) rt of None \<Rightarrow> rt | Some rt' \<Rightarrow> rt') newNode ps"

definition expand :: "(string \<Rightarrow> string) \<Rightarrow> string \<times> 'a \<Rightarrow> (string list \<times> 'a) list" where
  "expand uni p =
     (case ValidAndSplitDomain uni (fst p) of
        None \<Rightarrow> []
      | Some parts \<Rightarrow>
          (if hd parts = complexWildcard
           then [(rev (tl parts), snd p), (rev (dotWildcard # tl parts), snd p)]
           else [(rev parts, snd p)]))"

lemma build_snoc:
  "build uni (ps @ [p]) =
    (case Insert uni (fst p) (snd p) (build uni ps) of None \<Rightarrow> build uni ps | Some rt \<Rightarrow> rt)"
  by (simp add: build_def split: option.split)

lemma data_at_build: "data_at (build uni ps) q = map_of (rev (concat (map (expand uni) ps))) q"
proof (induction ps rule: rev_induct)
  case Nil
  then show ?case by (simp add: build_def)
next
  case (snoc p ps)
  then show ?case
    by (auto simp: build_snoc Insert_def expand_def trie_insert_def data_at_insert map_add_def
        split: option.splits)
qed

text \<open>
  A search in the trie of a list of patterns answers with the value of the last pattern given for
  the first candidate: the label itself before the wildcard, both before the subdomain pattern.
\<close>

lemma search_as_listed:
  "Search uni domain (build uni ps) =
    (case ValidAndSplitDomain uni domain of
       None \<Rightarrow> None
     | Some parts \<Rightarrow>
         (if hd parts = [] then None
          else first_some (map_of (rev (concat (map (expand uni) ps)))) (trie_paths (rev parts))))"
  using search_finds [of "build uni ps"]
  by (simp add: Search_def data_of_def data_at_build [abs_def] split: option.split)

definition matches_domain :: "(string \<Rightarrow> string) \<Rightarrow> string \<Rightarrow> string \<Rightarrow> bool" where
  "matches_domain uni pattern domain =
     (case (ValidAndSplitDomain uni pattern, ValidAndSplitDomain uni domain) of
        (Some pat, Some parts) \<Rightarrow>
          hd parts \<noteq> [] \<and>
          (if hd pat = complexWildcard
           then pattern_matches (rev (tl pat)) (rev parts) \<or> pattern_matches (rev ([] # tl pat)) (rev parts)
           else pattern_matches (rev pat) (rev parts))
      | _ \<Rightarrow> False)"

text \<open>It answers exactly when some pattern matches the domain, with the value of one that does.\<close>

lemma search_complete:
  "(Search uni domain (build uni ps) = None) = (\<not> (\<exists>p \<in> set ps. matches_domain uni (fst p) domain)) \<and>
   (\<forall>d. Search uni domain (build uni ps) = Some d \<longrightarrow>
      (\<exists>p \<in> set ps. matches_domain uni (fst p) domain \<and> snd p = d))"
proof (cases "ValidAndSplitDomain uni domain")
  case None
  then show ?thesis by (simp add: search_as_listed matches_domain_def split: option.split)
next
  case (Some parts)
  let ?m = "map_of (rev (concat (map (expand uni) ps)))"
  show ?thesis
  proof (cases "hd parts = []")
    case True
    with Some show ?thesis by (simp add: search_as_listed matches_domain_def split: option.split)
  next
    case False
    have s: "Search uni domain (build uni ps) = first_some ?m (trie_paths (rev parts))"
      by (simp add: search_as_listed Some False)
    have m: "matches_domain uni (fst p) domain \<longleftrightarrow> (\<exists>q \<in> set (expand uni p). pattern_matches (fst q) (rev parts))" for p
      by (cases "ValidAndSplitDomain uni (fst p)")
        (simp_all add: matches_domain_def expand_def Some False)
    have sound: "\<exists>p \<in> set ps. matches_domain uni (fst p) domain \<and> snd p = d"
      if "?m c = Some d" "pattern_matches c (rev parts)" for c d
    proof -
      have "(c, d) \<in> set (concat (map (expand uni) ps))" using map_of_SomeD [OF that(1)] by simp
      then obtain p where p: "p \<in> set ps" "(c, d) \<in> set (expand uni p)" by auto
      then have "snd p = d" by (auto simp: expand_def split: option.splits if_splits)
      with p that(2) m [of p] show ?thesis by force
    qed
    have some: "\<exists>c. ?m c \<noteq> None \<and> pattern_matches c (rev parts)"
      if p: "p \<in> set ps" "matches_domain uni (fst p) domain" for p
    proof -
      obtain q where q: "q \<in> set (expand uni p)" "pattern_matches (fst q) (rev parts)"
        using p(2) m by blast
      with p(1) have "fst q \<in> fst ` set (rev (concat (map (expand uni) ps)))" by force
      with q(2) show ?thesis by (metis map_of_eq_None_iff)
    qed
    have "(first_some ?m (trie_paths (rev parts)) = None) =
        (\<not> (\<exists>p \<in> set ps. matches_domain uni (fst p) domain))"
    proof
      assume "first_some ?m (trie_paths (rev parts)) = None"
      then have "\<not> (\<exists>c. ?m c \<noteq> None \<and> pattern_matches c (rev parts))"
        by (auto simp: first_some_None paths_match)
      with some show "\<not> (\<exists>p \<in> set ps. matches_domain uni (fst p) domain)" by blast
    next
      assume no: "\<not> (\<exists>p \<in> set ps. matches_domain uni (fst p) domain)"
      have "?m c = None" if "pattern_matches c (rev parts)" for c
        using no sound [of c, OF _ that] by (cases "?m c") auto
      then show "first_some ?m (trie_paths (rev parts)) = None"
        by (simp add: first_some_None paths_match)
    qed
    moreover have "\<exists>p \<in> set ps. matches_domain uni (fst p) domain \<and> snd p = d"
      if "first_some ?m (trie_paths (rev parts)) = Some d" for d
      using first_some_SomeD [OF that] sound by (auto simp: paths_match)
    ultimately show ?thesis by (simp add: s)
  qed
qed

text \<open>
  Property C21. A search finds the value of the pattern that comes first in the order of the priorities (label
  by label from the right: the same label, then the wildcard, then a dot wildcard), among all
  patterns inserted, the last value for a pattern inserted twice. So it answers exactly when some
  pattern matches the domain, with the value of one that does.
\<close>

theorem trie_search_agrees:
  "Search uni domain (build uni ps) =
    (case ValidAndSplitDomain uni domain of
       None \<Rightarrow> None
     | Some parts \<Rightarrow>
         (if hd parts = [] then None
          else first_some (map_of (rev (concat (map (expand uni) ps)))) (trie_paths (rev parts)))) \<and>
   (case Search uni domain (build uni ps) of
      None \<Rightarrow> \<not> (\<exists>p \<in> set ps. matches_domain uni (fst p) domain)
    | Some d \<Rightarrow> \<exists>p \<in> set ps. matches_domain uni (fst p) domain \<and> snd p = d)"
  using search_as_listed [of uni domain ps] search_complete [of uni domain ps]
  by (simp split: option.split)


section \<open>Optimising changes no answer\<close>

primrec node_ok :: "'a Node \<Rightarrow> bool" where
  "node_ok (Node m c s d) =
     ((case map_option (map (map_prod (\<lambda>k. k) node_ok)) m of
         None \<Rightarrow> True
       | Some es \<Rightarrow> c = None \<and> distinct (map fst es) \<and> list_all snd es) \<and>
      (case map_option node_ok c of None \<Rightarrow> True | Some b \<Rightarrow> b))"

lemma node_ok_iff:
  "node_ok n \<longleftrightarrow> (childMap n \<noteq> None \<longrightarrow> childNode n = None) \<and>
    distinct (map fst (getChildren n)) \<and> (\<forall>e \<in> set (getChildren n). node_ok (snd e))"
  by (cases n) (auto simp: getChildren_def list_all_iff o_def split: option.splits)

lemma getChild_children: "getChild s n = map_of (getChildren n) s"
  by (auto simp: getChild_def getChildren_def split: option.splits)

lemma map_of_map_prod: "map_of (map (map_prod (\<lambda>k. k) f) es) k = map_option f (map_of es k)"
  by (induction es) auto

lemma children_optimize:
  assumes "node_ok n"
  shows "map_of (getChildren (optimize n)) s = map_option optimize (map_of (getChildren n) s)"
proof (cases n)
  case (Node m c str d)
  show ?thesis
  proof (cases m)
    case None
    with Node show ?thesis by (auto simp: getChildren_def split: option.split)
  next
    case (Some es)
    with Node assms have c: "c = None" by simp
    consider (none) "es = []" | (one) e where "es = [e]" | (more) "length es \<noteq> 1" "es \<noteq> []"
      by (cases es; cases "tl es") auto
    then show ?thesis
      using Node Some c by cases (auto simp: getChildren_def map_of_map_prod)
  qed
qed

lemma data_optimize: "node_data (optimize n) = node_data n"
  by (cases n) (auto simp: Let_def split: option.split)


lemma data_at_optimize: "node_ok n \<Longrightarrow> data_at (optimize n) path = data_at n path"
proof (induction path arbitrary: n)
  case Nil
  then show ?case by (simp add: data_optimize)
next
  case (Cons part path)
  have "getChild part (optimize n) = map_option optimize (getChild part n)"
    using children_optimize [OF Cons.prems] by (simp add: getChild_children)
  moreover have "node_ok c" if "getChild part n = Some c" for c
  proof -
    have "(part, c) \<in> set (getChildren n)" using that by (simp add: getChild_children map_of_SomeD)
    with Cons.prems show ?thesis using node_ok_iff [of n] by force
  qed
  ultimately show ?case using Cons.IH by (auto split: option.split)
qed

lemma node_ok_new: "node_ok newNode"
  by (simp add: newNode_def)

lemma in_gm_set: "e \<in> set (gm_set k v m) \<Longrightarrow> e = (k, v) \<or> e \<in> set m"
  by (induction m) (auto split: if_splits)

lemma node_ok_add:
  assumes "node_ok n" and "node_ok c" and "getChild s n = None"
  shows "node_ok (addChild s c n)"
proof -
  have "getChildren (addChild s c n) = gm_set s c (getChildren n)"
    using assms(1) by (cases n) (auto simp: addChild_def getChildren_def split: option.splits)
  moreover have "childMap (addChild s c n) \<noteq> None \<longrightarrow> childNode (addChild s c n) = None"
    using assms(1) by (cases n) (auto simp: addChild_def split: option.splits)
  ultimately show ?thesis
    using assms(1,2) node_ok_iff [of n] node_ok_iff [of "addChild s c n"] by (auto dest!: in_gm_set)
qed

lemma node_ok_put:
  assumes "node_ok n" and "node_ok c" and "getChild s n = Some c0"
  shows "node_ok (putChild s c n)"
proof -
  have "getChildren (putChild s c n) = gm_set s c (getChildren n)"
    using assms(1,3) by (cases n) (auto simp: putChild_def getChildren_def getChild_def split: option.splits if_splits)
  moreover have "childMap (putChild s c n) \<noteq> None \<longrightarrow> childNode (putChild s c n) = None"
    using assms(1) by (cases n) (auto simp: putChild_def split: option.splits)
  ultimately show ?thesis
    using assms(1,2) node_ok_iff [of n] node_ok_iff [of "putChild s c n"] by (auto dest!: in_gm_set)
qed

lemma node_ok_data: "node_ok n \<Longrightarrow> node_ok (setData d n)"
  by (cases n) (auto simp: setData_def split: option.splits)

lemma node_ok_child: "node_ok n \<Longrightarrow> getChild s n = Some c \<Longrightarrow> node_ok c"
  using node_ok_iff [of n] by (force simp: getChild_children dest: map_of_SomeD)

lemma node_ok_insert: "node_ok n \<Longrightarrow> node_ok (insert_path path d n)"
  by (induction path d n rule: insert_path.induct)
     (auto simp: node_ok_data node_ok_new split: option.split intro!: node_ok_add node_ok_put dest: node_ok_child)

lemma node_ok_build: "node_ok (build uni ps)"
  by (induction ps rule: rev_induct)
     (auto simp: build_snoc build_def [of _ "[]"] node_ok_new Insert_def trie_insert_def node_ok_insert
       split: option.splits if_splits)

text \<open>Shrinking the nodes of a trie changes no answer of a search.\<close>

theorem trie_optimize_same:
  "Search uni domain (Optimize (build uni ps)) = Search uni domain (build uni ps)"
proof -
  have "data_of (search_path (optimize (build uni ps)) path) = data_of (search_path (build uni ps) path)" for path
    by (simp add: search_finds data_at_optimize [OF node_ok_build, abs_def])
  then show ?thesis by (simp add: Search_def Optimize_def data_of_def split: option.split)
qed

section \<open>Enumerating the patterns\<close>

function walk :: "string list \<Rightarrow> (string \<times> 'a Node) list \<Rightarrow> (string list \<times> 'a) list" where
  "walk items [] = []"
| "walk items (e # es) =
     (case node_data (snd e) of None \<Rightarrow> [] | Some d \<Rightarrow> [(fst e # items, d)]) @
     walk (fst e # items) (getChildren (snd e)) @ walk items es"
  by pat_completeness auto
termination
proof (relation "measure (\<lambda>(items, es). size_list (\<lambda>e. size (snd e)) es)")
  fix items e and es :: "(string \<times> 'a Node) list"
  show "((fst e # items, getChildren (snd e)), items, e # es) \<in>
      measure (\<lambda>(items, es). size_list (\<lambda>e. size (snd e)) es)"
    using size_children [of "snd e"] by simp
qed auto

lemma recursion_walk:
  "recursion (\<lambda>n d s. (True, f n d s)) items es s =
    (True, fold (\<lambda>p. f (join_with domainStep (fst p)) (snd p)) (walk items es) s)"
  by (induction items es arbitrary: s rule: walk.induct)
     (auto simp: recursion.simps(2) Let_def split: option.split)

definition listing :: "'a Node \<Rightarrow> (string list \<times> 'a) list" where
  "listing rt = concat (map (\<lambda>e. walk [fst e] (getChildren (snd e)) @
     (case node_data (snd e) of None \<Rightarrow> [] | Some d \<Rightarrow> [([fst e], d)])) (getChildren rt))"

lemma foreach_listing:
  "Foreach (\<lambda>n d s. (True, f n d s)) rt s =
    fold (\<lambda>p. f (join_with domainStep (fst p)) (snd p)) (listing rt) s"
proof -
  have "foreach_loop (\<lambda>n d s. (True, f n d s)) es s =
      fold (\<lambda>p. f (join_with domainStep (fst p)) (snd p))
        (concat (map (\<lambda>e. walk [fst e] (getChildren (snd e)) @
          (case node_data (snd e) of None \<Rightarrow> [] | Some d \<Rightarrow> [([fst e], d)])) es)) s" for es
    by (induction es arbitrary: s) (auto simp: recursion_walk Let_def split: option.split)
  then show ?thesis by (simp add: Foreach_def listing_def)
qed


lemma in_walk:
  assumes "\<forall>e \<in> set es. node_ok (snd e)" and "distinct (map fst es)"
  shows "(it, d) \<in> set (walk items es) \<longleftrightarrow>
    (\<exists>k path c. it = rev (k # path) @ items \<and> map_of es k = Some c \<and> data_at c path = Some d)"
  using assms
proof (induction items es rule: walk.induct)
  case (1 items)
  then show ?case by simp
next
  case (2 items e es)
  let ?ni = "fst e # items"
  have ok: "node_ok (snd e)" using "2.prems" by simp
  have ch: "(it, d) \<in> set (walk ?ni (getChildren (snd e))) \<longleftrightarrow>
      (\<exists>k path. it = rev (k # path) @ ?ni \<and> data_at (snd e) (k # path) = Some d)"
    using "2.IH"(1) ok node_ok_iff [of "snd e"]
    by (force simp: getChild_children split: option.splits)
  have here: "(it, d) \<in> set (case node_data (snd e) of None \<Rightarrow> [] | Some d \<Rightarrow> [(?ni, d)]) \<longleftrightarrow>
      it = ?ni \<and> data_at (snd e) [] = Some d"
    by (auto split: option.split)
  have first: "(\<exists>path. it = rev path @ ?ni \<and> data_at (snd e) path = Some d) \<longleftrightarrow>
      (it = ?ni \<and> data_at (snd e) [] = Some d) \<or>
      (\<exists>k path. it = rev (k # path) @ ?ni \<and> data_at (snd e) (k # path) = Some d)"
    by (metis append_Nil list.exhaust rev.simps(1))
  have rest: "(it, d) \<in> set (walk items es) \<longleftrightarrow>
      (\<exists>k path c. it = rev (k # path) @ items \<and> map_of es k = Some c \<and> data_at c path = Some d)"
    using "2.IH"(2) "2.prems" by simp
  have new: "fst e \<notin> fst ` set es" using "2.prems"(2) by simp
  have "(\<exists>k path c. it = rev (k # path) @ items \<and> map_of (e # es) k = Some c \<and> data_at c path = Some d) \<longleftrightarrow>
      (\<exists>path. it = rev path @ ?ni \<and> data_at (snd e) path = Some d) \<or>
      (\<exists>k path c. it = rev (k # path) @ items \<and> map_of es k = Some c \<and> data_at c path = Some d)"
  proof -
    have "map_of (e # es) k = Some c \<longleftrightarrow> k = fst e \<and> c = snd e \<or> map_of es k = Some c" for k c
      using new by (auto dest: gm_get_in_keys)
    then show ?thesis by auto
  qed
  then show ?case using ch here first rest by auto
qed

lemma in_listing:
  assumes "node_ok rt"
  shows "(it, d) \<in> set (listing rt) \<longleftrightarrow> it \<noteq> [] \<and> data_at rt (rev it) = Some d"
proof -
  have ok: "\<forall>e \<in> set (getChildren rt). node_ok (snd e)" "distinct (map fst (getChildren rt))"
    using assms node_ok_iff [of rt] by auto
  have "set (listing rt) = set (walk [] (getChildren rt))"
  proof -
    have "set (concat (map (\<lambda>e. walk [fst e] (getChildren (snd e)) @
        (case node_data (snd e) of None \<Rightarrow> [] | Some d \<Rightarrow> [([fst e], d)])) es)) = set (walk [] es)"
      for es :: "(string \<times> 'a Node) list"
      by (induction es) auto
    then show ?thesis by (simp add: listing_def)
  qed
  moreover have "(\<exists>k path c. it = rev (k # path) @ [] \<and> map_of (getChildren rt) k = Some c \<and> data_at c path = Some d) \<longleftrightarrow>
      it \<noteq> [] \<and> data_at rt (rev it) = Some d"
  proof
    assume s: "it \<noteq> [] \<and> data_at rt (rev it) = Some d"
    then obtain k path where r: "rev it = k # path" by (cases "rev it") auto
    with s obtain c where c: "getChild k rt = Some c" "data_at c path = Some d"
      by (auto split: option.splits)
    have "it = rev (k # path) @ []" using arg_cong [OF r, of rev] by simp
    with c show "\<exists>k path c. it = rev (k # path) @ [] \<and> map_of (getChildren rt) k = Some c \<and> data_at c path = Some d"
      by (metis getChild_children)
  qed (auto simp: getChild_children)
  ultimately show ?thesis using in_walk [OF ok, of it d "[]"] by simp
qed

text \<open>Going over a trie visits the patterns it stores, each with its value, and nothing else.\<close>

theorem trie_foreach_lists:
  "set (Foreach (\<lambda>n d seen. (True, (n, d) # seen)) (build uni ps) []) =
    {(join_with domainStep parts, d) | parts d.
      parts \<noteq> [] \<and> map_of (rev (concat (map (expand uni) ps))) (rev parts) = Some d}"
proof -
  have "set (fold (\<lambda>p. (#) (join_with domainStep (fst p), snd p)) l s) =
      (\<lambda>p. (join_with domainStep (fst p), snd p)) ` set l \<union> set s" for l :: "(string list \<times> 'a) list" and s
    by (induction l arbitrary: s) auto
  then have "set (Foreach (\<lambda>n d seen. (True, (n, d) # seen)) (build uni ps) []) =
      (\<lambda>p. (join_with domainStep (fst p), snd p)) ` set (listing (build uni ps))"
    by (simp add: foreach_listing)
  also have "\<dots> = {(join_with domainStep parts, d) | parts d. (parts, d) \<in> set (listing (build uni ps))}"
    by force
  finally show ?thesis by (simp add: in_listing [OF node_ok_build] data_at_build)
qed

text \<open>
  A callback that answers \<open>false\<close> below a label of the first level stops only there: \<open>Foreach\<close> goes
  on with the label itself and with the labels after it.
\<close>

definition demo_trie :: "nat Node" where
  "demo_trie = build (\<lambda>s. s) [(''a.b'', 1), (''b'', 2), (''c'', 3)]"

lemma foreach_goes_on:
  "Foreach (\<lambda>n d seen. (n \<noteq> ''a.b'', seen @ [n])) demo_trie [] = [''a.b'', ''b'', ''c'']"
  by code_simp

lemma demo_search: "Search (\<lambda>s. s) ''a.b'' demo_trie = Some 1 \<and> Search (\<lambda>s. s) ''x.b'' demo_trie = None"
  by code_simp

end
