(* ===== verification/GlobMatch.thy ===== *)
theory GlobMatch
  imports Prelude
begin

text \<open>
  Matching a string against a pattern with \<open>*\<close> and \<open>?\<close> (\<open>component/wildcard/wildcard.go\<close>), byte by byte.
  The loop of \<open>matchByString\<close> keeps two indices and, after a \<open>*\<close>, the place to which it goes
  back; here the indices are the rests of the strings they point at: \<open>back\<close> is the pattern after the
  last star and the string from \<open>lastStar\<close>. The loop always ends, and it decides the same as the
  recursive definition of what a pattern matches, although it never goes back before the last star.
\<close>

function match_loop :: "string \<Rightarrow> string \<Rightarrow> (string \<times> string) option \<Rightarrow> bool" where
  "match_loop p s back =
     (if s = [] then dropWhile (\<lambda>c. c = CHR ''*'') p = []
      else if p \<noteq> [] \<and> hd p = CHR ''?'' then match_loop (tl p) (tl s) back
      else if p \<noteq> [] \<and> hd p = CHR ''*'' then match_loop (tl p) s (Some (tl p, s))
      else if p \<noteq> [] \<and> hd p = hd s then match_loop (tl p) (tl s) back
      else (case back of
              None \<Rightarrow> False
            | Some (bp, bs) \<Rightarrow> match_loop bp (tl bs) (Some (bp, tl bs))))"
  by pat_completeness auto
termination
  by (relation "measures [\<lambda>(p, s, back). case back of None \<Rightarrow> length s + 1
                   | Some b \<Rightarrow> max (length (snd b)) (length s), \<lambda>(p, s, back). length p]")
     (auto simp: neq_Nil_conv max_def split: option.splits)

declare match_loop.simps [simp del]

definition matchByString :: "string \<Rightarrow> string \<Rightarrow> bool" where
  "matchByString pattern s = match_loop pattern s None"

definition glob_match :: "string \<Rightarrow> string \<Rightarrow> bool" where
  "glob_match pattern s =
     (if pattern = [] then s = pattern
      else if pattern = ''*'' \<or> s = pattern then True
      else matchByString pattern s)"

section \<open>What a pattern matches\<close>

fun glob :: "string \<Rightarrow> string \<Rightarrow> bool" where
  "glob [] s = (s = [])"
| "glob (c # p) [] = (c = CHR ''*'' \<and> glob p [])"
| "glob (c # p) (x # s) =
     (if c = CHR ''*'' then glob p (x # s) \<or> glob (c # p) s
      else (c = CHR ''?'' \<or> c = x) \<and> glob p s)"

lemma glob_star: "glob (CHR ''*'' # p) s \<longleftrightarrow> (\<exists>k \<le> length s. glob p (drop k s))"
proof (induction s)
  case Nil
  then show ?case by simp
next
  case (Cons x s)
  have "(\<exists>k \<le> length (x # s). glob p (drop k (x # s))) \<longleftrightarrow>
      glob p (x # s) \<or> (\<exists>k \<le> length s. glob p (drop k s))"
    by (metis Suc_le_mono drop0 drop_Suc_Cons length_Cons less_eq_nat.simps(1) old.nat.exhaust)
  with Cons show ?case by simp
qed

lemma glob_star_here: "glob p s \<Longrightarrow> glob (CHR ''*'' # p) s"
  unfolding glob_star by (intro exI [of _ 0]) simp

lemma glob_star_suffix: "glob (CHR ''*'' # p) (drop j s) \<Longrightarrow> glob (CHR ''*'' # p) s"
proof -
  assume "glob (CHR ''*'' # p) (drop j s)"
  then obtain k where k: "k \<le> length (drop j s)" "glob p (drop k (drop j s))"
    unfolding glob_star by blast
  show ?thesis
  proof (cases "j \<le> length s")
    case True
    with k show ?thesis unfolding glob_star by (intro exI [of _ "k + j"]) (auto simp: add.commute)
  next
    case False
    with k show ?thesis unfolding glob_star by (intro exI [of _ "length s"]) auto
  qed
qed

text \<open>A piece of pattern without stars matches exactly as many bytes as it is long.\<close>

definition plain_match :: "string \<Rightarrow> string \<Rightarrow> bool" where
  "plain_match v u = list_all2 (\<lambda>c x. c \<noteq> CHR ''*'' \<and> (c = CHR ''?'' \<or> c = x)) v u"

lemma plain_snoc: "plain_match v u \<Longrightarrow> c \<noteq> CHR ''*'' \<Longrightarrow> c = CHR ''?'' \<or> c = x \<Longrightarrow> plain_match (v @ [c]) (u @ [x])"
  by (simp add: plain_match_def list_all2_appendI)

lemma plain_Nil: "plain_match [] []"
  by (simp add: plain_match_def)

lemma glob_plain: "plain_match v u \<Longrightarrow> glob (v @ p) (u @ s) \<longleftrightarrow> glob p s"
  unfolding plain_match_def by (induction v u rule: list_all2_induct) auto

lemma glob_plain_drop:
  "\<forall>c \<in> set v. c \<noteq> CHR ''*'' \<Longrightarrow> glob (v @ p) s \<Longrightarrow> glob p (drop (length v) s)"
proof (induction v arbitrary: s)
  case (Cons c v)
  then show ?case by (cases s) auto
qed simp

lemma plain_no_star: "plain_match v u \<Longrightarrow> (\<forall>c \<in> set v. c \<noteq> CHR ''*'') \<and> length v = length u"
  unfolding plain_match_def by (induction v u rule: list_all2_induct) auto

text \<open>Going back only to the last star loses nothing: an earlier star could only leave a shorter rest.\<close>

lemma last_star_enough:
  assumes "plain_match v u"
  shows "glob (CHR ''*'' # v @ CHR ''*'' # p) (u @ s) \<longleftrightarrow> glob (CHR ''*'' # p) s"
proof
  assume "glob (CHR ''*'' # p) s"
  then have "glob (v @ CHR ''*'' # p) (u @ s)" using glob_plain [OF assms] by blast
  then show "glob (CHR ''*'' # v @ CHR ''*'' # p) (u @ s)" by (rule glob_star_here)
next
  assume "glob (CHR ''*'' # v @ CHR ''*'' # p) (u @ s)"
  then obtain k where "glob (v @ CHR ''*'' # p) (drop k (u @ s))" unfolding glob_star by blast
  then have "glob (CHR ''*'' # p) (drop (length v) (drop k (u @ s)))"
    by (rule glob_plain_drop [rotated]) (use plain_no_star [OF assms] in blast)
  moreover have "drop (length v) (drop k (u @ s)) = drop k s"
    using plain_no_star [OF assms] by (simp only: drop_drop) (simp add: add.commute)
  ultimately have "glob (CHR ''*'' # p) (drop k s)" by simp
  then show "glob (CHR ''*'' # p) s" by (rule glob_star_suffix)
qed

lemma glob_empty: "glob p [] \<longleftrightarrow> dropWhile (\<lambda>c. c = CHR ''*'') p = []"
  by (induction p) auto

lemma match_loop_back:
  assumes "bk = Some (v @ p, u @ s)" and "plain_match v u"
  shows "match_loop p s bk \<longleftrightarrow> glob (CHR ''*'' # v @ p) (u @ s)"
  using assms
proof (induction p s bk arbitrary: v u rule: match_loop.induct)
  case (1 p s bk)
  note len = plain_no_star [OF "1.prems"(2)]
  show ?case
  proof (cases s)
    case Nil
    have "glob (CHR ''*'' # v @ p) u \<longleftrightarrow> glob p []"
    proof
      assume "glob (CHR ''*'' # v @ p) u"
      then obtain k where "glob (v @ p) (drop k u)" unfolding glob_star by blast
      with glob_plain_drop [of v p "drop k u"] len show "glob p []" by simp
    next
      assume "glob p []"
      then have "glob (v @ p) (u @ [])" using glob_plain [OF "1.prems"(2)] by blast
      then show "glob (CHR ''*'' # v @ p) u" unfolding glob_star by (intro exI [of _ 0]) simp
    qed
    with Nil show ?thesis by (subst match_loop.simps) (simp add: glob_empty)
  next
    case (Cons x s')
    consider (one) p' where "p = CHR ''?'' # p'" | (star) p' where "p = CHR ''*'' # p'"
      | (same) p' where "p = x # p'" "x \<noteq> CHR ''?''" "x \<noteq> CHR ''*''"
      | (off) "p = [] \<or> (hd p \<noteq> CHR ''?'' \<and> hd p \<noteq> CHR ''*'' \<and> hd p \<noteq> x)"
      by (cases p) auto
    then show ?thesis
    proof cases
      case one
      have "match_loop p' s' bk \<longleftrightarrow> glob (CHR ''*'' # (v @ [CHR ''?'']) @ p') ((u @ [x]) @ s')"
        using "1.IH"(1) [of "v @ [CHR ''?'']" "u @ [x]"] "1.prems" Cons one
          plain_snoc [OF "1.prems"(2), of "CHR ''?''" x] by simp
      with Cons one show ?thesis by (subst match_loop.simps) simp
    next
      case star
      have "match_loop p' s (Some (p', s)) \<longleftrightarrow> glob (CHR ''*'' # [] @ p') ([] @ s)"
        using "1.IH"(2) [of "[]" "[]"] Cons star plain_Nil by simp
      with last_star_enough [OF "1.prems"(2), of p' s] Cons star show ?thesis
        by (subst match_loop.simps) simp
    next
      case same
      have "match_loop p' s' bk \<longleftrightarrow> glob (CHR ''*'' # (v @ [x]) @ p') ((u @ [x]) @ s')"
        using "1.IH"(3) [of "v @ [x]" "u @ [x]"] "1.prems" Cons same
          plain_snoc [OF "1.prems"(2), of x x] by simp
      with Cons same show ?thesis by (subst match_loop.simps) simp
    next
      case off
      have l: "match_loop p s bk = match_loop (v @ p) (tl (u @ s)) (Some (v @ p, tl (u @ s)))"
        using Cons off "1.prems"(1) by (subst match_loop.simps) auto
      have "\<not> glob p s" using Cons off by (cases p) auto
      then have "\<not> glob (v @ p) (u @ s)" using glob_plain [OF "1.prems"(2)] by simp
      moreover obtain y bs where "u @ s = y # bs" using Cons by (cases "u @ s") auto
      ultimately have g: "glob (CHR ''*'' # v @ p) (u @ s) \<longleftrightarrow> glob (CHR ''*'' # v @ p) (tl (u @ s))"
        by simp
      have "match_loop (v @ p) (tl (u @ s)) (Some (v @ p, tl (u @ s))) \<longleftrightarrow>
          glob (CHR ''*'' # [] @ v @ p) ([] @ tl (u @ s))"
        by (rule "1.IH"(4)) (use Cons off "1.prems"(1) plain_Nil in auto)
      with l g show ?thesis by simp
    qed
  qed
qed

lemma match_loop_start: "match_loop p s None \<longleftrightarrow> glob p s"
proof (induction p arbitrary: s)
  case Nil
  then show ?case by (subst match_loop.simps) auto
next
  case (Cons c p)
  show ?case
  proof (cases s)
    case Nil
    then show ?thesis by (subst match_loop.simps) (simp add: glob_empty)
  next
    case (Cons x s')
    with Cons.IH match_loop_back [of _ "[]" p "[]" s] plain_Nil show ?thesis
      by (subst match_loop.simps) auto
  qed
qed

text \<open>
  The loop decides what the pattern matches.\<close>

theorem glob_match_correct: "glob_match pattern s = glob pattern s"
proof -
  have "glob ''*'' s" by (induction s) auto
  moreover have "glob s s"
  proof (induction s)
    case (Cons c s)
    then show ?case using glob_star_here [of s "c # s"] glob_star_suffix [of s 1 "c # s"]
      by (cases "c = CHR ''*''") (simp_all add: glob_star_here)
  qed simp
  ultimately show ?thesis
    by (cases pattern) (auto simp: glob_match_def matchByString_def match_loop_start)
qed

lemma glob_literal: "CHR ''*'' \<notin> set p \<Longrightarrow> CHR ''?'' \<notin> set p \<Longrightarrow> glob p s \<longleftrightarrow> s = p"
proof (induction p arbitrary: s)
  case (Cons c p)
  then show ?case by (cases s) auto
qed simp

end
