(* ===== verification/PortRanges.thy ===== *)
theory PortRanges
  imports GoStd "HOL-Library.Word"
begin

text \<open>
  Lists of integer ranges (\<open>common/utils/range.go\<close>, \<open>ranges.go\<close>): parsing of \<open>"80/443/8000-9000"\<close>, the test
  of a number, and the merging of ranges. The integer type of Go is a word of its width; the
  models are for any width.
\<close>

record 'a int_range =
  rg_start :: 'a
  rg_end :: 'a

definition NewRange :: "'a::linorder \<Rightarrow> 'a \<Rightarrow> 'a int_range" where
  "NewRange a b = (if a > b then \<lparr>rg_start = b, rg_end = a\<rparr> else \<lparr>rg_start = a, rg_end = b\<rparr>)"

definition range_Contains :: "'a::linorder int_range \<Rightarrow> 'a \<Rightarrow> bool" where
  "range_Contains r t = (t \<ge> rg_start r \<and> t \<le> rg_end r)"

section \<open>Parsing\<close>

text \<open>\<open>strconv.ParseUint(s, 10, 64)\<close>\<close>

definition parse_uint64 :: "string \<Rightarrow> int option" where
  "parse_uint64 s =
     (if s = [] \<or> \<not> list_all is_digit s then None
      else let v = digits_val 0 s in if v \<ge> 2 ^ 64 then None else Some v)"

definition parseUnsigned :: "string \<Rightarrow> 'a::len word option" where
  "parseUnsigned s = map_option word_of_int (parse_uint64 s)"

definition newIntRange :: "string \<Rightarrow> 'a::len word int_range option" where
  "newIntRange s0 =
     (let s = trim_space s0
      in if s = [] then Some (NewRange 0 0)
         else let status = split_on (CHR ''-'') s
           in (case parseUnsigned (trim_both (status ! 0) ''[ ]'') of
                 None \<Rightarrow> None
               | Some a \<Rightarrow>
                   if length status = 1 then Some (NewRange a a)
                   else if length status = 2 then
                     (case parseUnsigned (trim_both (status ! 1) ''[ ]'') of
                        None \<Rightarrow> None | Some b \<Rightarrow> Some (NewRange a b))
                   else None))"

fun newIntRangesFromList :: "string list \<Rightarrow> 'a::len word int_range list option" where
  "newIntRangesFromList [] = Some []"
| "newIntRangesFromList (s # ss) =
     (if s = [] then newIntRangesFromList ss
      else (case newIntRange s of
              None \<Rightarrow> None
            | Some r \<Rightarrow> map_option ((#) r) (newIntRangesFromList ss)))"

definition newIntRanges :: "string \<Rightarrow> 'a::len word int_range list option" where
  "newIntRanges expected0 =
     (let expected = trim_space expected0
      in if expected = [] \<or> expected = ''*'' then Some []
         else let parts = split_on (CHR ''/'') (map (\<lambda>c. if c = CHR '','' then CHR ''/'' else c) expected)
           in if length parts > 28 then None else newIntRangesFromList parts)"

section \<open>Testing and merging\<close>

definition ranges_Check :: "'a::linorder int_range list \<Rightarrow> 'a \<Rightarrow> bool" where
  "ranges_Check ranges status = (ranges = [] \<or> (\<exists>r \<in> set ranges. range_Contains r status))"

text \<open>
  \<open>Merge\<close> writes into the array it reads, always at or before the place it reads; \<open>cur\<close> is the last
  merged range.
\<close>

fun merge_loop :: "'a::len word int_range \<Rightarrow> 'a word int_range list \<Rightarrow> 'a word int_range list" where
  "merge_loop cur [] = [cur]"
| "merge_loop cur (r # rs) =
     (if rg_end cur + 1 > rg_end cur \<and> rg_start r > rg_end cur + 1 then cur # merge_loop r rs
      else if rg_end r > rg_end cur then merge_loop (cur\<lparr>rg_end := rg_end r\<rparr>) rs
      else merge_loop cur rs)"

definition Merge :: "'a::len word int_range list \<Rightarrow> 'a word int_range list" where
  "Merge ranges =
     (case sort_slice (\<lambda>a b. rg_start a < rg_start b) ranges of [] \<Rightarrow> [] | r # rs \<Rightarrow> merge_loop r rs)"

section \<open>What they mean\<close>

definition range_ok :: "'a::linorder int_range \<Rightarrow> bool" where
  "range_ok r = (rg_start r \<le> rg_end r)"

lemma range_ok_new: "range_ok (NewRange a b)"
  by (auto simp: range_ok_def NewRange_def)

lemma newIntRange_ok: "newIntRange s = Some r \<Longrightarrow> range_ok r"
  by (auto simp: newIntRange_def Let_def range_ok_new split: if_splits option.splits)

lemma newIntRangesFromList_ok: "newIntRangesFromList ss = Some rs \<Longrightarrow> \<forall>r \<in> set rs. range_ok r"
  by (induction ss arbitrary: rs) (auto simp: newIntRange_ok split: if_splits option.splits)

lemma newIntRanges_ok: "newIntRanges s = Some rs \<Longrightarrow> \<forall>r \<in> set rs. range_ok r"
  by (auto simp: newIntRanges_def Let_def dest: newIntRangesFromList_ok split: if_splits)

text \<open>The next number above a range, where there is one.\<close>

lemma word_next_greater: "(w :: 'a::len word) < w + 1 \<longleftrightarrow> w \<noteq> - 1"
  using unatSuc [of w] by (auto simp: word_less_nat_alt add.commute eq_neg_iff_add_eq_0)

lemma gap_iff: "rg_end (cur :: 'a::len word int_range) + 1 > rg_end cur \<and> b > rg_end cur + 1 \<longleftrightarrow>
    unat (rg_end cur) + 1 < unat b"
proof (cases "rg_end cur = - 1")
  case True
  then have "unat b \<le> unat (rg_end cur)" by (simp add: word_le_nat_alt [symmetric])
  with True show ?thesis by simp
next
  case False
  then have "unat (rg_end cur + 1) = unat (rg_end cur) + 1"
    using unatSuc [of "rg_end cur"] by (auto simp: add.commute eq_neg_iff_add_eq_0)
  with False show ?thesis by (simp add: word_next_greater) (simp add: word_less_nat_alt)
qed

definition far_apart :: "'a::len word int_range \<Rightarrow> 'a word int_range \<Rightarrow> bool" where
  "far_apart a b = (unat (rg_end a) + 1 < unat (rg_start b))"

lemma merge_loop_spec:
  assumes "range_ok cur" and "\<forall>r \<in> set rs. range_ok r \<and> rg_start cur \<le> rg_start r"
    and "sorted_wrt (\<lambda>a b. rg_start a \<le> rg_start b) rs"
  shows "((\<exists>r \<in> set (merge_loop cur rs). range_Contains r t) \<longleftrightarrow>
      range_Contains cur t \<or> (\<exists>r \<in> set rs. range_Contains r t)) \<and>
    (\<forall>r \<in> set (merge_loop cur rs). range_ok r \<and> rg_start cur \<le> rg_start r) \<and>
    sorted_wrt far_apart (merge_loop cur rs)"
  using assms
proof (induction cur rs rule: merge_loop.induct)
  case (1 cur)
  then show ?case by simp
next
  case (2 cur r rs)
  consider (gap) "unat (rg_end cur) + 1 < unat (rg_start r)"
    | (grow) "\<not> unat (rg_end cur) + 1 < unat (rg_start r)" "rg_end r > rg_end cur"
    | (skip) "\<not> unat (rg_end cur) + 1 < unat (rg_start r)" "\<not> rg_end r > rg_end cur" by blast
  then show ?case
  proof cases
    case gap
    have "(\<exists>q \<in> set (merge_loop r rs). range_Contains q t) \<longleftrightarrow>
        range_Contains r t \<or> (\<exists>q \<in> set rs. range_Contains q t)"
      and m: "\<forall>q \<in> set (merge_loop r rs). range_ok q \<and> rg_start r \<le> rg_start q"
      and "sorted_wrt far_apart (merge_loop r rs)"
      using "2.IH"(1) gap_iff [of cur "rg_start r"] gap "2.prems" by auto
    moreover have "far_apart cur q" if "q \<in> set (merge_loop r rs)" for q
      using m that gap by (auto simp: far_apart_def word_le_nat_alt dest!: bspec)
    moreover have "rg_start cur \<le> rg_start q" if "q \<in> set (merge_loop r rs)" for q
      using m that "2.prems"(2) by (auto intro: order_trans)
    ultimately show ?thesis using gap_iff [of cur "rg_start r"] gap "2.prems"(1) by auto
  next
    case grow
    let ?c = "cur\<lparr>rg_end := rg_end r\<rparr>"
    have c: "range_ok ?c" using "2.prems"(1) grow(2) by (auto simp: range_ok_def)
    have "range_Contains ?c t \<longleftrightarrow> range_Contains cur t \<or> range_Contains r t"
      using "2.prems" grow by (auto simp: range_Contains_def range_ok_def word_le_nat_alt word_less_nat_alt)
    with "2.IH"(2) gap_iff [of cur "rg_start r"] grow "2.prems" c show ?thesis by auto
  next
    case skip
    have "range_Contains r t \<Longrightarrow> range_Contains cur t"
      using "2.prems"(2) skip(2) by (auto simp: range_Contains_def)
    with "2.IH"(3) gap_iff [of cur "rg_start r"] skip "2.prems" show ?thesis by auto
  qed
qed

text \<open>
  Property C23. Merging keeps exactly the numbers of a list of parsed ranges, leaves a gap between any two of the
  ranges it returns, and does not wrap around at the largest number.
\<close>

theorem merge_keeps_numbers:
  fixes ranges :: "'a::len word int_range list"
  assumes "newIntRanges s = Some ranges"
  shows "ranges_Check (Merge ranges) t = ranges_Check ranges t \<and> sorted_wrt far_apart (Merge ranges)"
proof (cases "sort_slice (\<lambda>a b. rg_start a < rg_start b) ranges")
  case Nil
  then have "ranges = []" by (metis length_0_conv length_sort_slice)
  with Nil show ?thesis by (simp add: Merge_def)
next
  case (Cons r rs)
  have "sorted_wrt (\<lambda>a b. \<not> rg_start b < rg_start a) (r # rs)"
    unfolding Cons [symmetric] by (rule sorted_sort_slice) auto
  then have s: "\<forall>q \<in> set rs. rg_start r \<le> rg_start q" "sorted_wrt (\<lambda>a b. rg_start a \<le> rg_start b) rs"
    by (auto simp: not_less)
  have set: "set (r # rs) = set ranges" unfolding Cons [symmetric] by simp
  then have ok: "range_ok r" "\<forall>q \<in> set rs. range_ok q" using newIntRanges_ok [OF assms] by auto
  have m: "Merge ranges = merge_loop r rs" by (simp add: Merge_def Cons)
  have "merge_loop r rs \<noteq> []" by (induction r rs rule: merge_loop.induct) auto
  moreover have "ranges \<noteq> []" using set by auto
  ultimately show ?thesis
    using merge_loop_spec [of r rs t] ok s set by (auto simp: m ranges_Check_def)
qed


lemma demo_ranges:
  "(newIntRanges ''443-445/446/80'' :: 16 word int_range list option) =
    Some [\<lparr>rg_start = 443, rg_end = 445\<rparr>, \<lparr>rg_start = 446, rg_end = 446\<rparr>, \<lparr>rg_start = 80, rg_end = 80\<rparr>]"
  by code_simp

theorem merge_keeps_numbers_witness:
  "ranges_Check (Merge [\<lparr>rg_start = 443, rg_end = 445\<rparr>, \<lparr>rg_start = 446, rg_end = 446\<rparr>,
      \<lparr>rg_start = 80, rg_end = 80 :: 16 word\<rparr>]) 446 \<and>
    sorted_wrt far_apart (Merge [\<lparr>rg_start = 443, rg_end = 445\<rparr>, \<lparr>rg_start = 446, rg_end = 446\<rparr>,
      \<lparr>rg_start = 80, rg_end = 80 :: 16 word\<rparr>])"
  using merge_keeps_numbers [OF demo_ranges, of 446] by (simp add: ranges_Check_def range_Contains_def)

text \<open>
  The parser reads a number of up to 64 bits and cuts it to the width of the list: a port rule
  for 65616 is one for port 80.
\<close>

lemma large_port_cut:
  "(newIntRanges ''65616'' :: 16 word int_range list option) = Some [\<lparr>rg_start = 80, rg_end = 80\<rparr>]"
  by code_simp

end
