(* ===== verification/RouteTypes.thy ===== *)
theory RouteTypes
  imports NetAddr GoStd
begin

text \<open>
  What the routing of the proxy core knows of a connection (\<open>constant/metadata.go\<close>, \<open>dns.go\<close>): the record
  \<open>Metadata\<close> with its small operations. Raw addresses and the text for JSON are left out; the
  cached GeoIP codes are \<open>None\<close> where Go has a nil slice, which means that nobody looked them up.
\<close>

datatype NetWork = TCP | UDP | ALLNet | InvalidNet

datatype inbound_type =
    HTTP | HTTPS | SOCKS4 | SOCKS5 | SHADOWSOCKS | SNELL | VMESS | VLESS | REDIR | TPROXY | TROJAN
  | TUNNEL | TUN | TUIC | HYSTERIA2 | ANYTLS | MIERU | SUDOKU | TRUSTTUNNEL | SHADOWQUIC | INNER

datatype DNSMode = DNSNormal | DNSFakeIP | DNSMapping | DNSHosts

datatype AddrType = AtypIPv4 | AtypDomainName | AtypIPv6

fun network_String :: "NetWork \<Rightarrow> string" where
  "network_String TCP = ''tcp''"
| "network_String UDP = ''udp''"
| "network_String ALLNet = ''all''"
| "network_String InvalidNet = ''invalid''"

fun type_String :: "inbound_type \<Rightarrow> string" where
  "type_String HTTP = ''HTTP''"
| "type_String HTTPS = ''HTTPS''"
| "type_String SOCKS4 = ''Socks4''"
| "type_String SOCKS5 = ''Socks5''"
| "type_String SHADOWSOCKS = ''ShadowSocks''"
| "type_String SNELL = ''Snell''"
| "type_String VMESS = ''Vmess''"
| "type_String VLESS = ''Vless''"
| "type_String REDIR = ''Redir''"
| "type_String TPROXY = ''TProxy''"
| "type_String TROJAN = ''Trojan''"
| "type_String TUNNEL = ''Tunnel''"
| "type_String TUN = ''Tun''"
| "type_String TUIC = ''Tuic''"
| "type_String HYSTERIA2 = ''Hysteria2''"
| "type_String ANYTLS = ''AnyTLS''"
| "type_String MIERU = ''Mieru''"
| "type_String SUDOKU = ''Sudoku''"
| "type_String TRUSTTUNNEL = ''TrustTunnel''"
| "type_String SHADOWQUIC = ''ShadowQuic''"
| "type_String INNER = ''Inner''"

definition ParseType :: "string \<Rightarrow> inbound_type option" where
  "ParseType t = map_of
     [(''HTTP'', HTTP), (''HTTPS'', HTTPS), (''SOCKS4'', SOCKS4), (''SOCKS5'', SOCKS5),
      (''SHADOWSOCKS'', SHADOWSOCKS), (''SNELL'', SNELL), (''VMESS'', VMESS), (''VLESS'', VLESS),
      (''REDIR'', REDIR), (''TPROXY'', TPROXY), (''TROJAN'', TROJAN), (''TUNNEL'', TUNNEL),
      (''TUN'', TUN), (''TUIC'', TUIC), (''HYSTERIA2'', HYSTERIA2), (''ANYTLS'', ANYTLS),
      (''MIERU'', MIERU), (''SUDOKU'', SUDOKU), (''TRUSTTUNNEL'', TRUSTTUNNEL),
      (''SHADOWQUIC'', SHADOWQUIC), (''INNER'', INNER)] t"

text \<open>A type is read back from its own name in capital letters, which is how rules name it.\<close>

lemma ParseType_String: "ParseType (map ascii_upper_char (type_String t)) = Some t"
  by (cases t; hypsubst; code_simp)

record Metadata =
  md_NetWork :: NetWork
  md_Type :: inbound_type
  md_SrcIP :: Addr
  md_DstIP :: Addr
  md_SrcGeoIP :: "string list option"
  md_DstGeoIP :: "string list option"
  md_SrcIPASN :: string
  md_DstIPASN :: string
  md_SrcPort :: "16 word"
  md_DstPort :: "16 word"
  md_InIP :: Addr
  md_InPort :: "16 word"
  md_InName :: string
  md_InUser :: string
  md_RematchName :: string
  md_Host :: string
  md_DNSMode :: DNSMode
  md_Uid :: "32 word"
  md_Process :: string
  md_ProcessPath :: string
  md_SpecialProxy :: string
  md_SpecialRules :: string
  md_RemoteDst :: string
  md_DSCP :: "8 word"
  md_SniffHost :: string

definition SourceValid :: "Metadata \<Rightarrow> bool" where
  "SourceValid m = (md_SrcPort m \<noteq> 0 \<and> IsValid (md_SrcIP m))"

definition md_AddrType :: "Metadata \<Rightarrow> AddrType" where
  "md_AddrType m =
     (if md_Host m \<noteq> [] \<or> \<not> IsValid (md_DstIP m) then AtypDomainName
      else if addr_BitLen (md_DstIP m) = 32 then AtypIPv4 else AtypIPv6)"

definition Resolved :: "Metadata \<Rightarrow> bool" where
  "Resolved m = IsValid (md_DstIP m)"

definition RuleHost :: "Metadata \<Rightarrow> string" where
  "RuleHost m = (if md_SniffHost m = [] then md_Host m else md_SniffHost m)"

definition Pure :: "Metadata \<Rightarrow> Metadata" where
  "Pure m =
     (if (md_DNSMode m = DNSMapping \<or> md_DNSMode m = DNSHosts) \<and> IsValid (md_DstIP m)
      then m\<lparr>md_Host := []\<rparr> else m)"

definition md_Valid :: "Metadata \<Rightarrow> bool" where
  "md_Valid m = (md_Host m \<noteq> [] \<or> IsValid (md_DstIP m))"

definition AddrPort :: "Metadata \<Rightarrow> Addr \<times> 16 word" where
  "AddrPort m = (Unmap (md_DstIP m), md_DstPort m)"

definition SourceAddrPort :: "Metadata \<Rightarrow> Addr \<times> 16 word" where
  "SourceAddrPort m = (Unmap (md_SrcIP m), md_SrcPort m)"

definition UDPAddr :: "Metadata \<Rightarrow> (Addr \<times> 16 word) option" where
  "UDPAddr m = (if md_NetWork m \<noteq> UDP \<or> \<not> IsValid (md_DstIP m) then None else Some (AddrPort m))"

definition SwapSrcDst :: "Metadata \<Rightarrow> Metadata" where
  "SwapSrcDst m =
     m\<lparr>md_SrcIP := md_DstIP m, md_DstIP := md_SrcIP m,
       md_SrcPort := md_DstPort m, md_DstPort := md_SrcPort m,
       md_SrcIPASN := md_DstIPASN m, md_DstIPASN := md_SrcIPASN m,
       md_SrcGeoIP := md_DstGeoIP m, md_DstGeoIP := md_SrcGeoIP m\<rparr>"

lemma SwapSrcDst_twice [simp]: "SwapSrcDst (SwapSrcDst m) = m"
  by (simp add: SwapSrcDst_def)

lemma SwapSrcDst_keeps [simp]:
  "md_Host (SwapSrcDst m) = md_Host m" "md_NetWork (SwapSrcDst m) = md_NetWork m"
  "md_SpecialRules (SwapSrcDst m) = md_SpecialRules m" "md_SniffHost (SwapSrcDst m) = md_SniffHost m"
  "md_SpecialProxy (SwapSrcDst m) = md_SpecialProxy m" "md_RematchName (SwapSrcDst m) = md_RematchName m"
  "md_Type (SwapSrcDst m) = md_Type m"
  by (simp_all add: SwapSrcDst_def)

text \<open>
  \<open>SetRemoteAddress\<close>: a text \<open>host:port\<close>. \<open>net.SplitHostPort\<close> and \<open>netip.ParseAddr\<close> are arguments. A port
  that is not a number below 65536 is 0.
\<close>

definition port_number :: "string \<Rightarrow> 16 word" where
  "port_number s =
     (if s = [] \<or> \<not> list_all is_digit s \<or> digits_val 0 s \<ge> 2 ^ 16 then 0
      else word_of_int (digits_val 0 s))"

definition SetRemoteAddress ::
    "(string \<Rightarrow> (string \<times> string) option) \<Rightarrow> (string \<Rightarrow> Addr option) \<Rightarrow> string \<Rightarrow> Metadata \<Rightarrow> Metadata option" where
  "SetRemoteAddress splitHostPort parseAddr rawAddress m =
     (case splitHostPort rawAddress of
        None \<Rightarrow> None
      | Some (host, prt) \<Rightarrow>
          (let m1 = (case parseAddr host of
                       None \<Rightarrow> m\<lparr>md_Host := host, md_DstIP := NoAddr\<rparr>
                     | Some ip \<Rightarrow> m\<lparr>md_Host := [], md_DstIP := Unmap ip\<rparr>)
           in Some (m1\<lparr>md_DstPort := port_number prt\<rparr>)))"

lemma Pure_simps [simp]:
  "md_DstIP (Pure m) = md_DstIP m" "md_SpecialRules (Pure m) = md_SpecialRules m"
  by (simp_all add: Pure_def)

text \<open>A connection set from an address has exactly one of a name and an address, and is valid unless the name is empty.\<close>

lemma SetRemoteAddress_one:
  assumes "SetRemoteAddress sp pa raw m = Some m'" and "\<And>h ip. pa h = Some ip \<Longrightarrow> IsValid ip"
  shows "(md_Host m' = [] \<or> \<not> IsValid (md_DstIP m')) \<and>
    (md_Valid m' \<longleftrightarrow> (\<exists>h p. sp raw = Some (h, p) \<and> (h \<noteq> [] \<or> pa h \<noteq> None)))"
proof -
  have u: "IsValid (Unmap ip) \<longleftrightarrow> IsValid ip" for ip by (cases ip) auto
  show ?thesis using assms(1) assms(2)
    by (auto simp: SetRemoteAddress_def md_Valid_def u Let_def split: option.splits prod.splits)
qed

section \<open>Kinds of addresses\<close>

text \<open>
  Go looks at the IPv4 address inside a mapped one for these predicates.
\<close>

definition v4_octet :: "nat \<Rightarrow> 32 word \<Rightarrow> nat" where
  "v4_octet i w = unat (drop_bit (8 * (3 - i)) w) mod 256"

definition v6_u16 :: "nat \<Rightarrow> 128 word \<Rightarrow> nat" where
  "v6_u16 i w = unat (drop_bit (16 * (7 - i)) w) mod 65536"

definition IsPrivate :: "Addr \<Rightarrow> bool" where
  "IsPrivate a =
     (case Unmap a of
        NoAddr \<Rightarrow> False
      | Addr4 w \<Rightarrow> v4_octet 0 w = 10 \<or> (v4_octet 0 w = 172 \<and> v4_octet 1 w div 16 = 1) \<or>
          (v4_octet 0 w = 192 \<and> v4_octet 1 w = 168)
      | Addr6 w \<Rightarrow> v6_u16 0 w div 512 = 126)"

definition IsUnspecified :: "Addr \<Rightarrow> bool" where
  "IsUnspecified a = (a = Addr4 0 \<or> a = Addr6 0)"

definition IsLoopback :: "Addr \<Rightarrow> bool" where
  "IsLoopback a =
     (case Unmap a of NoAddr \<Rightarrow> False | Addr4 w \<Rightarrow> v4_octet 0 w = 127 | Addr6 w \<Rightarrow> w = 1)"

definition IsMulticast :: "Addr \<Rightarrow> bool" where
  "IsMulticast a =
     (case Unmap a of
        NoAddr \<Rightarrow> False | Addr4 w \<Rightarrow> v4_octet 0 w div 16 = 14 | Addr6 w \<Rightarrow> v6_u16 0 w div 256 = 255)"

definition IsLinkLocalUnicast :: "Addr \<Rightarrow> bool" where
  "IsLinkLocalUnicast a =
     (case Unmap a of
        NoAddr \<Rightarrow> False
      | Addr4 w \<Rightarrow> v4_octet 0 w = 169 \<and> v4_octet 1 w = 254
      | Addr6 w \<Rightarrow> v6_u16 0 w div 64 = 1018)"

text \<open>\<open>AsSlice\<close>: the octets of an address, the most significant first; none for no address.\<close>

fun AsSlice :: "Addr \<Rightarrow> 8 word list" where
  "AsSlice NoAddr = []"
| "AsSlice (Addr4 w) = map (\<lambda>i. ucast (drop_bit (8 * (3 - i)) w)) [0..<4]"
| "AsSlice (Addr6 w) = map (\<lambda>i. ucast (drop_bit (8 * (15 - i)) w)) [0..<16]"

lemma length_AsSlice: "8 * length (AsSlice a) = addr_BitLen a"
  by (cases a) simp_all

end
