(* ===== verification/RouteRules.thy ===== *)
theory RouteRules
  imports RouteTypes PortRanges GlobMatch
begin

text \<open>
  The routing rules of the proxy core (\<open>rules/common\<close>, \<open>rules/logic/logic.go\<close>, \<open>rules/provider/rule_set.go\<close>,
  \<open>rules/wrapper/wrapper.go\<close>, \<open>constant/rule.go\<close>) and what it means that a connection matches one. A
  rule may change what is known of the connection: the closures of the helper look up addresses and
  processes, GeoIP rules cache codes. Rules name sub-rules and rule sets, which hold rules again, so a
  match carries fuel for the depth of that nesting; \<open>None\<close> is a match that never comes back. Regular
  expressions, the geo databases and rule sets in other formats are fields of \<open>rule_ext\<close>.
\<close>

datatype RuleType =
    RtDomain | RtDomainSuffix | RtDomainKeyword | RtDomainRegex | RtDomainWildcard | RtGEOSITE
  | RtGEOIP | RtSrcGEOIP | RtIPASN | RtSrcIPASN | RtIPCIDR | RtSrcIPCIDR | RtIPSuffix | RtSrcIPSuffix
  | RtSrcPort | RtDstPort | RtInPort | RtDSCP | RtInUser | RtInName | RtInType
  | RtProcessName | RtProcessPath | RtProcessNameRegex | RtProcessPathRegex
  | RtProcessNameWildcard | RtProcessPathWildcard | RtRematchName | RtRuleSet | RtNetwork | RtUid
  | RtSubRules | RtMATCH | RtAND | RtOR | RtNOT

text \<open>
  The fields are in the order of the Go structs, flags last: first \<open>isSourceIP\<close> (\<open>isSrc\<close>), then
  \<open>noResolveIP\<close>. A compiled regular expression is its text. The map of sub-rules a \<open>Logic\<close> points to
  is the one of the configuration. A \<open>RuleWrapper\<close> has a number for its switch and counters.
\<close>

datatype Rule =
    Domain string string
  | DomainSuffix string string
  | DomainKeyword string string
  | DomainRegex string string
  | DomainWildcard string string
  | GEOSITE string string
  | GEOIP string string bool bool
  | ASN string string bool bool
  | IPCIDR Prefix string bool bool
  | IPSuffix "8 word list" nat string string bool bool
  | Port string string RuleType "16 word int_range list"
  | DSCP "8 word int_range list" string string
  | InUser "string list" string string
  | InName "string list" string string
  | InType "inbound_type list" string string
  | RematchName "string list" string string
  | Process string string RuleType
  | NetworkType NetWork string
  | Uid "32 word int_range list" string string
  | RuleSet string string bool bool
  | MatchAll string
  | Logic string string RuleType "Rule list"
  | RuleWrapper nat Rule

primrec rule_type :: "Rule \<Rightarrow> RuleType" where
  "rule_type (Domain d ad) = RtDomain"
| "rule_type (DomainSuffix d ad) = RtDomainSuffix"
| "rule_type (DomainKeyword d ad) = RtDomainKeyword"
| "rule_type (DomainRegex d ad) = RtDomainRegex"
| "rule_type (DomainWildcard d ad) = RtDomainWildcard"
| "rule_type (GEOSITE c ad) = RtGEOSITE"
| "rule_type (GEOIP c ad src nr) = (if src then RtSrcGEOIP else RtGEOIP)"
| "rule_type (ASN a ad src nr) = (if src then RtSrcIPASN else RtIPASN)"
| "rule_type (IPCIDR p ad src nr) = (if src then RtSrcIPCIDR else RtIPCIDR)"
| "rule_type (IPSuffix bs n p ad src nr) = (if src then RtSrcIPSuffix else RtIPSuffix)"
| "rule_type (Port ad p tp rs) = tp"
| "rule_type (DSCP rs p ad) = RtDSCP"
| "rule_type (InUser us ad p) = RtInUser"
| "rule_type (InName ns ad p) = RtInName"
| "rule_type (InType ts ad p) = RtInType"
| "rule_type (RematchName ns ad p) = RtRematchName"
| "rule_type (Process p ad tp) = tp"
| "rule_type (NetworkType n ad) = RtNetwork"
| "rule_type (Uid rs p ad) = RtUid"
| "rule_type (RuleSet n ad src nr) = RtRuleSet"
| "rule_type (MatchAll ad) = RtMATCH"
| "rule_type (Logic p ad tp rs) = tp"
| "rule_type (RuleWrapper i r) = rule_type r"

primrec Adapter :: "Rule \<Rightarrow> string" where
  "Adapter (Domain d ad) = ad"
| "Adapter (DomainSuffix d ad) = ad"
| "Adapter (DomainKeyword d ad) = ad"
| "Adapter (DomainRegex d ad) = ad"
| "Adapter (DomainWildcard d ad) = ad"
| "Adapter (GEOSITE c ad) = ad"
| "Adapter (GEOIP c ad src nr) = ad"
| "Adapter (ASN a ad src nr) = ad"
| "Adapter (IPCIDR p ad src nr) = ad"
| "Adapter (IPSuffix bs n p ad src nr) = ad"
| "Adapter (Port ad p tp rs) = ad"
| "Adapter (DSCP rs p ad) = ad"
| "Adapter (InUser us ad p) = ad"
| "Adapter (InName ns ad p) = ad"
| "Adapter (InType ts ad p) = ad"
| "Adapter (RematchName ns ad p) = ad"
| "Adapter (Process p ad tp) = ad"
| "Adapter (NetworkType n ad) = ad"
| "Adapter (Uid rs p ad) = ad"
| "Adapter (RuleSet n ad src nr) = ad"
| "Adapter (MatchAll ad) = ad"
| "Adapter (Logic p ad tp rs) = ad"
| "Adapter (RuleWrapper i r) = Adapter r"

fun ProviderNames :: "Rule \<Rightarrow> string list" where
  "ProviderNames (RuleSet n ad src nr) = [n]"
| "ProviderNames (Logic p ad tp rs) = concat (map ProviderNames rs)"
| "ProviderNames (RuleWrapper i r) = ProviderNames r"
| "ProviderNames _ = []"

section \<open>The state of a match\<close>

text \<open>
  The closures of the helper share variables with the rules: the metadata, and whether the name was
  resolved and the process looked for. \<open>ms_asked\<close> records the names the resolver was asked for and
  \<open>ms_hits\<close> the answers of the wrapped rules, in order.
\<close>

record MatchState =
  ms_meta :: Metadata
  ms_resolved :: bool
  ms_attempt :: bool
  ms_asked :: "string list"
  ms_hits :: "(nat \<times> bool) list"

record RuleMatchHelper =
  ResolveIP :: "(MatchState \<Rightarrow> MatchState) option"
  FindProcess :: "(MatchState \<Rightarrow> MatchState) option"
  CheckPassRule :: "(Metadata \<Rightarrow> string \<Rightarrow> bool) option"

definition call_helper :: "(MatchState \<Rightarrow> MatchState) option \<Rightarrow> MatchState \<Rightarrow> MatchState" where
  "call_helper f st = (case f of None \<Rightarrow> st | Some g \<Rightarrow> g st)"

text \<open>
  A rule set is a list of rules (\<open>classical_strategy.go\<close>) or in another format, of which only the
  answer is known.
\<close>

datatype RuleProvider =
    Classical "Rule list"
  | OtherSet "RuleMatchHelper \<Rightarrow> MatchState \<Rightarrow> bool \<times> MatchState"

record rule_ext =
  rx_lower :: "string \<Rightarrow> string"
  rx_upper :: "string \<Rightarrow> string"
  rx_fold :: "string \<Rightarrow> string \<Rightarrow> bool"
  rx_regexp :: "string \<Rightarrow> (string \<Rightarrow> bool) option"
  rx_geosite :: "string \<Rightarrow> (string \<Rightarrow> bool) option"
  rx_geodataMode :: bool
  rx_geoip :: "string \<Rightarrow> (Addr \<Rightarrow> bool) option"
  rx_LookupCode :: "Addr \<Rightarrow> string list"
  rx_LookupASN :: "Addr \<Rightarrow> string \<times> string"
  rx_InitGeoSite :: bool
  rx_InitGeoIP :: bool
  rx_InitASN :: bool
  rx_ParsePrefix :: "string \<Rightarrow> Prefix option"
  rx_uidPlatform :: bool
  rx_disabled :: "nat \<Rightarrow> bool"
  rx_subRules :: "(string \<times> Rule list) list"
  rx_providers :: "(string \<times> RuleProvider) list"

definition EqualFold :: "rule_ext \<Rightarrow> string \<Rightarrow> string \<Rightarrow> bool" where
  "EqualFold X s pat = (if is_ascii pat then equal_fold pat s else rx_fold X s pat)"

section \<open>Rules that look at the connection only\<close>

definition resolve_first :: "RuleMatchHelper \<Rightarrow> bool \<Rightarrow> bool \<Rightarrow> MatchState \<Rightarrow> MatchState" where
  "resolve_first h src nr st = (if \<not> nr \<and> \<not> src then call_helper (ResolveIP h) st else st)"

definition rule_ip :: "bool \<Rightarrow> MatchState \<Rightarrow> Addr" where
  "rule_ip src st = (if src then md_SrcIP (ms_meta st) else md_DstIP (ms_meta st))"

definition isLan :: "Addr \<Rightarrow> bool" where
  "isLan ip = (IsPrivate ip \<or> IsUnspecified ip \<or> IsLoopback ip \<or> IsMulticast ip \<or> IsLinkLocalUnicast ip)"

definition geo_codes :: "bool \<Rightarrow> MatchState \<Rightarrow> string list option" where
  "geo_codes src st = (if src then md_SrcGeoIP (ms_meta st) else md_DstGeoIP (ms_meta st))"

definition set_geo_codes :: "bool \<Rightarrow> string list \<Rightarrow> MatchState \<Rightarrow> MatchState" where
  "set_geo_codes src cs st =
     (if src then st\<lparr>ms_meta := (ms_meta st)\<lparr>md_SrcGeoIP := Some cs\<rparr>\<rparr>
      else st\<lparr>ms_meta := (ms_meta st)\<lparr>md_DstGeoIP := Some cs\<rparr>\<rparr>)"

definition geoip_match ::
    "rule_ext \<Rightarrow> RuleMatchHelper \<Rightarrow> string \<Rightarrow> string \<Rightarrow> bool \<Rightarrow> bool \<Rightarrow> MatchState
     \<Rightarrow> (bool \<times> string) \<times> MatchState" where
  "geoip_match X h country ad src nr st0 =
     (let st = resolve_first h src nr st0;
          ip = rule_ip src st;
          cached = geo_codes src st;
          known = (case cached of None \<Rightarrow> [] | Some cs \<Rightarrow> cs)
      in if \<not> IsValid ip then ((False, []), st)
         else if country = ''lan'' then ((isLan ip, ad), st)
         else if rx_geodataMode X then
           (if country \<in> set known then ((True, ad), st)
            else (case rx_geoip X country of
                    None \<Rightarrow> ((False, []), st)
                  | Some matcher \<Rightarrow>
                      if matcher ip then ((True, ad), set_geo_codes src (known @ [country]) st)
                      else ((False, ad), st)))
         else (case cached of
                 Some cs \<Rightarrow> ((country \<in> set cs, ad), st)
               | None \<Rightarrow>
                   (let codes = rx_LookupCode X ip; st1 = set_geo_codes src codes st
                    in if country \<in> set codes then ((True, ad), st1) else ((False, []), st1))))"

definition asn_match ::
    "rule_ext \<Rightarrow> RuleMatchHelper \<Rightarrow> string \<Rightarrow> string \<Rightarrow> bool \<Rightarrow> bool \<Rightarrow> MatchState
     \<Rightarrow> (bool \<times> string) \<times> MatchState" where
  "asn_match X h a ad src nr st0 =
     (let st = resolve_first h src nr st0;
          ip = rule_ip src st
      in if \<not> IsValid ip then ((False, []), st)
         else (let (asn, aso) = rx_LookupASN X ip; txt = asn @ '' '' @ aso
               in ((a = asn, ad),
                   if src then st\<lparr>ms_meta := (ms_meta st)\<lparr>md_SrcIPASN := txt\<rparr>\<rparr>
                   else st\<lparr>ms_meta := (ms_meta st)\<lparr>md_DstIPASN := txt\<rparr>\<rparr>)))"

text \<open>The octets are compared from the end, then the low bits of the octet before.\<close>

definition same_suffix :: "8 word list \<Rightarrow> nat \<Rightarrow> 8 word list \<Rightarrow> bool" where
  "same_suffix ipBytes bits mIPBytes =
     (let sz = length mIPBytes
      in length ipBytes = sz \<and>
         list_all (\<lambda>i. ipBytes ! (sz - i) = mIPBytes ! (sz - i)) (rev [1..<bits div 8 + 1]) \<and>
         (bits mod 8 = 0 \<or>
          push_bit (8 - bits mod 8) (ipBytes ! (sz - bits div 8 - 1)) =
          push_bit (8 - bits mod 8) (mIPBytes ! (sz - bits div 8 - 1))))"

definition suffix_match ::
    "RuleMatchHelper \<Rightarrow> 8 word list \<Rightarrow> nat \<Rightarrow> string \<Rightarrow> bool \<Rightarrow> bool \<Rightarrow> MatchState
     \<Rightarrow> (bool \<times> string) \<times> MatchState" where
  "suffix_match h ipBytes bits ad src nr st0 =
     (let st = resolve_first h src nr st0
      in if same_suffix ipBytes bits (AsSlice (rule_ip src st)) then ((True, ad), st)
         else ((False, []), st))"

definition process_match ::
    "rule_ext \<Rightarrow> RuleMatchHelper \<Rightarrow> string \<Rightarrow> string \<Rightarrow> RuleType \<Rightarrow> MatchState
     \<Rightarrow> (bool \<times> string) \<times> MatchState" where
  "process_match X h pat ad tp st0 =
     (let st = call_helper (FindProcess h) st0;
          target = (if tp \<in> {RtProcessName, RtProcessNameRegex, RtProcessNameWildcard}
                    then md_Process (ms_meta st) else md_ProcessPath (ms_meta st))
      in ((if tp \<in> {RtProcessNameRegex, RtProcessPathRegex}
           then (case rx_regexp X pat of None \<Rightarrow> False | Some f \<Rightarrow> f target)
           else if tp \<in> {RtProcessNameWildcard, RtProcessPathWildcard}
           then glob_match (to_lower (rx_lower X) pat) (to_lower (rx_lower X) target)
           else EqualFold X target pat, ad), st))"

definition uid_match ::
    "RuleMatchHelper \<Rightarrow> 32 word int_range list \<Rightarrow> string \<Rightarrow> MatchState \<Rightarrow> (bool \<times> string) \<times> MatchState" where
  "uid_match h uids ad st0 =
     (let st = call_helper (FindProcess h) st0; uid = md_Uid (ms_meta st)
      in if uid \<noteq> 0 \<and> ranges_Check uids uid then ((True, ad), st) else ((False, []), st))"

definition MatchDomain :: "rule_ext \<Rightarrow> string \<Rightarrow> string \<Rightarrow> bool" where
  "MatchDomain X country domain =
     (if domain = [] then False
      else case rx_geosite X country of None \<Rightarrow> False | Some f \<Rightarrow> f domain)"

definition one_of :: "'a list \<Rightarrow> 'a \<Rightarrow> string \<Rightarrow> bool \<times> string" where
  "one_of names x ad = (if x \<in> set names then (True, ad) else (False, []))"

text \<open>The \<open>Match\<close> of each kind of rule.\<close>

definition domain_match :: "string \<Rightarrow> string \<Rightarrow> MatchState \<Rightarrow> bool \<times> string" where
  "domain_match d ad st = (RuleHost (ms_meta st) = d, ad)"

definition domain_suffix_match :: "string \<Rightarrow> string \<Rightarrow> MatchState \<Rightarrow> bool \<times> string" where
  "domain_suffix_match d ad st =
     (let domain = RuleHost (ms_meta st) in (has_suffix domain (CHR ''.'' # d) \<or> domain = d, ad))"

definition domain_keyword_match :: "string \<Rightarrow> string \<Rightarrow> MatchState \<Rightarrow> bool \<times> string" where
  "domain_keyword_match d ad st = (contains_str (RuleHost (ms_meta st)) d, ad)"

definition domain_regex_match :: "rule_ext \<Rightarrow> string \<Rightarrow> string \<Rightarrow> MatchState \<Rightarrow> bool \<times> string" where
  "domain_regex_match X re ad st =
     (case rx_regexp X re of None \<Rightarrow> False | Some f \<Rightarrow> f (RuleHost (ms_meta st)), ad)"

definition domain_wildcard_match :: "string \<Rightarrow> string \<Rightarrow> MatchState \<Rightarrow> bool \<times> string" where
  "domain_wildcard_match p ad st = (glob_match p (RuleHost (ms_meta st)), ad)"

definition geosite_match :: "rule_ext \<Rightarrow> string \<Rightarrow> string \<Rightarrow> MatchState \<Rightarrow> bool \<times> string" where
  "geosite_match X c ad st = (MatchDomain X c (RuleHost (ms_meta st)), ad)"

definition ipcidr_match ::
    "RuleMatchHelper \<Rightarrow> Prefix \<Rightarrow> string \<Rightarrow> bool \<Rightarrow> bool \<Rightarrow> MatchState \<Rightarrow> (bool \<times> string) \<times> MatchState" where
  "ipcidr_match h p ad src nr st0 =
     (let st = resolve_first h src nr st0; ip = rule_ip src st in ((IsValid ip \<and> Contains p ip, ad), st))"

definition port_match :: "string \<Rightarrow> RuleType \<Rightarrow> 16 word int_range list \<Rightarrow> MatchState \<Rightarrow> bool \<times> string" where
  "port_match ad tp rs st =
     (let targetPort = (if tp = RtInPort then md_InPort (ms_meta st)
                        else if tp = RtSrcPort then md_SrcPort (ms_meta st) else md_DstPort (ms_meta st))
      in (ranges_Check rs targetPort, ad))"

definition dscp_match :: "8 word int_range list \<Rightarrow> string \<Rightarrow> MatchState \<Rightarrow> bool \<times> string" where
  "dscp_match rs ad st = (ranges_Check rs (md_DSCP (ms_meta st)), ad)"

definition in_user_match :: "string list \<Rightarrow> string \<Rightarrow> MatchState \<Rightarrow> bool \<times> string" where
  "in_user_match us ad st = one_of us (md_InUser (ms_meta st)) ad"

definition in_name_match :: "string list \<Rightarrow> string \<Rightarrow> MatchState \<Rightarrow> bool \<times> string" where
  "in_name_match ns ad st = one_of ns (md_InName (ms_meta st)) ad"

definition in_type_match :: "inbound_type list \<Rightarrow> string \<Rightarrow> MatchState \<Rightarrow> bool \<times> string" where
  "in_type_match ts ad st = one_of ts (md_Type (ms_meta st)) ad"

definition rematch_name_match :: "string list \<Rightarrow> string \<Rightarrow> MatchState \<Rightarrow> bool \<times> string" where
  "rematch_name_match ns ad st = one_of ns (md_RematchName (ms_meta st)) ad"

definition network_match :: "NetWork \<Rightarrow> string \<Rightarrow> MatchState \<Rightarrow> bool \<times> string" where
  "network_match n ad st = (n = md_NetWork (ms_meta st), ad)"

definition final_match :: "string \<Rightarrow> bool \<times> string" where
  "final_match ad = (True, ad)"

lemmas match_kinds [simp] =
  domain_match_def domain_suffix_match_def domain_keyword_match_def domain_regex_match_def
  domain_wildcard_match_def geosite_match_def ipcidr_match_def port_match_def dscp_match_def
  in_user_match_def in_name_match_def in_type_match_def rematch_name_match_def network_match_def
  final_match_def

fun base_match :: "rule_ext \<Rightarrow> RuleMatchHelper \<Rightarrow> Rule \<Rightarrow> MatchState \<Rightarrow> (bool \<times> string) \<times> MatchState" where
  "base_match X h (Domain d ad) st = (domain_match d ad st, st)"
| "base_match X h (DomainSuffix d ad) st = (domain_suffix_match d ad st, st)"
| "base_match X h (DomainKeyword d ad) st = (domain_keyword_match d ad st, st)"
| "base_match X h (DomainRegex re ad) st = (domain_regex_match X re ad st, st)"
| "base_match X h (DomainWildcard p ad) st = (domain_wildcard_match p ad st, st)"
| "base_match X h (GEOSITE c ad) st = (geosite_match X c ad st, st)"
| "base_match X h (GEOIP c ad src nr) st = geoip_match X h c ad src nr st"
| "base_match X h (ASN a ad src nr) st = asn_match X h a ad src nr st"
| "base_match X h (IPCIDR p ad src nr) st = ipcidr_match h p ad src nr st"
| "base_match X h (IPSuffix bs n p ad src nr) st = suffix_match h bs n ad src nr st"
| "base_match X h (Port ad p tp rs) st = (port_match ad tp rs st, st)"
| "base_match X h (DSCP rs p ad) st = (dscp_match rs ad st, st)"
| "base_match X h (InUser us ad p) st = (in_user_match us ad st, st)"
| "base_match X h (InName ns ad p) st = (in_name_match ns ad st, st)"
| "base_match X h (InType ts ad p) st = (in_type_match ts ad st, st)"
| "base_match X h (RematchName ns ad p) st = (rematch_name_match ns ad st, st)"
| "base_match X h (Process p ad tp) st = process_match X h p ad tp st"
| "base_match X h (NetworkType n ad) st = (network_match n ad st, st)"
| "base_match X h (Uid rs p ad) st = uid_match h rs ad st"
| "base_match X h (MatchAll ad) st = (final_match ad, st)"
| "base_match X h _ st = ((False, []), st)"

section \<open>Logic rules, sub-rules and rule sets\<close>

definition sub_rules_of :: "rule_ext \<Rightarrow> string \<Rightarrow> Rule list" where
  "sub_rules_of X name = (case map_of (rx_subRules X) name of None \<Rightarrow> [] | Some rs \<Rightarrow> rs)"

definition passes :: "RuleMatchHelper \<Rightarrow> string \<Rightarrow> MatchState \<Rightarrow> bool" where
  "passes h ad st =
     (ad = ''PASS-RULE'' \<or> (case CheckPassRule h of None \<Rightarrow> False | Some f \<Rightarrow> f (ms_meta st) ad))"

definition swapped :: "MatchState \<Rightarrow> MatchState" where
  "swapped st = st\<lparr>ms_meta := SwapSrcDst (ms_meta st)\<rparr>"

definition wrapped_hit :: "nat \<Rightarrow> (bool \<times> string) \<times> MatchState \<Rightarrow> (bool \<times> string) \<times> MatchState" where
  "wrapped_hit i r = (fst r, (snd r)\<lparr>ms_hits := ms_hits (snd r) @ [(i, fst (fst r))]\<rparr>)"

text \<open>
  An empty list of a \<open>NOT\<close> or a sub-rule is an index out of range; the constructors never build one.
  \<open>match_sub\<close> is \<open>matchSubRules\<close> and \<open>sub_loop\<close> its loop.
\<close>

function (sequential)
  rule_match :: "rule_ext \<Rightarrow> RuleMatchHelper \<Rightarrow> nat \<Rightarrow> Rule \<Rightarrow> MatchState \<Rightarrow> ((bool \<times> string) \<times> MatchState) option"
  and any_match :: "rule_ext \<Rightarrow> RuleMatchHelper \<Rightarrow> nat \<Rightarrow> Rule list \<Rightarrow> MatchState \<Rightarrow> (bool \<times> MatchState) option"
  and all_match :: "rule_ext \<Rightarrow> RuleMatchHelper \<Rightarrow> nat \<Rightarrow> Rule list \<Rightarrow> MatchState \<Rightarrow> (bool \<times> MatchState) option"
  and set_match :: "rule_ext \<Rightarrow> RuleMatchHelper \<Rightarrow> nat \<Rightarrow> RuleProvider \<Rightarrow> MatchState \<Rightarrow> (bool \<times> MatchState) option"
  and match_sub :: "rule_ext \<Rightarrow> RuleMatchHelper \<Rightarrow> nat \<Rightarrow> string \<Rightarrow> MatchState \<Rightarrow> ((bool \<times> string) \<times> MatchState) option"
  and sub_loop :: "rule_ext \<Rightarrow> RuleMatchHelper \<Rightarrow> nat \<Rightarrow> Rule list \<Rightarrow> MatchState \<Rightarrow> ((bool \<times> string) \<times> MatchState) option"
where
  "rule_match X h n (RuleWrapper i r) st =
     (if rx_disabled X i then Some ((False, []), st)
      else map_option (wrapped_hit i) (rule_match X h n r st))"
| "rule_match X h n (RuleSet name ad src nr) st =
     (case map_of (rx_providers X) name of
        None \<Rightarrow> Some ((False, []), st)
      | Some p \<Rightarrow>
          (if src then map_option (\<lambda>(m, st1). ((m, ad), swapped st1))
                         (set_match X (h\<lparr>ResolveIP := None\<rparr>) n p (swapped st))
           else map_option (\<lambda>(m, st1). ((m, ad), st1))
                  (set_match X (if nr then h\<lparr>ResolveIP := None\<rparr> else h) n p st)))"
| "rule_match X h n (Logic payload ad tp rs) st =
     (if tp = RtSubRules then
        (case rs of
           [] \<Rightarrow> None
         | r # _ \<Rightarrow>
             (case rule_match X h n r st of
                None \<Rightarrow> None
              | Some ((m, _), st1) \<Rightarrow> if m then match_sub X h n ad st1 else Some ((False, []), st1)))
      else if tp = RtNOT then
        (case rs of
           [] \<Rightarrow> None
         | r # _ \<Rightarrow>
             (case rule_match X h n r st of
                None \<Rightarrow> None
              | Some ((m, _), st1) \<Rightarrow> Some (if \<not> m then (True, ad) else (False, []), st1)))
      else if tp = RtOR then
        map_option (\<lambda>(m, st1). (if m then (True, ad) else (False, []), st1)) (any_match X h n rs st)
      else if tp = RtAND then
        map_option (\<lambda>(m, st1). ((m, ad), st1)) (all_match X h n rs st)
      else Some ((False, []), st))"
| "rule_match X h n r st = Some (base_match X h r st)"
| "any_match X h n [] st = Some (False, st)"
| "any_match X h n (r # rs) st =
     (case rule_match X h n r st of
        None \<Rightarrow> None
      | Some ((m, _), st1) \<Rightarrow> if m then Some (True, st1) else any_match X h n rs st1)"
| "all_match X h n [] st = Some (True, st)"
| "all_match X h n (r # rs) st =
     (case rule_match X h n r st of
        None \<Rightarrow> None
      | Some ((m, _), st1) \<Rightarrow> if \<not> m then Some (False, st1) else all_match X h n rs st1)"
| "set_match X h 0 (Classical rs) st = None"
| "set_match X h (Suc n) (Classical rs) st = any_match X h n rs st"
| "set_match X h n (OtherSet f) st = Some (f h st)"
| "match_sub X h 0 name st = None"
| "match_sub X h (Suc n) name st = sub_loop X h n (sub_rules_of X name) st"
| "sub_loop X h n [] st = Some ((False, []), st)"
| "sub_loop X h n (r # rs) st =
     (case rule_match X h n r st of
        None \<Rightarrow> None
      | Some ((m, a), st1) \<Rightarrow>
          if m then
            (case (if rule_type r = RtSubRules then match_sub X h n (Adapter r) st1 else Some ((m, a), st1)) of
               None \<Rightarrow> None
             | Some ((m2, a2), st2) \<Rightarrow>
                 if m2 \<and> passes h a2 st2 then sub_loop X h n rs st2 else Some ((m2, a2), st2))
          else sub_loop X h n rs st1)"
  by pat_completeness auto
termination
  by (relation "inv_image (less_than <*lex*> less_than)
       (\<lambda>x. case x of
          Inl (Inl (X, h, n, r, st)) \<Rightarrow> (n, 2 * size r + 1)
        | Inl (Inr (Inl (X, h, n, rs, st))) \<Rightarrow> (n, 2 * size_list size rs + 1)
        | Inl (Inr (Inr (X, h, n, rs, st))) \<Rightarrow> (n, 2 * size_list size rs + 1)
        | Inr (Inl (X, h, n, p, st)) \<Rightarrow> (n, 0)
        | Inr (Inr (Inl (X, h, n, name, st))) \<Rightarrow> (n, 0)
        | Inr (Inr (Inr (X, h, n, rs, st))) \<Rightarrow> (n, 2 * size_list size rs + 1))")
     auto

end
