(* ===== verification/RouteParse.thy ===== *)
theory RouteParse
  imports RouteRules
begin

text \<open>
  From the lines of a configuration to rules (\<open>rules/common/base.go\<close>, \<open>rules/parser.go\<close>, the constructors
  of \<open>rules/common\<close>, the parser of logic rules in \<open>rules/logic/logic.go\<close>, and \<open>parseRules\<close> and the check
  of sub-rules in \<open>config/config.go\<close>). The texts of the errors are left out: an error is \<open>None\<close>.
\<close>

section \<open>The parts of a line\<close>

definition to_upper :: "(string \<Rightarrow> string) \<Rightarrow> string \<Rightarrow> string" where
  "to_upper uni s = (if is_ascii s then map ascii_upper_char s else uni s)"

definition ParseParams :: "string list \<Rightarrow> bool \<times> bool" where
  "ParseParams params =
     (let isSrc = ''src'' \<in> set params
      in (isSrc, isSrc \<or> ''no-resolve'' \<in> set params))"

definition trimArr :: "string list \<Rightarrow> string list" where
  "trimArr arr = map (\<lambda>e. trim_both e '' '') arr"

definition comma_types :: "string set" where
  "comma_types = {''NOT'', ''OR'', ''AND'', ''SUB-RULE'', ''DOMAIN-REGEX'', ''PROCESS-NAME-REGEX'',
     ''PROCESS-PATH-REGEX''}"

definition ParseRulePayload ::
    "rule_ext \<Rightarrow> string \<Rightarrow> bool \<Rightarrow> string \<times> string \<times> string \<times> string list" where
  "ParseRulePayload X ruleRaw needTarget =
     (let item = trimArr (split_on (CHR '','') ruleRaw);
          tp = to_upper (rx_upper X) (hd item)
      in if length item \<le> 1 then (tp, [], [], [])
         else if tp = ''MATCH'' then (tp, [], item ! 1, [])
         else if tp \<in> comma_types then
           (if needTarget then (tp, join_with '','' (tl (butlast item)), last item, [])
            else (tp, join_with '','' (tl item), [], []))
         else if length item > 2 then
           (if needTarget then (tp, item ! 1, item ! 2, drop 3 item) else (tp, item ! 1, [], drop 2 item))
         else (tp, item ! 1, [], []))"

section \<open>Constructors\<close>

definition NewDomain :: "rule_ext \<Rightarrow> string \<Rightarrow> string \<Rightarrow> Rule" where
  "NewDomain X domain ad = Domain (to_lower (rx_lower X) domain) ad"

definition NewDomainSuffix :: "rule_ext \<Rightarrow> string \<Rightarrow> string \<Rightarrow> Rule" where
  "NewDomainSuffix X sfx ad = DomainSuffix (to_lower (rx_lower X) sfx) ad"

definition NewDomainKeyword :: "rule_ext \<Rightarrow> string \<Rightarrow> string \<Rightarrow> Rule" where
  "NewDomainKeyword X keyword ad = DomainKeyword (to_lower (rx_lower X) keyword) ad"

definition NewDomainRegex :: "rule_ext \<Rightarrow> string \<Rightarrow> string \<Rightarrow> Rule option" where
  "NewDomainRegex X re ad = (if rx_regexp X re = None then None else Some (DomainRegex re ad))"

definition NewDomainWildcard :: "rule_ext \<Rightarrow> string \<Rightarrow> string \<Rightarrow> Rule option" where
  "NewDomainWildcard X pattern ad = Some (DomainWildcard (to_lower (rx_lower X) pattern) ad)"

definition NewGEOSITE :: "rule_ext \<Rightarrow> string \<Rightarrow> string \<Rightarrow> Rule option" where
  "NewGEOSITE X country ad =
     (if \<not> rx_InitGeoSite X \<or> rx_geosite X country = None then None else Some (GEOSITE country ad))"

definition NewGEOIP :: "rule_ext \<Rightarrow> string \<Rightarrow> string \<Rightarrow> bool \<Rightarrow> bool \<Rightarrow> Rule option" where
  "NewGEOIP X country0 ad isSrc noResolve =
     (let country = to_lower (rx_lower X) country0; g = GEOIP country ad isSrc noResolve
      in if country = ''lan'' then Some g
         else if \<not> rx_InitGeoIP X then None
         else if rx_geodataMode X \<and> rx_geoip X country = None then None
         else Some g)"

definition NewIPASN :: "rule_ext \<Rightarrow> string \<Rightarrow> string \<Rightarrow> bool \<Rightarrow> bool \<Rightarrow> Rule option" where
  "NewIPASN X asn ad isSrc noResolve = (if \<not> rx_InitASN X then None else Some (ASN asn ad isSrc noResolve))"

definition NewIPCIDR :: "rule_ext \<Rightarrow> string \<Rightarrow> string \<Rightarrow> bool \<Rightarrow> bool \<Rightarrow> Rule option" where
  "NewIPCIDR X s ad isSrc noResolve =
     map_option (\<lambda>ipnet. IPCIDR ipnet ad isSrc noResolve) (rx_ParsePrefix X s)"

definition NewIPSuffix :: "rule_ext \<Rightarrow> string \<Rightarrow> string \<Rightarrow> bool \<Rightarrow> bool \<Rightarrow> Rule option" where
  "NewIPSuffix X payload ad isSrc noResolve =
     map_option (\<lambda>ipnet. IPSuffix (AsSlice (px_addr ipnet)) (px_bits ipnet) payload ad isSrc noResolve)
       (rx_ParsePrefix X payload)"

definition NewPort :: "string \<Rightarrow> string \<Rightarrow> RuleType \<Rightarrow> Rule option" where
  "NewPort port ad tp =
     (case newIntRanges port of
        None \<Rightarrow> None | Some rs \<Rightarrow> if rs = [] then None else Some (Port ad port tp rs))"

definition NewDSCP :: "string \<Rightarrow> string \<Rightarrow> Rule option" where
  "NewDSCP dscp ad =
     (case newIntRanges dscp of
        None \<Rightarrow> None
      | Some rs \<Rightarrow> if \<exists>r \<in> set rs. rg_end r > 63 then None else Some (DSCP rs dscp ad))"

definition NewUid :: "rule_ext \<Rightarrow> string \<Rightarrow> string \<Rightarrow> Rule option" where
  "NewUid X oUid ad =
     (if \<not> rx_uidPlatform X then None
      else (case newIntRanges oUid of
              None \<Rightarrow> None | Some rs \<Rightarrow> if rs = [] then None else Some (Uid rs oUid ad)))"

definition slash_names :: "string \<Rightarrow> string list option" where
  "slash_names s =
     (let names = map trim_space (split_on (CHR ''/'') s) in if [] \<in> set names then None else Some names)"

definition NewInName :: "string \<Rightarrow> string \<Rightarrow> Rule option" where
  "NewInName iNames ad = map_option (\<lambda>names. InName names ad iNames) (slash_names iNames)"

definition NewInUser :: "string \<Rightarrow> string \<Rightarrow> Rule option" where
  "NewInUser iUsers ad = map_option (\<lambda>users. InUser users ad iUsers) (slash_names iUsers)"

definition NewRematchName :: "string \<Rightarrow> string \<Rightarrow> Rule option" where
  "NewRematchName iNames ad = map_option (\<lambda>names. RematchName names ad iNames) (slash_names iNames)"

fun parseInTypes :: "rule_ext \<Rightarrow> string list \<Rightarrow> inbound_type list option" where
  "parseInTypes X [] = Some []"
| "parseInTypes X (t # ts) =
     (let utp = to_upper (rx_upper X) t
      in if utp = ''SOCKS'' then map_option (\<lambda>rs. SOCKS4 # SOCKS5 # rs) (parseInTypes X ts)
         else (case ParseType utp of None \<Rightarrow> None | Some r \<Rightarrow> map_option ((#) r) (parseInTypes X ts)))"

definition NewInType :: "rule_ext \<Rightarrow> string \<Rightarrow> string \<Rightarrow> Rule option" where
  "NewInType X iTypes ad =
     (case slash_names iTypes of
        None \<Rightarrow> None
      | Some types \<Rightarrow>
          map_option (\<lambda>tps. InType tps ad (to_upper (rx_upper X) iTypes)) (parseInTypes X types))"

definition NewProcess :: "rule_ext \<Rightarrow> string \<Rightarrow> string \<Rightarrow> RuleType \<Rightarrow> Rule option" where
  "NewProcess X pattern ad tp =
     (if tp \<in> {RtProcessNameRegex, RtProcessPathRegex} \<and> rx_regexp X pattern = None then None
      else Some (Process pattern ad tp))"

definition NewNetworkType :: "rule_ext \<Rightarrow> string \<Rightarrow> string \<Rightarrow> Rule option" where
  "NewNetworkType X network ad =
     (let n = to_upper (rx_upper X) network
      in if n = ''TCP'' then Some (NetworkType TCP ad)
         else if n = ''UDP'' then Some (NetworkType UDP ad) else None)"

definition NewRuleSet :: "string \<Rightarrow> string \<Rightarrow> bool \<Rightarrow> bool \<Rightarrow> Rule option" where
  "NewRuleSet name ad isSrc noResolve = Some (RuleSet name ad isSrc noResolve)"

section \<open>The payload of a logic rule\<close>

text \<open>A range of the payload is the pair of the places of its brackets.\<close>

fun format_loop :: "nat \<Rightarrow> string \<Rightarrow> nat list \<Rightarrow> (nat \<times> nat) list \<Rightarrow> (nat \<times> nat) list option" where
  "format_loop i [] stack subRanges = (if stack \<noteq> [] then None else Some subRanges)"
| "format_loop i (c # cs) stack subRanges =
     (if c = CHR ''('' then format_loop (Suc i) cs (i # stack) subRanges
      else if c = CHR '')'' then
        (case stack of
           [] \<Rightarrow> None
         | start # stack' \<Rightarrow> format_loop (Suc i) cs stack' (subRanges @ [(start, i)]))
      else format_loop (Suc i) cs stack subRanges)"

definition logic_format :: "string \<Rightarrow> (nat \<times> nat) list option" where
  "logic_format payload =
     map_option (sort_slice (\<lambda>a b. fst a < fst b)) (format_loop 0 payload [] [])"

definition containRange :: "nat \<times> nat \<Rightarrow> nat \<Rightarrow> nat \<Rightarrow> bool" where
  "containRange r preStart preEnd = (preStart < fst r \<and> preEnd > snd r)"

definition findSubRuleRange :: "string \<Rightarrow> (nat \<times> nat) list \<Rightarrow> (nat \<times> nat) list" where
  "findSubRuleRange payload ruleRanges =
     fold (\<lambda>rr subRuleRange.
       if fst rr = 0 \<and> snd rr + 1 = length payload then subRuleRange
       else if \<exists>r \<in> set subRuleRange. containRange rr (fst r) (snd r) then subRuleRange
       else subRuleRange @ [rr]) ruleRanges []"

definition sub_payload :: "string \<Rightarrow> nat \<times> nat \<Rightarrow> string" where
  "sub_payload payload r = take (snd r - (fst r + 1)) (drop (fst r + 1) payload)"

definition sub_payloads :: "string \<Rightarrow> string list option" where
  "sub_payloads payload =
     (if \<not> has_prefix payload ''('' \<or> \<not> has_suffix payload '')'' then None
      else map_option (\<lambda>rs. map (sub_payload payload) (findSubRuleRange payload rs)) (logic_format payload))"

type_synonym parse_rule_func = "string \<Rightarrow> string \<Rightarrow> string \<Rightarrow> string list \<Rightarrow> Rule option"

definition payloadToRule :: "rule_ext \<Rightarrow> parse_rule_func \<Rightarrow> string \<Rightarrow> Rule option" where
  "payloadToRule X parseRule subPayload =
     (let (tp, payload, target, param) = ParseRulePayload X subPayload False
      in if tp \<in> {''MATCH'', ''SUB-RULE''} then None
         else if tp = [] then None
         else parseRule tp payload target param)"

fun all_some :: "'a option list \<Rightarrow> 'a list option" where
  "all_some [] = Some []"
| "all_some (None # xs) = None"
| "all_some (Some x # xs) = map_option ((#) x) (all_some xs)"

definition parsePayload :: "rule_ext \<Rightarrow> parse_rule_func \<Rightarrow> string \<Rightarrow> Rule list option" where
  "parsePayload X parseRule payload =
     (case sub_payloads payload of
        None \<Rightarrow> None | Some ss \<Rightarrow> all_some (map (payloadToRule X parseRule) ss))"

definition NewSubRule :: "rule_ext \<Rightarrow> string \<Rightarrow> string \<Rightarrow> parse_rule_func \<Rightarrow> Rule option" where
  "NewSubRule X payload ad parseRule =
     (case parsePayload X parseRule (''('' @ payload @ '')'') of
        None \<Rightarrow> None
      | Some rs \<Rightarrow> if length rs \<noteq> 1 then None else Some (Logic payload ad RtSubRules rs))"

definition NewNOT :: "rule_ext \<Rightarrow> string \<Rightarrow> string \<Rightarrow> parse_rule_func \<Rightarrow> Rule option" where
  "NewNOT X payload ad parseRule =
     (case parsePayload X parseRule payload of
        None \<Rightarrow> None
      | Some rs \<Rightarrow> if length rs \<noteq> 1 then None else Some (Logic payload ad RtNOT rs))"

definition NewOR :: "rule_ext \<Rightarrow> string \<Rightarrow> string \<Rightarrow> parse_rule_func \<Rightarrow> Rule option" where
  "NewOR X payload ad parseRule = map_option (Logic payload ad RtOR) (parsePayload X parseRule payload)"

definition NewAND :: "rule_ext \<Rightarrow> string \<Rightarrow> string \<Rightarrow> parse_rule_func \<Rightarrow> Rule option" where
  "NewAND X payload ad parseRule = map_option (Logic payload ad RtAND) (parsePayload X parseRule payload)"

section \<open>Recursion of the parser\<close>

text \<open>
  The payload of a part of a logic rule is shorter than the payload of the rule, so the parser ends.
\<close>

lemma length_trim_both: "length (trim_both s cs) \<le> length s"
  using length_dropWhile_le [of "\<lambda>c. c \<in> set cs" "rev (trim_left s cs)"]
    length_dropWhile_le [of "\<lambda>c. c \<in> set cs" s]
  by (simp add: trim_both_def trim_right_def trim_left_def)

lemma length_join_trim: "length (join_with sep (map f xs)) \<le> length (join_with sep xs)"
  if "\<And>x. length (f x) \<le> length x" for xs :: "string list"
  by (induction sep xs rule: join_with.induct) (auto simp: add_mono that)

lemma length_join_Cons: "xs \<noteq> [] \<Longrightarrow> length (join_with [c] (x # xs)) = length x + 1 + length (join_with [c] xs)"
  by (cases xs) auto

lemma length_item: "x \<in> set xs \<Longrightarrow> length x \<le> length (join_with sep xs)"
  by (induction sep xs rule: join_with.induct) auto

lemma payload_shorter:
  assumes "ParseRulePayload X s False = (tp, payload, target, param)"
  shows "payload = [] \<or> length payload < length s"
proof (rule ccontr)
  assume no: "\<not> ?thesis"
  define item where "item = trimArr (split_on (CHR '','') s)"
  have le: "length (join_with '','' item) \<le> length s"
    using length_join_trim [of "\<lambda>e. trim_both e '' ''" "'',''" "split_on (CHR '','') s"] length_trim_both
    by (simp add: item_def trimArr_def join_split_on)
  show False
  proof (cases "length item \<le> 1")
    case True
    with assms no show ?thesis by (simp add: ParseRulePayload_def Let_def item_def)
  next
    case False
    then obtain x y ys where it: "item = x # y # ys" by (cases item rule: remdups_adj.cases) auto
    have "payload \<in> {[], join_with '','' (tl item), item ! 1}"
      using assms False by (auto simp: ParseRulePayload_def Let_def item_def split: if_splits)
    moreover have "length (join_with '','' (y # ys)) < length s" using le by (simp add: it)
    moreover have "length y \<le> length (join_with '','' (y # ys))" by (rule length_item) simp
    ultimately show ?thesis using no by (auto simp: it)
  qed
qed

lemma format_loop_bounds:
  "format_loop i s stack acc = Some rs \<Longrightarrow> r \<in> set rs \<Longrightarrow> r \<in> set acc \<or> snd r < i + length s"
  by (induction i s stack acc arbitrary: rs rule: format_loop.induct)
     (fastforce split: if_splits list.splits)+

lemma logic_format_bounds: "logic_format s = Some rs \<Longrightarrow> r \<in> set rs \<Longrightarrow> snd r < length s"
  by (auto simp: logic_format_def dest: format_loop_bounds [of 0 s "[]" "[]", simplified, rotated])

lemma fold_keeps_subset:
  "(\<And>x a. set (f x a) \<subseteq> insert x (set a)) \<Longrightarrow> set (fold f xs a) \<subseteq> set xs \<union> set a"
proof (induction xs arbitrary: a)
  case (Cons x xs)
  have "set (fold f xs (f x a)) \<subseteq> set xs \<union> set (f x a)" by (rule Cons.IH [OF Cons.prems])
  with Cons.prems [of x a] show ?case by auto
qed simp

lemma findSubRuleRange_subset: "set (findSubRuleRange payload rs) \<subseteq> set rs"
  unfolding findSubRuleRange_def
  by (rule order_trans [OF fold_keeps_subset]) auto

lemma bracketed_length: "has_prefix s ''('' \<Longrightarrow> has_suffix s '')'' \<Longrightarrow> 2 \<le> length s"
  by (cases s rule: remdups_adj.cases) (auto simp: has_prefix_def has_suffix_def suffix_Cons)

lemma sub_payload_shorter:
  assumes "sub_payloads payload = Some ss" and "s \<in> set ss"
  shows "length s + 2 \<le> length payload"
proof -
  obtain rs r where r: "logic_format payload = Some rs" "r \<in> set (findSubRuleRange payload rs)"
    "s = sub_payload payload r" and br: "has_prefix payload ''(''" "has_suffix payload '')''"
    using assms by (auto simp: sub_payloads_def split: if_splits)
  then have "snd r < length payload"
    using logic_format_bounds [OF r(1)] findSubRuleRange_subset [of payload rs] by blast
  with bracketed_length [OF br] show ?thesis by (auto simp: r(3) sub_payload_def)
qed

lemma part_shorter:
  assumes "sub_payloads q \<noteq> None" and "s \<in> set (the (sub_payloads q))"
    and "ParseRulePayload X s False = (tp, p, tg, pm)"
  shows "2 \<le> length q \<and> (p = [] \<or> length p + 2 < length q)"
proof -
  have "length s + 2 \<le> length q" using assms(1,2) by (metis option.collapse sub_payload_shorter)
  with payload_shorter [OF assms(3)] show ?thesis by auto
qed

lemma parsePayload_cong [fundef_cong]:
  assumes "X = X'" and "payload = payload'"
    and "\<And>s tp p tg pm. sub_payloads payload' \<noteq> None \<Longrightarrow> s \<in> set (the (sub_payloads payload')) \<Longrightarrow>
      ParseRulePayload X' s False = (tp, p, tg, pm) \<Longrightarrow> f tp p tg pm = g tp p tg pm"
  shows "parsePayload X f payload = parsePayload X' g payload'"
proof (cases "sub_payloads payload'")
  case (Some ss)
  have "payloadToRule X f s = payloadToRule X' g s" if "s \<in> set ss" for s
    using assms(1,3) that Some
    by (cases "ParseRulePayload X' s False") (auto simp: payloadToRule_def)
  then have "map (payloadToRule X f) ss = map (payloadToRule X' g) ss" by (rule map_cong [OF refl])
  then show ?thesis unfolding parsePayload_def Some assms(2) by (simp only: option.case)
qed (simp add: parsePayload_def assms(2))

lemma NewSubRule_cong [fundef_cong]:
  assumes "X = X'" and "payload = payload'" and "ad = ad'"
    and "\<And>s tp p tg pm. sub_payloads (''('' @ payload' @ '')'') \<noteq> None \<Longrightarrow>
      s \<in> set (the (sub_payloads (''('' @ payload' @ '')''))) \<Longrightarrow>
      ParseRulePayload X' s False = (tp, p, tg, pm) \<Longrightarrow> f tp p tg pm = g tp p tg pm"
  shows "NewSubRule X payload ad f = NewSubRule X' payload' ad' g"
proof -
  have "parsePayload X f (''('' @ payload' @ '')'') = parsePayload X' g (''('' @ payload' @ '')'')"
    by (rule parsePayload_cong [OF assms(1) refl]) (rule assms(4))
  then show ?thesis unfolding NewSubRule_def assms(2,3) by simp
qed

lemma NewNOT_cong [fundef_cong]:
  assumes "X = X'" and "payload = payload'" and "ad = ad'"
    and "\<And>s tp p tg pm. sub_payloads payload' \<noteq> None \<Longrightarrow> s \<in> set (the (sub_payloads payload')) \<Longrightarrow>
      ParseRulePayload X' s False = (tp, p, tg, pm) \<Longrightarrow> f tp p tg pm = g tp p tg pm"
  shows "NewNOT X payload ad f = NewNOT X' payload' ad' g"
    and "NewOR X payload ad f = NewOR X' payload' ad' g"
    and "NewAND X payload ad f = NewAND X' payload' ad' g"
proof -
  have "parsePayload X f payload' = parsePayload X' g payload'"
    by (rule parsePayload_cong [OF assms(1) refl]) (rule assms(4))
  then show "NewNOT X payload ad f = NewNOT X' payload' ad' g"
    and "NewOR X payload ad f = NewOR X' payload' ad' g"
    and "NewAND X payload ad f = NewAND X' payload' ad' g"
    unfolding NewNOT_def NewOR_def NewAND_def assms(2,3) by simp_all
qed

definition parse_plain ::
    "rule_ext \<Rightarrow> string \<Rightarrow> string \<Rightarrow> string \<Rightarrow> string list \<Rightarrow> Rule option" where
  "parse_plain X tp payload target params =
     (let (isSrc, noResolve) = ParseParams params
      in if tp = ''DOMAIN'' then Some (NewDomain X payload target)
         else if tp = ''DOMAIN-SUFFIX'' then Some (NewDomainSuffix X payload target)
         else if tp = ''DOMAIN-KEYWORD'' then Some (NewDomainKeyword X payload target)
         else if tp = ''DOMAIN-REGEX'' then NewDomainRegex X payload target
         else if tp = ''DOMAIN-WILDCARD'' then NewDomainWildcard X payload target
         else if tp = ''GEOSITE'' then NewGEOSITE X payload target
         else if tp = ''GEOIP'' then NewGEOIP X payload target isSrc noResolve
         else if tp = ''SRC-GEOIP'' then NewGEOIP X payload target True True
         else if tp = ''IP-ASN'' then NewIPASN X payload target isSrc noResolve
         else if tp = ''SRC-IP-ASN'' then NewIPASN X payload target True True
         else if tp \<in> {''IP-CIDR'', ''IP-CIDR6''} then NewIPCIDR X payload target isSrc noResolve
         else if tp = ''SRC-IP-CIDR'' then NewIPCIDR X payload target True True
         else if tp = ''IP-SUFFIX'' then NewIPSuffix X payload target isSrc noResolve
         else if tp = ''SRC-IP-SUFFIX'' then NewIPSuffix X payload target True True
         else if tp = ''SRC-PORT'' then NewPort payload target RtSrcPort
         else if tp = ''DST-PORT'' then NewPort payload target RtDstPort
         else if tp = ''IN-PORT'' then NewPort payload target RtInPort
         else if tp = ''DSCP'' then NewDSCP payload target
         else if tp = ''PROCESS-NAME'' then NewProcess X payload target RtProcessName
         else if tp = ''PROCESS-PATH'' then NewProcess X payload target RtProcessPath
         else if tp = ''PROCESS-NAME-REGEX'' then NewProcess X payload target RtProcessNameRegex
         else if tp = ''PROCESS-PATH-REGEX'' then NewProcess X payload target RtProcessPathRegex
         else if tp = ''PROCESS-NAME-WILDCARD'' then NewProcess X payload target RtProcessNameWildcard
         else if tp = ''PROCESS-PATH-WILDCARD'' then NewProcess X payload target RtProcessPathWildcard
         else if tp = ''NETWORK'' then NewNetworkType X payload target
         else if tp = ''UID'' then NewUid X payload target
         else if tp = ''IN-TYPE'' then NewInType X payload target
         else if tp = ''IN-USER'' then NewInUser payload target
         else if tp = ''IN-NAME'' then NewInName payload target
         else if tp = ''REMATCH-NAME'' then NewRematchName payload target
         else if tp = ''RULE-SET'' then NewRuleSet payload target isSrc noResolve
         else if tp = ''MATCH'' then Some (MatchAll target)
         else None)"

function (sequential) ParseRule ::
    "rule_ext \<Rightarrow> string \<Rightarrow> string \<Rightarrow> string \<Rightarrow> string list \<Rightarrow> Rule option" where
  "ParseRule X tp payload target params =
     (if tp \<noteq> ''MATCH'' \<and> payload = [] then None
      else if tp = ''SUB-RULE'' then NewSubRule X payload target (\<lambda>tp p tg pm. ParseRule X tp p tg pm)
      else if tp = ''AND'' then NewAND X payload target (\<lambda>tp p tg pm. ParseRule X tp p tg pm)
      else if tp = ''OR'' then NewOR X payload target (\<lambda>tp p tg pm. ParseRule X tp p tg pm)
      else if tp = ''NOT'' then NewNOT X payload target (\<lambda>tp p tg pm. ParseRule X tp p tg pm)
      else parse_plain X tp payload target params)"
  by pat_completeness auto
termination
proof (relation "measure (\<lambda>(X, tp, payload, target, params). length payload)", goal_cases)
  case (2 X tp payload target params s tp' p tg pm)
  then show ?case using part_shorter [OF 2(3-5)] by auto
next
  case (3 X tp payload target params s tp' p tg pm)
  then show ?case using part_shorter [OF 3(4-6)] by auto
next
  case (4 X tp payload target params s tp' p tg pm)
  then show ?case using part_shorter [OF 4(5-7)] by auto
next
  case (5 X tp payload target params s tp' p tg pm)
  then show ?case using part_shorter [OF 5(6-8)] by auto
qed simp

declare ParseRule.simps [simp del]

section \<open>The rules of a configuration\<close>

text \<open>
  \<open>proxies\<close> are the names of the proxies. Only the rules of the top level are wrapped; the number of a
  wrapper is the place of its rule.
\<close>

fun parseRules :: "rule_ext \<Rightarrow> string list \<Rightarrow> bool \<Rightarrow> nat \<Rightarrow> string list \<Rightarrow> Rule list option" where
  "parseRules X proxies wrapped idx [] = Some []"
| "parseRules X proxies wrapped idx (line # ls) =
     (let (tp, payload, target, params) = ParseRulePayload X line True
      in if target = [] then None
         else if target \<notin> set proxies \<and>
           (tp \<noteq> ''SUB-RULE'' \<or> map_of (rx_subRules X) target = None) then None
         else (case ParseRule X tp payload target params of
                 None \<Rightarrow> None
               | Some r \<Rightarrow>
                   if \<exists>n \<in> set (ProviderNames r). map_of (rx_providers X) n = None then None
                   else map_option ((#) (if wrapped then RuleWrapper idx r else r))
                          (parseRules X proxies wrapped (Suc idx) ls)))"

text \<open>\<open>arr\<close> is the path of names the recursion came by.\<close>

function (sequential) verify_list :: "(string \<times> Rule list) list \<Rightarrow> Rule list \<Rightarrow> string list \<Rightarrow> bool" where
  "verify_list D [] arr = True"
| "verify_list D (r # rs) arr =
     (if rule_type r = RtSubRules then
        (case map_of D (Adapter r) of
           None \<Rightarrow> False
         | Some sub \<Rightarrow>
             if Adapter r \<in> set arr then False
             else verify_list D sub (arr @ [Adapter r]) \<and> verify_list D rs arr)
      else verify_list D rs arr)"
  by pat_completeness auto
termination
proof (relation "measures [\<lambda>(D, rs, arr). card (fst ` set D - set arr), \<lambda>(D, rs, arr). length rs]", goal_cases)
  case (2 D r rs arr sub)
  then have "Adapter r \<in> fst ` set D - set arr" by (force dest: map_of_SomeD)
  then have "fst ` set D - set (arr @ [Adapter r]) \<subset> fst ` set D - set arr" by auto
  then show ?case using psubset_card_mono [of "fst ` set D - set arr"] by simp
qed simp_all

definition verifySubRuleCircularReferences :: "string \<Rightarrow> (string \<times> Rule list) list \<Rightarrow> string list \<Rightarrow> bool" where
  "verifySubRuleCircularReferences n D arr =
     verify_list D (case map_of D n of None \<Rightarrow> [] | Some rs \<Rightarrow> rs) (arr @ [n])"

definition verifySubRule :: "(string \<times> Rule list) list \<Rightarrow> bool" where
  "verifySubRule D = list_all (\<lambda>e. verifySubRuleCircularReferences (fst e) D []) D"

fun parse_all_subs :: "rule_ext \<Rightarrow> string list \<Rightarrow> (string \<times> string list) list \<Rightarrow> (string \<times> Rule list) list option" where
  "parse_all_subs X proxies [] = Some []"
| "parse_all_subs X proxies ((name, rawRules) # es) =
     (if name = [] then None
      else (case parseRules X proxies False 0 rawRules of
              None \<Rightarrow> None
            | Some rs \<Rightarrow> map_option ((#) (name, rs)) (parse_all_subs X proxies es)))"

definition parseSubRules :: "rule_ext \<Rightarrow> string list \<Rightarrow> (string \<times> string list) list \<Rightarrow> (string \<times> Rule list) list option" where
  "parseSubRules X proxies raw =
     (case parse_all_subs (X\<lparr>rx_subRules := map (\<lambda>e. (fst e, [])) raw\<rparr>) proxies raw of
        None \<Rightarrow> None | Some D \<Rightarrow> if verifySubRule D then Some D else None)"

text \<open>
  The lines of a classical rule set (\<open>rules/provider/classical_strategy.go\<close>): a line that cannot be read is
  logged and left out.
\<close>

definition classical_payloadToRule :: "rule_ext \<Rightarrow> string \<Rightarrow> Rule option" where
  "classical_payloadToRule X line =
     (let (tp, payload, target, params) = ParseRulePayload X line False
      in if tp \<in> {''MATCH'', ''RULE-SET'', ''SUB-RULE''} then None
         else ParseRule X tp payload target params)"

definition classical_Insert :: "rule_ext \<Rightarrow> string \<Rightarrow> Rule list \<Rightarrow> Rule list" where
  "classical_Insert X line rs =
     (case classical_payloadToRule X line of None \<Rightarrow> rs | Some r \<Rightarrow> rs @ [r])"

definition classical_rules :: "rule_ext \<Rightarrow> string list \<Rightarrow> Rule list" where
  "classical_rules X lines = fold (classical_Insert X) lines []"

end
