(* ===== verification/RouteProps.thy ===== *)
theory RouteProps
  imports RouteParse
begin

text \<open>
  What the routing rules promise: matching a rule of an accepted configuration always comes back, logic
  rules are the connectives of propositional logic, and a suffix of an address is its low bits.
\<close>

section \<open>The shape of parsed rules\<close>

text \<open>A rule without a sub-rule inside, and one without a rule set inside.\<close>

fun no_sub :: "Rule \<Rightarrow> bool" where
  "no_sub (Logic p ad tp rs) =
     (tp \<noteq> RtSubRules \<and> (tp = RtNOT \<longrightarrow> length rs = 1) \<and> (\<forall>r \<in> set rs. no_sub r))"
| "no_sub (RuleWrapper i r) = no_sub r"
| "no_sub _ = True"

fun no_set :: "Rule \<Rightarrow> bool" where
  "no_set (RuleSet n ad src nr) = False"
| "no_set (Logic p ad tp rs) = (\<forall>r \<in> set rs. no_set r)"
| "no_set (RuleWrapper i r) = no_set r"
| "no_set _ = True"

text \<open>A rule of a list: sub-rules stand at the top of it only, with one condition.\<close>

fun listed_rule :: "Rule \<Rightarrow> bool" where
  "listed_rule (Logic p ad tp rs) =
     (if tp = RtSubRules then length rs = 1 \<and> no_sub (hd rs) else no_sub (Logic p ad tp rs))"
| "listed_rule (RuleWrapper i r) = listed_rule r"
| "listed_rule _ = True"

lemma no_sub_listed: "no_sub r \<Longrightarrow> listed_rule r"
  by (induction r rule: listed_rule.induct) auto

lemma all_some_SomeD: "all_some xs = Some ys \<Longrightarrow> y \<in> set ys \<Longrightarrow> Some y \<in> set xs"
  by (induction xs arbitrary: ys rule: all_some.induct) auto

lemma parsePayload_member:
  assumes "parsePayload X f payload = Some rs" and "r \<in> set rs"
  shows "\<exists>s tp p tg pm. sub_payloads payload \<noteq> None \<and> s \<in> set (the (sub_payloads payload)) \<and>
    ParseRulePayload X s False = (tp, p, tg, pm) \<and> tp \<noteq> ''SUB-RULE'' \<and> f tp p tg pm = Some r"
proof -
  obtain ss where ss: "sub_payloads payload = Some ss" "all_some (map (payloadToRule X f) ss) = Some rs"
    using assms(1) by (auto simp: parsePayload_def split: option.splits)
  then obtain s where s: "s \<in> set ss" "payloadToRule X f s = Some r"
    using all_some_SomeD [OF ss(2) assms(2)] by auto
  obtain tp p tg pm where a: "ParseRulePayload X s False = (tp, p, tg, pm)" by (metis prod_cases4)
  with s ss(1) show ?thesis
    by (intro exI [of _ s] exI [of _ tp] exI [of _ p] exI [of _ tg] exI [of _ pm])
       (auto simp: payloadToRule_def split: if_splits)
qed

definition plain_option :: "Rule option \<Rightarrow> bool" where
  "plain_option x = (\<forall>r. x = Some r \<longrightarrow> no_sub r)"

lemma plain_option_simps:
  "plain_option None" "plain_option (Some r) = no_sub r"
  "(\<And>y. no_sub (f y)) \<Longrightarrow> plain_option (map_option f z)"
  by (auto simp: plain_option_def)

lemma plain_option_if: "plain_option a \<Longrightarrow> plain_option b \<Longrightarrow> plain_option (if c then a else b)"
  by simp

lemma plain_constructors:
  "plain_option (Some (NewDomain X p ad))" "plain_option (Some (NewDomainSuffix X p ad))"
  "plain_option (Some (NewDomainKeyword X p ad))" "plain_option (NewDomainRegex X p ad)"
  "plain_option (NewDomainWildcard X p ad)" "plain_option (NewGEOSITE X p ad)"
  "plain_option (NewGEOIP X p ad src nr)" "plain_option (NewIPASN X p ad src nr)"
  "plain_option (NewIPCIDR X p ad src nr)" "plain_option (NewIPSuffix X p ad src nr)"
  "plain_option (NewPort p ad t)" "plain_option (NewDSCP p ad)" "plain_option (NewUid X p ad)"
  "plain_option (NewInName p ad)" "plain_option (NewInUser p ad)" "plain_option (NewInType X p ad)"
  "plain_option (NewRematchName p ad)" "plain_option (NewProcess X p ad t)"
  "plain_option (NewNetworkType X p ad)" "plain_option (NewRuleSet p ad src nr)"
  "plain_option (Some (MatchAll ad))" "plain_option None"
  by (simp_all add: plain_option_simps NewDomain_def NewDomainSuffix_def NewDomainKeyword_def
      NewDomainRegex_def NewDomainWildcard_def NewGEOSITE_def NewGEOIP_def NewIPASN_def NewIPCIDR_def
      NewIPSuffix_def NewPort_def NewDSCP_def NewUid_def NewInName_def NewInUser_def NewInType_def
      NewRematchName_def NewProcess_def NewNetworkType_def NewRuleSet_def Let_def
      split: option.split)

lemma parse_plain_no_sub: "parse_plain X tp p tg pm = Some r \<Longrightarrow> no_sub r"
proof -
  have "plain_option (parse_plain X tp p tg pm)"
    unfolding parse_plain_def Let_def case_prod_beta
    by (intro plain_option_if plain_constructors)
  then show "parse_plain X tp p tg pm = Some r \<Longrightarrow> no_sub r" by (simp add: plain_option_def)
qed

lemma ParseRule_shape:
  "ParseRule X tp p tg pm = Some r \<Longrightarrow> listed_rule r \<and> (tp \<noteq> ''SUB-RULE'' \<longrightarrow> no_sub r)"
proof (induction X tp p tg pm arbitrary: r rule: ParseRule.induct)
  case (1 X tp p tg pm)
  let ?rec = "\<lambda>tp p tg pm. ParseRule X tp p tg pm"
  note rec = ParseRule.simps [of X tp p tg pm]
  have parts: "\<forall>q \<in> set rs. no_sub q" if "parsePayload X ?rec payload = Some rs"
    and "\<And>s tp' p' tg' pm' r'. sub_payloads payload \<noteq> None \<Longrightarrow> s \<in> set (the (sub_payloads payload)) \<Longrightarrow>
      ParseRulePayload X s False = (tp', p', tg', pm') \<Longrightarrow> ParseRule X tp' p' tg' pm' = Some r' \<Longrightarrow>
      listed_rule r' \<and> (tp' \<noteq> ''SUB-RULE'' \<longrightarrow> no_sub r')" for payload rs
    using parsePayload_member [OF that(1)] that(2) by blast
  have some: "\<not> (tp \<noteq> ''MATCH'' \<and> p = [])"
    using "1.prems" unfolding rec by auto
  consider "tp = ''SUB-RULE''" | "tp = ''AND''" | "tp = ''OR''" | "tp = ''NOT''"
    | "tp \<notin> {''SUB-RULE'', ''AND'', ''OR'', ''NOT''}" by blast
  then show ?case
  proof cases
    case 1
    then have "NewSubRule X p tg ?rec = Some r" using "1.prems" some unfolding rec by simp
    then obtain rs where rs: "parsePayload X ?rec (''('' @ p @ '')'') = Some rs" "length rs = 1"
      "r = Logic p tg RtSubRules rs"
      by (auto simp: NewSubRule_def split: option.splits if_splits)
    then have "no_sub (hd rs)" using parts [OF rs(1) "1.IH"(1) [OF some 1]] by (cases rs) auto
    with rs 1 show ?thesis by simp
  next
    case 2
    then have "NewAND X p tg ?rec = Some r" using "1.prems" some unfolding rec by simp
    then obtain rs where rs: "parsePayload X ?rec p = Some rs" "r = Logic p tg RtAND rs"
      by (auto simp: NewAND_def)
    with parts [OF rs(1) "1.IH"(2) [OF some _ 2]] 2 show ?thesis by simp
  next
    case 3
    then have "NewOR X p tg ?rec = Some r" using "1.prems" some unfolding rec by simp
    then obtain rs where rs: "parsePayload X ?rec p = Some rs" "r = Logic p tg RtOR rs"
      by (auto simp: NewOR_def)
    with parts [OF rs(1) "1.IH"(3) [OF some _ _ 3]] 3 show ?thesis by simp
  next
    case 4
    then have "NewNOT X p tg ?rec = Some r" using "1.prems" some unfolding rec by simp
    then obtain rs where rs: "parsePayload X ?rec p = Some rs" "length rs = 1" "r = Logic p tg RtNOT rs"
      by (auto simp: NewNOT_def split: option.splits if_splits)
    with parts [OF rs(1) "1.IH"(4) [OF some _ _ _ 4]] 4 show ?thesis by simp
  next
    case 5
    then have "parse_plain X tp p tg pm = Some r" using "1.prems" some unfolding rec by simp
    then have "no_sub r" by (rule parse_plain_no_sub)
    then show ?thesis by (simp add: no_sub_listed)
  qed
qed

lemmas ParseRule_listed = ParseRule_shape [THEN conjunct1]

lemma parseRules_listed:
  "parseRules X proxies wrapped idx ls = Some rs \<Longrightarrow> r \<in> set rs \<Longrightarrow> listed_rule r"
proof (induction ls arbitrary: idx rs)
  case (Cons line ls)
  obtain tp p tg pm where line: "ParseRulePayload X line True = (tp, p, tg, pm)" by (metis prod_cases4)
  then obtain q qs where q: "ParseRule X tp p tg pm = Some q" "parseRules X proxies wrapped (Suc idx) ls = Some qs"
    "rs = (if wrapped then RuleWrapper idx q else q) # qs"
    using Cons.prems(1) by (auto split: if_splits option.splits)
  from ParseRule_listed [OF q(1)] Cons.IH [OF q(2)] Cons.prems(2) show ?case
    by (auto simp: q(3) split: if_splits)
qed simp

lemma parse_all_subs_listed:
  "parse_all_subs X proxies raw = Some D \<Longrightarrow>
    map fst D = map fst raw \<and> (\<forall>e \<in> set D. \<forall>r \<in> set (snd e). listed_rule r)"
  by (induction X proxies raw arbitrary: D rule: parse_all_subs.induct)
     (auto split: if_splits option.splits dest: parseRules_listed)

lemma classical_rules_no_sub: "r \<in> set (classical_rules X lines) \<Longrightarrow> no_sub r"
proof -
  have "\<forall>r \<in> set (fold (classical_Insert X) lines rs). no_sub r" if "\<forall>r \<in> set rs. no_sub r" for rs
    using that
  proof (induction lines arbitrary: rs)
    case (Cons l lines)
    have "\<forall>r \<in> set (classical_Insert X l rs). no_sub r"
      using Cons.prems ParseRule_shape
      by (auto simp: classical_Insert_def classical_payloadToRule_def split: option.splits prod.splits if_splits)
    from Cons.IH [OF this] show ?case by simp
  qed simp
  from this [of "[]"] show "r \<in> set (classical_rules X lines) \<Longrightarrow> no_sub r"
    by (simp add: classical_rules_def)
qed

section \<open>Matching comes back\<close>

lemma any_match_returns:
  "(\<And>r st. r \<in> set rs \<Longrightarrow> rule_match X h n r st \<noteq> None) \<Longrightarrow> any_match X h n rs st \<noteq> None"
  by (induction rs arbitrary: st) (auto simp del: not_None_eq split: option.split)

lemma all_match_returns:
  "(\<And>r st. r \<in> set rs \<Longrightarrow> rule_match X h n r st \<noteq> None) \<Longrightarrow> all_match X h n rs st \<noteq> None"
  by (induction rs arbitrary: st) (auto simp del: not_None_eq split: option.split)

lemma logic_returns:
  assumes "\<And>r st. r \<in> set rs \<Longrightarrow> rule_match X h n r st \<noteq> None"
    and "tp \<noteq> RtSubRules" and "tp = RtNOT \<longrightarrow> length rs = 1"
  shows "rule_match X h n (Logic p ad tp rs) st \<noteq> None"
proof (cases "tp = RtNOT")
  case True
  with assms(3) obtain r where "rs = [r]" by (auto simp: length_Suc_conv)
  with True assms(1) [of r st] show ?thesis by (auto simp del: not_None_eq split: option.split)
next
  case False
  with assms(2) any_match_returns [of rs X h n st, OF assms(1)] all_match_returns [of rs X h n st, OF assms(1)]
  show ?thesis by (auto simp del: not_None_eq)
qed

lemma flat_returns: "no_sub r \<Longrightarrow> no_set r \<Longrightarrow> rule_match X h n r st \<noteq> None"
proof (induction r arbitrary: st rule: no_sub.induct)
  case (1 p ad tp rs)
  show ?case by (rule logic_returns) (use 1 in \<open>auto simp del: not_None_eq\<close>)
qed (auto simp del: not_None_eq)

text \<open>The rule sets of a configuration: the lists hold no rule set again.\<close>

definition sets_flat :: "rule_ext \<Rightarrow> bool" where
  "sets_flat X = (\<forall>e \<in> set (rx_providers X). \<forall>qs. snd e = Classical qs \<longrightarrow> (\<forall>q \<in> set qs. no_sub q \<and> no_set q))"

lemma set_match_returns:
  assumes "sets_flat X" and "map_of (rx_providers X) name = Some p" and "0 < n"
  shows "set_match X h n p st \<noteq> None"
proof (cases p)
  case (Classical qs)
  obtain m where n: "n = Suc m" using assms(3) by (cases n) auto
  have "(name, p) \<in> set (rx_providers X)" using assms(2) by (rule map_of_SomeD)
  then have "\<forall>q \<in> set qs. no_sub q \<and> no_set q" using assms(1) Classical by (auto simp: sets_flat_def)
  then show ?thesis using any_match_returns [of qs X h m st] flat_returns
    by (auto simp: Classical n simp del: not_None_eq)
qed simp

lemma no_sub_returns: "no_sub r \<Longrightarrow> sets_flat X \<Longrightarrow> 0 < n \<Longrightarrow> rule_match X h n r st \<noteq> None"
proof (induction r arbitrary: st rule: no_sub.induct)
  case (1 p ad tp rs)
  show ?case by (rule logic_returns) (use 1 in \<open>auto simp del: not_None_eq\<close>)
qed (auto simp: set_match_returns simp del: not_None_eq split: option.split)

lemma listed_returns:
  assumes "listed_rule r" and "sets_flat X" and "0 < n"
    and "\<And>st. rule_type r = RtSubRules \<Longrightarrow> match_sub X h n (Adapter r) st \<noteq> None"
  shows "rule_match X h n r st \<noteq> None"
  using assms
proof (induction r arbitrary: st rule: listed_rule.induct)
  case (1 p ad tp rs)
  show ?case
  proof (cases "tp = RtSubRules")
    case True
    with 1(1) obtain c where rs: "rs = [c]" "no_sub c" by (auto simp: length_Suc_conv)
    with True 1(4) no_sub_returns [OF rs(2) 1(2,3), of h st] show ?thesis
      by (auto simp del: not_None_eq split: option.split)
  next
    case False
    with 1(1) have "no_sub (Logic p ad tp rs)" by (simp del: no_sub.simps)
    then show ?thesis by (rule no_sub_returns) (use 1 in auto)
  qed
qed (auto simp: set_match_returns simp del: not_None_eq split: option.split)

lemma sub_loop_returns:
  assumes "verify_list D rs arr" and "rx_subRules X = D" and "sets_flat X"
    and "\<forall>e \<in> set D. \<forall>r \<in> set (snd e). listed_rule r" and "\<forall>r \<in> set rs. listed_rule r"
    and "card (fst ` set D - set arr) \<le> k"
  shows "sub_loop X h (Suc k) rs st \<noteq> None"
  using assms
proof (induction D rs arr arbitrary: k st rule: verify_list.induct)
  case (2 D r rs arr)
  have rest: "sub_loop X h (Suc k) rs st' \<noteq> None" for st'
  proof (cases "rule_type r = RtSubRules")
    case True
    then obtain sub where "map_of D (Adapter r) = Some sub" "Adapter r \<notin> set arr" "verify_list D rs arr"
      using "2.prems"(1) by (auto split: option.splits if_splits)
    with "2.IH"(2) [OF True, of sub k st'] "2.prems" show ?thesis by auto
  next
    case False
    with "2.IH"(3) [OF False, of k st'] "2.prems" show ?thesis by auto
  qed
  have sub: "match_sub X h (Suc k) (Adapter r) st' \<noteq> None" if s: "rule_type r = RtSubRules" for st'
  proof -
    obtain sub where sub: "map_of D (Adapter r) = Some sub" "Adapter r \<notin> set arr"
      "verify_list D sub (arr @ [Adapter r])"
      using "2.prems"(1) s by (auto split: option.splits if_splits)
    have mem: "Adapter r \<in> fst ` set D - set arr" using sub by (force dest: map_of_SomeD)
    then have "card (fst ` set D - set arr - {Adapter r}) < card (fst ` set D - set arr)"
      using card_Diff1_less [of "fst ` set D - set arr" "Adapter r"] by blast
    moreover have "fst ` set D - set (arr @ [Adapter r]) = fst ` set D - set arr - {Adapter r}" by auto
    ultimately obtain j where j: "k = Suc j" "card (fst ` set D - set (arr @ [Adapter r])) \<le> j"
      using "2.prems"(6) by (cases k) auto
    have "(Adapter r, sub) \<in> set D" using sub(1) by (rule map_of_SomeD)
    then have "\<forall>q \<in> set sub. listed_rule q" using "2.prems"(4) by force
    then have "sub_loop X h (Suc j) sub st' \<noteq> None"
      using "2.IH"(1) [OF s sub(1,2) sub(3) "2.prems"(2-4) _ j(2)] by blast
    then show ?thesis using "2.prems"(2) sub(1) by (simp add: j(1) sub_rules_of_def)
  qed
  have "rule_match X h (Suc k) r st \<noteq> None"
    by (rule listed_returns) (use "2.prems" sub in auto)
  with rest sub show ?case by (auto simp del: not_None_eq split: option.split)
qed simp

lemma match_sub_returns:
  assumes "verifySubRule D" and "rx_subRules X = D" and "sets_flat X"
    and "\<forall>e \<in> set D. \<forall>r \<in> set (snd e). listed_rule r" and "card (fst ` set D) < n"
  shows "match_sub X h n name st \<noteq> None"
proof -
  obtain m where n: "n = Suc m" using assms(5) by (cases n) auto
  show ?thesis
  proof (cases "map_of D name")
    case None
    then show ?thesis by (simp add: n sub_rules_of_def assms(2))
  next
    case (Some sub)
    then have mem: "(name, sub) \<in> set D" by (rule map_of_SomeD)
    then have "name \<in> fst ` set D" by force
    then have "card (fst ` set D - set [name]) < card (fst ` set D)"
      using card_Diff1_less [of "fst ` set D" name] by simp
    then obtain j where j: "m = Suc j" "card (fst ` set D - set [name]) \<le> j"
      using assms(5) n by (cases m) auto
    have "verify_list D sub [name]"
      using assms(1) mem Some
      by (auto simp: verifySubRule_def verifySubRuleCircularReferences_def list_all_iff)
    moreover have "\<forall>r \<in> set sub. listed_rule r" using assms(4) mem by force
    ultimately have "sub_loop X h (Suc j) sub st \<noteq> None"
      using sub_loop_returns [OF _ assms(2-4) _ j(2)] by blast
    then show ?thesis by (simp add: n j(1) sub_rules_of_def assms(2) Some)
  qed
qed

text \<open>
  Matching a rule of an accepted configuration always comes back: the check of the sub-rules leaves no
  circle among them. The rule sets are lists of lines, in which no rule set may stand inside a logic
  rule; the parser of rule sets does not look for that (\<open>self_set_never_returns\<close>).
\<close>

lemma parseSubRules_listed:
  "parseSubRules X proxies raw = Some D \<Longrightarrow> (\<forall>e \<in> set D. \<forall>r \<in> set (snd e). listed_rule r)"
  by (auto simp: parseSubRules_def split: option.splits if_splits dest: parse_all_subs_listed)

lemma accepted_rule_returns:
  assumes "parseSubRules X proxies raw = Some D" and "Y = X\<lparr>rx_subRules := D\<rparr>" and "listed_rule r"
    and "\<And>name p. (name, p) \<in> set (rx_providers X) \<Longrightarrow>
      (\<exists>ls. p = Classical (classical_rules X ls) \<and> (\<forall>q \<in> set (classical_rules X ls). no_set q)) \<or>
      (\<exists>f. p = OtherSet f)"
  shows "rule_match Y h (Suc (length raw)) r st \<noteq> None"
proof -
  have D: "parse_all_subs (X\<lparr>rx_subRules := map (\<lambda>e. (fst e, [])) raw\<rparr>) proxies raw = Some D"
    "verifySubRule D"
    using assms(1) by (auto simp: parseSubRules_def split: option.splits if_splits)
  have listed: "\<forall>e \<in> set D. \<forall>r \<in> set (snd e). listed_rule r" "map fst D = map fst raw"
    using parse_all_subs_listed [OF D(1)] by auto
  have flat: "sets_flat Y"
    unfolding sets_flat_def using assms(2,4) classical_rules_no_sub by (fastforce simp: sets_flat_def)
  have "card (fst ` set D) \<le> length D" using card_length [of "map fst D"] by simp
  also have "length D = length raw" using arg_cong [OF listed(2), of length] by simp
  finally have n: "card (fst ` set D) < Suc (length raw)" by simp
  show ?thesis
  proof (rule listed_returns [OF assms(3) flat])
    show "match_sub Y h (Suc (length raw)) (Adapter r) st' \<noteq> None" for st'
      by (rule match_sub_returns [OF D(2) _ flat listed(1) n]) (simp add: assms(2))
  qed simp
qed

text \<open>A rule set with a logic rule that names the rule set itself.\<close>

lemma self_set_never_returns:
  assumes "map_of (rx_providers X) s = Some (Classical [Logic p ad RtAND [RuleSet s a False False]])"
  shows "rule_match X h n (RuleSet s ad' False False) st = None"
proof (induction n arbitrary: h st ad')
  case (Suc n)
  then show ?case by (simp add: assms)
qed (simp add: assms)

section \<open>Logic rules are connectives\<close>

text \<open>
  What a rule says of a connection, whatever earlier rules left in the caches. The caches of the
  connection are its GeoIP codes and ASN texts.
\<close>

definition erase :: "Metadata \<Rightarrow> Metadata" where
  "erase m = m\<lparr>md_SrcGeoIP := None, md_DstGeoIP := None, md_SrcIPASN := [], md_DstIPASN := []\<rparr>"

definition fresh_state :: "Metadata \<Rightarrow> MatchState" where
  "fresh_state m = \<lparr>ms_meta = erase m, ms_resolved = False, ms_attempt = False, ms_asked = [], ms_hits = []\<rparr>"

definition no_helper :: RuleMatchHelper where
  "no_helper = \<lparr>ResolveIP = None, FindProcess = None, CheckPassRule = None\<rparr>"

fun sat :: "rule_ext \<Rightarrow> Metadata \<Rightarrow> Rule \<Rightarrow> bool" where
  "sat X m (Logic p ad tp rs) =
     (if tp = RtNOT then \<not> (\<forall>r \<in> set rs. sat X m r)
      else if tp = RtOR then \<exists>r \<in> set rs. sat X m r
      else if tp = RtAND then \<forall>r \<in> set rs. sat X m r
      else False)"
| "sat X m (RuleWrapper i r) = (\<not> rx_disabled X i \<and> sat X m r)"
| "sat X m r = fst (fst (base_match X no_helper r (fresh_state m)))"

text \<open>The cached codes are those of the address they stand for.\<close>

definition cache_ok :: "rule_ext \<Rightarrow> Addr \<Rightarrow> string list option \<Rightarrow> bool" where
  "cache_ok X ip cached =
     (case cached of
        None \<Rightarrow> True
      | Some cs \<Rightarrow>
          if rx_geodataMode X
          then \<forall>c \<in> set cs. \<exists>f. rx_geoip X c = Some f \<and> f ip
          else cs = rx_LookupCode X ip)"

definition caches_ok :: "rule_ext \<Rightarrow> Metadata \<Rightarrow> bool" where
  "caches_ok X m = (cache_ok X (md_SrcIP m) (md_SrcGeoIP m) \<and> cache_ok X (md_DstIP m) (md_DstGeoIP m))"

text \<open>A helper that has nothing to look up any more.\<close>

definition settled :: "RuleMatchHelper \<Rightarrow> MatchState \<Rightarrow> bool" where
  "settled h st =
     (\<forall>st'. erase (ms_meta st') = erase (ms_meta st) \<longrightarrow>
        call_helper (ResolveIP h) st' = st' \<and> call_helper (FindProcess h) st' = st')"

lemma erase_fields [simp]:
  "md_Host (erase m) = md_Host m" "md_SniffHost (erase m) = md_SniffHost m"
  "md_SrcIP (erase m) = md_SrcIP m" "md_DstIP (erase m) = md_DstIP m"
  "md_NetWork (erase m) = md_NetWork m" "md_Type (erase m) = md_Type m"
  "md_SrcPort (erase m) = md_SrcPort m" "md_DstPort (erase m) = md_DstPort m"
  "md_InPort (erase m) = md_InPort m" "md_InName (erase m) = md_InName m"
  "md_InUser (erase m) = md_InUser m" "md_RematchName (erase m) = md_RematchName m"
  "md_Uid (erase m) = md_Uid m" "md_Process (erase m) = md_Process m"
  "md_ProcessPath (erase m) = md_ProcessPath m" "md_DSCP (erase m) = md_DSCP m"
  "md_SrcGeoIP (erase m) = None" "md_DstGeoIP (erase m) = None" "RuleHost (erase m) = RuleHost m"
  by (simp_all add: erase_def RuleHost_def)

lemma same_erase:
  assumes "erase m = erase m'"
  shows "RuleHost m = RuleHost m'" "md_SrcIP m = md_SrcIP m'" "md_DstIP m = md_DstIP m'"
    "md_NetWork m = md_NetWork m'" "md_Type m = md_Type m'" "md_SrcPort m = md_SrcPort m'"
    "md_DstPort m = md_DstPort m'" "md_InPort m = md_InPort m'" "md_InName m = md_InName m'"
    "md_InUser m = md_InUser m'" "md_RematchName m = md_RematchName m'" "md_Uid m = md_Uid m'"
    "md_Process m = md_Process m'" "md_ProcessPath m = md_ProcessPath m'" "md_DSCP m = md_DSCP m'"
  using assms erase_fields [of m] erase_fields [of m'] by metis+

text \<open>What one match of such a rule does: it answers, and fills caches only.\<close>

definition answers :: "rule_ext \<Rightarrow> bool \<Rightarrow> string \<Rightarrow> MatchState \<Rightarrow> (bool \<times> string) \<times> MatchState \<Rightarrow> bool" where
  "answers X b ad st res =
     (fst (fst res) = b \<and> (b \<longrightarrow> snd (fst res) = ad) \<and>
      erase (ms_meta (snd res)) = erase (ms_meta st) \<and> caches_ok X (ms_meta (snd res)))"

lemma fresh_simps [simp]: "ms_meta (fresh_state m) = erase m"
  by (simp add: fresh_state_def)

lemma no_helper_idle [simp]:
  "resolve_first no_helper src nr s = s" "call_helper (FindProcess no_helper) s = s"
  by (simp_all add: resolve_first_def no_helper_def call_helper_def)

lemma sat_geoip:
  "sat X m (GEOIP c ad src nr) =
    (let ip = (if src then md_SrcIP m else md_DstIP m)
     in IsValid ip \<and>
        (if c = ''lan'' then isLan ip
         else if rx_geodataMode X then (case rx_geoip X c of None \<Rightarrow> False | Some f \<Rightarrow> f ip)
         else c \<in> set (rx_LookupCode X ip)))"
  by (simp add: geoip_match_def rule_ip_def geo_codes_def Let_def split: option.split)

lemma erase_geo [simp]:
  "erase (ms_meta (set_geo_codes src cs st)) = erase (ms_meta st)"
  by (simp add: set_geo_codes_def erase_def)

lemma caches_ok_set:
  "caches_ok X (ms_meta st) \<Longrightarrow> cache_ok X (rule_ip src st) (Some cs) \<Longrightarrow>
    caches_ok X (ms_meta (set_geo_codes src cs st))"
  by (simp add: caches_ok_def set_geo_codes_def rule_ip_def split: if_splits)

lemma caches_ok_geo: "caches_ok X (ms_meta st) \<Longrightarrow> cache_ok X (rule_ip src st) (geo_codes src st)"
  by (simp add: caches_ok_def rule_ip_def geo_codes_def)

lemma geoip_answers:
  assumes "settled h st" and "caches_ok X (ms_meta st)"
  shows "answers X (sat X (ms_meta st) (GEOIP c ad src nr)) ad st (geoip_match X h c ad src nr st)"
proof -
  have r: "resolve_first h src nr st = st" using assms(1) by (simp add: resolve_first_def settled_def)
  have ok: "cache_ok X (rule_ip src st) (geo_codes src st)" by (rule caches_ok_geo [OF assms(2)])
  have s: "sat X (ms_meta st) (GEOIP c ad src nr) =
      (IsValid (rule_ip src st) \<and>
        (if c = ''lan'' then isLan (rule_ip src st)
         else if rx_geodataMode X then (case rx_geoip X c of None \<Rightarrow> False | Some f \<Rightarrow> f (rule_ip src st))
         else c \<in> set (rx_LookupCode X (rule_ip src st))))"
    by (simp only: sat_geoip Let_def rule_ip_def)
  show ?thesis
  proof (cases "\<not> IsValid (rule_ip src st) \<or> c = ''lan''")
    case True
    with assms(2) show ?thesis unfolding s by (auto simp: answers_def geoip_match_def r Let_def)
  next
    case False
    show ?thesis
    proof (cases "rx_geodataMode X")
      case True
      define known where "known = (case geo_codes src st of None \<Rightarrow> [] | Some cs \<Rightarrow> cs)"
      have all: "\<forall>d \<in> set known. \<exists>f. rx_geoip X d = Some f \<and> f (rule_ip src st)"
        using ok True by (simp add: known_def cache_ok_def split: option.splits)
      have m: "geoip_match X h c ad src nr st =
          (if c \<in> set known then ((True, ad), st)
           else (case rx_geoip X c of
                   None \<Rightarrow> ((False, []), st)
                 | Some matcher \<Rightarrow>
                     if matcher (rule_ip src st) then ((True, ad), set_geo_codes src (known @ [c]) st)
                     else ((False, ad), st)))"
        using True False unfolding geoip_match_def Let_def r known_def [symmetric] by simp
      show ?thesis
      proof (cases "rx_geoip X c")
        case None
        then have "c \<notin> set known" using all by force
        with None True False assms(2) show ?thesis unfolding s m by (simp add: answers_def)
      next
        case (Some f)
        have new: "cache_ok X (rule_ip src st) (Some (known @ [c]))" if "f (rule_ip src st)"
          using all that True Some by (auto simp: cache_ok_def)
        have "c \<in> set known \<Longrightarrow> f (rule_ip src st)" using all Some by auto
        with Some True False assms(2) caches_ok_set [OF assms(2) new] show ?thesis
          unfolding s m by (auto simp: answers_def)
      qed
    next
      case geodata: False
      show ?thesis
      proof (cases "geo_codes src st")
        case None
        have "cache_ok X (rule_ip src st) (Some (rx_LookupCode X (rule_ip src st)))"
          using geodata by (simp add: cache_ok_def)
        from caches_ok_set [OF assms(2) this] False geodata None show ?thesis
          unfolding s by (simp add: answers_def geoip_match_def r Let_def)
      next
        case (Some cs)
        with ok geodata have "cs = rx_LookupCode X (rule_ip src st)" by (simp add: cache_ok_def)
        with False geodata Some assms(2) show ?thesis
          unfolding s by (simp add: answers_def geoip_match_def r Let_def)
      qed
    qed
  qed
qed

lemma plain_answers:
  assumes "settled h st" and "caches_ok X (ms_meta st)"
    and "\<forall>i q. r \<noteq> RuleWrapper i q" and "\<forall>p a tp rs. r \<noteq> Logic p a tp rs" and "no_set r"
  shows "answers X (sat X (ms_meta st) r) (Adapter r) st (base_match X h r st)"
proof -
  have f: "resolve_first h src nr st = st" "call_helper (FindProcess h) st = st" for src nr
    using assms(1) by (simp_all add: resolve_first_def settled_def)
  note simps = answers_def f Let_def rule_ip_def suffix_match_def
    process_match_def uid_match_def one_of_def assms(2)
  show ?thesis
  proof (cases r)
    case (GEOIP c ad src nr)
    with geoip_answers [OF assms(1,2)] show ?thesis by simp
  next
    case (ASN a ad src nr)
    with assms(2) show ?thesis
      by (simp add: simps asn_match_def caches_ok_def erase_def split: prod.split)
  qed (use assms(3-5) in \<open>simp_all add: simps split: option.split\<close>)
qed

text \<open>
  Over a list of parts, an \<open>any_match\<close> is a disjunction and an \<open>all_match\<close> a conjunction.
\<close>

definition part_ok :: "rule_ext \<Rightarrow> RuleMatchHelper \<Rightarrow> nat \<Rightarrow> Rule \<Rightarrow> bool" where
  "part_ok X h n r =
     (\<forall>st. settled h st \<longrightarrow> caches_ok X (ms_meta st) \<longrightarrow>
        (\<exists>res. rule_match X h n r st = Some res \<and> answers X (sat X (ms_meta st) r) (Adapter r) st res))"

lemma plain_part_ok:
  assumes "\<forall>i q. r \<noteq> RuleWrapper i q" and "\<forall>p a tp rs. r \<noteq> Logic p a tp rs" and "no_set r"
  shows "part_ok X h n r"
proof -
  have "rule_match X h n r st = Some (base_match X h r st)" for st using assms by (cases r) auto
  with plain_answers [OF _ _ assms] show ?thesis by (simp add: part_ok_def)
qed

lemma sat_erase: "erase m = erase m' \<Longrightarrow> sat X m r = sat X m' r"
  by (induction X m r rule: sat.induct) (simp_all add: fresh_state_def)

lemma settled_erase: "erase (ms_meta st') = erase (ms_meta st) \<Longrightarrow> settled h st \<Longrightarrow> settled h st'"
  by (simp add: settled_def)

lemma parts_match:
  assumes "\<forall>r \<in> set rs. part_ok X h n r" and "settled h st" and "caches_ok X (ms_meta st)"
  shows "(\<exists>st'. any_match X h n rs st = Some (\<exists>r \<in> set rs. sat X (ms_meta st) r, st') \<and>
      erase (ms_meta st') = erase (ms_meta st) \<and> caches_ok X (ms_meta st')) \<and>
    (\<exists>st'. all_match X h n rs st = Some (\<forall>r \<in> set rs. sat X (ms_meta st) r, st') \<and>
      erase (ms_meta st') = erase (ms_meta st) \<and> caches_ok X (ms_meta st'))"
  using assms
proof (induction rs arbitrary: st)
  case (Cons r rs)
  obtain m a st1 where r: "rule_match X h n r st = Some ((m, a), st1)"
    "answers X (sat X (ms_meta st) r) (Adapter r) st ((m, a), st1)"
    using Cons.prems by (auto simp: part_ok_def)
  then have s1: "erase (ms_meta st1) = erase (ms_meta st)" "caches_ok X (ms_meta st1)"
    "m = sat X (ms_meta st) r" by (simp_all add: answers_def)
  have "sat X (ms_meta st1) q = sat X (ms_meta st) q" for q by (rule sat_erase [OF s1(1)])
  with Cons.IH [of st1] settled_erase [OF s1(1) Cons.prems(2)] Cons.prems(1) s1 r(1) show ?case
    by auto
qed simp


section \<open>Suffixes of addresses\<close>

definition octets :: "nat \<Rightarrow> 'a::len word \<Rightarrow> 8 word list" where
  "octets sz w = map (\<lambda>i. ucast (drop_bit (8 * (sz - 1 - i)) w)) [0..<sz]"

lemma AsSlice_octets: "AsSlice (Addr4 v) = octets 4 v" "AsSlice (Addr6 w) = octets 16 w"
  by (simp_all add: octets_def)

lemma octet_nth: "i < sz \<Longrightarrow> octets sz w ! i = ucast (drop_bit (8 * (sz - 1 - i)) w)"
  by (simp add: octets_def)

lemma low_octet_bit: "bit (ucast (drop_bit k (w :: 'a::len word)) :: 8 word) j \<longleftrightarrow> j < 8 \<and> bit w (k + j)"
  by (auto simp: bit_ucast_iff bit_drop_bit_eq dest: bit_imp_le_length)

lemma low_bits_eq: "take_bit n a = take_bit n (b :: 'a::len word) \<longleftrightarrow> (\<forall>j < n. bit a j = bit b j)"
proof
  assume "take_bit n a = take_bit n b"
  then have "bit (take_bit n a) j = bit (take_bit n b) j" for j by simp
  then have "(j < n \<and> bit a j) = (j < n \<and> bit b j)" for j by (simp add: bit_take_bit_iff)
  then show "\<forall>j < n. bit a j = bit b j" by blast
next
  assume "\<forall>j < n. bit a j = bit b j"
  then show "take_bit n a = take_bit n b" by (intro bit_eqI) (auto simp: bit_take_bit_iff)
qed

lemma octet_eq: "x = y \<longleftrightarrow> (\<forall>j < 8. bit x j = bit (y :: 8 word) j)"
  by (auto intro!: bit_word_eqI)

lemma low_octet_eq:
  assumes "m \<le> 8"
  shows "push_bit (8 - m) x = push_bit (8 - m) (y :: 8 word) \<longleftrightarrow> (\<forall>j < m. bit x j = bit y j)"
proof
  assume e: "push_bit (8 - m) x = push_bit (8 - m) y"
  show "\<forall>j < m. bit x j = bit y j"
  proof (intro allI impI)
    fix j assume j: "j < m"
    have "bit (push_bit (8 - m) x) (8 - m + j) = bit (push_bit (8 - m) y) (8 - m + j)" using e by simp
    moreover have "8 - m \<le> 8 - m + j" "8 - m + j < 8" "8 - m + j - (8 - m) = j" using j assms by auto
    ultimately show "bit x j = bit y j" by (simp only: bit_push_bit_iff) simp
  qed
next
  assume "\<forall>j < m. bit x j = bit y j"
  then show "push_bit (8 - m) x = push_bit (8 - m) y"
    using assms by (intro bit_word_eqI) (auto simp: bit_push_bit_iff)
qed

lemma same_suffix_octets:
  fixes a b :: "'a::len word"
  assumes "n \<le> 8 * sz"
  shows "same_suffix (octets sz a) n (octets sz b) \<longleftrightarrow> take_bit n a = take_bit n b"
proof -
  have len [simp]: "length (octets sz w) = sz" for w :: "'a word" by (simp add: octets_def)
  define q m where "q = n div 8" and "m = n mod 8"
  have n: "n = 8 * q + m" "m < 8" by (simp_all add: q_def m_def)
  have whole: "list_all (\<lambda>i. octets sz a ! (sz - i) = octets sz b ! (sz - i)) (rev [1..<q + 1]) \<longleftrightarrow>
      (\<forall>j < 8 * q. bit a j = bit b j)"
  proof -
    have "octets sz a ! (sz - i) = octets sz b ! (sz - i) \<longleftrightarrow> (\<forall>j < 8. bit a (8 * (i - 1) + j) = bit b (8 * (i - 1) + j))"
      if "1 \<le> i" "i \<le> q" for i
    proof -
      have "sz - i < sz" "sz - 1 - (sz - i) = i - 1" using that n assms by auto
      then show ?thesis by (simp add: octet_nth octet_eq low_octet_bit)
    qed
    then have "list_all (\<lambda>i. octets sz a ! (sz - i) = octets sz b ! (sz - i)) (rev [1..<q + 1]) \<longleftrightarrow>
        (\<forall>i. 1 \<le> i \<and> i \<le> q \<longrightarrow> (\<forall>j < 8. bit a (8 * (i - 1) + j) = bit b (8 * (i - 1) + j)))"
      by (auto simp: list_all_iff)
    also have "\<dots> \<longleftrightarrow> (\<forall>j < 8 * q. bit a j = bit b j)"
    proof
      assume all: "\<forall>i. 1 \<le> i \<and> i \<le> q \<longrightarrow> (\<forall>j < 8. bit a (8 * (i - 1) + j) = bit b (8 * (i - 1) + j))"
      show "\<forall>j < 8 * q. bit a j = bit b j"
      proof (intro allI impI)
        fix j assume "j < 8 * q"
        then have "j div 8 + 1 \<le> q" by (simp add: less_mult_imp_div_less mult.commute Suc_le_eq)
        with all [rule_format, of "j div 8 + 1" "j mod 8"] show "bit a j = bit b j" by simp
      qed
    next
      assume all: "\<forall>j < 8 * q. bit a j = bit b j"
      show "\<forall>i. 1 \<le> i \<and> i \<le> q \<longrightarrow> (\<forall>j < 8. bit a (8 * (i - 1) + j) = bit b (8 * (i - 1) + j))"
      proof (intro allI impI)
        fix i j :: nat assume "1 \<le> i \<and> i \<le> q" "j < 8"
        then have "8 * (i - 1) + j < 8 * q" by linarith
        with all show "bit a (8 * (i - 1) + j) = bit b (8 * (i - 1) + j)" by blast
      qed
    qed
    finally show ?thesis .
  qed
  have rest: "push_bit (8 - m) (octets sz a ! (sz - q - 1)) = push_bit (8 - m) (octets sz b ! (sz - q - 1)) \<longleftrightarrow>
      (\<forall>j < m. bit a (8 * q + j) = bit b (8 * q + j))" if "m \<noteq> 0"
  proof -
    have "sz - q - 1 < sz" "sz - 1 - (sz - q - 1) = q" using that n assms by auto
    then show ?thesis using n(2) by (simp add: octet_nth low_octet_eq low_octet_bit)
  qed
  have "(\<forall>j < n. bit a j = bit b j) \<longleftrightarrow>
      (\<forall>j < 8 * q. bit a j = bit b j) \<and> (\<forall>j < m. bit a (8 * q + j) = bit b (8 * q + j))"
  proof -
    have "j < n \<Longrightarrow> j < 8 * q \<or> (\<exists>i < m. j = 8 * q + i)" for j
      using n by (cases "j < 8 * q") (auto intro!: exI [of _ "j - 8 * q"])
    then show ?thesis by (auto simp: n)
  qed
  then show ?thesis
    using whole rest by (cases "m = 0") (simp_all add: same_suffix_def low_bits_eq q_def m_def)
qed

text \<open>
  An \<open>IP-SUFFIX\<close> rule of \<open>n\<close> bits matches exactly the addresses of the same length whose lowest \<open>n\<close>
  bits are those of its own address.
\<close>

fun low_bits :: "nat \<Rightarrow> Addr \<Rightarrow> nat \<times> nat" where
  "low_bits n NoAddr = (0, 0)"
| "low_bits n (Addr4 w) = (32, unat (take_bit n w))"
| "low_bits n (Addr6 w) = (128, unat (take_bit n w))"

theorem suffix_is_low_bits:
  assumes "prefix_valid p" and "rx_ParsePrefix X payload = Some p"
    and "NewIPSuffix X payload ad src True = Some r" and "IsValid (rule_ip src st)"
  shows "rule_match X h n r st =
    Some ((if low_bits (px_bits p) (px_addr p) = low_bits (px_bits p) (rule_ip src st)
           then (True, ad) else (False, [])), st)"
proof -
  have r: "r = IPSuffix (AsSlice (px_addr p)) (px_bits p) payload ad src True"
    using assms(2,3) by (simp add: NewIPSuffix_def)
  have "same_suffix (AsSlice (px_addr p)) (px_bits p) (AsSlice ip) \<longleftrightarrow>
      low_bits (px_bits p) (px_addr p) = low_bits (px_bits p) ip" if "IsValid ip" for ip
  proof (cases "addr_BitLen (px_addr p) = addr_BitLen ip")
    case True
    with that assms(1) show ?thesis
      by (cases "px_addr p"; cases ip)
         (simp_all add: prefix_valid_def AsSlice_octets same_suffix_octets word_unat_eq_iff
           del: AsSlice.simps)
  next
    case False
    with that length_AsSlice [of "px_addr p"] length_AsSlice [of ip] show ?thesis
      by (cases "px_addr p"; cases ip) (auto simp: same_suffix_def simp del: AsSlice.simps)
  qed
  from this [OF assms(4)] show ?thesis by (simp add: r suffix_match_def resolve_first_def)
qed

section \<open>Examples\<close>

definition demo_rule_ext :: rule_ext where
  "demo_rule_ext =
     \<lparr>rx_lower = (\<lambda>s. s), rx_upper = (\<lambda>s. s), rx_fold = (=), rx_regexp = (\<lambda>_. None),
      rx_geosite = (\<lambda>_. None), rx_geodataMode = False, rx_geoip = (\<lambda>_. None),
      rx_LookupCode = (\<lambda>ip. if ip = Addr4 0x01020304 then [''de''] else []),
      rx_LookupASN = (\<lambda>_. ([], [])), rx_InitGeoSite = False, rx_InitGeoIP = True, rx_InitASN = False,
      rx_ParsePrefix = (\<lambda>s. if s = ''0.0.3.4/10'' then Some \<lparr>px_addr = Addr4 0x0304, px_bits = 10\<rparr> else None),
      rx_uidPlatform = False, rx_disabled = (\<lambda>_. False), rx_subRules = [],
      rx_providers = [(''set'', Classical [Domain ''b.example'' []])]\<rparr>"

definition demo_metadata :: Metadata where
  "demo_metadata =
     \<lparr>md_NetWork = TCP, md_Type = TUN, md_SrcIP = Addr4 0x0A000002, md_DstIP = Addr4 0x01020304,
      md_SrcGeoIP = None, md_DstGeoIP = None, md_SrcIPASN = [], md_DstIPASN = [], md_SrcPort = 4000,
      md_DstPort = 443, md_InIP = NoAddr, md_InPort = 0, md_InName = [], md_InUser = [],
      md_RematchName = [], md_Host = ''a.example'', md_DNSMode = DNSFakeIP, md_Uid = 0, md_Process = [],
      md_ProcessPath = [], md_SpecialProxy = [], md_SpecialRules = [], md_RemoteDst = [], md_DSCP = 0,
      md_SniffHost = []\<rparr>"

lemma demo_parse:
  "parseSubRules demo_rule_ext [''DIRECT''] [(''inner'', [''DOMAIN,a.example,DIRECT''])] =
     Some [(''inner'', [Domain ''a.example'' ''DIRECT''])]"
  "parseRules (demo_rule_ext\<lparr>rx_subRules := [(''inner'', [Domain ''a.example'' ''DIRECT''])]\<rparr>) [''DIRECT''] True 0
     [''SUB-RULE,(NETWORK,tcp),inner''] =
     Some [RuleWrapper 0 (Logic ''(NETWORK,tcp)'' ''inner'' RtSubRules [NetworkType TCP []])]"
  by code_simp+

lemma demo_set: "classical_rules demo_rule_ext [''DOMAIN,B.example''] = [Domain ''b.example'' []]"
  by code_simp

lemma demo_sets_flat:
  assumes "(name, p) \<in> set (rx_providers demo_rule_ext)"
  shows "(\<exists>ls. p = Classical (classical_rules demo_rule_ext ls) \<and>
    (\<forall>q \<in> set (classical_rules demo_rule_ext ls). no_set q)) \<or> (\<exists>f. p = OtherSet f)"
proof -
  have "p = Classical (classical_rules demo_rule_ext [''DOMAIN,B.example''])"
    using assms unfolding demo_set by (simp add: demo_rule_ext_def)
  moreover have "\<forall>q \<in> set (classical_rules demo_rule_ext [''DOMAIN,B.example'']). no_set q"
    unfolding demo_set by simp
  ultimately show ?thesis by blast
qed

definition demo_logic :: Rule where
  "demo_logic = Logic [] ''PROXY'' RtAND
     [GEOIP ''de'' [] False False, Logic [] [] RtNOT [NetworkType UDP []], GEOIP ''lan'' [] True True]"


theorem suffix_is_low_bits_witness:
  "rule_match demo_rule_ext no_helper 0
     (IPSuffix (AsSlice (Addr4 0x0304)) 10 ''0.0.3.4/10'' ''PROXY'' False True) (fresh_state demo_metadata) =
   Some ((if low_bits (px_bits \<lparr>px_addr = Addr4 0x0304, px_bits = 10\<rparr>) (px_addr \<lparr>px_addr = Addr4 0x0304, px_bits = 10\<rparr>) =
            low_bits (px_bits \<lparr>px_addr = Addr4 0x0304, px_bits = 10\<rparr>) (rule_ip False (fresh_state demo_metadata))
          then (True, ''PROXY'') else (False, [])), fresh_state demo_metadata)"
  by (rule suffix_is_low_bits [where payload = "''0.0.3.4/10''"])
     (simp_all add: prefix_valid_def demo_rule_ext_def NewIPSuffix_def rule_ip_def demo_metadata_def)

end
