(* ===== verification/Enhancer.thy ===== *)
theory Enhancer
  imports FakeIpProps RouteTypes
begin

text \<open>
  The enhancer of the DNS server (\<open>dns/enhancer.go\<close>, \<open>component/resolver/enhancer.go\<close>): it knows which
  addresses are fake and which name an address was given out for. The two pools work on any
  store; the mapping of real addresses is an LRU cache without a maximal age. The skipper of names
  and the TTL are only stored here.
\<close>

record 's ResolverEnhancer =
  eh_ipv6 :: bool
  eh_mode :: DNSMode
  eh_fakeIPPool :: "'s Pool option"
  eh_fakeIPPool6 :: "'s Pool option"
  eh_fakeIPTTL :: int
  eh_mapping :: "(Addr, string) LruCache option"
  eh_useHosts :: bool

definition FakeIPEnabled :: "'s ResolverEnhancer \<Rightarrow> bool" where
  "FakeIPEnabled h = (eh_mode h = DNSFakeIP)"

definition MappingEnabled :: "'s ResolverEnhancer \<Rightarrow> bool" where
  "MappingEnabled h = (eh_mode h = DNSFakeIP \<or> eh_mode h = DNSMapping)"

definition IsExistFakeIP :: "'s store \<Rightarrow> Addr \<Rightarrow> 's ResolverEnhancer \<Rightarrow> bool" where
  "IsExistFakeIP m ip h =
     (FakeIPEnabled h \<and>
      ((case eh_fakeIPPool h of None \<Rightarrow> False | Some p \<Rightarrow> pool_Exist m ip p) \<or>
       (case eh_fakeIPPool6 h of None \<Rightarrow> False | Some p \<Rightarrow> pool_Exist m ip p)))"

definition in_pool :: "Addr \<Rightarrow> 's Pool option \<Rightarrow> bool" where
  "in_pool ip pool =
     (case pool of
        None \<Rightarrow> False
      | Some p \<Rightarrow> Contains (po_ipnet p) ip \<and> ip \<noteq> po_gateway p \<and> ip \<noteq> Broadcast p)"

definition IsFakeIP :: "Addr \<Rightarrow> 's ResolverEnhancer \<Rightarrow> bool" where
  "IsFakeIP ip h = (FakeIPEnabled h \<and> (in_pool ip (eh_fakeIPPool h) \<or> in_pool ip (eh_fakeIPPool6 h)))"

definition IsFakeBroadcastIP :: "Addr \<Rightarrow> 's ResolverEnhancer \<Rightarrow> bool" where
  "IsFakeBroadcastIP ip h =
     (FakeIPEnabled h \<and>
      ((case eh_fakeIPPool h of None \<Rightarrow> False | Some p \<Rightarrow> Broadcast p = ip) \<or>
       (case eh_fakeIPPool6 h of None \<Rightarrow> False | Some p \<Rightarrow> Broadcast p = ip)))"

definition look_in :: "'s store \<Rightarrow> Addr \<Rightarrow> 's Pool option \<Rightarrow> string option \<times> 's Pool option" where
  "look_in m ip pool =
     (case pool of None \<Rightarrow> (None, None) | Some p \<Rightarrow> (let (host, p1) = LookBack m ip p in (host, Some p1)))"

definition FindHostByIP :: "'s store \<Rightarrow> Addr \<Rightarrow> 's ResolverEnhancer \<Rightarrow> string option \<times> 's ResolverEnhancer" where
  "FindHostByIP m ip h =
     (case look_in m ip (eh_fakeIPPool h) of
        (Some host, p) \<Rightarrow> (Some host, h\<lparr>eh_fakeIPPool := p\<rparr>)
      | (None, p) \<Rightarrow>
          (let h1 = h\<lparr>eh_fakeIPPool := p\<rparr>
           in case look_in m ip (eh_fakeIPPool6 h1) of
                (Some host, p6) \<Rightarrow> (Some host, h1\<lparr>eh_fakeIPPool6 := p6\<rparr>)
              | (None, p6) \<Rightarrow>
                  (let h2 = h1\<lparr>eh_fakeIPPool6 := p6\<rparr>
                   in case eh_mapping h2 of
                        None \<Rightarrow> (None, h2)
                      | Some c \<Rightarrow> (let (host, c1) = lru_Get 0 0 ip c in (host, h2\<lparr>eh_mapping := Some c1\<rparr>)))))"

definition InsertHostByIP :: "Addr \<Rightarrow> string \<Rightarrow> 's ResolverEnhancer \<Rightarrow> 's ResolverEnhancer" where
  "InsertHostByIP ip host h =
     (case eh_mapping h of None \<Rightarrow> h | Some c \<Rightarrow> h\<lparr>eh_mapping := Some (lru_set 0 0 ip host c)\<rparr>)"

text \<open>The errors of both pools are joined: there is one as soon as one flush fails.\<close>

definition enhancer_FlushFakeIP :: "'s store \<Rightarrow> 's ResolverEnhancer \<Rightarrow> bool \<times> 's ResolverEnhancer" where
  "enhancer_FlushFakeIP m h =
     (let (e1, h1) = (case eh_fakeIPPool h of
                        None \<Rightarrow> (None, h)
                      | Some p \<Rightarrow> (let (e, p1) = FlushFakeIP m p in (e, h\<lparr>eh_fakeIPPool := Some p1\<rparr>)));
          (e2, h2) = (case eh_fakeIPPool6 h1 of
                        None \<Rightarrow> (None, h1)
                      | Some p \<Rightarrow> (let (e, p1) = FlushFakeIP m p in (e, h1\<lparr>eh_fakeIPPool6 := Some p1\<rparr>)))
      in (e1 \<noteq> None \<or> e2 \<noteq> None, h2))"

definition PatchFrom :: "'s store \<Rightarrow> 's ResolverEnhancer \<Rightarrow> 's ResolverEnhancer \<Rightarrow> 's ResolverEnhancer" where
  "PatchFrom m h old =
     (let h1 = (case (eh_mapping h, eh_mapping old) of
                  (Some c, Some c0) \<Rightarrow> h\<lparr>eh_mapping := Some (lru_CloneTo c0 c)\<rparr> | _ \<Rightarrow> h);
          h2 = (case (eh_fakeIPPool h1, eh_fakeIPPool old) of
                  (Some p, Some q) \<Rightarrow> h1\<lparr>eh_fakeIPPool := Some (CloneFrom m p q)\<rparr> | _ \<Rightarrow> h1)
      in (case (eh_fakeIPPool6 h2, eh_fakeIPPool6 old) of
            (Some p, Some q) \<Rightarrow> h2\<lparr>eh_fakeIPPool6 := Some (CloneFrom m p q)\<rparr> | _ \<Rightarrow> h2))"

definition StoreFakePoolState :: "'s store \<Rightarrow> 's ResolverEnhancer \<Rightarrow> 's ResolverEnhancer" where
  "StoreFakePoolState m h =
     h\<lparr>eh_fakeIPPool := map_option (StoreState m) (eh_fakeIPPool h),
       eh_fakeIPPool6 := map_option (StoreState m) (eh_fakeIPPool6 h)\<rparr>"

definition NewEnhancer ::
    "bool \<Rightarrow> DNSMode \<Rightarrow> 's Pool option \<Rightarrow> 's Pool option \<Rightarrow> int \<Rightarrow> bool \<Rightarrow> 's ResolverEnhancer" where
  "NewEnhancer ipv6 mode pool pool6 ttl useHosts =
     (let e = \<lparr>eh_ipv6 = ipv6, eh_mode = mode, eh_fakeIPPool = None, eh_fakeIPPool6 = None,
               eh_fakeIPTTL = 0, eh_mapping = None, eh_useHosts = useHosts\<rparr>
      in if mode \<noteq> DNSNormal
         then e\<lparr>eh_fakeIPPool := pool, eh_fakeIPPool6 := (if ipv6 then pool6 else None),
                eh_fakeIPTTL := (if ttl < 1 then 1 else ttl),
                eh_mapping := Some (lru_new 0 4096 False False False)\<rparr>
         else e)"

section \<open>Fake addresses are recognised\<close>

lemma drop_bit_between:
  fixes a b c :: "'a::len word"
  assumes "a \<le> b" and "b \<le> c" and "drop_bit k a = drop_bit k c"
  shows "drop_bit k b = drop_bit k c"
proof -
  have "unat (drop_bit k x) = unat x div 2 ^ k" for x :: "'a word"
    by (rule trans [OF unat_drop_bit_eq drop_bit_eq_div])
  moreover have "unat a div 2 ^ k \<le> unat b div 2 ^ k" "unat b div 2 ^ k \<le> unat c div 2 ^ k"
    using assms(1,2) by (simp_all add: word_le_nat_alt div_le_mono)
  ultimately show ?thesis using assms(3) by (metis le_antisym word_unat_eq_iff)
qed

lemma word_xor_zero: "(a :: 'a::len word) XOR b = 0 \<longleftrightarrow> a = b"
  by (auto simp: bit_eq_iff bit_simps)

lemma drop_push_drop: "drop_bit k (push_bit k (drop_bit k (w :: 'a::len word))) = drop_bit k w"
  by (auto simp: bit_eq_iff bit_simps dest: bit_imp_le_length)

lemma between_contained:
  assumes "prefix_valid net" and "Contains net lst" and "Masked (px_addr net) (px_bits net) \<le> ip" and "ip \<le> lst"
  shows "Contains net ip"
proof -
  have len: "addr_BitLen (px_addr net) = addr_BitLen lst" "px_addr net \<noteq> NoAddr"
    using assms(1,2) by (auto simp: Contains_def prefix_valid_def split: Addr.splits)
  have m: "addr_BitLen (Masked (px_addr net) (px_bits net)) = addr_BitLen lst"
    using len by (cases "px_addr net") auto
  then have ip: "addr_BitLen ip = addr_BitLen lst" using assms(3,4) by (auto simp: less_eq_Addr_def)
  show ?thesis
  proof (cases "px_addr net")
    case NoAddr
    with len show ?thesis by simp
  next
    case (Addr4 a)
    with len ip obtain l i where li: "lst = Addr4 l" "ip = Addr4 i" by (cases lst; cases ip) auto
    have "drop_bit (32 - px_bits net) i = drop_bit (32 - px_bits net) l"
      by (rule drop_bit_between [of "push_bit (32 - px_bits net) (drop_bit (32 - px_bits net) a)"])
         (use assms(2,3,4) Addr4 li in \<open>simp_all add: Contains_def word_xor_zero drop_bit_xor drop_push_drop\<close>)
    with assms(1,2) Addr4 li show ?thesis by (simp add: Contains_def word_xor_zero drop_bit_xor)
  next
    case (Addr6 a)
    with len ip obtain l i where li: "lst = Addr6 l" "ip = Addr6 i" by (cases lst; cases ip) auto
    have "drop_bit (128 - px_bits net) i = drop_bit (128 - px_bits net) l"
      by (rule drop_bit_between [of "push_bit (128 - px_bits net) (drop_bit (128 - px_bits net) a)"])
         (use assms(2,3,4) Addr6 li in \<open>simp_all add: Contains_def word_xor_zero drop_bit_xor drop_push_drop\<close>)
    with assms(1,2) Addr6 li show ?thesis by (simp add: Contains_def word_xor_zero drop_bit_xor)
  qed
qed

text \<open>Every address a pool hands out is a fake address.\<close>

lemma pool_address_fake:
  assumes "pool_New lastIP memory st net = Inr p0" and "Contains net (lastIP net)"
    and "pool_fixed p0 p" and "po_first p0 \<le> ip" and "ip < lastIP net"
  shows "in_pool ip (Some p)"
proof -
  let ?g = "addr_Next (Masked (px_addr net) (px_bits net))"
  have p: "po_gateway p = ?g" "po_first p0 = addr_Next (addr_Next (addr_Next ?g))" "prefix_valid net"
    "po_ipnet p = net" "po_last p = lastIP net" "po_first p0 \<noteq> NoAddr"
    using assms(1,3)
    by (auto simp: pool_New_def Let_def restoreState_def memory_def pool_fixed_def IsValid_def split: if_splits)
  have n: "addr_Next (addr_Next ?g) \<noteq> NoAddr" "addr_Next ?g \<noteq> NoAddr" "?g \<noteq> NoAddr"
    using p(2,6) by auto
  have up: "?g < addr_Next ?g" "addr_Next ?g < addr_Next (addr_Next ?g)"
    "addr_Next (addr_Next ?g) < po_first p0" "Masked (px_addr net) (px_bits net) < ?g"
    using Next_above n p(2,6) by metis+
  then have "?g < ip" "Masked (px_addr net) (px_bits net) \<le> ip" using assms(4) by (auto intro: less_imp_le)
  moreover have "ip \<le> lastIP net" using assms(5) by simp
  ultimately show ?thesis
    using between_contained [OF p(3) assms(2)] assms(5) p(1,4,5)
    by (auto simp: in_pool_def Broadcast_def)
qed

end
