(* ===== verification/Hosts.thy ===== *)
theory Hosts
  imports DomainTrie NetAddr
begin

text \<open>
  The static hosts of the proxy core (\<open>component/resolver/host.go\<close>, \<open>parseHosts\<close> in \<open>config/config.go\<close>): a trie
  from domain patterns to addresses or to another domain. A search follows such aliases in a loop
  that need not end, so it is a partial function whose value \<open>None\<close> is a search that never comes back.
\<close>

record HostValue =
  hv_IsDomain :: bool
  hv_IPs :: "Addr list"
  hv_Domain :: string

definition NewHostValueByIPs :: "Addr list \<Rightarrow> HostValue option" where
  "NewHostValueByIPs ips =
     (if ips = [] then None else Some \<lparr>hv_IsDomain = False, hv_IPs = ips, hv_Domain = []\<rparr>)"

definition NewHostValueByDomain :: "string \<Rightarrow> HostValue option" where
  "NewHostValueByDomain domain0 =
     (let domain = trim_both domain0 ''.''; item = split_on (CHR ''.'') domain
      in if length item < 2 then None
         else Some \<lparr>hv_IsDomain = True, hv_IPs = [], hv_Domain = domain\<rparr>)"

text \<open>\<open>netip.ParseAddr\<close> is an argument.\<close>

fun parse_ips :: "(string \<Rightarrow> Addr option) \<Rightarrow> string list \<Rightarrow> Addr list option" where
  "parse_ips parseAddr [] = Some []"
| "parse_ips parseAddr (s # ss) =
     (case parseAddr s of None \<Rightarrow> None | Some ip \<Rightarrow> map_option ((#) (Unmap ip)) (parse_ips parseAddr ss))"

definition NewHostValue :: "(string \<Rightarrow> Addr option) \<Rightarrow> string list \<Rightarrow> HostValue option" where
  "NewHostValue parseAddr value =
     (case value of
        [] \<Rightarrow> None
      | [host] \<Rightarrow>
          (case parseAddr host of
             Some ip \<Rightarrow> NewHostValueByIPs [Unmap ip]
           | None \<Rightarrow> NewHostValueByDomain host)
      | _ \<Rightarrow> (case parse_ips parseAddr value of None \<Rightarrow> None | Some ips \<Rightarrow> NewHostValueByIPs ips))"

text \<open>\<open>pick\<close> is the random index.\<close>

definition RandIP :: "(nat \<Rightarrow> nat) \<Rightarrow> HostValue \<Rightarrow> Addr" where
  "RandIP pick hv =
     (if hv_IsDomain hv then NoAddr else hv_IPs hv ! (pick (length (hv_IPs hv)) mod length (hv_IPs hv)))"

section \<open>Searching\<close>

type_synonym host_trie = "HostValue Node"

partial_function (option) hosts_loop ::
    "(string \<Rightarrow> string) \<Rightarrow> host_trie \<Rightarrow> bool \<Rightarrow> HostValue \<Rightarrow> HostValue option" where
  "hosts_loop uni rt isDomain v =
     (if isDomain \<and> hv_IsDomain v then Some v
      else (case Search uni (hv_Domain v) rt of
              None \<Rightarrow> Some v
            | Some v' \<Rightarrow> hosts_loop uni rt isDomain v'))"

text \<open>
  \<open>sysHosts\<close> is \<open>NewHostValue\<close> of what the hosts file of the system has for a name, where it is used at
  all. The answer is the value, if any, and whether it is of the kind asked for.
\<close>

definition hosts_Search ::
    "(string \<Rightarrow> string) \<Rightarrow> (string \<Rightarrow> HostValue option) \<Rightarrow> host_trie \<Rightarrow> string \<Rightarrow> bool
     \<Rightarrow> (HostValue option \<times> bool) option" where
  "hosts_Search uni sysHosts rt domain isDomain =
     (case Search uni domain rt of
        Some v0 \<Rightarrow>
          (case hosts_loop uni rt isDomain v0 of
             None \<Rightarrow> None
           | Some v \<Rightarrow> Some (Some v, isDomain = hv_IsDomain v))
      | None \<Rightarrow>
          (if \<not> isDomain
           then (case sysHosts domain of Some v \<Rightarrow> Some (Some v, True) | None \<Rightarrow> Some (None, False))
           else Some (None, False)))"

section \<open>The hosts of a configuration\<close>

text \<open>\<open>Some True\<close>: the chain from \<open>v\<close> comes to the name \<open>domain\<close>; \<open>Some False\<close>: it ends.\<close>

partial_function (option) cycle_check ::
    "(string \<Rightarrow> string) \<Rightarrow> host_trie \<Rightarrow> string \<Rightarrow> string \<Rightarrow> bool option" where
  "cycle_check uni rt domain name =
     (case Search uni name rt of
        None \<Rightarrow> Some False
      | Some v \<Rightarrow>
          (if \<not> hv_IsDomain v then Some False
           else if hv_Domain v = domain then Some True
           else cycle_check uni rt domain (hv_Domain v)))"

datatype hosts_result = HostsError | HostsParsed host_trie

text \<open>
  One entry after the other in the order of the Go map; an entry is already a list of strings, with
  \<open>lan\<close> replaced by the addresses of the interfaces. \<open>None\<close>: the check of an alias never comes back.
\<close>

fun parse_entries ::
    "(string \<Rightarrow> string) \<Rightarrow> (string \<Rightarrow> Addr option) \<Rightarrow> (string \<times> string list) list \<Rightarrow> host_trie
     \<Rightarrow> hosts_result option" where
  "parse_entries uni parseAddr [] tree = Some (HostsParsed (Optimize tree))"
| "parse_entries uni parseAddr ((domain, hosts) # es) tree =
     (case NewHostValue parseAddr hosts of
        None \<Rightarrow> Some HostsError
      | Some v \<Rightarrow>
          (case (if hv_IsDomain v then cycle_check uni tree domain (hv_Domain v) else Some False) of
             None \<Rightarrow> None
           | Some True \<Rightarrow> Some HostsError
           | Some False \<Rightarrow>
               parse_entries uni parseAddr es
                 (case Insert uni domain v tree of None \<Rightarrow> tree | Some tree' \<Rightarrow> tree')))"

definition parseHosts ::
    "(string \<Rightarrow> string) \<Rightarrow> (string \<Rightarrow> Addr option) \<Rightarrow> (string \<times> string list) list \<Rightarrow> hosts_result option" where
  "parseHosts uni parseAddr entries =
     (let loopback = \<lparr>hv_IsDomain = False, hv_IPs = [Addr4 0x7F000001], hv_Domain = []\<rparr>;
          tree = (case Insert uni ''localhost'' loopback newNode of None \<Rightarrow> newNode | Some t \<Rightarrow> t)
      in parse_entries uni parseAddr entries tree)"

section \<open>When a search comes back\<close>

text \<open>The value after \<open>n\<close> aliases; \<open>None\<close> when the chain ended before.\<close>

fun follow :: "(string \<Rightarrow> string) \<Rightarrow> host_trie \<Rightarrow> nat \<Rightarrow> HostValue \<Rightarrow> HostValue option" where
  "follow uni rt 0 v = Some v"
| "follow uni rt (Suc n) v =
     (case Search uni (hv_Domain v) rt of None \<Rightarrow> None | Some v' \<Rightarrow> follow uni rt n v')"

lemma follow_step: "Search uni (hv_Domain v) rt = Some v' \<Longrightarrow> follow uni rt (Suc n) v = follow uni rt n v'"
  by simp

lemma follow_None_mono: "follow uni rt n v = None \<Longrightarrow> follow uni rt (n + k) v = None"
  by (induction n arbitrary: v) (auto split: option.splits)

lemma loop_ends: "follow uni rt n v = None \<Longrightarrow> \<exists>w. hosts_loop uni rt isDomain v = Some w"
proof (induction n arbitrary: v)
  case (Suc n)
  show ?case
  proof (cases "Search uni (hv_Domain v) rt")
    case None
    then show ?thesis by (subst hosts_loop.simps) simp
  next
    case (Some v')
    with Suc.prems have "follow uni rt n v' = None" by simp
    from Suc.IH [OF this] Some show ?thesis by (subst hosts_loop.simps) simp
  qed
qed simp

lemma loop_ended:
  assumes "hosts_loop uni rt False v = Some w"
  shows "\<exists>n. follow uni rt n v = Some w \<and> follow uni rt (Suc n) v = None"
proof -
  let ?P = "\<lambda>uni rt isDomain v w. \<not> isDomain \<longrightarrow>
    (\<exists>n. follow uni rt n v = Some w \<and> follow uni rt (Suc n) v = None)"
  have "?P uni rt False v w"
  proof (rule hosts_loop.raw_induct [where P = ?P, OF _ assms], intro impI)
    fix loop :: "(string \<Rightarrow> string) \<Rightarrow> host_trie \<Rightarrow> bool \<Rightarrow> HostValue \<Rightarrow> HostValue option"
      and uni rt isDomain v w
    assume IH: "\<And>uni rt isDomain v w. loop uni rt isDomain v = Some w \<Longrightarrow> ?P uni rt isDomain v w"
      and body: "(if isDomain \<and> hv_IsDomain v then Some v
        else (case Search uni (hv_Domain v) rt of None \<Rightarrow> Some v | Some v' \<Rightarrow> loop uni rt isDomain v')) = Some w"
      and d: "\<not> isDomain"
    show "\<exists>n. follow uni rt n v = Some w \<and> follow uni rt (Suc n) v = None"
    proof (cases "Search uni (hv_Domain v) rt")
      case None
      with body d have "w = v" by simp
      with None show ?thesis by (intro exI [of _ 0]) simp
    next
      case (Some v')
      with body d have "loop uni rt isDomain v' = Some w" by simp
      from IH [OF this] d obtain n where "follow uni rt n v' = Some w" "follow uni rt (Suc n) v' = None"
        by blast
      with Some show ?thesis by (intro exI [of _ "Suc n"]) simp
    qed
  qed
  then show ?thesis by simp
qed

lemma loop_of_domain: "hv_IsDomain v \<Longrightarrow> hosts_loop uni rt True v = Some v"
  by (subst hosts_loop.simps) simp

lemma Search_empty [simp]: "Search uni [] rt = None"
  by (simp add: Search_def ValidAndSplitDomain_def)

text \<open>Values of the constructors: one that is not an alias has no domain, so a chain ends there.\<close>

definition value_ok :: "HostValue \<Rightarrow> bool" where
  "value_ok v = (if hv_IsDomain v then hv_IPs v = [] else hv_IPs v \<noteq> [] \<and> hv_Domain v = [])"

lemma NewHostValue_ok: "NewHostValue parseAddr ss = Some v \<Longrightarrow> value_ok v"
  by (auto simp: NewHostValue_def NewHostValueByIPs_def NewHostValueByDomain_def value_ok_def Let_def
      split: list.splits option.splits if_splits)

lemma parse_entry:
  assumes "NewHostValue parseAddr hs = Some v"
    and "hv_IsDomain v \<Longrightarrow> cycle_check uni (build uni ps) d (hv_Domain v) = Some False"
  shows "parse_entries uni parseAddr ((d, hs) # es) (build uni ps) =
    parse_entries uni parseAddr es (build uni (ps @ [(d, v)]))"
  using assms by (simp add: build_snoc)

abbreviation localhost_entry :: "string \<times> HostValue" where
  "localhost_entry \<equiv>
     (''localhost'', \<lparr>hv_IsDomain = False, hv_IPs = [Addr4 0x7F000001], hv_Domain = []\<rparr>)"

lemma parseHosts_start:
  "parseHosts uni parseAddr es = parse_entries uni parseAddr es (build uni [localhost_entry])"
  by (simp add: parseHosts_def build_def)

lemma parse_entries_build:
  assumes "parse_entries uni parseAddr es (build uni ps) = Some (HostsParsed rt)"
    and "\<forall>p \<in> set ps. value_ok (snd p)"
  shows "\<exists>qs. rt = Optimize (build uni qs) \<and> (\<forall>p \<in> set qs. value_ok (snd p))"
  using assms
proof (induction es arbitrary: ps)
  case Nil
  then show ?case by auto
next
  case (Cons e es)
  obtain d hs where e: "e = (d, hs)" by force
  obtain v where v: "NewHostValue parseAddr hs = Some v"
    using Cons.prems(1) by (auto simp: e split: option.splits)
  have "parse_entries uni parseAddr es (build uni (ps @ [(d, v)])) = Some (HostsParsed rt)"
    using Cons.prems(1) unfolding e by (auto simp: v build_snoc split: option.splits if_splits bool.splits)
  from Cons.IH [OF this] Cons.prems(2) NewHostValue_ok [OF v] show ?case by simp
qed

lemma parsed_values_ok:
  assumes "parseHosts uni parseAddr entries = Some (HostsParsed rt)" and "Search uni name rt = Some v"
  shows "value_ok v"
proof -
  have "parse_entries uni parseAddr entries (build uni [localhost_entry]) = Some (HostsParsed rt)"
    using assms(1) by (simp only: parseHosts_start)
  then obtain qs where qs: "rt = Optimize (build uni qs)" "\<forall>p \<in> set qs. value_ok (snd p)"
    using parse_entries_build by (force simp: value_ok_def)
  have "Search uni name (build uni qs) = Some v" using assms(2) unfolding qs(1) by (simp only: trie_optimize_same)
  with search_complete [of uni name qs] qs(2) show ?thesis by auto
qed


text \<open>A wildcard that is an alias of a name it matches is accepted, and every search for it hangs.\<close>

definition circle_tree :: host_trie where
  "circle_tree = Optimize (build (\<lambda>s. s)
     [localhost_entry, (''*.b.c'', \<lparr>hv_IsDomain = True, hv_IPs = [], hv_Domain = ''www.b.c''\<rparr>)])"

lemma wildcard_alias_hangs:
  "parseHosts (\<lambda>s. s) (\<lambda>_. None) [(''*.b.c'', [''www.b.c''])] = Some (HostsParsed circle_tree)"
  "hosts_Search (\<lambda>s. s) (\<lambda>_. None) circle_tree ''x.b.c'' False = None"
proof -
  let ?v = "\<lparr>hv_IsDomain = True, hv_IPs = [], hv_Domain = ''www.b.c''\<rparr>"
  have new: "NewHostValue (\<lambda>_. None) [''www.b.c''] = Some ?v" by code_simp
  have none: "Search (\<lambda>s. s) ''www.b.c'' (build (\<lambda>s. s)
      [localhost_entry]) = None"
    by code_simp
  have check: "cycle_check (\<lambda>s. s) (build (\<lambda>s. s) [localhost_entry]) ''*.b.c'' (hv_Domain ?v) = Some False"
    by (subst cycle_check.simps) (simp add: none)
  show "parseHosts (\<lambda>s. s) (\<lambda>_. None) [(''*.b.c'', [''www.b.c''])] = Some (HostsParsed circle_tree)"
    unfolding parseHosts_start parse_entry [OF new check] by (simp add: circle_tree_def)
  have s: "Search (\<lambda>s. s) ''x.b.c'' circle_tree = Some ?v" "Search (\<lambda>s. s) ''www.b.c'' circle_tree = Some ?v"
    by code_simp+
  have "follow (\<lambda>s. s) circle_tree n ?v = Some ?v" for n by (induction n) (simp_all add: s)
  then have "hosts_loop (\<lambda>s. s) circle_tree False ?v = None"
    using loop_ended [of "\<lambda>s. s" circle_tree ?v] by (metis not_None_eq option.distinct(1))
  then show "hosts_Search (\<lambda>s. s) (\<lambda>_. None) circle_tree ''x.b.c'' False = None"
    by (simp add: hosts_Search_def s)
qed

lemma demo_hosts_parsed:
  "parseHosts (\<lambda>s. s) (\<lambda>s. if s = ''1.2.3.4'' then Some (Addr4 0x01020304) else None)
     [(''a.b'', [''1.2.3.4'']), (''*.b'', [''a.b''])] =
   Some (HostsParsed (Optimize (build (\<lambda>s. s)
     [localhost_entry, (''a.b'', \<lparr>hv_IsDomain = False, hv_IPs = [Addr4 0x01020304], hv_Domain = []\<rparr>),
      (''*.b'', \<lparr>hv_IsDomain = True, hv_IPs = [], hv_Domain = ''a.b''\<rparr>)])))"
proof -
  let ?pa = "\<lambda>s. if s = ''1.2.3.4'' then Some (Addr4 0x01020304) else None"
  let ?a = "\<lparr>hv_IsDomain = False, hv_IPs = [Addr4 0x01020304], hv_Domain = []\<rparr>"
  let ?b = "\<lparr>hv_IsDomain = True, hv_IPs = [], hv_Domain = ''a.b''\<rparr>"
  have a: "NewHostValue ?pa [''1.2.3.4''] = Some ?a" by code_simp
  have b: "NewHostValue ?pa [''a.b''] = Some ?b" by code_simp
  have s: "Search (\<lambda>s. s) ''a.b'' (build (\<lambda>s. s) ([localhost_entry] @ [(''a.b'', ?a)])) = Some ?a"
    by code_simp
  have check: "cycle_check (\<lambda>s. s) (build (\<lambda>s. s) ([localhost_entry] @ [(''a.b'', ?a)])) ''*.b'' (hv_Domain ?b) =
      Some False"
    by (subst cycle_check.simps) (simp only: s HostValue.simps option.case if_True if_False not_False_eq_True)
  have "parseHosts (\<lambda>s. s) ?pa [(''a.b'', [''1.2.3.4'']), (''*.b'', [''a.b''])] =
      parse_entries (\<lambda>s. s) ?pa [(''*.b'', [''a.b''])] (build (\<lambda>s. s) ([localhost_entry] @ [(''a.b'', ?a)]))"
    unfolding parseHosts_start by (rule parse_entry [OF a]) simp
  also have "\<dots> = parse_entries (\<lambda>s. s) ?pa [] (build (\<lambda>s. s) (([localhost_entry] @ [(''a.b'', ?a)]) @ [(''*.b'', ?b)]))"
    by (rule parse_entry [OF b check])
  finally show ?thesis by simp
qed


end
