(* ===== verification/Tunnel.thy ===== *)
theory Tunnel
  imports Enhancer Hosts RouteParse
begin

text \<open>
  The tunnel of the proxy core (\<open>tunnel/tunnel.go\<close>): what becomes of a connection before it is dialled.
  Its metadata are put in order, the name behind a fake address is restored, hosts and sniffing may
  replace it, and a proxy is chosen by the mode and the rules; a \<open>Rematch\<close> adapter
  (\<open>adapter/outbound/rematch.go\<close>) changes the metadata and starts the search again. The adapters are
  trees: a group unwraps to the proxy it would use for the metadata. Everything behind the resolver,
  the process tables and the sniffer is an argument. \<open>None\<close> is a call that never comes back.
\<close>

datatype AdapterType =
    AtDirect | AtReject | AtRejectDrop | AtCompatible | AtPass | AtPassRule | AtRematch | AtDns
  | AtRelay | AtSelector | AtFallback | AtURLTest | AtLoadBalance
  | AtShadowsocks | AtShadowsocksR | AtSnell | AtSocks5 | AtHttp | AtVmess | AtVless | AtTrojan
  | AtHysteria | AtHysteria2 | AtWireGuard | AtTuic | AtSsh | AtMieru | AtAnyTLS | AtSudoku | AtMasque
  | AtTrustTunnel | AtShadowQuic | AtOpenVPN | AtTailscale | AtZeroTier | AtEasyTier | AtGostRelay

datatype Proxy = Proxy
  (pr_name: string)
  (pr_type: AdapterType)
  (pr_udp: bool)
  (pr_targetRematchName: "string option")
  (pr_targetSubRule: "string option")
  (pr_Unwrap: "Metadata \<Rightarrow> Proxy option")

datatype TunnelMode = ModeGlobal | ModeRule | ModeDirect
datatype TunnelStatus = Suspend | Inner | Running
datatype FindProcessMode = FindProcessStrict | FindProcessAlways | FindProcessOff

record 's Tunnel =
  tn_status :: TunnelStatus
  tn_mode :: TunnelMode
  tn_findProcessMode :: FindProcessMode
  tn_proxies :: "(string \<times> Proxy) list"
  tn_rules :: "Rule list"
  tn_hosts :: host_trie
  tn_enhancer :: "'s ResolverEnhancer option"
  tn_sniffing :: bool

text \<open>
  \<open>tx_rules\<close> holds the sub-rules and rule sets beside what the rules need. \<open>tx_features_CMFA\<close> is a
  constant of the build. \<open>tx_sniff\<close> is the sniffer: whether it found a name, and the metadata after.
\<close>

record 's tunnel_ext =
  tx_rules :: rule_ext
  tx_store :: "'s store"
  tx_ParseAddr :: "string \<Rightarrow> Addr option"
  tx_sysHosts :: "string \<Rightarrow> HostValue option"
  tx_pick :: "nat \<Rightarrow> nat"
  tx_ResolveIP :: "string \<Rightarrow> Addr option"
  tx_FindProcessName :: "Metadata \<Rightarrow> (32 word \<times> string) option"
  tx_FindPackageName :: "Metadata \<Rightarrow> string option"
  tx_features_CMFA :: bool
  tx_sniff :: "Metadata \<Rightarrow> bool \<times> Metadata"

definition isHandle :: "'s Tunnel \<Rightarrow> inbound_type \<Rightarrow> bool" where
  "isHandle T t = (tn_status T = Running \<or> (tn_status T = Inner \<and> t = INNER))"

definition fixMetadata :: "(string \<Rightarrow> Addr option) \<Rightarrow> Metadata \<Rightarrow> Metadata" where
  "fixMetadata parseAddr m =
     (let m1 = m\<lparr>md_DstIP := Unmap (md_DstIP m)\<rparr>
      in case parseAddr (md_Host m1) of
           None \<Rightarrow> m1
         | Some ip \<Rightarrow> m1\<lparr>md_DstIP := Unmap ip, md_Host := []\<rparr>)"

section \<open>The name behind an address\<close>

definition mapper_MappingEnabled :: "'s Tunnel \<Rightarrow> bool" where
  "mapper_MappingEnabled T = (case tn_enhancer T of None \<Rightarrow> False | Some e \<Rightarrow> MappingEnabled e)"

definition mapper_IsFakeIP :: "'s Tunnel \<Rightarrow> Addr \<Rightarrow> bool" where
  "mapper_IsFakeIP T ip = (case tn_enhancer T of None \<Rightarrow> False | Some e \<Rightarrow> IsFakeIP ip e)"

definition mapper_FindHostByIP :: "'s tunnel_ext \<Rightarrow> 's Tunnel \<Rightarrow> Addr \<Rightarrow> string option \<times> 's Tunnel" where
  "mapper_FindHostByIP E T ip =
     (case tn_enhancer T of
        None \<Rightarrow> (None, T)
      | Some e \<Rightarrow> (let (host, e1) = FindHostByIP (tx_store E) ip e in (host, T\<lparr>tn_enhancer := Some e1\<rparr>)))"

definition host_lookup ::
    "'s tunnel_ext \<Rightarrow> 's Tunnel \<Rightarrow> string \<Rightarrow> bool \<Rightarrow> (HostValue option \<times> bool) option" where
  "host_lookup E T domain isDomain =
     hosts_Search (rx_lower (tx_rules E)) (tx_sysHosts E) (tn_hosts T) domain isDomain"

definition needLookupIP :: "'s Tunnel \<Rightarrow> Metadata \<Rightarrow> bool" where
  "needLookupIP T m = (mapper_MappingEnabled T \<and> md_Host m = [] \<and> IsValid (md_DstIP m))"

text \<open>The answer is whether there was no error (\<open>fake DNS record missing\<close>).\<close>

definition preHandleMetadata ::
    "'s tunnel_ext \<Rightarrow> 's Tunnel \<Rightarrow> Metadata \<Rightarrow> (bool \<times> Metadata \<times> 's Tunnel) option" where
  "preHandleMetadata E T m =
     (if needLookupIP T m then
        (case mapper_FindHostByIP E T (md_DstIP m) of
           (Some host, T1) \<Rightarrow>
             (let m1 = m\<lparr>md_Host := host, md_DNSMode := DNSMapping\<rparr>
              in if mapper_IsFakeIP T1 (md_DstIP m1)
                 then Some (True, m1\<lparr>md_DstIP := NoAddr, md_DNSMode := DNSFakeIP\<rparr>, T1)
                 else (case host_lookup E T1 host False of
                         None \<Rightarrow> None
                       | Some (Some node, True) \<Rightarrow>
                           Some (True, m1\<lparr>md_DstIP := RandIP (tx_pick E) node\<rparr>, T1)
                       | Some (Some node, False) \<Rightarrow>
                           Some (True, if hv_IsDomain node then m1\<lparr>md_Host := hv_Domain node\<rparr> else m1, T1)
                       | Some (None, _) \<Rightarrow> Some (True, m1, T1)))
         | (None, T1) \<Rightarrow> Some (\<not> mapper_IsFakeIP T1 (md_DstIP m), m, T1))
      else
        (case host_lookup E T (md_Host m) True of
           None \<Rightarrow> None
         | Some (Some node, True) \<Rightarrow> Some (True, m\<lparr>md_Host := hv_Domain node\<rparr>, T)
         | Some _ \<Rightarrow> Some (True, m, T)))"

section \<open>The helper of the rules\<close>

text \<open>\<open>filepath.Base\<close>\<close>

definition path_base :: "string \<Rightarrow> string" where
  "path_base path =
     (if path = [] then ''.''
      else let s = trim_right path ''/'' in if s = [] then ''/'' else last (split_on (CHR ''/'') s))"

definition resolve_name :: "'s tunnel_ext \<Rightarrow> MatchState \<Rightarrow> MatchState" where
  "resolve_name E st =
     (let m = ms_meta st
      in if \<not> ms_resolved st \<and> md_Host m \<noteq> [] \<and> \<not> Resolved m
         then st\<lparr>ms_meta := (case tx_ResolveIP E (md_Host m) of
                              None \<Rightarrow> m | Some ip \<Rightarrow> m\<lparr>md_DstIP := ip\<rparr>),
                ms_resolved := True, ms_asked := ms_asked st @ [md_Host m]\<rparr>
         else st)"

definition find_process :: "'s tunnel_ext \<Rightarrow> MatchState \<Rightarrow> MatchState" where
  "find_process E st =
     (if \<not> ms_attempt st then st
      else let m = ms_meta st;
        m' = (if \<not> tx_features_CMFA E
              then (case tx_FindProcessName E m of
                      None \<Rightarrow> m
                    | Some (uid, path) \<Rightarrow>
                        (let m1 = m\<lparr>md_Process := path_base path, md_ProcessPath := path, md_Uid := uid\<rparr>
                         in case tx_FindPackageName E m1 of
                              None \<Rightarrow> m1 | Some pkg \<Rightarrow> m1\<lparr>md_Process := pkg\<rparr>))
              else (case tx_FindPackageName E m of None \<Rightarrow> m | Some pkg \<Rightarrow> m\<lparr>md_Process := pkg\<rparr>))
        in st\<lparr>ms_attempt := False, ms_meta := m'\<rparr>)"

primrec unwraps_to :: "AdapterType \<Rightarrow> Proxy \<Rightarrow> Metadata \<Rightarrow> bool" where
  "unwraps_to t (Proxy n tp udp rn sr f) =
     (\<lambda>m. tp = t \<or> (case map_option (unwraps_to t) (f m) of None \<Rightarrow> False | Some g \<Rightarrow> g m))"

definition check_pass_rule :: "'s Tunnel \<Rightarrow> Metadata \<Rightarrow> string \<Rightarrow> bool" where
  "check_pass_rule T m adapterName =
     (case map_of (tn_proxies T) adapterName of None \<Rightarrow> False | Some p \<Rightarrow> unwraps_to AtPassRule p m)"

definition rule_helper :: "'s tunnel_ext \<Rightarrow> 's Tunnel \<Rightarrow> RuleMatchHelper" where
  "rule_helper E T =
     \<lparr>ResolveIP = Some (resolve_name E),
      FindProcess = (if tn_findProcessMode T = FindProcessStrict then Some (find_process E) else None),
      CheckPassRule = Some (check_pass_rule T)\<rparr>"

section \<open>Matching\<close>

definition getRules :: "'s tunnel_ext \<Rightarrow> 's Tunnel \<Rightarrow> Metadata \<Rightarrow> Rule list" where
  "getRules E T m =
     (case map_of (rx_subRules (tx_rules E)) (md_SpecialRules m) of Some sr \<Rightarrow> sr | None \<Rightarrow> tn_rules T)"

text \<open>The walk along what an adapter unwraps to: the first \<open>Pass\<close> or \<open>Rematch\<close> decides.\<close>

datatype walk_end = WalkPass | WalkRematch Proxy | WalkDone

primrec walk_adapter :: "Proxy \<Rightarrow> Metadata \<Rightarrow> walk_end" where
  "walk_adapter (Proxy n tp udp rn sr f) =
     (\<lambda>m. if tp = AtPass then WalkPass
          else if tp = AtRematch then WalkRematch (Proxy n tp udp rn sr f)
          else (case map_option walk_adapter (f m) of None \<Rightarrow> WalkDone | Some g \<Rightarrow> g m))"

datatype scan_end = ScanEnd | ScanRematch Proxy Rule | ScanTake Proxy Rule

text \<open>One pass over the rules.\<close>

fun scan_rules ::
    "'s tunnel_ext \<Rightarrow> 's Tunnel \<Rightarrow> RuleMatchHelper \<Rightarrow> nat \<Rightarrow> Rule list \<Rightarrow> MatchState
     \<Rightarrow> (scan_end \<times> MatchState) option" where
  "scan_rules E T h n [] st = Some (ScanEnd, st)"
| "scan_rules E T h n (r # rs) st =
     (case rule_match (tx_rules E) h n r st of
        None \<Rightarrow> None
      | Some ((m, ada), st1) \<Rightarrow>
          (if \<not> m then scan_rules E T h n rs st1
           else (case map_of (tn_proxies T) ada of
                   None \<Rightarrow> scan_rules E T h n rs st1
                 | Some p \<Rightarrow>
                     (case walk_adapter p (ms_meta st1) of
                        WalkPass \<Rightarrow> scan_rules E T h n rs st1
                      | WalkRematch q \<Rightarrow> Some (ScanRematch q r, st1)
                      | WalkDone \<Rightarrow>
                          if md_NetWork (ms_meta st1) = UDP \<and> \<not> pr_udp p then scan_rules E T h n rs st1
                          else Some (ScanTake p r, st1)))))"

definition applyMetadata :: "Proxy \<Rightarrow> Metadata \<Rightarrow> Metadata" where
  "applyMetadata p m =
     (let m1 = (case pr_targetRematchName p of None \<Rightarrow> m | Some s \<Rightarrow> m\<lparr>md_RematchName := s\<rparr>)
      in case pr_targetSubRule p of None \<Rightarrow> m1 | Some s \<Rightarrow> m1\<lparr>md_SpecialRules := s\<rparr>)"

text \<open>
  The loop of \<open>match\<close>. Dialling a \<open>Rematch\<close> adapter never fails, so the loop ends by a proxy, at the end
  of the rules, or when the same \<open>Rematch\<close> adapter comes again. \<open>k\<close> bounds the passes and \<open>n\<close> the
  nesting of the rules.
\<close>

fun match_loop_tunnel ::
    "'s tunnel_ext \<Rightarrow> 's Tunnel \<Rightarrow> RuleMatchHelper \<Rightarrow> nat \<Rightarrow> nat \<Rightarrow> string list \<Rightarrow> MatchState
     \<Rightarrow> ((Proxy option \<times> Rule option) \<times> MatchState) option" where
  "match_loop_tunnel E T h n 0 rematchChain st = None"
| "match_loop_tunnel E T h n (Suc k) rematchChain st =
     (case scan_rules E T h n (getRules E T (ms_meta st)) st of
        None \<Rightarrow> None
      | Some (ScanTake p r, st1) \<Rightarrow> Some ((Some p, Some r), st1)
      | Some (ScanEnd, st1) \<Rightarrow> Some ((map_of (tn_proxies T) ''DIRECT'', None), st1)
      | Some (ScanRematch p r, st1) \<Rightarrow>
          (if pr_name p \<in> set rematchChain then Some ((Some p, Some r), st1)
           else match_loop_tunnel E T h n k (rematchChain @ [pr_name p])
                  (st1\<lparr>ms_meta := applyMetadata p (ms_meta st1)\<rparr>)))"

definition tunnel_match ::
    "'s tunnel_ext \<Rightarrow> 's Tunnel \<Rightarrow> RuleMatchHelper \<Rightarrow> nat \<Rightarrow> nat \<Rightarrow> MatchState
     \<Rightarrow> ((Proxy option \<times> Rule option) \<times> MatchState) option" where
  "tunnel_match E T h n k st = match_loop_tunnel E T h n k [] st"

section \<open>Choosing a proxy\<close>

datatype resolve_result = ProxyNotFound | Chosen "Proxy option" "Rule option"

definition start_state :: "Metadata \<Rightarrow> bool \<Rightarrow> MatchState" where
  "start_state m resolved =
     \<lparr>ms_meta = m, ms_resolved = resolved, ms_attempt = (md_Type m \<noteq> INNER), ms_asked = [], ms_hits = []\<rparr>"

definition resolveMetadata ::
    "'s tunnel_ext \<Rightarrow> 's Tunnel \<Rightarrow> nat \<Rightarrow> nat \<Rightarrow> Metadata \<Rightarrow> (resolve_result \<times> MatchState) option" where
  "resolveMetadata E T n k m =
     (if md_SpecialProxy m \<noteq> [] then
        (case map_of (tn_proxies T) (md_SpecialProxy m) of
           None \<Rightarrow> Some (ProxyNotFound, start_state m False)
         | Some p \<Rightarrow> Some (Chosen (Some p) None, start_state m False))
      else
        (case host_lookup E T (md_Host m) False of
           None \<Rightarrow> None
         | Some (node, ok) \<Rightarrow>
             (let st0 = (case node of
                           Some v \<Rightarrow>
                             if ok then start_state (m\<lparr>md_DstIP := RandIP (tx_pick E) v\<rparr>) True
                             else start_state m False
                         | None \<Rightarrow> start_state m False);
                  st1 = (if tn_findProcessMode T = FindProcessAlways then find_process E st0 else st0)
              in case tn_mode T of
                   ModeDirect \<Rightarrow> Some (Chosen (map_of (tn_proxies T) ''DIRECT'') None, st1)
                 | ModeGlobal \<Rightarrow> Some (Chosen (map_of (tn_proxies T) ''GLOBAL'') None, st1)
                 | ModeRule \<Rightarrow>
                     map_option (\<lambda>((p, r), st2). (Chosen p r, st2))
                       (tunnel_match E T (rule_helper E T) n k st1))))"

section \<open>Connections and packets\<close>

text \<open>
  A TCP connection is closed or dialled through the chosen proxy, with its metadata and the metadata
  it is dialled with. The dial metadata are the same object as the metadata until \<open>Pure\<close> makes a copy,
  so the address from the hosts is written to both.
\<close>

datatype tcp_decision = TcpClosed | TcpDial "Proxy option" "Rule option" Metadata Metadata

definition dial_metadata :: "'s tunnel_ext \<Rightarrow> 's Tunnel \<Rightarrow> Metadata \<Rightarrow> (Metadata \<times> Metadata) option" where
  "dial_metadata E T m =
     (if md_Host m = [] then Some (m, m)
      else (case host_lookup E T (md_Host m) False of
              None \<Rightarrow> None
            | Some (Some node, True) \<Rightarrow>
                (let dstIp = RandIP (tx_pick E) node
                 in if \<not> mapper_IsFakeIP T dstIp
                    then let m1 = m\<lparr>md_DstIP := dstIp, md_DNSMode := DNSHosts\<rparr> in Some (m1, Pure m1)
                    else Some (m, m))
            | Some _ \<Rightarrow> Some (m, m)))"

definition handleTCPConn ::
    "'s tunnel_ext \<Rightarrow> 's Tunnel \<Rightarrow> nat \<Rightarrow> nat \<Rightarrow> Metadata \<Rightarrow> (tcp_decision \<times> 's Tunnel) option" where
  "handleTCPConn E T n k m0 =
     (if \<not> isHandle T (md_Type m0) then Some (TcpClosed, T)
      else if \<not> md_Valid m0 then Some (TcpClosed, T)
      else (case preHandleMetadata E T (fixMetadata (tx_ParseAddr E) m0) of
              None \<Rightarrow> None
            | Some (ok, m1, T1) \<Rightarrow>
                (let (sniffed, m2) = (if tn_sniffing T1 then tx_sniff E m1 else (False, m1))
                 in if \<not> ok \<and> \<not> sniffed then Some (TcpClosed, T1)
                    else (case resolveMetadata E T1 n k m2 of
                            None \<Rightarrow> None
                          | Some (ProxyNotFound, st) \<Rightarrow> Some (TcpClosed, T1)
                          | Some (Chosen p r, st) \<Rightarrow>
                              map_option (\<lambda>(m3, d). (TcpDial p r m3 d, T1)) (dial_metadata E T1 (ms_meta st))))))"

text \<open>
  A packet is dropped, or joins the session of its key; the first packet of a key starts a session,
  which dials with a copy of the metadata. \<open>keys\<close> are those of the NAT table; \<open>sniff\<close> is \<open>DoSniff\<close>,
  \<open>None\<close> for an error.
\<close>

datatype udp_decision = UdpDropped | UdpQueued | UdpStarted

definition handleUDPConn ::
    "'s tunnel_ext \<Rightarrow> 's Tunnel \<Rightarrow> string list \<Rightarrow> string \<Rightarrow> Metadata
     \<Rightarrow> (udp_decision \<times> string list \<times> Metadata \<times> 's Tunnel) option" where
  "handleUDPConn E T keys key m0 =
     (if \<not> isHandle T (md_Type m0) \<or> \<not> md_Valid m0 then Some (UdpDropped, keys, m0, T)
      else let m1 = fixMetadata (tx_ParseAddr E) m0
        in (case preHandleMetadata E T m1 of
              None \<Rightarrow> None
            | Some (False, _, T1) \<Rightarrow> Some (UdpDropped, keys, m1, T1)
            | Some (True, _, T1) \<Rightarrow>
                if key \<in> set keys then Some (UdpQueued, keys, m1, T1)
                else Some (UdpStarted, key # keys, m1, T1)))"

datatype udp_dial = UdpFailed | UdpListen "Proxy option" "Rule option" Metadata

definition dial_udp ::
    "'s tunnel_ext \<Rightarrow> 's Tunnel \<Rightarrow> nat \<Rightarrow> nat \<Rightarrow> (Metadata \<Rightarrow> Metadata option) \<Rightarrow> Metadata
     \<Rightarrow> (udp_dial \<times> 's Tunnel) option" where
  "dial_udp E T n k sniff m =
     (case sniff m of
        None \<Rightarrow> Some (UdpFailed, T)
      | Some m1 \<Rightarrow>
          (case preHandleMetadata E T m1 of
             None \<Rightarrow> None
           | Some (_, m2, T1) \<Rightarrow>
               (case resolveMetadata E T1 n k m2 of
                  None \<Rightarrow> None
                | Some (ProxyNotFound, st) \<Rightarrow> Some (UdpFailed, T1)
                | Some (Chosen p r, st) \<Rightarrow> Some (UdpListen p r (Pure (ms_meta st)), T1))))"

text \<open>
  \<open>retry\<close>: at most ten attempts; \<open>ft i\<close> is the outcome of attempt \<open>i\<close>, \<open>stop\<close> tells the errors that a
  further attempt cannot change, and \<open>wait i\<close> whether the pause before the next one was not cut off.
\<close>

fun retry_loop :: "nat \<Rightarrow> nat \<Rightarrow> (nat \<Rightarrow> 'e + 'a) \<Rightarrow> ('e \<Rightarrow> bool) \<Rightarrow> (nat \<Rightarrow> bool) \<Rightarrow> 'e option \<Rightarrow> ('e option + 'a) \<times> nat" where
  "retry_loop i 0 ft stop wait last_err = (Inl last_err, i)"
| "retry_loop i (Suc k) ft stop wait last_err =
     (case ft i of
        Inr a \<Rightarrow> (Inr a, Suc i)
      | Inl e \<Rightarrow>
          if stop e then (Inl (Some e), Suc i)
          else if wait i then retry_loop (Suc i) k ft stop wait (Some e)
          else (Inl (Some e), Suc i))"

definition retry :: "(nat \<Rightarrow> 'e + 'a) \<Rightarrow> ('e \<Rightarrow> bool) \<Rightarrow> (nat \<Rightarrow> bool) \<Rightarrow> ('e option + 'a) \<times> nat" where
  "retry ft stop wait = retry_loop 0 10 ft stop wait None"

end
