(* ===== verification/TunnelProps.thy ===== *)
theory TunnelProps
  imports Tunnel RouteProps
begin

text \<open>
  What the tunnel promises: choosing a proxy always comes back, what is chosen fits the connection, the
  resolver is asked at most once, and a connection to a fake address is routed by the name the address
  was given out for.
\<close>

section \<open>What a match may change\<close>

text \<open>The fields of the metadata no rule writes.\<close>

definition same_connection :: "Metadata \<Rightarrow> Metadata \<Rightarrow> bool" where
  "same_connection m m' =
     (md_NetWork m' = md_NetWork m \<and> md_Host m' = md_Host m \<and> md_SniffHost m' = md_SniffHost m \<and>
      md_Type m' = md_Type m \<and> md_SpecialRules m' = md_SpecialRules m \<and>
      md_SpecialProxy m' = md_SpecialProxy m \<and> md_RematchName m' = md_RematchName m)"

text \<open>A property of the state that rules and the helper keep.\<close>

definition stable :: "(MatchState \<Rightarrow> bool) \<Rightarrow> RuleMatchHelper \<Rightarrow> bool" where
  "stable P h =
     ((\<forall>st. P st \<longrightarrow> P (call_helper (ResolveIP h) st)) \<and>
      (\<forall>st. P st \<longrightarrow> P (call_helper (FindProcess h) st)) \<and>
      (\<forall>st m. P st \<longrightarrow> same_connection (ms_meta st) m \<longrightarrow> P (st\<lparr>ms_meta := m\<rparr>)) \<and>
      (\<forall>st l. P st \<longrightarrow> P (st\<lparr>ms_hits := l\<rparr>)))"

definition sets_stable :: "(MatchState \<Rightarrow> bool) \<Rightarrow> rule_ext \<Rightarrow> bool" where
  "sets_stable P X =
     (\<forall>e \<in> set (rx_providers X). \<forall>f h st. snd e = OtherSet f \<longrightarrow> stable P h \<longrightarrow> P st \<longrightarrow> P (snd (f h st)))"

text \<open>A rule set in another format changes the state only by calling the helper it is given.\<close>

definition sets_quiet :: "rule_ext \<Rightarrow> bool" where
  "sets_quiet X = (\<forall>P. sets_stable P X)"

lemma stable_no_resolve: "stable P h \<Longrightarrow> stable P (h\<lparr>ResolveIP := None\<rparr>)"
  by (simp add: stable_def call_helper_def)

lemma stable_swapped: "stable P h \<Longrightarrow> P st \<Longrightarrow> P (swapped st)"
  by (simp add: stable_def swapped_def same_connection_def SwapSrcDst_def)

lemma stable_hit: "stable P h \<Longrightarrow> P (snd r) \<Longrightarrow> P (snd (wrapped_hit i r))"
  by (simp add: stable_def wrapped_hit_def)

lemma stable_resolve_first: "stable P h \<Longrightarrow> P st \<Longrightarrow> P (resolve_first h src nr st)"
  by (simp add: stable_def resolve_first_def)

lemma stable_set_geo: "stable P h \<Longrightarrow> P st \<Longrightarrow> P (set_geo_codes src cs st)"
  by (simp add: stable_def set_geo_codes_def same_connection_def)

lemma geoip_keeps: "stable P h \<Longrightarrow> P st \<Longrightarrow> P (snd (geoip_match X h c ad src nr st))"
  by (auto simp: geoip_match_def Let_def stable_set_geo stable_resolve_first split: option.split)

lemma plain_keeps:
  assumes "stable P h" and "P st"
  shows "P (snd (base_match X h r st))"
proof (cases r)
  case (GEOIP c ad src nr)
  with geoip_keeps [OF assms] show ?thesis by simp
next
  case (ASN a ad src nr)
  with assms stable_resolve_first [OF assms, of src nr] show ?thesis
    by (auto simp: asn_match_def Let_def stable_def same_connection_def split: prod.split)
next
  case (IPSuffix bs n p ad src nr)
  with stable_resolve_first [OF assms] show ?thesis by (simp add: suffix_match_def Let_def)
next
  case (IPCIDR p ad src nr)
  with stable_resolve_first [OF assms] show ?thesis by (simp add: Let_def)
next
  case (Process p ad tp)
  with assms show ?thesis by (simp add: process_match_def Let_def stable_def)
next
  case (Uid rs p ad)
  with assms show ?thesis by (simp add: uid_match_def Let_def stable_def)
qed (use assms in \<open>simp_all add: one_of_def\<close>)

lemma plain_out: "base_match X h r st = (res, st') \<Longrightarrow> stable P h \<Longrightarrow> P st \<Longrightarrow> P st'"
  using plain_keeps [of P h st X r] by simp

lemma set_stableD:
  "sets_stable P X \<Longrightarrow> map_of (rx_providers X) s = Some (OtherSet f) \<Longrightarrow> stable P h \<Longrightarrow> P st \<Longrightarrow>
    P (snd (f h st))"
  by (force simp: sets_stable_def dest: map_of_SomeD)

lemma match_keeps:
  assumes "sets_stable P X"
  shows "rule_match X h n r st = Some (res, st') \<Longrightarrow> stable P h \<Longrightarrow> P st \<Longrightarrow> P st'"
    and "any_match X h n rs st = Some (b, st') \<Longrightarrow> stable P h \<Longrightarrow> P st \<Longrightarrow> P st'"
    and "all_match X h n rs st = Some (b, st') \<Longrightarrow> stable P h \<Longrightarrow> P st \<Longrightarrow> P st'"
    and "set_match X h n p st = Some (b, st') \<Longrightarrow> stable P h \<Longrightarrow> P st \<Longrightarrow>
      (\<forall>f. p = OtherSet f \<longrightarrow> P (snd (f h st))) \<Longrightarrow> P st'"
    and "match_sub X h n name st = Some (res, st') \<Longrightarrow> stable P h \<Longrightarrow> P st \<Longrightarrow> P st'"
    and "sub_loop X h n rs st = Some (res, st') \<Longrightarrow> stable P h \<Longrightarrow> P st \<Longrightarrow> P st'"
  using assms
proof (induction X h n r st and X h n rs st and X h n rs st and X h n p st and X h n name st and X h n rs st
    arbitrary: res st' and b st' and b st' and b st' and res st' and res st'
    rule: rule_match_any_match_all_match_set_match_match_sub_sub_loop.induct)
  case (1 X h n i r st)
  then show ?case by (auto split: if_splits simp: wrapped_hit_def stable_def)
next
  case (2 X h n name ad src nr st)
  show ?case
  proof (cases "map_of (rx_providers X) name")
    case None
    with 2 show ?thesis by simp
  next
    case (Some p)
    show ?thesis
    proof (cases src)
      case True
      with 2(3) Some obtain m st1 where m: "set_match X (h\<lparr>ResolveIP := None\<rparr>) n p (swapped st) = Some (m, st1)"
        "st' = swapped st1" by auto
      have "P (swapped st)" by (rule stable_swapped [OF 2(4,5)])
      then have "P st1"
        using 2(1) [OF Some True m(1) stable_no_resolve [OF 2(4)]] set_stableD [OF 2(6)] Some 2(6)
          stable_no_resolve [OF 2(4)] by blast
      then show ?thesis unfolding m(2) by (rule stable_swapped [OF 2(4)])
    next
      case False
      let ?h = "if nr then h\<lparr>ResolveIP := None\<rparr> else h"
      from False 2(3) Some obtain m where m: "set_match X ?h n p st = Some (m, st')" by auto
      have "stable P ?h" using 2(4) stable_no_resolve by auto
      then show ?thesis using 2(2) [OF Some False m _ 2(5)] set_stableD [OF 2(6)] Some 2(5,6) by blast
    qed
  qed
next
  case (3 X h n payload ad tp rs st)
  consider "tp = RtSubRules" | "tp = RtNOT" | "tp = RtOR" | "tp = RtAND"
    | "tp \<notin> {RtSubRules, RtNOT, RtOR, RtAND}" by blast
  then show ?case
  proof cases
    case 1
    with "3.prems"(1) obtain r q m a st1 where r: "rs = r # q" "rule_match X h n r st = Some ((m, a), st1)"
      and rest: "(if m then match_sub X h n ad st1 else Some ((False, []), st1)) = Some (res, st')"
      by (auto split: list.splits option.splits)
    have p: "P st1" by (rule "3.IH"(1) [OF 1 r "3.prems"(2-4)])
    show ?thesis
    proof (cases m)
      case True
      with rest have "match_sub X h n ad st1 = Some (res, st')" by simp
      from "3.IH"(2) [OF 1 r refl refl True this "3.prems"(2) p "3.prems"(4)] show ?thesis .
    next
      case False
      with rest p show ?thesis by simp
    qed
  next
    case 2
    with "3.prems"(1) obtain r q m a where r: "rs = r # q" "rule_match X h n r st = Some ((m, a), st')"
      by (auto split: list.splits option.splits)
    show ?thesis by (rule "3.IH"(3) [OF _ 2 r "3.prems"(2-4)]) (simp add: 2)
  next
    case 3
    with "3.prems"(1) obtain b where "any_match X h n rs st = Some (b, st')" by auto
    from "3.IH"(4) [OF _ _ 3 this "3.prems"(2-4)] 3 show ?thesis by simp
  next
    case 4
    with "3.prems"(1) obtain b where "all_match X h n rs st = Some (b, st')" by auto
    from "3.IH"(5) [OF _ _ _ 4 this "3.prems"(2-4)] 4 show ?thesis by simp
  next
    case 5
    with "3.prems" show ?thesis by simp
  qed
next
  case (6 X h n r rs st)
  from "6.prems"(1) obtain m a st1 where r: "rule_match X h n r st = Some ((m, a), st1)"
    "(if m then Some (True, st1) else any_match X h n rs st1) = Some (b, st')"
    by (auto split: option.splits)
  have p: "P st1" by (rule "6.IH"(1) [OF r(1) "6.prems"(2-4)])
  with r(2) "6.IH"(2) [OF r(1) refl refl _ _ "6.prems"(2) p "6.prems"(4)] show ?case
    by (auto split: if_splits)
next
  case (8 X h n r rs st)
  from "8.prems"(1) obtain m a st1 where r: "rule_match X h n r st = Some ((m, a), st1)"
    "(if \<not> m then Some (False, st1) else all_match X h n rs st1) = Some (b, st')"
    by (auto split: option.splits)
  have p: "P st1" by (rule "8.IH"(1) [OF r(1) "8.prems"(2-4)])
  with r(2) "8.IH"(2) [OF r(1) refl refl _ _ "8.prems"(2) p "8.prems"(4)] show ?case
    by (auto split: if_splits)
next
  case (15 X h n r rs st)
  note pr = "15.prems"
  from pr(1) obtain m a st1 where r: "rule_match X h n r st = Some ((m, a), st1)"
    by (auto split: option.splits)
  have p: "P st1" by (rule "15.IH"(1) [OF r pr(2-4)])
  show ?case
  proof (cases m)
    case False
    with pr(1) r have "sub_loop X h n rs st1 = Some (res, st')" by simp
    from "15.IH"(4) [OF r refl refl False this pr(2) p pr(4)] show ?thesis .
  next
    case True
    let ?s = "if rule_type r = RtSubRules then match_sub X h n (Adapter r) st1 else Some ((True, a), st1)"
    have r': "rule_match X h n r st = Some ((True, a), st1)" using r True by simp
    from pr(1) r' obtain m2 a2 st2 where s: "?s = Some ((m2, a2), st2)"
      and rest: "(if m2 \<and> passes h a2 st2 then sub_loop X h n rs st2 else Some ((m2, a2), st2)) = Some (res, st')"
      by (auto split: option.splits)
    have p2: "P st2"
    proof (cases "rule_type r = RtSubRules")
      case sub: True
      with s have "match_sub X h n (Adapter r) st1 = Some ((m2, a2), st2)" by simp
      from "15.IH"(2) [OF r' refl refl TrueI sub this pr(2) p pr(4)] show ?thesis .
    next
      case False
      with s p show ?thesis by simp
    qed
    show ?thesis
    proof (cases "m2 \<and> passes h a2 st2")
      case True
      with rest have "sub_loop X h n rs st2 = Some (res, st')" by simp
      from "15.IH"(3) [OF r' refl refl TrueI s refl refl True this pr(2) p2 pr(4)] show ?thesis .
    next
      case False
      with rest p2 show ?thesis by simp
    qed
  qed
qed (auto simp del: base_match.simps elim: plain_out [where P = P])

lemma scan_keeps:
  assumes "sets_stable P (tx_rules E)" and "stable P h"
  shows "scan_rules E T h n rs st = Some (e, st') \<Longrightarrow> P st \<Longrightarrow> P st'"
proof (induction rs arbitrary: st)
  case (Cons r rs)
  obtain m ada st1 where r: "rule_match (tx_rules E) h n r st = Some ((m, ada), st1)"
    using Cons.prems(1) by (auto split: option.splits)
  then have p: "P st1" using match_keeps(1) [OF assms(1) r assms(2) Cons.prems(2)] by simp
  then have rest: "scan_rules E T h n rs st1 = Some (e, st') \<Longrightarrow> P st'" by (rule Cons.IH [rotated])
  show ?case
    using Cons.prems(1) r rest p by (auto split: option.splits if_splits walk_end.splits)
qed simp

section \<open>Choosing a proxy comes back\<close>

primrec rematch_in :: "string set \<Rightarrow> Proxy \<Rightarrow> bool" where
  "rematch_in N (Proxy n tp udp rn sr f) =
     ((tp = AtRematch \<longrightarrow> n \<in> N) \<and> (\<forall>m. case map_option (rematch_in N) (f m) of None \<Rightarrow> True | Some b \<Rightarrow> b))"

lemma walk_rematch:
  "walk_adapter p m = WalkRematch q \<Longrightarrow> rematch_in N p \<Longrightarrow> pr_type q = AtRematch \<and> pr_name q \<in> N"
proof (induction p)
  case (Proxy n tp udp rn sr f)
  show ?case
  proof (cases "f m")
    case None
    with Proxy.prems show ?thesis by (auto split: if_splits)
  next
    case (Some p')
    have "case map_option (rematch_in N) (f m) of None \<Rightarrow> True | Some b \<Rightarrow> b" using Proxy.prems(2) by simp
    with Some have in': "rematch_in N p'" by simp
    show ?thesis
    proof (cases "tp = AtPass \<or> tp = AtRematch")
      case True
      with Proxy.prems show ?thesis by auto
    next
      case False
      with Proxy.prems(1) Some have "walk_adapter p' m = WalkRematch q" by simp
      moreover have "Some p' \<in> range f" using Some by (metis rangeI)
      ultimately show ?thesis using Proxy.IH [of "Some p'" p'] in' by simp
    qed
  qed
qed

lemma scan_returns:
  "(\<And>r st. r \<in> set rs \<Longrightarrow> rule_match (tx_rules E) h n r st \<noteq> None) \<Longrightarrow> scan_rules E T h n rs st \<noteq> None"
  by (induction rs arbitrary: st)
     (auto simp del: not_None_eq split: option.split walk_end.split)

lemma scan_rematch:
  assumes "\<forall>e \<in> set (tn_proxies T). rematch_in N (snd e)"
  shows "scan_rules E T h n rs st = Some (ScanRematch q r, st') \<Longrightarrow> pr_type q = AtRematch \<and> pr_name q \<in> N"
proof (induction rs arbitrary: st)
  case (Cons r' rs)
  have ok: "pr_type q = AtRematch \<and> pr_name q \<in> N"
    if "map_of (tn_proxies T) ada = Some p" and "walk_adapter p m = WalkRematch q" for ada p m
    using assms map_of_SomeD [OF that(1)] walk_rematch [OF that(2)] by force
  show ?case
    using Cons.prems Cons.IH ok
    by (auto split: option.splits if_splits walk_end.splits dest: ok)
qed simp

lemma match_loop_returns:
  assumes "\<And>m r st. r \<in> set (getRules E T m) \<Longrightarrow> rule_match (tx_rules E) h n r st \<noteq> None"
    and "\<forall>e \<in> set (tn_proxies T). rematch_in N (snd e)" and "finite N"
  shows "distinct chain \<Longrightarrow> set chain \<subseteq> N \<Longrightarrow> card N < k + length chain \<Longrightarrow>
    match_loop_tunnel E T h n k chain st \<noteq> None"
proof (induction k arbitrary: chain st)
  case 0
  then have "length chain \<le> card N" using card_mono [OF assms(3)] distinct_card by metis
  with 0 show ?case by simp
next
  case (Suc k)
  have "scan_rules E T h n (getRules E T (ms_meta st)) st \<noteq> None" by (rule scan_returns [OF assms(1)])
  then obtain e st1 where s: "scan_rules E T h n (getRules E T (ms_meta st)) st = Some (e, st1)" by auto
  show ?case
  proof (cases e)
    case (ScanRematch q r)
    with scan_rematch [OF assms(2)] s have q: "pr_name q \<in> N" by blast
    show ?thesis
    proof (cases "pr_name q \<in> set chain")
      case True
      with s ScanRematch show ?thesis by simp
    next
      case False
      have "match_loop_tunnel E T h n k (chain @ [pr_name q]) st' \<noteq> None" for st'
        by (rule Suc.IH) (use Suc.prems False q in auto)
      with s ScanRematch False show ?thesis by simp
    qed
  qed (use s in simp_all)
qed


section \<open>What is chosen\<close>

lemma walk_done:
  "walk_adapter p m = WalkDone \<Longrightarrow> \<not> unwraps_to AtPass p m \<and> \<not> unwraps_to AtRematch p m"
proof (induction p)
  case (Proxy n tp udp rn sr f)
  show ?case
  proof (cases "f m")
    case None
    with Proxy.prems show ?thesis by (auto split: if_splits)
  next
    case (Some p')
    moreover have "Some p' \<in> range f" using Some by (metis rangeI)
    ultimately show ?thesis using Proxy.IH [of "Some p'" p'] Proxy.prems by (auto split: if_splits)
  qed
qed

definition fits :: "'s tunnel_ext \<Rightarrow> 's Tunnel \<Rightarrow> Proxy \<Rightarrow> Metadata \<Rightarrow> bool" where
  "fits E T p m =
     ((\<exists>ada. map_of (tn_proxies T) ada = Some p) \<and> \<not> unwraps_to AtPass p m \<and> \<not> unwraps_to AtRematch p m \<and>
      (md_NetWork m = UDP \<longrightarrow> pr_udp p))"

text \<open>One pass takes the first rule whose proxy fits, after passing over all rules before it.\<close>

lemma scan_takes:
  "scan_rules E T h n rs st = Some (ScanTake p r, st') \<Longrightarrow>
    fits E T p (ms_meta st') \<and>
    (\<exists>pre post st1 ada. rs = pre @ r # post \<and> scan_rules E T h n pre st = Some (ScanEnd, st1) \<and>
       rule_match (tx_rules E) h n r st1 = Some ((True, ada), st') \<and> map_of (tn_proxies T) ada = Some p)"
proof (induction rs arbitrary: st)
  case (Cons r' rs)
  obtain m ada st1 where r: "rule_match (tx_rules E) h n r' st = Some ((m, ada), st1)"
    using Cons.prems by (auto split: option.splits)
  show ?case
  proof (cases "r' = r \<and> m \<and> map_of (tn_proxies T) ada = Some p \<and> st1 = st' \<and> fits E T p (ms_meta st')")
    case True
    with r show ?thesis by (intro conjI exI [of _ "[]"] exI [of _ rs] exI [of _ st] exI [of _ ada]) auto
  next
    case False
    have "scan_rules E T h n rs st1 = Some (ScanTake p r, st')" and
      step: "\<And>pre. scan_rules E T h n (r' # pre) st = scan_rules E T h n pre st1"
      using Cons.prems r False
      by (auto simp: fits_def split: option.splits if_splits walk_end.splits dest: walk_done)
    from Cons.IH [OF this(1)] obtain pre post st2 ada' where
      "fits E T p (ms_meta st')" "rs = pre @ r # post" "scan_rules E T h n pre st1 = Some (ScanEnd, st2)"
      "rule_match (tx_rules E) h n r st2 = Some ((True, ada'), st')" "map_of (tn_proxies T) ada' = Some p"
      by blast
    with step [of pre] show ?thesis
      by (intro conjI exI [of _ "r' # pre"] exI [of _ post] exI [of _ st2] exI [of _ ada']) simp_all
  qed
qed simp

lemma scan_rematch_rule:
  "scan_rules E T h n rs st = Some (ScanRematch p r, st') \<Longrightarrow> pr_type p = AtRematch \<and> r \<in> set rs"
proof (induction rs arbitrary: st)
  case (Cons r' rs)
  have "pr_type q = AtRematch" if "walk_adapter p m = WalkRematch q" for p m q
  proof -
    have "rematch_in UNIV x" for x
    proof (induction x)
      case (Proxy n tp udp rn sr f)
      have "rematch_in UNIV p'" if "f m = Some p'" for m p'
        using Proxy.IH [of "Some p'" p'] that rangeI [of f m] by auto
      then show ?case by (auto split: option.split)
    qed
    with walk_rematch [OF that] show ?thesis by blast
  qed
  note ok = this
  obtain m ada st1 where r: "rule_match (tx_rules E) h n r' st = Some ((m, ada), st1)"
    using Cons.prems by (auto split: option.splits)
  show ?case
    using Cons.prems Cons.IH [of st1] r by (auto split: option.splits if_splits walk_end.splits dest: ok)
qed simp

lemma helper_keeps_rules:
  "stable (\<lambda>st. md_SpecialRules (ms_meta st) = s) (rule_helper E T)"
  by (auto simp: stable_def rule_helper_def call_helper_def resolve_name_def find_process_def Let_def
      same_connection_def split: option.split prod.split)


section \<open>The resolver is asked at most once\<close>

lemma loop_keeps:
  assumes "sets_stable P (tx_rules E)" and "stable P h"
    and "\<And>st p. P st \<Longrightarrow> P (st\<lparr>ms_meta := applyMetadata p (ms_meta st)\<rparr>)"
  shows "match_loop_tunnel E T h n k chain st = Some (res, st') \<Longrightarrow> P st \<Longrightarrow> P st'"
proof (induction k arbitrary: chain st)
  case (Suc k)
  obtain e st1 where s: "scan_rules E T h n (getRules E T (ms_meta st)) st = Some (e, st1)"
    using Suc.prems(1) by (auto split: option.splits)
  have p: "P st1" by (rule scan_keeps [OF assms(1,2) s Suc.prems(2)])
  with Suc s assms(3) [OF p] show ?case by (auto split: scan_end.splits if_splits)
qed simp

definition asked_once :: "string \<Rightarrow> MatchState \<Rightarrow> bool" where
  "asked_once host st =
     (md_Host (ms_meta st) = host \<and> (ms_asked st = [] \<or> ms_asked st = [host] \<and> host \<noteq> [] \<and> ms_resolved st))"

lemma asked_once_stable: "stable (asked_once host) (rule_helper E T)"
  by (auto simp: stable_def rule_helper_def call_helper_def resolve_name_def find_process_def Let_def
      same_connection_def asked_once_def split: option.split prod.split)

lemma never_asked_stable: "stable (\<lambda>st. ms_resolved st \<and> ms_asked st = []) (rule_helper E T)"
  by (auto simp: stable_def rule_helper_def call_helper_def resolve_name_def find_process_def Let_def
      split: option.split prod.split)

lemma find_process_keeps: "ms_asked (find_process E st) = ms_asked st \<and> ms_resolved (find_process E st) = ms_resolved st \<and>
    md_Host (ms_meta (find_process E st)) = md_Host (ms_meta st)"
  by (auto simp: find_process_def Let_def split: option.split prod.split)

text \<open>
  Property C15. Choosing a proxy asks the resolver at most once, for the name of the connection only, and not at all
  when the hosts have an address for it.
\<close>

theorem name_resolved_once:
  assumes "resolveMetadata E T n k m = Some (res, st)" and "sets_quiet (tx_rules E)"
  shows "ms_asked st \<in> {[], [md_Host m]} \<and> (md_Host m = [] \<longrightarrow> ms_asked st = []) \<and>
    (\<forall>v. host_lookup E T (md_Host m) False = Some (Some v, True) \<longrightarrow> ms_asked st = [])"
proof (cases "md_SpecialProxy m = []")
  case False
  with assms(1) show ?thesis by (auto simp: resolveMetadata_def start_state_def split: option.splits)
next
  case True
  then obtain node ok where l: "host_lookup E T (md_Host m) False = Some (node, ok)"
    using assms(1) by (auto simp: resolveMetadata_def split: option.splits)
  define found where "found = (node \<noteq> None \<and> ok)"
  define st0 where "st0 = (case node of
      Some v \<Rightarrow> if ok then start_state (m\<lparr>md_DstIP := RandIP (tx_pick E) v\<rparr>) True else start_state m False
    | None \<Rightarrow> start_state m False)"
  define st1 where "st1 = (if tn_findProcessMode T = FindProcessAlways then find_process E st0 else st0)"
  have s1: "ms_asked st1 = []" "ms_resolved st1 = found" "md_Host (ms_meta st1) = md_Host m"
    using find_process_keeps [of E st0]
    by (auto simp: st1_def st0_def found_def start_state_def split: option.split)
  have res: "st = st1 \<or> (\<exists>p r. tunnel_match E T (rule_helper E T) n k st1 = Some ((p, r), st))"
  proof -
    have "resolveMetadata E T n k m =
        (case tn_mode T of
           ModeDirect \<Rightarrow> Some (Chosen (map_of (tn_proxies T) ''DIRECT'') None, st1)
         | ModeGlobal \<Rightarrow> Some (Chosen (map_of (tn_proxies T) ''GLOBAL'') None, st1)
         | ModeRule \<Rightarrow>
             map_option (\<lambda>((p, r), st2). (Chosen p r, st2)) (tunnel_match E T (rule_helper E T) n k st1))"
      using True l by (cases "tn_mode T"; cases node; cases ok)
        (simp_all add: resolveMetadata_def Let_def st0_def st1_def)
    with assms(1) show ?thesis by (auto split: TunnelMode.splits)
  qed
  have keeps: "P st" if "stable P (rule_helper E T)" "P st1"
    and step: "\<And>st p. P st \<Longrightarrow> P (st\<lparr>ms_meta := applyMetadata p (ms_meta st)\<rparr>)" for P
    using res
  proof
    assume "st = st1"
    with that(2) show ?thesis by simp
  next
    have quiet: "sets_stable P (tx_rules E)" using assms(2) by (simp add: sets_quiet_def)
    assume "\<exists>p r. tunnel_match E T (rule_helper E T) n k st1 = Some ((p, r), st)"
    then obtain p r where "match_loop_tunnel E T (rule_helper E T) n k [] st1 = Some ((p, r), st)"
      by (auto simp: tunnel_match_def)
    from loop_keeps [OF quiet that(1) step this that(2)] show ?thesis .
  qed
  have "asked_once (md_Host m) st"
    by (rule keeps [OF asked_once_stable])
       (auto simp: asked_once_def s1 applyMetadata_def Let_def split: option.split)
  moreover have "found \<Longrightarrow> ms_asked st = []"
    using keeps [OF never_asked_stable] s1 by auto
  ultimately show ?thesis using l by (auto simp: asked_once_def found_def)
qed

section \<open>A fake address is routed by its name\<close>

lemma pool_contents:
  assumes "pool_New lastIP memory (newMemoryStore n) net = Inr p0"
    and "addr_BitLen (lastIP net) = addr_BitLen (px_addr net)"
    and "pool_run p0 p" and "mem_host_addr (po_store p) h = Some ip"
  shows "pool_inv p \<and> pool_fixed p0 p \<and> po_first p0 \<le> ip \<and> ip < lastIP net \<and>
    LookBack memory ip p = (Some h, snd (LookBack memory ip p)) \<and>
    pool_fixed p0 (snd (LookBack memory ip p)) \<and> addr_BitLen ip = addr_BitLen (lastIP net)"
proof -
  note new = new_pool_inv [OF assms(1,2)]
  have inv: "pool_inv p" "pool_fixed p0 p" using pool_run_inv [OF assms(3)] new by auto
  have ok: "mem.held_store p" using inv(1) by (simp add: mem.held_store_def pool_inv_def)
  have r: "po_first p \<le> ip \<and> ip < po_last p"
    using inv(1) assms(4) by (auto simp: pool_inv_def mem_host_addr_def dest: map_of_SomeD)
  then have "addr_BitLen ip = addr_BitLen (po_last p)"
    using inv(1) between_same_length by (auto simp: pool_inv_def span_ok_def)
  with r inv new mem.look_back [OF ok assms(4)] look_back_inv [OF inv(1), of ip] show ?thesis
    by (auto simp: pool_fixed_def prod_eq_iff)
qed

text \<open>
  Property C13. A connection to an address that the pool gave to a name is handled as a connection to the name:
  the address is taken out again, and only the pool has changed.
\<close>

theorem fake_ip_routed_by_name:
  assumes "pool_New lastIP memory (newMemoryStore n) net = Inr p0" and "px_addr net = Addr4 a"
    and "Contains net (lastIP net)"
    and "pool_run p0 p" and "mem_host_addr (po_store p) host = Some ip"
    and "tn_enhancer T = Some e" and "eh_mode e = DNSFakeIP" and "eh_fakeIPPool e = Some p"
    and "tx_store E = memory" and "tx_ParseAddr E [] = None"
    and "md_Host m = []" and "md_DstIP m = ip"
  shows "preHandleMetadata E T (fixMetadata (tx_ParseAddr E) m) =
      Some (True, m\<lparr>md_Host := host, md_DstIP := NoAddr, md_DNSMode := DNSFakeIP\<rparr>,
        T\<lparr>tn_enhancer := Some (e\<lparr>eh_fakeIPPool := Some (snd (LookBack memory ip p))\<rparr>)\<rparr>)"
proof -
  let ?q = "snd (LookBack memory ip p)"
  have len: "addr_BitLen (lastIP net) = addr_BitLen (px_addr net)"
    using assms(3) by (auto simp: Contains_def split: Addr.splits)
  note c = pool_contents [OF assms(1) len assms(4,5)]
  have "addr_BitLen ip = 32" using c len assms(2) by simp
  then obtain w where ip: "ip = Addr4 w" by (cases ip) simp_all
  have fixed: "fixMetadata (tx_ParseAddr E) m = m"
    using assms(10-12) by (simp add: fixMetadata_def ip)
  have fake: "in_pool ip (Some ?q)" by (rule pool_address_fake [OF assms(1,3)]) (use c in auto)
  have found: "FindHostByIP memory ip e = (Some host, e\<lparr>eh_fakeIPPool := Some ?q\<rparr>)"
    using c assms(8) by (cases "LookBack memory ip p") (auto simp: FindHostByIP_def look_in_def)
  show ?thesis
    unfolding fixed using found fake assms(6-9,11,12)
    by (simp add: preHandleMetadata_def needLookupIP_def mapper_MappingEnabled_def MappingEnabled_def
        mapper_FindHostByIP_def mapper_IsFakeIP_def IsFakeIP_def FakeIPEnabled_def IsValid_def ip)
qed

section \<open>A small tunnel\<close>

definition demo_direct :: Proxy where
  "demo_direct = Proxy ''DIRECT'' AtDirect True None None (\<lambda>_. None)"

definition demo_again :: Proxy where
  "demo_again = Proxy ''AGAIN'' AtRematch True None (Some ''inner'') (\<lambda>_. None)"

definition demo_group :: Proxy where
  "demo_group = Proxy ''GROUP'' AtSelector True None None
     (\<lambda>m. if md_NetWork m = TCP then Some demo_again else Some demo_direct)"

definition demo_enhancer :: "memoryStore ResolverEnhancer" where
  "demo_enhancer = NewEnhancer False DNSFakeIP (Some (snd demo_looked)) None 1 True"

definition demo_tunnel :: "memoryStore Tunnel" where
  "demo_tunnel =
     \<lparr>tn_status = Running, tn_mode = ModeRule, tn_findProcessMode = FindProcessStrict,
      tn_proxies = [(''DIRECT'', demo_direct), (''GROUP'', demo_group)],
      tn_rules = [RuleWrapper 0 (GEOIP ''fr'' ''DIRECT'' False False), RuleWrapper 1 (MatchAll ''GROUP'')],
      tn_hosts = newNode, tn_enhancer = Some demo_enhancer, tn_sniffing = False\<rparr>"

definition demo_inner :: "(string \<times> Rule list) list" where
  "demo_inner = [(''inner'', [Domain ''a.example'' ''DIRECT''])]"

definition demo_tunnel_ext :: "memoryStore tunnel_ext" where
  "demo_tunnel_ext =
     \<lparr>tx_rules = demo_rule_ext\<lparr>rx_subRules := demo_inner\<rparr>, tx_store = memory, tx_ParseAddr = (\<lambda>_. None),
      tx_sysHosts = (\<lambda>_. None), tx_pick = (\<lambda>_. 0), tx_ResolveIP = (\<lambda>_. Some (Addr4 0x01020304)),
      tx_FindProcessName = (\<lambda>_. Some (1000, ''/usr/bin/curl'')), tx_FindPackageName = (\<lambda>_. None),
      tx_features_CMFA = False, tx_sniff = (\<lambda>m. (False, m))\<rparr>"

definition unresolved :: Metadata where
  "unresolved = demo_metadata\<lparr>md_DstIP := NoAddr\<rparr>"

lemmas demo_tunnel_simps =
  demo_tunnel_def demo_tunnel_ext_def demo_rule_ext_def demo_metadata_def unresolved_def demo_inner_def
  demo_direct_def demo_group_def demo_again_def

lemmas demo_rule_simps =
  getRules_def start_state_def geoip_match_def resolve_first_def rule_helper_def call_helper_def
  resolve_name_def Resolved_def rule_ip_def applyMetadata_def geo_codes_def Let_def IsValid_def isLan_def
  IsPrivate_def IsUnspecified_def IsLoopback_def IsMulticast_def IsLinkLocalUnicast_def set_geo_codes_def
  RuleHost_def wrapped_hit_def

lemma demo_routed:
  "\<exists>st. tunnel_match demo_tunnel_ext demo_tunnel (rule_helper demo_tunnel_ext demo_tunnel) 2 2
      (start_state unresolved False) =
    Some ((Some demo_direct, Some (Domain ''a.example'' ''DIRECT'')), st) \<and> ms_asked st = [''a.example'']"
  by (simp add: tunnel_match_def numeral_2_eq_2 demo_tunnel_simps demo_rule_simps)

lemma demo_quiet: "sets_quiet (tx_rules demo_tunnel_ext)"
  by (simp add: sets_quiet_def sets_stable_def demo_tunnel_simps)

lemma demo_no_host: "host_lookup demo_tunnel_ext demo_tunnel ''a.example'' False = Some (None, False)"
proof -
  have "Search (\<lambda>s. s) ''a.example'' (newNode :: host_trie) = None" by code_simp
  then show ?thesis by (simp add: host_lookup_def hosts_Search_def demo_tunnel_simps)
qed


theorem name_resolved_once_witness:
  "\<exists>res st. resolveMetadata demo_tunnel_ext demo_tunnel 2 2 unresolved = Some (res, st) \<and>
    ms_asked st \<in> {[], [''a.example'']}"
proof -
  obtain st where "tunnel_match demo_tunnel_ext demo_tunnel (rule_helper demo_tunnel_ext demo_tunnel) 2 2
      (start_state unresolved False) =
    Some ((Some demo_direct, Some (Domain ''a.example'' ''DIRECT'')), st)"
    using demo_routed by blast
  moreover have "md_SpecialProxy unresolved = []" "md_Host unresolved = ''a.example''"
    "tn_mode demo_tunnel = ModeRule" "tn_findProcessMode demo_tunnel = FindProcessStrict"
    by (simp_all add: demo_tunnel_simps)
  ultimately have r: "resolveMetadata demo_tunnel_ext demo_tunnel 2 2 unresolved =
      Some (Chosen (Some demo_direct) (Some (Domain ''a.example'' ''DIRECT'')), st)"
    using demo_no_host by (simp add: resolveMetadata_def Let_def)
  have "md_Host unresolved = ''a.example''" by (simp add: demo_tunnel_simps)
  with name_resolved_once [OF r demo_quiet] r show ?thesis by simp
qed

lemma demo_rules:
  "parseRules (demo_rule_ext\<lparr>rx_subRules := demo_inner\<rparr>) [''DIRECT'', ''GROUP''] True 0
     [''GEOIP,fr,DIRECT'', ''MATCH,GROUP''] =
   Some [RuleWrapper 0 (GEOIP ''fr'' ''DIRECT'' False False), RuleWrapper 1 (MatchAll ''GROUP'')]"
  by code_simp


theorem fake_ip_routed_by_name_witness:
  "preHandleMetadata demo_tunnel_ext demo_tunnel
      (fixMetadata (tx_ParseAddr demo_tunnel_ext) (unresolved\<lparr>md_Host := [], md_DstIP := fst demo_looked\<rparr>)) =
    Some (True, unresolved\<lparr>md_Host := ''a.b'', md_DstIP := NoAddr, md_DNSMode := DNSFakeIP\<rparr>,
      demo_tunnel\<lparr>tn_enhancer := Some (demo_enhancer
        \<lparr>eh_fakeIPPool := Some (snd (LookBack memory (fst demo_looked) (snd demo_looked)))\<rparr>)\<rparr>)"
proof -
  have "px_addr demo_net = Addr4 0xC6120001" by (simp add: demo_net_def)
  moreover have "Contains demo_net (demo_last demo_net)"
    by (simp add: Contains_def demo_net_def demo_last_def prefix_valid_def)
  ultimately show ?thesis
    by (subst fake_ip_routed_by_name [OF demo_pool_new _ _ demo_pool_run demo_named, where e = demo_enhancer])
       (simp_all add: demo_tunnel_def demo_enhancer_def NewEnhancer_def demo_tunnel_ext_def)
qed

end
