(* ===== verification/NodeState.thy ===== *)
theory NodeState
  imports Tunnel
begin

text \<open>
  What the proxy core remembers of a node (\<open>adapter/adapter.go\<close>): whether it was alive at the last test
  and a short history of delays, in general and for each test address. A test is described by its
  outcomes, in the order of the code; the addresses of nodes and the states of the nodes are kept
  apart in \<open>OutboundGroup\<close>, since groups share their nodes.
\<close>

record DelayHistory =
  dh_Time :: int
  dh_Delay :: "16 word"

record internalProxyState =
  ip_alive :: bool
  ip_history :: "DelayHistory list"

record ProxyNode =
  nd_name :: string
  nd_type :: AdapterType
  nd_udp :: bool
  nd_alive :: bool
  nd_history :: "DelayHistory list"
  nd_extra :: "(string \<times> internalProxyState) list"

definition defaultHistoriesNum :: nat where "defaultHistoriesNum = 10"

section \<open>The queue of a history\<close>

text \<open>\<open>common/queue\<close>. The zero value is returned where the queue is empty.\<close>

definition queue_Put :: "'a \<Rightarrow> 'a list \<Rightarrow> 'a list" where
  "queue_Put x q = q @ [x]"

definition queue_Pop :: "'a list \<Rightarrow> 'a list" where
  "queue_Pop q = (if q = [] then [] else tl q)"

definition queue_Last :: "'a \<Rightarrow> 'a list \<Rightarrow> 'a" where
  "queue_Last zero q = (if q = [] then zero else last q)"

definition put_history :: "DelayHistory \<Rightarrow> DelayHistory list \<Rightarrow> DelayHistory list" where
  "put_history r q =
     (let q1 = queue_Put r q in if length q1 > defaultHistoriesNum then queue_Pop q1 else q1)"

section \<open>Reading the state\<close>

definition AliveForTestUrl :: "string \<Rightarrow> ProxyNode \<Rightarrow> bool" where
  "AliveForTestUrl url p =
     (case map_of (nd_extra p) url of Some state \<Rightarrow> ip_alive state | None \<Rightarrow> nd_alive p)"

definition LastDelayForTestUrl :: "string \<Rightarrow> ProxyNode \<Rightarrow> 16 word" where
  "LastDelayForTestUrl url p =
     (case map_of (nd_extra p) url of
        None \<Rightarrow> 0xFFFF
      | Some state \<Rightarrow>
          (let history = queue_Last \<lparr>dh_Time = 0, dh_Delay = 0\<rparr> (ip_history state)
           in if \<not> ip_alive state \<or> dh_Delay history = 0 then 0xFFFF else dh_Delay history))"

definition DelayHistoryForTestUrl :: "string \<Rightarrow> ProxyNode \<Rightarrow> DelayHistory list" where
  "DelayHistoryForTestUrl url p =
     (case map_of (nd_extra p) url of Some state \<Rightarrow> ip_history state | None \<Rightarrow> [])"

definition ExtraDelayHistories :: "ProxyNode \<Rightarrow> (string \<times> bool \<times> DelayHistory list) list" where
  "ExtraDelayHistories p = map (\<lambda>(url, st). (url, ip_alive st, ip_history st)) (nd_extra p)"

definition NewProxy :: "string \<Rightarrow> AdapterType \<Rightarrow> bool \<Rightarrow> ProxyNode" where
  "NewProxy name tp udp =
     \<lparr>nd_name = name, nd_type = tp, nd_udp = udp, nd_alive = True, nd_history = [], nd_extra = []\<rparr>"

section \<open>Testing a node\<close>

text \<open>
  \<open>urlToMetadata\<close>: \<open>url.Parse\<close> gives scheme, host name and port; the joined text is taken apart again by
  \<open>SetRemoteAddress\<close>.
\<close>

definition urlToMetadata ::
    "(string \<Rightarrow> (string \<times> string \<times> string) option) \<Rightarrow> (string \<Rightarrow> string \<Rightarrow> string)
     \<Rightarrow> (string \<Rightarrow> (string \<times> string) option) \<Rightarrow> (string \<Rightarrow> Addr option) \<Rightarrow> Metadata \<Rightarrow> string \<Rightarrow> Metadata option" where
  "urlToMetadata parse join splitHostPort parseAddr zero rawURL =
     (case parse rawURL of
        None \<Rightarrow> None
      | Some (scheme, hostname, prt) \<Rightarrow>
          (case (if prt \<noteq> [] then Some prt
                 else if scheme = ''https'' then Some ''443''
                 else if scheme = ''http'' then Some ''80'' else None) of
             None \<Rightarrow> None
           | Some q \<Rightarrow> SetRemoteAddress splitHostPort parseAddr (join hostname q) zero))"

text \<open>
  The outcomes of one test: whether the address, the dial, the request and the TLS configuration
  were good, the status of the first reply and of the second one, where unified delay asks for it,
  and the readings of the clock, in nanoseconds.
\<close>

record url_test =
  ut_addr :: "Metadata option"
  ut_dialed :: bool
  ut_request :: bool
  ut_tls :: bool
  ut_first :: "16 word option"
  ut_second :: "16 word option"
  ut_start :: int
  ut_second_start :: int
  ut_end :: int
  ut_record :: int

definition delay_ms :: "int \<Rightarrow> 16 word" where
  "delay_ms d = word_of_int (d div 1000000)"

text \<open>The record of a test, written when it returns.\<close>

definition record_test :: "string \<Rightarrow> bool \<Rightarrow> bool \<Rightarrow> 16 word \<Rightarrow> int \<Rightarrow> ProxyNode \<Rightarrow> ProxyNode" where
  "record_test url alive satisfied t now p =
     (let r = \<lparr>dh_Time = now, dh_Delay = (if alive then t else 0)\<rparr>;
          state = (case map_of (nd_extra p) url of
                     Some s \<Rightarrow> s | None \<Rightarrow> \<lparr>ip_alive = True, ip_history = []\<rparr>);
          r1 = (if \<not> satisfied then r\<lparr>dh_Delay := 0\<rparr> else r)
      in p\<lparr>nd_alive := alive, nd_history := put_history r (nd_history p),
           nd_extra := AList.update url
             \<lparr>ip_alive = (satisfied \<and> alive), ip_history = put_history r1 (ip_history state)\<rparr> (nd_extra p)\<rparr>)"

definition test_ok :: "url_test \<Rightarrow> bool" where
  "test_ok u = (ut_addr u \<noteq> None \<and> ut_dialed u \<and> ut_request u \<and> ut_tls u \<and> ut_first u \<noteq> None)"

definition node_URLTest ::
    "bool \<Rightarrow> string \<Rightarrow> 16 word int_range list \<Rightarrow> url_test \<Rightarrow> ProxyNode \<Rightarrow> 16 word option \<times> ProxyNode" where
  "node_URLTest unifiedDelay url expectedStatus u p =
     (if \<not> test_ok u then (None, record_test url False False 0 (ut_record u) p)
      else let (status, start) =
             (case (unifiedDelay, ut_second u) of
                (True, Some s) \<Rightarrow> (s, ut_second_start u)
              | _ \<Rightarrow> (the (ut_first u), ut_start u));
           satisfied = ranges_Check expectedStatus status;
           t = delay_ms (ut_end u - start)
         in (Some t, record_test url True satisfied t (ut_record u) p))"

section \<open>What a test leaves\<close>

lemma put_history_bounded: "length q \<le> defaultHistoriesNum \<Longrightarrow> length (put_history r q) \<le> defaultHistoriesNum"
  by (auto simp: put_history_def queue_Put_def queue_Pop_def Let_def)

lemma put_history_last: "put_history r q \<noteq> [] \<and> last (put_history r q) = r"
  by (cases q) (auto simp: put_history_def queue_Put_def queue_Pop_def Let_def defaultHistoriesNum_def)

definition histories_bounded :: "ProxyNode \<Rightarrow> bool" where
  "histories_bounded p = (length (nd_history p) \<le> defaultHistoriesNum \<and>
     (\<forall>e \<in> set (nd_extra p). length (ip_history (snd e)) \<le> defaultHistoriesNum))"

lemma map_of_update: "map_of (AList.update k v al) k' = (if k' = k then Some v else map_of al k')"
  by (simp add: update_conv')

text \<open>
  After a test the node is alive for its address exactly when a reply with an expected status came,
  and its delay there is the measured one, or the largest number where it is dead or took less than
  a millisecond. The other addresses are as before, and no history grows beyond ten entries.
\<close>

lemma record_test_extra:
  "map_of (nd_extra (record_test url alive sat t now p)) url' =
     (if url' = url
      then Some \<lparr>ip_alive = (sat \<and> alive), ip_history = put_history
             \<lparr>dh_Time = now, dh_Delay = (if sat \<and> alive then t else 0)\<rparr>
             (case map_of (nd_extra p) url of Some s \<Rightarrow> ip_history s | None \<Rightarrow> [])\<rparr>
      else map_of (nd_extra p) url')"
  by (simp add: record_test_def Let_def map_of_update split: option.split)

lemma set_update_subset: "set (AList.update k v al) \<subseteq> insert (k, v) (set al)"
  by (induction al) auto

lemma record_test_bounded:
  assumes "histories_bounded p"
  shows "histories_bounded (record_test url alive sat t now p)"
proof -
  have "length (case map_of (nd_extra p) url of Some s \<Rightarrow> ip_history s | None \<Rightarrow> []) \<le> defaultHistoriesNum"
    using assms by (force simp: histories_bounded_def dest: map_of_SomeD split: option.split)
  note h = put_history_bounded [OF this]
  have "length (ip_history (snd e)) \<le> defaultHistoriesNum"
    if "e \<in> set (AList.update url s (nd_extra p))" "length (ip_history s) \<le> defaultHistoriesNum" for e s
    using set_update_subset [of url s "nd_extra p"] that assms by (auto simp: histories_bounded_def)
  with h put_history_bounded [of "nd_history p"] assms show ?thesis
    by (auto simp: record_test_def histories_bounded_def Let_def split: option.splits)
qed

lemma test_recorded:
  assumes "node_URLTest unified url st u p = (res, p')"
  shows "AliveForTestUrl url p' \<longleftrightarrow> test_ok u \<and>
      ranges_Check st (if unified \<and> ut_second u \<noteq> None then the (ut_second u) else the (ut_first u))"
    and "LastDelayForTestUrl url p' =
      (case res of Some t \<Rightarrow> if AliveForTestUrl url p' \<and> t \<noteq> 0 then t else 0xFFFF | None \<Rightarrow> 0xFFFF)"
    and "url' \<noteq> url \<Longrightarrow> map_of (nd_extra p') url' = map_of (nd_extra p) url'"
    and "histories_bounded p \<Longrightarrow> histories_bounded p'"
proof -
  obtain alive sat t where p': "p' = record_test url alive sat t (ut_record u) p"
    and r: "alive = test_ok u" "res = (if alive then Some t else None)" "sat \<longrightarrow> alive"
      "alive \<longrightarrow> sat = ranges_Check st (if unified \<and> ut_second u \<noteq> None then the (ut_second u) else the (ut_first u))"
    using assms by (cases "test_ok u"; cases unified; cases "ut_second u") (auto simp: node_URLTest_def Let_def)
  show "AliveForTestUrl url p' \<longleftrightarrow> test_ok u \<and>
      ranges_Check st (if unified \<and> ut_second u \<noteq> None then the (ut_second u) else the (ut_first u))"
    using r by (auto simp: p' AliveForTestUrl_def record_test_extra)
  show "LastDelayForTestUrl url p' =
      (case res of Some t \<Rightarrow> if AliveForTestUrl url p' \<and> t \<noteq> 0 then t else 0xFFFF | None \<Rightarrow> 0xFFFF)"
    using r by (auto simp: p' AliveForTestUrl_def LastDelayForTestUrl_def record_test_extra queue_Last_def
        put_history_last Let_def)
  show "url' \<noteq> url \<Longrightarrow> map_of (nd_extra p') url' = map_of (nd_extra p) url'"
    by (simp add: p' record_test_extra)
  show "histories_bounded p \<Longrightarrow> histories_bounded p'" by (simp add: p' record_test_bounded)
qed

text \<open>A node that answers within a millisecond has the worst delay of all.\<close>

lemma instant_answer_is_worst:
  assumes "node_URLTest False url st u p = (Some t, p')" and "ut_end u - ut_start u \<in> {0..<1000000}"
  shows "LastDelayForTestUrl url p' = 0xFFFF"
proof -
  have "t = 0" using assms by (auto simp: node_URLTest_def Let_def delay_ms_def split: if_splits)
  with test_recorded(2) [OF assms(1)] show ?thesis by simp
qed

end
