(* ===== verification/JumpHash.thy ===== *)
theory JumpHash
  imports NetAddr "HOL-Library.Log_Nat"
begin

text \<open>
  The jump hash of the load-balancing groups (\<open>jumpHash\<close> in \<open>adapter/outboundgroup/loadbalance.go\<close>).
  It computes with \<open>float64\<close>. Every number that occurs is at least 1 and below 2 to the 63, so a
  float is a rational number with a mantissa of 53 bits, and an operation is the exact one followed
  by rounding to the nearest float, ties to even.
\<close>

section \<open>Floating point\<close>

definition round_even :: "rat \<Rightarrow> int" where
  "round_even y =
     (let f = \<lfloor>y\<rfloor>; d = y - of_int f
      in if d < 1 / 2 then f else if d > 1 / 2 then f + 1 else if even f then f else f + 1)"

definition float64 :: "rat \<Rightarrow> rat" where
  "float64 x =
     (let bits = floorlog 2 (nat \<lfloor>x\<rfloor>)
      in if 53 \<le> bits then of_int (round_even (x / 2 ^ (bits - 53))) * 2 ^ (bits - 53)
         else of_int (round_even (x * 2 ^ (53 - bits))) / 2 ^ (53 - bits))"

lemma round_even_ge: "of_int n \<le> y \<Longrightarrow> n \<le> round_even y"
proof -
  assume "of_int n \<le> y"
  then have "n \<le> \<lfloor>y\<rfloor>" by (simp add: le_floor_iff)
  then show ?thesis by (simp add: round_even_def Let_def)
qed

text \<open>Rounding does not go below a whole number that is itself a float.\<close>

lemma float64_ge:
  assumes "of_nat n \<le> x" and "n \<le> 2 ^ 53" and "1 \<le> x"
  shows "of_nat n \<le> float64 x"
proof -
  define bits where "bits = floorlog 2 (nat \<lfloor>x\<rfloor>)"
  show ?thesis
  proof (cases "53 \<le> bits")
    case False
    have "of_int (int n * 2 ^ (53 - bits)) \<le> x * 2 ^ (53 - bits)" using assms(1) by simp
    from round_even_ge [OF this] have "of_int (int n * 2 ^ (53 - bits)) \<le> (of_int (round_even (x * 2 ^ (53 - bits))) :: rat)"
      by (simp only: of_int_le_iff)
    with False show ?thesis by (simp add: float64_def Let_def bits_def [symmetric] pos_le_divide_eq)
  next
    case True
    have fl: "float64 x = of_int (round_even (x / 2 ^ (bits - 53))) * 2 ^ (bits - 53)"
      using True by (simp add: float64_def Let_def bits_def [symmetric])
    have m: "0 < nat \<lfloor>x\<rfloor>" using assms(3) by (simp add: le_floor_iff)
    have "2 ^ (bits - 1) \<le> nat \<lfloor>x\<rfloor>" using floorlog_bounds [OF m, of 2] by (simp add: bits_def)
    then have "int (2 ^ (bits - 1)) \<le> \<lfloor>x\<rfloor>" using m by (simp add: le_nat_iff)
    then have low: "(2 :: rat) ^ (bits - 1) \<le> x" by (simp add: le_floor_iff)
    have "bits - 1 = 52 + (bits - 53)" using True by simp
    then have "(2 :: rat) ^ (bits - 1) = 2 ^ 52 * 2 ^ (bits - 53)" by (simp only: power_add)
    with low have "(2 :: rat) ^ 52 * 2 ^ (bits - 53) \<le> x" by simp
    then have "(2 :: rat) ^ 52 \<le> x / 2 ^ (bits - 53)" by (subst pos_le_divide_eq) simp_all
    then have "of_int (2 ^ 52) \<le> x / 2 ^ (bits - 53)" by simp
    from round_even_ge [OF this]
    have r: "(of_int (2 ^ 52) :: rat) \<le> of_int (round_even (x / 2 ^ (bits - 53)))" by (simp only: of_int_le_iff)
    show ?thesis
    proof (cases "bits = 53")
      case True
      have "of_int (int n) \<le> x / 2 ^ (bits - 53)" using assms(1) True by simp
      from round_even_ge [OF this] show ?thesis unfolding fl True by simp
    next
      case False
      have "(of_nat n :: rat) \<le> of_nat (2 ^ 53)" using assms(2) by (simp only: of_nat_le_iff)
      also have "\<dots> \<le> of_int (2 ^ 52) * 2 ^ (bits - 53)"
      proof -
        have "(2 :: rat) ^ 1 \<le> 2 ^ (bits - 53)" using True False by (intro power_increasing) auto
        then show ?thesis by simp
      qed
      also have "\<dots> \<le> float64 x" unfolding fl using r by (intro mult_right_mono) simp_all
      finally show ?thesis .
    qed
  qed
qed

section \<open>The hash\<close>

definition jump_next :: "nat \<Rightarrow> 64 word \<Rightarrow> nat" where
  "jump_next b key =
     nat \<lfloor>float64 (of_nat (b + 1) * float64 (2 ^ 31 / of_nat (unat (drop_bit 33 key) + 1)))\<rfloor>"

lemma jump_next_above:
  assumes "b < 2 ^ 31"
  shows "b < jump_next b key"
proof -
  let ?k = "unat (drop_bit 33 key) + 1"
  have "unat (drop_bit 33 key) = unat key div 2 ^ 33"
    by (rule trans [OF unat_drop_bit_eq drop_bit_eq_div])
  moreover have "unat key < 2 ^ 64" using unsigned_less [of key, where ?'a = nat] by simp
  ultimately have "unat (drop_bit 33 key) < 2 ^ 31" by simp
  then have "(of_nat ?k :: rat) \<le> of_nat (2 ^ 31)" by (simp only: of_nat_le_iff)
  then have "1 * (of_nat ?k :: rat) \<le> 2 ^ 31" by simp
  moreover have "0 < (of_nat ?k :: rat)" by (simp only: of_nat_0_less_iff)
  ultimately have "(1 :: rat) \<le> 2 ^ 31 / of_nat ?k" by (subst pos_le_divide_eq)
  then have one: "1 \<le> float64 (2 ^ 31 / of_nat ?k)" using float64_ge [of 1] by simp
  have m: "(of_nat (b + 1) :: rat) * 1 \<le> of_nat (b + 1) * float64 (2 ^ 31 / of_nat ?k)"
    by (rule mult_left_mono [OF one]) simp
  have "(1 :: rat) \<le> of_nat (b + 1) * 1" by simp
  with m have "(1 :: rat) \<le> of_nat (b + 1) * float64 (2 ^ 31 / of_nat ?k)" by (rule order_trans [rotated])
  with m assms have "of_nat (b + 1) \<le> float64 (of_nat (b + 1) * float64 (2 ^ 31 / of_nat ?k))"
    by (intro float64_ge) simp_all
  then have "int (b + 1) \<le> \<lfloor>float64 (of_nat (b + 1) * float64 (2 ^ 31 / of_nat ?k))\<rfloor>"
    by (simp add: le_floor_iff)
  then show ?thesis by (simp add: jump_next_def)
qed

lemma sint_32_less: "sint (n :: 32 word) < 2 ^ 31"
  using sint_lt [of n] by simp

function jump_loop :: "64 word \<Rightarrow> nat \<Rightarrow> nat \<Rightarrow> 32 word \<Rightarrow> nat" where
  "jump_loop key b j buckets =
     (if int j < sint buckets then
        (let key1 = key * 2862933555777941757 + 1 in jump_loop key1 j (jump_next j key1) buckets)
      else b)"
  by pat_completeness auto

termination
proof (relation "measure (\<lambda>(key, b, j, buckets). nat (sint buckets) - j)")
  fix key key1 :: "64 word" and b j :: nat and buckets :: "32 word"
  assume j: "int j < sint buckets"
  then have "j < 2 ^ 31" using sint_32_less [of buckets] by simp
  with jump_next_above [of j key1] j
  show "((key1, j, jump_next j key1, buckets), key, b, j, buckets)
      \<in> measure (\<lambda>(key, b, j, buckets). nat (sint buckets) - j)"
    by simp
qed simp

declare jump_loop.simps [simp del]

definition jumpHash :: "64 word \<Rightarrow> 32 word \<Rightarrow> 32 word" where
  "jumpHash key buckets = word_of_nat (jump_loop key 0 0 buckets)"

lemma jump_loop_less: "int b < sint n \<Longrightarrow> int (jump_loop key b j n) < sint n"
  by (induction key b j n rule: jump_loop.induct) (subst jump_loop.simps, simp add: Let_def)

lemma sint_small: "int b < 2 ^ 31 \<Longrightarrow> sint (word_of_nat b :: 32 word) = int b"
  by (simp add: sint_uint unat_of_nat uint_nat signed_take_bit_int_eq_self)

lemma jumpHash_value: "0 < sint n \<Longrightarrow> sint (jumpHash key n) = int (jump_loop key 0 0 n)"
  using jump_loop_less [of 0 n key 0] sint_32_less [of n] by (simp add: jumpHash_def sint_small)

lemma jumpHash_range: "0 < sint n \<Longrightarrow> 0 \<le> sint (jumpHash key n) \<and> sint (jumpHash key n) < sint n"
  using jump_loop_less [of 0 n key 0] by (simp add: jumpHash_value)

text \<open>With one bucket more a key stays where it is or goes to the new bucket.\<close>

lemma jump_loop_next:
  assumes "sint n' = sint n + 1" and "0 \<le> sint n"
  shows "jump_loop key b j n' = jump_loop key b j n \<or> int (jump_loop key b j n') = sint n"
  using assms
proof (induction key b j n rule: jump_loop.induct)
  case (1 key b j n)
  show ?case
  proof (cases "int j < sint n")
    case True
    have g: "int j < sint n'" using True "1.prems"(1) by linarith
    let ?k = "key * 2862933555777941757 + 1"
    have "jump_loop key b j n' = jump_loop ?k j (jump_next j ?k) n'"
      "jump_loop key b j n = jump_loop ?k j (jump_next j ?k) n"
      using jump_loop.simps [of key b j n'] jump_loop.simps [of key b j n]
      by (simp_all only: True g if_True Let_def)
    with "1.IH" [OF True refl] "1.prems" show ?thesis by simp
  next
    case False
    then have stay: "jump_loop key b j n = b" by (subst jump_loop.simps) simp
    show ?thesis
    proof (cases "int j = sint n")
      case True
      let ?k = "key * 2862933555777941757 + 1"
      have "j < 2 ^ 31" using True sint_32_less [of n] by simp
      from jump_next_above [OF this, of ?k] have "\<not> int (jump_next j ?k) < sint n'"
        using True "1.prems"(1) by simp
      then have "jump_loop ?k j (jump_next j ?k) n' = j" by (subst jump_loop.simps) simp
      then have "jump_loop key b j n' = j"
        using True "1.prems"(1) jump_loop.simps [of key b j n'] by (simp add: Let_def)
      with True show ?thesis by simp
    next
      case neq: False
      with False "1.prems"(1) have "jump_loop key b j n' = b" by (subst jump_loop.simps) simp
      with stay show ?thesis by simp
    qed
  qed
qed

lemma jumpHash_next:
  assumes "0 < sint n" and "sint (n + 1) = sint n + 1"
  shows "jumpHash key (n + 1) = jumpHash key n \<or> jumpHash key (n + 1) = n"
proof -
  have "sint (jumpHash key (n + 1)) = sint (jumpHash key n) \<or> sint (jumpHash key (n + 1)) = sint n"
    using jump_loop_next [OF assms(2), of key 0 0] assms jumpHash_value [of n key] jumpHash_value [of "n + 1" key]
    by auto
  then show ?thesis by (metis signed_word_eqI)
qed


end
