(* ===== verification/OutboundGroup.thy ===== *)
theory OutboundGroup
  imports NodeState JumpHash Lru
begin

text \<open>
  The groups of nodes (\<open>adapter/outboundgroup\<close>): a selector, a fallback, the fastest node, and load
  balancing. Nodes and providers are shared between groups, so they live in a store and a group
  holds references. \<open>GetProxies\<close> filters the nodes of its providers and remembers the result; each kind
  of group chooses one of them. The connections themselves, the goroutines that run health checks
  and the texts for JSON are left out.
\<close>

section \<open>Nodes and providers\<close>

record provider =
  pv_version :: "32 word"
  pv_compatible :: bool
  pv_proxies :: "nat list"
  pv_healthCheckURL :: string
  pv_lastTouch :: int

record group_store =
  gs_nodes :: "nat \<Rightarrow> ProxyNode"
  gs_providers :: "nat \<Rightarrow> provider"

definition node_name :: "group_store \<Rightarrow> nat \<Rightarrow> string" where
  "node_name S p = nd_name (gs_nodes S p)"

definition alive :: "group_store \<Rightarrow> string \<Rightarrow> nat \<Rightarrow> bool" where
  "alive S url p = AliveForTestUrl url (gs_nodes S p)"

definition delay :: "group_store \<Rightarrow> string \<Rightarrow> nat \<Rightarrow> 16 word" where
  "delay S url p = LastDelayForTestUrl url (gs_nodes S p)"

fun adapter_String :: "AdapterType \<Rightarrow> string" where
  "adapter_String AtDirect = ''Direct''"
| "adapter_String AtReject = ''Reject''"
| "adapter_String AtRejectDrop = ''RejectDrop''"
| "adapter_String AtCompatible = ''Compatible''"
| "adapter_String AtPass = ''Pass''"
| "adapter_String AtPassRule = ''PassRule''"
| "adapter_String AtRematch = ''Rematch''"
| "adapter_String AtDns = ''Dns''"
| "adapter_String AtShadowsocks = ''Shadowsocks''"
| "adapter_String AtShadowsocksR = ''ShadowsocksR''"
| "adapter_String AtSnell = ''Snell''"
| "adapter_String AtSocks5 = ''Socks5''"
| "adapter_String AtHttp = ''Http''"
| "adapter_String AtVmess = ''Vmess''"
| "adapter_String AtVless = ''Vless''"
| "adapter_String AtTrojan = ''Trojan''"
| "adapter_String AtHysteria = ''Hysteria''"
| "adapter_String AtHysteria2 = ''Hysteria2''"
| "adapter_String AtWireGuard = ''WireGuard''"
| "adapter_String AtTuic = ''Tuic''"
| "adapter_String AtSsh = ''Ssh''"
| "adapter_String AtMieru = ''Mieru''"
| "adapter_String AtAnyTLS = ''AnyTLS''"
| "adapter_String AtSudoku = ''Sudoku''"
| "adapter_String AtMasque = ''Masque''"
| "adapter_String AtTrustTunnel = ''TrustTunnel''"
| "adapter_String AtShadowQuic = ''ShadowQuic''"
| "adapter_String AtOpenVPN = ''OpenVPN''"
| "adapter_String AtTailscale = ''Tailscale''"
| "adapter_String AtZeroTier = ''ZeroTier''"
| "adapter_String AtEasyTier = ''EasyTier''"
| "adapter_String AtGostRelay = ''GostRelay''"
| "adapter_String AtRelay = ''Relay''"
| "adapter_String AtSelector = ''Selector''"
| "adapter_String AtFallback = ''Fallback''"
| "adapter_String AtURLTest = ''URLTest''"
| "adapter_String AtLoadBalance = ''LoadBalance''"

section \<open>What all groups share\<close>

text \<open>
  A regular expression is its test on a name. \<open>gb_excludeType\<close> is \<open>None\<close> for the nil slice, \<open>gb_versions\<close>
  and \<open>gb_proxies\<close> are what \<open>GetProxies\<close> remembers.
\<close>

record GroupBase =
  gb_name :: string
  gb_type :: AdapterType
  gb_filterRegs :: "(string \<Rightarrow> bool) list"
  gb_excludeFilterRegs :: "(string \<Rightarrow> bool) list"
  gb_excludeType :: "string list option"
  gb_providers :: "nat list"
  gb_failedTimes :: int
  gb_failedTime :: int
  gb_failedTesting :: bool
  gb_testTimeout :: int
  gb_maxFailedTimes :: int
  gb_emptyFallback :: nat
  gb_versions :: "32 word list"
  gb_proxies :: "nat list"

definition regs_of :: "(string \<Rightarrow> string \<Rightarrow> bool) \<Rightarrow> string \<Rightarrow> (string \<Rightarrow> bool) list" where
  "regs_of regexp s = (if s = [] then [] else map regexp (split_on (CHR ''`'') s))"

definition NewGroupBase ::
    "(string \<Rightarrow> string \<Rightarrow> bool) \<Rightarrow> string \<Rightarrow> AdapterType \<Rightarrow> string \<Rightarrow> string \<Rightarrow> string \<Rightarrow> int \<Rightarrow> int \<Rightarrow> nat
     \<Rightarrow> nat list \<Rightarrow> GroupBase" where
  "NewGroupBase regexp name tp flt excludeFilter excludeType testTimeout maxFailedTimes emptyFallback provs =
     \<lparr>gb_name = name, gb_type = tp, gb_filterRegs = regs_of regexp flt,
      gb_excludeFilterRegs = regs_of regexp excludeFilter,
      gb_excludeType = (if excludeType = [] then None else Some (split_on (CHR ''|'') excludeType)),
      gb_providers = provs, gb_failedTimes = 0, gb_failedTime = 0, gb_failedTesting = False,
      gb_testTimeout = (if testTimeout = 0 then 5000 else testTimeout),
      gb_maxFailedTimes = (if maxFailedTimes = 0 then 5 else maxFailedTimes),
      gb_emptyFallback = emptyFallback, gb_versions = [], gb_proxies = []\<rparr>"

definition group_Touch :: "int \<Rightarrow> GroupBase \<Rightarrow> group_store \<Rightarrow> group_store" where
  "group_Touch now g S =
     S\<lparr>gs_providers := (\<lambda>i. if i \<in> set (gb_providers g) then (gs_providers S i)\<lparr>pv_lastTouch := now\<rparr>
                             else gs_providers S i)\<rparr>"

text \<open>
  The nodes the expressions match, expression by expression, each name once; \<open>seen\<close> is the set of names
  taken so far.
\<close>

definition pick_one :: "group_store \<Rightarrow> (string \<Rightarrow> bool) \<Rightarrow> nat \<Rightarrow> nat list \<times> string list \<Rightarrow> nat list \<times> string list" where
  "pick_one S reg p acc =
     (let name = node_name S p
      in if reg name \<and> name \<notin> set (snd acc) then (fst acc @ [p], name # snd acc) else acc)"

definition pick_matching ::
    "group_store \<Rightarrow> (string \<Rightarrow> bool) list \<Rightarrow> nat list \<Rightarrow> nat list \<times> string list" where
  "pick_matching S regs ps = fold (\<lambda>reg acc. fold (pick_one S reg) ps acc) regs ([], [])"

definition filtered :: "group_store \<Rightarrow> GroupBase \<Rightarrow> nat list" where
  "filtered S g =
     concat (map (\<lambda>i. let pd = gs_providers S i
        in if gb_filterRegs g = [] \<or> pv_compatible pd then pv_proxies pd
           else fst (pick_matching S (gb_filterRegs g) (pv_proxies pd))) (gb_providers g))"

text \<open>With several providers and several expressions the whole list is put in the order of the expressions.\<close>

definition reordered :: "group_store \<Rightarrow> GroupBase \<Rightarrow> nat list \<Rightarrow> nat list" where
  "reordered S g ps =
     (if length (gb_providers g) > 1 \<and> length (gb_filterRegs g) > 1
      then fst (fold (pick_one S (\<lambda>_. True)) ps (pick_matching S (gb_filterRegs g) ps))
      else ps)"

definition excluded :: "rule_ext \<Rightarrow> group_store \<Rightarrow> GroupBase \<Rightarrow> nat \<Rightarrow> bool" where
  "excluded X S g p =
     ((\<exists>reg \<in> set (gb_excludeFilterRegs g). reg (node_name S p)) \<or>
      (case gb_excludeType g of
         None \<Rightarrow> False
       | Some ts \<Rightarrow> \<exists>t \<in> set ts. EqualFold X (adapter_String (nd_type (gs_nodes S p))) t))"

definition members :: "rule_ext \<Rightarrow> group_store \<Rightarrow> GroupBase \<Rightarrow> nat list" where
  "members X S g = filter (\<lambda>p. \<not> excluded X S g p) (reordered S g (filtered S g))"

definition versions_of :: "group_store \<Rightarrow> GroupBase \<Rightarrow> 32 word list" where
  "versions_of S g = map (\<lambda>i. pv_version (gs_providers S i)) (gb_providers g)"

definition GetProxies :: "rule_ext \<Rightarrow> group_store \<Rightarrow> GroupBase \<Rightarrow> nat list \<times> GroupBase" where
  "GetProxies X S g =
     (if versions_of S g = gb_versions g then (gb_proxies g, g)
      else let ps = members X S g
        in if ps = [] then ([gb_emptyFallback g], g)
           else (ps, g\<lparr>gb_versions := versions_of S g, gb_proxies := ps\<rparr>))"

section \<open>Failures\<close>

text \<open>
  \<open>onDialFailed\<close>: the answer tells whether the health check \<open>fn\<close> is run. \<open>refused\<close>: the text of the error
  contains \<open>connection refused\<close>.
\<close>

definition onDialFailed ::
    "AdapterType \<Rightarrow> bool \<Rightarrow> bool \<Rightarrow> int \<Rightarrow> GroupBase \<Rightarrow> bool \<times> GroupBase" where
  "onDialFailed tp notSupport refused now g =
     (if tp \<in> {AtDirect, AtCompatible, AtReject, AtPass, AtRejectDrop} \<or> notSupport then (False, g)
      else if refused then (True, g)
      else let g1 = g\<lparr>gb_failedTimes := gb_failedTimes g + 1\<rparr>
        in if gb_failedTimes g1 = 1 then (False, g1\<lparr>gb_failedTime := now\<rparr>)
           else if time_sub now (gb_failedTime g1) > gb_testTimeout g1 * 1000000
           then (False, g1\<lparr>gb_failedTimes := 0\<rparr>)
           else (gb_failedTimes g1 \<ge> gb_maxFailedTimes g1, g1))"

text \<open>A health check begins unless one is under way, and ends when every provider has answered.\<close>

definition healthCheck_start :: "GroupBase \<Rightarrow> bool \<times> GroupBase" where
  "healthCheck_start g =
     (if gb_failedTesting g then (False, g) else (True, g\<lparr>gb_failedTesting := True\<rparr>))"

definition healthCheck_end :: "GroupBase \<Rightarrow> GroupBase" where
  "healthCheck_end g = g\<lparr>gb_failedTesting := False, gb_failedTimes := 0\<rparr>"

definition onDialSuccess :: "GroupBase \<Rightarrow> GroupBase" where
  "onDialSuccess g = (if \<not> gb_failedTesting g then g\<lparr>gb_failedTimes := 0\<rparr> else g)"

section \<open>Selector\<close>

record Selector =
  sl_base :: GroupBase
  sl_disableUDP :: bool
  sl_selected :: string
  sl_testUrl :: string

text \<open>The node at the head of an empty list is an index out of range: \<open>None\<close>.\<close>

definition selectedProxy :: "rule_ext \<Rightarrow> group_store \<Rightarrow> Selector \<Rightarrow> nat option \<times> Selector" where
  "selectedProxy X S s =
     (let (ps, g) = GetProxies X S (sl_base s); s1 = s\<lparr>sl_base := g\<rparr>
      in (case find (\<lambda>p. node_name S p = sl_selected s) ps of
            Some p \<Rightarrow> Some p
          | None \<Rightarrow> if ps = [] then None else Some (hd ps), s1))"

definition sl_Set :: "rule_ext \<Rightarrow> group_store \<Rightarrow> string \<Rightarrow> Selector \<Rightarrow> bool \<times> Selector" where
  "sl_Set X S name s =
     (let (ps, g) = GetProxies X S (sl_base s); s1 = s\<lparr>sl_base := g\<rparr>
      in if \<exists>p \<in> set ps. node_name S p = name then (True, s1\<lparr>sl_selected := name\<rparr>) else (False, s1))"

definition sl_ForceSet :: "string \<Rightarrow> Selector \<Rightarrow> Selector" where
  "sl_ForceSet name s = s\<lparr>sl_selected := name\<rparr>"

definition sl_SupportUDP :: "rule_ext \<Rightarrow> group_store \<Rightarrow> Selector \<Rightarrow> bool option \<times> Selector" where
  "sl_SupportUDP X S s =
     (if sl_disableUDP s then (Some False, s)
      else let (p, s1) = selectedProxy X S s in (map_option (\<lambda>p. nd_udp (gs_nodes S p)) p, s1))"

section \<open>Fallback\<close>

record Fallback =
  fb_base :: GroupBase
  fb_disableUDP :: bool
  fb_testUrl :: string
  fb_selected :: string
  fb_expectedStatus :: string

text \<open>The loop of \<open>findAliveProxy\<close>, which may forget the selected node on its way.\<close>

fun find_alive :: "group_store \<Rightarrow> string \<Rightarrow> nat list \<Rightarrow> string \<Rightarrow> nat option \<times> string" where
  "find_alive S url [] selected = (None, selected)"
| "find_alive S url (p # ps) selected =
     (if selected = [] then
        (if alive S url p then (Some p, selected) else find_alive S url ps selected)
      else if node_name S p = selected then
        (if alive S url p then (Some p, selected) else find_alive S url ps [])
      else find_alive S url ps selected)"

definition findAliveProxy :: "rule_ext \<Rightarrow> group_store \<Rightarrow> Fallback \<Rightarrow> nat option \<times> Fallback" where
  "findAliveProxy X S f =
     (let (ps, g) = GetProxies X S (fb_base f);
          (found, sel) = find_alive S (fb_testUrl f) ps (fb_selected f)
      in (case found of Some p \<Rightarrow> Some p | None \<Rightarrow> if ps = [] then None else Some (hd ps),
          f\<lparr>fb_base := g, fb_selected := sel\<rparr>))"

text \<open>\<open>Set\<close>: whether the node exists, and the node to be tested, if it is dead.\<close>

definition fb_Set :: "rule_ext \<Rightarrow> group_store \<Rightarrow> string \<Rightarrow> Fallback \<Rightarrow> (bool \<times> nat option) \<times> Fallback" where
  "fb_Set X S name f =
     (let (ps, g) = GetProxies X S (fb_base f); f1 = f\<lparr>fb_base := g\<rparr>
      in case find (\<lambda>p. node_name S p = name) ps of
           None \<Rightarrow> ((False, None), f1)
         | Some p \<Rightarrow> ((True, if \<not> alive S (fb_testUrl f) p then Some p else None), f1\<lparr>fb_selected := name\<rparr>))"

definition fb_ForceSet :: "string \<Rightarrow> Fallback \<Rightarrow> Fallback" where
  "fb_ForceSet name f = f\<lparr>fb_selected := name\<rparr>"

definition fb_SupportUDP :: "rule_ext \<Rightarrow> group_store \<Rightarrow> Fallback \<Rightarrow> bool option \<times> Fallback" where
  "fb_SupportUDP X S f =
     (if fb_disableUDP f then (Some False, f)
      else let (p, f1) = findAliveProxy X S f in (map_option (\<lambda>p. nd_udp (gs_nodes S p)) p, f1))"

section \<open>The fastest node\<close>

text \<open>\<open>ur_result\<close> is the remembered result of \<open>fastSingle\<close> (\<open>common/singledo\<close>) with its time.\<close>

record URLTest =
  ur_base :: GroupBase
  ur_selected :: string
  ur_testUrl :: string
  ur_expectedStatus :: string
  ur_tolerance :: "16 word"
  ur_disableUDP :: bool
  ur_fastNode :: "nat option"
  ur_result :: "(nat option \<times> int) option"

fun fastest :: "group_store \<Rightarrow> string \<Rightarrow> nat list \<Rightarrow> nat \<times> 16 word \<Rightarrow> nat \<times> 16 word" where
  "fastest S url [] best = best"
| "fastest S url (p # ps) best =
     fastest S url ps
       (if alive S url p \<and> delay S url p < snd best then (p, delay S url p) else best)"

definition choose_fast :: "group_store \<Rightarrow> URLTest \<Rightarrow> nat list \<Rightarrow> nat option" where
  "choose_fast S u ps =
     (let url = ur_testUrl u;
          sel = (if ur_selected u = [] then None
                 else find (\<lambda>p. alive S url p \<and> node_name S p = ur_selected u) ps)
      in case sel of
           Some p \<Rightarrow> Some p
         | None \<Rightarrow>
             (case ps of
                [] \<Rightarrow> None
              | p0 # rest \<Rightarrow>
                  (let fast = fst (fastest S url rest (p0, delay S url p0))
                   in case ur_fastNode u of
                        None \<Rightarrow> Some fast
                      | Some n \<Rightarrow>
                          if \<not> (\<exists>p \<in> set rest. node_name S p = node_name S n) \<or> \<not> alive S url n \<or>
                             delay S url n > delay S url fast + ur_tolerance u
                          then Some fast else Some n)))"

definition ur_fast :: "rule_ext \<Rightarrow> group_store \<Rightarrow> int \<Rightarrow> URLTest \<Rightarrow> nat option \<times> URLTest" where
  "ur_fast X S now u =
     (case ur_result u of
        Some (v, t) \<Rightarrow>
          if time_sub now t < 10 * 1000000000 then (v, u)
          else let (ps, g) = GetProxies X S (ur_base u); n = choose_fast S u ps
            in (n, u\<lparr>ur_base := g, ur_fastNode := n, ur_result := Some (n, now)\<rparr>)
      | None \<Rightarrow>
          let (ps, g) = GetProxies X S (ur_base u); n = choose_fast S u ps
          in (n, u\<lparr>ur_base := g, ur_fastNode := n, ur_result := Some (n, now)\<rparr>))"

definition ur_ForceSet :: "string \<Rightarrow> URLTest \<Rightarrow> URLTest" where
  "ur_ForceSet name u = u\<lparr>ur_selected := name, ur_result := None\<rparr>"

definition ur_Set :: "rule_ext \<Rightarrow> group_store \<Rightarrow> string \<Rightarrow> URLTest \<Rightarrow> bool \<times> URLTest" where
  "ur_Set X S name u =
     (let (ps, g) = GetProxies X S (ur_base u); u1 = u\<lparr>ur_base := g\<rparr>
      in if \<exists>p \<in> set ps. node_name S p = name then (True, ur_ForceSet name u1) else (False, u1))"

definition ur_SupportUDP :: "rule_ext \<Rightarrow> group_store \<Rightarrow> int \<Rightarrow> URLTest \<Rightarrow> bool option \<times> URLTest" where
  "ur_SupportUDP X S now u =
     (if ur_disableUDP u then (Some False, u)
      else let (p, u1) = ur_fast X S now u in (map_option (\<lambda>p. nd_udp (gs_nodes S p)) p, u1))"

end
