(* ===== verification/GroupParse.thy ===== *)
theory GroupParse
  imports OutboundGroup
begin

text \<open>
  Load balancing with its three strategies (\<open>loadbalance.go\<close>) and the parser of groups (\<open>parser.go\<close>).
  Decoding the map of a group into its options is a library's; the options are given here. The
  health check of a new provider is its test address; the tests a group registers with the
  providers it uses are listed.
\<close>

section \<open>Load balancing\<close>

text \<open>
  The name a connection is balanced by: the address text, the registrable domain, or the text of the
  address. \<open>isIP\<close>, \<open>etld\<close> and \<open>addrText\<close> are \<open>net.ParseIP\<close>, the public suffix list and the text of \<open>netip\<close>;
  the hash of the text, with a seed drawn at the start, is an argument too.
\<close>

record balance_ext =
  bx_isIP :: "string \<Rightarrow> bool"
  bx_etld :: "string \<Rightarrow> string option"
  bx_addrText :: "Addr \<Rightarrow> string"
  bx_MapHash :: "string \<Rightarrow> 64 word"

definition getKey :: "balance_ext \<Rightarrow> Metadata option \<Rightarrow> string" where
  "getKey B metadata =
     (case metadata of
        None \<Rightarrow> []
      | Some m \<Rightarrow>
          (if md_Host m \<noteq> [] \<and> bx_isIP B (md_Host m) then md_Host m
           else (case (if md_Host m \<noteq> [] then bx_etld B (md_Host m) else None) of
                   Some e \<Rightarrow> e
                 | None \<Rightarrow> if \<not> IsValid (md_DstIP m) then [] else bx_addrText B (md_DstIP m))))"

definition getKeyWithSrcAndDst :: "balance_ext \<Rightarrow> Metadata option \<Rightarrow> string" where
  "getKeyWithSrcAndDst B metadata =
     (case metadata of None \<Rightarrow> [] | Some m \<Rightarrow> bx_addrText B (md_SrcIP m)) @ getKey B metadata"

definition bucket :: "64 word \<Rightarrow> nat list \<Rightarrow> nat" where
  "bucket key ps = nat (sint (jumpHash key (word_of_nat (length ps))))"

fun hash_tries :: "group_store \<Rightarrow> string \<Rightarrow> nat list \<Rightarrow> nat \<Rightarrow> 64 word \<Rightarrow> nat option" where
  "hash_tries S url ps 0 key = None"
| "hash_tries S url ps (Suc k) key =
     (let p = ps ! bucket key ps in if alive S url p then Some p else hash_tries S url ps k (key + 1))"

definition strategyConsistentHashing :: "group_store \<Rightarrow> string \<Rightarrow> nat list \<Rightarrow> 64 word \<Rightarrow> nat option" where
  "strategyConsistentHashing S url ps key =
     (if ps = [] then None
      else (case hash_tries S url ps 5 key of
              Some p \<Rightarrow> Some p
            | None \<Rightarrow> (case find (alive S url) ps of Some p \<Rightarrow> Some p | None \<Rightarrow> Some (hd ps))))"

definition strategyRoundRobin ::
    "group_store \<Rightarrow> string \<Rightarrow> nat list \<Rightarrow> bool \<Rightarrow> nat \<Rightarrow> nat option \<times> nat" where
  "strategyRoundRobin S url ps touch idx =
     (let n = length ps
      in if ps = [] then (None, idx)
         else (case find (\<lambda>i. alive S url (ps ! ((idx + i) mod n))) [0..<n] of
                 Some i \<Rightarrow> (Some (ps ! ((idx + i) mod n)), if touch then (idx + Suc i) mod n else idx)
               | None \<Rightarrow> (Some (hd ps), if touch then (idx + n) mod n else idx)))"

text \<open>\<open>draw i\<close> is the bucket of the hash with the \<open>i\<close>-th reading of the clock added; at most four nodes are tried.\<close>

fun sticky_tries :: "group_store \<Rightarrow> string \<Rightarrow> nat list \<Rightarrow> (nat \<Rightarrow> nat) \<Rightarrow> nat \<Rightarrow> nat \<Rightarrow> nat \<Rightarrow> nat option" where
  "sticky_tries S url ps draw 0 i nowIdx = None"
| "sticky_tries S url ps draw (Suc k) i nowIdx =
     (if alive S url (ps ! nowIdx) then Some nowIdx else sticky_tries S url ps draw k (Suc i) (draw i))"

definition strategyStickySessions ::
    "group_store \<Rightarrow> string \<Rightarrow> nat list \<Rightarrow> int \<Rightarrow> (nat \<Rightarrow> 64 word) \<Rightarrow> 64 word \<Rightarrow> (64 word, nat) LruCache
     \<Rightarrow> nat option \<times> (64 word, nat) LruCache" where
  "strategyStickySessions S url ps now nanos key cache =
     (if ps = [] then (None, cache)
      else let draw = (\<lambda>i. bucket (key + nanos i) ps);
               (found, c1) = lru_Get now now key cache;
               idx = (case found of Some i \<Rightarrow> if i < length ps then i else draw 0 | None \<Rightarrow> draw 0)
        in case sticky_tries S url ps draw 4 1 idx of
             Some nowIdx \<Rightarrow>
               (Some (ps ! nowIdx),
                if found = None \<or> nowIdx \<noteq> idx then lru_set now now key nowIdx c1 else c1)
           | None \<Rightarrow> (Some (ps ! 0), lru_set now now key 0 c1))"

datatype strategy = ConsistentHashing | RoundRobin nat | StickySessions "(64 word, nat) LruCache"

record LoadBalance =
  lb_base :: GroupBase
  lb_disableUDP :: bool
  lb_strategy :: strategy
  lb_testUrl :: string
  lb_expectedStatus :: string

definition new_sticky_cache :: "(64 word, nat) LruCache" where
  "new_sticky_cache = lru_new 600 1000 False False False"

definition lb_Unwrap ::
    "rule_ext \<Rightarrow> balance_ext \<Rightarrow> group_store \<Rightarrow> int \<Rightarrow> (nat \<Rightarrow> 64 word) \<Rightarrow> Metadata option \<Rightarrow> bool \<Rightarrow> LoadBalance
     \<Rightarrow> nat option \<times> LoadBalance" where
  "lb_Unwrap X B S now nanos metadata touch lb =
     (let (ps, g) = GetProxies X S (lb_base lb); lb1 = lb\<lparr>lb_base := g\<rparr>; url = lb_testUrl lb
      in case lb_strategy lb of
           ConsistentHashing \<Rightarrow>
             (strategyConsistentHashing S url ps (bx_MapHash B (getKey B metadata)), lb1)
         | RoundRobin idx \<Rightarrow>
             (let (p, idx1) = strategyRoundRobin S url ps touch idx in (p, lb1\<lparr>lb_strategy := RoundRobin idx1\<rparr>))
         | StickySessions cache \<Rightarrow>
             (let (p, c1) = strategyStickySessions S url ps now nanos
                              (bx_MapHash B (getKeyWithSrcAndDst B metadata)) cache
              in (p, lb1\<lparr>lb_strategy := StickySessions c1\<rparr>)))"

section \<open>The parser\<close>

record GroupCommonOption =
  go_Name :: string
  go_Type :: string
  go_Proxies :: "string list"
  go_Use :: "string list"
  go_URL :: string
  go_Interval :: int
  go_TestTimeout :: int
  go_MaxFailedTimes :: int
  go_EmptyFallback :: string
  go_Lazy :: bool
  go_DisableUDP :: bool
  go_Filter :: string
  go_ExcludeFilter :: string
  go_ExcludeType :: string
  go_ExpectedStatus :: string
  go_IncludeAll :: bool
  go_IncludeAllProxies :: bool
  go_IncludeAllProviders :: bool
  go_DefaultSelected :: string
  go_Tolerance :: "16 word"
  go_Strategy :: string

datatype group_error =
    errFormat | errEmptyFallback | errMissProxy | errStatus | errProvider | errProxy | errDuplicateProvider
  | errNoProxy | errType | errStrategy

datatype ProxyGroup = GSelector Selector | GFallback Fallback | GURLTest URLTest | GLoadBalance LoadBalance

text \<open>
  What the parser works on: the store, the proxies and providers by name, and the next free place for
  a provider. \<open>pe_tests\<close> lists the tests registered: provider, address, filter and interval.
\<close>

record parse_env =
  pe_store :: group_store
  pe_proxyMap :: "(string \<times> nat) list"
  pe_providersMap :: "(string \<times> nat) list"
  pe_fresh :: nat
  pe_tests :: "(nat \<times> string \<times> string \<times> int) list"

definition COMPATIBLE :: string where "COMPATIBLE = ''COMPATIBLE''"
definition DefaultTestURL :: string where "DefaultTestURL = ''https://www.gstatic.com/generate_204''"

definition is_group :: "ProxyNode \<Rightarrow> bool" where
  "is_group p = (nd_type p \<in> {AtSelector, AtFallback, AtURLTest, AtLoadBalance})"

fun getProxies :: "(string \<times> nat) list \<Rightarrow> string list \<Rightarrow> nat list option" where
  "getProxies mapping [] = Some []"
| "getProxies mapping (name # names) =
     (case map_of mapping name of None \<Rightarrow> None | Some p \<Rightarrow> map_option ((#) p) (getProxies mapping names))"

fun getProviders :: "group_store \<Rightarrow> (string \<times> nat) list \<Rightarrow> string list \<Rightarrow> nat list option" where
  "getProviders S mapping [] = Some []"
| "getProviders S mapping (name # names) =
     (case map_of mapping name of
        None \<Rightarrow> None
      | Some p \<Rightarrow>
          if pv_compatible (gs_providers S p) then None
          else map_option ((#) p) (getProviders S mapping names))"

definition addTestUrlToProviders :: "nat list \<Rightarrow> string \<Rightarrow> string \<Rightarrow> int \<Rightarrow> (nat \<times> string \<times> string \<times> int) list" where
  "addTestUrlToProviders providers url flt interval =
     (if providers = [] \<or> url = [] then [] else map (\<lambda>pd. (pd, url, flt, interval)) providers)"

text \<open>The options after the defaults of the first part.\<close>

definition include_all :: "(string \<Rightarrow> string \<Rightarrow> bool) \<Rightarrow> string list \<Rightarrow> string list \<Rightarrow> GroupCommonOption \<Rightarrow> GroupCommonOption" where
  "include_all regexp allProxies allProviders o0 =
     (let o1 = (if go_IncludeAll o0 then o0\<lparr>go_IncludeAllProviders := True, go_IncludeAllProxies := True\<rparr> else o0);
          o2 = (if go_IncludeAllProviders o1 then o1\<lparr>go_Use := allProviders\<rparr> else o1)
      in if \<not> go_IncludeAllProxies o2 then o2
         else let more = (if go_Filter o2 \<noteq> []
                          then concat (map (\<lambda>p. map (\<lambda>_. p) (filter (\<lambda>reg. reg p) (regs_of regexp (go_Filter o2)))) allProxies)
                          else allProxies);
                  o3 = o2\<lparr>go_Proxies := go_Proxies o2 @ more\<rparr>
           in if go_Proxies o3 = [] \<and> go_Use o3 = [] then o3\<lparr>go_Proxies := [go_EmptyFallback o3]\<rparr> else o3)"

definition group_base ::
    "(string \<Rightarrow> string \<Rightarrow> bool) \<Rightarrow> AdapterType \<Rightarrow> GroupCommonOption \<Rightarrow> nat \<Rightarrow> nat list \<Rightarrow> GroupBase" where
  "group_base regexp tp opt emptyFallback providers =
     NewGroupBase regexp (go_Name opt) tp (go_Filter opt) (go_ExcludeFilter opt) (go_ExcludeType opt)
       (go_TestTimeout opt) (go_MaxFailedTimes opt) emptyFallback providers"

definition new_group ::
    "(string \<Rightarrow> string \<Rightarrow> bool) \<Rightarrow> GroupCommonOption \<Rightarrow> nat \<Rightarrow> nat list \<Rightarrow> group_error + ProxyGroup" where
  "new_group regexp opt emptyFallback providers =
     (let tp = go_Type opt; base = (\<lambda>t. group_base regexp t opt emptyFallback providers)
      in if tp = ''url-test'' then
           Inr (GURLTest \<lparr>ur_base = base AtURLTest, ur_selected = [], ur_testUrl = go_URL opt,
             ur_expectedStatus = go_ExpectedStatus opt, ur_tolerance = go_Tolerance opt,
             ur_disableUDP = go_DisableUDP opt, ur_fastNode = None, ur_result = None\<rparr>)
         else if tp = ''select'' then
           Inr (GSelector \<lparr>sl_base = base AtSelector, sl_disableUDP = go_DisableUDP opt,
             sl_selected = go_DefaultSelected opt, sl_testUrl = go_URL opt\<rparr>)
         else if tp = ''fallback'' then
           Inr (GFallback \<lparr>fb_base = base AtFallback, fb_disableUDP = go_DisableUDP opt,
             fb_testUrl = go_URL opt, fb_selected = [], fb_expectedStatus = go_ExpectedStatus opt\<rparr>)
         else if tp = ''load-balance'' then
           (case (if go_Strategy opt \<in> {[], ''consistent-hashing''} then Some ConsistentHashing
                  else if go_Strategy opt = ''round-robin'' then Some (RoundRobin 0)
                  else if go_Strategy opt = ''sticky-sessions'' then Some (StickySessions new_sticky_cache)
                  else None) of
              None \<Rightarrow> Inl errStrategy
            | Some st \<Rightarrow>
                Inr (GLoadBalance \<lparr>lb_base = base AtLoadBalance, lb_disableUDP = go_DisableUDP opt,
                  lb_strategy = st, lb_testUrl = go_URL opt, lb_expectedStatus = go_ExpectedStatus opt\<rparr>))
         else Inl errType)"

text \<open>The providers a group uses, with the test address they give it.\<close>

definition use_providers ::
    "GroupCommonOption \<Rightarrow> parse_env \<Rightarrow> (GroupCommonOption \<times> nat list \<times> parse_env) option" where
  "use_providers opt E =
     (if go_Use opt = [] then Some (opt, [], E)
      else (case getProviders (pe_store E) (pe_providersMap E) (go_Use opt) of
              None \<Rightarrow> None
            | Some pds \<Rightarrow>
                if go_URL opt = [] then
                  (case find (\<lambda>u. u \<noteq> []) (map (\<lambda>i. pv_healthCheckURL (gs_providers (pe_store E) i)) pds) of
                     Some u \<Rightarrow> Some (opt\<lparr>go_URL := u\<rparr>, pds, E)
                   | None \<Rightarrow> Some (opt\<lparr>go_URL := DefaultTestURL\<rparr>, pds, E))
                else Some (opt, pds, E\<lparr>pe_tests := pe_tests E @
                       addTestUrlToProviders pds (go_URL opt) (go_Filter opt) (go_Interval opt)\<rparr>)))"

text \<open>The provider of the proxies listed in the group itself, under the group's name.\<close>

definition own_provider ::
    "GroupCommonOption \<Rightarrow> nat list \<Rightarrow> parse_env \<Rightarrow> group_error + GroupCommonOption \<times> nat list \<times> parse_env" where
  "own_provider opt providers E =
     (if go_Proxies opt = [] then Inr (opt, providers, E)
      else (case getProxies (pe_proxyMap E) (go_Proxies opt) of
              None \<Rightarrow> Inl errProxy
            | Some ps \<Rightarrow>
                if map_of (pe_providersMap E) (go_Name opt) \<noteq> None then Inl errDuplicateProvider
                else let o1 = (if go_URL opt = [] then opt\<lparr>go_URL := DefaultTestURL\<rparr> else opt);
                         o2 = (if go_Type o1 \<notin> {''select'', ''relay''} \<and> go_Interval o1 = 0
                               then o1\<lparr>go_Interval := 300\<rparr> else o1);
                         pd = \<lparr>pv_version = 0, pv_compatible = True, pv_proxies = ps,
                               pv_healthCheckURL = go_URL o2, pv_lastTouch = 0\<rparr>;
                         i = pe_fresh E; S = pe_store E
                  in if ps = [] then Inl errNoProxy
                     else Inr (o2, i # providers,
                       E\<lparr>pe_store := S\<lparr>gs_providers := (gs_providers S)(i := pd)\<rparr>,
                         pe_providersMap := (go_Name opt, i) # pe_providersMap E, pe_fresh := Suc i\<rparr>)))"

definition ParseProxyGroup ::
    "(string \<Rightarrow> string \<Rightarrow> bool) \<Rightarrow> string list \<Rightarrow> string list \<Rightarrow> GroupCommonOption \<Rightarrow> parse_env
     \<Rightarrow> (group_error + ProxyGroup) \<times> parse_env" where
  "ParseProxyGroup regexp allProxies allProviders opt0 E =
     (let opt = (if go_EmptyFallback opt0 = [] then opt0\<lparr>go_EmptyFallback := COMPATIBLE\<rparr> else opt0)
      in if go_Type opt = [] \<or> go_Name opt = [] then (Inl errFormat, E)
         else case map_of (pe_proxyMap E) (go_EmptyFallback opt) of
                None \<Rightarrow> (Inl errEmptyFallback, E)
              | Some ef \<Rightarrow>
                  if is_group (gs_nodes (pe_store E) ef) then (Inl errEmptyFallback, E)
                  else let o1 = include_all regexp allProxies allProviders opt
                    in if go_Proxies o1 = [] \<and> go_Use o1 = [] then (Inl errMissProxy, E)
                       else if (newIntRanges (go_ExpectedStatus o1) :: 16 word int_range list option) = None
                       then (Inl errStatus, E)
                       else let status = trim_space (go_ExpectedStatus o1);
                                o2 = o1\<lparr>go_ExpectedStatus := (if status = [] then ''*'' else status)\<rparr>
                         in case use_providers o2 E of
                              None \<Rightarrow> (Inl errProvider, E)
                            | Some (o3, pds, E1) \<Rightarrow>
                                (case own_provider o3 pds E1 of
                                   Inl e \<Rightarrow> (Inl e, E1)
                                 | Inr (o4, provs, E2) \<Rightarrow> (new_group regexp o4 ef provs, E2)))"

end
