(* ===== verification/GroupProps.thy ===== *)
theory GroupProps
  imports GroupParse RouteProps
begin

text \<open>
  What the groups promise: a group the parser accepted always has a node to dial, whatever happens to
  its providers; an alive node is chosen when there is one; the fastest node is within the tolerance;
  a new node takes connections from the others only for itself; and the turns of a round robin.
\<close>

section \<open>The members of a group\<close>

lemma pick_one_subset: "set (fst (pick_one S reg p acc)) \<subseteq> insert p (set (fst acc))"
  by (auto simp: pick_one_def Let_def)

lemma fold_pick_one:
  assumes "\<And>p. p \<in> set (fst acc) \<Longrightarrow> Q p" and "\<And>p. p \<in> set ps \<Longrightarrow> reg (node_name S p) \<Longrightarrow> Q p"
  shows "p \<in> set (fst (fold (pick_one S reg) ps acc)) \<Longrightarrow> Q p"
  using assms
proof (induction ps arbitrary: acc)
  case (Cons x ps)
  show ?case
    by (rule Cons.IH [of "pick_one S reg x acc"])
       (use Cons.prems in \<open>auto simp: pick_one_def Let_def split: if_splits\<close>)
qed simp

text \<open>Every node picked comes from the list and matches one of the expressions.\<close>

lemma pick_matching_from:
  assumes "p \<in> set (fst (pick_matching S regs ps))"
  shows "p \<in> set ps \<and> (\<exists>reg \<in> set regs. reg (node_name S p))"
proof -
  have "p \<in> set (fst (fold (\<lambda>reg acc. fold (pick_one S reg) ps acc) rs acc)) \<Longrightarrow> set rs \<subseteq> set regs \<Longrightarrow>
      (\<And>p. p \<in> set (fst acc) \<Longrightarrow> p \<in> set ps \<and> (\<exists>reg \<in> set regs. reg (node_name S p))) \<Longrightarrow>
      p \<in> set ps \<and> (\<exists>reg \<in> set regs. reg (node_name S p))" for rs acc
  proof (induction rs arbitrary: acc)
    case (Cons r rs)
    show ?case
    proof (rule Cons.IH [of "fold (pick_one S r) ps acc"])
      fix q assume q: "q \<in> set (fst (fold (pick_one S r) ps acc))"
      show "q \<in> set ps \<and> (\<exists>reg \<in> set regs. reg (node_name S q))"
        by (rule fold_pick_one [OF _ _ q]) (use Cons.prems in auto)
    qed (use Cons.prems in auto)
  qed simp
  from this [of regs "([], [])"] assms show ?thesis by (simp add: pick_matching_def)
qed

definition wanted :: "group_store \<Rightarrow> GroupBase \<Rightarrow> nat \<Rightarrow> bool" where
  "wanted S g p = (\<exists>i \<in> set (gb_providers g). p \<in> set (pv_proxies (gs_providers S i)) \<and>
     (gb_filterRegs g = [] \<or> pv_compatible (gs_providers S i) \<or>
      (\<exists>reg \<in> set (gb_filterRegs g). reg (node_name S p))))"

lemma filtered_wanted: "p \<in> set (filtered S g) \<Longrightarrow> wanted S g p"
  by (auto simp: filtered_def wanted_def Let_def dest: pick_matching_from split: if_splits)

lemma reordered_subset: "p \<in> set (reordered S g ps) \<Longrightarrow> p \<in> set ps"
proof (cases "length (gb_providers g) > 1 \<and> length (gb_filterRegs g) > 1")
  case True
  assume "p \<in> set (reordered S g ps)"
  then have "p \<in> set (fst (fold (pick_one S (\<lambda>_. True)) ps (pick_matching S (gb_filterRegs g) ps)))"
    using True by (simp add: reordered_def)
  then show ?thesis
    by (rule fold_pick_one [rotated 2]) (auto dest: pick_matching_from)
qed (auto simp: reordered_def)

lemma member_wanted: "p \<in> set (members X S g) \<Longrightarrow> wanted S g p \<and> \<not> excluded X S g p"
  by (auto simp: members_def dest: reordered_subset filtered_wanted)

definition base_ok :: "GroupBase \<Rightarrow> bool" where
  "base_ok g = (gb_providers g \<noteq> [] \<and> (gb_versions g \<noteq> [] \<longrightarrow> gb_proxies g \<noteq> []))"

lemma GetProxies_ok:
  assumes "base_ok g" and "GetProxies X S g = (ps, g')"
  shows "ps \<noteq> [] \<and> base_ok g'"
  using assms by (auto simp: GetProxies_def base_ok_def versions_of_def Let_def split: if_splits)

text \<open>What is remembered is what would be computed, as long as versions tell the contents apart.\<close>

definition remembered :: "rule_ext \<Rightarrow> group_store \<Rightarrow> GroupBase \<Rightarrow> bool" where
  "remembered X S g = (versions_of S g = gb_versions g \<longrightarrow> gb_proxies g = members X S g \<and> gb_proxies g \<noteq> [])"

lemma GetProxies_members:
  assumes "remembered X S g" and "GetProxies X S g = (ps, g')"
  shows "ps = (if members X S g = [] then [gb_emptyFallback g] else members X S g) \<and> remembered X S g'"
proof -
  have "members X S (g\<lparr>gb_versions := v, gb_proxies := qs\<rparr>) = members X S g" for v qs
    by (simp add: members_def reordered_def filtered_def excluded_def Let_def cong: if_cong)
  with assms show ?thesis
    by (auto simp: GetProxies_def remembered_def versions_of_def Let_def split: if_splits)
qed

section \<open>An accepted group has a node to dial\<close>

definition group_choose ::
    "rule_ext \<Rightarrow> balance_ext \<Rightarrow> group_store \<Rightarrow> int \<Rightarrow> (nat \<Rightarrow> 64 word) \<Rightarrow> Metadata option \<Rightarrow> bool \<Rightarrow> ProxyGroup
     \<Rightarrow> nat option \<times> ProxyGroup" where
  "group_choose X B S now nanos m touch G =
     (case G of
        GSelector s \<Rightarrow> map_prod id GSelector (selectedProxy X S s)
      | GFallback f \<Rightarrow> map_prod id GFallback (findAliveProxy X S f)
      | GURLTest u \<Rightarrow> map_prod id GURLTest (ur_fast X S now u)
      | GLoadBalance lb \<Rightarrow> map_prod id GLoadBalance (lb_Unwrap X B S now nanos m touch lb))"

definition the_base :: "ProxyGroup \<Rightarrow> GroupBase" where
  "the_base G = (case G of GSelector s \<Rightarrow> sl_base s | GFallback f \<Rightarrow> fb_base f
     | GURLTest u \<Rightarrow> ur_base u | GLoadBalance lb \<Rightarrow> lb_base lb)"

definition map_base :: "(GroupBase \<Rightarrow> GroupBase) \<Rightarrow> ProxyGroup \<Rightarrow> ProxyGroup" where
  "map_base h G =
     (case G of GSelector s \<Rightarrow> GSelector (s\<lparr>sl_base := h (sl_base s)\<rparr>)
      | GFallback f \<Rightarrow> GFallback (f\<lparr>fb_base := h (fb_base f)\<rparr>)
      | GURLTest u \<Rightarrow> GURLTest (u\<lparr>ur_base := h (ur_base u)\<rparr>)
      | GLoadBalance l \<Rightarrow> GLoadBalance (l\<lparr>lb_base := h (lb_base l)\<rparr>))"

text \<open>The operations of a group; the store is any store at every step.\<close>

inductive group_step :: "ProxyGroup \<Rightarrow> ProxyGroup \<Rightarrow> bool" where
  choose_step: "group_step G (snd (group_choose X B S now nanos m touch G))"
| select_step: "group_step (GSelector s) (GSelector (snd (sl_Set X S name s)))"
| force_select_step: "group_step (GSelector s) (GSelector (sl_ForceSet name s))"
| fix_step: "group_step (GFallback f) (GFallback (snd (fb_Set X S name f)))"
| force_fix_step: "group_step (GFallback f) (GFallback (fb_ForceSet name f))"
| fast_step: "group_step (GURLTest u) (GURLTest (snd (ur_Set X S name u)))"
| force_fast_step: "group_step (GURLTest u) (GURLTest (ur_ForceSet name u))"
| forget_step: "group_step (GURLTest u) (GURLTest (u\<lparr>ur_result := None\<rparr>))"
| failed_step: "group_step G (map_base (\<lambda>g. snd (onDialFailed tp ns rf now g)) G)"
| dialed_step: "group_step G (map_base onDialSuccess G)"
| check_begins: "group_step G (map_base (\<lambda>g. snd (healthCheck_start g)) G)"
| check_ends: "group_step G (map_base healthCheck_end G)"

inductive group_run :: "ProxyGroup \<Rightarrow> ProxyGroup \<Rightarrow> bool" where
  group_none: "group_run G G"
| group_more: "group_run G H \<Longrightarrow> group_step H K \<Longrightarrow> group_run G K"

definition group_ok :: "ProxyGroup \<Rightarrow> bool" where
  "group_ok G = (base_ok (the_base G) \<and>
     (case G of GURLTest u \<Rightarrow> (case ur_result u of Some (v, t) \<Rightarrow> v \<noteq> None | None \<Rightarrow> True) | _ \<Rightarrow> True))"

lemma choose_fast_some: "ps \<noteq> [] \<Longrightarrow> choose_fast S u ps \<noteq> None"
  by (cases ps) (auto simp: choose_fast_def Let_def split: option.split)

lemma find_alive_member: "find_alive S url ps sel = (Some p, sel') \<Longrightarrow> p \<in> set ps \<and> alive S url p"
  by (induction S url ps sel rule: find_alive.induct) (auto split: if_splits)

lemma balance_some:
  assumes "ps \<noteq> []"
  shows "strategyConsistentHashing S url ps key \<noteq> None"
    and "fst (strategyRoundRobin S url ps touch idx) \<noteq> None"
    and "fst (strategyStickySessions S url ps now nanos key c) \<noteq> None"
  using assms
  by (auto simp: strategyConsistentHashing_def strategyRoundRobin_def strategyStickySessions_def Let_def
      split: option.split prod.split)

lemma choose_ok:
  assumes "group_ok G"
  shows "fst (group_choose X B S now nanos m touch G) \<noteq> None \<and>
    group_ok (snd (group_choose X B S now nanos m touch G))"
proof -
  obtain ps g where g: "GetProxies X S (the_base G) = (ps, g)" by (rule prod.exhaust)
  have ok: "ps \<noteq> []" "base_ok g" using GetProxies_ok [OF _ g] assms by (auto simp: group_ok_def)
  show ?thesis
  proof (cases G)
    case (GSelector s)
    with g ok show ?thesis
      by (simp add: group_choose_def the_base_def selectedProxy_def group_ok_def Let_def split: option.split)
  next
    case (GFallback f)
    with g ok show ?thesis
      by (simp add: group_choose_def the_base_def findAliveProxy_def group_ok_def Let_def
          split: option.split prod.split)
  next
    case (GURLTest u)
    with g ok assms choose_fast_some [OF ok(1)] show ?thesis
      by (auto simp: group_choose_def the_base_def ur_fast_def group_ok_def Let_def
          split: option.split prod.split)
  next
    case (GLoadBalance l)
    with g ok balance_some [OF ok(1)] show ?thesis
      by (auto simp: group_choose_def the_base_def lb_Unwrap_def group_ok_def Let_def prod_eq_iff
          split: strategy.split prod.split)
  qed
qed

lemma base_ok_failed: "base_ok g \<Longrightarrow> base_ok (snd (onDialFailed tp ns rf now g))"
  by (simp add: base_ok_def onDialFailed_def Let_def)

lemma base_ok_counters:
  "base_ok g \<Longrightarrow> base_ok (onDialSuccess g)" "base_ok g \<Longrightarrow> base_ok (snd (healthCheck_start g))"
  "base_ok g \<Longrightarrow> base_ok (healthCheck_end g)"
  by (simp_all add: base_ok_def onDialSuccess_def healthCheck_start_def healthCheck_end_def)

lemma map_base_ok: "group_ok G \<Longrightarrow> (\<And>g. base_ok g \<Longrightarrow> base_ok (h g)) \<Longrightarrow> group_ok (map_base h G)"
  by (cases G) (simp_all add: group_ok_def map_base_def the_base_def)

lemma group_step_ok: "group_step G H \<Longrightarrow> group_ok G \<Longrightarrow> group_ok H"
proof (induction rule: group_step.induct)
  case (choose_step G X B S now nanos m touch)
  then show ?case using choose_ok by blast
next
  case (select_step s X S name)
  then show ?case
    by (cases "GetProxies X S (sl_base s)") (auto simp: sl_Set_def group_ok_def the_base_def Let_def dest: GetProxies_ok)
next
  case (fix_step f X S name)
  then show ?case
    by (cases "GetProxies X S (fb_base f)")
       (auto simp: fb_Set_def group_ok_def the_base_def Let_def dest: GetProxies_ok split: option.split)
next
  case (fast_step u X S name)
  then show ?case
    by (cases "GetProxies X S (ur_base u)")
       (auto simp: ur_Set_def ur_ForceSet_def group_ok_def the_base_def Let_def dest: GetProxies_ok)
next
  case failed_step
  then show ?case by (blast intro: map_base_ok base_ok_failed)
next
  case dialed_step
  then show ?case by (blast intro: map_base_ok base_ok_counters)
next
  case check_begins
  then show ?case by (blast intro: map_base_ok base_ok_counters)
next
  case check_ends
  then show ?case by (blast intro: map_base_ok base_ok_counters)
qed (simp_all add: group_ok_def the_base_def sl_ForceSet_def fb_ForceSet_def ur_ForceSet_def)

lemma group_run_ok: "group_run G H \<Longrightarrow> group_ok G \<Longrightarrow> group_ok H"
  by (induction rule: group_run.induct) (auto dest: group_step_ok)

lemma getProviders_length: "getProviders S mp names = Some ps \<Longrightarrow> length ps = length names"
  by (induction names arbitrary: ps) (auto split: option.splits if_splits)

lemma new_group_ok: "new_group regexp opt ef provs = Inr G \<Longrightarrow> provs \<noteq> [] \<Longrightarrow> group_ok G"
  by (auto simp: new_group_def group_base_def NewGroupBase_def group_ok_def the_base_def base_ok_def Let_def
      split: if_splits option.splits)

lemma parsed_group_ok:
  assumes "ParseProxyGroup regexp ap apr opt E = (Inr G, E')"
  shows "group_ok G"
proof -
  obtain o2 o3 o4 pds E1 provs ef where
    u: "use_providers o2 E = Some (o3, pds, E1)" and w: "own_provider o3 pds E1 = Inr (o4, provs, E')"
    and n: "new_group regexp o4 ef provs = Inr G" and ne: "\<not> (go_Proxies o2 = [] \<and> go_Use o2 = [])"
    using assms
    by (auto simp: ParseProxyGroup_def Let_def split: if_splits option.splits sum.splits)
  have p: "go_Proxies o3 = go_Proxies o2" and d: "go_Use o2 = [] \<or> pds \<noteq> []"
    using u by (auto simp: use_providers_def Let_def dest: getProviders_length split: if_splits option.splits)
  have "provs \<noteq> []"
    using w p d ne by (auto simp: own_provider_def Let_def split: if_splits option.splits)
  with n show ?thesis by (rule new_group_ok)
qed


section \<open>Alive nodes are preferred\<close>

lemma find_first: "find P xs = Some x \<Longrightarrow> P x \<and> x \<in> set xs"
  by (induction xs) (auto split: if_splits)

lemma find_exists: "\<exists>x \<in> set xs. P x \<Longrightarrow> \<exists>x. find P xs = Some x"
  by (induction xs) auto

lemma hash_tries_alive: "hash_tries S url ps k key = Some p \<Longrightarrow> alive S url p"
  by (induction k arbitrary: key) (auto simp: Let_def split: if_splits)

lemma hashing_alive:
  assumes "\<exists>q \<in> set ps. alive S url q" and "strategyConsistentHashing S url ps key = Some p"
  shows "alive S url p"
  using assms find_exists [OF assms(1)]
  by (auto simp: strategyConsistentHashing_def dest: find_first hash_tries_alive split: option.splits if_splits)

lemma round_robin_alive:
  assumes "\<exists>q \<in> set ps. alive S url q" and "strategyRoundRobin S url ps touch idx = (Some p, idx')"
  shows "alive S url p"
proof -
  let ?n = "length ps"
  obtain j where j: "j < ?n" "alive S url (ps ! j)" using assms(1) by (auto simp: in_set_conv_nth)
  define i where "i = (?n - idx mod ?n + j) mod ?n"
  have "(idx + i) mod ?n = (idx mod ?n + (?n - idx mod ?n + j)) mod ?n"
    by (simp add: i_def mod_simps)
  moreover have "idx mod ?n < ?n" using j(1) by (intro mod_less_divisor) auto
  ultimately have "(idx + i) mod ?n = j" using j(1) by simp
  moreover have "i < ?n" using j(1) by (auto simp: i_def intro: mod_less_divisor)
  ultimately have "\<exists>i \<in> set [0..<?n]. alive S url (ps ! ((idx + i) mod ?n))" using j by auto
  from find_exists [OF this] obtain k where
    "find (\<lambda>i. alive S url (ps ! ((idx + i) mod ?n))) [0..<?n] = Some k" by blast
  with assms(2) j(1) find_first [OF this] show ?thesis by (auto simp: strategyRoundRobin_def Let_def split: if_splits)
qed

lemma fallback_first_alive:
  assumes "\<exists>q \<in> set ps. alive S url q"
  shows "find_alive S url ps [] = (find (alive S url) ps, []) \<and> find (alive S url) ps \<noteq> None"
  using assms by (induction ps) auto

text \<open>
  A dead selected node is forgotten in the middle of the loop, and the nodes before it are not looked
  at again: the choice may be a dead node although an alive one is there.
\<close>

definition small_node :: "string \<Rightarrow> bool \<Rightarrow> 16 word \<Rightarrow> ProxyNode" where
  "small_node name up d =
     (NewProxy name AtShadowsocks True)\<lparr>nd_alive := up,
        nd_extra := [(''u'', \<lparr>ip_alive = up, ip_history = [\<lparr>dh_Time = 0, dh_Delay = d\<rparr>]\<rparr>)]\<rparr>"

definition small_store :: "ProxyNode list \<Rightarrow> group_store" where
  "small_store ns = \<lparr>gs_nodes = (\<lambda>i. ns ! i),
     gs_providers = (\<lambda>_. \<lparr>pv_version = 1, pv_compatible = True, pv_proxies = [0..<length ns],
                          pv_healthCheckURL = ''u'', pv_lastTouch = 0\<rparr>)\<rparr>"

lemma fallback_skips_alive:
  "find_alive (small_store [small_node ''a'' False 0, small_node ''b'' True 50, small_node ''c'' False 0]) ''u''
     [0, 1, 2] ''c'' = (None, [])"
  by (simp add: small_store_def small_node_def NewProxy_def node_name_def alive_def AliveForTestUrl_def
      numeral_2_eq_2)

section \<open>The fastest node\<close>

lemma fastest_spec:
  "fastest S url ps (p0, d0) = (p, d) \<Longrightarrow> d \<le> d0 \<and> (\<forall>q \<in> set ps. alive S url q \<longrightarrow> d \<le> delay S url q) \<and>
    ((p, d) = (p0, d0) \<or> p \<in> set ps \<and> alive S url p \<and> d = delay S url p)"
proof (induction ps arbitrary: p0 d0)
  case (Cons x ps)
  show ?case
  proof (cases "alive S url x \<and> delay S url x < d0")
    case True
    with Cons.prems have "fastest S url ps (x, delay S url x) = (p, d)" by simp
    from Cons.IH [OF this] True show ?thesis by auto
  next
    case False
    with Cons.prems have "fastest S url ps (p0, d0) = (p, d)" by auto
    from Cons.IH [OF this] False show ?thesis by (auto simp: not_less)
  qed
qed simp


text \<open>The first node of a group is given up for any faster one, whatever the tolerance.\<close>

definition small_fast :: "nat option \<Rightarrow> URLTest" where
  "small_fast n =
     \<lparr>ur_base = NewGroupBase (\<lambda>_ _. True) ''auto'' AtURLTest [] [] [] 0 0 0 [0], ur_selected = [], ur_testUrl = ''u'',
      ur_expectedStatus = ''*'', ur_tolerance = 50, ur_disableUDP = False, ur_fastNode = n, ur_result = None\<rparr>"

lemmas small_simps =
  small_store_def small_node_def NewProxy_def node_name_def alive_def AliveForTestUrl_def delay_def
  LastDelayForTestUrl_def queue_Last_def small_fast_def

lemma first_node_not_kept:
  "choose_fast (small_store [small_node ''a'' True 100, small_node ''b'' True 99]) (small_fast (Some 0)) [0, 1] = Some 1"
  "choose_fast (small_store [small_node ''b'' True 99, small_node ''a'' True 100]) (small_fast (Some 1)) [0, 1] = Some 1"
  by (simp_all add: choose_fast_def Let_def small_simps)

section \<open>Balancing\<close>

lemma bucket_word:
  assumes "ps \<noteq> []" and "length ps < 2 ^ 31"
  shows "0 < sint (word_of_nat (length ps) :: 32 word)" "sint (word_of_nat (length ps) :: 32 word) = int (length ps)"
  using assms sint_small [of "length ps"] by simp_all

lemma bucket_less:
  assumes "ps \<noteq> []" and "length ps < 2 ^ 31"
  shows "bucket key ps < length ps"
  using jumpHash_range [OF bucket_word(1) [OF assms], of key] bucket_word(2) [OF assms]
  by (simp add: bucket_def nat_less_iff)

lemma bucket_append:
  assumes "ps \<noteq> []" and "length ps + 1 < 2 ^ 31"
  shows "bucket key (ps @ [q]) = bucket key ps \<or> bucket key (ps @ [q]) = length ps"
proof -
  let ?n = "word_of_nat (length ps) :: 32 word"
  have n: "sint ?n = int (length ps)" "0 < sint ?n" using bucket_word [of ps] assms by simp_all
  have s: "word_of_nat (length (ps @ [q])) = ?n + 1" by (simp add: add.commute)
  moreover have "sint (word_of_nat (length (ps @ [q])) :: 32 word) = int (length (ps @ [q]))"
    by (rule bucket_word(2)) (use assms in auto)
  ultimately have "sint (?n + 1) = sint ?n + 1" using n by (simp add: add.commute)
  from jumpHash_next [OF n(2) this, of key] show ?thesis
    unfolding bucket_def s using n by auto
qed

text \<open>
  Property C18. While all nodes are alive, adding a node at the end of a group that hashes moves a connection to the new
  node or leaves it where it was; no connection moves between the old nodes.
\<close>

theorem balance_moves_to_new_only:
  assumes "ps \<noteq> []" and "length ps + 1 < 2 ^ 31" and "\<forall>p \<in> set (ps @ [q]). alive S url p"
  shows "strategyConsistentHashing S url (ps @ [q]) key \<in> {strategyConsistentHashing S url ps key, Some q}"
proof -
  have tries: "hash_tries S url xs 5 key = Some (xs ! bucket key xs)" if "alive S url (xs ! bucket key xs)" for xs
    using hash_tries.simps(2) [of S url xs 4 key] that by simp
  have b: "bucket key ps < length ps" using bucket_less [of ps key] assms(1,2) by simp
  then have "strategyConsistentHashing S url ps key = Some (ps ! bucket key ps)"
    using assms(1,3) by (simp add: strategyConsistentHashing_def tries)
  moreover have "strategyConsistentHashing S url (ps @ [q]) key = Some ((ps @ [q]) ! bucket key (ps @ [q]))"
    using bucket_append [OF assms(1,2), of key q] b assms(3)
    by (auto simp: strategyConsistentHashing_def tries nth_append)
  ultimately show ?thesis using bucket_append [OF assms(1,2), of key q] b by (auto simp: nth_append)
qed

primrec rr_turns :: "group_store \<Rightarrow> string \<Rightarrow> nat list \<Rightarrow> nat \<Rightarrow> nat \<Rightarrow> nat option list" where
  "rr_turns S url ps idx 0 = []"
| "rr_turns S url ps idx (Suc k) =
     (let (p, idx1) = strategyRoundRobin S url ps True idx in p # rr_turns S url ps idx1 k)"

text \<open>While all nodes are alive, connections go to them in turn.\<close>

lemma round_robin_takes_turns:
  assumes "ps \<noteq> []" and "\<forall>p \<in> set ps. alive S url p"
  shows "rr_turns S url ps idx k = map (\<lambda>i. Some (ps ! ((idx + i) mod length ps))) [0..<k]"
proof (induction k arbitrary: idx)
  case (Suc k)
  have "strategyRoundRobin S url ps True idx = (Some (ps ! (idx mod length ps)), Suc idx mod length ps)"
  proof -
    have "[0..<length ps] = 0 # [1..<length ps]" using assms(1) by (simp add: upt_conv_Cons)
    moreover have "alive S url (ps ! (idx mod length ps))" using assms by simp
    ultimately show ?thesis using assms(1) by (simp add: strategyRoundRobin_def Let_def)
  qed
  moreover have "map (\<lambda>i. Some (ps ! ((Suc idx mod length ps + i) mod length ps))) [0..<k] =
      map (\<lambda>i. Some (ps ! ((idx + Suc i) mod length ps))) [0..<k]"
    by (simp add: mod_simps)
  moreover have "[0..<Suc k] = 0 # map Suc [0..<k]" by (simp add: upt_conv_Cons map_Suc_upt)
  ultimately show ?case by (simp add: Suc.IH comp_def)
qed simp

text \<open>
  A connection whose remembered place lies behind the end of a group that became smaller gets a new random
  place, which is not remembered: it is drawn anew for every connection.
\<close>

lemma sticky_place_forgotten:
  assumes "lru_Get now now key cache = (Some i, c1)" and "length ps \<le> i" and "ps \<noteq> []"
    and "alive S url (ps ! bucket (key + nanos 0) ps)"
  shows "strategyStickySessions S url ps now nanos key cache = (Some (ps ! bucket (key + nanos 0) ps), c1)"
proof -
  have "sticky_tries S url ps draw 4 1 i = Some i" if "alive S url (ps ! i)" for draw i
    using sticky_tries.simps(2) [of S url ps draw 3 1 i] that by simp
  with assms show ?thesis by (simp add: strategyStickySessions_def Let_def)
qed

section \<open>Failures and health checks\<close>

primrec failures :: "AdapterType \<Rightarrow> int list \<Rightarrow> GroupBase \<Rightarrow> bool list" where
  "failures tp [] g = []"
| "failures tp (t # ts) g = (let (fn, g1) = onDialFailed tp False False t g in fn # failures tp ts g1)"

text \<open>
  Failures within the time limit after the first: the health check runs from the failure on that reaches
  the configured number, but never on the first, so a number of 1 acts as 2.
\<close>

lemma failures_from:
  assumes "tp \<notin> {AtDirect, AtCompatible, AtReject, AtPass, AtRejectDrop}"
  shows "1 \<le> gb_failedTimes g \<Longrightarrow>
    \<forall>t \<in> set ts. time_sub t (gb_failedTime g) \<le> gb_testTimeout g * 1000000 \<Longrightarrow>
    failures tp ts g = map (\<lambda>k. gb_failedTimes g + int k \<ge> gb_maxFailedTimes g) [1..<Suc (length ts)]"
proof (induction ts arbitrary: g)
  case (Cons t ts)
  let ?g = "g\<lparr>gb_failedTimes := gb_failedTimes g + 1\<rparr>"
  have "onDialFailed tp False False t g = (gb_failedTimes g + 1 \<ge> gb_maxFailedTimes g, ?g)"
    using Cons.prems assms by (auto simp: onDialFailed_def Let_def)
  moreover have "failures tp ts ?g =
      map (\<lambda>k. gb_failedTimes ?g + int k \<ge> gb_maxFailedTimes ?g) [1..<Suc (length ts)]"
    by (rule Cons.IH) (use Cons.prems in auto)
  moreover have "[1..<Suc (length (t # ts))] = 1 # map Suc [1..<Suc (length ts)]"
    by (simp add: upt_conv_Cons map_Suc_upt del: upt_Suc)
  ultimately show ?case by (simp add: comp_def add.assoc del: upt_Suc)
qed simp

lemma failures_trigger:
  assumes "tp \<notin> {AtDirect, AtCompatible, AtReject, AtPass, AtRejectDrop}" and "gb_failedTimes g = 0"
    and "\<forall>t' \<in> set ts. time_sub t' t \<le> gb_testTimeout g * 1000000"
  shows "failures tp (t # ts) g = False # map (\<lambda>k. 1 + int k \<ge> gb_maxFailedTimes g) [1..<Suc (length ts)]"
proof -
  let ?g = "g\<lparr>gb_failedTimes := 1, gb_failedTime := t\<rparr>"
  have "onDialFailed tp False False t g = (False, ?g)"
    using assms(1,2) by (auto simp: onDialFailed_def Let_def)
  moreover have "failures tp ts ?g = map (\<lambda>k. gb_failedTimes ?g + int k \<ge> gb_maxFailedTimes ?g) [1..<Suc (length ts)]"
    by (rule failures_from [OF assms(1)]) (use assms(3) in auto)
  ultimately show ?thesis by simp
qed

section \<open>A small configuration\<close>

definition small_option :: GroupCommonOption where
  "small_option =
     \<lparr>go_Name = ''auto'', go_Type = ''url-test'', go_Proxies = [''a'', ''b''], go_Use = [], go_URL = [],
      go_Interval = 0, go_TestTimeout = 0, go_MaxFailedTimes = 0, go_EmptyFallback = [], go_Lazy = True,
      go_DisableUDP = False, go_Filter = [], go_ExcludeFilter = [], go_ExcludeType = [],
      go_ExpectedStatus = [], go_IncludeAll = False, go_IncludeAllProxies = False,
      go_IncludeAllProviders = False, go_DefaultSelected = [], go_Tolerance = 50, go_Strategy = []\<rparr>"

definition small_env :: parse_env where
  "small_env =
     \<lparr>pe_store = \<lparr>gs_nodes = (\<lambda>i. if i = 0 then NewProxy COMPATIBLE AtCompatible True
                                   else NewProxy ''n'' AtShadowsocks True),
        gs_providers = (\<lambda>_. \<lparr>pv_version = 0, pv_compatible = False, pv_proxies = [],
                             pv_healthCheckURL = [], pv_lastTouch = 0\<rparr>)\<rparr>,
      pe_proxyMap = [(COMPATIBLE, 0), (''a'', 1), (''b'', 2)], pe_providersMap = [], pe_fresh = 0, pe_tests = []\<rparr>"

lemma small_parsed: "\<exists>G E. ParseProxyGroup (\<lambda>_ _. True) [] [] small_option small_env = (Inr G, E)"
proof -
  have "(newIntRanges [] :: 16 word int_range list option) = Some []" by code_simp
  moreover have "trim_space [] = []" by code_simp
  ultimately show ?thesis
    by (simp add: ParseProxyGroup_def small_option_def small_env_def COMPATIBLE_def is_group_def NewProxy_def
        include_all_def use_providers_def own_provider_def new_group_def Let_def)
qed



theorem balance_moves_to_new_only_witness:
  "strategyConsistentHashing (small_store [small_node ''a'' True 1, small_node ''b'' True 1]) ''u'' [0, 1] 7 \<in> {Some 0, Some 1}"
proof -
  let ?S = "small_store [small_node ''a'' True 1, small_node ''b'' True 1]"
  have "strategyConsistentHashing ?S ''u'' ([0] @ [1]) 7 \<in> {strategyConsistentHashing ?S ''u'' [0] 7, Some 1}"
    by (rule balance_moves_to_new_only) (simp_all add: small_simps)
  moreover have "strategyConsistentHashing ?S ''u'' [0] 7 = Some 0"
    using find_first [of "alive ?S ''u''" "[0]"] bucket_less [of "[0]" 7] hash_tries.simps(2) [of ?S "''u''" "[0]" 4 7]
    by (simp add: strategyConsistentHashing_def small_simps)
  ultimately show ?thesis by simp
qed

end
